(* ===== verification/Prelude.thy ===== *)
theory Prelude
  imports Main "HOL-Library.Signed_Division" "HOL-Library.Log_Nat" "HOL-Library.Multiset"
begin

text \<open>
  The vocabulary every component shares: the collections of rewrite and invariant rules, the
  parts of the JavaScript standard library the source uses (\<open>BigInt\<close> division, \<open>Number\<close> of a
  \<open>BigInt\<close>, \<open>Date\<close>, decimal printing and \<open>BigInt(string)\<close>, \<open>toLowerCase\<close>, \<open>Array.prototype.sort\<close>
  and \<open>slice\<close>), and the list lemmas the components reuse. A \<open>bigint\<close> is an \<open>int\<close>; a string is a
  list of UTF-16 code units below 256; a \<open>Date\<close> is its number of milliseconds.
\<close>

named_theorems handler_defs \<open>definitions of event handlers and of the helpers they call\<close>
named_theorems step_rules \<open>rules that push a step relation through a procedure\<close>
named_theorems store_simps \<open>what a table lookup returns after an operation\<close>

section \<open>Numbers\<close>

text \<open>\<open>a / b\<close> on \<open>BigInt\<close> truncates towards zero; callers rule out \<open>b = 0\<close> first, where the
  language throws a \<open>RangeError\<close>.\<close>

definition bigint_div :: "int \<Rightarrow> int \<Rightarrow> int" where
  "bigint_div a b = a sdiv b"

lemma bigint_div_nonneg [simp]: "0 \<le> a \<Longrightarrow> 0 \<le> b \<Longrightarrow> bigint_div a b = a div b"
  by (auto simp: bigint_div_def signed_divide_int_def sgn_if)

lemma bigint_div_bounds:
  assumes "0 \<le> a" "0 < b"
  shows "b * bigint_div a b \<le> a" "a < b * (bigint_div a b + 1)"
proof -
  have eq: "b * (a div b) + a mod b = a" by simp
  have lo: "0 \<le> a mod b" and hi: "a mod b < b" using assms by auto
  show "b * bigint_div a b \<le> a" using assms eq lo by (simp only: bigint_div_nonneg less_imp_le)
  show "a < b * (bigint_div a b + 1)" using assms eq hi
    by (simp only: bigint_div_nonneg less_imp_le distrib_left mult_1_right)
qed

text \<open>\<open>Number(v)\<close> of a \<open>BigInt\<close>: the nearest double, ties to an even significand. Every value
  the program converts is below \<open>2 ^ 256\<close>, so the result is finite and an integer.\<close>

definition round_even :: "nat \<Rightarrow> nat \<Rightarrow> nat" where
  "round_even n k =
     (let q = n div 2 ^ k; r = n mod 2 ^ k; h = 2 ^ (k - 1)
      in (if h < r \<or> (r = h \<and> odd q) then q + 1 else q) * 2 ^ k)"

definition js_number :: "int \<Rightarrow> int" where
  "js_number v =
     (let n = nat \<bar>v\<bar>
      in if n \<le> 2 ^ 53 then v else sgn v * int (round_even n (floorlog 2 n - 53)))"

lemma js_number_exact [simp]: "\<bar>v\<bar> \<le> 2 ^ 53 \<Longrightarrow> js_number v = v"
  by (simp add: js_number_def nat_le_iff)

lemma floorlog_lower: "n \<noteq> 0 \<Longrightarrow> 2 ^ (floorlog 2 n - 1) \<le> n"
  using floorlog_bounds [of n 2] by simp

lemma round_even_lower:
  assumes n: "2 ^ 53 < n" and k: "k = floorlog 2 n - 53"
  shows "2 ^ 53 \<le> round_even n k"
proof -
  have fl: "2 ^ 53 \<le> n" using n by simp
  have l53: "53 < floorlog 2 n"
  proof (rule ccontr)
    assume "\<not> 53 < floorlog 2 n"
    then have "n < 2 ^ 53"
      using floorlog_bounds [of n 2] n power_increasing [of "floorlog 2 n" 53 "2::nat"] by linarith
    with fl show False by simp
  qed
  have "2 ^ (floorlog 2 n - 1) \<le> n" using n by (intro floorlog_lower) simp
  moreover have "floorlog 2 n - 1 = 52 + k" using l53 k by simp
  ultimately have "2 ^ 52 * 2 ^ k \<le> n" by (simp add: power_add)
  then have q: "2 ^ 52 \<le> n div 2 ^ k" by (simp add: less_eq_div_iff_mult_less_eq)
  have "2 ^ 52 * 2 ^ 1 \<le> (n div 2 ^ k) * 2 ^ k"
    using q l53 k by (intro mult_mono power_increasing) auto
  then have "2 ^ 53 \<le> (n div 2 ^ k) * 2 ^ k" by simp
  also have "\<dots> \<le> round_even n k" by (auto simp: round_even_def Let_def)
  finally show ?thesis .
qed

lemma round_even_pos:
  assumes "2 ^ 53 < n"
  shows "2 ^ 53 \<le> round_even n (floorlog 2 n - 53)"
  using round_even_lower [OF assms refl] .

text \<open>Above the exact range a conversion does not fall back below it.\<close>

lemma js_number_above:
  assumes "2 ^ 53 < v"
  shows "2 ^ 53 \<le> js_number v"
proof -
  have big: "2 ^ 53 < nat v" using assms by (simp add: zless_nat_eq_int_zless)
  then have "int (2 ^ 53) \<le> int (round_even (nat v) (floorlog 2 (nat v) - 53))"
    using round_even_pos by (simp only: of_nat_le_iff)
  then show ?thesis using assms big by (simp add: js_number_def Let_def)
qed

text \<open>Rounding keeps the sign, which is all a comparator uses of it.\<close>

lemma js_number_sgn: "sgn (js_number v) = sgn v"
proof (cases "nat \<bar>v\<bar> \<le> 2 ^ 53")
  case True
  then show ?thesis by (simp add: js_number_def)
next
  case False
  then have "0 < round_even (nat \<bar>v\<bar>) (floorlog 2 (nat \<bar>v\<bar>) - 53)"
    using round_even_pos [of "nat \<bar>v\<bar>"] by simp
  with False show ?thesis by (simp add: js_number_def Let_def sgn_mult)
qed

lemma js_number_le_0 [simp]: "js_number v \<le> 0 \<longleftrightarrow> v \<le> 0"
  using js_number_sgn [of v] by (auto simp: sgn_if split: if_splits)

lemma js_number_less_0 [simp]: "js_number v < 0 \<longleftrightarrow> v < 0"
  using js_number_sgn [of v] by (auto simp: sgn_if split: if_splits)

lemma js_number_eq_0 [simp]: "js_number v = 0 \<longleftrightarrow> v = 0"
  using js_number_sgn [of v] by (auto simp: sgn_if split: if_splits)

text \<open>\<open>new Date(Number(x) * 1000)\<close>. Beyond 8.64e15 milliseconds the date is an invalid one.\<close>

definition unix_date :: "int \<Rightarrow> int option" where
  "unix_date x =
     (let ms = js_number (js_number x * 1000)
      in if \<bar>ms\<bar> \<le> 8640000000000000 then Some ms else None)"

lemma unix_date_exact: "\<bar>x\<bar> \<le> 8640000000000 \<Longrightarrow> unix_date x = Some (x * 1000)"
  by (simp add: unix_date_def Let_def)

lemma unix_date_far:
  assumes "8640000000001 \<le> x"
  shows "unix_date x = None"
proof -
  have "8640000000000000 < js_number (js_number x * 1000)"
  proof (cases "x \<le> 2 ^ 53")
    case True
    then have x: "js_number x = x" using assms by simp
    show ?thesis
    proof (cases "x * 1000 \<le> 2 ^ 53")
      case True
      then have "js_number (x * 1000) = x * 1000" using assms by (intro js_number_exact) simp
      then show ?thesis using assms x by simp
    next
      case False
      then have "2 ^ 53 \<le> js_number (x * 1000)" by (intro js_number_above) simp
      then show ?thesis using x by simp
    qed
  next
    case False
    then have "2 ^ 53 \<le> js_number x" by (intro js_number_above) simp
    then have "2 ^ 53 < js_number x * 1000" by simp
    then have "2 ^ 53 \<le> js_number (js_number x * 1000)" by (rule js_number_above)
    then show ?thesis by simp
  qed
  then show ?thesis by (simp add: unix_date_def Let_def)
qed

section \<open>Strings\<close>

text \<open>\<open>toLowerCase\<close> on code units below 256: the ASCII capitals and the Latin-1 ones.\<close>

definition lower_char :: "char \<Rightarrow> char" where
  "lower_char c =
     (let n = of_char c :: nat
      in if (65 \<le> n \<and> n \<le> 90) \<or> (192 \<le> n \<and> n \<le> 222 \<and> n \<noteq> 215) then char_of (n + 32) else c)"

definition lower :: "string \<Rightarrow> string" where
  "lower s = map lower_char s"

lemma of_char_char_of_nat [simp]: "n < 256 \<Longrightarrow> of_char (char_of (n::nat)) = n"
  by simp

lemma lower_char_idem [simp]: "lower_char (lower_char c) = lower_char c"
  by (auto simp: lower_char_def Let_def)

lemma lower_idem [simp]: "lower (lower s) = lower s"
  by (simp add: lower_def)

lemma length_lower [simp]: "length (lower s) = length s"
  by (simp add: lower_def)

text \<open>\<open>BigInt.prototype.toString\<close> and template interpolation of a number: decimal digits.\<close>

definition digit_char :: "nat \<Rightarrow> char" where
  "digit_char d = char_of (48 + d)"

text \<open>A text that is set: neither \<open>undefined\<close> nor empty.\<close>

definition truthy :: "string option \<Rightarrow> string option" where
  "truthy x = (case x of Some s \<Rightarrow> if s = [] then None else Some s | None \<Rightarrow> None)"

definition digit_val :: "char \<Rightarrow> nat option" where
  "digit_val c = (let n = of_char c in if 48 \<le> n \<and> n \<le> 57 then Some (n - 48) else None)"

fun dec_nat :: "nat \<Rightarrow> string" where
  "dec_nat n = (if n < 10 then [digit_char n] else dec_nat (n div 10) @ [digit_char (n mod 10)])"

declare dec_nat.simps [simp del]

definition dec :: "int \<Rightarrow> string" where
  "dec i = (if i < 0 then CHR ''-'' # dec_nat (nat (- i)) else dec_nat (nat i))"

lemma digit_val_char [simp]: "d < 10 \<Longrightarrow> digit_val (digit_char d) = Some d"
  by (simp add: digit_val_def digit_char_def)

fun digits_val :: "nat \<Rightarrow> string \<Rightarrow> nat option" where
  "digits_val acc [] = Some acc"
| "digits_val acc (c # cs) =
     (case digit_val c of None \<Rightarrow> None | Some d \<Rightarrow> digits_val (10 * acc + d) cs)"

lemma digits_val_append:
  "digits_val acc (xs @ ys) = (case digits_val acc xs of None \<Rightarrow> None | Some a \<Rightarrow> digits_val a ys)"
  by (induction xs arbitrary: acc) (auto split: option.splits)

lemma dec_nat_nonempty [simp]: "dec_nat n \<noteq> []"
  by (subst dec_nat.simps) simp

lemma digits_val_dec_nat: "digits_val 0 (dec_nat n) = Some n"
proof (induction n rule: dec_nat.induct)
  case (1 n)
  show ?case
  proof (cases "n < 10")
    case True
    then show ?thesis by (subst dec_nat.simps) simp
  next
    case False
    with 1 show ?thesis by (subst dec_nat.simps) (simp add: digits_val_append)
  qed
qed

lemma dec_nat_inj [simp]: "dec_nat m = dec_nat n \<longleftrightarrow> m = n"
  by (metis digits_val_dec_nat option.inject)

lemma dec_nat_digits: "c \<in> set (dec_nat n) \<Longrightarrow> digit_val c \<noteq> None"
proof (induction n rule: dec_nat.induct)
  case (1 n)
  then show ?case
    by (cases "n < 10") (auto simp: dec_nat.simps [of n])
qed

lemma digit_val_minus [simp]: "digit_val CHR ''-'' = None"
  by (simp add: digit_val_def)

lemma digit_val_colon [simp]: "digit_val CHR '':'' = None"
  by (simp add: digit_val_def)

lemma dec_nat_no_sep: "digit_val c = None \<Longrightarrow> c \<notin> set (dec_nat n)"
  using dec_nat_digits by blast

lemma dec_inj [simp]: "dec i = dec j \<longleftrightarrow> i = j"
proof -
  have a: "CHR ''-'' # dec_nat m \<noteq> dec_nat n" for m n
    using dec_nat_no_sep [of "CHR ''-''" n] by (metis digit_val_minus list.set_intros(1))
  show ?thesis using a a [symmetric] by (auto simp: dec_def)
qed

text \<open>\<open>BigInt(s)\<close>: white space is trimmed, the empty string is 0, a sign is allowed before decimal
  digits only, and \<open>0x\<close>, \<open>0o\<close>, \<open>0b\<close> introduce the other radices. \<open>None\<close> is the \<open>SyntaxError\<close>.\<close>

definition js_space :: "char \<Rightarrow> bool" where
  "js_space c = (let n = of_char c :: nat in (9 \<le> n \<and> n \<le> 13) \<or> n = 32 \<or> n = 160)"

definition js_trim :: "string \<Rightarrow> string" where
  "js_trim s = rev (dropWhile js_space (rev (dropWhile js_space s)))"

definition radix_val :: "nat \<Rightarrow> char \<Rightarrow> nat option" where
  "radix_val b c =
     (let n = of_char c;
          d = (if 48 \<le> n \<and> n \<le> 57 then n - 48 else if 97 \<le> n \<and> n \<le> 122 then n - 87
               else if 65 \<le> n \<and> n \<le> 90 then n - 55 else 99)
      in if d < b then Some d else None)"

fun radix_digits :: "nat \<Rightarrow> nat \<Rightarrow> string \<Rightarrow> nat option" where
  "radix_digits b acc [] = Some acc"
| "radix_digits b acc (c # cs) =
     (case radix_val b c of None \<Rightarrow> None | Some d \<Rightarrow> radix_digits b (b * acc + d) cs)"

definition bigint_unsigned :: "string \<Rightarrow> int option" where
  "bigint_unsigned s = (if s = [] then None else map_option int (digits_val 0 s))"

definition bigint_of_string :: "string \<Rightarrow> int option" where
  "bigint_of_string s =
     (let t = js_trim s
      in if t = [] then Some 0
         else if 2 < length t \<and> t ! 0 = CHR ''0'' \<and> t ! 1 \<in> set ''xXoObB''
           then map_option int
                  (radix_digits (if t ! 1 \<in> set ''xX'' then 16 else if t ! 1 \<in> set ''oO'' then 8 else 2)
                     0 (drop 2 t))
         else if hd t = CHR ''-'' then map_option uminus (bigint_unsigned (tl t))
         else if hd t = CHR ''+'' then bigint_unsigned (tl t)
         else bigint_unsigned t)"

lemma dropWhile_none: "\<forall>c \<in> set s. \<not> P c \<Longrightarrow> dropWhile P s = s"
  by (induction s) auto

lemma digit_not_space: "digit_val c \<noteq> None \<Longrightarrow> \<not> js_space c"
  by (auto simp: digit_val_def js_space_def Let_def split: if_splits)

lemma js_trim_dec_nat [simp]: "js_trim (dec_nat n) = dec_nat n"
  using dec_nat_digits [of _ n] digit_not_space by (simp add: js_trim_def dropWhile_none)

lemma bigint_of_string_dec: "0 \<le> i \<Longrightarrow> bigint_of_string (dec i) = Some i"
proof -
  assume "0 \<le> i"
  define s where "s = dec_nat (nat i)"
  have ds: "c \<in> set s \<Longrightarrow> digit_val c \<noteq> None" for c using dec_nat_digits s_def by simp
  have ne: "s \<noteq> []" by (simp add: s_def)
  have h: "hd s \<noteq> CHR ''-''" "hd s \<noteq> CHR ''+''"
    using ds [of "hd s"] ne by (auto simp: digit_val_def)
  have x: "s ! 1 \<notin> set ''xXoObB''" if "2 < length s"
    using ds [of "s ! 1"] that by (auto simp: digit_val_def)
  have "bigint_of_string s = bigint_unsigned s"
    using ne h x by (auto simp: bigint_of_string_def Let_def s_def)
  also have "\<dots> = Some i"
    using ne \<open>0 \<le> i\<close> by (simp add: bigint_unsigned_def s_def digits_val_dec_nat)
  finally show ?thesis using \<open>0 \<le> i\<close> by (simp add: dec_def s_def)
qed

section \<open>Arrays\<close>

text \<open>\<open>xs.slice(-d)\<close>. \<open>slice(-0)\<close> is \<open>slice(0)\<close>, the whole array.\<close>

definition slice_last :: "nat \<Rightarrow> 'a list \<Rightarrow> 'a list" where
  "slice_last d xs = (if d = 0 then xs else drop (length xs - d) xs)"

lemma length_slice_last: "0 < d \<Longrightarrow> length (slice_last d xs) = min d (length xs)"
  by (simp add: slice_last_def)

lemma last_slice_last: "xs \<noteq> [] \<Longrightarrow> last (slice_last d xs) = last xs"
  by (simp add: slice_last_def)

lemma set_slice_last: "set (slice_last d xs) \<subseteq> set xs"
  by (simp add: slice_last_def set_drop_subset)

text \<open>\<open>xs.sort(cmp)\<close> is stable, so for a consistent comparator the result is the stable insertion
  sort's. The laws of a consistent comparator are the locale's assumptions; a component that sorts
  interprets it on its own comparator.\<close>

fun js_insert :: "('a \<Rightarrow> 'a \<Rightarrow> int) \<Rightarrow> 'a \<Rightarrow> 'a list \<Rightarrow> 'a list" where
  "js_insert cmp x [] = [x]"
| "js_insert cmp x (y # ys) = (if cmp x y \<le> 0 then x # y # ys else y # js_insert cmp x ys)"

fun js_sort :: "('a \<Rightarrow> 'a \<Rightarrow> int) \<Rightarrow> 'a list \<Rightarrow> 'a list" where
  "js_sort cmp [] = []"
| "js_sort cmp (x # xs) = js_insert cmp x (js_sort cmp xs)"

lemma mset_js_insert [simp]: "mset (js_insert cmp x xs) = add_mset x (mset xs)"
  by (induction xs) auto

lemma mset_js_sort [simp]: "mset (js_sort cmp xs) = mset xs"
  by (induction xs) auto

lemma set_js_sort [simp]: "set (js_sort cmp xs) = set xs"
  using mset_js_sort [of cmp xs] mset_eq_setD by blast

lemma length_js_sort [simp]: "length (js_sort cmp xs) = length xs"
  using mset_js_sort [of cmp xs] mset_eq_length by blast

locale comparator =
  fixes cmp :: "'a \<Rightarrow> 'a \<Rightarrow> int"
  assumes cmp_total: "0 < cmp x y \<Longrightarrow> cmp y x \<le> 0"
    and cmp_trans: "cmp x y \<le> 0 \<Longrightarrow> cmp y z \<le> 0 \<Longrightarrow> cmp x z \<le> 0"
begin

lemma sorted_js_insert:
  assumes "sorted_wrt (\<lambda>a b. cmp a b \<le> 0) xs"
  shows "sorted_wrt (\<lambda>a b. cmp a b \<le> 0) (js_insert cmp x xs)"
  using assms
proof (induction xs)
  case Nil
  then show ?case by simp
next
  case (Cons y ys)
  have sub: "set (js_insert cmp x ys) = insert x (set ys)"
    using mset_js_insert [of cmp x ys] by (metis set_mset_add_mset_insert set_mset_mset)
  from Cons show ?case
    using cmp_total [of x y] by (auto simp: sub intro: cmp_trans)
qed

lemma sorted_js_sort: "sorted_wrt (\<lambda>a b. cmp a b \<le> 0) (js_sort cmp xs)"
  by (induction xs) (auto intro: sorted_js_insert)

text \<open>Two sorted arrangements of the same elements are equal when ties are equal elements.\<close>

lemma sorted_unique:
  assumes "mset xs = mset ys"
    and "sorted_wrt (\<lambda>a b. cmp a b \<le> 0) xs" "sorted_wrt (\<lambda>a b. cmp a b \<le> 0) ys"
    and "\<And>a b. a \<in> set xs \<Longrightarrow> b \<in> set xs \<Longrightarrow> cmp a b \<le> 0 \<Longrightarrow> cmp b a \<le> 0 \<Longrightarrow> a = b"
  shows "xs = ys"
  using assms
proof (induction xs arbitrary: ys)
  case Nil
  then show ?case by simp
next
  case (Cons x xs)
  then obtain y ys' where ys: "ys = y # ys'" by (cases ys) auto
  have "x \<in> set (y # ys')" "y \<in> set (x # xs)"
    using Cons.prems(1) ys by (metis list.set_intros(1) mset_eq_setD)+
  then have "x = y \<or> (cmp y x \<le> 0 \<and> cmp x y \<le> 0)"
    using Cons.prems(2,3) ys by auto
  then have xy: "x = y" using Cons.prems(4) \<open>y \<in> set (x # xs)\<close> by auto
  have "xs = ys'"
    using Cons.prems xy ys by (intro Cons.IH) auto
  with xy ys show ?case by simp
qed

corollary js_sort_unique:
  assumes "mset xs = mset ys" and "sorted_wrt (\<lambda>a b. cmp a b \<le> 0) ys"
    and "\<And>a b. a \<in> set ys \<Longrightarrow> b \<in> set ys \<Longrightarrow> cmp a b \<le> 0 \<Longrightarrow> cmp b a \<le> 0 \<Longrightarrow> a = b"
  shows "js_sort cmp xs = ys"
  using assms sorted_js_sort [of xs] mset_eq_setD [OF assms(1)]
  by (intro sorted_unique) auto

end

text \<open>\<open>new Set(xs)\<close> and \<open>[...new Set(xs)]\<close>: first occurrences, in insertion order.\<close>

definition set_add :: "'a \<Rightarrow> 'a list \<Rightarrow> 'a list" where
  "set_add x xs = (if x \<in> set xs then xs else xs @ [x])"

definition js_set :: "'a list \<Rightarrow> 'a list" where
  "js_set xs = fold set_add xs []"

lemma set_set_add [simp]: "set (set_add x xs) = insert x (set xs)"
  by (auto simp: set_add_def)

lemma distinct_set_add [simp]: "distinct (set_add x xs) \<longleftrightarrow> distinct xs"
  by (simp add: set_add_def)

lemma fold_set_add: "set (fold set_add xs acc) = set acc \<union> set xs"
    "distinct acc \<Longrightarrow> distinct (fold set_add xs acc)"
  by (induction xs arbitrary: acc) auto

lemma set_js_set [simp]: "set (js_set xs) = set xs"
  by (simp add: js_set_def fold_set_add)

lemma distinct_js_set [simp]: "distinct (js_set xs)"
  by (simp add: js_set_def fold_set_add)

section \<open>Sums over tables\<close>

lemma sum_list_map_cong: "(\<And>x. x \<in> set xs \<Longrightarrow> f x = g x) \<Longrightarrow> sum_list (map f xs) = sum_list (map g xs)"
  by (metis map_cong)

lemma sum_list_filter_nonneg:
  "(\<And>x. x \<in> set xs \<Longrightarrow> (0::int) \<le> f x) \<Longrightarrow> 0 \<le> sum_list (map f (filter P xs))"
  by (induction xs) auto

end
