(* ===== verification/Effects.thy ===== *)
theory Effects
  imports Prelude
begin

text \<open>
  Asynchronous methods as state-passing procedures. A procedure takes the state and returns either
  the value it resolves with or the error it rejects with, together with the state it leaves: a
  statement that was executed before an exception stays executed, as it does in the source, where
  the statements of a handler are not wrapped in a transaction. \<open>bindp\<close> is \<open>await\<close>, \<open>forp\<close> a
  \<open>for ... await\<close> loop, \<open>allp\<close> is \<open>Promise.all\<close> (every element is started, the first error is
  reported), \<open>catchp\<close> is \<open>try\<close>/\<open>catch\<close>.
\<close>

type_synonym ('s, 'e, 'a) proc = "'s \<Rightarrow> ('e + 'a) \<times> 's"

definition ret :: "'a \<Rightarrow> ('s, 'e, 'a) proc" where
  "ret a = (\<lambda>s. (Inr a, s))"

definition throw :: "'e \<Rightarrow> ('s, 'e, 'a) proc" where
  "throw e = (\<lambda>s. (Inl e, s))"

definition gets :: "('s \<Rightarrow> 'a) \<Rightarrow> ('s, 'e, 'a) proc" where
  "gets f = (\<lambda>s. (Inr (f s), s))"

definition modp :: "('s \<Rightarrow> 's) \<Rightarrow> ('s, 'e, unit) proc" where
  "modp f = (\<lambda>s. (Inr (), f s))"

definition bindp :: "('s, 'e, 'a) proc \<Rightarrow> ('a \<Rightarrow> ('s, 'e, 'b) proc) \<Rightarrow> ('s, 'e, 'b) proc" where
  "bindp m f = (\<lambda>s. case m s of (Inl e, t) \<Rightarrow> (Inl e, t) | (Inr a, t) \<Rightarrow> f a t)"

definition seqp :: "('s, 'e, unit) proc \<Rightarrow> ('s, 'e, 'b) proc \<Rightarrow> ('s, 'e, 'b) proc" where
  "seqp m n = bindp m (\<lambda>_. n)"

definition whenp :: "bool \<Rightarrow> ('s, 'e, unit) proc \<Rightarrow> ('s, 'e, unit) proc" where
  "whenp b m = (if b then m else ret ())"

definition catchp :: "('s, 'e, 'a) proc \<Rightarrow> ('e \<Rightarrow> ('s, 'e, 'a) proc) \<Rightarrow> ('s, 'e, 'a) proc" where
  "catchp m h = (\<lambda>s. case m s of (Inl e, t) \<Rightarrow> h e t | (Inr a, t) \<Rightarrow> (Inr a, t))"

fun seqs :: "('s, 'e, unit) proc list \<Rightarrow> ('s, 'e, unit) proc" where
  "seqs [] = ret ()"
| "seqs (m # ms) = seqp m (seqs ms)"

fun forp :: "('x \<Rightarrow> ('s, 'e, unit) proc) \<Rightarrow> 'x list \<Rightarrow> ('s, 'e, unit) proc" where
  "forp f [] = ret ()"
| "forp f (x # xs) = seqp (f x) (forp f xs)"

fun allp :: "('s, 'e, unit) proc list \<Rightarrow> ('s, 'e, unit) proc" where
  "allp [] = ret ()"
| "allp (m # ms) = (\<lambda>s. case m s of
       (Inl e, t) \<Rightarrow> (Inl e, snd (allp ms t))
     | (Inr _, t) \<Rightarrow> allp ms t)"

lemmas proc_defs = ret_def throw_def gets_def modp_def bindp_def seqp_def whenp_def catchp_def

section \<open>What a run that resolves did\<close>

lemma bindp_Inr:
  "bindp m f s = (Inr b, u) \<longleftrightarrow> (\<exists>a t. m s = (Inr a, t) \<and> f a t = (Inr b, u))"
  by (auto simp: bindp_def split: prod.splits sum.splits)

lemma bindp_Inl:
  "bindp m f s = (Inl e, u) \<longleftrightarrow>
     m s = (Inl e, u) \<or> (\<exists>a t. m s = (Inr a, t) \<and> f a t = (Inl e, u))"
  by (auto simp: bindp_def split: prod.splits sum.splits)

lemma seqp_Inr: "seqp m n s = (Inr b, u) \<longleftrightarrow> (\<exists>t. m s = (Inr (), t) \<and> n t = (Inr b, u))"
  by (simp add: seqp_def bindp_Inr)

lemma bindp_run [simp]: "m s = (Inr a, t) \<Longrightarrow> bindp m f s = f a t"
  by (simp add: bindp_def)

lemma bindp_fail [simp]: "m s = (Inl e, t) \<Longrightarrow> bindp m f s = (Inl e, t)"
  by (simp add: bindp_def)

lemma seqp_run [simp]: "m s = (Inr (), t) \<Longrightarrow> seqp m n s = n t"
  by (simp add: seqp_def)

lemma seqp_fail [simp]: "m s = (Inl e, t) \<Longrightarrow> seqp m n s = (Inl e, t)"
  by (simp add: seqp_def)

lemma ret_run [simp]: "ret a s = (Inr a, s)"
  by (simp add: ret_def)

lemma throw_run [simp]: "throw e s = (Inl e, s)"
  by (simp add: throw_def)

lemma gets_run [simp]: "gets f s = (Inr (f s), s)"
  by (simp add: gets_def)

lemma modp_run [simp]: "modp f s = (Inr (), f s)"
  by (simp add: modp_def)

lemma bindp_gets [simp]: "bindp (gets f) g s = g (f s) s"
  by simp

lemma seqp_modp [simp]: "seqp (modp f) n s = n (f s)"
  by simp

lemma bindp_ret [simp]: "bindp (ret a) f = f a"
  by (simp add: bindp_def ret_def)

lemma whenp_True [simp]: "whenp True m = m" and whenp_False [simp]: "whenp False m = ret ()"
  by (simp_all add: whenp_def)

lemma seqp_assoc: "seqp (seqp m n) p = seqp m (seqp n p)"
  by (auto simp: seqp_def bindp_def split: prod.splits sum.splits)

lemma seqp_ret [simp]: "seqp m (ret ()) = m"
  by (auto simp: seqp_def bindp_def ret_def split: prod.splits sum.splits)

lemma forp_append: "forp f (xs @ ys) s = seqp (forp f xs) (forp f ys) s"
  by (induction xs arbitrary: s) (auto simp: seqp_def bindp_def split: prod.splits sum.splits)

section \<open>Relations every step of a procedure respects\<close>

text \<open>
  \<open>steps R m\<close>: whatever \<open>m\<close> does, and whether it resolves or rejects, the state it leaves is
  related to the state it started in. For a reflexive and transitive \<open>R\<close> the property follows the
  structure of the procedure; an invariant \<open>I\<close> is the case \<open>R s t = (I s \<longrightarrow> I t)\<close>, a frame condition
  the case \<open>R s t = (f t = f s)\<close>.
\<close>

definition steps :: "('s \<Rightarrow> 's \<Rightarrow> bool) \<Rightarrow> ('s, 'e, 'a) proc \<Rightarrow> bool" where
  "steps R m \<longleftrightarrow> (\<forall>s. R s (snd (m s)))"

lemma stepsD: "steps R m \<Longrightarrow> m s = (r, t) \<Longrightarrow> R s t"
  by (metis snd_conv steps_def)

lemma stepsI: "(\<And>s r t. m s = (r, t) \<Longrightarrow> R s t) \<Longrightarrow> steps R m"
  by (metis prod.collapse steps_def)

locale step_order =
  fixes R :: "'s \<Rightarrow> 's \<Rightarrow> bool"
  assumes R_refl: "R s s"
    and R_trans: "R s t \<Longrightarrow> R t u \<Longrightarrow> R s u"
begin

lemma steps_ret: "steps R (ret a)"
  by (simp add: steps_def R_refl)

lemma steps_throw: "steps R (throw e)"
  by (simp add: steps_def R_refl)

lemma steps_gets: "steps R (gets f)"
  by (simp add: steps_def R_refl)

lemma steps_modp: "(\<And>s. R s (f s)) \<Longrightarrow> steps R (modp f)"
  by (simp add: steps_def)

lemma steps_bindp: "steps R m \<Longrightarrow> (\<And>a. steps R (f a)) \<Longrightarrow> steps R (bindp m f)"
  unfolding steps_def bindp_def
  by (auto split: prod.splits sum.splits intro: R_trans) (metis R_trans snd_conv)+

lemma steps_seqp: "steps R m \<Longrightarrow> steps R n \<Longrightarrow> steps R (seqp m n)"
  by (simp add: seqp_def steps_bindp)

text \<open>Two steps that respect \<open>R\<close> only together.\<close>

lemma steps_pair: "steps R (seqp m n) \<Longrightarrow> steps R p \<Longrightarrow> steps R (seqp m (seqp n p))"
  using steps_seqp [of "seqp m n" p] by (simp only: seqp_assoc)

lemma steps_whenp: "(b \<Longrightarrow> steps R m) \<Longrightarrow> steps R (whenp b m)"
  by (cases b) (simp_all only: whenp_def if_True if_False steps_ret)

lemma steps_if: "(b \<Longrightarrow> steps R m) \<Longrightarrow> (\<not> b \<Longrightarrow> steps R n) \<Longrightarrow> steps R (if b then m else n)"
  by simp

lemma steps_option:
  "(x = None \<Longrightarrow> steps R m) \<Longrightarrow> (\<And>y. x = Some y \<Longrightarrow> steps R (f y)) \<Longrightarrow>
   steps R (case x of None \<Rightarrow> m | Some y \<Rightarrow> f y)"
  by (cases x) auto

lemma steps_catchp: "steps R m \<Longrightarrow> (\<And>e. steps R (h e)) \<Longrightarrow> steps R (catchp m h)"
  unfolding steps_def catchp_def
  by (auto split: prod.splits sum.splits intro: R_trans) (metis R_trans snd_conv)+

lemma steps_seqs: "(\<And>m. m \<in> set ms \<Longrightarrow> steps R m) \<Longrightarrow> steps R (seqs ms)"
  by (induction ms) (auto intro: steps_ret steps_seqp)

lemma steps_forp: "(\<And>x. x \<in> set xs \<Longrightarrow> steps R (f x)) \<Longrightarrow> steps R (forp f xs)"
  by (induction xs) (auto intro: steps_ret steps_seqp)

lemma steps_allp: "(\<And>m. m \<in> set ms \<Longrightarrow> steps R m) \<Longrightarrow> steps R (allp ms)"
proof (induction ms)
  case Nil
  show ?case by (simp only: allp.simps steps_ret)
next
  case (Cons m ms)
  then have m: "steps R m" and ms: "steps R (allp ms)" by auto
  show ?case
  proof (rule stepsI)
    fix s r t
    assume run: "allp (m # ms) s = (r, t)"
    obtain r1 s1 where m1: "m s = (r1, s1)" by fastforce
    then have "t = snd (allp ms s1)" using run by (auto split: sum.splits)
    moreover have "R s s1" using m m1 by (rule stepsD)
    moreover have "R s1 (snd (allp ms s1))" using ms by (simp add: steps_def)
    ultimately show "R s t" using R_trans by blast
  qed
qed

lemmas steps_intros = steps_ret steps_throw steps_gets steps_modp steps_bindp steps_seqp
  steps_whenp steps_if steps_option steps_catchp steps_seqs steps_forp steps_allp

end

text \<open>Invariants: two properties kept by every step are kept together.\<close>

abbreviation keeps :: "('s \<Rightarrow> bool) \<Rightarrow> ('s, 'e, 'a) proc \<Rightarrow> bool" where
  "keeps I m \<equiv> steps (\<lambda>s t. I s \<longrightarrow> I t) m"

interpretation keeps_order: step_order "\<lambda>s t. I s \<longrightarrow> I t" for I
  by unfold_locales auto

interpretation frame_order: step_order "\<lambda>s t. f t = f s" for f
  by unfold_locales auto

lemma keepsD: "keeps I m \<Longrightarrow> I s \<Longrightarrow> I (snd (m s))"
  by (simp add: steps_def)

lemma keeps_conj: "keeps I m \<Longrightarrow> keeps J m \<Longrightarrow> keeps (\<lambda>s. I s \<and> J s) m"
  by (simp add: steps_def)

text \<open>An invariant that reads only a part of the state no step of the procedure writes.\<close>

lemma keeps_frame: "steps (\<lambda>s t. f t = f s) m \<Longrightarrow> (\<And>s t. f t = f s \<Longrightarrow> I s \<Longrightarrow> I t) \<Longrightarrow> keeps I m"
  by (simp add: steps_def)

end
