(* ===== verification/Store.thy ===== *)
theory Store
  imports Effects
begin

text \<open>
  A table of the database is the list of its rows, in the order they were inserted. \<open>findUnique\<close>,
  \<open>update\<close>, \<open>upsert\<close> and \<open>updateMany\<close> on a unique key are \<open>tfind\<close>, \<open>tupdate\<close>, \<open>tupsert\<close> and
  \<open>tmany\<close>. The locale \<open>unique_store\<close> states what the components rely on; every table of the
  schema interprets it with its own unique key.
\<close>

definition tfind :: "('r \<Rightarrow> 'k) \<Rightarrow> 'k \<Rightarrow> 'r list \<Rightarrow> 'r option" where
  "tfind key k t = List.find (\<lambda>r. key r = k) t"

definition tupdate :: "('r \<Rightarrow> 'k) \<Rightarrow> 'k \<Rightarrow> ('r \<Rightarrow> 'r) \<Rightarrow> 'r list \<Rightarrow> 'r list" where
  "tupdate key k f t = map (\<lambda>r. if key r = k then f r else r) t"

definition tupsert :: "('r \<Rightarrow> 'k) \<Rightarrow> 'k \<Rightarrow> 'r \<Rightarrow> ('r \<Rightarrow> 'r) \<Rightarrow> 'r list \<Rightarrow> 'r list" where
  "tupsert key k c f t = (case tfind key k t of None \<Rightarrow> t @ [c] | Some _ \<Rightarrow> tupdate key k f t)"

definition tmany :: "('r \<Rightarrow> bool) \<Rightarrow> ('r \<Rightarrow> 'r) \<Rightarrow> 'r list \<Rightarrow> 'r list" where
  "tmany P f t = map (\<lambda>r. if P r then f r else r) t"

lemma tfind_Nil [simp]: "tfind key k [] = None"
  by (simp add: tfind_def)

lemma tfind_Cons [simp]: "tfind key k (r # t) = (if key r = k then Some r else tfind key k t)"
  by (simp add: tfind_def)

lemma tfind_append: "tfind key k (t @ u) = (case tfind key k t of None \<Rightarrow> tfind key k u | Some r \<Rightarrow> Some r)"
  by (induction t) auto

lemma tfind_SomeD: "tfind key k t = Some r \<Longrightarrow> r \<in> set t \<and> key r = k"
  by (induction t) (auto split: if_splits)

lemma tfind_None_iff: "tfind key k t = None \<longleftrightarrow> k \<notin> key ` set t"
  by (induction t) auto

lemma tfind_distinct: "distinct (map key t) \<Longrightarrow> r \<in> set t \<Longrightarrow> tfind key (key r) t = Some r"
  by (induction t) auto

lemma tfind_tupdate:
  "(\<And>r. key r = k \<Longrightarrow> key (f r) = k) \<Longrightarrow>
   tfind key k' (tupdate key k f t) = (if k' = k then map_option f (tfind key k t) else tfind key k' t)"
  by (induction t) (auto simp: tupdate_def)

lemma tfind_tupsert:
  assumes "key c = k" "\<And>r. key r = k \<Longrightarrow> key (f r) = k"
  shows "tfind key k' (tupsert key k c f t) =
     (if k' = k then Some (case tfind key k t of None \<Rightarrow> c | Some r \<Rightarrow> f r) else tfind key k' t)"
  using assms
  by (auto simp: tupsert_def tfind_append tfind_tupdate split: option.splits)

lemma tfind_tmany:
  "(\<And>r. key (f r) = key r) \<Longrightarrow>
   tfind key k (tmany P f t) = map_option (\<lambda>r. if P r then f r else r) (tfind key k t)"
  by (induction t) (auto simp: tmany_def)

lemma keys_tupdate: "(\<And>r. key r = k \<Longrightarrow> key (f r) = k) \<Longrightarrow> map key (tupdate key k f t) = map key t"
  by (induction t) (auto simp: tupdate_def)

lemma keys_tupsert:
  assumes "key c = k" "\<And>r. key r = k \<Longrightarrow> key (f r) = k"
  shows "map key (tupsert key k c f t) = (if k \<in> key ` set t then map key t else map key t @ [k])"
proof (cases "tfind key k t")
  case None
  then have "k \<notin> key ` set t" by (simp add: tfind_None_iff)
  with None show ?thesis using assms(1) by (simp add: tupsert_def)
next
  case (Some r)
  then have "k \<in> key ` set t" by (metis option.distinct(1) tfind_None_iff)
  with Some show ?thesis using assms(2) by (simp add: tupsert_def keys_tupdate)
qed

lemma keys_tmany: "(\<And>r. key (f r) = key r) \<Longrightarrow> map key (tmany P f t) = map key t"
  by (induction t) (auto simp: tmany_def)

lemma distinct_tupsert:
  assumes "key c = k" "\<And>r. key r = k \<Longrightarrow> key (f r) = k" "distinct (map key t)"
  shows "distinct (map key (tupsert key k c f t))"
proof -
  have "map key (tupsert key k c f t) = (if k \<in> key ` set t then map key t else map key t @ [k])"
    using assms(1,2) by (rule keys_tupsert)
  then show ?thesis using assms(3) by simp
qed

lemma set_tupdate: "r' \<in> set (tupdate key k f t) \<Longrightarrow> r' \<in> set t \<or> (\<exists>r \<in> set t. key r = k \<and> r' = f r)"
  by (auto simp: tupdate_def split: if_splits)

lemma set_tupsert:
  "r' \<in> set (tupsert key k c f t) \<Longrightarrow> r' \<in> set t \<or> r' = c \<or> (\<exists>r \<in> set t. key r = k \<and> r' = f r)"
  by (auto simp: tupsert_def dest: set_tupdate split: option.splits)

lemma set_tmany: "r' \<in> set (tmany P f t) \<Longrightarrow> r' \<in> set t \<or> (\<exists>r \<in> set t. P r \<and> r' = f r)"
  by (auto simp: tmany_def split: if_splits)

text \<open>A sum over a table moves by the difference at the one row that changed.\<close>

lemma sum_tupdate:
  fixes g :: "'r \<Rightarrow> int"
  assumes "distinct (map key t)"
  shows "sum_list (map g (tupdate key k f t)) =
    sum_list (map g t) + (case tfind key k t of None \<Rightarrow> 0 | Some r \<Rightarrow> g (f r) - g r)"
  using assms
proof (induction t)
  case Nil
  then show ?case by (simp add: tupdate_def)
next
  case (Cons r t)
  show ?case
  proof (cases "key r = k")
    case True
    with Cons.prems have "tfind key k t = None" by (auto simp: tfind_None_iff)
    with True Cons show ?thesis by (simp add: tupdate_def)
  next
    case False
    with Cons show ?thesis by (simp add: tupdate_def)
  qed
qed

lemma sum_tupsert:
  fixes g :: "'r \<Rightarrow> int"
  assumes "distinct (map key t)"
  shows "sum_list (map g (tupsert key k c f t)) =
    sum_list (map g t) + (case tfind key k t of None \<Rightarrow> g c | Some r \<Rightarrow> g (f r) - g r)"
  using assms by (auto simp: tupsert_def sum_tupdate split: option.splits)

lemma tupdate_id [simp]: "tupdate key k id t = t"
  unfolding tupdate_def by (rule map_idI) simp

lemma tupsert_id: "tfind key k t = Some r \<Longrightarrow> tupsert key k c id t = t"
  by (simp add: tupsert_def)

lemma tupsert_id_twice:
  assumes "key c = k"
  shows "tupsert key k c id (tupsert key k c id t) = tupsert key k c id t"
proof (cases "tfind key k t")
  case None
  then have "tfind key k (t @ [c]) \<noteq> None" using assms by (auto simp: tfind_None_iff)
  with None show ?thesis by (auto simp: tupsert_def split: option.splits)
next
  case (Some r)
  then show ?thesis by (simp add: tupsert_id)
qed

section \<open>The contract of a uniquely keyed table\<close>

locale unique_store =
  fixes key :: "'r \<Rightarrow> 'k"
    and lookup :: "'k \<Rightarrow> 't \<Rightarrow> 'r option"
    and update :: "'k \<Rightarrow> ('r \<Rightarrow> 'r) \<Rightarrow> 't \<Rightarrow> 't"
    and upsert :: "'k \<Rightarrow> 'r \<Rightarrow> ('r \<Rightarrow> 'r) \<Rightarrow> 't \<Rightarrow> 't"
  assumes lookup_key: "lookup k t = Some r \<Longrightarrow> key r = k"
    and lookup_update: "(\<And>r. key r = k \<Longrightarrow> key (f r) = k) \<Longrightarrow>
      lookup k' (update k f t) = (if k' = k then map_option f (lookup k t) else lookup k' t)"
    and lookup_upsert: "key c = k \<Longrightarrow> (\<And>r. key r = k \<Longrightarrow> key (f r) = k) \<Longrightarrow>
      lookup k' (upsert k c f t) =
        (if k' = k then Some (case lookup k t of None \<Rightarrow> c | Some r \<Rightarrow> f r) else lookup k' t)"
begin

text \<open>\<open>upsert\<close> with an empty update inserts once and then changes nothing.\<close>

lemma insert_once:
  assumes "key c = k"
  shows "lookup k' (upsert k c id (upsert k c id t)) = lookup k' (upsert k c id t)"
  using assms by (simp add: lookup_upsert split: option.splits)

lemma insert_keeps:
  assumes "key c = k" "lookup k' t = Some r"
  shows "lookup k' (upsert k c id t) = Some r"
  using assms by (auto simp: lookup_upsert)

text \<open>\<open>upsert\<close> with the row as its own update makes the row what was written, however often.\<close>

lemma overwrite:
  assumes "key c = k"
  shows "lookup k (upsert k c (\<lambda>_. c) t) = Some c"
  using assms by (simp add: lookup_upsert split: option.splits)

lemma overwrite_again:
  assumes "key c = k"
  shows "lookup k' (upsert k c (\<lambda>_. c) (upsert k c (\<lambda>_. c) t)) = lookup k' (upsert k c (\<lambda>_. c) t)"
  using assms by (simp add: lookup_upsert split: option.splits)

text \<open>Writes at different keys do not see each other.\<close>

lemma upsert_commute:
  assumes "key c = k" "key d = l" "k \<noteq> l"
    and "\<And>r. key r = k \<Longrightarrow> key (f r) = k" "\<And>r. key r = l \<Longrightarrow> key (g r) = l"
  shows "lookup k' (upsert k c f (upsert l d g t)) = lookup k' (upsert l d g (upsert k c f t))"
  using assms by (simp add: lookup_upsert)

lemma upsert_other:
  assumes "key c = k" "\<And>r. key r = k \<Longrightarrow> key (f r) = k" "k' \<noteq> k"
  shows "lookup k' (upsert k c f t) = lookup k' t"
  using assms by (simp add: lookup_upsert)

end

lemma list_table_store:
  "unique_store key (tfind key) (tupdate key) (tupsert key)"
  by unfold_locales (auto simp: tfind_tupdate tfind_tupsert dest: tfind_SomeD)

end
