(* ===== verification/Schema.thy ===== *)
theory Schema
  imports Store
begin

text \<open>
  The tables of \<open>src/prisma/schema.prisma\<close> that the modelled components read and write, one record
  per row with the columns of the schema, and the unique keys of the tables. A \<open>Decimal(78, 0)\<close> and
  a \<open>BigInt\<close> column is an \<open>int\<close>, a nullable column an \<open>option\<close>, a \<open>DateTime\<close> its milliseconds.
  Column widths and the auxiliary \<open>id\<close>, \<open>createdAt\<close> and \<open>updatedAt\<close> columns nobody reads are left
  out, as is the \<open>engine\<close> column, whose enum has one value.
\<close>

datatype market_status = TRADING | RESOLVED | INVALID

datatype trade_side = BUY | SELL | SHORT

datatype resolution_phase = NONE | PROPOSED | DISPUTED | SETTLED

datatype resolution_route = FINALIZED | ARBITRATED

datatype leaf_kind = DEPOSIT | CHANGE

record market =
  m_id :: string
  m_address :: string
  m_marketId :: int
  m_collateral :: string
  m_resolver :: string
  m_startTime :: int
  m_closeTime :: int
  m_outcomeCount :: int
  m_categoryKey :: "string option"
  m_metadataHash :: string
  m_creator :: string
  m_alpha :: int
  m_sStar :: int
  m_seed :: int
  m_status :: market_status
  m_winning :: "int option"
  m_pot :: int
  m_surplus :: "int option"
  m_title :: string
  m_description :: string
  m_rules :: string
  m_imageUrl :: "string option"
  m_createdBlock :: int
  m_createdTx :: string

record outcome =
  o_ref :: string
  o_index :: int
  o_label :: string
  o_price :: int
  o_shares :: int

record trade =
  t_ref :: string
  t_account :: string
  t_side :: trade_side
  t_outcome :: int
  t_shares :: int
  t_amount :: int
  t_spread :: int
  t_price :: int
  t_block :: int
  t_tx :: string
  t_logIndex :: int
  t_time :: int

record position =
  p_ref :: string
  p_account :: string
  p_outcome :: int
  p_shares :: int
  p_cost :: int
  p_pnl :: int
  p_redeemed :: bool

record price_point =
  pp_ref :: string
  pp_outcome :: int
  pp_time :: int
  pp_price :: int
  pp_volume :: int

record draft =
  d_hash :: string
  d_title :: string
  d_description :: string
  d_rules :: string
  d_imageUrl :: "string option"
  d_labels :: "string list"
  d_categoryKey :: "string option"
  d_createdBy :: string
  d_ref :: "string option"

record category =
  c_key :: string
  c_label :: string
  c_enabled :: bool

record proposal =
  r_address :: string
  r_marketId :: int
  r_ref :: "string option"
  r_phase :: resolution_phase
  r_proposer :: "string option"
  r_proposed :: "int option"
  r_bonded :: bool
  r_bond :: int
  r_deadline :: "int option"
  r_disputer :: "string option"
  r_counter :: "int option"
  r_disputerBond :: int
  r_arbDeadline :: "int option"
  r_route :: "resolution_route option"
  r_settled :: "int option"
  r_reward :: int
  r_forfeited :: int
  r_loser :: "string option"
  r_settledAt :: "int option"
  r_proposedTx :: "string option"
  r_settledTx :: "string option"

record ban =
  b_account :: string
  b_context :: "string option"
  b_marketId :: "int option"
  b_bannedAt :: int
  b_liftedAt :: "int option"
  b_tx :: "string option"

record pool_leaf =
  l_block :: int
  l_logIndex :: int
  l_tx :: string
  l_kind :: leaf_kind
  l_commitment :: string
  l_label :: "string option"
  l_value :: string
  l_precommitment :: "string option"
  l_spent :: "string option"

record cursor =
  k_stream :: string
  k_last :: int

record db =
  markets :: "market list"
  outcomes :: "outcome list"
  trades :: "trade list"
  positions :: "position list"
  pricePoints :: "price_point list"
  drafts :: "draft list"
  categories :: "category list"
  proposals :: "proposal list"
  bans :: "ban list"
  poolLeaves :: "pool_leaf list"
  cursors :: "cursor list"

text \<open>The unique keys, in the order of the schema's \<open>@@unique\<close> and \<open>@id\<close> attributes.\<close>

definition market_key :: "market \<Rightarrow> string \<times> int" where
  "market_key m = (m_address m, m_marketId m)"

definition outcome_key :: "outcome \<Rightarrow> string \<times> int" where
  "outcome_key r = (o_ref r, o_index r)"

definition trade_key :: "trade \<Rightarrow> string \<times> int" where
  "trade_key t = (t_tx t, t_logIndex t)"

definition position_key :: "position \<Rightarrow> string \<times> string \<times> int" where
  "position_key p = (p_ref p, p_account p, p_outcome p)"

definition point_key :: "price_point \<Rightarrow> string \<times> int \<times> int" where
  "point_key p = (pp_ref p, pp_outcome p, pp_time p)"

definition proposal_key :: "proposal \<Rightarrow> string \<times> int" where
  "proposal_key r = (r_address r, r_marketId r)"

definition leaf_key :: "pool_leaf \<Rightarrow> string \<times> int" where
  "leaf_key l = (l_tx l, l_logIndex l)"

lemmas key_defs = market_key_def outcome_key_def trade_key_def position_key_def point_key_def
  proposal_key_def leaf_key_def

text \<open>Every table keeps the contract of a uniquely keyed store.\<close>

interpretation market_rows: unique_store market_key "tfind market_key" "tupdate market_key" "tupsert market_key"
  by (rule list_table_store)

interpretation market_ids: unique_store m_id "tfind m_id" "tupdate m_id" "tupsert m_id"
  by (rule list_table_store)

interpretation outcome_rows: unique_store outcome_key "tfind outcome_key" "tupdate outcome_key" "tupsert outcome_key"
  by (rule list_table_store)

interpretation trade_rows: unique_store trade_key "tfind trade_key" "tupdate trade_key" "tupsert trade_key"
  by (rule list_table_store)

interpretation position_rows: unique_store position_key "tfind position_key" "tupdate position_key" "tupsert position_key"
  by (rule list_table_store)

interpretation point_rows: unique_store point_key "tfind point_key" "tupdate point_key" "tupsert point_key"
  by (rule list_table_store)

interpretation draft_rows: unique_store d_hash "tfind d_hash" "tupdate d_hash" "tupsert d_hash"
  by (rule list_table_store)

interpretation category_rows: unique_store c_key "tfind c_key" "tupdate c_key" "tupsert c_key"
  by (rule list_table_store)

interpretation proposal_rows: unique_store proposal_key "tfind proposal_key" "tupdate proposal_key" "tupsert proposal_key"
  by (rule list_table_store)

interpretation ban_rows: unique_store b_account "tfind b_account" "tupdate b_account" "tupsert b_account"
  by (rule list_table_store)

interpretation leaf_rows: unique_store leaf_key "tfind leaf_key" "tupdate leaf_key" "tupsert leaf_key"
  by (rule list_table_store)

interpretation cursor_rows: unique_store k_stream "tfind k_stream" "tupdate k_stream" "tupsert k_stream"
  by (rule list_table_store)

end
