(* ===== verification/Json.thy ===== *)
theory Json
  imports Prelude
begin

text \<open>
  \<open>JSON.stringify\<close> and \<open>JSON.parse\<close> of the JavaScript standard library, over strings whose code
  units are below 256. The parser follows the grammar of the language: white space between
  tokens, the escapes of a string literal, no control character inside one, numbers kept as the
  text they were written as. It recurses on fuel; the length of the input and one more is enough
  for everything \<open>JSON.stringify\<close> prints (\<open>json_parse_stringify\<close>).
\<close>

datatype json =
    JNull
  | JBool bool
  | JNum string
  | JStr string
  | JArr "json list"
  | JObj "(string \<times> json) list"

section \<open>Printing\<close>

definition hex_digit :: "nat \<Rightarrow> char" where
  "hex_digit d = char_of (if d < 10 then 48 + d else 87 + d)"

definition quote_mark :: char where
  "quote_mark = CHR 0x22"

definition quote_char :: "char \<Rightarrow> string" where
  "quote_char c =
     (let n = of_char c :: nat
      in if n = 34 then [CHR 0x5C, quote_mark]
         else if n = 92 then [CHR 0x5C, CHR 0x5C]
         else if n = 8 then [CHR 0x5C, CHR ''b'']
         else if n = 9 then [CHR 0x5C, CHR ''t'']
         else if n = 10 then [CHR 0x5C, CHR ''n'']
         else if n = 12 then [CHR 0x5C, CHR ''f'']
         else if n = 13 then [CHR 0x5C, CHR ''r'']
         else if n < 32
           then [CHR 0x5C, CHR ''u'', CHR ''0'', CHR ''0'', hex_digit (n div 16), hex_digit (n mod 16)]
         else [c])"

definition quote_json :: "string \<Rightarrow> string" where
  "quote_json s = quote_mark # concat (map quote_char s) @ [quote_mark]"

fun join :: "string \<Rightarrow> string list \<Rightarrow> string" where
  "join sep [] = []"
| "join sep [x] = x"
| "join sep (x # y # xs) = x @ sep @ join sep (y # xs)"

fun stringify :: "json \<Rightarrow> string" where
  "stringify JNull = ''null''"
| "stringify (JBool b) = (if b then ''true'' else ''false'')"
| "stringify (JNum t) = t"
| "stringify (JStr s) = quote_json s"
| "stringify (JArr vs) = ''['' @ join '','' (map stringify vs) @ '']''"
| "stringify (JObj kvs) =
     ''{'' @ join '','' (map (\<lambda>kv. quote_json (fst kv) @ '':'' @ stringify (snd kv)) kvs) @ ''}''"

section \<open>Parsing\<close>

definition json_space :: "char \<Rightarrow> bool" where
  "json_space c = (of_char c \<in> {9, 10, 13, 32 :: nat})"

definition skip_space :: "string \<Rightarrow> string" where
  "skip_space = dropWhile json_space"

definition escape_val :: "char \<Rightarrow> char option" where
  "escape_val c =
     (let n = of_char c :: nat
      in if n = 34 \<or> n = 92 \<or> n = 47 then Some c
         else if c = CHR ''b'' then Some (char_of (8::nat))
         else if c = CHR ''t'' then Some (char_of (9::nat))
         else if c = CHR ''n'' then Some (char_of (10::nat))
         else if c = CHR ''f'' then Some (char_of (12::nat))
         else if c = CHR ''r'' then Some (char_of (13::nat))
         else None)"

definition unicode_val :: "string \<Rightarrow> char option" where
  "unicode_val ds =
     (case radix_digits 16 0 ds of
        None \<Rightarrow> None
      | Some n \<Rightarrow> if n < 256 then Some (char_of n) else None)"

function parse_chars :: "string \<Rightarrow> (string \<times> string) option" where
  "parse_chars s =
     (case s of
        [] \<Rightarrow> None
      | c # r \<Rightarrow>
          if c = quote_mark then Some ([], r)
          else if of_char c = (92::nat) then
            (case r of
               [] \<Rightarrow> None
             | e # r' \<Rightarrow>
                 if e = CHR ''u'' then
                   (if length r' < 4 then None
                    else case unicode_val (take 4 r') of
                        None \<Rightarrow> None
                      | Some x \<Rightarrow> map_option (\<lambda>(t, u). (x # t, u)) (parse_chars (drop 4 r')))
                 else (case escape_val e of
                        None \<Rightarrow> None
                      | Some x \<Rightarrow> map_option (\<lambda>(t, u). (x # t, u)) (parse_chars r')))
          else if of_char c < (32::nat) then None
          else map_option (\<lambda>(t, u). (c # t, u)) (parse_chars r))"
  by pat_completeness auto
termination
  by (relation "measure length") auto

declare parse_chars.simps [simp del]

definition num_chars :: "string \<Rightarrow> string" where
  "num_chars s = takeWhile (\<lambda>c. digit_val c \<noteq> None \<or> c \<in> set ''+-.eE'') s"

text \<open>\<open>-? (0 | [1-9][0-9]*) (. [0-9]+)? ([eE] [+-]? [0-9]+)?\<close>\<close>

definition is_digits :: "string \<Rightarrow> bool" where
  "is_digits s = (s \<noteq> [] \<and> list_all (\<lambda>c. digit_val c \<noteq> None) s)"

definition num_exponent :: "string \<Rightarrow> bool" where
  "num_exponent s =
     (s = [] \<or> (hd s \<in> set ''eE'' \<and>
        (is_digits (tl s) \<or> (tl s \<noteq> [] \<and> hd (tl s) \<in> set ''+-'' \<and> is_digits (tl (tl s))))))"

definition num_fraction :: "string \<Rightarrow> bool" where
  "num_fraction s =
     (if s \<noteq> [] \<and> hd s = CHR ''.''
      then is_digits (takeWhile (\<lambda>c. digit_val c \<noteq> None) (tl s)) \<and>
           num_exponent (dropWhile (\<lambda>c. digit_val c \<noteq> None) (tl s))
      else num_exponent s)"

definition json_number :: "string \<Rightarrow> bool" where
  "json_number s =
     (let t = (if s \<noteq> [] \<and> hd s = CHR ''-'' then tl s else s);
          ds = takeWhile (\<lambda>c. digit_val c \<noteq> None) t
      in is_digits ds \<and> (hd ds = CHR ''0'' \<longrightarrow> length ds = 1) \<and>
         num_fraction (dropWhile (\<lambda>c. digit_val c \<noteq> None) t))"

definition parse_scalar :: "string \<Rightarrow> (json \<times> string) option" where
  "parse_scalar s =
     (if take 4 s = ''null'' then Some (JNull, drop 4 s)
      else if take 4 s = ''true'' then Some (JBool True, drop 4 s)
      else if take 5 s = ''false'' then Some (JBool False, drop 5 s)
      else let t = num_chars s
           in if json_number t then Some (JNum t, drop (length t) s) else None)"

fun parse_value :: "nat \<Rightarrow> string \<Rightarrow> (json \<times> string) option"
  and parse_elems :: "nat \<Rightarrow> string \<Rightarrow> (json list \<times> string) option"
  and parse_members :: "nat \<Rightarrow> string \<Rightarrow> ((string \<times> json) list \<times> string) option" where
  "parse_value 0 s = None"
| "parse_value (Suc f) s =
     (case skip_space s of
        [] \<Rightarrow> None
      | c # r \<Rightarrow>
          if c = quote_mark then map_option (\<lambda>(t, u). (JStr t, u)) (parse_chars r)
          else if c = CHR ''['' then
            (case skip_space r of
               [] \<Rightarrow> None
             | d # r' \<Rightarrow>
                 if d = CHR '']'' then Some (JArr [], r')
                 else map_option (\<lambda>(vs, u). (JArr vs, u)) (parse_elems f r))
          else if c = CHR ''{'' then
            (case skip_space r of
               [] \<Rightarrow> None
             | d # r' \<Rightarrow>
                 if d = CHR ''}'' then Some (JObj [], r')
                 else map_option (\<lambda>(kvs, u). (JObj kvs, u)) (parse_members f r))
          else parse_scalar (c # r))"
| "parse_elems 0 s = None"
| "parse_elems (Suc f) s =
     (case parse_value f s of
        None \<Rightarrow> None
      | Some (v, r) \<Rightarrow>
          (case skip_space r of
             [] \<Rightarrow> None
           | c # r' \<Rightarrow>
               if c = CHR '']'' then Some ([v], r')
               else if c = CHR '','' then map_option (\<lambda>(vs, u). (v # vs, u)) (parse_elems f r')
               else None))"
| "parse_members 0 s = None"
| "parse_members (Suc f) s =
     (case skip_space s of
        [] \<Rightarrow> None
      | q # r \<Rightarrow>
          if q \<noteq> quote_mark then None
          else case parse_chars r of
              None \<Rightarrow> None
            | Some (k, r1) \<Rightarrow>
                (case skip_space r1 of
                   [] \<Rightarrow> None
                 | c # r2 \<Rightarrow>
                     if c \<noteq> CHR '':'' then None
                     else case parse_value f r2 of
                         None \<Rightarrow> None
                       | Some (v, r3) \<Rightarrow>
                           (case skip_space r3 of
                              [] \<Rightarrow> None
                            | d # r4 \<Rightarrow>
                                if d = CHR ''}'' then Some ([(k, v)], r4)
                                else if d = CHR '','' then
                                  map_option (\<lambda>(kvs, u). ((k, v) # kvs, u)) (parse_members f r4)
                                else None)))"

text \<open>\<open>JSON.parse\<close>: one value, surrounded by white space and nothing else. \<open>None\<close> is the
  \<open>SyntaxError\<close>.\<close>

definition json_parse :: "string \<Rightarrow> json option" where
  "json_parse s =
     (case parse_value (Suc (length s)) s of
        None \<Rightarrow> None
      | Some (v, r) \<Rightarrow> if skip_space r = [] then Some v else None)"

section \<open>Parsing what was printed\<close>

lemma radix_val_hex [simp]: "d < 16 \<Longrightarrow> radix_val 16 (hex_digit d) = Some d"
  by (simp add: radix_val_def hex_digit_def Let_def)

lemma unicode_val_hex:
  assumes "n < 32"
  shows "unicode_val [CHR ''0'', CHR ''0'', hex_digit (n div 16), hex_digit (n mod 16)] = Some (char_of n)"
proof -
  have "radix_val 16 CHR ''0'' = Some 0" by (simp add: radix_val_def)
  moreover have "n div 16 < 16" using assms by simp
  ultimately show ?thesis using assms by (simp add: unicode_val_def)
qed

lemma char_codes: "quote_mark = char_of (34::nat)" "CHR 0x5C = char_of (92::nat)"
  by (simp_all add: quote_mark_def char_of_def bit_0)

lemma parse_chars_quote_char:
  "parse_chars (quote_char c @ r) = map_option (\<lambda>(t, u). (c # t, u)) (parse_chars r)"
proof (cases "of_char c \<in> {34, 92, 8, 9, 10, 12, 13 :: nat}")
  case True
  then consider "c = quote_mark" | "c = CHR 0x5C" | "c = char_of (8::nat)"
    | "c = char_of (9::nat)" | "c = char_of (10::nat)" | "c = char_of (12::nat)" | "c = char_of (13::nat)"
    unfolding char_codes by (metis char_of_char emptyE insertE)
  then show ?thesis
    by cases (simp_all add: quote_char_def escape_val_def quote_mark_def
        parse_chars.simps [of "_ # _"])
next
  case False
  show ?thesis
  proof (cases "of_char c < (32::nat)")
    case True
    with False have q: "quote_char c = [CHR 0x5C, CHR ''u'', CHR ''0'', CHR ''0'',
        hex_digit (of_char c div 16), hex_digit (of_char c mod 16)]"
      by (simp add: quote_char_def Let_def)
    show ?thesis
      using unicode_val_hex [OF True]
      by (simp add: q parse_chars.simps [of "_ # _"] quote_mark_def)
  next
    case big: False
    with False have q: "quote_char c = [c]" by (simp add: quote_char_def Let_def)
    have "c \<noteq> quote_mark" using False by (auto simp: quote_mark_def)
    with False big show ?thesis by (simp add: q parse_chars.simps [of "_ # _"])
  qed
qed

lemma parse_chars_quoted: "parse_chars (concat (map quote_char s) @ quote_mark # r) = Some (s, r)"
proof (induction s)
  case Nil
  show ?case by (simp add: parse_chars.simps [of "_ # _"])
next
  case (Cons c s)
  then show ?case by (simp add: parse_chars_quote_char)
qed

text \<open>The values \<open>JSON.stringify\<close> prints: a number is the text of one.\<close>

fun plain :: "json \<Rightarrow> bool" where
  "plain JNull = True"
| "plain (JBool b) = True"
| "plain (JNum t) = (json_number t \<and> num_chars t = t)"
| "plain (JStr s) = True"
| "plain (JArr vs) = list_all plain vs"
| "plain (JObj kvs) = list_all (\<lambda>kv. plain (snd kv)) kvs"

fun fuel_for :: "json \<Rightarrow> nat" where
  "fuel_for (JArr vs) = 1 + length vs + sum_list (map fuel_for vs)"
| "fuel_for (JObj kvs) = 1 + length kvs + sum_list (map (\<lambda>kv. fuel_for (snd kv)) kvs)"
| "fuel_for _ = 1"

lemma skip_space_visible: "\<not> json_space c \<Longrightarrow> skip_space (c # r) = c # r"
  by (simp add: skip_space_def)

lemma visible_chars [simp]:
  "\<not> json_space quote_mark" "\<not> json_space CHR ''[''" "\<not> json_space CHR '']''"
  "\<not> json_space CHR '',''" "\<not> json_space CHR ''n''" "\<not> json_space CHR '':''"
  "\<not> json_space CHR ''{''" "\<not> json_space CHR ''}''" "\<not> json_space CHR ''t''" "\<not> json_space CHR ''f''"
  by (simp_all add: json_space_def quote_mark_def)

lemma quote_mark_neq [simp]:
  "quote_mark \<noteq> CHR ''[''" "quote_mark \<noteq> CHR '']''" "quote_mark \<noteq> CHR ''{''" "quote_mark \<noteq> CHR ''}''"
  "CHR ''['' \<noteq> quote_mark" "CHR ''n'' \<noteq> quote_mark" "CHR ''{'' \<noteq> quote_mark" "CHR ''t'' \<noteq> quote_mark"
  "CHR ''f'' \<noteq> quote_mark"
  by (simp_all add: quote_mark_def)

lemma number_head:
  assumes "json_number t"
  obtains c u where "t = c # u" "c = CHR ''-'' \<or> digit_val c \<noteq> None"
proof (cases t)
  case Nil
  then show ?thesis using assms by (simp add: json_number_def is_digits_def)
next
  case (Cons c u)
  then show ?thesis using assms that [of c u] by (auto simp: json_number_def is_digits_def Let_def split: if_splits)
qed

lemma number_char:
  assumes "c = CHR ''-'' \<or> digit_val c \<noteq> None"
  shows "\<not> json_space c" "c \<noteq> quote_mark" "c \<notin> set ''[]{}ntf''"
  using assms by (auto simp: digit_val_def json_space_def quote_mark_def)

lemma stringify_head:
  assumes "plain v"
  obtains c r where "stringify v = c # r" "\<not> json_space c" "c \<notin> set '']}''"
proof (cases v)
  case (JNum t)
  then obtain c u where "t = c # u" "c = CHR ''-'' \<or> digit_val c \<noteq> None" using assms number_head by auto
  then show ?thesis using JNum that [of c u] number_char [of c] by simp
next
  case (JBool b)
  then show ?thesis using that by (cases b) auto
qed (use that in \<open>auto simp: quote_json_def\<close>)

text \<open>What follows a value must not continue a number.\<close>

definition tame :: "string \<Rightarrow> bool" where
  "tame r = (num_chars r = [])"

lemma tame_simps [simp]: "tame []" "tame (CHR '','' # r)" "tame (CHR '']'' # r)" "tame (CHR ''}'' # r)"
  by (simp_all add: tame_def num_chars_def digit_val_def)

lemma parse_number:
  assumes "json_number t" "num_chars t = t" "tame r"
  shows "parse_value (Suc f) (t @ r) = Some (JNum t, r)"
proof -
  obtain c u where t: "t = c # u" "c = CHR ''-'' \<or> digit_val c \<noteq> None" using number_head [OF assms(1)] by blast
  note c = number_char [OF t(2)]
  have "takeWhile (\<lambda>c. digit_val c \<noteq> None \<or> c \<in> set ''+-.eE'') (t @ r) = t"
    using assms(2,3) by (simp add: num_chars_def tame_def takeWhile_append takeWhile_eq_all_conv)
  then have "num_chars (t @ r) = t" by (simp add: num_chars_def)
  then have "parse_scalar (t @ r) = Some (JNum t, r)" using assms(1) c t by (simp add: parse_scalar_def Let_def)
  then show ?thesis using c t by (simp add: skip_space_visible)
qed

lemma parse_plain:
  "plain v \<Longrightarrow> fuel_for v \<le> f \<Longrightarrow> tame r \<Longrightarrow> parse_value f (stringify v @ r) = Some (v, r)"
  "list_all plain vs \<Longrightarrow> vs \<noteq> [] \<Longrightarrow> length vs + sum_list (map fuel_for vs) \<le> f \<Longrightarrow>
   parse_elems f (join '','' (map stringify vs) @ CHR '']'' # r) = Some (vs, r)"
  "list_all (\<lambda>kv. plain (snd kv)) kvs \<Longrightarrow> kvs \<noteq> [] \<Longrightarrow> length kvs + sum_list (map (\<lambda>kv. fuel_for (snd kv)) kvs) \<le> f \<Longrightarrow>
   parse_members f (join '','' (map (\<lambda>kv. quote_json (fst kv) @ '':'' @ stringify (snd kv)) kvs) @ CHR ''}'' # r) = Some (kvs, r)"
proof (induction f arbitrary: v vs kvs r)
  case 0
  {
    case 1
    then show ?case by (cases v) auto
  next
    case 2
    then show ?case by (cases vs) auto
  next
    case 3
    then show ?case by (cases kvs) auto
  }
next
  case (Suc f)
  {
    case 1
    show ?case
    proof (cases v)
      case JNull
      then show ?thesis by (simp add: skip_space_visible parse_scalar_def)
    next
      case (JBool b)
      then show ?thesis by (simp add: skip_space_visible parse_scalar_def)
    next
      case (JNum t)
      then show ?thesis using 1 parse_number by simp
    next
      case (JStr s)
      then show ?thesis by (simp add: quote_json_def skip_space_visible parse_chars_quoted)
    next
      case (JArr vs)
      show ?thesis
      proof (cases vs)
        case Nil
        with JArr show ?thesis by (simp add: skip_space_visible)
      next
        case (Cons w ws)
        with JArr 1 have "plain w" by simp
        then obtain c t where w: "stringify w = c # t" "\<not> json_space c" "c \<notin> set '']}''"
          by (rule stringify_head)
        have hd: "\<exists>t'. join '','' (map stringify vs) = c # t'"
          using Cons w by (cases ws) auto
        have "parse_elems f (join '','' (map stringify vs) @ CHR '']'' # r) = Some (vs, r)"
          using JArr Cons 1 by (intro Suc.IH(2)) auto
        with JArr hd w show ?thesis by (auto simp: skip_space_visible)
      qed
    next
      case (JObj kvs)
      show ?thesis
      proof (cases kvs)
        case Nil
        with JObj show ?thesis by (simp add: skip_space_visible)
      next
        case (Cons kv ws)
        have hd: "\<exists>t'. join '','' (map (\<lambda>kv. quote_json (fst kv) @ '':'' @ stringify (snd kv)) kvs) = quote_mark # t'"
          using Cons by (cases ws) (auto simp: quote_json_def)
        have "parse_members f (join '','' (map (\<lambda>kv. quote_json (fst kv) @ '':'' @ stringify (snd kv)) kvs) @ CHR ''}'' # r) = Some (kvs, r)"
          using JObj Cons 1 by (intro Suc.IH(3)) auto
        with JObj hd show ?thesis by (auto simp: skip_space_visible)
      qed
    qed
  next
    case 2
    then obtain w ws where vs: "vs = w # ws" by (cases vs) auto
    show ?case
    proof (cases ws)
      case Nil
      have "parse_value f (stringify w @ CHR '']'' # r) = Some (w, CHR '']'' # r)"
        using 2 vs Nil by (intro Suc.IH(1)) auto
      with vs Nil show ?thesis by (simp add: skip_space_visible)
    next
      case (Cons x xs)
      let ?rest = "join '','' (map stringify ws) @ CHR '']'' # r"
      have w: "parse_value f (stringify w @ CHR '','' # ?rest) = Some (w, CHR '','' # ?rest)"
        using 2 vs by (intro Suc.IH(1)) auto
      have "parse_elems f ?rest = Some (ws, r)"
        using 2 vs Cons by (intro Suc.IH(2)) auto
      with vs Cons w show ?thesis by (simp add: skip_space_visible)
    qed
  next
    case 3
    then obtain k w ws where kvs: "kvs = (k, w) # ws" by (cases kvs) auto
    let ?pr = "\<lambda>kv. quote_json (fst kv) @ '':'' @ stringify (snd kv)"
    have key: "parse_chars (concat (map quote_char k) @ quote_mark # CHR '':'' # u) = Some (k, CHR '':'' # u)" for u
      by (rule parse_chars_quoted)
    show ?case
    proof (cases ws)
      case Nil
      have "parse_value f (stringify w @ CHR ''}'' # r) = Some (w, CHR ''}'' # r)"
        using 3 kvs Nil by (intro Suc.IH(1)) auto
      with kvs Nil key show ?thesis by (simp add: quote_json_def skip_space_visible)
    next
      case (Cons x xs)
      let ?rest = "join '','' (map ?pr ws) @ CHR ''}'' # r"
      have w: "parse_value f (stringify w @ CHR '','' # ?rest) = Some (w, CHR '','' # ?rest)"
        using 3 kvs by (intro Suc.IH(1)) auto
      have "parse_members f ?rest = Some (ws, r)"
        using 3 kvs Cons by (intro Suc.IH(3)) auto
      with kvs Cons w key show ?thesis by (simp add: quote_json_def skip_space_visible)
    qed
  }
qed

lemma length_join:
  "sum_list (map length xs) + length xs \<le> length (join '','' xs) + 1"
  by (induction "'',''" xs rule: join.induct) auto

lemma fuel_for_le: "plain v \<Longrightarrow> fuel_for v \<le> length (stringify v)"
proof (induction v rule: plain.induct)
  case (3 t)
  then show ?case using number_head [of t] by fastforce
next
  case (4 s)
  then show ?case by (simp add: quote_json_def)
next
  case (5 vs)
  have "sum_list (map fuel_for vs) \<le> sum_list (map (length \<circ> stringify) vs)"
    using 5 by (intro sum_list_mono) (auto simp: list_all_iff)
  moreover have "sum_list (map (length \<circ> stringify) vs) + length vs \<le>
      length (join '','' (map stringify vs)) + 1"
    using length_join [of "map stringify vs"] by simp
  ultimately show ?case by simp
next
  case (6 kvs)
  let ?pr = "\<lambda>kv. quote_json (fst kv) @ '':'' @ stringify (snd kv)"
  have "sum_list (map (\<lambda>kv. fuel_for (snd kv)) kvs) \<le> sum_list (map (length \<circ> ?pr) kvs)"
    using 6 by (intro sum_list_mono) (fastforce simp: list_all_iff intro: le_SucI trans_le_add2)
  moreover have "sum_list (map (length \<circ> ?pr) kvs) + length kvs \<le> length (join '','' (map ?pr kvs)) + 1"
    using length_join [of "map ?pr kvs"] by simp
  ultimately show ?case by simp
qed auto

text \<open>\<open>JSON.parse\<close> reads back whatever \<open>JSON.stringify\<close> printed.\<close>

lemma json_parse_stringify: "plain v \<Longrightarrow> json_parse (stringify v) = Some v"
  using parse_plain(1) [of v "Suc (length (stringify v))" "[]"] fuel_for_le [of v]
  by (simp add: json_parse_def skip_space_def)

lemma stringify_inj: "plain v \<Longrightarrow> plain w \<Longrightarrow> stringify v = stringify w \<Longrightarrow> v = w"
  by (metis json_parse_stringify option.inject)

section \<open>Integers as JSON numbers\<close>

lemma hd_dec_nat: "hd (dec_nat n) = CHR ''0'' \<Longrightarrow> n = 0"
proof (induction n rule: dec_nat.induct)
  case (1 n)
  show ?case
  proof (cases "n < 10")
    case True
    then have "digit_char n = CHR ''0''" using 1(2) by (simp add: dec_nat.simps [of n])
    then have "digit_val (digit_char n) = digit_val (CHR ''0'')" by simp
    then show ?thesis using True by (simp add: digit_val_def [of "CHR ''0''"])
  next
    case False
    then have "hd (dec_nat (n div 10)) = CHR ''0''" using 1(2) dec_nat_nonempty by (simp add: dec_nat.simps [of n])
    then show ?thesis using 1(1) False by simp
  qed
qed

lemma plain_number: "plain (JNum (dec (int n)))"
proof -
  define t where "t = dec_nat n"
  have digits: "\<forall>c \<in> set t. digit_val c \<noteq> None" and ne: "t \<noteq> []" using dec_nat_digits by (simp_all add: t_def)
  have sign: "hd t \<noteq> CHR ''-''" using digits ne by (metis digit_val_minus hd_in_set)
  have run: "takeWhile (\<lambda>c. digit_val c \<noteq> None) t = t" "dropWhile (\<lambda>c. digit_val c \<noteq> None) t = []"
    using digits by (simp_all add: takeWhile_eq_all_conv)
  have "length t = 1" if "hd t = CHR ''0''"
    using hd_dec_nat [of n] that by (simp add: t_def dec_nat.simps [of 0])
  then have "json_number t" using digits ne sign
    by (simp add: json_number_def is_digits_def num_fraction_def num_exponent_def list_all_iff Let_def run del: not_None_eq)
  moreover have "num_chars t = t" using digits by (auto simp: num_chars_def takeWhile_eq_all_conv simp del: not_None_eq)
  ultimately show ?thesis by (simp add: dec_def t_def)
qed

lemma plain_dec: "plain (JNum (dec i))"
proof (cases "i < 0")
  case True
  define t where "t = dec_nat (nat (- i))"
  have nat_i: "dec (int (nat (- i))) = t" by (simp add: dec_def t_def)
  have digits: "\<forall>c \<in> set t. digit_val c \<noteq> None" and ne: "t \<noteq> []" using dec_nat_digits by (simp_all add: t_def)
  have "hd t \<noteq> CHR ''-''" using digits ne by (metis digit_val_minus hd_in_set)
  then have "json_number (CHR ''-'' # t) = json_number t" by (simp add: json_number_def)
  moreover have "num_chars (CHR ''-'' # t) = CHR ''-'' # num_chars t" by (simp add: num_chars_def)
  ultimately show ?thesis using plain_number [of "nat (- i)"] True nat_i by (simp add: dec_def t_def)
next
  case False
  then show ?thesis using plain_number [of "nat i"] by simp
qed

end
