(* ===== verification/MetadataHash.thy ===== *)
theory MetadataHash
  imports Json
begin

text \<open>
  Models \<open>src/src/admin/metadata-hash.ts\<close>: the canonical encoding of a market's copy, its hash,
  and the refusal to read back an encoding that does not hash to the market's commitment.
  \<open>keccak256(toBytes(..))\<close> is viem's and is the parameter \<open>keccak\<close>.
\<close>

record metadata =
  md_title :: string
  md_description :: string
  md_rules :: string
  md_imageUrl :: "string option"
  md_labels :: "string list"
  md_categoryKey :: "string option"

definition json_nullable :: "string option \<Rightarrow> json" where
  "json_nullable x = (case x of None \<Rightarrow> JNull | Some s \<Rightarrow> JStr s)"

definition canonical_json :: "metadata \<Rightarrow> json" where
  "canonical_json m = JArr
     [JArr [JStr ''title'', JStr (md_title m)],
      JArr [JStr ''description'', JStr (md_description m)],
      JArr [JStr ''resolutionRules'', JStr (md_rules m)],
      JArr [JStr ''imageUrl'', json_nullable (md_imageUrl m)],
      JArr [JStr ''outcomeLabels'', JArr (map JStr (md_labels m))],
      JArr [JStr ''categoryKey'', json_nullable (md_categoryKey m)]]"

definition canonicalize :: "metadata \<Rightarrow> string" where
  "canonicalize m = stringify (canonical_json m)"

definition metadataHashOf :: "(string \<Rightarrow> string) \<Rightarrow> metadata \<Rightarrow> string" where
  "metadataHashOf keccak m = keccak (canonicalize m)"

text \<open>The loop that fills \<open>byKey\<close>: it gives up at the first entry that is not a pair with a
  string key, and a later pair replaces an earlier one with the same key.\<close>

fun read_pairs :: "json list \<Rightarrow> (string \<rightharpoonup> json) \<Rightarrow> (string \<rightharpoonup> json) option" where
  "read_pairs [] acc = Some acc"
| "read_pairs (e # es) acc =
     (case e of
        JArr [JStr k, v] \<Rightarrow> read_pairs es (acc(k \<mapsto> v))
      | _ \<Rightarrow> None)"

definition js_str :: "json option \<Rightarrow> string" where
  "js_str v = (case v of Some (JStr s) \<Rightarrow> s | _ \<Rightarrow> [])"

definition string_or_null :: "json option \<Rightarrow> string option" where
  "string_or_null v = (case v of Some (JStr s) \<Rightarrow> Some s | _ \<Rightarrow> None)"

definition metadata_of_pairs :: "(string \<rightharpoonup> json) \<Rightarrow> metadata" where
  "metadata_of_pairs byKey =
     \<lparr>md_title = js_str (byKey ''title''),
      md_description = js_str (byKey ''description''),
      md_rules = js_str (byKey ''resolutionRules''),
      md_imageUrl = string_or_null (byKey ''imageUrl''),
      md_labels = (case byKey ''outcomeLabels'' of
                     Some (JArr vs) \<Rightarrow> map (\<lambda>v. js_str (Some v)) vs
                   | _ \<Rightarrow> []),
      md_categoryKey = string_or_null (byKey ''categoryKey'')\<rparr>"

definition parseCanonical :: "(string \<Rightarrow> string) \<Rightarrow> string \<Rightarrow> string \<Rightarrow> metadata option" where
  "parseCanonical keccak encoded expectedHash =
     (case json_parse encoded of
        Some (JArr pairs) \<Rightarrow>
          (case read_pairs pairs Map.empty of
             None \<Rightarrow> None
           | Some byKey \<Rightarrow>
               (let m = metadata_of_pairs byKey
                in if lower (metadataHashOf keccak m) = lower expectedHash then Some m else None))
      | _ \<Rightarrow> None)"

lemma plain_nullable [simp]: "plain (json_nullable x)"
  by (simp add: json_nullable_def split: option.splits)

lemma plain_canonical [simp]: "plain (canonical_json m)"
  by (simp add: canonical_json_def list_all_iff)

lemma nullable_inj [simp]: "json_nullable x = json_nullable y \<longleftrightarrow> x = y"
  by (simp add: json_nullable_def split: option.splits)

lemma string_or_null_nullable [simp]: "string_or_null (Some (json_nullable x)) = x"
  by (simp add: string_or_null_def json_nullable_def split: option.splits)

lemma map_JStr_inj [simp]: "map JStr xs = map JStr ys \<longleftrightarrow> xs = ys"
  by (simp add: inj_map_eq_map inj_def)

lemma canonical_json_inj: "canonical_json m = canonical_json n \<Longrightarrow> m = n"
  by (rule metadata.equality) (simp_all add: canonical_json_def)

lemma read_pairs_canonical:
  "\<exists>byKey. (case canonical_json m of JArr pairs \<Rightarrow> read_pairs pairs Map.empty | _ \<Rightarrow> None) = Some byKey
     \<and> metadata_of_pairs byKey = m"
  by (simp add: canonical_json_def metadata_of_pairs_def js_str_def comp_def)

lemma parseCanonical_hash:
  "parseCanonical keccak e h = Some m \<Longrightarrow> lower (metadataHashOf keccak m) = lower h"
  by (auto simp: parseCanonical_def Let_def split: option.splits json.splits if_splits)

section \<open>Properties\<close>

text \<open>C14. The canonical encoding round-trips: for every piece of copy, its title, description, rules, image, labels and
  category, \<open>parseCanonical\<close> given what \<open>canonicalize\<close> encodes and the hash of it returns exactly that copy, whatever
  the hash function is. Strings are of code units below 256 here. What the indexer then does with the copy it reads is
  stated elsewhere (\<open>seeded_market_is_listed_and_skipped\<close>).\<close>

theorem parseCanonical_roundtrip:
  "parseCanonical keccak (canonicalize m) (metadataHashOf keccak m) = Some m"
proof -
  have "json_parse (canonicalize m) = Some (canonical_json m)"
    by (simp add: canonicalize_def json_parse_stringify)
  moreover obtain ps where ps: "canonical_json m = JArr ps" by (simp add: canonical_json_def)
  moreover obtain byKey where "read_pairs ps Map.empty = Some byKey" "metadata_of_pairs byKey = m"
    using read_pairs_canonical [of m] ps by auto
  ultimately show ?thesis by (simp add: parseCanonical_def)
qed

text \<open>Two different pieces of copy never have the same canonical encoding, so a hash commits to
  one of them unless the hash function itself collides.\<close>

theorem canonicalize_injective: "canonicalize m = canonicalize n \<longleftrightarrow> m = n"
  by (auto simp: canonicalize_def dest: stringify_inj [rotated 2] canonical_json_inj)

text \<open>Whatever string is published, the copy adopted from it hashes to the market's commitment;
  if the commitment was made for \<open>m\<close>, then what is adopted is \<open>m\<close> or exhibits a collision.\<close>

theorem adopted_copy_is_committed:
  assumes "parseCanonical keccak encoded (metadataHashOf keccak m) = Some n"
  shows "n = m \<or> (canonicalize n \<noteq> canonicalize m \<and>
           lower (keccak (canonicalize n)) = lower (keccak (canonicalize m)))"
proof -
  have "lower (keccak (canonicalize n)) = lower (keccak (canonicalize m))"
    using parseCanonical_hash [OF assms] by (simp add: metadataHashOf_def)
  moreover have "canonicalize n = canonicalize m \<Longrightarrow> n = m"
    by (auto simp: canonicalize_def dest: stringify_inj [rotated 2] canonical_json_inj)
  ultimately show ?thesis by blast
qed

definition sample_metadata :: metadata where
  "sample_metadata = \<lparr>md_title = ''T'', md_description = [], md_rules = ''R'', md_imageUrl = None,
     md_labels = [''Yes'', ''No''], md_categoryKey = Some ''SPORTS''\<rparr>"

theorem adopted_copy_is_committed_witness:
  "parseCanonical id (canonicalize sample_metadata) (metadataHashOf id sample_metadata)
      = Some sample_metadata \<and>
   (\<exists>n. parseCanonical id (canonicalize sample_metadata) (metadataHashOf id sample_metadata) = Some n \<and>
     (n = sample_metadata \<or> lower (id (canonicalize n)) = lower (id (canonicalize sample_metadata))))"
proof -
  have "json_parse (canonicalize sample_metadata) = Some (canonical_json sample_metadata)"
    by (simp add: canonicalize_def json_parse_stringify)
  then have run: "parseCanonical id (canonicalize sample_metadata) (metadataHashOf id sample_metadata)
      = Some sample_metadata"
    by (simp add: parseCanonical_def canonical_json_def sample_metadata_def metadata_of_pairs_def
        js_str_def string_or_null_def json_nullable_def)
  from run adopted_copy_is_committed [OF run] show ?thesis by blast
qed

end
