(* ===== verification/Realtime.thy ===== *)
theory Realtime
  imports Json
begin

text \<open>
  Models \<open>src/src/common/constants/realtime.ts\<close> and \<open>src/src/realtime/realtime.gateway.ts\<close>: the
  names of the Redis channels and of the socket rooms, the bridge from the first to the second, and
  the messages that join and leave rooms. Socket.IO itself is the membership relation \<open>rooms\<close>: an
  emit to a room reaches exactly the sockets that joined it.
\<close>

datatype rt_event = EvTrade | EvPrice | EvMarketStatus | EvMarketCreated | EvResolution

fun event_name :: "rt_event \<Rightarrow> string" where
  "event_name EvTrade = ''trade''"
| "event_name EvPrice = ''price''"
| "event_name EvMarketStatus = ''market_status''"
| "event_name EvMarketCreated = ''market_created''"
| "event_name EvResolution = ''resolution''"

definition marketChannel :: "string \<Rightarrow> rt_event \<Rightarrow> string" where
  "marketChannel ref e = ''rt:market:'' @ ref @ '':'' @ event_name e"

definition globalChannel :: "rt_event \<Rightarrow> string" where
  "globalChannel e = ''rt:global:'' @ event_name e"

definition marketRoom :: "string \<Rightarrow> string" where
  "marketRoom ref = ''market:'' @ ref"

definition GLOBAL_ROOM :: string where
  "GLOBAL_ROOM = ''global''"

text \<open>\<open>s.split(':')\<close> and \<open>parts.join(':')\<close>.\<close>

fun split_colon :: "string \<Rightarrow> string list" where
  "split_colon [] = [[]]"
| "split_colon (c # cs) =
     (if c = CHR '':'' then [] # split_colon cs
      else case split_colon cs of [] \<Rightarrow> [[c]] | w # ws \<Rightarrow> (c # w) # ws)"

definition parseChannel :: "string \<Rightarrow> (string \<times> string) option" where
  "parseChannel channel =
     (let parts = split_colon channel
      in if parts ! 0 \<noteq> ''rt'' then None
         else if 4 \<le> length parts \<and> parts ! 1 = ''market''
           then Some (marketRoom (parts ! 2), join '':'' (drop 3 parts))
         else if 3 \<le> length parts \<and> parts ! 1 = ''global''
           then Some (GLOBAL_ROOM, join '':'' (drop 2 parts))
         else None)"

text \<open>\<open>/^[0-9a-f]{8}-[0-9a-f]{4}-[0-9a-f]{4}-[0-9a-f]{4}-[0-9a-f]{12}$/i\<close>\<close>

definition is_hex :: "char \<Rightarrow> bool" where
  "is_hex c = (radix_val 16 c \<noteq> None)"

definition isUuid :: "string \<Rightarrow> bool" where
  "isUuid v =
     (length v = 36 \<and>
      list_all (\<lambda>i. if i \<in> {8, 13, 18, 23} then v ! i = CHR ''-'' else is_hex (v ! i)) [0..<36])"

section \<open>The gateway\<close>

type_synonym rooms = "(nat \<times> string) list"  \<comment> \<open>a socket and a room it joined\<close>

datatype reply = SubOk string | SubError | UnsubOk | Pong

definition sock_join :: "nat \<Rightarrow> string \<Rightarrow> rooms \<Rightarrow> rooms" where
  "sock_join c r rs = (if (c, r) \<in> set rs then rs else rs @ [(c, r)])"

definition sock_leave :: "nat \<Rightarrow> string \<Rightarrow> rooms \<Rightarrow> rooms" where
  "sock_leave c r rs = filter (\<lambda>x. x \<noteq> (c, r)) rs"

definition onSubscribe :: "nat \<Rightarrow> string option \<Rightarrow> rooms \<Rightarrow> reply \<times> rooms" where
  "onSubscribe c marketRef rs =
     (case marketRef of
        None \<Rightarrow> (SubError, rs)
      | Some ref \<Rightarrow>
          if ref = [] \<or> \<not> isUuid ref then (SubError, rs)
          else (SubOk (marketRoom ref), sock_join c (marketRoom ref) rs))"

definition onUnsubscribe :: "nat \<Rightarrow> string option \<Rightarrow> rooms \<Rightarrow> reply \<times> rooms" where
  "onUnsubscribe c marketRef rs =
     (case marketRef of
        None \<Rightarrow> (UnsubOk, rs)
      | Some ref \<Rightarrow> (UnsubOk, if ref = [] then rs else sock_leave c (marketRoom ref) rs))"

definition onSubscribeGlobal :: "nat \<Rightarrow> rooms \<Rightarrow> reply \<times> rooms" where
  "onSubscribeGlobal c rs = (SubOk GLOBAL_ROOM, sock_join c GLOBAL_ROOM rs)"

text \<open>The patterns the gateway subscribes to end in a star: a channel matches by prefix. A
  delivery is a socket, the event name and the payload, parsed if it is JSON.\<close>

definition bridged :: "string \<Rightarrow> bool" where
  "bridged channel =
     (take 10 channel = ''rt:market:'' \<or> take 10 channel = ''rt:global:'')"

definition relay_payload :: "string \<Rightarrow> json" where
  "relay_payload message = (case json_parse message of Some v \<Rightarrow> v | None \<Rightarrow> JStr message)"

definition gateway_relay :: "rooms \<Rightarrow> string \<Rightarrow> string \<Rightarrow> (nat \<times> string \<times> json) list" where
  "gateway_relay rs channel message =
     (case parseChannel channel of
        None \<Rightarrow> []
      | Some (room, event) \<Rightarrow>
          map (\<lambda>(c, r). (c, event, relay_payload message)) (filter (\<lambda>(c, r). r = room) rs))"

definition deliver :: "rooms \<Rightarrow> string \<Rightarrow> string \<Rightarrow> (nat \<times> string \<times> json) list" where
  "deliver rs channel message = (if bridged channel then gateway_relay rs channel message else [])"

section \<open>Channel names and their parts\<close>

lemma split_colon_nonempty [simp]: "split_colon s \<noteq> []"
  by (induction s) (auto split: list.splits)

lemma split_colon_none: "CHR '':'' \<notin> set s \<Longrightarrow> split_colon s = [s]"
  by (induction s) auto

lemma split_colon_append:
  "CHR '':'' \<notin> set s \<Longrightarrow> split_colon (s @ CHR '':'' # t) = s # split_colon t"
  by (induction s) auto

lemma event_name_no_colon [simp]: "CHR '':'' \<notin> set (event_name e)"
  by (cases e) auto

lemma event_name_inj [simp]: "event_name e = event_name f \<longleftrightarrow> e = f"
  by (cases e; cases f) auto

lemma isUuid_nth:
  assumes "isUuid v" "i < 36"
  shows "v ! i = CHR ''-'' \<or> is_hex (v ! i)"
proof -
  have "\<forall>i \<in> set [0..<36]. if i \<in> {8, 13, 18, 23} then v ! i = CHR ''-'' else is_hex (v ! i)"
    using assms(1) unfolding isUuid_def list_all_iff by blast
  with assms(2) show ?thesis by (metis atLeastLessThan_iff set_upt zero_le)
qed

lemma isUuid_no_colon: "isUuid v \<Longrightarrow> CHR '':'' \<notin> set v"
proof
  assume u: "isUuid v" and "CHR '':'' \<in> set v"
  then obtain i where i: "i < length v" "v ! i = CHR '':''" by (metis in_set_conv_nth)
  moreover have "length v = 36" using u by (simp only: isUuid_def)
  ultimately have "is_hex CHR '':''" using isUuid_nth [OF u, of i] by simp
  then show False by (simp add: is_hex_def radix_val_def)
qed

lemma split_market_channel:
  "CHR '':'' \<notin> set ref \<Longrightarrow> split_colon (marketChannel ref e) = [''rt'', ''market'', ref, event_name e]"
proof -
  assume ref: "CHR '':'' \<notin> set ref"
  have "marketChannel ref e = ''rt'' @ CHR '':'' # ''market'' @ CHR '':'' # ref @ CHR '':'' # event_name e"
    by (simp add: marketChannel_def)
  then show ?thesis
    using ref by (simp add: split_colon_append split_colon_none)
qed

lemma parse_market_channel:
  "CHR '':'' \<notin> set ref \<Longrightarrow> parseChannel (marketChannel ref e) = Some (marketRoom ref, event_name e)"
  by (simp add: parseChannel_def split_market_channel)

lemma parse_global_channel: "parseChannel (globalChannel e) = Some (GLOBAL_ROOM, event_name e)"
proof -
  have "globalChannel e = ''rt'' @ CHR '':'' # ''global'' @ CHR '':'' # event_name e"
    by (simp add: globalChannel_def)
  then have "split_colon (globalChannel e) = [''rt'', ''global'', event_name e]"
    by (simp add: split_colon_append split_colon_none)
  then show ?thesis by (simp add: parseChannel_def)
qed

lemma bridged_market [simp]: "bridged (marketChannel ref e)"
  by (simp add: bridged_def marketChannel_def)

lemma marketRoom_inj [simp]: "marketRoom r = marketRoom r' \<longleftrightarrow> r = r'"
  by (simp add: marketRoom_def)

lemma marketRoom_not_global [simp]: "marketRoom r \<noteq> GLOBAL_ROOM"
  by (simp add: marketRoom_def GLOBAL_ROOM_def)

lemma member_sock_join [simp]: "x \<in> set (sock_join c r rs) \<longleftrightarrow> x = (c, r) \<or> x \<in> set rs"
  by (auto simp: sock_join_def)

lemma member_sock_leave [simp]: "x \<in> set (sock_leave c r rs) \<longleftrightarrow> x \<in> set rs \<and> x \<noteq> (c, r)"
  by (auto simp: sock_leave_def)

lemma deliver_iff:
  "(c, n, v) \<in> set (deliver rs ch msg) \<longleftrightarrow>
     bridged ch \<and> v = relay_payload msg \<and> (\<exists>room. parseChannel ch = Some (room, n) \<and> (c, room) \<in> set rs)"
proof (cases "parseChannel ch")
  case None
  then show ?thesis by (simp add: deliver_def gateway_relay_def)
next
  case (Some rn)
  obtain room m where "rn = (room, m)" by fastforce
  with Some show ?thesis by (auto simp: deliver_def gateway_relay_def)
qed

lemma rooms_onSubscribe:
  "isUuid ref \<Longrightarrow> set (snd (onSubscribe c (Some ref) rs)) = insert (c, marketRoom ref) (set rs)"
proof -
  assume u: "isUuid ref"
  then have "ref \<noteq> []" by (metis isUuid_def list.size(3) zero_neq_numeral)
  with u show ?thesis by (auto simp: onSubscribe_def)
qed

lemma rooms_onUnsubscribe:
  "isUuid ref \<Longrightarrow> set (snd (onUnsubscribe c (Some ref) rs)) = set rs - {(c, marketRoom ref)}"
proof -
  assume u: "isUuid ref"
  then have "ref \<noteq> []" by (metis isUuid_def list.size(3) zero_neq_numeral)
  then show ?thesis by (auto simp: onUnsubscribe_def)
qed

section \<open>Properties\<close>

text \<open>A message published on a market's channel reaches exactly the sockets that joined that
  market's room, under the event's own name: the bridge neither drops a subscriber nor leaks a
  market's stream to another room.\<close>

theorem delivery_is_exact:
  assumes "isUuid ref"
  shows "(c, n, v) \<in> set (deliver rs (marketChannel ref e) msg) \<longleftrightarrow>
           (c, marketRoom ref) \<in> set rs \<and> n = event_name e \<and> v = relay_payload msg"
  using parse_market_channel [OF isUuid_no_colon [OF assms], of e] by (auto simp: deliver_iff)

definition sample_ref :: string where
  "sample_ref = ''11111111-1111-4111-8111-111111111111''"

lemma sample_ref_uuid: "isUuid sample_ref"
  by (simp add: isUuid_def sample_ref_def is_hex_def radix_val_def upt_rec)

theorem delivery_is_exact_witness:
  "(7, ''trade'', JNull) \<in> set (deliver [(7, marketRoom sample_ref)] (marketChannel sample_ref EvTrade) ''null'')"
proof -
  have "relay_payload ''null'' = JNull"
    using json_parse_stringify [of JNull] by (simp add: relay_payload_def)
  then show ?thesis
    using delivery_is_exact [OF sample_ref_uuid, of 7 "''trade''" JNull "[(7, marketRoom sample_ref)]" EvTrade "''null''"]
    by simp
qed

text \<open>After \<open>subscribe\<close> a socket receives the market's messages and after \<open>unsubscribe\<close> it no
  longer does, whatever it was subscribed to before; what every other socket receives is unchanged
  by either.\<close>

theorem subscription_effect:
  assumes "isUuid ref"
  shows "(c, event_name e, relay_payload msg) \<in>
           set (deliver (snd (onSubscribe c (Some ref) rs)) (marketChannel ref e) msg) \<and>
         (c, n, v) \<notin>
           set (deliver (snd (onUnsubscribe c (Some ref) rs)) (marketChannel ref e) msg) \<and>
         (\<forall>c' ch. c' \<noteq> c \<longrightarrow>
           ((c', n, v) \<in> set (deliver (snd (onSubscribe c (Some ref) rs)) ch msg) \<longleftrightarrow>
             (c', n, v) \<in> set (deliver rs ch msg)) \<and>
           ((c', n, v) \<in> set (deliver (snd (onUnsubscribe c (Some ref) rs)) ch msg) \<longleftrightarrow>
             (c', n, v) \<in> set (deliver rs ch msg)))"
  using parse_market_channel [OF isUuid_no_colon [OF assms], of e]
  by (auto simp: deliver_iff rooms_onSubscribe [OF assms] rooms_onUnsubscribe [OF assms])

theorem subscription_effect_witness:
  "isUuid sample_ref \<and>
   (7, ''trade'', relay_payload ''x'') \<in>
     set (deliver (snd (onSubscribe 7 (Some sample_ref) [])) (marketChannel sample_ref EvTrade) ''x'')"
  using subscription_effect [OF sample_ref_uuid, of 7 EvTrade "''x''" "[]"] sample_ref_uuid by simp

end
