(* ===== verification/ProcessorState.thy ===== *)
theory ProcessorState
  imports Schema MetadataHash Realtime
begin

text \<open>
  What every handler of \<open>src/src/chain/event-processor.service.ts\<close> works on: the decoded events of
  \<open>src/src/chain/abis.ts\<close>, the processor's state, the parameters it takes from outside, and the
  helpers the handlers share (\<open>marketRef\<close>, \<open>publish\<close>, \<open>MarketsService.invalidate\<close>, the
  single-row updates).
\<close>

section \<open>Decoded logs\<close>

datatype stream_kind = LS_LMSR | OPTIMISTIC_RESOLVER | TRADING_BLOCKLIST

record created_args =
  a_marketId :: int
  a_collateral :: string
  a_creator :: string
  a_resolver :: string
  a_outcomeCount :: int
  a_startTime :: int
  a_closeTime :: int
  a_alpha :: int
  a_sStar :: int
  a_seedPerOutcome :: int
  a_seedCost :: int
  a_category :: string
  a_metadataHash :: string

record trade_args =
  x_marketId :: int
  x_account :: string
  x_outcomeId :: int
  x_shares :: int
  x_amount :: int  \<comment> \<open>\<open>cost\<close> of \<open>Bought\<close> and \<open>Shorted\<close>, \<open>proceeds\<close> of \<open>Sold\<close>\<close>
  x_spreadWad :: int

record proposed_args =
  q_market :: string
  q_marketId :: int
  q_proposer :: string
  q_outcome :: int
  q_bond :: int
  q_fee :: int
  q_bonded :: bool
  q_disputeDeadline :: int

record disputed_args =
  u_market :: string
  u_marketId :: int
  u_disputer :: string
  u_counterOutcome :: int
  u_bond :: int
  u_fee :: int
  u_arbitrationDeadline :: int

record arbitrated_args =
  v_market :: string
  v_marketId :: int
  v_outcome :: int
  v_winner :: string
  v_loser :: string
  v_forfeited :: int
  v_reward :: int

datatype event =
    MarketCreated created_args
  | MarketMetadataPublished int string string
  | Bought trade_args
  | Shorted trade_args
  | Sold trade_args
  | MarketResolved int int int int
  | MarketInvalidated int int
  | Redeemed int string int
  | SeedRedeemed int string int
  | Proposed proposed_args
  | Disputed disputed_args
  | Finalized string int int string int
  | Arbitrated arbitrated_args
  | Slashed string int string int bool
  | ProposalAbandoned string int string
  | DisputeReset string int
  | Banned string string int int
  | Unbanned string string
  | OtherEvent string

record nlog =
  n_kind :: stream_kind
  n_address :: string
  n_event :: event
  n_block :: int
  n_tx :: string
  n_logIndex :: int
  n_time :: int

text \<open>\<open>l.args.marketId\<close>, \<open>undefined\<close> where the event has no such argument.\<close>

fun event_marketId :: "event \<Rightarrow> int option" where
  "event_marketId (MarketCreated a) = Some (a_marketId a)"
| "event_marketId (MarketMetadataPublished i _ _) = Some i"
| "event_marketId (Bought a) = Some (x_marketId a)"
| "event_marketId (Shorted a) = Some (x_marketId a)"
| "event_marketId (Sold a) = Some (x_marketId a)"
| "event_marketId (MarketResolved i _ _ _) = Some i"
| "event_marketId (MarketInvalidated i _) = Some i"
| "event_marketId (Redeemed i _ _) = Some i"
| "event_marketId (SeedRedeemed i _ _) = Some i"
| "event_marketId (Proposed a) = Some (q_marketId a)"
| "event_marketId (Disputed a) = Some (u_marketId a)"
| "event_marketId (Finalized _ i _ _ _) = Some i"
| "event_marketId (Arbitrated a) = Some (v_marketId a)"
| "event_marketId (Slashed _ i _ _ _) = Some i"
| "event_marketId (ProposalAbandoned _ i _) = Some i"
| "event_marketId (DisputeReset _ i) = Some i"
| "event_marketId (Banned _ _ i _) = Some i"
| "event_marketId (Unbanned _ _) = None"
| "event_marketId (OtherEvent _) = None"

section \<open>State and parameters\<close>

datatype rt_data =
    DMarketCreated string string string "string option" int
  | DTrade trade_side string int string string string string string int
  | DStatus market_status "int option"
  | DResolution resolution_phase "int option"
  | DPrice "string list"

record rt_message =
  g_channel :: string
  g_event :: rt_event
  g_ref :: "string option"
  g_data :: rt_data
  g_ts :: int

text \<open>The processor's own \<open>refCache\<close>, the shared Redis cache and what was published, the set
  \<open>touched\<close> of the running batch (in insertion order), the number of market rows minted so far and
  the wall clock.\<close>

record ep_state = db +
  minted :: nat
  refCache :: "string \<rightharpoonup> string"
  cache :: "string \<rightharpoonup> string"
  published :: "rt_message list"
  touched :: "string list"
  clock :: int

text \<open>\<open>keccak256\<close> and \<open>hexToString\<close> of viem (\<open>None\<close> where it throws), the \<open>uuid()\<close> column
  default, and the engine's \<open>prices\<close> view (\<open>None\<close> where the read fails).\<close>

record env =
  e_keccak :: "string \<Rightarrow> string"
  e_hexToString :: "string \<Rightarrow> string option"
  e_uuid :: "nat \<Rightarrow> string"
  e_prices :: "string \<Rightarrow> int \<Rightarrow> int list option"
  e_chainReady :: bool

text \<open>The errors a handler can reject with: Prisma's record-not-found (P2025), foreign-key
  (P2003) and argument errors, and the language's own.\<close>

datatype ep_error = P2025 | P2003 | InvalidArgument | RangeError | SyntaxError

type_synonym 'a ep = "(ep_state, ep_error, 'a) proc"

section \<open>Constants and conversions\<close>

definition WAD :: int where
  "WAD = 10 ^ 18"

definition INVALID_OUTCOME :: int where
  "INVALID_OUTCOME = 4294967295"

definition ZERO_ADDRESS :: string where
  "ZERO_ADDRESS = ''0x'' @ replicate 40 CHR ''0''"

definition outcomeOrVoid :: "int \<Rightarrow> int option" where
  "outcomeOrVoid v = (if v = INVALID_OUTCOME then None else Some (js_number v))"

definition strip_nul :: "string \<Rightarrow> string" where
  "strip_nul s = rev (dropWhile (\<lambda>c. of_char c = (0::nat)) (rev s))"

definition bytes32ToString :: "env \<Rightarrow> string \<Rightarrow> string" where
  "bytes32ToString E hex = (case e_hexToString E hex of Some s \<Rightarrow> strip_nul s | None \<Rightarrow> hex)"

text \<open>\<open>BigInt(d.toString())\<close> of a \<open>Decimal\<close>: from 1e21 on, \<open>toString\<close> writes an exponent, as
  \<open>src/src/common/utils/decimal.ts\<close> explains, and \<open>BigInt\<close> rejects it.\<close>

definition decimal_bigint :: "int \<Rightarrow> int option" where
  "decimal_bigint v = (if \<bar>v\<bar> < 10 ^ 21 then Some v else None)"

section \<open>Shared helpers\<close>

definition detailKey :: "string \<Rightarrow> string" where
  "detailKey ref = ''cache:markets:detail:'' @ ref"

definition listPrefix :: string where
  "listPrefix = ''cache:markets:list:''"

definition cache_del :: "string \<Rightarrow> unit ep" where
  "cache_del k = modp (\<lambda>s. s\<lparr>cache := (cache s)(k := None)\<rparr>)"

text \<open>\<open>MarketsService.invalidate\<close>: the detail entry and every list entry.\<close>

definition invalidate :: "string \<Rightarrow> unit ep" where
  "invalidate ref = modp (\<lambda>s. s\<lparr>cache := (\<lambda>k.
     if k = detailKey ref \<or> take (length listPrefix) k = listPrefix then None else cache s k)\<rparr>)"

definition publish :: "string \<Rightarrow> rt_event \<Rightarrow> rt_data \<Rightarrow> string option \<Rightarrow> unit ep" where
  "publish channel ev data ref = modp (\<lambda>s. s\<lparr>published := published s @
     [\<lparr>g_channel = channel, g_event = ev, g_ref = ref, g_data = data, g_ts = clock s\<rparr>]\<rparr>)"

definition publishMarket :: "string \<Rightarrow> rt_event \<Rightarrow> rt_data \<Rightarrow> unit ep" where
  "publishMarket ref ev data = publish (marketChannel ref ev) ev data (Some ref)"

definition refKey :: "string \<Rightarrow> int \<Rightarrow> string" where
  "refKey address marketId = address @ '':'' @ dec marketId"

definition marketRef :: "string \<Rightarrow> int \<Rightarrow> string option ep" where
  "marketRef rawAddress marketId = (\<lambda>s.
     let address = lower rawAddress; key = refKey address marketId in
     case refCache s key of
       Some cached \<Rightarrow> if cached \<noteq> [] then (Inr (Some cached), s)
         else (case tfind market_key (address, marketId) (markets s) of
             None \<Rightarrow> (Inr None, s)
           | Some m \<Rightarrow> (Inr (Some (m_id m)), s\<lparr>refCache := (refCache s)(key \<mapsto> m_id m)\<rparr>))
     | None \<Rightarrow>
         (case tfind market_key (address, marketId) (markets s) of
             None \<Rightarrow> (Inr None, s)
           | Some m \<Rightarrow> (Inr (Some (m_id m)), s\<lparr>refCache := (refCache s)(key \<mapsto> m_id m)\<rparr>)))"

text \<open>\<open>prisma.market.update({ where: { id } })\<close> and \<open>prisma.outcome.update\<close>: an absent row rejects
  with P2025.\<close>

definition updateMarket :: "string \<Rightarrow> (market \<Rightarrow> market) \<Rightarrow> unit ep" where
  "updateMarket ref f = (\<lambda>s.
     case tfind m_id ref (markets s) of
       None \<Rightarrow> (Inl P2025, s)
     | Some _ \<Rightarrow> (Inr (), s\<lparr>markets := tupdate m_id ref f (markets s)\<rparr>))"

definition updateOutcome :: "string \<Rightarrow> int \<Rightarrow> (outcome \<Rightarrow> outcome) \<Rightarrow> unit ep" where
  "updateOutcome ref i f = (\<lambda>s.
     case tfind outcome_key (ref, i) (outcomes s) of
       None \<Rightarrow> (Inl P2025, s)
     | Some _ \<Rightarrow> (Inr (), s\<lparr>outcomes := tupdate outcome_key (ref, i) f (outcomes s)\<rparr>))"

definition upsertCategory :: "string \<Rightarrow> unit ep" where
  "upsertCategory key = modp (\<lambda>s. s\<lparr>categories :=
     tupsert c_key key \<lparr>c_key = key, c_label = key, c_enabled = True\<rparr> id (categories s)\<rparr>)"

text \<open>A market's \<open>categoryKey\<close> is a foreign key: null, or the key of a category row.\<close>

definition categoryExists :: "'a db_scheme \<Rightarrow> string option \<Rightarrow> bool" where
  "categoryExists d key = (case key of None \<Rightarrow> True | Some k \<Rightarrow> tfind c_key k (categories d) \<noteq> None)"

lemmas helper_defs [handler_defs] = cache_del_def invalidate_def publish_def publishMarket_def
  updateMarket_def updateOutcome_def upsertCategory_def

lemma refKey_inj: "refKey a i = refKey b j \<Longrightarrow> a = b \<and> i = j"
proof -
  assume eq: "refKey a i = refKey b j"
  have colon: "CHR '':'' \<notin> set (dec i)" for i
    using dec_nat_no_sep [of "CHR '':''"] by (simp add: dec_def)
  have tw: "takeWhile (\<lambda>c. c \<noteq> CHR '':'') (rev (refKey a i)) = rev (dec i)" for a i
    using colon [of i] by (simp add: refKey_def takeWhile_append)
  from eq tw have "rev (dec i) = rev (dec j)" by metis
  then have "i = j" by simp
  with eq show ?thesis by (simp add: refKey_def)
qed

lemma marketRef_run:
  "\<exists>r c. marketRef a i s = (Inr r, s\<lparr>refCache := c\<rparr>)"
  by (auto simp: marketRef_def Let_def split: option.splits)
    (metis ep_state.surjective ep_state.update_convs(2))+

lemma updateMarket_run:
  assumes "tfind m_id ref (markets s) = Some m"
  shows "updateMarket ref f s = (Inr (), s\<lparr>markets := tupdate m_id ref f (markets s)\<rparr>)"
  using assms by (simp add: updateMarket_def)

lemma updateOutcome_run:
  assumes "tfind outcome_key (ref, i) (outcomes s) = Some r"
  shows "updateOutcome ref i f s = (Inr (), s\<lparr>outcomes := tupdate outcome_key (ref, i) f (outcomes s)\<rparr>)"
  using assms by (simp add: updateOutcome_def)

lemma updateOutcome_missing:
  "tfind outcome_key (ref, i) (outcomes s) = None \<Longrightarrow> updateOutcome ref i f s = (Inl P2025, s)"
  by (simp add: updateOutcome_def)

lemma updateMarket_missing:
  "tfind m_id ref (markets s) = None \<Longrightarrow> updateMarket ref f s = (Inl P2025, s)"
  by (simp add: updateMarket_def)

end
