(* ===== verification/MarketCreation.thy ===== *)
theory MarketCreation
  imports ProcessorState
begin

text \<open>
  The market rows: \<open>createMarket\<close> and \<open>onMetadataPublished\<close> of the event processor, that is the
  adoption of an operator's draft at creation and of the copy published on chain one log later.
\<close>

definition outcome_rows_for :: "string \<Rightarrow> string list \<Rightarrow> int \<Rightarrow> int \<Rightarrow> int \<Rightarrow> outcome list" where
  "outcome_rows_for ref labels price seed n =
     map (\<lambda>i. \<lparr>o_ref = ref, o_index = int i, o_label = (if i < length labels then labels ! i else []),
               o_price = price, o_shares = seed\<rparr>) [0..<nat n]"

definition market_row :: "string \<Rightarrow> nlog \<Rightarrow> created_args \<Rightarrow> int \<Rightarrow> int \<Rightarrow> string option \<Rightarrow> draft option \<Rightarrow> market" where
  "market_row ref l a start close category d =
     \<lparr>m_id = ref, m_address = lower (n_address l), m_marketId = a_marketId a,
      m_collateral = lower (a_collateral a), m_resolver = lower (a_resolver a),
      m_startTime = start, m_closeTime = close, m_outcomeCount = a_outcomeCount a,
      m_categoryKey = category, m_metadataHash = a_metadataHash a, m_creator = lower (a_creator a),
      m_alpha = a_alpha a, m_sStar = a_sStar a, m_seed = a_seedPerOutcome a,
      m_status = TRADING, m_winning = None, m_pot = a_seedCost a, m_surplus = None,
      m_title = (case d of None \<Rightarrow> [] | Some r \<Rightarrow> d_title r),
      m_description = (case d of None \<Rightarrow> [] | Some r \<Rightarrow> d_description r),
      m_rules = (case d of None \<Rightarrow> [] | Some r \<Rightarrow> d_rules r),
      m_imageUrl = (case d of None \<Rightarrow> None | Some r \<Rightarrow> d_imageUrl r),
      m_createdBlock = n_block l, m_createdTx = n_tx l\<rparr>"

text \<open>\<open>prisma.market.upsert\<close> with an empty update: an existing row is returned as it is; otherwise
  a row with a fresh id is created together with its outcomes. An invalid \<open>Date\<close> is refused either
  way, before anything is written.\<close>

definition upsertMarket ::
  "env \<Rightarrow> nlog \<Rightarrow> created_args \<Rightarrow> int \<Rightarrow> string option \<Rightarrow> draft option \<Rightarrow> string ep" where
  "upsertMarket E l a price category d = (\<lambda>s.
     case (unix_date (a_startTime a), unix_date (a_closeTime a)) of
       (Some start, Some close) \<Rightarrow>
         (case tfind market_key (lower (n_address l), a_marketId a) (markets s) of
            Some m \<Rightarrow> (Inr (m_id m), s)
          | None \<Rightarrow>
              (let ref = e_uuid E (minted s)
               in (Inr ref, s\<lparr>markets := markets s @ [market_row ref l a start close category d],
                     outcomes := outcomes s @ outcome_rows_for ref
                       (case d of None \<Rightarrow> [] | Some r \<Rightarrow> d_labels r) price (a_seedPerOutcome a) (a_outcomeCount a),
                     minted := minted s + 1\<rparr>)))
     | _ \<Rightarrow> (Inl InvalidArgument, s))"

definition adoptDraft :: "string \<Rightarrow> string \<Rightarrow> draft option \<Rightarrow> unit ep" where
  "adoptDraft hash ref d = whenp (case d of None \<Rightarrow> False | Some r \<Rightarrow> d_ref r = None)
     (modp (\<lambda>s. s\<lparr>drafts := tupdate d_hash hash (\<lambda>r. r\<lparr>d_ref := Some ref\<rparr>) (drafts s)\<rparr>))"

definition createMarket :: "env \<Rightarrow> nlog \<Rightarrow> created_args \<Rightarrow> string ep" where
  "createMarket E l a =
     (let address = lower (n_address l);
          text = bytes32ToString E (a_category a);
          category = (if text = [] then None else Some text);
          hash = a_metadataHash a
      in seqp (case category of None \<Rightarrow> ret () | Some k \<Rightarrow> upsertCategory k)
         (if a_outcomeCount a = 0 then throw RangeError
          else bindp (gets (\<lambda>s. tfind d_hash hash (drafts s))) (\<lambda>d.
               bindp (upsertMarket E l a (bigint_div WAD (a_outcomeCount a)) category d) (\<lambda>ref.
               seqp (adoptDraft hash ref d)
              (seqp (modp (\<lambda>s. s\<lparr>refCache := (refCache s)(refKey address (a_marketId a) \<mapsto> ref)\<rparr>))
              (seqp (invalidate ref)
              (seqp (publish (globalChannel EvMarketCreated) EvMarketCreated
                      (DMarketCreated ref (dec (a_marketId a)) address category
                         (case unix_date (a_closeTime a) of Some t \<Rightarrow> t | None \<Rightarrow> 0)) None)
              (ret ref))))))))"

text \<open>The columns \<open>onMetadataPublished\<close> writes. The foreign key is checked on the written value,
  which is the metadata's own \<open>categoryKey\<close>; the category row was upserted only for a truthy one.\<close>

definition writeCopy :: "string \<Rightarrow> metadata \<Rightarrow> unit ep" where
  "writeCopy ref md = (\<lambda>s.
     if tfind m_id ref (markets s) = None then (Inl P2025, s)
     else if \<not> categoryExists s (md_categoryKey md) then (Inl P2003, s)
     else updateMarket ref (\<lambda>m. m\<lparr>m_title := md_title md, m_description := md_description md,
            m_rules := md_rules md, m_imageUrl := md_imageUrl md, m_categoryKey := md_categoryKey md\<rparr>) s)"

definition writeLabels :: "string \<Rightarrow> string list \<Rightarrow> unit ep" where
  "writeLabels ref labels =
     allp (map (\<lambda>(i, label). updateOutcome ref (int i) (\<lambda>r. r\<lparr>o_label := label\<rparr>))
             (enumerate 0 labels))"

definition onMetadataPublished :: "env \<Rightarrow> nlog \<Rightarrow> int \<Rightarrow> string \<Rightarrow> string \<Rightarrow> unit ep" where
  "onMetadataPublished E l marketId hash encoded =
     bindp (marketRef (n_address l) marketId) (\<lambda>r.
       case r of None \<Rightarrow> ret ()
       | Some ref \<Rightarrow>
           (case parseCanonical (e_keccak E) encoded hash of
              None \<Rightarrow> ret ()
            | Some md \<Rightarrow>
                seqp (case md_categoryKey md of None \<Rightarrow> ret ()
                      | Some k \<Rightarrow> whenp (k \<noteq> []) (upsertCategory k))
               (seqp (writeCopy ref md)
               (bindp (gets (\<lambda>s. case tfind m_id ref (markets s) of
                         None \<Rightarrow> 0 | Some m \<Rightarrow> nat (m_outcomeCount m))) (\<lambda>n.
                seqp (writeLabels ref (take n (md_labels md))) (invalidate ref))))))"

lemmas creation_defs [handler_defs] = upsertMarket_def adoptDraft_def createMarket_def writeCopy_def
  writeLabels_def onMetadataPublished_def

end
