(* ===== verification/Ledger.thy ===== *)
theory Ledger
  imports MarketCreation
begin

text \<open>
  Trades and their ledger: \<open>onTrade\<close>, \<open>onShort\<close>, \<open>insertTrade\<close>, \<open>updatePosition\<close> and the payout
  events of \<open>src/src/chain/event-processor.service.ts\<close>. The statements of a handler run one after
  the other against the database; a rejected one leaves the earlier ones in place.
\<close>

definition trade_row ::
  "nlog \<Rightarrow> string \<Rightarrow> string \<Rightarrow> trade_side \<Rightarrow> int \<Rightarrow> int \<Rightarrow> int \<Rightarrow> int \<Rightarrow> int \<Rightarrow> trade" where
  "trade_row l ref account side outcomeIndex shares amount spreadWad priceWad =
     \<lparr>t_ref = ref, t_account = lower account, t_side = side, t_outcome = outcomeIndex,
      t_shares = shares, t_amount = amount, t_spread = spreadWad, t_price = priceWad,
      t_block = n_block l, t_tx = n_tx l, t_logIndex = n_logIndex l, t_time = n_time l\<rparr>"

definition insertTrade ::
  "nlog \<Rightarrow> string \<Rightarrow> string \<Rightarrow> trade_side \<Rightarrow> int \<Rightarrow> int \<Rightarrow> int \<Rightarrow> int \<Rightarrow> int \<Rightarrow> unit ep" where
  "insertTrade l ref account side outcomeIndex shares amount spreadWad priceWad =
     modp (\<lambda>s. s\<lparr>trades := tupsert trade_key (n_tx l, n_logIndex l)
       (trade_row l ref account side outcomeIndex shares amount spreadWad priceWad) id (trades s)\<rparr>)"

text \<open>The figures of a sale: what leaves the position, what leaves its basis, what is realised.\<close>

definition sold_of :: "int \<Rightarrow> int \<Rightarrow> int" where
  "sold_of shares oldShares = (if oldShares < shares then oldShares else shares)"

definition costRemoved_of :: "int \<Rightarrow> int \<Rightarrow> int \<Rightarrow> int" where
  "costRemoved_of oldShares oldCost sold =
     (if 0 < oldShares then bigint_div (oldCost * sold) oldShares else 0)"

definition position_row :: "string \<times> string \<times> int \<Rightarrow> int \<Rightarrow> int \<Rightarrow> int \<Rightarrow> position" where
  "position_row k shares cost pnl =
     \<lparr>p_ref = fst k, p_account = fst (snd k), p_outcome = snd (snd k), p_shares = shares,
      p_cost = cost, p_pnl = pnl, p_redeemed = False\<rparr>"

definition reduce_position ::
  "string \<times> string \<times> int \<Rightarrow> int \<Rightarrow> int \<Rightarrow> int \<Rightarrow> int \<Rightarrow> position list \<Rightarrow> position list" where
  "reduce_position k oldShares oldCost shares amount ps =
     (let sold = sold_of shares oldShares;
          costRemoved = costRemoved_of oldShares oldCost sold;
          realized = amount - costRemoved
      in tupsert position_key k (position_row k 0 0 realized)
           (\<lambda>p. p\<lparr>p_shares := p_shares p - sold, p_cost := p_cost p - costRemoved,
                  p_pnl := p_pnl p + realized\<rparr>) ps)"

definition add_position ::
  "string \<times> string \<times> int \<Rightarrow> int \<Rightarrow> int \<Rightarrow> position list \<Rightarrow> position list" where
  "add_position k shares addedCost ps =
     tupsert position_key k (position_row k shares addedCost 0)
       (\<lambda>p. p\<lparr>p_shares := p_shares p + shares, p_cost := p_cost p + addedCost\<rparr>) ps"

definition sellPosition :: "string \<times> string \<times> int \<Rightarrow> int \<Rightarrow> int \<Rightarrow> int \<Rightarrow> int \<Rightarrow> unit ep" where
  "sellPosition k oldShares oldCost shares amount =
     modp (\<lambda>s. s\<lparr>positions := reduce_position k oldShares oldCost shares amount (positions s)\<rparr>)"

definition buyPosition :: "string \<times> string \<times> int \<Rightarrow> int \<Rightarrow> int \<Rightarrow> unit ep" where
  "buyPosition k shares amount =
     modp (\<lambda>s. s\<lparr>positions := add_position k shares amount (positions s)\<rparr>)"

definition updatePosition ::
  "string \<Rightarrow> string \<Rightarrow> int \<Rightarrow> trade_side \<Rightarrow> int \<Rightarrow> int \<Rightarrow> unit ep" where
  "updatePosition ref rawAccount outcomeIndex side shares amount =
     (let k = (ref, lower rawAccount, outcomeIndex)
      in bindp (gets (\<lambda>s. tfind position_key k (positions s))) (\<lambda>existing.
         if side = SELL then
           (case existing of
              None \<Rightarrow> sellPosition k 0 0 shares amount
            | Some p \<Rightarrow>
                (case (decimal_bigint (p_shares p), decimal_bigint (p_cost p)) of
                   (Some oldShares, Some oldCost) \<Rightarrow> sellPosition k oldShares oldCost shares amount
                 | _ \<Rightarrow> throw SyntaxError))
         else buyPosition k shares amount))"

definition touch :: "string \<Rightarrow> unit ep" where
  "touch ref = modp (\<lambda>s. s\<lparr>touched := set_add ref (touched s)\<rparr>)"

definition avgPrice :: "int \<Rightarrow> int \<Rightarrow> int" where
  "avgPrice amount shares = (if 0 < shares then bigint_div (amount * WAD) shares else 0)"

definition publishTrade :: "string \<Rightarrow> nlog \<Rightarrow> trade_side \<Rightarrow> int \<Rightarrow> trade_args \<Rightarrow> unit ep" where
  "publishTrade ref l side outcomeIndex a = publishMarket ref EvTrade
     (DTrade side (lower (x_account a)) outcomeIndex (dec (x_shares a)) (dec (x_amount a))
        (dec (x_spreadWad a)) (dec (avgPrice (x_amount a) (x_shares a))) (n_tx l) (n_time l))"

text \<open>\<open>side\<close> is BUY for \<open>Bought\<close> and SELL for \<open>Sold\<close>.\<close>

definition onTrade :: "nlog \<Rightarrow> trade_side \<Rightarrow> trade_args \<Rightarrow> unit ep" where
  "onTrade l side a =
     bindp (marketRef (n_address l) (x_marketId a)) (\<lambda>r.
       case r of None \<Rightarrow> ret ()
       | Some ref \<Rightarrow>
           (let outcomeIndex = js_number (x_outcomeId a);
                shares = x_shares a; amount = x_amount a;
                potDelta = (if side = BUY then amount else - amount);
                shareDelta = (if side = BUY then shares else - shares)
            in seqs
                 [insertTrade l ref (x_account a) side outcomeIndex shares amount (x_spreadWad a)
                    (avgPrice amount shares),
                  updateMarket ref (\<lambda>m. m\<lparr>m_pot := m_pot m + potDelta\<rparr>),
                  updateOutcome ref outcomeIndex (\<lambda>r. r\<lparr>o_shares := o_shares r + shareDelta\<rparr>),
                  updatePosition ref (x_account a) outcomeIndex side shares amount,
                  touch ref,
                  publishTrade ref l side outcomeIndex a]))"

definition short_legs :: "int \<Rightarrow> int \<Rightarrow> int list" where
  "short_legs outcomeCount shorted = filter (\<lambda>i. i \<noteq> shorted) (map int [0..<nat outcomeCount])"

text \<open>Leg \<open>k\<close> of \<open>n\<close>: the last one takes the remainder of the division.\<close>

definition leg_basis :: "int \<Rightarrow> nat \<Rightarrow> nat \<Rightarrow> int" where
  "leg_basis cost n k =
     (let perLeg = bigint_div cost (int n)
      in if k = n - 1 then cost - perLeg * int (n - 1) else perLeg)"

definition shortLeg :: "string \<Rightarrow> string \<Rightarrow> int \<Rightarrow> int \<Rightarrow> nat \<Rightarrow> nat \<times> int \<Rightarrow> unit ep" where
  "shortLeg ref account shares cost n leg =
     seqp (updateOutcome ref (snd leg) (\<lambda>r. r\<lparr>o_shares := o_shares r + shares\<rparr>))
          (updatePosition ref account (snd leg) BUY shares (leg_basis cost n (fst leg)))"

definition onShort :: "nlog \<Rightarrow> trade_args \<Rightarrow> unit ep" where
  "onShort l a =
     bindp (marketRef (n_address l) (x_marketId a)) (\<lambda>r.
       case r of None \<Rightarrow> ret ()
       | Some ref \<Rightarrow>
           bindp (gets (\<lambda>s. tfind m_id ref (markets s))) (\<lambda>found.
             case found of None \<Rightarrow> ret ()
             | Some market \<Rightarrow>
                 (let shorted = js_number (x_outcomeId a);
                      shares = x_shares a; cost = x_amount a; account = lower (x_account a);
                      legs = short_legs (m_outcomeCount market) shorted
                  in if legs = [] then ret ()
                     else seqs
                       [insertTrade l ref account SHORT shorted shares cost (x_spreadWad a)
                          (avgPrice cost shares),
                        forp (shortLeg ref account shares cost (length legs)) (enumerate 0 legs),
                        updateMarket ref (\<lambda>m. m\<lparr>m_pot := m_pot m + cost\<rparr>),
                        touch ref,
                        publishTrade ref l SHORT shorted a])))"

definition onResolved :: "nlog \<Rightarrow> int \<Rightarrow> int \<Rightarrow> int \<Rightarrow> int \<Rightarrow> unit ep" where
  "onResolved l marketId winningOutcomeId owed surplus =
     bindp (marketRef (n_address l) marketId) (\<lambda>r.
       case r of None \<Rightarrow> ret ()
       | Some ref \<Rightarrow> seqs
           [updateMarket ref (\<lambda>m. m\<lparr>m_status := RESOLVED, m_winning := Some winningOutcomeId,
              m_pot := owed, m_surplus := Some surplus\<rparr>),
            invalidate ref,
            publishMarket ref EvMarketStatus (DStatus RESOLVED (Some winningOutcomeId))])"

definition onInvalidated :: "nlog \<Rightarrow> int \<Rightarrow> int \<Rightarrow> unit ep" where
  "onInvalidated l marketId surplus =
     bindp (marketRef (n_address l) marketId) (\<lambda>r.
       case r of None \<Rightarrow> ret ()
       | Some ref \<Rightarrow> seqs
           [updateMarket ref (\<lambda>m. m\<lparr>m_status := INVALID, m_surplus := Some surplus\<rparr>),
            invalidate ref,
            publishMarket ref EvMarketStatus (DStatus INVALID None)])"

definition onRedeem :: "nlog \<Rightarrow> int \<Rightarrow> string \<Rightarrow> int \<Rightarrow> unit ep" where
  "onRedeem l marketId rawAccount payout =
     bindp (marketRef (n_address l) marketId) (\<lambda>r.
       case r of None \<Rightarrow> ret ()
       | Some ref \<Rightarrow> seqs
           [modp (\<lambda>s. s\<lparr>positions := tmany (\<lambda>p. p_ref p = ref \<and> p_account p = lower rawAccount)
              (\<lambda>p. p\<lparr>p_redeemed := True, p_pnl := p_pnl p + payout\<rparr>) (positions s)\<rparr>),
            updateMarket ref (\<lambda>m. m\<lparr>m_pot := m_pot m - payout\<rparr>),
            invalidate ref])"

definition onSeedRedeemed :: "nlog \<Rightarrow> int \<Rightarrow> int \<Rightarrow> unit ep" where
  "onSeedRedeemed l marketId amount =
     bindp (marketRef (n_address l) marketId) (\<lambda>r.
       case r of None \<Rightarrow> ret ()
       | Some ref \<Rightarrow>
           if amount = 0 then ret ()
           else seqs [updateMarket ref (\<lambda>m. m\<lparr>m_pot := m_pot m - amount\<rparr>), invalidate ref])"

lemmas ledger_defs [handler_defs] = insertTrade_def sellPosition_def buyPosition_def
  updatePosition_def touch_def publishTrade_def onTrade_def shortLeg_def onShort_def onResolved_def
  onInvalidated_def onRedeem_def onSeedRedeemed_def

end
