(* ===== verification/LedgerProps.thy ===== *)
theory LedgerProps
  imports Ledger
begin

text \<open>
  What the trade handlers do to the ledger: the exact effect of a trade, the fan-out of a short and
  its basis, and what a second delivery of the same log does.
\<close>

section \<open>Readings of the state\<close>

definition pos_shares :: "'a db_scheme \<Rightarrow> string \<Rightarrow> string \<Rightarrow> int \<Rightarrow> int" where
  "pos_shares s ref account i =
     (case tfind position_key (ref, account, i) (positions s) of None \<Rightarrow> 0 | Some p \<Rightarrow> p_shares p)"

definition pos_cost :: "'a db_scheme \<Rightarrow> string \<Rightarrow> string \<Rightarrow> int \<Rightarrow> int" where
  "pos_cost s ref account i =
     (case tfind position_key (ref, account, i) (positions s) of None \<Rightarrow> 0 | Some p \<Rightarrow> p_cost p)"

definition out_shares :: "'a db_scheme \<Rightarrow> string \<Rightarrow> int \<Rightarrow> int" where
  "out_shares s ref i =
     (case tfind outcome_key (ref, i) (outcomes s) of None \<Rightarrow> 0 | Some r \<Rightarrow> o_shares r)"

definition pot_of :: "'a db_scheme \<Rightarrow> string \<Rightarrow> int" where
  "pot_of s ref = (case tfind m_id ref (markets s) of None \<Rightarrow> 0 | Some m \<Rightarrow> m_pot m)"

lemmas reading_defs = pos_shares_def pos_cost_def out_shares_def pot_of_def

section \<open>Positions\<close>

lemma trade_key_row [simp]: "trade_key (trade_row l ref acc sd i sh am sp pr) = (n_tx l, n_logIndex l)"
  by (simp add: trade_key_def trade_row_def)

lemma position_key_row [simp]: "position_key (position_row k sh c pnl) = k"
  by (simp add: position_key_def position_row_def)

lemma find_add_position [store_simps]:
  "tfind position_key k' (add_position k sh c ps) =
     (if k' = k
      then Some (case tfind position_key k ps of None \<Rightarrow> position_row k sh c 0
                 | Some p \<Rightarrow> p\<lparr>p_shares := p_shares p + sh, p_cost := p_cost p + c\<rparr>)
      else tfind position_key k' ps)"
  unfolding add_position_def
  by (rule position_rows.lookup_upsert) (simp_all add: position_key_def position_row_def)

lemma find_reduce_position [store_simps]:
  "tfind position_key k' (reduce_position k old oldc sh am ps) =
     (let sold = sold_of sh old; removed = costRemoved_of old oldc sold; realized = am - removed
      in if k' = k
         then Some (case tfind position_key k ps of None \<Rightarrow> position_row k 0 0 realized
                    | Some p \<Rightarrow> p\<lparr>p_shares := p_shares p - sold, p_cost := p_cost p - removed,
                                  p_pnl := p_pnl p + realized\<rparr>)
         else tfind position_key k' ps)"
  unfolding reduce_position_def Let_def
  by (rule position_rows.lookup_upsert) (simp_all add: position_key_def position_row_def)

lemma buyPosition_run: "buyPosition k sh c s = (Inr (), s\<lparr>positions := add_position k sh c (positions s)\<rparr>)"
  by (simp add: buyPosition_def)

lemma pos_shares_add:
  "pos_shares (s\<lparr>positions := add_position (ref, acc, i) sh c ps\<rparr>) ref' acc' j =
     pos_shares (s\<lparr>positions := ps\<rparr>) ref' acc' j + (if (ref', acc', j) = (ref, acc, i) then sh else 0)"
  by (simp add: pos_shares_def find_add_position position_row_def split: option.splits)

lemma pos_cost_add:
  "pos_cost (s\<lparr>positions := add_position (ref, acc, i) sh c ps\<rparr>) ref' acc' j =
     pos_cost (s\<lparr>positions := ps\<rparr>) ref' acc' j + (if (ref', acc', j) = (ref, acc, i) then c else 0)"
  by (simp add: pos_cost_def find_add_position position_row_def split: option.splits)

lemma bigint_div_full [simp]: "0 < n \<Longrightarrow> 0 \<le> c \<Longrightarrow> bigint_div (c * n) n = c"
  by simp

lemma costRemoved_bounds:
  assumes "0 \<le> oldShares" "0 \<le> oldCost" "0 \<le> shares"
  shows "0 \<le> costRemoved_of oldShares oldCost (sold_of shares oldShares)"
    and "costRemoved_of oldShares oldCost (sold_of shares oldShares) \<le> oldCost"
proof -
  let ?sold = "sold_of shares oldShares"
  have sold: "0 \<le> ?sold" "?sold \<le> oldShares" using assms by (auto simp: sold_of_def)
  then show "0 \<le> costRemoved_of oldShares oldCost ?sold"
    using assms by (simp add: costRemoved_of_def pos_imp_zdiv_nonneg_iff)
  show "costRemoved_of oldShares oldCost ?sold \<le> oldCost"
  proof (cases "0 < oldShares")
    case True
    have "oldCost * ?sold \<le> oldCost * oldShares"
      using assms sold by (intro mult_left_mono) auto
    then have "oldCost * ?sold div oldShares \<le> oldCost * oldShares div oldShares"
      using True by (intro zdiv_mono1) auto
    with True assms sold show ?thesis by (simp add: costRemoved_of_def)
  next
    case False
    with assms show ?thesis by (simp add: costRemoved_of_def)
  qed
qed

lemma costRemoved_full: "0 < old \<Longrightarrow> 0 \<le> oldc \<Longrightarrow> costRemoved_of old oldc old = oldc"
  by (simp add: costRemoved_of_def)

section \<open>The exact effect of a trade\<close>

definition bought :: "nlog \<Rightarrow> string \<Rightarrow> trade_args \<Rightarrow> ep_state \<Rightarrow> ep_state" where
  "bought l ref a s =
     (let i = js_number (x_outcomeId a)
      in s\<lparr>trades := tupsert trade_key (n_tx l, n_logIndex l)
             (trade_row l ref (x_account a) BUY i (x_shares a) (x_amount a) (x_spreadWad a)
                (avgPrice (x_amount a) (x_shares a))) id (trades s),
           markets := tupdate m_id ref (\<lambda>m. m\<lparr>m_pot := m_pot m + x_amount a\<rparr>) (markets s),
           outcomes := tupdate outcome_key (ref, i) (\<lambda>r. r\<lparr>o_shares := o_shares r + x_shares a\<rparr>) (outcomes s),
           positions := add_position (ref, lower (x_account a), i) (x_shares a) (x_amount a) (positions s),
           touched := set_add ref (touched s)\<rparr>)"

lemma onTrade_buy_run:
  assumes ref: "marketRef (n_address l) (x_marketId a) s = (Inr (Some ref), s')"
    and m: "tfind m_id ref (markets s') = Some m"
    and r: "tfind outcome_key (ref, js_number (x_outcomeId a)) (outcomes s') = Some r"
  shows "onTrade l BUY a s = publishTrade ref l BUY (js_number (x_outcomeId a)) a (bought l ref a s')"
  using m r ref
  by (simp add: onTrade_def insertTrade_def updateMarket_def updateOutcome_def
      updatePosition_def buyPosition_def touch_def bought_def Let_def seqp_def
      publishTrade_def publishMarket_def publish_def)

text \<open>\<open>marketRef\<close> answers from its cache, or from the market table, and then answers the same
  again.\<close>

lemma marketRef_cached:
  assumes "refCache s (refKey (lower a) i) = Some ref" "ref \<noteq> []"
  shows "marketRef a i s = (Inr (Some ref), s)"
  using assms by (simp add: marketRef_def)

lemma marketRef_Some_cached:
  assumes "marketRef a i s = (Inr (Some ref), t)" "ref \<noteq> []"
  shows "refCache t (refKey (lower a) i) = Some ref"
  using assms by (auto simp: marketRef_def Let_def split: option.splits if_splits)

lemma marketRef_state: "marketRef a i s = (r, t) \<Longrightarrow> \<exists>rc. t = s\<lparr>refCache := rc\<rparr>"
  using marketRef_run [of a i s] by auto


lemma marketRef_db:
  "marketRef a i s = (r, t) \<Longrightarrow>
     markets t = markets s \<and> outcomes t = outcomes s \<and> positions t = positions s \<and> trades t = trades s"
  by (auto dest!: marketRef_state)

lemma publishTrade_run: "\<exists>ps. publishTrade ref l sd i a s = (Inr (), s\<lparr>published := ps\<rparr>)"
  by (simp add: publishTrade_def publishMarket_def publish_def) (metis)

lemma find_outcome_update:
  "tfind outcome_key k (tupdate outcome_key (ref, i) (\<lambda>r. r\<lparr>o_shares := o_shares r + d\<rparr>) os) =
     (if k = (ref, i) then map_option (\<lambda>r. r\<lparr>o_shares := o_shares r + d\<rparr>) (tfind outcome_key (ref, i) os)
      else tfind outcome_key k os)"
  by (rule outcome_rows.lookup_update) (simp add: outcome_key_def)

lemma find_pot_update:
  "tfind m_id k (tupdate m_id ref (\<lambda>m. m\<lparr>m_pot := m_pot m + d\<rparr>) ms) =
     (if k = ref then map_option (\<lambda>m. m\<lparr>m_pot := m_pot m + d\<rparr>) (tfind m_id ref ms)
      else tfind m_id k ms)"
  by (rule market_ids.lookup_update) simp

lemma find_outcome_update_minus:
  "tfind outcome_key k (tupdate outcome_key (ref, i) (\<lambda>r. r\<lparr>o_shares := o_shares r - d\<rparr>) os) =
     (if k = (ref, i) then map_option (\<lambda>r. r\<lparr>o_shares := o_shares r - d\<rparr>) (tfind outcome_key (ref, i) os)
      else tfind outcome_key k os)"
  by (rule outcome_rows.lookup_update) (simp add: outcome_key_def)

lemma find_pot_update_minus:
  "tfind m_id k (tupdate m_id ref (\<lambda>m. m\<lparr>m_pot := m_pot m - d\<rparr>) ms) =
     (if k = ref then map_option (\<lambda>m. m\<lparr>m_pot := m_pot m - d\<rparr>) (tfind m_id ref ms)
      else tfind m_id k ms)"
  by (rule market_ids.lookup_update) simp

text \<open>What is read off the state after a purchase.\<close>

lemma buy_effect:
  assumes ref: "marketRef (n_address l) (x_marketId a) s = (Inr (Some ref), s')" and ne: "ref \<noteq> []"
    and m: "tfind m_id ref (markets s) = Some m"
    and r: "tfind outcome_key (ref, i) (outcomes s) = Some r" and i: "i = js_number (x_outcomeId a)"
  shows "\<exists>t. onTrade l BUY a s = (Inr (), t) \<and>
    marketRef (n_address l) (x_marketId a) t = (Inr (Some ref), t) \<and>
    tfind m_id ref (markets t) = Some (m\<lparr>m_pot := m_pot m + x_amount a\<rparr>) \<and>
    tfind outcome_key (ref, i) (outcomes t) = Some (r\<lparr>o_shares := o_shares r + x_shares a\<rparr>) \<and>
    trades t = tupsert trade_key (n_tx l, n_logIndex l)
      (trade_row l ref (x_account a) BUY i (x_shares a) (x_amount a) (x_spreadWad a)
         (avgPrice (x_amount a) (x_shares a))) id (trades s) \<and>
    positions t = add_position (ref, lower (x_account a), i) (x_shares a) (x_amount a) (positions s)"
proof -
  have db: "markets s' = markets s" "outcomes s' = outcomes s" "positions s' = positions s" "trades s' = trades s"
    using marketRef_db [OF ref] by auto
  obtain ps where run: "onTrade l BUY a s = (Inr (), bought l ref a s'\<lparr>published := ps\<rparr>)"
    using onTrade_buy_run [OF ref] m r db i publishTrade_run by metis
  have "refCache s' (refKey (lower (n_address l)) (x_marketId a)) = Some ref"
    using marketRef_Some_cached [OF ref ne] .
  then have "marketRef (n_address l) (x_marketId a) (bought l ref a s'\<lparr>published := ps\<rparr>) =
      (Inr (Some ref), bought l ref a s'\<lparr>published := ps\<rparr>)"
    using ne by (intro marketRef_cached) (simp_all add: bought_def Let_def)
  with run m r db i show ?thesis
    by (simp add: bought_def Let_def find_outcome_update find_pot_update)
qed

section \<open>The legs of a short\<close>

lemma distinct_short_legs [simp]: "distinct (short_legs n i)"
  by (simp add: short_legs_def distinct_map)

lemma set_short_legs: "set (short_legs n i) = {j. 0 \<le> j \<and> j < n \<and> j \<noteq> i}"
proof -
  have "int ` {0..<nat n} = {0..<n}" by (simp add: image_int_atLeastLessThan)
  then show ?thesis by (auto simp: short_legs_def)
qed

lemma sum_leg_basis:
  assumes "0 < n"
  shows "sum_list (map (leg_basis cost n) [0..<n]) = cost"
proof -
  obtain k where n: "n = Suc k" using assms by (cases n) auto
  have "map (leg_basis cost n) [0..<k] = map (\<lambda>_. bigint_div cost (int n)) [0..<k]"
    using n by (simp add: leg_basis_def)
  also have "sum_list \<dots> = bigint_div cost (int n) * int k"
    by (simp only: sum_list_triv length_upt) simp
  finally have "sum_list (map (leg_basis cost n) [0..<k]) = bigint_div cost (int n) * int k" .
  then show ?thesis using n by (simp add: leg_basis_def)
qed

lemma updatePosition_buy:
  "updatePosition ref acc i BUY sh c s =
     (Inr (), s\<lparr>positions := add_position (ref, lower acc, i) sh c (positions s)\<rparr>)"
  by (simp add: updatePosition_def buyPosition_def Let_def)

lemma shortLeg_run:
  assumes "tfind outcome_key (ref, snd leg) (outcomes s) = Some r"
  shows "shortLeg ref acc sh cost n leg s = (Inr (),
    s\<lparr>outcomes := tupdate outcome_key (ref, snd leg) (\<lambda>r. r\<lparr>o_shares := o_shares r + sh\<rparr>) (outcomes s),
      positions := add_position (ref, lower acc, snd leg) sh (leg_basis cost n (fst leg)) (positions s)\<rparr>)"
  using assms by (simp add: shortLeg_def updateOutcome_def updatePosition_buy)

lemma forp_shortLeg:
  assumes "distinct (map snd xs)"
    and "\<forall>x \<in> set xs. tfind outcome_key (ref, snd x) (outcomes s) \<noteq> None"
  shows "\<exists>os ps. forp (shortLeg ref acc sh cost n) xs s = (Inr (), s\<lparr>outcomes := os, positions := ps\<rparr>) \<and>
    (\<forall>ref' j. out_shares (s\<lparr>outcomes := os\<rparr>) ref' j =
       out_shares s ref' j + (if ref' = ref \<and> j \<in> snd ` set xs then sh else 0)) \<and>
    (\<forall>ref' acc' j. pos_shares (s\<lparr>positions := ps\<rparr>) ref' acc' j = pos_shares s ref' acc' j +
       (if ref' = ref \<and> acc' = lower acc \<and> j \<in> snd ` set xs then sh else 0)) \<and>
    (\<forall>x \<in> set xs. pos_cost (s\<lparr>positions := ps\<rparr>) ref (lower acc) (snd x) =
       pos_cost s ref (lower acc) (snd x) + leg_basis cost n (fst x)) \<and>
    (\<forall>ref' acc' j. (ref', acc') = (ref, lower acc) \<and> j \<in> snd ` set xs \<or>
       pos_cost (s\<lparr>positions := ps\<rparr>) ref' acc' j = pos_cost s ref' acc' j)"
  using assms
proof (induction xs arbitrary: s)
  case Nil
  have "s = s\<lparr>outcomes := outcomes s, positions := positions s\<rparr>" by simp
  then show ?case by (intro exI [of _ "outcomes s"] exI [of _ "positions s"]) simp
next
  case (Cons x xs)
  obtain k i where x: "x = (k, i)" by fastforce
  then obtain r where r: "tfind outcome_key (ref, i) (outcomes s) = Some r"
    using Cons.prems(2) by auto
  define os where "os = tupdate outcome_key (ref, i) (\<lambda>r. r\<lparr>o_shares := o_shares r + sh\<rparr>) (outcomes s)"
  define ps where "ps = add_position (ref, lower acc, i) sh (leg_basis cost n k) (positions s)"
  let ?s = "s\<lparr>outcomes := os, positions := ps\<rparr>"
  have leg: "shortLeg ref acc sh cost n x s = (Inr (), ?s)"
    using shortLeg_run [of ref x s r acc sh cost n] r x by (simp add: os_def ps_def)
  have still: "\<forall>y \<in> set xs. tfind outcome_key (ref, snd y) (outcomes ?s) \<noteq> None"
    using Cons.prems(2) r by (simp add: os_def find_outcome_update)
  obtain os' ps' where rest: "forp (shortLeg ref acc sh cost n) xs ?s = (Inr (), ?s\<lparr>outcomes := os', positions := ps'\<rparr>)"
    and o: "\<forall>ref' j. out_shares (?s\<lparr>outcomes := os'\<rparr>) ref' j =
       out_shares ?s ref' j + (if ref' = ref \<and> j \<in> snd ` set xs then sh else 0)"
    and p: "\<forall>ref' acc' j. pos_shares (?s\<lparr>positions := ps'\<rparr>) ref' acc' j = pos_shares ?s ref' acc' j +
       (if ref' = ref \<and> acc' = lower acc \<and> j \<in> snd ` set xs then sh else 0)"
    and c: "\<forall>x \<in> set xs. pos_cost (?s\<lparr>positions := ps'\<rparr>) ref (lower acc) (snd x) =
       pos_cost ?s ref (lower acc) (snd x) + leg_basis cost n (fst x)"
    and d: "\<forall>ref' acc' j. (ref', acc') = (ref, lower acc) \<and> j \<in> snd ` set xs \<or>
       pos_cost (?s\<lparr>positions := ps'\<rparr>) ref' acc' j = pos_cost ?s ref' acc' j"
    using Cons.IH [of ?s] Cons.prems(1) still by (auto simp del: split_paired_All)
  have oi: "out_shares ?s ref' j = out_shares s ref' j + (if ref' = ref \<and> j = i then sh else 0)" for ref' j
    using r by (simp add: out_shares_def os_def find_outcome_update)
  have pi: "pos_shares ?s ref' acc' j = pos_shares s ref' acc' j +
      (if ref' = ref \<and> acc' = lower acc \<and> j = i then sh else 0)" for ref' acc' j
    using pos_shares_add [where s = s and ref = ref and acc = "lower acc" and i = i and sh = sh and
        c = "leg_basis cost n k" and ps = "positions s" and ref' = ref' and acc' = acc' and j = j]
    by (simp add: ps_def pos_shares_def)
  have ci: "pos_cost ?s ref' acc' j = pos_cost s ref' acc' j +
      (if ref' = ref \<and> acc' = lower acc \<and> j = i then leg_basis cost n k else 0)" for ref' acc' j
    using pos_cost_add [where s = s and ref = ref and acc = "lower acc" and i = i and sh = sh and
        c = "leg_basis cost n k" and ps = "positions s" and ref' = ref' and acc' = acc' and j = j]
    by (simp add: ps_def pos_cost_def)
  have notin: "i \<notin> snd ` set xs" using Cons.prems(1) x by auto
  have run: "forp (shortLeg ref acc sh cost n) (x # xs) s = (Inr (), s\<lparr>outcomes := os', positions := ps'\<rparr>)"
    using leg rest by simp
  have out: "out_shares (s\<lparr>outcomes := os'\<rparr>) ref' j = out_shares (?s\<lparr>outcomes := os'\<rparr>) ref' j"
    and psh: "pos_shares (s\<lparr>positions := ps'\<rparr>) ref' acc' j = pos_shares (?s\<lparr>positions := ps'\<rparr>) ref' acc' j"
    and pco: "pos_cost (s\<lparr>positions := ps'\<rparr>) ref' acc' j = pos_cost (?s\<lparr>positions := ps'\<rparr>) ref' acc' j"
    for ref' acc' j by (simp_all add: reading_defs)
  have di: "pos_cost (?s\<lparr>positions := ps'\<rparr>) ref (lower acc) i = pos_cost ?s ref (lower acc) i"
    using d notin by blast
  show ?case
  proof (intro exI [of _ os'] exI [of _ ps'] conjI allI ballI)
    show "out_shares (s\<lparr>outcomes := os'\<rparr>) ref' j = out_shares s ref' j +
        (if ref' = ref \<and> j \<in> snd ` set (x # xs) then sh else 0)" for ref' j
      using o notin x by (auto simp: out oi)
    show "pos_shares (s\<lparr>positions := ps'\<rparr>) ref' acc' j = pos_shares s ref' acc' j +
        (if ref' = ref \<and> acc' = lower acc \<and> j \<in> snd ` set (x # xs) then sh else 0)" for ref' acc' j
      using p notin x by (auto simp: psh pi)
    show "pos_cost (s\<lparr>positions := ps'\<rparr>) ref (lower acc) (snd y) =
        pos_cost s ref (lower acc) (snd y) + leg_basis cost n (fst y)" if "y \<in> set (x # xs)" for y
    proof (cases "y = x")
      case True
      then show ?thesis using di x by (simp add: pco ci)
    next
      case False
      then have y: "y \<in> set xs" using that by simp
      then have "snd y \<noteq> i" using notin by auto
      with c y show ?thesis by (simp add: pco ci)
    qed
    show "(ref', acc') = (ref, lower acc) \<and> j \<in> snd ` set (x # xs) \<or>
        pos_cost (s\<lparr>positions := ps'\<rparr>) ref' acc' j = pos_cost s ref' acc' j" for ref' acc' j
    proof (cases "(ref', acc', j) = (ref, lower acc, i)")
      case True
      then show ?thesis using x by auto
    next
      case False
      then have "pos_cost ?s ref' acc' j = pos_cost s ref' acc' j" by (auto simp: ci)
      then show ?thesis using d [rule_format, of ref' acc' j] x by (auto simp: pco)
    qed
  qed (rule run)
qed

section \<open>Shares outstanding against shares held\<close>

definition held :: "'a db_scheme \<Rightarrow> string \<Rightarrow> int \<Rightarrow> int" where
  "held s ref i = sum_list (map (\<lambda>p. if p_ref p = ref \<and> p_outcome p = i then p_shares p else 0) (positions s))"

definition gap :: "'a db_scheme \<Rightarrow> string \<Rightarrow> int \<Rightarrow> int" where
  "gap s ref i = out_shares s ref i - held s ref i"

abbreviation one_row :: "'a db_scheme \<Rightarrow> bool" where
  "one_row s \<equiv> distinct (map position_key (positions s))"

lemma held_add:
  assumes "one_row s"
  shows "held (s\<lparr>positions := add_position (ref, acc, i) sh c (positions s)\<rparr>) ref' j =
    held s ref' j + (if ref' = ref \<and> j = i then sh else 0)"
proof (cases "tfind position_key (ref, acc, i) (positions s)")
  case None
  with assms show ?thesis by (auto simp: held_def add_position_def sum_tupsert position_row_def)
next
  case (Some p)
  then have "p_ref p = ref" "p_outcome p = i"
    using tfind_SomeD [OF Some] by (auto simp: position_key_def)
  with assms Some show ?thesis by (auto simp: held_def add_position_def sum_tupsert)
qed

lemma one_row_add: "one_row s \<Longrightarrow> one_row (s\<lparr>positions := add_position k sh c (positions s)\<rparr>)"
  unfolding add_position_def by (simp, rule distinct_tupsert) (simp_all add: position_key_def position_row_def)

lemma held_reduce:
  assumes "one_row s" "tfind position_key (ref, acc, i) (positions s) = Some p"
  shows "held (s\<lparr>positions := reduce_position (ref, acc, i) old oldc sh am (positions s)\<rparr>) ref' j =
    held s ref' j - (if ref' = ref \<and> j = i then sold_of sh old else 0)"
proof -
  have "p_ref p = ref \<and> p_outcome p = i"
    using tfind_SomeD [OF assms(2)] by (simp add: position_key_def)
  then show ?thesis
    using assms by (auto simp: held_def reduce_position_def Let_def sum_tupsert)
qed

lemma one_row_reduce: "one_row s \<Longrightarrow> one_row (s\<lparr>positions := reduce_position k old oldc sh am (positions s)\<rparr>)"
  unfolding reduce_position_def Let_def
  by (simp, rule distinct_tupsert) (simp_all add: position_key_def position_row_def)

lemma gap_outcomes:
  assumes "tfind outcome_key (ref, i) (outcomes s) = Some r"
  shows "gap (s\<lparr>outcomes := tupdate outcome_key (ref, i) (\<lambda>r. r\<lparr>o_shares := o_shares r + d\<rparr>) (outcomes s),
      positions := ps\<rparr>) ref' j =
    gap s ref' j + (if ref' = ref \<and> j = i then d else 0) +
    held s ref' j - held (s\<lparr>positions := ps\<rparr>) ref' j"
  using assms by (auto simp: gap_def held_def out_shares_def find_outcome_update)

section \<open>The exact effect of a sale\<close>

definition sold :: "nlog \<Rightarrow> string \<Rightarrow> trade_args \<Rightarrow> int \<Rightarrow> int \<Rightarrow> ep_state \<Rightarrow> ep_state" where
  "sold l ref a oldShares oldCost s =
     (let i = js_number (x_outcomeId a)
      in s\<lparr>trades := tupsert trade_key (n_tx l, n_logIndex l)
             (trade_row l ref (x_account a) SELL i (x_shares a) (x_amount a) (x_spreadWad a)
                (avgPrice (x_amount a) (x_shares a))) id (trades s),
           markets := tupdate m_id ref (\<lambda>m. m\<lparr>m_pot := m_pot m - x_amount a\<rparr>) (markets s),
           outcomes := tupdate outcome_key (ref, i) (\<lambda>r. r\<lparr>o_shares := o_shares r - x_shares a\<rparr>) (outcomes s),
           positions := reduce_position (ref, lower (x_account a), i) oldShares oldCost
             (x_shares a) (x_amount a) (positions s),
           touched := set_add ref (touched s)\<rparr>)"

lemma onTrade_sell_run:
  assumes ref: "marketRef (n_address l) (x_marketId a) s = (Inr (Some ref), s')"
    and m: "tfind m_id ref (markets s') = Some m"
    and r: "tfind outcome_key (ref, js_number (x_outcomeId a)) (outcomes s') = Some r"
    and p: "tfind position_key (ref, lower (x_account a), js_number (x_outcomeId a)) (positions s') = Some p"
    and fits: "\<bar>p_shares p\<bar> < 10 ^ 21" "\<bar>p_cost p\<bar> < 10 ^ 21"
  shows "onTrade l SELL a s =
    publishTrade ref l SELL (js_number (x_outcomeId a)) a (sold l ref a (p_shares p) (p_cost p) s')"
  using m r p ref fits
  by (simp add: onTrade_def insertTrade_def updateMarket_def updateOutcome_def decimal_bigint_def
      updatePosition_def sellPosition_def touch_def sold_def Let_def seqp_def
      publishTrade_def publishMarket_def publish_def)

lemma onTrade_sell_rejects:
  assumes ref: "marketRef (n_address l) (x_marketId a) s = (Inr (Some ref), s')"
    and m: "tfind m_id ref (markets s') = Some m"
    and r: "tfind outcome_key (ref, js_number (x_outcomeId a)) (outcomes s') = Some r"
    and p: "tfind position_key (ref, lower (x_account a), js_number (x_outcomeId a)) (positions s') = Some p"
    and big: "10 ^ 21 \<le> p_shares p"
  shows "\<exists>t. onTrade l SELL a s = (Inl SyntaxError, t) \<and>
    markets t = tupdate m_id ref (\<lambda>m. m\<lparr>m_pot := m_pot m - x_amount a\<rparr>) (markets s') \<and>
    outcomes t = tupdate outcome_key (ref, js_number (x_outcomeId a))
      (\<lambda>r. r\<lparr>o_shares := o_shares r - x_shares a\<rparr>) (outcomes s') \<and>
    positions t = positions s' \<and> refCache t = refCache s'"
proof -
  have "decimal_bigint (p_shares p) = None" using big by (simp add: decimal_bigint_def)
  with m r p ref show ?thesis
    by (simp add: onTrade_def insertTrade_def updateMarket_def updateOutcome_def
        updatePosition_def Let_def seqp_def)
qed

lemma sold_reads:
  assumes "tfind m_id ref (markets s) = Some m"
    and "tfind outcome_key (ref, i) (outcomes s) = Some r" "i = js_number (x_outcomeId a)"
    and "tfind position_key (ref, lower (x_account a), i) (positions s) = Some p"
  shows "pot_of (sold l ref a old oldc s) ref = m_pot m - x_amount a"
    and "out_shares (sold l ref a old oldc s) ref i = o_shares r - x_shares a"
    and "tfind position_key (ref, lower (x_account a), i) (positions (sold l ref a old oldc s)) =
      Some (p\<lparr>p_shares := p_shares p - sold_of (x_shares a) old,
        p_cost := p_cost p - costRemoved_of old oldc (sold_of (x_shares a) old),
        p_pnl := p_pnl p + (x_amount a - costRemoved_of old oldc (sold_of (x_shares a) old))\<rparr>)"
proof -
  show "pot_of (sold l ref a old oldc s) ref = m_pot m - x_amount a"
    using assms(1) by (simp add: sold_def Let_def pot_of_def find_pot_update_minus)
  show "out_shares (sold l ref a old oldc s) ref i = o_shares r - x_shares a"
    using assms(2,3) by (simp add: sold_def Let_def out_shares_def find_outcome_update_minus)
  show "tfind position_key (ref, lower (x_account a), i) (positions (sold l ref a old oldc s)) =
      Some (p\<lparr>p_shares := p_shares p - sold_of (x_shares a) old,
        p_cost := p_cost p - costRemoved_of old oldc (sold_of (x_shares a) old),
        p_pnl := p_pnl p + (x_amount a - costRemoved_of old oldc (sold_of (x_shares a) old))\<rparr>)"
    using assms(3,4) by (simp add: sold_def Let_def find_reduce_position)
qed

lemma gap_sold:
  assumes "one_row s" "tfind outcome_key (ref, i) (outcomes s) = Some r" "i = js_number (x_outcomeId a)"
    and "tfind position_key (ref, lower (x_account a), i) (positions s) = Some p"
  shows "gap (sold l ref a old oldc s) ref' j =
    gap s ref' j - (if ref' = ref \<and> j = i then x_shares a - sold_of (x_shares a) old else 0)"
proof -
  let ?ps = "reduce_position (ref, lower (x_account a), i) old oldc (x_shares a) (x_amount a) (positions s)"
  have "gap (sold l ref a old oldc s) ref' j = gap (s\<lparr>outcomes :=
      tupdate outcome_key (ref, i) (\<lambda>r. r\<lparr>o_shares := o_shares r + (- x_shares a)\<rparr>) (outcomes s),
      positions := ?ps\<rparr>) ref' j"
    using assms(3) by (simp add: sold_def Let_def gap_def held_def out_shares_def)
  also have "\<dots> = gap s ref' j - (if ref' = ref \<and> j = i then x_shares a else 0) +
      held s ref' j - held (s\<lparr>positions := ?ps\<rparr>) ref' j"
    using gap_outcomes [OF assms(2), where d = "- x_shares a"] by simp
  finally show ?thesis using held_reduce [OF assms(1,4)] by simp
qed

lemma gap_bought:
  assumes "one_row s" "tfind outcome_key (ref, i) (outcomes s) = Some r" "i = js_number (x_outcomeId a)"
  shows "gap (bought l ref a s) ref' j = gap s ref' j"
proof -
  let ?ps = "add_position (ref, lower (x_account a), i) (x_shares a) (x_amount a) (positions s)"
  have "gap (bought l ref a s) ref' j = gap (s\<lparr>outcomes :=
      tupdate outcome_key (ref, i) (\<lambda>r. r\<lparr>o_shares := o_shares r + x_shares a\<rparr>) (outcomes s),
      positions := ?ps\<rparr>) ref' j"
    using assms(3) by (simp add: bought_def Let_def gap_def held_def out_shares_def)
  also have "\<dots> = gap s ref' j + (if ref' = ref \<and> j = i then x_shares a else 0) +
      held s ref' j - held (s\<lparr>positions := ?ps\<rparr>) ref' j"
    using gap_outcomes [OF assms(2)] by simp
  finally show ?thesis using held_add [OF assms(1)] by simp
qed

text \<open>Readings do not see the fields a handler writes besides the tables.\<close>

lemma gap_cong: "outcomes t = outcomes s \<Longrightarrow> positions t = positions s \<Longrightarrow> gap t ref i = gap s ref i"
  by (simp add: gap_def held_def out_shares_def)

section \<open>No trade makes the supply outgrow the holdings\<close>

definition gap_le :: "ep_state \<Rightarrow> ep_state \<Rightarrow> bool" where
  "gap_le s t \<longleftrightarrow> (one_row s \<longrightarrow> one_row t \<and> (\<forall>ref i. gap t ref i \<le> gap s ref i))"

definition gap_eq :: "ep_state \<Rightarrow> ep_state \<Rightarrow> bool" where
  "gap_eq s t \<longleftrightarrow> (one_row s \<longrightarrow> one_row t \<and> (\<forall>ref i. gap t ref i = gap s ref i))"

interpretation gap_le_steps: step_order gap_le
  by unfold_locales (simp add: gap_le_def, unfold gap_le_def, meson order_trans)

interpretation gap_eq_steps: step_order gap_eq
  by unfold_locales (auto simp: gap_eq_def)

lemma gap_eqI: "positions t = positions s \<Longrightarrow> outcomes t = outcomes s \<Longrightarrow> gap_eq s t"
  using gap_cong [of t s] by (simp add: gap_eq_def)

lemma gap_eq_le: "steps gap_eq m \<Longrightarrow> steps gap_le m"
  by (auto simp: steps_def gap_eq_def gap_le_def)

lemma gap_eq_marketRef: "steps gap_eq (marketRef a i)"
  by (rule stepsI) (auto intro: gap_eqI dest: marketRef_db)

lemma gap_eq_updateMarket: "steps gap_eq (updateMarket ref f)"
  by (auto simp: steps_def updateMarket_def gap_eqI split: option.splits)

lemma gap_eq_frames:
  "steps gap_eq (insertTrade l ref acc sd i sh am sp pr)" "steps gap_eq (touch ref)"
  "steps gap_eq (publishTrade ref l sd i a)" "steps gap_eq (invalidate ref)"
  "steps gap_eq (publishMarket ref ev d)" "steps gap_eq (publish ch ev d x)"
  by (simp_all add: steps_def insertTrade_def touch_def publishTrade_def publishMarket_def publish_def
      invalidate_def gap_eqI)

lemma gap_eq_add:
  assumes "tfind outcome_key (ref, i) (outcomes s) = Some r"
  shows "gap_eq s (s\<lparr>outcomes := tupdate outcome_key (ref, i) (\<lambda>r. r\<lparr>o_shares := o_shares r + sh\<rparr>) (outcomes s),
    positions := add_position (ref, acc, i) sh c (positions s)\<rparr>)"
  using gap_outcomes [OF assms] held_add [where s = s and ref = ref and acc = acc and i = i and sh = sh and c = c]
    one_row_add [where s = s and k = "(ref, acc, i)" and sh = sh and c = c]
  by (simp add: gap_eq_def)

lemma gap_eq_book:
  "steps gap_eq (seqp (updateOutcome ref i (\<lambda>r. r\<lparr>o_shares := o_shares r + sh\<rparr>))
     (updatePosition ref acc i BUY sh c))"
proof (rule stepsI)
  fix s r t
  assume run: "seqp (updateOutcome ref i (\<lambda>r. r\<lparr>o_shares := o_shares r + sh\<rparr>))
     (updatePosition ref acc i BUY sh c) s = (r, t)"
  show "gap_eq s t"
  proof (cases "tfind outcome_key (ref, i) (outcomes s)")
    case None
    with run show ?thesis by (simp add: updateOutcome_def gap_eqI)
  next
    case (Some row)
    with run gap_eq_add [OF Some, where sh = sh and acc = "lower acc" and c = c] show ?thesis
      by (simp add: updateOutcome_def updatePosition_buy)
  qed
qed

lemma gap_le_sell:
  assumes "0 \<le> sh"
  shows "steps gap_le (seqp (updateOutcome ref i (\<lambda>r. r\<lparr>o_shares := o_shares r + (- sh)\<rparr>))
     (updatePosition ref acc i SELL sh c))"
proof (rule stepsI)
  fix s r t
  assume run: "seqp (updateOutcome ref i (\<lambda>r. r\<lparr>o_shares := o_shares r + (- sh)\<rparr>))
     (updatePosition ref acc i SELL sh c) s = (r, t)"
  let ?os = "tupdate outcome_key (ref, i) (\<lambda>r. r\<lparr>o_shares := o_shares r + (- sh)\<rparr>) (outcomes s)"
  let ?k = "(ref, lower acc, i)"
  show "gap_le s t"
  proof (cases "tfind outcome_key (ref, i) (outcomes s)")
    case None
    with run show ?thesis by (simp add: updateOutcome_def gap_le_def)
  next
    case (Some row)
    note g = gap_outcomes [OF Some, where d = "- sh"]
    show ?thesis
    proof (cases "tfind position_key ?k (positions s)")
      case None
      then have t: "t = s\<lparr>outcomes := ?os, positions := reduce_position ?k 0 0 sh c (positions s)\<rparr>"
        using run Some by (simp add: updateOutcome_def updatePosition_def Let_def sellPosition_def)
      have "held (s\<lparr>positions := reduce_position ?k 0 0 sh c (positions s)\<rparr>) ref' j = held s ref' j" for ref' j
        using None by (simp add: held_def reduce_position_def Let_def tupsert_def position_row_def)
      then show ?thesis using g t assms one_row_reduce [where s = s and k = ?k and old = 0 and oldc = 0 and sh = sh and am = c] by (simp add: gap_le_def)
    next
      case (Some p)
      consider (big) "t = s\<lparr>outcomes := ?os\<rparr>"
        | (fits) "t = s\<lparr>outcomes := ?os, positions :=
            reduce_position ?k (p_shares p) (p_cost p) sh c (positions s)\<rparr>"
        using run Some \<open>tfind outcome_key (ref, i) (outcomes s) = Some row\<close>
        by (auto simp: updateOutcome_def updatePosition_def Let_def sellPosition_def decimal_bigint_def
            split: if_splits)
      then show ?thesis
      proof cases
        case big
        then have "gap t ref' j \<le> gap s ref' j" for ref' j
          using g [of "positions s" ref' j] assms by (simp add: gap_def held_def out_shares_def)
        then show ?thesis using big by (simp add: gap_le_def)
      next
        case fits
        then show ?thesis
          using g assms held_reduce [OF _ Some] one_row_reduce [where s = s and k = ?k and old = "p_shares p" and oldc = "p_cost p" and sh = sh and am = c]
          by (auto simp: gap_le_def sold_of_def)
      qed
    qed
  qed
qed

lemma gap_onTrade_buy: "steps gap_eq (onTrade l BUY a)"
  unfolding onTrade_def Let_def seqs.simps
  by (intro gap_eq_steps.steps_bindp [OF gap_eq_marketRef] gap_eq_steps.steps_option gap_eq_steps.steps_ret
      gap_eq_steps.steps_seqp [OF gap_eq_frames(1)] gap_eq_steps.steps_seqp [OF gap_eq_updateMarket]
      gap_eq_steps.steps_pair gap_eq_steps.steps_seqp [OF gap_eq_frames(2)]
      gap_eq_steps.steps_seqp [OF gap_eq_frames(3)]) (simp only: simp_thms if_True gap_eq_book)

lemma gap_onTrade_sell: "0 \<le> x_shares a \<Longrightarrow> steps gap_le (onTrade l SELL a)"
  unfolding onTrade_def Let_def seqs.simps
  by (intro gap_le_steps.steps_bindp [OF gap_eq_marketRef [THEN gap_eq_le]] gap_le_steps.steps_option
      gap_le_steps.steps_ret gap_le_steps.steps_seqp [OF gap_eq_frames(1) [THEN gap_eq_le]]
      gap_le_steps.steps_seqp [OF gap_eq_updateMarket [THEN gap_eq_le]]
      gap_le_steps.steps_pair gap_le_steps.steps_seqp [OF gap_eq_frames(2) [THEN gap_eq_le]]
      gap_le_steps.steps_seqp [OF gap_eq_frames(3) [THEN gap_eq_le]])
    (simp only: trade_side.distinct if_False gap_le_sell)

lemma gap_onShort: "steps gap_eq (onShort l a)"
  unfolding onShort_def Let_def seqs.simps shortLeg_def
  by (intro gap_eq_steps.steps_intros gap_eq_marketRef gap_eq_book gap_eq_frames gap_eq_updateMarket)

section \<open>The effect of a short\<close>

lemma publishTrade_reads:
  "publishTrade ref l sd i a s = (r, t) \<Longrightarrow> markets t = markets s \<and> outcomes t = outcomes s \<and> positions t = positions s"
  by (auto simp: publishTrade_def publishMarket_def publish_def)

lemma short_effect:
  assumes ref: "marketRef (n_address l) (x_marketId a) s = (Inr (Some ref), s')"
    and m: "tfind m_id ref (markets s) = Some m"
    and i: "i = js_number (x_outcomeId a)" and legs: "legs = short_legs (m_outcomeCount m) i" "legs \<noteq> []"
    and acc: "acc = lower (x_account a)"
    and rows: "\<forall>j \<in> set legs. tfind outcome_key (ref, j) (outcomes s) \<noteq> None"
  shows "\<exists>t. onShort l a s = (Inr (), t) \<and>
    (\<forall>ref'. pot_of t ref' = pot_of s ref' + (if ref' = ref then x_amount a else 0)) \<and>
    (\<forall>ref' j. out_shares t ref' j = out_shares s ref' j + (if ref' = ref \<and> j \<in> set legs then x_shares a else 0)) \<and>
    (\<forall>ref' acc' j. pos_shares t ref' acc' j = pos_shares s ref' acc' j +
       (if ref' = ref \<and> acc' = acc \<and> j \<in> set legs then x_shares a else 0)) \<and>
    (\<forall>x \<in> set (enumerate 0 legs). pos_cost t ref acc (snd x) =
       pos_cost s ref acc (snd x) + leg_basis (x_amount a) (length legs) (fst x)) \<and>
    (\<forall>ref' acc' j. (ref', acc') = (ref, acc) \<and> j \<in> set legs \<or> pos_cost t ref' acc' j = pos_cost s ref' acc' j)"
proof -
  have db: "markets s' = markets s" "outcomes s' = outcomes s" "positions s' = positions s"
    using marketRef_db [OF ref] by auto
  let ?legs = "enumerate 0 legs"
  have img: "snd ` set ?legs = set legs" by (metis map_snd_enumerate set_map)
  define s1 where "s1 = s'\<lparr>trades := tupsert trade_key (n_tx l, n_logIndex l)
     (trade_row l ref acc SHORT i (x_shares a) (x_amount a) (x_spreadWad a)
        (avgPrice (x_amount a) (x_shares a))) id (trades s')\<rparr>"
  have dist: "distinct (map snd ?legs)" using legs(1) by simp
  have "tfind outcome_key (ref, snd x) (outcomes s1) \<noteq> None" if "x \<in> set ?legs" for x
    using rows that img db by (auto simp: s1_def)
  then have rows1: "\<forall>x \<in> set ?legs. tfind outcome_key (ref, snd x) (outcomes s1) \<noteq> None" by blast
  note legs_run = forp_shortLeg [where xs = ?legs and ref = ref and s = s1 and acc = acc and sh = "x_shares a"
      and cost = "x_amount a" and n = "length legs", OF dist]
  obtain os ps where run: "forp (shortLeg ref acc (x_shares a) (x_amount a) (length legs)) ?legs s1 =
      (Inr (), s1\<lparr>outcomes := os, positions := ps\<rparr>)"
    and o: "\<forall>ref' j. out_shares (s1\<lparr>outcomes := os\<rparr>) ref' j =
       out_shares s1 ref' j + (if ref' = ref \<and> j \<in> snd ` set ?legs then x_shares a else 0)"
    and p: "\<forall>ref' acc' j. pos_shares (s1\<lparr>positions := ps\<rparr>) ref' acc' j = pos_shares s1 ref' acc' j +
       (if ref' = ref \<and> acc' = lower acc \<and> j \<in> snd ` set ?legs then x_shares a else 0)"
    and c: "\<forall>x \<in> set ?legs. pos_cost (s1\<lparr>positions := ps\<rparr>) ref (lower acc) (snd x) =
       pos_cost s1 ref (lower acc) (snd x) + leg_basis (x_amount a) (length legs) (fst x)"
    and d: "\<forall>ref' acc' j. (ref', acc') = (ref, lower acc) \<and> j \<in> snd ` set ?legs \<or>
       pos_cost (s1\<lparr>positions := ps\<rparr>) ref' acc' j = pos_cost s1 ref' acc' j"
    using legs_run [OF rows1] by (elim exE conjE)
  let ?u = "s1\<lparr>outcomes := os, positions := ps,
     markets := tupdate m_id ref (\<lambda>m. m\<lparr>m_pot := m_pot m + x_amount a\<rparr>) (markets s1),
     touched := set_add ref (touched s1)\<rparr>"
  have "onShort l a s = publishTrade ref l SHORT i a ?u"
    using ref m db run legs i acc
    by (simp add: onShort_def Let_def insertTrade_def s1_def updateMarket_def touch_def)
  moreover obtain t where t: "publishTrade ref l SHORT i a ?u = (Inr (), t)"
    using publishTrade_run by blast
  moreover have reads: "markets t = markets ?u" "outcomes t = os" "positions t = ps"
    using publishTrade_reads [OF t] by auto
  moreover have base: "out_shares s1 = out_shares s" "pos_shares s1 = pos_shares s" "pos_cost s1 = pos_cost s"
    using db by (auto simp: s1_def reading_defs fun_eq_iff)
  moreover have "out_shares t = out_shares (s1\<lparr>outcomes := os\<rparr>)"
    "pos_shares t = pos_shares (s1\<lparr>positions := ps\<rparr>)" "pos_cost t = pos_cost (s1\<lparr>positions := ps\<rparr>)"
    using reads by (auto simp: reading_defs fun_eq_iff)
  moreover have "\<forall>ref'. pot_of t ref' = pot_of s ref' + (if ref' = ref then x_amount a else 0)"
    using reads m db by (simp add: pot_of_def s1_def find_pot_update)
  moreover have "lower acc = acc" using acc by simp
  ultimately show ?thesis using o p c d by (intro exI [of _ t]) (simp only: img, blast)
qed

text \<open>The bases leg by leg: the quotient for all but the last, the remainder for the last.\<close>

lemma short_bases:
  assumes "legs \<noteq> []" "\<forall>x \<in> set (enumerate 0 legs). f (snd x) = g (snd x) + leg_basis cost (length legs) (fst x)"
  shows "\<forall>j \<in> set (butlast legs). f j = g j + bigint_div cost (int (length legs))"
    and "f (last legs) = g (last legs) + (cost - bigint_div cost (int (length legs)) * int (length legs - 1))"
proof -
  have at: "f (legs ! k) = g (legs ! k) + leg_basis cost (length legs) k" if "k < length legs" for k
  proof -
    have "(k, legs ! k) \<in> set (enumerate 0 legs)" using that by (simp add: in_set_enumerate_eq)
    from bspec [OF assms(2) this] show ?thesis by simp
  qed
  show "\<forall>j \<in> set (butlast legs). f j = g j + bigint_div cost (int (length legs))"
  proof
    fix j
    assume "j \<in> set (butlast legs)"
    then obtain k where "k < length legs - 1" "j = legs ! k" by (auto simp: in_set_conv_nth nth_butlast)
    then show "f j = g j + bigint_div cost (int (length legs))" using at [of k] by (simp add: leg_basis_def)
  qed
  show "f (last legs) = g (last legs) + (cost - bigint_div cost (int (length legs)) * int (length legs - 1))"
    using at [of "length legs - 1"] assms(1) by (simp add: last_conv_nth leg_basis_def Let_def)
qed

lemma sum_short_basis:
  assumes "legs \<noteq> []" "\<And>x. x \<in> set (enumerate 0 legs) \<Longrightarrow> f (snd x) = leg_basis cost (length legs) (fst x)"
  shows "sum_list (map f legs) = cost"
proof -
  have "map f legs = map (\<lambda>x. leg_basis cost (length legs) (fst x)) (enumerate 0 legs)"
    using assms(2) by (subst map_snd_enumerate [of 0 legs, symmetric]) (simp del: map_snd_enumerate)
  also have "\<dots> = map (leg_basis cost (length legs)) [0..<length legs]"
    by (metis (no_types, lifting) ext add_0 length_enumerate map_fst_enumerate map_map o_apply)
  finally show ?thesis using assms(1) sum_leg_basis by simp
qed

end
