(* ===== verification/Samples.thy ===== *)
theory Samples
  imports LedgerProps
begin

text \<open>
  One concrete database the examples of the other theories run on: a market of three outcomes,
  seeded with 100 shares each, and the 50 shares of outcome 0 that ''0xa1'' bought for 30.
\<close>

definition sample_market :: market where
  "sample_market =
     \<lparr>m_id = ''m1'', m_address = ''0xaa'', m_marketId = 7, m_collateral = ''0xdd'', m_resolver = ''0xee'',
      m_startTime = 0, m_closeTime = 1000000, m_outcomeCount = 3, m_categoryKey = None,
      m_metadataHash = ''0xff'', m_creator = ''0xcc'', m_alpha = 1, m_sStar = 1, m_seed = 100,
      m_status = TRADING, m_winning = None, m_pot = 330, m_surplus = None, m_title = [],
      m_description = [], m_rules = [], m_imageUrl = None, m_createdBlock = 1, m_createdTx = ''0x01''\<rparr>"

definition sample_outcome :: "int \<Rightarrow> int \<Rightarrow> outcome" where
  "sample_outcome i sh = \<lparr>o_ref = ''m1'', o_index = i, o_label = [], o_price = 1, o_shares = sh\<rparr>"

definition sample_position :: "int \<Rightarrow> int \<Rightarrow> position" where
  "sample_position sh c = \<lparr>p_ref = ''m1'', p_account = ''0xa1'', p_outcome = 0, p_shares = sh, p_cost = c,
     p_pnl = 0, p_redeemed = False\<rparr>"

definition state_with :: "position list \<Rightarrow> ep_state" where
  "state_with ps =
     \<lparr>markets = [sample_market], outcomes = [sample_outcome 0 150, sample_outcome 1 100, sample_outcome 2 100],
      trades = [], positions = ps, pricePoints = [], drafts = [], categories = [], proposals = [],
      bans = [], poolLeaves = [], cursors = [],
      minted = 1, refCache = Map.empty, cache = Map.empty, published = [], touched = [], clock = 0\<rparr>"

definition sample_state :: ep_state where
  "sample_state = state_with [sample_position 50 30]"

definition sample_trade :: "int \<Rightarrow> int \<Rightarrow> int \<Rightarrow> trade_args" where
  "sample_trade i sh am = \<lparr>x_marketId = 7, x_account = ''0xA1'', x_outcomeId = i, x_shares = sh,
     x_amount = am, x_spreadWad = 0\<rparr>"

definition sample_log :: "event \<Rightarrow> nlog" where
  "sample_log ev = \<lparr>n_kind = LS_LMSR, n_address = ''0xAA'', n_event = ev, n_block = 2, n_tx = ''0x02'',
     n_logIndex = 0, n_time = 5000\<rparr>"

lemmas sample_defs = sample_market_def sample_outcome_def sample_position_def state_with_def
  sample_state_def sample_trade_def sample_log_def

lemma lower_samples [simp]:
  "lower ''0xAA'' = ''0xaa''" "lower ''0xA1'' = ''0xa1''" "lower ''0xa1'' = ''0xa1''"
  by code_simp+

lemma sample_ref_run:
  "marketRef ''0xAA'' 7 (state_with ps) =
     (Inr (Some ''m1''), (state_with ps)\<lparr>refCache := [refKey ''0xaa'' 7 \<mapsto> ''m1'']\<rparr>)"
  by (simp add: marketRef_def sample_defs Let_def market_key_def)

end
