(* ===== verification/Resolution.thy ===== *)
theory Resolution
  imports ProcessorState
begin

text \<open>
  Bonded resolution and the ban list: the resolver's and the blocklist's handlers of
  \<open>src/src/chain/event-processor.service.ts\<close>. A proposal row carries the whole life of a market's
  resolution; the rows are keyed by the engine address and the market id.
\<close>

section \<open>The handlers\<close>

definition resolutionKey :: "string \<Rightarrow> int \<Rightarrow> (string \<times> int \<times> string option) ep" where
  "resolutionKey market marketId = gets (\<lambda>s.
     (lower market, marketId, map_option m_id (tfind market_key (lower market, marketId) (markets s))))"

definition announceResolution :: "string option \<Rightarrow> string \<times> int \<Rightarrow> unit ep" where
  "announceResolution r k = (case r of None \<Rightarrow> ret () | Some ref \<Rightarrow>
     if ref = [] then ret ()
     else seqp (invalidate ref) (seqp (cache_del (detailKey ref))
       (bindp (gets (\<lambda>s. tfind proposal_key k (proposals s))) (\<lambda>row.
          publishMarket ref EvResolution
            (case row of None \<Rightarrow> DResolution NONE None
             | Some p \<Rightarrow> DResolution (r_phase p) (r_deadline p))))))"

definition proposed_row :: "nlog \<Rightarrow> proposed_args \<Rightarrow> string option \<Rightarrow> int \<Rightarrow> proposal" where
  "proposed_row l a ref deadline =
     \<lparr>r_address = lower (q_market a), r_marketId = q_marketId a, r_ref = ref, r_phase = PROPOSED,
      r_proposer = Some (lower (q_proposer a)), r_proposed = outcomeOrVoid (q_outcome a),
      r_bonded = q_bonded a, r_bond = q_bond a, r_deadline = Some deadline,
      r_disputer = None, r_counter = None, r_disputerBond = 0, r_arbDeadline = None,
      r_route = None, r_settled = None, r_reward = 0, r_forfeited = 0, r_loser = None,
      r_settledAt = None, r_proposedTx = Some (n_tx l), r_settledTx = None\<rparr>"

definition onProposed :: "nlog \<Rightarrow> proposed_args \<Rightarrow> unit ep" where
  "onProposed l a = bindp (resolutionKey (q_market a) (q_marketId a)) (\<lambda>(address, marketId, ref).
     case unix_date (q_disputeDeadline a) of None \<Rightarrow> throw InvalidArgument
     | Some deadline \<Rightarrow>
         (let row = proposed_row l a ref deadline
          in seqp (modp (\<lambda>s. s\<lparr>proposals := tupsert proposal_key (address, marketId) row (\<lambda>_. row) (proposals s)\<rparr>))
             (announceResolution ref (address, marketId))))"

text \<open>\<open>resolutionProposal.updateMany\<close>: no row, no change and no error.\<close>

definition updateProposal :: "string \<times> int \<Rightarrow> (proposal \<Rightarrow> proposal) \<Rightarrow> unit ep" where
  "updateProposal k f = modp (\<lambda>s. s\<lparr>proposals := tupdate proposal_key k f (proposals s)\<rparr>)"

definition disputed_row :: "disputed_args \<Rightarrow> int \<Rightarrow> proposal \<Rightarrow> proposal" where
  "disputed_row a deadline p = p\<lparr>r_phase := DISPUTED, r_disputer := Some (lower (u_disputer a)),
     r_counter := outcomeOrVoid (u_counterOutcome a), r_disputerBond := u_bond a,
     r_arbDeadline := Some deadline\<rparr>"

definition onDisputed :: "nlog \<Rightarrow> disputed_args \<Rightarrow> unit ep" where
  "onDisputed l a = bindp (resolutionKey (u_market a) (u_marketId a)) (\<lambda>(address, marketId, ref).
     case unix_date (u_arbitrationDeadline a) of None \<Rightarrow> throw InvalidArgument
     | Some deadline \<Rightarrow>
         seqp (updateProposal (address, marketId) (disputed_row a deadline))
              (announceResolution ref (address, marketId)))"

definition finalized_row :: "nlog \<Rightarrow> int \<Rightarrow> int \<Rightarrow> proposal \<Rightarrow> proposal" where
  "finalized_row l outcome reward p = p\<lparr>r_phase := SETTLED, r_route := Some FINALIZED,
     r_settled := outcomeOrVoid outcome, r_reward := reward,
     r_settledAt := Some (n_time l), r_settledTx := Some (n_tx l)\<rparr>"

definition onFinalized :: "nlog \<Rightarrow> string \<Rightarrow> int \<Rightarrow> int \<Rightarrow> int \<Rightarrow> unit ep" where
  "onFinalized l market i outcome reward =
     bindp (resolutionKey market i) (\<lambda>(address, marketId, ref).
       seqp (updateProposal (address, marketId) (finalized_row l outcome reward))
            (announceResolution ref (address, marketId)))"

definition arbitrated_row :: "arbitrated_args \<Rightarrow> proposal \<Rightarrow> proposal" where
  "arbitrated_row a p = p\<lparr>r_phase := SETTLED, r_route := Some ARBITRATED,
     r_settled := outcomeOrVoid (v_outcome a), r_reward := v_reward a, r_forfeited := v_forfeited a,
     r_loser := (if lower (v_loser a) = ZERO_ADDRESS then None else Some (lower (v_loser a)))\<rparr>"

definition onArbitrated :: "nlog \<Rightarrow> arbitrated_args \<Rightarrow> unit ep" where
  "onArbitrated l a = bindp (resolutionKey (v_market a) (v_marketId a)) (\<lambda>(address, marketId, ref).
     seqp (updateProposal (address, marketId) (arbitrated_row a))
          (announceResolution ref (address, marketId)))"

definition slashed_row :: "nlog \<Rightarrow> string \<Rightarrow> int \<Rightarrow> proposal \<Rightarrow> proposal" where
  "slashed_row l account amount p = p\<lparr>r_loser := Some (lower account), r_forfeited := amount,
     r_settledAt := Some (n_time l), r_settledTx := Some (n_tx l)\<rparr>"

definition onSlashed :: "nlog \<Rightarrow> string \<Rightarrow> int \<Rightarrow> string \<Rightarrow> int \<Rightarrow> unit ep" where
  "onSlashed l market i account amount =
     bindp (resolutionKey market i) (\<lambda>(address, marketId, ref).
       updateProposal (address, marketId) (slashed_row l account amount))"

definition cleared_row :: "proposal \<Rightarrow> proposal" where
  "cleared_row p = p\<lparr>r_phase := NONE, r_proposer := None, r_proposed := None, r_bonded := False,
     r_bond := 0, r_deadline := None, r_disputer := None, r_counter := None, r_disputerBond := 0,
     r_arbDeadline := None\<rparr>"

definition onResolutionCleared :: "string \<Rightarrow> int \<Rightarrow> unit ep" where
  "onResolutionCleared market i =
     bindp (resolutionKey market i) (\<lambda>(address, marketId, ref).
       seqp (updateProposal (address, marketId) cleared_row)
            (announceResolution ref (address, marketId)))"

definition banned_row :: "nlog \<Rightarrow> string \<Rightarrow> string \<Rightarrow> int \<Rightarrow> int \<Rightarrow> ban" where
  "banned_row l account context marketId bannedAt =
     \<lparr>b_account = lower account,
      b_context = (if lower context = ZERO_ADDRESS then None else Some (lower context)),
      b_marketId = (if lower context = ZERO_ADDRESS then None else Some marketId),
      b_bannedAt = bannedAt, b_liftedAt = None, b_tx = Some (n_tx l)\<rparr>"

definition onBanned :: "nlog \<Rightarrow> string \<Rightarrow> string \<Rightarrow> int \<Rightarrow> int \<Rightarrow> unit ep" where
  "onBanned l account context marketId bannedAt =
     (case unix_date bannedAt of None \<Rightarrow> throw InvalidArgument
      | Some d \<Rightarrow>
          (let row = banned_row l account context marketId d
           in modp (\<lambda>s. s\<lparr>bans := tupsert b_account (lower account) row (\<lambda>_. row) (bans s)\<rparr>)))"

definition onUnbanned :: "nlog \<Rightarrow> string \<Rightarrow> unit ep" where
  "onUnbanned l account = modp (\<lambda>s. s\<lparr>bans := tupdate b_account (lower account)
     (\<lambda>b. b\<lparr>b_liftedAt := Some (n_time l), b_tx := Some (n_tx l)\<rparr>) (bans s)\<rparr>)"

lemmas resolution_defs [handler_defs] = resolutionKey_def announceResolution_def onProposed_def
  updateProposal_def onDisputed_def onFinalized_def onArbitrated_def onSlashed_def
  onResolutionCleared_def onBanned_def onUnbanned_def

section \<open>Runs\<close>

lemma announce_reads:
  "\<exists>t. announceResolution r k s = (Inr (), t) \<and> proposals t = proposals s \<and> markets t = markets s \<and> bans t = bans s"
  by (auto simp: announceResolution_def invalidate_def cache_del_def publishMarket_def publish_def
      split: option.splits)

text \<open>The row a resolver event leaves at its key, from the row it found there (\<open>None\<close>: no such
  event, or one with a deadline no \<open>Date\<close> can hold).\<close>

definition ref_at :: "'a db_scheme \<Rightarrow> string \<times> int \<Rightarrow> string option" where
  "ref_at s k = map_option m_id (tfind market_key k (markets s))"

definition row_at :: "'a db_scheme \<Rightarrow> string \<times> int \<Rightarrow> proposal option" where
  "row_at s k = tfind proposal_key k (proposals s)"

lemma row_at_update:
  assumes "\<And>r. proposal_key (f r) = proposal_key r"
  shows "row_at (s\<lparr>proposals := tupdate proposal_key k f ps\<rparr>) k' =
    (if k' = k then map_option f (tfind proposal_key k ps) else tfind proposal_key k' ps)"
  unfolding row_at_def using assms by (simp add: proposal_rows.lookup_update)

lemma proposal_key_rows [simp]:
  "proposal_key (disputed_row a d p) = proposal_key p" "proposal_key (finalized_row l v w p) = proposal_key p"
  "proposal_key (arbitrated_row b p) = proposal_key p" "proposal_key (slashed_row l c n p) = proposal_key p"
  "proposal_key (cleared_row p) = proposal_key p"
  "proposal_key (proposed_row l q r e) = (lower (q_market q), q_marketId q)"
  by (simp_all add: proposal_key_def disputed_row_def finalized_row_def arbitrated_row_def
      slashed_row_def cleared_row_def proposed_row_def)

lemma updateProposal_announce_run:
  assumes "\<And>r. proposal_key (f r) = proposal_key r"
  shows "\<exists>t. seqp (updateProposal k f) (announceResolution r k) s = (Inr (), t) \<and>
    row_at t k = map_option f (row_at s k) \<and> (\<forall>k'. k' \<noteq> k \<longrightarrow> row_at t k' = row_at s k') \<and> ref_at t = ref_at s"
proof -
  let ?s = "s\<lparr>proposals := tupdate proposal_key k f (proposals s)\<rparr>"
  obtain t where t: "announceResolution r k ?s = (Inr (), t)" "proposals t = proposals ?s" "markets t = markets s"
    using announce_reads [of r k ?s] by auto
  have "row_at t = row_at ?s" "ref_at t = ref_at s" using t by (auto simp: row_at_def ref_at_def fun_eq_iff)
  with t(1) row_at_update [OF assms, where s = s and k = k and ps = "proposals s"] show ?thesis
    by (intro exI [of _ t]) (simp add: updateProposal_def row_at_def)
qed

end
