(* ===== verification/EventProcessor.thy ===== *)
theory EventProcessor
  imports Samples Resolution
begin

text \<open>
  Dispatch and batches of \<open>src/src/chain/event-processor.service.ts\<close>: \<open>apply\<close>, \<open>processBatch\<close> and
  the price refresh of the markets a batch touched, with \<open>PricesService.recordPoint\<close> of
  \<open>src/src/prices/prices.service.ts\<close>.
\<close>

section \<open>Definitions\<close>

fun applyEngine :: "env \<Rightarrow> nlog \<Rightarrow> event \<Rightarrow> unit ep" where
  "applyEngine E l (MarketCreated a) = bindp (createMarket E l a) (\<lambda>_. ret ())"
| "applyEngine E l (MarketMetadataPublished i h m) = onMetadataPublished E l i h m"
| "applyEngine E l (Bought a) = onTrade l BUY a"
| "applyEngine E l (Sold a) = onTrade l SELL a"
| "applyEngine E l (Shorted a) = onShort l a"
| "applyEngine E l (MarketResolved i w owed surplus) = onResolved l i (js_number w) owed surplus"
| "applyEngine E l (MarketInvalidated i surplus) = onInvalidated l i surplus"
| "applyEngine E l (Redeemed i account amount) = onRedeem l i account amount"
| "applyEngine E l (SeedRedeemed i creator amount) = onSeedRedeemed l i amount"
| "applyEngine E l _ = ret ()"

fun applyResolver :: "nlog \<Rightarrow> event \<Rightarrow> unit ep" where
  "applyResolver l (Proposed a) = onProposed l a"
| "applyResolver l (Disputed a) = onDisputed l a"
| "applyResolver l (Finalized market i v proposer reward) = onFinalized l market i v reward"
| "applyResolver l (Arbitrated a) = onArbitrated l a"
| "applyResolver l (Slashed market i account amount banned) = onSlashed l market i account amount"
| "applyResolver l (ProposalAbandoned market i proposer) = onResolutionCleared market i"
| "applyResolver l (DisputeReset market i) = onResolutionCleared market i"
| "applyResolver l _ = ret ()"

fun applyBlocklist :: "nlog \<Rightarrow> event \<Rightarrow> unit ep" where
  "applyBlocklist l (Banned account context i t) = onBanned l account context i t"
| "applyBlocklist l (Unbanned account operator) = onUnbanned l account"
| "applyBlocklist l _ = ret ()"

definition applyLog :: "env \<Rightarrow> nlog \<Rightarrow> unit ep" where
  "applyLog E l = (case n_kind l of
       LS_LMSR \<Rightarrow> applyEngine E l (n_event l)
     | OPTIMISTIC_RESOLVER \<Rightarrow> applyResolver l (n_event l)
     | TRADING_BLOCKLIST \<Rightarrow> applyBlocklist l (n_event l))"

text \<open>The newest timestamp of the batch's logs about the market, the clock when there is none.\<close>

definition latestTs :: "int \<Rightarrow> nlog list \<Rightarrow> string \<Rightarrow> int \<Rightarrow> int" where
  "latestTs now logs address marketId =
     (case foldl (\<lambda>ts l.
              if lower (n_address l) = lower address \<and> event_marketId (n_event l) = Some marketId
              then (case ts of None \<Rightarrow> Some (n_time l)
                    | Some t \<Rightarrow> if t < n_time l then Some (n_time l) else Some t)
              else ts) None logs of
        None \<Rightarrow> now | Some t \<Rightarrow> t)"

definition recordPoint :: "string \<Rightarrow> int \<Rightarrow> int \<Rightarrow> int \<Rightarrow> int \<Rightarrow> unit ep" where
  "recordPoint ref i priceWad volume timestamp =
     (let time = timestamp div 1000 * 1000
      in modp (\<lambda>s. s\<lparr>pricePoints := tupsert point_key (ref, i, time)
           \<lparr>pp_ref = ref, pp_outcome = i, pp_time = time, pp_price = priceWad, pp_volume = volume\<rparr>
           (\<lambda>p. p\<lparr>pp_price := priceWad, pp_volume := pp_volume p + volume\<rparr>) (pricePoints s)\<rparr>))"

definition applyPrices :: "string \<Rightarrow> int list \<Rightarrow> int \<Rightarrow> unit ep" where
  "applyPrices ref prices ts =
     seqp (allp (map (\<lambda>(i, p). updateOutcome ref (int i) (\<lambda>r. r\<lparr>o_price := p\<rparr>)) (enumerate 0 prices)))
    (seqp (allp (map (\<lambda>(i, p). recordPoint ref (int i) p 0 ts) (enumerate 0 prices)))
    (seqp (cache_del (detailKey ref))
          (publishMarket ref EvPrice (DPrice (map dec prices)))))"

definition refreshPrices :: "env \<Rightarrow> nlog list \<Rightarrow> string \<Rightarrow> unit ep" where
  "refreshPrices E logs ref =
     bindp (gets (\<lambda>s. tfind m_id ref (markets s))) (\<lambda>found.
       case found of None \<Rightarrow> ret ()
       | Some market \<Rightarrow>
           if \<not> e_chainReady E then ret ()
           else (case e_prices E (m_address market) (m_marketId market) of
                   None \<Rightarrow> ret ()
                 | Some prices \<Rightarrow>
                     bindp (gets (\<lambda>s. latestTs (clock s) logs (m_address market) (m_marketId market))) (\<lambda>ts.
                       applyPrices ref prices ts)))"

definition processBatch :: "env \<Rightarrow> nlog list \<Rightarrow> unit ep" where
  "processBatch E logs =
     seqp (modp (\<lambda>s. s\<lparr>touched := []\<rparr>))
    (seqp (forp (applyLog E) logs)
    (bindp (gets touched) (\<lambda>refs. forp (refreshPrices E logs) refs)))"

lemmas processor_defs [handler_defs] = recordPoint_def applyPrices_def refreshPrices_def
  processBatch_def

end
