(* ===== verification/Frames.thy ===== *)
theory Frames
  imports EventProcessor
begin

text \<open>
  Which tables a log can touch: engine logs leave the resolution rows and the ban list alone, the
  resolver's logs write nothing but resolution rows, the blocklist's nothing but bans.
\<close>

definition engine_frame :: "ep_state \<Rightarrow> ep_state \<Rightarrow> bool" where
  "engine_frame s t \<longleftrightarrow> proposals t = proposals s \<and> bans t = bans s \<and> poolLeaves t = poolLeaves s \<and>
     cursors t = cursors s"

text \<open>Neither the market's own rows nor anything derived from its trades.\<close>

definition market_frame :: "ep_state \<Rightarrow> ep_state \<Rightarrow> bool" where
  "market_frame s t \<longleftrightarrow> markets t = markets s \<and> outcomes t = outcomes s \<and> trades t = trades s \<and>
     positions t = positions s \<and> pricePoints t = pricePoints s \<and> drafts t = drafts s \<and>
     categories t = categories s \<and> minted t = minted s \<and> refCache t = refCache s \<and>
     poolLeaves t = poolLeaves s \<and> cursors t = cursors s \<and> touched t = touched s"

definition resolver_frame :: "ep_state \<Rightarrow> ep_state \<Rightarrow> bool" where
  "resolver_frame s t \<longleftrightarrow> market_frame s t \<and> bans t = bans s"

definition blocklist_frame :: "ep_state \<Rightarrow> ep_state \<Rightarrow> bool" where
  "blocklist_frame s t \<longleftrightarrow> market_frame s t \<and> proposals t = proposals s \<and> published t = published s \<and>
     cache t = cache s"

lemmas frame_defs = engine_frame_def market_frame_def resolver_frame_def blocklist_frame_def

interpretation engine_steps: step_order engine_frame
  by unfold_locales (auto simp: engine_frame_def)

interpretation resolver_steps: step_order resolver_frame
  by unfold_locales (auto simp: resolver_frame_def market_frame_def)

interpretation blocklist_steps: step_order blocklist_frame
  by unfold_locales (auto simp: blocklist_frame_def market_frame_def)

section \<open>Engine logs\<close>

lemma engine_marketRef: "steps engine_frame (marketRef a i)"
  by (rule stepsI) (auto simp: engine_frame_def dest!: marketRef_state)

lemma engine_primitives:
  "steps engine_frame (cache_del k)" "steps engine_frame (invalidate ref)"
  "steps engine_frame (publish ch ev d x)" "steps engine_frame (publishMarket ref ev d)"
  "steps engine_frame (updateMarket ref f)" "steps engine_frame (updateOutcome ref i g)"
  "steps engine_frame (upsertCategory c)" "steps engine_frame (touch ref)"
  "steps engine_frame (insertTrade l ref acc sd i sh am sp pr)"
  "steps engine_frame (sellPosition pk os oc sh am)" "steps engine_frame (buyPosition pk sh am)"
  "steps engine_frame (recordPoint ref i p v ts)"
  by (simp_all add: steps_def engine_frame_def helper_defs ledger_defs recordPoint_def Let_def split: option.splits)

lemma engine_publishTrade: "steps engine_frame (publishTrade ref l sd i a)"
  unfolding publishTrade_def by (rule engine_primitives)

lemma engine_updatePosition: "steps engine_frame (updatePosition ref acc i sd sh am)"
  unfolding updatePosition_def Let_def
  by (intro engine_steps.steps_intros) (auto intro!: engine_primitives engine_steps.steps_throw split: option.splits)

lemmas engine_parts = engine_marketRef engine_primitives engine_publishTrade engine_updatePosition

lemma engine_writeCopy: "steps engine_frame (writeCopy ref md)"
  using engine_primitives(5) by (auto simp: steps_def writeCopy_def engine_frame_def)

lemma engine_writeLabels: "steps engine_frame (writeLabels ref labels)"
  unfolding writeLabels_def by (rule engine_steps.steps_allp) (auto intro: engine_primitives)

lemma engine_upsertMarket: "steps engine_frame (upsertMarket E l a price c d)"
  by (auto simp: steps_def upsertMarket_def engine_frame_def Let_def split: option.splits)

lemma engine_adoptDraft: "steps engine_frame (adoptDraft h ref d)"
  unfolding adoptDraft_def by (intro engine_steps.steps_intros) (simp add: engine_frame_def)

lemma engine_refCache: "steps engine_frame (modp (\<lambda>s. s\<lparr>refCache := f s\<rparr>))"
  "steps engine_frame (modp (\<lambda>s. s\<lparr>positions := g s\<rparr>))"
  by (simp_all add: steps_def engine_frame_def)

lemma engine_createMarket: "steps engine_frame (createMarket E l a)"
  unfolding createMarket_def Let_def
  by (intro engine_steps.steps_intros engine_parts engine_upsertMarket engine_adoptDraft)
    (simp add: engine_frame_def)

lemma engine_onMetadataPublished: "steps engine_frame (onMetadataPublished E l i h m)"
  unfolding onMetadataPublished_def
  by (intro engine_steps.steps_intros engine_parts engine_writeCopy engine_writeLabels)

lemma engine_onTrade: "steps engine_frame (onTrade l sd a)"
  unfolding onTrade_def Let_def seqs.simps by (intro engine_steps.steps_intros engine_parts)

lemma engine_onShort: "steps engine_frame (onShort l a)"
  unfolding onShort_def shortLeg_def Let_def seqs.simps by (intro engine_steps.steps_intros engine_parts)

lemma engine_payouts:
  "steps engine_frame (onResolved l i w owed surplus)" "steps engine_frame (onInvalidated l i surplus)"
  "steps engine_frame (onRedeem l i acc am)" "steps engine_frame (onSeedRedeemed l i am)"
  unfolding onResolved_def onInvalidated_def onRedeem_def onSeedRedeemed_def Let_def seqs.simps
  by (intro engine_steps.steps_intros engine_parts; simp add: engine_frame_def)+

lemma engine_applyEngine: "steps engine_frame (applyEngine E l ev)"
  by (cases ev; simp only: applyEngine.simps)
    (intro engine_steps.steps_intros engine_createMarket engine_onMetadataPublished engine_onTrade
      engine_onShort engine_payouts)+

lemma engine_refreshPrices: "steps engine_frame (refreshPrices E logs ref)"
  unfolding refreshPrices_def applyPrices_def
  by (intro engine_steps.steps_intros engine_parts) (auto intro: engine_primitives)

section \<open>Resolver and blocklist logs\<close>

lemma resolver_primitives:
  "steps resolver_frame (resolutionKey m i)" "steps resolver_frame (updateProposal k f)"
  "steps resolver_frame (modp (\<lambda>s. s\<lparr>proposals := g s\<rparr>))"
  by (simp_all add: steps_def frame_defs resolutionKey_def updateProposal_def)

lemma resolver_announce: "steps resolver_frame (announceResolution r k)"
  unfolding announceResolution_def
  by (intro resolver_steps.steps_intros) (auto simp: steps_def frame_defs invalidate_def cache_del_def publishMarket_def publish_def)

lemma resolver_handlers:
  "steps resolver_frame (onProposed l a)" "steps resolver_frame (onDisputed l b)"
  "steps resolver_frame (onFinalized l m i v w)" "steps resolver_frame (onArbitrated l c)"
  "steps resolver_frame (onSlashed l m i acc am)" "steps resolver_frame (onResolutionCleared m i)"
  unfolding onProposed_def onDisputed_def onFinalized_def onArbitrated_def onSlashed_def
    onResolutionCleared_def Let_def
  by (rule resolver_steps.steps_bindp [OF resolver_primitives(1)], clarsimp,
      intro resolver_steps.steps_intros resolver_primitives resolver_announce)+

lemma resolver_applyResolver: "steps resolver_frame (applyResolver l ev)"
  by (cases ev; simp only: applyResolver.simps)
    (intro resolver_steps.steps_ret resolver_handlers)+

lemma blocklist_applyBlocklist: "steps blocklist_frame (applyBlocklist l ev)"
  by (cases ev; simp only: applyBlocklist.simps blocklist_steps.steps_ret)
    (auto simp: steps_def frame_defs onBanned_def onUnbanned_def Let_def split: option.splits)

end
