(* ===== verification/Lifecycle.thy ===== *)
theory Lifecycle
  imports Frames
begin

text \<open>
  The resolution rows and the ban list against what they stand for: the dispute a market is in, and
  the set of accounts barred from trading. Batches of logs are run through the processor's dispatch.
\<close>

section \<open>The dispute of a market\<close>

datatype dispute =
    Unproposed
  | Asserted "string option" "int option"
  | Contested "string option" "int option" "string option" "int option"
  | Closed "resolution_route option" "int option"

definition dispute_of :: "proposal option \<Rightarrow> dispute" where
  "dispute_of r = (case r of None \<Rightarrow> Unproposed
     | Some p \<Rightarrow> (case r_phase p of
         NONE \<Rightarrow> Unproposed
       | PROPOSED \<Rightarrow> Asserted (r_proposer p) (r_proposed p)
       | DISPUTED \<Rightarrow> Contested (r_proposer p) (r_proposed p) (r_disputer p) (r_counter p)
       | SETTLED \<Rightarrow> Closed (r_route p) (r_settled p)))"

text \<open>What an event of the resolver is about, and what it means for the dispute.\<close>

fun resolver_target :: "event \<Rightarrow> (string \<times> int) option" where
  "resolver_target (Proposed a) = Some (lower (q_market a), q_marketId a)"
| "resolver_target (Disputed a) = Some (lower (u_market a), u_marketId a)"
| "resolver_target (Finalized m i _ _ _) = Some (lower m, i)"
| "resolver_target (Arbitrated a) = Some (lower (v_market a), v_marketId a)"
| "resolver_target (Slashed m i _ _ _) = Some (lower m, i)"
| "resolver_target (ProposalAbandoned m i _) = Some (lower m, i)"
| "resolver_target (DisputeReset m i) = Some (lower m, i)"
| "resolver_target _ = None"

fun dispute_step :: "event \<Rightarrow> dispute \<Rightarrow> dispute" where
  "dispute_step (Proposed a) d = Asserted (Some (lower (q_proposer a))) (outcomeOrVoid (q_outcome a))"
| "dispute_step (Disputed a) (Asserted p v) =
     Contested p v (Some (lower (u_disputer a))) (outcomeOrVoid (u_counterOutcome a))"
| "dispute_step (Finalized _ _ v _ _) (Asserted _ _) = Closed (Some FINALIZED) (outcomeOrVoid v)"
| "dispute_step (Arbitrated a) (Contested _ _ _ _) = Closed (Some ARBITRATED) (outcomeOrVoid (v_outcome a))"
| "dispute_step (ProposalAbandoned _ _ _) (Asserted _ _) = Unproposed"
| "dispute_step (DisputeReset _ _) (Contested _ _ _ _) = Unproposed"
| "dispute_step _ d = d"

text \<open>The order the resolver emits its events in: a dispute needs a proposal, arbitration needs a
  dispute, and so on. A forfeit may be reported before or after the ruling it belongs to.\<close>

fun in_order :: "event \<Rightarrow> dispute \<Rightarrow> bool" where
  "in_order (Disputed _) d \<longleftrightarrow> (case d of Asserted _ _ \<Rightarrow> True | _ \<Rightarrow> False)"
| "in_order (Finalized _ _ _ _ _) d \<longleftrightarrow> (case d of Asserted _ _ \<Rightarrow> True | _ \<Rightarrow> False)"
| "in_order (Arbitrated _) d \<longleftrightarrow> (case d of Contested _ _ _ _ \<Rightarrow> True | _ \<Rightarrow> False)"
| "in_order (ProposalAbandoned _ _ _) d \<longleftrightarrow> (case d of Asserted _ _ \<Rightarrow> True | _ \<Rightarrow> False)"
| "in_order (DisputeReset _ _) d \<longleftrightarrow> (case d of Contested _ _ _ _ \<Rightarrow> True | _ \<Rightarrow> False)"
| "in_order _ d \<longleftrightarrow> True"

definition dispute_log :: "string \<times> int \<Rightarrow> nlog \<Rightarrow> dispute \<Rightarrow> dispute" where
  "dispute_log k l d = (if n_kind l = OPTIMISTIC_RESOLVER \<and> resolver_target (n_event l) = Some k
     then dispute_step (n_event l) d else d)"

fun ordered_logs :: "string \<times> int \<Rightarrow> dispute \<Rightarrow> nlog list \<Rightarrow> bool" where
  "ordered_logs k d [] \<longleftrightarrow> True"
| "ordered_logs k d (l # ls) \<longleftrightarrow>
     (n_kind l = OPTIMISTIC_RESOLVER \<and> resolver_target (n_event l) = Some k \<longrightarrow> in_order (n_event l) d) \<and>
     ordered_logs k (dispute_log k l d) ls"

section \<open>One log\<close>

text \<open>The row a resolver event writes, as a function of the row it finds.\<close>

fun row_step :: "nlog \<Rightarrow> string option \<Rightarrow> event \<Rightarrow> proposal option \<Rightarrow> proposal option" where
  "row_step l ref (Proposed a) r = map_option (proposed_row l a ref) (unix_date (q_disputeDeadline a))"
| "row_step l ref (Disputed a) r = map_option (disputed_row a (the (unix_date (u_arbitrationDeadline a)))) r"
| "row_step l ref (Finalized m i v p w) r = map_option (finalized_row l v w) r"
| "row_step l ref (Arbitrated a) r = map_option (arbitrated_row a) r"
| "row_step l ref (Slashed m i c n b) r = map_option (slashed_row l c n) r"
| "row_step l ref (ProposalAbandoned m i p) r = map_option cleared_row r"
| "row_step l ref (DisputeReset m i) r = map_option cleared_row r"
| "row_step l ref _ r = r"

text \<open>The deadlines of the event fit a \<open>Date\<close>.\<close>

fun dated :: "event \<Rightarrow> bool" where
  "dated (Proposed a) \<longleftrightarrow> unix_date (q_disputeDeadline a) \<noteq> None"
| "dated (Disputed a) \<longleftrightarrow> unix_date (u_arbitrationDeadline a) \<noteq> None"
| "dated _ \<longleftrightarrow> True"

lemma onProposed_run:
  assumes "unix_date (q_disputeDeadline a) = Some d" "k = (lower (q_market a), q_marketId a)"
  shows "\<exists>t. onProposed l a s = (Inr (), t) \<and> row_at t k = Some (proposed_row l a (ref_at s k) d) \<and>
    (\<forall>k'. k' \<noteq> k \<longrightarrow> row_at t k' = row_at s k')"
proof -
  let ?row = "proposed_row l a (ref_at s k) d"
  let ?s = "s\<lparr>proposals := tupsert proposal_key k ?row (\<lambda>_. ?row) (proposals s)\<rparr>"
  obtain t where t: "announceResolution (ref_at s k) k ?s = (Inr (), t)" "proposals t = proposals ?s"
    using announce_reads [of "ref_at s k" k ?s] by auto
  have "row_at t k' = (if k' = k then Some ?row else row_at s k')" for k'
    using assms(2) t(2) proposal_rows.lookup_upsert [of ?row k "\<lambda>_. ?row" k' "proposals s"]
    by (simp add: row_at_def split: option.splits)
  moreover have "onProposed l a s = (Inr (), t)"
    using t(1) assms by (simp add: onProposed_def resolutionKey_def Let_def ref_at_def)
  ultimately show ?thesis by (intro exI [of _ t]) simp
qed

lemma applyResolver_run:
  assumes "resolver_target ev = Some k" "dated ev"
  shows "\<exists>t. applyResolver l ev s = (Inr (), t) \<and> row_at t k = row_step l (ref_at s k) ev (row_at s k) \<and>
    (\<forall>k'. k' \<noteq> k \<longrightarrow> row_at t k' = row_at s k')"
proof (cases ev)
  case (Proposed a)
  then show ?thesis using assms onProposed_run by auto
next
  case (Disputed a)
  then obtain d where d: "unix_date (u_arbitrationDeadline a) = Some d" using assms by auto
  show ?thesis
    using updateProposal_announce_run [of "disputed_row a d" k "ref_at s k" s] assms Disputed d
    by (auto simp: onDisputed_def resolutionKey_def ref_at_def)
next
  case (Finalized m i v p w)
  then show ?thesis
    using updateProposal_announce_run [of "finalized_row l v w" k "ref_at s k" s] assms
    by (auto simp: onFinalized_def resolutionKey_def ref_at_def)
next
  case (Arbitrated a)
  then show ?thesis
    using updateProposal_announce_run [of "arbitrated_row a" k "ref_at s k" s] assms
    by (auto simp: onArbitrated_def resolutionKey_def ref_at_def)
next
  case (Slashed m i c n b)
  then show ?thesis
    using row_at_update [where f = "slashed_row l c n" and s = s and k = k and ps = "proposals s"] assms
    by (auto simp: onSlashed_def resolutionKey_def updateProposal_def row_at_def)
next
  case (ProposalAbandoned m i p)
  then show ?thesis
    using updateProposal_announce_run [of cleared_row k "ref_at s k" s] assms
    by (auto simp: onResolutionCleared_def resolutionKey_def ref_at_def)
next
  case (DisputeReset m i)
  then show ?thesis
    using updateProposal_announce_run [of cleared_row k "ref_at s k" s] assms
    by (auto simp: onResolutionCleared_def resolutionKey_def ref_at_def)
qed (use assms in auto)

lemma applyResolver_undated:
  assumes "\<not> dated ev"
  shows "\<exists>e t. applyResolver l ev s = (Inl e, t)"
  using assms
  by (cases ev) (auto simp: onProposed_def onDisputed_def resolutionKey_def split: option.splits)

lemma applyResolver_other:
  assumes "resolver_target ev \<noteq> Some k" "applyResolver l ev s = (Inr (), t)"
  shows "row_at t k = row_at s k"
proof (cases "resolver_target ev")
  case None
  then have "t = s" using assms by (cases ev) auto
  then show ?thesis by simp
next
  case (Some k')
  have "dated ev" using assms(2) applyResolver_undated [of ev l s] by fastforce
  with Some assms show ?thesis
    using applyResolver_run [of ev k' l s] by (auto simp del: split_paired_All)
qed

lemma row_step_dispute:
  assumes "in_order ev (dispute_of r)" "resolver_target ev = Some k" "dated ev"
  shows "dispute_of (row_step l ref ev r) = dispute_step ev (dispute_of r)"
  using assms
  by (cases ev; cases r)
    (auto simp: dispute_of_def proposed_row_def disputed_row_def finalized_row_def arbitrated_row_def
      slashed_row_def cleared_row_def split: resolution_phase.splits)

lemma applyLog_rows:
  assumes "applyLog E l s = (Inr (), t)" "n_kind l \<noteq> OPTIMISTIC_RESOLVER"
  shows "proposals t = proposals s"
proof (cases "n_kind l")
  case LS_LMSR
  then show ?thesis
    using stepsD [OF engine_applyEngine] assms(1) by (simp add: applyLog_def engine_frame_def)
next
  case TRADING_BLOCKLIST
  then show ?thesis
    using stepsD [OF blocklist_applyBlocklist] assms(1) by (simp add: applyLog_def blocklist_frame_def)
qed (use assms in simp)

lemma applyLog_dispute:
  assumes run: "applyLog E l s = (Inr (), t)"
    and order: "n_kind l = OPTIMISTIC_RESOLVER \<and> resolver_target (n_event l) = Some k \<longrightarrow>
      in_order (n_event l) (dispute_of (row_at s k))"
  shows "dispute_of (row_at t k) = dispute_log k l (dispute_of (row_at s k))"
proof (cases "n_kind l = OPTIMISTIC_RESOLVER")
  case False
  then show ?thesis using applyLog_rows [OF run] by (simp add: dispute_log_def row_at_def)
next
  case True
  then have app: "applyResolver l (n_event l) s = (Inr (), t)" using run by (simp add: applyLog_def)
  show ?thesis
  proof (cases "resolver_target (n_event l) = Some k")
    case False
    then show ?thesis using applyResolver_other [OF _ app] by (simp add: dispute_log_def)
  next
    case target: True
    have "dated (n_event l)" using app applyResolver_undated [of "n_event l" l s] by fastforce
    then show ?thesis
      using applyResolver_run [OF target, of l s] app row_step_dispute order target True
      by (auto simp: dispute_log_def)
  qed
qed

lemma logs_dispute:
  assumes "forp (applyLog E) logs s = (Inr (), t)" "ordered_logs k (dispute_of (row_at s k)) logs"
  shows "dispute_of (row_at t k) = foldl (\<lambda>d l. dispute_log k l d) (dispute_of (row_at s k)) logs"
  using assms
proof (induction logs arbitrary: s)
  case (Cons l logs)
  from Cons.prems(1) obtain u where u: "applyLog E l s = (Inr (), u)" "forp (applyLog E) logs u = (Inr (), t)"
    by (auto simp: seqp_Inr)
  have "dispute_of (row_at u k) = dispute_log k l (dispute_of (row_at s k))"
    using applyLog_dispute [OF u(1)] Cons.prems(2) by simp
  with Cons.IH [OF u(2)] Cons.prems(2) show ?case by simp
qed simp

lemma processBatch_Inr:
  assumes "processBatch E logs s = (Inr (), t)"
  shows "\<exists>u. forp (applyLog E) logs (s\<lparr>touched := []\<rparr>) = (Inr (), u) \<and> engine_frame u t"
proof -
  from assms obtain u where u: "forp (applyLog E) logs (s\<lparr>touched := []\<rparr>) = (Inr (), u)"
    "forp (refreshPrices E logs) (touched u) u = (Inr (), t)"
    by (auto simp: processBatch_def seqp_Inr)
  have "steps engine_frame (forp (refreshPrices E logs) (touched u))"
    by (intro engine_steps.steps_forp engine_refreshPrices)
  from stepsD [OF this u(2)] u(1) show ?thesis by blast
qed

section \<open>The ban list\<close>

definition barred :: "'a db_scheme \<Rightarrow> string \<Rightarrow> bool" where
  "barred s account = (case tfind b_account account (bans s) of None \<Rightarrow> False | Some b \<Rightarrow> b_liftedAt b = None)"

lemma barred_cong: "bans t = bans s \<Longrightarrow> barred t = barred s"
  by (simp add: barred_def fun_eq_iff)

definition bar_log :: "nlog \<Rightarrow> string set \<Rightarrow> string set" where
  "bar_log l B = (if n_kind l \<noteq> TRADING_BLOCKLIST then B
     else (case n_event l of
         Banned account _ _ _ \<Rightarrow> insert (lower account) B
       | Unbanned account _ \<Rightarrow> B - {lower account}
       | _ \<Rightarrow> B))"

lemma banned_effect:
  assumes "onBanned l account context i at' s = (Inr (), t)"
  shows "Collect (barred t) = insert (lower account) (Collect (barred s)) \<and>
    b_account ` set (bans s) \<subseteq> b_account ` set (bans t)"
proof -
  obtain d where d: "unix_date at' = Some d" using assms by (auto simp: onBanned_def split: option.splits)
  let ?row = "banned_row l account context i d"
  have key: "b_account ?row = lower account" by (simp add: banned_row_def)
  have t: "bans t = tupsert b_account (lower account) ?row (\<lambda>_. ?row) (bans s)"
    using assms d by (auto simp: onBanned_def Let_def)
  have "tfind b_account x (bans t) = (if x = lower account then Some ?row else tfind b_account x (bans s))" for x
    using t ban_rows.lookup_upsert [OF key, of "\<lambda>_. ?row" x "bans s"] key by (simp split: option.splits)
  then have "barred t x \<longleftrightarrow> x = lower account \<or> barred s x" for x
    by (simp add: barred_def banned_row_def)
  moreover have "b_account ` set (bans s) \<subseteq> b_account ` set (bans t)"
    using keys_tupsert [where key = b_account and c = ?row and k = "lower account" and f = "\<lambda>_. ?row"
        and t = "bans s"] key t by (simp flip: set_map split: if_splits) auto
  ultimately show ?thesis by auto
qed

lemma unbanned_effect:
  assumes "onUnbanned l account s = (Inr (), t)"
  shows "Collect (barred t) = Collect (barred s) - {lower account} \<and>
    b_account ` set (bans s) \<subseteq> b_account ` set (bans t)"
proof -
  let ?f = "\<lambda>b. b\<lparr>b_liftedAt := Some (n_time l), b_tx := Some (n_tx l)\<rparr>"
  have t: "bans t = tupdate b_account (lower account) ?f (bans s)"
    using assms by (auto simp: onUnbanned_def)
  then have "tfind b_account x (bans t) =
      (if x = lower account then map_option ?f (tfind b_account x (bans s)) else tfind b_account x (bans s))" for x
    using ban_rows.lookup_update [of "lower account" ?f x "bans s"] by simp
  then have "barred t x \<longleftrightarrow> x \<noteq> lower account \<and> barred s x" for x
    by (auto simp: barred_def split: option.splits)
  moreover have "map b_account (bans t) = map b_account (bans s)"
    using t by (simp add: tupdate_def)
  then have "b_account ` set (bans t) = b_account ` set (bans s)" by (metis set_map)
  ultimately show ?thesis by auto
qed

lemma applyLog_bars:
  assumes "applyLog E l s = (Inr (), t)"
  shows "Collect (barred t) = bar_log l (Collect (barred s)) \<and> b_account ` set (bans s) \<subseteq> b_account ` set (bans t)"
proof (cases "n_kind l")
  case LS_LMSR
  then have "bans t = bans s"
    using stepsD [OF engine_applyEngine] assms by (simp add: applyLog_def engine_frame_def)
  with LS_LMSR show ?thesis using barred_cong [of t s] by (simp add: bar_log_def)
next
  case OPTIMISTIC_RESOLVER
  then have "bans t = bans s"
    using stepsD [OF resolver_applyResolver] assms by (simp add: applyLog_def resolver_frame_def)
  with OPTIMISTIC_RESOLVER show ?thesis using barred_cong [of t s] by (simp add: bar_log_def)
next
  case TRADING_BLOCKLIST
  then have run: "applyBlocklist l (n_event l) s = (Inr (), t)" using assms by (simp add: applyLog_def)
  show ?thesis
    using run TRADING_BLOCKLIST banned_effect unbanned_effect
    by (cases "n_event l") (simp_all add: bar_log_def)
qed

lemma logs_bars:
  assumes "forp (applyLog E) logs s = (Inr (), t)"
  shows "Collect (barred t) = foldl (\<lambda>B l. bar_log l B) (Collect (barred s)) logs \<and>
    b_account ` set (bans s) \<subseteq> b_account ` set (bans t)"
  using assms
proof (induction logs arbitrary: s)
  case (Cons l logs)
  from Cons.prems(1) obtain u where u: "applyLog E l s = (Inr (), u)" "forp (applyLog E) logs u = (Inr (), t)"
    by (auto simp: seqp_Inr)
  have "b_account ` set (bans s) \<subseteq> b_account ` set (bans t)"
    using applyLog_bars [OF u(1)] Cons.IH [OF u(2)] by (meson subset_trans)
  then show ?case using applyLog_bars [OF u(1)] Cons.IH [OF u(2)] by simp
qed simp

section \<open>Batches\<close>

lemma resolver_logs_run:
  assumes "\<forall>l \<in> set logs. n_kind l = OPTIMISTIC_RESOLVER \<and> resolver_target (n_event l) \<noteq> None \<and> dated (n_event l)"
  shows "\<exists>t. forp (applyLog E) logs s = (Inr (), t) \<and> resolver_frame s t"
  using assms
proof (induction logs arbitrary: s)
  case Nil
  then show ?case by (simp add: resolver_steps.R_refl)
next
  case (Cons l logs)
  then obtain k where "resolver_target (n_event l) = Some k" "dated (n_event l)" by auto
  then obtain u where u: "applyResolver l (n_event l) s = (Inr (), u)"
    using applyResolver_run [of "n_event l" k l s] by auto
  have "resolver_frame s u" using u stepsD [OF resolver_applyResolver] by blast
  moreover obtain t where "forp (applyLog E) logs u = (Inr (), t)" "resolver_frame u t"
    using Cons.IH [of u] Cons.prems by auto
  moreover have "applyLog E l s = (Inr (), u)" using u Cons.prems by (simp add: applyLog_def)
  ultimately show ?case using resolver_steps.R_trans by (intro exI [of _ t]) auto
qed

lemma resolver_batch_resolves:
  assumes "\<forall>l \<in> set logs. n_kind l = OPTIMISTIC_RESOLVER \<and> resolver_target (n_event l) \<noteq> None \<and> dated (n_event l)"
  shows "\<exists>t. processBatch E logs s = (Inr (), t)"
proof -
  obtain t where "forp (applyLog E) logs (s\<lparr>touched := []\<rparr>) = (Inr (), t)"
    "resolver_frame (s\<lparr>touched := []\<rparr>) t"
    using resolver_logs_run [OF assms] by blast
  then show ?thesis by (simp add: processBatch_def resolver_frame_def market_frame_def)
qed

definition sample_env :: env where
  "sample_env = \<lparr>e_keccak = id, e_hexToString = Some, e_uuid = (\<lambda>n. ''u'' @ dec_nat n), e_prices = (\<lambda>_ _. None),
     e_chainReady = True\<rparr>"

definition sample_proposed :: nlog where
  "sample_proposed = (sample_log (Proposed \<lparr>q_market = ''0xAA'', q_marketId = 7, q_proposer = ''0xA1'',
     q_outcome = 2, q_bond = 5, q_fee = 1, q_bonded = True, q_disputeDeadline = 100\<rparr>))\<lparr>n_kind := OPTIMISTIC_RESOLVER\<rparr>"

definition sample_disputed :: nlog where
  "sample_disputed = (sample_log (Disputed \<lparr>u_market = ''0xAA'', u_marketId = 7, u_disputer = ''0xa1'',
     u_counterOutcome = INVALID_OUTCOME, u_bond = 5, u_fee = 1, u_arbitrationDeadline = 200\<rparr>))\<lparr>n_kind := OPTIMISTIC_RESOLVER\<rparr>"

text \<open>C4. The resolution row of a market is its dispute: after any batch whose resolver logs about
  that market come in the resolver's order, the phase, the asserted and countered outcomes, their
  authors and the settled outcome are those of the abstract dispute, whatever other logs the batch
  mixes in.\<close>

theorem rows_follow_disputes:
  assumes "processBatch E logs s = (Inr (), t)"
    and "ordered_logs k (dispute_of (row_at s k)) logs"
  shows "dispute_of (row_at t k) = foldl (\<lambda>d l. dispute_log k l d) (dispute_of (row_at s k)) logs"
proof -
  obtain u where u: "forp (applyLog E) logs (s\<lparr>touched := []\<rparr>) = (Inr (), u)" "engine_frame u t"
    using processBatch_Inr [OF assms(1)] by blast
  have "row_at t = row_at u" using u(2) by (simp add: row_at_def engine_frame_def fun_eq_iff)
  moreover have "row_at (s\<lparr>touched := []\<rparr>) = row_at s" by (simp add: row_at_def fun_eq_iff)
  ultimately show ?thesis using logs_dispute [OF u(1)] assms(2) by simp
qed

lemma rows_follow_disputes_witness:
  "\<exists>t. processBatch sample_env [sample_proposed, sample_disputed] sample_state = (Inr (), t) \<and>
     dispute_of (row_at t (''0xaa'', 7)) = Contested (Some ''0xa1'') (Some 2) (Some ''0xa1'') None"
proof -
  let ?logs = "[sample_proposed, sample_disputed]"
  let ?k = "(''0xaa'', 7)"
  have start: "dispute_of (row_at sample_state ?k) = Unproposed"
    by (simp add: row_at_def dispute_of_def sample_defs)
  obtain t where t: "processBatch sample_env ?logs sample_state = (Inr (), t)"
    using resolver_batch_resolves [of ?logs]
    by (auto simp: sample_proposed_def sample_disputed_def sample_log_def unix_date_exact)
  have "dispute_of (row_at t ?k) = foldl (\<lambda>d l. dispute_log ?k l d) (dispute_of (row_at sample_state ?k)) ?logs"
    by (rule rows_follow_disputes [OF t], unfold start)
      (simp add: sample_proposed_def sample_disputed_def sample_log_def dispute_log_def)
  also have "\<dots> = Contested (Some ''0xa1'') (Some 2) (Some ''0xa1'') None"
    unfolding start
    by (simp add: sample_proposed_def sample_disputed_def sample_log_def dispute_log_def outcomeOrVoid_def
        INVALID_OUTCOME_def)
  finally show ?thesis using t by blast
qed

text \<open>A new proposal forgets every earlier attempt: the row it leaves depends on the event and on
  the indexed market only, not on the row that was there.\<close>

theorem proposal_forgets_history:
  assumes "onProposed l a s = (Inr (), t)" "onProposed l a s' = (Inr (), t')"
    and "k = (lower (q_market a), q_marketId a)" "ref_at s k = ref_at s' k"
  shows "row_at t k = row_at t' k \<and>
    (\<exists>p. row_at t k = Some p \<and> r_ref p = ref_at s k \<and> r_phase p = PROPOSED \<and> r_disputer p = None \<and>
       r_counter p = None \<and> r_route p = None \<and> r_settled p = None \<and> r_loser p = None \<and>
       r_settledAt p = None \<and> r_reward p = 0 \<and> r_forfeited p = 0)"
proof -
  obtain d where d: "unix_date (q_disputeDeadline a) = Some d"
    using assms(1) by (auto simp: onProposed_def resolutionKey_def split: option.splits)
  show ?thesis
    using onProposed_run [OF d assms(3), of l s] onProposed_run [OF d assms(3), of l s'] assms(1,2,4)
    by (auto simp: proposed_row_def)
qed

definition sample_proposal :: proposed_args where
  "sample_proposal = \<lparr>q_market = ''0xAA'', q_marketId = 7, q_proposer = ''0xA1'',
     q_outcome = 2, q_bond = 5, q_fee = 1, q_bonded = True, q_disputeDeadline = 100\<rparr>"

lemma proposal_forgets_history_witness:
  "\<exists>t t'. onProposed sample_proposed sample_proposal sample_state = (Inr (), t) \<and>
     onProposed sample_proposed sample_proposal t = (Inr (), t') \<and> row_at t (''0xaa'', 7) = row_at t' (''0xaa'', 7)"
proof -
  have d: "unix_date (q_disputeDeadline sample_proposal) = Some 100000"
    by (simp add: sample_proposal_def unix_date_exact)
  have k: "(''0xaa'', 7) = (lower (q_market sample_proposal), q_marketId sample_proposal)"
    by (simp add: sample_proposal_def)
  obtain t where t: "onProposed sample_proposed sample_proposal sample_state = (Inr (), t)"
    using onProposed_run [OF d k] by blast
  obtain t' where t': "onProposed sample_proposed sample_proposal t = (Inr (), t')"
    using onProposed_run [OF d k] by blast
  have "resolver_frame sample_state t" using t stepsD [OF resolver_handlers(1)] by blast
  then have "ref_at sample_state (''0xaa'', 7) = ref_at t (''0xaa'', 7)"
    by (simp add: ref_at_def resolver_frame_def market_frame_def)
  then show ?thesis using proposal_forgets_history [OF t t' k] t t' by blast
qed

text \<open>An arbitration that punishes nobody emits no \<open>Slashed\<close>, and \<open>onArbitrated\<close> alone does not
  record when it happened: the row says SETTLED with no settlement time, so a voided market is not the
  \<open>settledOutcome\<close> null with \<open>settledAt\<close> set that \<open>src/prisma/schema.prisma\<close> documents.\<close>

theorem void_ruling_has_no_time:
  assumes "row_at s (lower (v_market a), v_marketId a) = Some p" "r_settledAt p = None"
    and "v_outcome a = INVALID_OUTCOME"
  shows "\<exists>t p'. onArbitrated l a s = (Inr (), t) \<and> row_at t (lower (v_market a), v_marketId a) = Some p' \<and>
    r_phase p' = SETTLED \<and> r_settled p' = None \<and> r_settledAt p' = None"
  using applyResolver_run [of "Arbitrated a" "(lower (v_market a), v_marketId a)" l s] assms
  by (auto simp: arbitrated_row_def outcomeOrVoid_def)

lemma void_ruling_has_no_time_witness:
  "\<exists>s t p'. onArbitrated sample_disputed \<lparr>v_market = ''0xAA'', v_marketId = 7, v_outcome = INVALID_OUTCOME,
       v_winner = ''0xa1'', v_loser = ZERO_ADDRESS, v_forfeited = 0, v_reward = 0\<rparr> s = (Inr (), t) \<and>
     row_at t (''0xaa'', 7) = Some p' \<and> r_phase p' = SETTLED \<and> r_settled p' = None \<and> r_settledAt p' = None"
proof -
  let ?a = "\<lparr>v_market = ''0xAA'', v_marketId = 7, v_outcome = INVALID_OUTCOME,
       v_winner = ''0xa1'', v_loser = ZERO_ADDRESS, v_forfeited = 0, v_reward = 0\<rparr>"
  let ?p = "proposed_row sample_proposed sample_proposal None 100000"
  have "row_at (sample_state\<lparr>proposals := [?p]\<rparr>) (lower (v_market ?a), v_marketId ?a) = Some ?p"
    by (simp add: row_at_def sample_proposal_def)
  moreover have "r_settledAt ?p = None" by (simp add: proposed_row_def)
  ultimately show ?thesis
    using void_ruling_has_no_time [of "sample_state\<lparr>proposals := [?p]\<rparr>" ?a ?p sample_disputed] by fastforce
qed

text \<open>The ban list is a set: an account is barred after a batch exactly when the last ban event
  about it, in the batch or before, is a \<open>Banned\<close>; and no account that was ever listed leaves the table.\<close>

theorem bans_follow_events:
  assumes "processBatch E logs s = (Inr (), t)"
  shows "Collect (barred t) = foldl (\<lambda>B l. bar_log l B) (Collect (barred s)) logs \<and>
    b_account ` set (bans s) \<subseteq> b_account ` set (bans t)"
proof -
  obtain u where u: "forp (applyLog E) logs (s\<lparr>touched := []\<rparr>) = (Inr (), u)" "engine_frame u t"
    using processBatch_Inr [OF assms(1)] by blast
  have "bans t = bans u" using u(2) by (simp add: engine_frame_def)
  moreover have "barred (s\<lparr>touched := []\<rparr>) = barred s" by (rule barred_cong) simp
  ultimately show ?thesis using logs_bars [OF u(1)] barred_cong [of t u] by simp
qed

lemma bans_follow_events_witness:
  "\<exists>t. processBatch sample_env [(sample_log (Banned ''0xA1'' ''0xaa'' 7 50))\<lparr>n_kind := TRADING_BLOCKLIST\<rparr>]
     sample_state = (Inr (), t) \<and> Collect (barred t) = {''0xa1''}"
proof -
  let ?l = "(sample_log (Banned ''0xA1'' ''0xaa'' 7 50))\<lparr>n_kind := TRADING_BLOCKLIST\<rparr>"
  obtain t where t: "processBatch sample_env [?l] sample_state = (Inr (), t)"
    by (simp add: processBatch_def applyLog_def onBanned_def sample_log_def unix_date_exact Let_def state_with_def
        sample_state_def)
  have none: "Collect (barred sample_state) = {}" by (simp add: barred_def sample_defs)
  have "Collect (barred t) = {''0xa1''}"
    using bans_follow_events [OF t] unfolding none by (simp add: bar_log_def sample_log_def)
  then show ?thesis using t by blast
qed

end
