(* ===== verification/Indexer.thy ===== *)
theory Indexer
  imports Lifecycle
begin

text \<open>
  The event indexer of \<open>src/src/chain/indexer.service.ts\<close>: the ranges a tick fetches, the
  collection and ordering of logs, the tick with its cursor, and the loop that runs one tick at a
  time. The RPC node is a parameter; what it answers is a hypothesis of the theorems that use it.
\<close>

section \<open>The RPC node and the configuration\<close>

record raw_log =
  w_address :: string
  w_event :: event
  w_block :: int
  w_tx :: string
  w_index :: int

text \<open>\<open>getBlockNumber\<close>, \<open>getLogs\<close> and \<open>getBlockTimestamp\<close> of \<open>src/src/chain/chain.service.ts\<close>;
  \<open>None\<close> is a request that failed after its retries.\<close>

record rpc =
  rpc_head :: "int option"
  rpc_logs :: "string \<Rightarrow> stream_kind \<Rightarrow> int \<Rightarrow> int \<Rightarrow> raw_log list option"
  rpc_time :: "int \<Rightarrow> int option"

record chain_config =
  cf_lsLmsr :: "string option"
  cf_resolver :: "string option"
  cf_blocklist :: "string option"
  cf_startBlock :: int
  cf_confirmations :: int
  cf_batchBlocks :: int

record stream =
  st_address :: string
  st_kind :: stream_kind

definition streams :: "chain_config \<Rightarrow> stream list" where
  "streams C =
     (case truthy (cf_lsLmsr C) of None \<Rightarrow> [] | Some a \<Rightarrow> [\<lparr>st_address = a, st_kind = LS_LMSR\<rparr>]) @
     (case truthy (cf_resolver C) of None \<Rightarrow> [] | Some a \<Rightarrow> [\<lparr>st_address = a, st_kind = OPTIMISTIC_RESOLVER\<rparr>]) @
     (case truthy (cf_blocklist C) of None \<Rightarrow> [] | Some a \<Rightarrow> [\<lparr>st_address = a, st_kind = TRADING_BLOCKLIST\<rparr>])"

text \<open>The events of the ABIs of \<open>src/src/chain/abis.ts\<close>.\<close>

fun in_abi :: "stream_kind \<Rightarrow> event \<Rightarrow> bool" where
  "in_abi LS_LMSR ev = (case ev of MarketCreated _ \<Rightarrow> True | MarketMetadataPublished _ _ _ \<Rightarrow> True
     | Bought _ \<Rightarrow> True | Shorted _ \<Rightarrow> True | Sold _ \<Rightarrow> True | MarketResolved _ _ _ _ \<Rightarrow> True
     | MarketInvalidated _ _ \<Rightarrow> True | Redeemed _ _ _ \<Rightarrow> True | SeedRedeemed _ _ _ \<Rightarrow> True | _ \<Rightarrow> False)"
| "in_abi OPTIMISTIC_RESOLVER ev = (case ev of Proposed _ \<Rightarrow> True | Disputed _ \<Rightarrow> True
     | Finalized _ _ _ _ _ \<Rightarrow> True | Arbitrated _ \<Rightarrow> True | Slashed _ _ _ _ _ \<Rightarrow> True
     | ProposalAbandoned _ _ _ \<Rightarrow> True | DisputeReset _ _ \<Rightarrow> True | _ \<Rightarrow> False)"
| "in_abi TRADING_BLOCKLIST ev = (case ev of Banned _ _ _ _ \<Rightarrow> True | Unbanned _ _ \<Rightarrow> True | _ \<Rightarrow> False)"

section \<open>Ranges\<close>

definition MAX_LOG_REQUESTS_IN_FLIGHT :: nat where
  "MAX_LOG_REQUESTS_IN_FLIGHT = 14"

definition maxRanges :: "nat \<Rightarrow> nat" where
  "maxRanges streamCount = max 1 (MAX_LOG_REQUESTS_IN_FLIGHT div streamCount)"

fun plan_from :: "nat \<Rightarrow> int \<Rightarrow> int \<Rightarrow> int \<Rightarrow> (int \<times> int) list" where
  "plan_from 0 width cursor safeHead = []"
| "plan_from (Suc n) width cursor safeHead =
     (if cursor \<le> safeHead
      then (let last = (if cursor + width - 1 < safeHead then cursor + width - 1 else safeHead)
            in (cursor, last) # plan_from n width (last + 1) safeHead)
      else [])"

definition plan :: "chain_config \<Rightarrow> int \<Rightarrow> int \<Rightarrow> (int \<times> int) list" where
  "plan C start safeHead = plan_from (maxRanges (length (streams C))) (cf_batchBlocks C) start safeHead"

section \<open>Logs\<close>

definition byChainOrder :: "nlog \<Rightarrow> nlog \<Rightarrow> int" where
  "byChainOrder a b = (if n_block a = n_block b then n_logIndex a - n_logIndex b
     else if n_block a < n_block b then -1 else 1)"

definition normalizeLog :: "(int \<Rightarrow> int option) \<Rightarrow> stream \<Rightarrow> raw_log \<Rightarrow> nlog" where
  "normalizeLog tsByBlock s l =
     \<lparr>n_kind = st_kind s, n_address = st_address s, n_event = w_event l, n_block = w_block l,
      n_tx = w_tx l, n_logIndex = w_index l,
      n_time = (case tsByBlock (w_block l) of None \<Rightarrow> 0 | Some t \<Rightarrow> t) * 1000\<rparr>"

fun all_some :: "'a option list \<Rightarrow> 'a list option" where
  "all_some [] = Some []"
| "all_some (None # xs) = None"
| "all_some (Some x # xs) = map_option ((#) x) (all_some xs)"

text \<open>The logs of one range. All requests must succeed, the timestamp of every block with a log
  included.\<close>

definition collectLogs :: "chain_config \<Rightarrow> rpc \<Rightarrow> int \<times> int \<Rightarrow> nlog list option" where
  "collectLogs C R page =
     (case all_some (map (\<lambda>s. map_option (map (\<lambda>l. (s, l))) (rpc_logs R (st_address s) (st_kind s) (fst page) (snd page)))
                      (streams C)) of
        None \<Rightarrow> None
      | Some perStream \<Rightarrow>
          (let flat = concat perStream;
               blocks = js_set (map (\<lambda>p. w_block (snd p)) flat)
           in case all_some (map (rpc_time R) blocks) of
                None \<Rightarrow> None
              | Some ts \<Rightarrow>
                  Some (js_sort byChainOrder
                    (map (\<lambda>(s, l). normalizeLog (map_of (zip blocks ts)) s l) flat))))"

definition collectRanges :: "chain_config \<Rightarrow> rpc \<Rightarrow> (int \<times> int) list \<Rightarrow> nlog list option" where
  "collectRanges C R ranges =
     map_option (\<lambda>pages. js_sort byChainOrder (concat pages)) (all_some (map (collectLogs C R) ranges))"

section \<open>The tick\<close>

datatype tick_error = RpcFailed | BatchFailed ep_error

definition CURSOR_STREAM :: string where
  "CURSOR_STREAM = ''main''"

definition nextFromBlock :: "chain_config \<Rightarrow> ep_state \<Rightarrow> int" where
  "nextFromBlock C s = (case tfind k_stream CURSOR_STREAM (cursors s) of
     None \<Rightarrow> cf_startBlock C | Some c \<Rightarrow> k_last c + 1)"

definition saveCursor :: "int \<Rightarrow> ep_state \<Rightarrow> ep_state" where
  "saveCursor lastBlock s = s\<lparr>cursors := tupsert k_stream CURSOR_STREAM
     \<lparr>k_stream = CURSOR_STREAM, k_last = lastBlock\<rparr> (\<lambda>c. c\<lparr>k_last := lastBlock\<rparr>) (cursors s)\<rparr>"

definition safeHeadOf :: "chain_config \<Rightarrow> int \<Rightarrow> int" where
  "safeHeadOf C head = (if cf_confirmations C < head then head - cf_confirmations C else 0)"

definition processLogs :: "env \<Rightarrow> nlog list \<Rightarrow> (ep_state, tick_error, unit) proc" where
  "processLogs E logs = (\<lambda>s. if logs = [] then (Inr (), s)
     else (case processBatch E logs s of (Inl e, t) \<Rightarrow> (Inl (BatchFailed e), t) | (Inr _, t) \<Rightarrow> (Inr (), t)))"

definition tick :: "chain_config \<Rightarrow> rpc \<Rightarrow> env \<Rightarrow> (ep_state, tick_error, bool) proc" where
  "tick C R E = (\<lambda>s.
     case rpc_head R of None \<Rightarrow> (Inl RpcFailed, s)
     | Some head \<Rightarrow>
         (let safeHead = safeHeadOf C head; start = nextFromBlock C s
          in if safeHead < start then (Inr True, s)
             else (let ranges = plan C start safeHead; to = snd (last ranges)
                   in case collectRanges C R ranges of
                        None \<Rightarrow> (Inl RpcFailed, s)
                      | Some logs \<Rightarrow>
                          bindp (processLogs E logs) (\<lambda>_.
                          seqp (modp (saveCursor to)) (ret (safeHead \<le> to))) s)))"

section \<open>The loop\<close>

record loop_state =
  lp_running :: bool
  lp_stopped :: bool
  lp_timer :: "nat option"
  lp_inFlight :: nat

definition schedule :: "nat \<Rightarrow> loop_state \<Rightarrow> loop_state" where
  "schedule delay s = (if lp_stopped s then s else s\<lparr>lp_timer := Some delay\<rparr>)"

definition loop_enter :: "loop_state \<Rightarrow> loop_state" where
  "loop_enter s = (if lp_running s \<or> lp_stopped s then s
     else s\<lparr>lp_running := True, lp_inFlight := lp_inFlight s + 1\<rparr>)"

definition tick_done :: "nat \<Rightarrow> bool \<Rightarrow> loop_state \<Rightarrow> loop_state" where
  "tick_done pollIntervalMs caughtUp s =
     schedule (if caughtUp then pollIntervalMs else 0) (s\<lparr>lp_running := False, lp_inFlight := lp_inFlight s - 1\<rparr>)"

definition tick_failed :: "nat \<Rightarrow> loop_state \<Rightarrow> loop_state" where
  "tick_failed pollIntervalMs s =
     schedule pollIntervalMs (s\<lparr>lp_running := False, lp_inFlight := lp_inFlight s - 1\<rparr>)"

definition onModuleDestroy :: "loop_state \<Rightarrow> loop_state" where
  "onModuleDestroy s = s\<lparr>lp_stopped := True, lp_timer := None\<rparr>"

inductive loop_step :: "nat \<Rightarrow> loop_state \<Rightarrow> loop_state \<Rightarrow> bool" for poll where
  fires: "lp_timer s = Some d \<Longrightarrow> loop_step poll s (loop_enter (s\<lparr>lp_timer := None\<rparr>))"
| returns: "0 < lp_inFlight s \<Longrightarrow> loop_step poll s (tick_done poll b s)"
| throws: "0 < lp_inFlight s \<Longrightarrow> loop_step poll s (tick_failed poll s)"
| destroyed: "loop_step poll s (onModuleDestroy s)"

inductive loop_reach :: "nat \<Rightarrow> loop_state \<Rightarrow> bool" for poll where
  started: "loop_reach poll (loop_enter \<lparr>lp_running = False, lp_stopped = False, lp_timer = None, lp_inFlight = 0\<rparr>)"
| steps: "loop_reach poll s \<Longrightarrow> loop_step poll s t \<Longrightarrow> loop_reach poll t"

inductive_cases loop_stepE: "loop_step poll s t"

lemmas loop_defs = schedule_def loop_enter_def tick_done_def tick_failed_def onModuleDestroy_def

end
