(* ===== verification/IndexerProps.thy ===== *)
theory IndexerProps
  imports Indexer
begin

text \<open>
  The indexer's guarantees: the ranges of a tick tile what is left of the final blocks, a committed
  tick hands the processor each log of its blocks once and in chain order and moves the cursor to the
  end of them, a failed one leaves the cursor where it was, and only one tick is ever in flight.
\<close>

section \<open>Chain order\<close>

interpretation chain_order: comparator byChainOrder
  by unfold_locales (auto simp: byChainOrder_def split: if_splits)

lemma byChainOrder_le: "byChainOrder a b \<le> 0 \<longleftrightarrow> n_block a < n_block b \<or> n_block a = n_block b \<and> n_logIndex a \<le> n_logIndex b"
  by (auto simp: byChainOrder_def)

section \<open>Ranges\<close>

text \<open>Consecutive ranges from \<open>start\<close>: each begins right after the one before it.\<close>

fun tiles :: "int \<Rightarrow> (int \<times> int) list \<Rightarrow> bool" where
  "tiles start [] \<longleftrightarrow> True"
| "tiles start (r # rs) \<longleftrightarrow> fst r = start \<and> start \<le> snd r \<and> tiles (snd r + 1) rs"

lemma plan_from_props:
  assumes "1 \<le> width"
  shows "tiles start (plan_from n width start safe)"
    and "length (plan_from n width start safe) \<le> n"
    and "r \<in> set (plan_from n width start safe) \<Longrightarrow> start \<le> fst r \<and> snd r \<le> safe \<and> snd r - fst r < width"
proof (induction n arbitrary: start)
  case (Suc n)
  { case 1 show ?case using Suc.IH(1) assms by (auto simp: Let_def) }
  { case 2 show ?case using Suc.IH(2) by (auto simp: Let_def) }
  { case 3 then show ?case using Suc.IH(3) [of "if start + width - 1 < safe then start + width - 1 + 1 else safe + 1"] assms
      by (fastforce simp: Let_def split: if_splits) }
qed auto

lemma plan_from_nonempty: "0 < n \<Longrightarrow> start \<le> safe \<Longrightarrow> plan_from n width start safe \<noteq> []"
  by (cases n) (auto simp: Let_def)

lemma plan_from_last:
  assumes "1 \<le> width" "start \<le> safe" "0 < n"
  shows "snd (last (plan_from n width start safe)) = min (start + int n * width - 1) safe"
  using assms
proof (induction n arbitrary: start)
  case (Suc n)
  show ?case
  proof (cases "start + width - 1 < safe")
    case False
    then have "plan_from (Suc n) width start safe = (start, safe) # plan_from n width (safe + 1) safe"
      using Suc.prems by simp
    moreover have "plan_from n width (safe + 1) safe = []" by (cases n) auto
    moreover have "0 \<le> int n * width" using Suc.prems by simp
    ultimately show ?thesis using False by (simp add: distrib_right)
  next
    case True
    then have step: "plan_from (Suc n) width start safe =
        (start, start + width - 1) # plan_from n width (start + width) safe"
      using Suc.prems by simp
    show ?thesis
    proof (cases "n = 0")
      case True
      then show ?thesis using step \<open>start + width - 1 < safe\<close> by simp
    next
      case False
      then have "plan_from n width (start + width) safe \<noteq> []"
        using \<open>start + width - 1 < safe\<close> by (intro plan_from_nonempty) auto
      then have "snd (last (plan_from (Suc n) width start safe)) = snd (last (plan_from n width (start + width) safe))"
        using step by simp
      also have "\<dots> = min (start + width + int n * width - 1) safe"
        using Suc.IH [of "start + width"] Suc.prems True False by simp
      finally show ?thesis by (simp add: distrib_right add.assoc)
    qed
  qed
qed simp

lemma maxRanges_pos: "0 < maxRanges n"
  by (simp add: maxRanges_def)

lemma tiles_last: "tiles start rs \<Longrightarrow> rs \<noteq> [] \<Longrightarrow> start \<le> snd (last rs)"
  by (induction rs arbitrary: start) fastforce+

text \<open>A tiling splits any count of blocks into its pages.\<close>

lemma tiles_filter:
  assumes "tiles start rs" "rs \<noteq> []"
  shows "sum_list (map (\<lambda>r. mset (map g (filter (\<lambda>x. P x \<and> fst r \<le> f x \<and> f x \<le> snd r) xs))) rs) =
    mset (map g (filter (\<lambda>x. P x \<and> start \<le> f x \<and> f x \<le> (snd (last rs) :: int)) xs))"
  using assms
proof (induction rs arbitrary: start)
  case (Cons r rs)
  show ?case
  proof (cases "rs = []")
    case True
    then show ?thesis using Cons.prems by simp
  next
    case False
    have le: "snd r + 1 \<le> snd (last rs) + 1" using tiles_last [of "snd r + 1" rs] Cons.prems False by simp
    have split: "mset (map g (filter (\<lambda>x. P x \<and> start \<le> f x \<and> f x \<le> snd (last rs)) xs)) =
        mset (map g (filter (\<lambda>x. P x \<and> fst r \<le> f x \<and> f x \<le> snd r) xs)) +
        mset (map g (filter (\<lambda>x. P x \<and> snd r + 1 \<le> f x \<and> f x \<le> snd (last rs)) xs))"
      using Cons.prems le by (induction xs) auto
    then show ?thesis using Cons False by simp
  qed
qed simp

section \<open>What a tick collects\<close>

text \<open>An honest node: what it answers is the chain's history. It may fail at any time.\<close>

definition serves :: "rpc \<Rightarrow> raw_log list \<Rightarrow> (int \<Rightarrow> int) \<Rightarrow> bool" where
  "serves R hist time \<longleftrightarrow>
     (\<forall>a k f t ls. rpc_logs R a k f t = Some ls \<longrightarrow>
        ls = filter (\<lambda>l. (w_address l = a \<and> in_abi k (w_event l)) \<and> f \<le> w_block l \<and> w_block l \<le> t) hist) \<and>
     (\<forall>b t. rpc_time R b = Some t \<longrightarrow> t = time b)"

definition matches :: "stream \<Rightarrow> raw_log \<Rightarrow> bool" where
  "matches s l \<longleftrightarrow> w_address l = st_address s \<and> in_abi (st_kind s) (w_event l)"

text \<open>The logs of the configured contracts in blocks \<open>start\<close> to \<open>to\<close>, as the processor is to see them.\<close>

definition due :: "chain_config \<Rightarrow> (int \<Rightarrow> int) \<Rightarrow> raw_log list \<Rightarrow> int \<Rightarrow> int \<Rightarrow> nlog list" where
  "due C time hist start to = concat (map (\<lambda>s. map (normalizeLog (Some \<circ> time) s)
     (filter (\<lambda>l. matches s l \<and> start \<le> w_block l \<and> w_block l \<le> to) hist)) (streams C))"

lemma all_some_Some: "all_some xs = Some ys \<longleftrightarrow> xs = map Some ys"
proof (induction xs arbitrary: ys)
  case (Cons x xs)
  show ?case
  proof (cases x)
    case (Some y)
    then show ?thesis using Cons by (cases ys) auto
  qed auto
qed auto

lemma mset_due: "mset (due C time hist start to) = sum_list (map (\<lambda>s. mset (map (normalizeLog (Some \<circ> time) s)
     (filter (\<lambda>l. matches s l \<and> start \<le> w_block l \<and> w_block l \<le> to) hist))) (streams C))"
  by (simp add: due_def mset_concat comp_def)

lemma map_option_all_some:
  assumes "all_some (map (\<lambda>x. map_option (f x) (g x)) xs) = Some ys" "\<And>x y. g x = Some y \<Longrightarrow> y = h x"
  shows "ys = map (\<lambda>x. f x (h x)) xs"
  using assms(1)
proof (induction xs arbitrary: ys)
  case (Cons x xs)
  then obtain y where y: "g x = Some y" by (cases "g x") auto
  then have "y = h x" using assms(2) by simp
  with Cons y show ?case by auto
qed simp

lemma collectLogs_due:
  assumes "serves R hist time" "collectLogs C R page = Some logs"
  shows "mset logs = mset (due C time hist (fst page) (snd page))"
proof -
  let ?got = "\<lambda>s. filter (\<lambda>l. matches s l \<and> fst page \<le> w_block l \<and> w_block l \<le> snd page) hist"
  obtain per ts where per: "all_some (map (\<lambda>s. map_option (map (\<lambda>l. (s, l)))
      (rpc_logs R (st_address s) (st_kind s) (fst page) (snd page))) (streams C)) = Some per"
    and ts: "all_some (map (rpc_time R) (js_set (map (\<lambda>p. w_block (snd p)) (concat per)))) = Some ts"
    and logs: "logs = js_sort byChainOrder (map (\<lambda>(s, l). normalizeLog
      (map_of (zip (js_set (map (\<lambda>p. w_block (snd p)) (concat per))) ts)) s l) (concat per))"
    using assms(2) by (auto simp: collectLogs_def Let_def split: option.splits)
  have per': "per = map (\<lambda>s. map (\<lambda>l. (s, l)) (?got s)) (streams C)"
    using per assms(1) by (intro map_option_all_some) (auto simp: serves_def matches_def)
  let ?blocks = "js_set (map (\<lambda>p. w_block (snd p)) (concat per))"
  have "ts = map time ?blocks"
  proof -
    have "all_some (map (\<lambda>b. map_option (\<lambda>t. t) (rpc_time R b)) ?blocks) = Some ts"
      using ts by (simp add: option.map_ident)
    then show ?thesis
      using map_option_all_some [of "\<lambda>_ t. t" "rpc_time R" ?blocks ts time] assms(1) by (simp add: serves_def)
  qed
  then have "map_of (zip ?blocks ts) = (\<lambda>b. if b \<in> set ?blocks then Some (time b) else None)"
    by (simp add: map_of_zip_map)
  then have eqn: "map (\<lambda>(s, l). normalizeLog (map_of (zip ?blocks ts)) s l) (concat per) =
      map (\<lambda>(s, l). normalizeLog (Some \<circ> time) s l) (concat per)"
  proof (intro map_cong refl)
    fix p
    assume look: "map_of (zip ?blocks ts) = (\<lambda>b. if b \<in> set ?blocks then Some (time b) else None)"
      and p: "p \<in> set (concat per)"
    have "w_block (snd p) \<in> set ?blocks" using p by simp
    then have "map_of (zip ?blocks ts) (w_block (snd p)) = Some (time (w_block (snd p)))" by (simp only: look if_True)
    then show "(case p of (s, l) \<Rightarrow> normalizeLog (map_of (zip ?blocks ts)) s l) =
        (case p of (s, l) \<Rightarrow> normalizeLog (Some \<circ> time) s l)"
      by (cases p) (simp add: normalizeLog_def)
  qed
  have "mset logs = mset (map (\<lambda>(s, l). normalizeLog (Some \<circ> time) s l) (concat per))"
    by (simp only: logs mset_js_sort eqn)
  also have "map (\<lambda>(s, l). normalizeLog (Some \<circ> time) s l) (concat per) = due C time hist (fst page) (snd page)"
    by (simp add: per' due_def map_concat comp_def)
  finally show ?thesis .
qed

lemma sum_list_swap:
  fixes F :: "'a \<Rightarrow> 'b \<Rightarrow> 'c::comm_monoid_add"
  shows "sum_list (map (\<lambda>r. sum_list (map (\<lambda>s. F s r) ss)) rs) = sum_list (map (\<lambda>s. sum_list (map (F s) rs)) ss)"
  by (induction rs) (simp_all add: sum_list_addf)

lemma collectRanges_due:
  assumes "serves R hist time" "collectRanges C R rs = Some logs" "tiles start rs" "rs \<noteq> []"
  shows "mset logs = mset (due C time hist start (snd (last rs)))"
    and "sorted_wrt (\<lambda>a b. byChainOrder a b \<le> 0) logs"
proof -
  obtain pages where pages: "all_some (map (collectLogs C R) rs) = Some pages"
    and logs: "logs = js_sort byChainOrder (concat pages)"
    using assms(2) by (auto simp: collectRanges_def)
  have each: "map mset pages = map (\<lambda>r. mset (due C time hist (fst r) (snd r))) rs"
  proof -
    have "map (collectLogs C R) rs = map Some pages" using pages by (simp add: all_some_Some)
    then show ?thesis
    proof (induction rs arbitrary: pages)
      case (Cons r rs)
      then obtain p ps where "pages = p # ps" "collectLogs C R r = Some p" "map (collectLogs C R) rs = map Some ps"
        by (cases pages) auto
      with Cons.IH collectLogs_due [OF assms(1)] show ?case by auto
    qed simp
  qed
  have "mset logs = sum_list (map mset pages)" by (simp add: logs mset_concat)
  also have "\<dots> = sum_list (map (\<lambda>r. sum_list (map (\<lambda>s. mset (map (normalizeLog (Some \<circ> time) s)
     (filter (\<lambda>l. matches s l \<and> fst r \<le> w_block l \<and> w_block l \<le> snd r) hist))) (streams C))) rs)"
    by (simp add: each mset_due)
  also have "\<dots> = mset (due C time hist start (snd (last rs)))"
    by (subst sum_list_swap) (simp only: mset_due tiles_filter [OF assms(3,4)])
  finally show "mset logs = mset (due C time hist start (snd (last rs)))" .
  show "sorted_wrt (\<lambda>a b. byChainOrder a b \<le> 0) logs"
    unfolding logs by (rule chain_order.sorted_js_sort)
qed

text \<open>A position on the chain holds one log, and an event belongs to one ABI.\<close>

definition positioned :: "raw_log list \<Rightarrow> bool" where
  "positioned hist \<longleftrightarrow> (\<forall>k \<in> set hist. \<forall>l \<in> set hist. w_block k = w_block l \<and> w_index k = w_index l \<longrightarrow> k = l)"

lemma in_abi_disjoint: "in_abi k ev \<Longrightarrow> in_abi k' ev \<Longrightarrow> k = k'"
  by (cases k; cases k'; cases ev) auto

lemma due_tie:
  assumes "positioned hist" "a \<in> set (due C time hist f t)" "b \<in> set (due C time hist g u)"
    and "byChainOrder a b \<le> 0" "byChainOrder b a \<le> 0"
  shows "a = b"
proof -
  obtain s k where a: "a = normalizeLog (Some \<circ> time) s k" "matches s k" "k \<in> set hist"
    using assms(2) by (auto simp: due_def)
  obtain s' l where b: "b = normalizeLog (Some \<circ> time) s' l" "matches s' l" "l \<in> set hist"
    using assms(3) by (auto simp: due_def)
  have pos: "n_block a = w_block k" "n_logIndex a = w_index k" "n_block b = w_block l" "n_logIndex b = w_index l"
    unfolding a(1) b(1) by (simp_all add: normalizeLog_def)
  have "w_block k = w_block l \<and> w_index k = w_index l"
    using assms(4,5) unfolding byChainOrder_le pos by auto
  then have "k = l" using assms(1) a(3) b(3) unfolding positioned_def by blast
  moreover from this have "st_address s = st_address s'" using a(2) b(2) by (simp add: matches_def)
  moreover have "st_kind s = st_kind s'"
    using a(2) b(2) \<open>k = l\<close> in_abi_disjoint [of "st_kind s" "w_event l" "st_kind s'"] by (simp add: matches_def)
  ultimately show ?thesis using a(1) b(1) by (simp add: normalizeLog_def)
qed

lemma in_order_unique:
  assumes "positioned hist" "mset logs = mset (due C time hist f t)" "sorted_wrt (\<lambda>a b. byChainOrder a b \<le> 0) logs"
  shows "logs = js_sort byChainOrder (due C time hist f t)"
proof (rule chain_order.js_sort_unique [symmetric])
  show "mset (due C time hist f t) = mset logs" using assms(2) by simp
  show "a = b" if "a \<in> set logs" "b \<in> set logs" "byChainOrder a b \<le> 0" "byChainOrder b a \<le> 0" for a b
    using that due_tie [OF assms(1)] mset_eq_setD [OF assms(2)] by blast
qed (rule assms(3))

section \<open>The tick\<close>

lemma cursor_saved: "nextFromBlock C (saveCursor to s) = to + 1"
  using cursor_rows.lookup_upsert [of "\<lparr>k_stream = CURSOR_STREAM, k_last = to\<rparr>" CURSOR_STREAM
      "\<lambda>c. c\<lparr>k_last := to\<rparr>" CURSOR_STREAM "cursors s"]
  by (simp add: nextFromBlock_def saveCursor_def split: option.splits)

lemma nextFromBlock_cong: "cursors t = cursors s \<Longrightarrow> nextFromBlock C t = nextFromBlock C s"
  by (simp add: nextFromBlock_def)

lemma cursors_processBatch: "steps (\<lambda>s t. cursors t = cursors s) (processBatch E logs)"
proof -
  have log: "steps (\<lambda>s t. cursors t = cursors s) (applyLog E l)" for l
    using engine_applyEngine [of E l "n_event l"] resolver_applyResolver [of l "n_event l"]
      blocklist_applyBlocklist [of l "n_event l"]
    by (cases "n_kind l") (simp_all add: applyLog_def steps_def frame_defs)
  have refresh: "steps (\<lambda>s t. cursors t = cursors s) (refreshPrices E logs ref)" for ref
    using engine_refreshPrices [of E logs ref] by (simp add: steps_def engine_frame_def)
  show ?thesis
    unfolding processBatch_def
    by (intro frame_order.steps_seqp frame_order.steps_modp frame_order.steps_forp log
        frame_order.steps_bindp frame_order.steps_gets refresh) simp
qed

lemma cursors_processLogs: "processLogs E logs s = (r, t) \<Longrightarrow> cursors t = cursors s"
  using stepsD [OF cursors_processBatch, of E logs s]
  by (auto simp: processLogs_def split: if_splits prod.splits sum.splits)

lemma plan_props:
  assumes "1 \<le> cf_batchBlocks C" "start \<le> safe"
  shows "tiles start (plan C start safe)" "plan C start safe \<noteq> []"
    and "start \<le> snd (last (plan C start safe))" "snd (last (plan C start safe)) \<le> safe"
proof -
  show t: "tiles start (plan C start safe)" using plan_from_props(1) assms(1) by (simp add: plan_def)
  show n: "plan C start safe \<noteq> []" using plan_from_nonempty maxRanges_pos assms(2) by (simp add: plan_def)
  show "start \<le> snd (last (plan C start safe))" using t n by (rule tiles_last)
  show "snd (last (plan C start safe)) \<le> safe"
    using plan_from_props(3) [OF assms(1)] last_in_set [OF n] by (simp add: plan_def)
qed

lemma tick_committed:
  assumes run: "tick C R E s = (Inr b, t)" and width: "1 \<le> cf_batchBlocks C"
    and hist: "serves R hist time" "positioned hist"
  shows "(b \<and> t = s) \<or>
    (\<exists>head to u. rpc_head R = Some head \<and> nextFromBlock C s \<le> to \<and> to \<le> safeHeadOf C head \<and>
       (b \<longleftrightarrow> to = safeHeadOf C head) \<and>
       processLogs E (js_sort byChainOrder (due C time hist (nextFromBlock C s) to)) s = (Inr (), u) \<and>
       t = saveCursor to u)"
proof -
  obtain head where head: "rpc_head R = Some head" using run by (auto simp: tick_def split: option.splits)
  let ?safe = "safeHeadOf C head"
  let ?start = "nextFromBlock C s"
  show ?thesis
  proof (cases "?safe < ?start")
    case True
    then show ?thesis using run head by (simp add: tick_def)
  next
    case False
    let ?rs = "plan C ?start ?safe"
    let ?to = "snd (last ?rs)"
    have le: "?start \<le> ?safe" using False by simp
    note plan = plan_props [OF width le]
    obtain logs where logs: "collectRanges C R ?rs = Some logs"
      using run head False by (auto simp: tick_def Let_def split: option.splits)
    have sorted: "logs = js_sort byChainOrder (due C time hist ?start ?to)"
      by (rule in_order_unique [OF hist(2) collectRanges_due [OF hist(1) logs plan(1,2)]])
    have "bindp (processLogs E logs) (\<lambda>_. seqp (modp (saveCursor ?to)) (ret (?safe \<le> ?to))) s = (Inr b, t)"
      using run head False logs by (simp add: tick_def Let_def)
    then obtain u where u: "processLogs E logs s = (Inr (), u)" "t = saveCursor ?to u" "b \<longleftrightarrow> ?safe \<le> ?to"
      by (auto simp: bindp_Inr)
    show ?thesis
      using head u sorted plan(3,4) by (intro disjI2 exI [of _ head] exI [of _ ?to] exI [of _ u]) auto
  qed
qed

lemma tick_failed_cursor:
  assumes "tick C R E s = (Inl e, t)"
  shows "cursors t = cursors s"
  using assms cursors_processLogs
  by (auto simp: tick_def Let_def bindp_Inl seqp_def split: option.splits if_splits)

section \<open>Runs of ticks\<close>

text \<open>What a tick hands to the processor.\<close>

definition handed :: "chain_config \<Rightarrow> rpc \<Rightarrow> ep_state \<Rightarrow> nlog list" where
  "handed C R s = (case rpc_head R of None \<Rightarrow> []
     | Some head \<Rightarrow> if safeHeadOf C head < nextFromBlock C s then []
         else (case collectRanges C R (plan C (nextFromBlock C s) (safeHeadOf C head)) of
                 None \<Rightarrow> [] | Some logs \<Rightarrow> logs))"

text \<open>Ticks one after the other, against nodes that may fail as they like, and the batches of those
  that committed.\<close>

inductive ticks :: "chain_config \<Rightarrow> env \<Rightarrow> (int \<Rightarrow> int) \<Rightarrow> raw_log list \<Rightarrow> ep_state \<Rightarrow> nlog list list \<Rightarrow> ep_state \<Rightarrow> bool"
  for C E time hist s where
  start: "ticks C E time hist s [] s"
| committed: "ticks C E time hist s bs t \<Longrightarrow> serves R hist time \<Longrightarrow> tick C R E t = (Inr b, u) \<Longrightarrow>
    ticks C E time hist s (bs @ [handed C R t]) u"
| failed: "ticks C E time hist s bs t \<Longrightarrow> tick C R E t = (Inl e, u) \<Longrightarrow> ticks C E time hist s bs u"

lemma due_split:
  assumes "f \<le> m" "m \<le> t + 1"
  shows "mset (due C time hist f t) = mset (due C time hist f (m - 1)) + mset (due C time hist m t)"
proof -
  have "mset (map g (filter (\<lambda>l. P l \<and> f \<le> w_block l \<and> w_block l \<le> t) hist)) =
      mset (map g (filter (\<lambda>l. P l \<and> f \<le> w_block l \<and> w_block l \<le> m - 1) hist)) +
      mset (map g (filter (\<lambda>l. P l \<and> m \<le> w_block l \<and> w_block l \<le> t) hist))" for g :: "raw_log \<Rightarrow> nlog" and P
    using assms by (induction hist) auto
  then show ?thesis by (simp only: mset_due sum_list_addf)
qed

lemma due_blocks: "a \<in> set (due C time hist f t) \<Longrightarrow> f \<le> n_block a \<and> n_block a \<le> t"
  by (auto simp: due_def normalizeLog_def)

lemma due_empty: "t < f \<Longrightarrow> due C time hist f t = []"
proof -
  assume "t < f"
  then have "a \<notin> set (due C time hist f t)" for a using due_blocks [of a C time hist f t] by linarith
  then show ?thesis by (cases "due C time hist f t") auto
qed

lemma sorted_due_append:
  assumes "positioned hist" "f \<le> m" "m \<le> t + 1"
  shows "js_sort byChainOrder (due C time hist f (m - 1)) @ js_sort byChainOrder (due C time hist m t) =
    js_sort byChainOrder (due C time hist f t)" (is "?xs @ ?ys = _")
proof (rule in_order_unique [OF assms(1)])
  show "mset (?xs @ ?ys) = mset (due C time hist f t)" using due_split [OF assms(2,3)] by simp
  have "byChainOrder a b \<le> 0" if "a \<in> set ?xs" "b \<in> set ?ys" for a b
  proof -
    have "n_block a \<le> m - 1" "m \<le> n_block b"
      using that due_blocks [of a C time hist f "m - 1"] due_blocks [of b C time hist m t] by auto
    then show ?thesis unfolding byChainOrder_le by linarith
  qed
  then show "sorted_wrt (\<lambda>a b. byChainOrder a b \<le> 0) (?xs @ ?ys)"
    by (simp add: sorted_wrt_append chain_order.sorted_js_sort)
qed

lemma tick_handed:
  assumes run: "tick C R E s = (Inr b, t)" and width: "1 \<le> cf_batchBlocks C"
    and hist: "serves R hist time" "positioned hist"
  shows "nextFromBlock C s \<le> nextFromBlock C t \<and>
    handed C R s = js_sort byChainOrder (due C time hist (nextFromBlock C s) (nextFromBlock C t - 1))"
proof -
  obtain head where head: "rpc_head R = Some head" using run by (auto simp: tick_def split: option.splits)
  let ?safe = "safeHeadOf C head"
  let ?start = "nextFromBlock C s"
  show ?thesis
  proof (cases "?safe < ?start")
    case True
    then have "t = s" using run head by (simp add: tick_def)
    then show ?thesis using True head by (simp add: handed_def due_empty)
  next
    case False
    then have le: "?start \<le> ?safe" by simp
    note plan = plan_props [OF width le]
    obtain logs where logs: "collectRanges C R (plan C ?start ?safe) = Some logs"
      using run head False by (auto simp: tick_def Let_def split: option.splits)
    let ?to = "snd (last (plan C ?start ?safe))"
    have "logs = js_sort byChainOrder (due C time hist ?start ?to)"
      by (rule in_order_unique [OF hist(2) collectRanges_due [OF hist(1) logs plan(1,2)]])
    moreover have "nextFromBlock C t = ?to + 1"
      using run head False logs cursor_saved by (auto simp: tick_def Let_def bindp_Inr seqp_def)
    ultimately show ?thesis using False head logs plan(3) by (simp add: handed_def)
  qed
qed

lemma ticks_batches:
  assumes "ticks C E time hist s bs t" "1 \<le> cf_batchBlocks C" "positioned hist"
  shows "nextFromBlock C s \<le> nextFromBlock C t \<and>
    concat bs = js_sort byChainOrder (due C time hist (nextFromBlock C s) (nextFromBlock C t - 1))"
  using assms(1)
proof (induction rule: ticks.induct)
  case start
  then show ?case by (simp add: due_empty)
next
  case (committed bs t R b u)
  have next_tick: "nextFromBlock C t \<le> nextFromBlock C u"
    "handed C R t = js_sort byChainOrder (due C time hist (nextFromBlock C t) (nextFromBlock C u - 1))"
    using tick_handed [OF committed.hyps(3) assms(2) committed.hyps(2) assms(3)] by auto
  then show ?case
    using committed.IH sorted_due_append [OF assms(3), of "nextFromBlock C s" "nextFromBlock C t" "nextFromBlock C u - 1" C time]
    by simp
next
  case (failed bs t R e u)
  then show ?case using tick_failed_cursor [of C R E t e u] nextFromBlock_cong [of u t C] by simp
qed

section \<open>Properties\<close>

text \<open>The ranges of a tick are consecutive from the first block not yet indexed, no wider than
  \<open>batchBlocks\<close>, never past the safe head, at most the request budget divided by the streams, and reach
  the safe head or the end of that budget.\<close>

theorem plan_tiles_the_final_blocks:
  assumes "1 \<le> cf_batchBlocks C" "start \<le> safe"
  shows "tiles start (plan C start safe) \<and>
    (\<forall>r \<in> set (plan C start safe). snd r \<le> safe \<and> snd r - fst r < cf_batchBlocks C) \<and>
    length (plan C start safe) \<le> maxRanges (length (streams C)) \<and>
    snd (last (plan C start safe)) =
      min (start + int (maxRanges (length (streams C))) * cf_batchBlocks C - 1) safe"
  using plan_from_props [OF assms(1)] plan_from_last [OF assms maxRanges_pos] by (auto simp: plan_def)

definition sample_chain :: chain_config where
  "sample_chain = \<lparr>cf_lsLmsr = Some ''0xAA'', cf_resolver = Some ''0xEE'', cf_blocklist = None,
     cf_startBlock = 1, cf_confirmations = 2, cf_batchBlocks = 100\<rparr>"

lemma plan_tiles_the_final_blocks_witness:
  "tiles 1 (plan sample_chain 1 250) \<and> snd (last (plan sample_chain 1 250)) = 250"
proof -
  have "1 \<le> cf_batchBlocks sample_chain" by (simp add: sample_chain_def)
  moreover have "min (1 + int (maxRanges (length (streams sample_chain))) * cf_batchBlocks sample_chain - 1) 250 = 250"
    by code_simp
  ultimately show ?thesis using plan_tiles_the_final_blocks [of sample_chain 1 250] by simp
qed

text \<open>C1. Whatever the order of heads, failures and retries, the batches that committed are, one
  after the other, exactly the logs of the configured contracts between the block where the run began
  and the cursor, each once and in chain order: no gap, no duplicate, no reordering.\<close>

theorem committed_batches_are_the_chain:
  assumes "ticks C E time hist s bs t" "1 \<le> cf_batchBlocks C" "positioned hist"
  shows "nextFromBlock C s \<le> nextFromBlock C t \<and>
    concat bs = js_sort byChainOrder (due C time hist (nextFromBlock C s) (nextFromBlock C t - 1))"
  using assms by (rule ticks_batches)

definition sample_raw :: raw_log where
  "sample_raw = \<lparr>w_address = ''0xAA'', w_event = SeedRedeemed 9 ''0xcc'' 4, w_block = 3, w_tx = ''0x02'', w_index = 0\<rparr>"

definition serving :: "int option \<Rightarrow> raw_log list \<Rightarrow> (int \<Rightarrow> int) \<Rightarrow> rpc" where
  "serving head hist time = \<lparr>rpc_head = head,
     rpc_logs = (\<lambda>a k f t. Some (filter (\<lambda>l. (w_address l = a \<and> in_abi k (w_event l)) \<and> f \<le> w_block l \<and> w_block l \<le> t) hist)),
     rpc_time = (\<lambda>b. Some (time b))\<rparr>"

lemma serving_serves: "serves (serving head hist time) hist time"
  by (simp add: serves_def serving_def)

definition sample_handed :: nlog where
  "sample_handed = \<lparr>n_kind = LS_LMSR, n_address = ''0xAA'', n_event = SeedRedeemed 9 ''0xcc'' 4, n_block = 3,
     n_tx = ''0x02'', n_logIndex = 0, n_time = 5000\<rparr>"

lemma sample_tick:
  "\<exists>t. tick sample_chain (serving (Some 10) [sample_raw] (\<lambda>b. 5)) sample_env sample_state = (Inr True, t) \<and>
     nextFromBlock sample_chain t = 9"
proof -
  have start: "nextFromBlock sample_chain sample_state = 1"
    by (simp add: nextFromBlock_def sample_chain_def sample_state_def state_with_def)
  have plan: "plan sample_chain 1 8 = [(1, 8)]" by code_simp
  have logs: "collectRanges sample_chain (serving (Some 10) [sample_raw] (\<lambda>b. 5)) [(1, 8)] = Some [sample_handed]"
    by code_simp
  have "marketRef ''0xAA'' 9 (sample_state\<lparr>touched := []\<rparr>) = (Inr None, sample_state\<lparr>touched := []\<rparr>)"
    by (simp add: marketRef_def sample_defs Let_def market_key_def)
  then have "processLogs sample_env [sample_handed] sample_state = (Inr (), sample_state)"
    by (simp add: processLogs_def processBatch_def applyLog_def sample_handed_def onSeedRedeemed_def)
      (simp add: sample_state_def state_with_def)
  then show ?thesis
    using start plan logs cursor_saved [of sample_chain 8 sample_state]
    by (simp add: tick_def serving_def safeHeadOf_def sample_chain_def Let_def)
qed

lemma committed_batches_are_the_chain_witness:
  "\<exists>bs t. ticks sample_chain sample_env (\<lambda>b. 5) [sample_raw] sample_state bs t \<and>
     nextFromBlock sample_chain t = 9 \<and> concat bs = js_sort byChainOrder (due sample_chain (\<lambda>b. 5) [sample_raw] 1 8)"
proof -
  let ?R = "serving (Some 10) [sample_raw] (\<lambda>b. 5)"
  obtain t where t: "tick sample_chain ?R sample_env sample_state = (Inr True, t)" "nextFromBlock sample_chain t = 9"
    using sample_tick by blast
  have run: "ticks sample_chain sample_env (\<lambda>b. 5) [sample_raw] sample_state ([] @ [handed sample_chain ?R sample_state]) t"
    by (rule ticks.committed [OF ticks.start serving_serves t(1)])
  have start: "nextFromBlock sample_chain sample_state = 1"
    by (simp add: nextFromBlock_def sample_chain_def sample_state_def state_with_def)
  have "1 \<le> cf_batchBlocks sample_chain" "positioned [sample_raw]"
    by (simp_all add: sample_chain_def positioned_def)
  from committed_batches_are_the_chain [OF run this] show ?thesis
    using run t(2) start by (intro exI [of _ "[] @ [handed sample_chain ?R sample_state]"] exI [of _ t]) simp
qed

lemma tick_cursor:
  assumes "1 \<le> cf_batchBlocks C" "rpc_head R = Some head" "nextFromBlock C s \<le> safeHeadOf C head"
  shows "(case tick C R E s of
      (Inr b, t) \<Rightarrow>
        nextFromBlock C t = min (nextFromBlock C s + int (maxRanges (length (streams C))) * cf_batchBlocks C)
          (safeHeadOf C head + 1) \<and>
        nextFromBlock C s < nextFromBlock C t \<and> b = (nextFromBlock C t = safeHeadOf C head + 1)
    | (Inl e, t) \<Rightarrow> nextFromBlock C t = nextFromBlock C s)"
proof (cases "tick C R E s")
  case (Pair r t)
  let ?safe = "safeHeadOf C head"
  let ?start = "nextFromBlock C s"
  let ?to = "snd (last (plan C ?start ?safe))"
  show ?thesis
  proof (cases r)
    case (Inl e)
    then show ?thesis using Pair tick_failed_cursor [of C R E s e t] nextFromBlock_cong [of t s C] by simp
  next
    case (Inr b)
    have to: "?to = min (?start + int (maxRanges (length (streams C))) * cf_batchBlocks C - 1) ?safe"
      using plan_from_last [OF assms(1,3) maxRanges_pos] by (simp add: plan_def)
    have le: "?start \<le> ?to" "?to \<le> ?safe" using plan_props [OF assms(1,3)] by auto
    have "nextFromBlock C t = ?to + 1 \<and> b = (?safe \<le> ?to)"
      using Pair Inr assms(2,3) cursor_saved
      by (auto simp: tick_def Let_def bindp_Inr seqp_def split: option.splits)
    then show ?thesis using Pair Inr to le by auto
  qed
qed

text \<open>A tick that resolves while final blocks remain moves the cursor past the ranges it fetched,
  by its whole budget or up to the safe head, and says it has caught up exactly when it reached the safe
  head; one that rejects, at the node or inside the batch, leaves the cursor where it was.\<close>

theorem tick_moves_or_keeps_the_cursor:
  assumes "1 \<le> cf_batchBlocks C" "rpc_head R = Some head" "nextFromBlock C s \<le> safeHeadOf C head"
  shows "(case tick C R E s of
      (Inr b, t) \<Rightarrow>
        nextFromBlock C t = min (nextFromBlock C s + int (maxRanges (length (streams C))) * cf_batchBlocks C)
          (safeHeadOf C head + 1) \<and>
        nextFromBlock C s < nextFromBlock C t \<and> b = (nextFromBlock C t = safeHeadOf C head + 1)
    | (Inl e, t) \<Rightarrow> nextFromBlock C t = nextFromBlock C s)"
  by (rule tick_cursor [OF assms])

lemma tick_moves_or_keeps_the_cursor_witness:
  "case tick sample_chain (serving (Some 10) [sample_raw] (\<lambda>b. 5)) sample_env sample_state of
     (Inr b, t) \<Rightarrow> nextFromBlock sample_chain t = min 701 9 | (Inl e, t) \<Rightarrow> nextFromBlock sample_chain t = 1"
proof -
  let ?R = "serving (Some 10) [sample_raw] (\<lambda>b. 5)"
  have start: "nextFromBlock sample_chain sample_state = 1"
    by (simp add: nextFromBlock_def sample_chain_def sample_state_def state_with_def)
  have "1 \<le> cf_batchBlocks sample_chain" "rpc_head ?R = Some 10" "safeHeadOf sample_chain 10 = 8"
    by (simp_all add: sample_chain_def serving_def safeHeadOf_def)
  moreover have "int (maxRanges (length (streams sample_chain))) * cf_batchBlocks sample_chain = 700"
    by code_simp
  ultimately show ?thesis
    using tick_moves_or_keeps_the_cursor [of sample_chain ?R 10 sample_state sample_env] start
    by (auto split: prod.splits sum.splits)
qed

section \<open>Catching up\<close>

text \<open>The loop while the head stands still: one tick after the other, each with what the node answers it, until one
  says it has caught up.\<close>

fun tick_run :: "rpc list \<Rightarrow> chain_config \<Rightarrow> env \<Rightarrow> (ep_state, tick_error, bool) proc" where
  "tick_run [] C E = ret False"
| "tick_run (R # Rs) C E = bindp (tick C R E) (\<lambda>b. if b then ret True else tick_run Rs C E)"

definition tick_budget :: "chain_config \<Rightarrow> int" where
  "tick_budget C = int (maxRanges (length (streams C))) * cf_batchBlocks C"

lemma tick_budget_pos: "1 \<le> cf_batchBlocks C \<Longrightarrow> 0 < tick_budget C"
  using maxRanges_pos [of "length (streams C)"] by (simp add: tick_budget_def)

lemma window_step: "((safe + 1 - (start + w) \<le> K) = (safe + 1 - start \<le> w + K))" for safe :: int
  by auto

text \<open>A run that rejects: the ticks before the rejecting one all resolved, short of the safe head.\<close>

lemma tick_run_rejects:
  "tick_run Rs C E s = (Inl e, t) \<Longrightarrow>
   \<exists>k u. k < length Rs \<and> tick_run (take k Rs) C E s = (Inr False, u) \<and> tick C (Rs ! k) E u = (Inl e, t)"
proof (induction Rs arbitrary: s)
  case (Cons R Rs)
  obtain r u where r: "tick C R E s = (r, u)" by fastforce
  show ?case
  proof (cases r)
    case (Inl d)
    then show ?thesis using Cons.prems r by (intro exI [of _ 0]) (auto simp: bindp_def ret_def)
  next
    case (Inr b)
    then have "\<not> b" "tick_run Rs C E u = (Inl e, t)" using Cons.prems r by (auto simp: bindp_def ret_def split: if_splits)
    then obtain k v where "k < length Rs" "tick_run (take k Rs) C E u = (Inr False, v)" "tick C (Rs ! k) E v = (Inl e, t)"
      using Cons.IH by blast
    then show ?thesis using r Inr \<open>\<not> b\<close> by (intro exI [of _ "Suc k"]) (auto simp: bindp_def)
  qed
qed (simp add: ret_def)

lemma tick_run_cursor:
  assumes "1 \<le> cf_batchBlocks C" "\<forall>R \<in> set Rs. rpc_head R = Some head" "nextFromBlock C s \<le> safeHeadOf C head"
    and "tick_run Rs C E s = (Inr b, t)"
  shows "b = (safeHeadOf C head + 1 - nextFromBlock C s \<le> int (length Rs) * tick_budget C) \<and>
    nextFromBlock C t = min (nextFromBlock C s + int (length Rs) * tick_budget C) (safeHeadOf C head + 1)"
  using assms(2-4)
proof (induction Rs arbitrary: s)
  case Nil
  then show ?case by (auto simp: ret_def)
next
  case (Cons R Rs)
  let ?safe = "safeHeadOf C head" and ?w = "tick_budget C"
  have w: "0 < ?w" by (rule tick_budget_pos [OF assms(1)])
  define K where "K = int (length Rs) * ?w"
  have K: "0 \<le> K" using w by (simp add: K_def)
  have dist: "int (length (R # Rs)) * ?w = ?w + K" by (simp add: distrib_right K_def)
  have head: "rpc_head R = Some head" using Cons.prems(1) by simp
  obtain r u where r: "tick C R E s = (r, u)" by fastforce
  then obtain c where c: "r = Inr c" using Cons.prems(3) by (cases r) (auto simp: bindp_def)
  have u: "nextFromBlock C u = min (nextFromBlock C s + ?w) (?safe + 1)" "c = (nextFromBlock C u = ?safe + 1)"
    using tick_cursor [OF assms(1) head Cons.prems(2), of E] r c by (simp_all add: tick_budget_def)
  show ?case unfolding dist
  proof (cases c)
    case True
    then have "b" "t = u" using Cons.prems(3) r c by (auto simp: bindp_def ret_def)
    then show "b = (?safe + 1 - nextFromBlock C s \<le> ?w + K) \<and> nextFromBlock C t = min (nextFromBlock C s + (?w + K)) (?safe + 1)"
      using True u K by (auto simp: min_def split: if_splits)
  next
    case False
    then have le: "nextFromBlock C u \<le> ?safe" and nx: "nextFromBlock C u = nextFromBlock C s + ?w"
      using u by (auto simp: min_def split: if_splits)
    have "tick_run Rs C E u = (Inr b, t)" using Cons.prems(3) r c False by (auto simp: bindp_def)
    from Cons.IH [OF _ le this] Cons.prems(1)
    have "b = (?safe + 1 - nextFromBlock C u \<le> K)" "nextFromBlock C t = min (nextFromBlock C u + K) (?safe + 1)"
      by (simp_all add: K_def)
    then show "b = (?safe + 1 - nextFromBlock C s \<le> ?w + K) \<and> nextFromBlock C t = min (nextFromBlock C s + (?w + K)) (?safe + 1)"
      unfolding nx window_step by (simp add: add.assoc)
  qed
qed

text \<open>C2. Catching up to a head terminates. Let the ticks follow each other while the node reports one head, whatever
  else it answers each of them, and let final blocks be left to index. A run of fewer ticks than the budget goes into
  the backlog does not say it has caught up, and a run of that many ends with the cursor just behind the safe head. A
  run in which a tick rejects has its cursor just behind the blocks of the ticks that resolved before it, whole
  budgets from where it began: the rejecting tick has not moved it.\<close>

theorem catch_up_terminates:
  assumes "1 \<le> cf_batchBlocks C" "\<forall>R \<in> set Rs. rpc_head R = Some head" "nextFromBlock C s \<le> safeHeadOf C head"
    and "backlog = safeHeadOf C head + 1 - nextFromBlock C s"
  shows "case tick_run Rs C E s of
      (Inr b, t) \<Rightarrow> b = (backlog \<le> int (length Rs) * tick_budget C) \<and>
        nextFromBlock C t = min (nextFromBlock C s + int (length Rs) * tick_budget C) (safeHeadOf C head + 1)
    | (Inl e, t) \<Rightarrow> \<exists>k u. k < length Rs \<and> tick_run (take k Rs) C E s = (Inr False, u) \<and> tick C (Rs ! k) E u = (Inl e, t) \<and>
        nextFromBlock C t = nextFromBlock C u \<and> nextFromBlock C t = nextFromBlock C s + int k * tick_budget C \<and>
        nextFromBlock C t \<le> safeHeadOf C head"
proof (cases "tick_run Rs C E s")
  case (Pair r t)
  show ?thesis
  proof (cases r)
    case (Inr b)
    then show ?thesis using tick_run_cursor [OF assms(1-3)] Pair assms(4) by simp
  next
    case (Inl e)
    then obtain k u where k: "k < length Rs" "tick_run (take k Rs) C E s = (Inr False, u)" "tick C (Rs ! k) E u = (Inl e, t)"
      using tick_run_rejects Pair by blast
    have heads: "\<forall>R \<in> set (take k Rs). rpc_head R = Some head" "rpc_head (Rs ! k) = Some head"
      using assms(2) k(1) by (auto dest: in_set_takeD)
    have u: "nextFromBlock C u = nextFromBlock C s + int k * tick_budget C" "nextFromBlock C u \<le> safeHeadOf C head"
      using tick_run_cursor [OF assms(1) heads(1) assms(3) k(2)] k(1) by auto
    then have "nextFromBlock C t = nextFromBlock C u"
      using tick_cursor [OF assms(1) heads(2) u(2), of E] k(3) by simp
    then show ?thesis using Pair Inl k u by auto
  qed
qed

text \<open>The sample node, and the same node with its log requests failing.\<close>

lemma catch_up_terminates_witness:
  "(case tick_run [serving (Some 10) [sample_raw] (\<lambda>b. 5)] sample_chain sample_env sample_state of
     (Inr b, t) \<Rightarrow> b \<and> nextFromBlock sample_chain t = 9 | (Inl e, t) \<Rightarrow> nextFromBlock sample_chain t = 1) \<and>
   (case tick_run [serving (Some 10) [sample_raw] (\<lambda>b. 5)\<lparr>rpc_logs := \<lambda>_ _ _ _. None\<rparr>] sample_chain sample_env sample_state of
     (Inr b, t) \<Rightarrow> b \<and> nextFromBlock sample_chain t = 9 | (Inl e, t) \<Rightarrow> nextFromBlock sample_chain t = 1)"
proof -
  let ?R = "serving (Some 10) [sample_raw] (\<lambda>b. 5)"
  have start: "nextFromBlock sample_chain sample_state = 1"
    by (simp add: nextFromBlock_def sample_chain_def sample_state_def state_with_def)
  have C: "1 \<le> cf_batchBlocks sample_chain" and heads: "\<forall>R \<in> set [?R]. rpc_head R = Some 10"
    "\<forall>R \<in> set [?R\<lparr>rpc_logs := \<lambda>_ _ _ _. None\<rparr>]. rpc_head R = Some 10" and safe: "safeHeadOf sample_chain 10 = 8"
    by (simp_all add: sample_chain_def serving_def safeHeadOf_def)
  have wide: "tick_budget sample_chain = 700" by code_simp
  have le: "nextFromBlock sample_chain sample_state \<le> safeHeadOf sample_chain 10" unfolding start safe by simp
  have one: "length [R] = 1" for R :: rpc by simp
  note catch_up_terminates [OF C heads(1) le refl, of sample_env] catch_up_terminates [OF C heads(2) le refl, of sample_env]
  then show ?thesis
    unfolding start safe wide one by (auto split: prod.splits sum.splits)
qed

section \<open>One tick at a time\<close>

definition loop_ok :: "loop_state \<Rightarrow> bool" where
  "loop_ok s \<longleftrightarrow> (lp_inFlight s = (if lp_running s then 1 else 0)) \<and>
     (lp_running s \<longrightarrow> lp_timer s = None) \<and> (lp_stopped s \<longrightarrow> lp_timer s = None) \<and>
     (lp_running s \<or> lp_stopped s \<or> lp_timer s \<noteq> None)"

lemma loop_step_ok: "loop_step poll s t \<Longrightarrow> loop_ok s \<Longrightarrow> loop_ok t"
  by (erule loop_stepE) (auto simp: loop_ok_def loop_defs split: if_splits)

lemma loop_reach_ok: "loop_reach poll s \<Longrightarrow> loop_ok s"
proof (induction rule: loop_reach.induct)
  case started
  show ?case by (simp add: loop_ok_def loop_defs)
next
  case (steps s t)
  then show ?case using loop_step_ok by blast
qed

text \<open>However timers, finished ticks, failed ticks and shutdown interleave, at most one tick is in
  flight, a timer is pending only while none is, the loop never dies by itself (a tick is in flight or a
  timer pending until it is stopped), and after a shutdown no further tick starts.\<close>

theorem one_tick_at_a_time:
  assumes "loop_reach poll s"
  shows "lp_inFlight s \<le> 1 \<and> (0 < lp_inFlight s \<longrightarrow> lp_timer s = None) \<and>
    (lp_stopped s \<or> 0 < lp_inFlight s \<or> lp_timer s \<noteq> None) \<and>
    (lp_stopped s \<longrightarrow> (\<forall>t. loop_step poll s t \<longrightarrow> lp_inFlight t \<le> lp_inFlight s \<and> lp_stopped t))"
proof -
  have ok: "loop_ok s" using assms by (rule loop_reach_ok)
  have "lp_inFlight t \<le> lp_inFlight s \<and> lp_stopped t" if "lp_stopped s" "loop_step poll s t" for t
    using that(2,1) by (cases rule: loop_step.cases) (auto simp: loop_defs)
  then show ?thesis using ok by (auto simp: loop_ok_def split: if_splits)
qed

lemma one_tick_at_a_time_witness:
  "lp_inFlight (loop_enter \<lparr>lp_running = False, lp_stopped = False, lp_timer = None, lp_inFlight = 0\<rparr>) \<le> 1"
  using one_tick_at_a_time [OF loop_reach.started] by simp

end
