(* ===== verification/Integrity.thy ===== *)
theory Integrity
  imports Lifecycle
begin

text \<open>
  The integrity of the indexed tables over whole batches: keys stay unique, every row belongs to a
  market, the processor's \<open>refCache\<close> never names a wrong market, and the shares outstanding of an
  outcome never exceed its seed and the shares held.
\<close>

section \<open>Coherence\<close>

abbreviation ids :: "'a db_scheme \<Rightarrow> string set" where
  "ids s \<equiv> m_id ` set (markets s)"

definition coherent :: "env \<Rightarrow> ep_state \<Rightarrow> bool" where
  "coherent E s \<longleftrightarrow>
     distinct (map m_id (markets s)) \<and> distinct (map market_key (markets s)) \<and>
     distinct (map outcome_key (outcomes s)) \<and> distinct (map trade_key (trades s)) \<and>
     distinct (map position_key (positions s)) \<and>
     ids s \<subseteq> e_uuid E ` {..<minted s} \<and>
     o_ref ` set (outcomes s) \<subseteq> ids s \<and> t_ref ` set (trades s) \<subseteq> ids s \<and>
     p_ref ` set (positions s) \<subseteq> ids s \<and>
     (\<forall>k ref. refCache s k = Some ref \<longrightarrow>
        (\<exists>m \<in> set (markets s). m_id m = ref \<and> k = refKey (m_address m) (m_marketId m)))"

definition owns :: "env \<Rightarrow> string \<Rightarrow> ep_state \<Rightarrow> bool" where
  "owns E ref s \<longleftrightarrow> coherent E s \<and> ref \<in> ids s"

text \<open>What coherence reads of the state.\<close>

definition skel :: "ep_state \<Rightarrow> _" where
  "skel s = (map (\<lambda>m. (m_id m, market_key m)) (markets s), map outcome_key (outcomes s),
     map (\<lambda>t. (t_ref t, trade_key t)) (trades s), map position_key (positions s), minted s, refCache s)"

lemma map_eq_of_pair:
  assumes "map (\<lambda>x. (f x, g x)) xs = map (\<lambda>x. (f x, g x)) ys"
  shows "map f xs = map f ys" "map g xs = map g ys"
proof -
  have "map fst (map (\<lambda>x. (f x, g x)) xs) = map fst (map (\<lambda>x. (f x, g x)) ys)"
    "map snd (map (\<lambda>x. (f x, g x)) xs) = map snd (map (\<lambda>x. (f x, g x)) ys)" using assms by simp_all
  then show "map f xs = map f ys" "map g xs = map g ys" by (simp_all add: comp_def)
qed

lemma coherent_skel:
  assumes "skel t = skel s" "coherent E s"
  shows "coherent E t \<and> ids t = ids s"
proof -
  have m: "map m_id (markets t) = map m_id (markets s)" "map market_key (markets t) = map market_key (markets s)"
    and pairs: "map (\<lambda>m. (m_id m, market_key m)) (markets t) = map (\<lambda>m. (m_id m, market_key m)) (markets s)"
    using assms(1) map_eq_of_pair [of m_id market_key "markets t" "markets s"] by (auto simp: skel_def)
  have o: "map outcome_key (outcomes t) = map outcome_key (outcomes s)"
    and p: "map position_key (positions t) = map position_key (positions s)"
    and rest: "minted t = minted s" "refCache t = refCache s"
    using assms(1) by (auto simp: skel_def)
  have t: "map t_ref (trades t) = map t_ref (trades s)" "map trade_key (trades t) = map trade_key (trades s)"
    using assms(1) map_eq_of_pair [of t_ref trade_key "trades t" "trades s"] by (auto simp: skel_def)
  have ids: "ids t = ids s" using m(1) by (metis set_map)
  have orefs: "o_ref ` set xs = fst ` set (map outcome_key xs)" for xs
    by (force simp: outcome_key_def)
  have prefs: "p_ref ` set xs = fst ` set (map position_key xs)" for xs
    by (force simp: position_key_def)
  have trefs: "t_ref ` set (trades t) = t_ref ` set (trades s)" using t(1) by (metis set_map)
  have keyed: "(\<exists>m \<in> set xs. m_id m = ref \<and> k = refKey (m_address m) (m_marketId m)) \<longleftrightarrow>
      (\<exists>x \<in> set (map (\<lambda>m. (m_id m, market_key m)) xs). fst x = ref \<and> k = refKey (fst (snd x)) (snd (snd x)))" for xs ref k
    by (auto simp: market_key_def)
  show ?thesis
    using assms(2) unfolding coherent_def orefs prefs keyed trefs ids m o p t pairs rest by simp
qed

lemma coherent_frame: "steps (\<lambda>s t. skel t = skel s) m \<Longrightarrow> keeps (coherent E) m"
  using coherent_skel by (blast intro: keeps_frame)

lemma owns_frame: "steps (\<lambda>s t. skel t = skel s) m \<Longrightarrow> keeps (owns E ref) m"
  unfolding owns_def by (erule keeps_frame) (use coherent_skel in blast)

section \<open>Steps that keep the keys\<close>

lemma skel_tables:
  "steps (\<lambda>s t. skel t = skel s) (cache_del k)" "steps (\<lambda>s t. skel t = skel s) (invalidate ref)"
  "steps (\<lambda>s t. skel t = skel s) (publish ch ev d x)" "steps (\<lambda>s t. skel t = skel s) (publishMarket ref ev d)"
  "steps (\<lambda>s t. skel t = skel s) (upsertCategory c)" "steps (\<lambda>s t. skel t = skel s) (touch ref)"
  "steps (\<lambda>s t. skel t = skel s) (recordPoint ref i p v ts)" "steps (\<lambda>s t. skel t = skel s) (adoptDraft h ref dr)"
  "steps (\<lambda>s t. skel t = skel s) (publishTrade ref l sd i a)"
  by (simp_all add: steps_def skel_def helper_defs touch_def recordPoint_def adoptDraft_def publishTrade_def
      Let_def whenp_def)

lemma skel_updateMarket:
  assumes "\<And>m. m_id (f m) = m_id m \<and> market_key (f m) = market_key m"
  shows "steps (\<lambda>s t. skel t = skel s) (updateMarket ref f)"
  using assms by (auto simp: steps_def updateMarket_def skel_def tupdate_def split: option.splits)

lemma skel_updateOutcome:
  assumes "\<And>r. outcome_key (f r) = outcome_key r"
  shows "steps (\<lambda>s t. skel t = skel s) (updateOutcome ref i f)"
  using assms by (auto simp: steps_def updateOutcome_def skel_def tupdate_def split: option.splits)

lemma skel_positions:
  assumes "\<And>p. position_key (f p) = position_key p"
  shows "steps (\<lambda>s t. skel t = skel s) (modp (\<lambda>s. s\<lparr>positions := tmany P f (positions s)\<rparr>))"
  using assms by (auto simp: steps_def skel_def tmany_def)

lemma skel_resolver: "steps (\<lambda>s t. skel t = skel s) (applyResolver l ev)"
  by (rule stepsI, drule stepsD [OF resolver_applyResolver]) (simp add: resolver_frame_def market_frame_def skel_def)

lemma skel_blocklist: "steps (\<lambda>s t. skel t = skel s) (applyBlocklist l ev)"
  by (rule stepsI, drule stepsD [OF blocklist_applyBlocklist]) (simp add: blocklist_frame_def market_frame_def skel_def)

lemma skel_writeCopy: "steps (\<lambda>s t. skel t = skel s) (writeCopy ref md)"
proof -
  have "steps (\<lambda>s t. skel t = skel s) (updateMarket ref (\<lambda>m. m\<lparr>m_title := md_title md,
      m_description := md_description md, m_rules := md_rules md, m_imageUrl := md_imageUrl md,
      m_categoryKey := md_categoryKey md\<rparr>))"
    by (rule skel_updateMarket) (simp add: market_key_def)
  then show ?thesis by (auto simp: steps_def writeCopy_def)
qed

lemma skel_writeLabels: "steps (\<lambda>s t. skel t = skel s) (writeLabels ref labels)"
  unfolding writeLabels_def
  by (rule frame_order.steps_allp) (auto intro!: skel_updateOutcome simp: outcome_key_def)

lemma skel_refreshPrices: "steps (\<lambda>s t. skel t = skel s) (refreshPrices E logs ref)"
  unfolding refreshPrices_def applyPrices_def
  by (intro frame_order.steps_intros skel_tables)
    (auto intro!: skel_updateOutcome skel_tables simp: outcome_key_def)

section \<open>Trades and creations\<close>

lemma owns_insertTrade: "keeps (owns E ref) (insertTrade l ref acc sd i sh am sp pr)"
proof (rule stepsI, rule impI)
  fix s r t
  let ?row = "trade_row l ref acc sd i sh am sp pr"
  assume run: "insertTrade l ref acc sd i sh am sp pr s = (r, t)" and I: "owns E ref s"
  have t: "t = s\<lparr>trades := tupsert trade_key (n_tx l, n_logIndex l) ?row id (trades s)\<rparr>"
    using run by (simp add: insertTrade_def)
  have "distinct (map trade_key (trades t))"
    using I t distinct_tupsert [where key = trade_key and c = ?row and f = id] by (simp add: owns_def coherent_def)
  moreover have "t_ref ` set (trades t) \<subseteq> ids s"
    using I t by (auto simp: owns_def coherent_def trade_row_def dest!: set_tupsert)
  ultimately show "owns E ref t" using I t by (simp add: owns_def coherent_def)
qed

lemma owns_set_positions:
  assumes "\<And>ps. distinct (map position_key ps) \<Longrightarrow> distinct (map position_key (f ps))"
    and "\<And>ps. p_ref ` set (f ps) \<subseteq> insert ref (p_ref ` set ps)"
  shows "keeps (owns E ref) (modp (\<lambda>s. s\<lparr>positions := f (positions s)\<rparr>))"
proof (rule stepsI, rule impI)
  fix s r t
  assume run: "modp (\<lambda>s. s\<lparr>positions := f (positions s)\<rparr>) s = (r, t)" and I: "owns E ref s"
  have "p_ref ` set (positions s) \<subseteq> ids s" "ref \<in> ids s" using I by (simp_all add: owns_def coherent_def)
  then have "p_ref ` set (f (positions s)) \<subseteq> ids s" using assms(2) [of "positions s"] by blast
  moreover have "distinct (map position_key (f (positions s)))"
    using I assms(1) by (simp add: owns_def coherent_def)
  moreover have "t = s\<lparr>positions := f (positions s)\<rparr>" using run by simp
  ultimately show "owns E ref t" using I by (simp add: owns_def coherent_def)
qed

lemma owns_buyPosition: "keeps (owns E ref) (buyPosition (ref, acc, i) sh am)"
  unfolding buyPosition_def
proof (rule owns_set_positions)
  show "distinct (map position_key (add_position (ref, acc, i) sh am ps))" if "distinct (map position_key ps)" for ps
    unfolding add_position_def using that by (intro distinct_tupsert) (simp_all add: position_key_def position_row_def)
  show "p_ref ` set (add_position (ref, acc, i) sh am ps) \<subseteq> insert ref (p_ref ` set ps)" for ps
    by (auto simp: add_position_def position_row_def dest!: set_tupsert)
qed

lemma owns_sellPosition: "keeps (owns E ref) (sellPosition (ref, acc, i) os oc sh am)"
  unfolding sellPosition_def
proof (rule owns_set_positions)
  show "distinct (map position_key (reduce_position (ref, acc, i) os oc sh am ps))"
    if "distinct (map position_key ps)" for ps
    unfolding reduce_position_def Let_def
    using that by (intro distinct_tupsert) (simp_all add: position_key_def position_row_def)
  show "p_ref ` set (reduce_position (ref, acc, i) os oc sh am ps) \<subseteq> insert ref (p_ref ` set ps)" for ps
    by (auto simp: reduce_position_def Let_def position_row_def dest!: set_tupsert)
qed

lemma owns_updatePosition: "keeps (owns E ref) (updatePosition ref acc i sd sh am)"
  unfolding updatePosition_def Let_def
  by (intro keeps_order.steps_bindp keeps_order.steps_gets keeps_order.steps_if owns_buyPosition)
    (auto intro!: owns_sellPosition keeps_order.steps_throw split: option.splits)

lemma owns_updates:
  "keeps (owns E ref) (updateMarket ref (\<lambda>m. m\<lparr>m_pot := g m\<rparr>))"
  "keeps (owns E ref) (updateOutcome ref i (\<lambda>r. r\<lparr>o_shares := h r\<rparr>))"
  by (auto intro!: owns_frame skel_updateMarket skel_updateOutcome simp: market_key_def outcome_key_def)

lemmas owns_parts = owns_updates owns_insertTrade owns_updatePosition skel_tables [THEN owns_frame]

text \<open>A handler that looks its market up and then works on it.\<close>

lemma marketRef_coherent:
  assumes "coherent E s" "marketRef a i s = (Inr r, t)"
  shows "coherent E t \<and> (case r of None \<Rightarrow> True | Some ref \<Rightarrow> ref \<in> ids t)"
proof -
  show ?thesis
  proof (cases "tfind market_key (lower a, i) (markets s)")
    case None
    then show ?thesis
      using assms by (force simp: marketRef_def Let_def coherent_def split: option.splits if_splits)
  next
    case (Some m)
    then have m: "m \<in> set (markets s)" "m_address m = lower a" "m_marketId m = i"
      using tfind_SomeD [OF Some] by (auto simp: market_key_def)
    have cached: "ref \<in> ids s" if "refCache s k = Some ref" for k ref
      using assms(1) that by (force simp: coherent_def)
    have new: "coherent E (s\<lparr>refCache := (refCache s)(refKey (lower a) i \<mapsto> m_id m)\<rparr>)"
      using assms(1) m by (auto simp: coherent_def)
    show ?thesis
      using assms(1,2) Some m(1) cached new
      by (auto simp: marketRef_def Let_def split: option.splits if_splits)
  qed
qed

lemma coherent_marketRef_bind:
  assumes "keeps (coherent E) (f None)" "\<And>ref. keeps (owns E ref) (f (Some ref))"
  shows "keeps (coherent E) (bindp (marketRef a i) f)"
proof (rule stepsI, rule impI)
  fix s r t
  assume run: "bindp (marketRef a i) f s = (r, t)" and I: "coherent E s"
  obtain o' u where u: "marketRef a i s = (Inr o', u)" using marketRef_run [of a i s] by auto
  then have c: "coherent E u" "case o' of None \<Rightarrow> True | Some ref \<Rightarrow> ref \<in> ids u"
    using marketRef_coherent [OF I u] by auto
  show "coherent E t"
  proof (cases o')
    case None
    then show ?thesis using run u c stepsD [OF assms(1)] by auto
  next
    case (Some ref)
    then have "owns E ref u" using c by (simp add: owns_def)
    then show ?thesis using run u Some stepsD [OF assms(2) [of ref]] by (auto simp: owns_def)
  qed
qed

lemma coherent_onTrade: "keeps (coherent E) (onTrade l sd a)"
  unfolding onTrade_def Let_def seqs.simps
  by (rule coherent_marketRef_bind) (simp_all only: option.case, (intro keeps_order.steps_intros owns_parts)+)

lemma coherent_onShort: "keeps (coherent E) (onShort l a)"
  unfolding onShort_def Let_def seqs.simps shortLeg_def
  by (rule coherent_marketRef_bind) (simp_all only: option.case, (intro keeps_order.steps_intros owns_parts)+)

lemma coherent_payouts:
  "keeps (coherent E) (onResolved l i w owed surplus)" "keeps (coherent E) (onInvalidated l i surplus)"
  "keeps (coherent E) (onRedeem l i acc am)" "keeps (coherent E) (onSeedRedeemed l i am)"
proof -
  have status: "keeps (owns E ref) (updateMarket ref f)"
    if "\<And>m. m_id (f m) = m_id m \<and> market_key (f m) = market_key m" for ref f
    using that by (intro owns_frame skel_updateMarket)
  have redeemed: "keeps (owns E ref) (modp (\<lambda>s. s\<lparr>positions := tmany P
      (\<lambda>p. p\<lparr>p_redeemed := True, p_pnl := p_pnl p + am\<rparr>) (positions s)\<rparr>))" for ref P
    by (intro owns_frame skel_positions) (simp add: position_key_def)
  show "keeps (coherent E) (onResolved l i w owed surplus)" "keeps (coherent E) (onInvalidated l i surplus)"
    unfolding onResolved_def onInvalidated_def seqs.simps
    by (rule coherent_marketRef_bind; simp only: option.case;
        intro keeps_order.steps_seqp keeps_order.steps_ret status owns_parts; simp add: market_key_def)+
  show "keeps (coherent E) (onRedeem l i acc am)"
    unfolding onRedeem_def seqs.simps
    by (rule coherent_marketRef_bind; simp only: option.case;
        intro keeps_order.steps_seqp keeps_order.steps_ret redeemed owns_parts)
  show "keeps (coherent E) (onSeedRedeemed l i am)"
    unfolding onSeedRedeemed_def seqs.simps
    by (rule coherent_marketRef_bind; simp only: option.case;
        intro keeps_order.steps_if keeps_order.steps_seqp keeps_order.steps_ret owns_parts)
qed

lemma coherent_onMetadataPublished: "keeps (coherent E) (onMetadataPublished E' l i h m)"
  unfolding onMetadataPublished_def
  by (rule coherent_marketRef_bind; simp only: option.case;
      intro keeps_order.steps_option keeps_order.steps_seqp keeps_order.steps_bindp keeps_order.steps_gets
        keeps_order.steps_ret keeps_order.steps_whenp owns_parts skel_writeCopy [THEN owns_frame]
        skel_writeLabels [THEN owns_frame])

text \<open>The \<open>uuid()\<close> default never repeats.\<close>

definition fresh_ids :: "env \<Rightarrow> bool" where
  "fresh_ids E \<longleftrightarrow> inj (e_uuid E)"

lemma outcome_keys_for: "map outcome_key (outcome_rows_for ref labels p sd n) = map (\<lambda>i. (ref, int i)) [0..<nat n]"
  by (simp add: outcome_rows_for_def outcome_key_def)

lemma new_id:
  assumes "fresh_ids E" "coherent E s"
  shows "e_uuid E (minted s) \<notin> ids s"
proof
  assume "e_uuid E (minted s) \<in> ids s"
  moreover have "ids s \<subseteq> e_uuid E ` {..<minted s}" using assms(2) by (simp add: coherent_def)
  ultimately obtain n where "n < minted s" "e_uuid E n = e_uuid E (minted s)" by auto
  with assms(1) show False by (auto simp: fresh_ids_def dest: injD)
qed

lemma coherent_upsertMarket:
  assumes fresh: "fresh_ids E" and I: "coherent E s" and run: "upsertMarket E l a price c d s = (Inr ref, t)"
  shows "coherent E t \<and> (\<exists>m \<in> set (markets t). m_id m = ref \<and> m_address m = lower (n_address l) \<and> m_marketId m = a_marketId a)"
proof (cases "tfind market_key (lower (n_address l), a_marketId a) (markets s)")
  case (Some m)
  then have "t = s" "ref = m_id m" using run by (auto simp: upsertMarket_def split: option.splits)
  then show ?thesis using I tfind_SomeD [OF Some] by (auto simp: market_key_def)
next
  case None
  then obtain start close where ref: "ref = e_uuid E (minted s)"
    and t: "t = s\<lparr>markets := markets s @ [market_row ref l a start close c d],
      outcomes := outcomes s @ outcome_rows_for ref (case d of None \<Rightarrow> [] | Some r \<Rightarrow> d_labels r) price
        (a_seedPerOutcome a) (a_outcomeCount a), minted := minted s + 1\<rparr>"
    using run by (auto simp: upsertMarket_def Let_def split: option.splits)
  let ?m = "market_row ref l a start close c d"
  have row: "m_id ?m = ref" "market_key ?m = (lower (n_address l), a_marketId a)"
    by (simp_all add: market_row_def market_key_def)
  have new: "ref \<notin> ids s" using new_id [OF fresh I] ref by simp
  have key: "market_key ?m \<notin> market_key ` set (markets s)"
    using None row by (simp add: tfind_None_iff)
  have rows: "o_ref ` set (outcome_rows_for ref ls price sd n) \<subseteq> {ref}" for ls sd n
    by (auto simp: outcome_rows_for_def)
  have old: "o_ref ` set (outcomes s) \<subseteq> ids s" "distinct (map outcome_key (outcomes s))"
    using I by (simp_all add: coherent_def)
  have "fst ` set (map outcome_key (outcomes s)) \<subseteq> ids s" using old(1) by (auto simp: outcome_key_def)
  then have "(ref, j) \<notin> set (map outcome_key (outcomes s))" for j
    using new imageI [of "(ref, j)" "set (map outcome_key (outcomes s))" fst] by (simp only: fst_conv) blast
  moreover have "map outcome_key (outcomes t) =
      map outcome_key (outcomes s) @ map (\<lambda>i. (ref, int i)) [0..<nat (a_outcomeCount a)]"
    using t by (simp add: outcome_keys_for)
  moreover have "distinct (map (\<lambda>i. (ref, int i)) [0..<n])" for n
    by (simp add: distinct_map inj_on_def)
  ultimately have "distinct (map outcome_key (outcomes t))"
    using old(2) by (simp only: distinct_append) (auto simp only: set_map image_iff)
  moreover have ids: "ids t = insert ref (ids s)" using t row by simp
  moreover have "ids t \<subseteq> e_uuid E ` {..<minted t}"
  proof -
    have "ids s \<subseteq> e_uuid E ` {..<minted s}" using I by (simp add: coherent_def)
    moreover have "e_uuid E ` {..<minted s} \<subseteq> e_uuid E ` {..<minted t}" using t by (intro image_mono) simp
    moreover have "ref \<in> e_uuid E ` {..<minted t}" using ref t by simp
    ultimately show ?thesis using ids by blast
  qed
  moreover have "o_ref ` set (outcomes t) \<subseteq> insert ref (ids s)"
    using old(1) t rows [of "case d of None \<Rightarrow> [] | Some r \<Rightarrow> d_labels r" "a_seedPerOutcome a" "a_outcomeCount a"]
    by (simp add: image_Un) blast
  moreover have "distinct (map m_id (markets t))" "distinct (map market_key (markets t))"
    using I new key t row by (simp_all add: coherent_def)
  moreover have "t_ref ` set (trades t) \<subseteq> insert ref (ids s)" "p_ref ` set (positions t) \<subseteq> insert ref (ids s)"
    "distinct (map trade_key (trades t))" "one_row t"
    using I t by (simp_all add: coherent_def subset_insertI2)
  moreover have "\<forall>k r. refCache t k = Some r \<longrightarrow> (\<exists>m \<in> set (markets t). m_id m = r \<and> k = refKey (m_address m) (m_marketId m))"
    using I t by (fastforce simp: coherent_def)
  ultimately have "coherent E t" by (simp add: coherent_def)
  then show ?thesis using t row by (auto simp: market_row_def market_key_def)
qed

definition names :: "env \<Rightarrow> string \<Rightarrow> string \<times> int \<Rightarrow> ep_state \<Rightarrow> bool" where
  "names E ref k s \<longleftrightarrow> coherent E s \<and> (ref, k) \<in> set (map (\<lambda>m. (m_id m, market_key m)) (markets s))"

lemma names_frame: "steps (\<lambda>s t. skel t = skel s) m \<Longrightarrow> keeps (names E ref k) m"
  by (erule keeps_frame) (metis (no_types, lifting) coherent_skel names_def prod.inject skel_def)

lemma names_refCache:
  "keeps (names E ref (address, i)) (modp (\<lambda>s. s\<lparr>refCache := (refCache s)(refKey address i \<mapsto> ref)\<rparr>))"
  by (auto simp: steps_def names_def coherent_def market_key_def)

lemma coherent_upsert_bind:
  assumes "fresh_ids E" "\<And>ref. keeps (names E ref (lower (n_address l), a_marketId a)) (f ref)"
  shows "keeps (coherent E) (bindp (upsertMarket E l a price c d) f)"
proof (rule stepsI, rule impI)
  fix s r t
  assume run: "bindp (upsertMarket E l a price c d) f s = (r, t)" and I: "coherent E s"
  obtain x u where u: "upsertMarket E l a price c d s = (x, u)" by fastforce
  show "coherent E t"
  proof (cases x)
    case (Inl e)
    then have "u = s" using u by (auto simp: upsertMarket_def Let_def split: option.splits)
    with u Inl run I show ?thesis by simp
  next
    case (Inr ref)
    then have "coherent E u \<and> (\<exists>m \<in> set (markets u). m_id m = ref \<and>
        m_address m = lower (n_address l) \<and> m_marketId m = a_marketId a)"
      using coherent_upsertMarket [OF assms(1) I] u by simp
    then have "names E ref (lower (n_address l), a_marketId a) u"
      by (force simp: names_def market_key_def)
    moreover have "f ref u = (r, t)" using run u Inr by simp
    ultimately show ?thesis using stepsD [OF assms(2)] by (auto simp: names_def)
  qed
qed

lemma coherent_createMarket:
  assumes "fresh_ids E"
  shows "keeps (coherent E) (createMarket E l a)"
  unfolding createMarket_def Let_def
  by (intro keeps_order.steps_seqp keeps_order.steps_option keeps_order.steps_if keeps_order.steps_throw
      keeps_order.steps_ret keeps_order.steps_bindp [of _ "gets f" for f] keeps_order.steps_gets
      coherent_upsert_bind assms names_refCache skel_tables [THEN names_frame] skel_tables [THEN coherent_frame])

lemma coherent_applyLog:
  assumes "fresh_ids E"
  shows "keeps (coherent E) (applyLog E l)"
proof (cases "n_kind l")
  case LS_LMSR
  have "keeps (coherent E) (applyEngine E l (n_event l))"
    by (cases "n_event l"; simp only: applyEngine.simps)
      (intro keeps_order.steps_bindp keeps_order.steps_ret coherent_createMarket assms coherent_onTrade
        coherent_onShort coherent_payouts coherent_onMetadataPublished)+
  with LS_LMSR show ?thesis by (simp add: applyLog_def)
next
  case OPTIMISTIC_RESOLVER
  then show ?thesis using coherent_frame [OF skel_resolver] by (simp add: applyLog_def)
next
  case TRADING_BLOCKLIST
  then show ?thesis using coherent_frame [OF skel_blocklist] by (simp add: applyLog_def)
qed

lemma coherent_processBatch:
  assumes "fresh_ids E"
  shows "keeps (coherent E) (processBatch E logs)"
  unfolding processBatch_def
  by (intro keeps_order.steps_seqp keeps_order.steps_bindp keeps_order.steps_gets keeps_order.steps_forp
      coherent_applyLog assms skel_refreshPrices [THEN coherent_frame] keeps_order.steps_modp)
    (simp add: coherent_def)

end
