(* ===== verification/Supply.thy ===== *)
theory Supply
  imports Integrity
begin

text \<open>
  Shares outstanding over whole batches: from an empty database on, whatever the logs and wherever
  a batch breaks off, the recorded supply of an outcome never exceeds the market's seed plus the
  shares held in positions.
\<close>

section \<open>Handlers other than creation\<close>

definition seeds :: "ep_state \<Rightarrow> (string \<times> int) list" where
  "seeds s = map (\<lambda>m. (m_id m, m_seed m)) (markets s)"

definition supply_le :: "ep_state \<Rightarrow> ep_state \<Rightarrow> bool" where
  "supply_le s t \<longleftrightarrow> gap_le s t \<and> seeds t = seeds s"

interpretation supply_steps: step_order supply_le
  by unfold_locales (auto simp: supply_le_def gap_le_steps.R_refl intro: gap_le_steps.R_trans)

lemma supplyI: "steps gap_le m \<Longrightarrow> steps (\<lambda>s t. seeds t = seeds s) m \<Longrightarrow> steps supply_le m"
  by (simp add: steps_def supply_le_def)

lemma supply_same:
  "positions t = positions s \<Longrightarrow> outcomes t = outcomes s \<Longrightarrow> markets t = markets s \<Longrightarrow> supply_le s t"
  using gap_eqI [of t s] by (simp add: supply_le_def seeds_def gap_eq_def gap_le_def)

lemma supply_marketRef: "steps supply_le (marketRef a i)"
  by (rule stepsI, drule marketRef_db) (simp add: supply_same)

lemma supply_tables:
  "steps supply_le (cache_del k)" "steps supply_le (invalidate ref)" "steps supply_le (publish ch ev d x)"
  "steps supply_le (publishMarket ref ev d)" "steps supply_le (upsertCategory c)" "steps supply_le (touch ref)"
  "steps supply_le (recordPoint ref i p v ts)" "steps supply_le (adoptDraft h ref dr)"
  "steps supply_le (publishTrade ref l sd i a)" "steps supply_le (insertTrade l ref acc sd i sh am sp pr)"
  by (simp_all add: steps_def helper_defs touch_def recordPoint_def adoptDraft_def publishTrade_def
      insertTrade_def Let_def whenp_def supply_same)

lemma supply_updateMarket:
  assumes "\<And>m. m_id (f m) = m_id m \<and> m_seed (f m) = m_seed m"
  shows "steps supply_le (updateMarket ref f)"
proof (rule supplyI)
  show "steps gap_le (updateMarket ref f)" using gap_eq_updateMarket by (rule gap_eq_le)
  show "steps (\<lambda>s t. seeds t = seeds s) (updateMarket ref f)"
    using assms by (auto simp: steps_def updateMarket_def seeds_def tupdate_def split: option.splits)
qed

lemma supply_updateOutcome:
  assumes "\<And>r. outcome_key (f r) = outcome_key r \<and> o_shares (f r) = o_shares r"
  shows "steps supply_le (updateOutcome ref i f)"
proof (rule stepsI)
  fix s r t
  assume run: "updateOutcome ref i f s = (r, t)"
  have "tfind outcome_key k (tupdate outcome_key (ref, i) f (outcomes s)) =
      (if k = (ref, i) then map_option f (tfind outcome_key k (outcomes s)) else tfind outcome_key k (outcomes s))" for k
    using outcome_rows.lookup_update [of "(ref, i)" f k "outcomes s"] assms by auto
  then have "out_shares t ref' j = out_shares s ref' j" for ref' j
    using run assms
    by (cases "ref' = ref \<and> j = i") (auto simp: updateOutcome_def out_shares_def option.case_eq_if split: if_splits)
  moreover have "positions t = positions s" "markets t = markets s"
    using run by (auto simp: updateOutcome_def split: option.splits)
  ultimately show "supply_le s t" by (simp add: supply_le_def seeds_def gap_le_def gap_def held_def)
qed

lemma supply_redeemed:
  assumes "\<And>p. position_key (f p) = position_key p \<and> p_shares (f p) = p_shares p"
  shows "steps supply_le (modp (\<lambda>s. s\<lparr>positions := tmany P f (positions s)\<rparr>))"
proof (rule stepsI)
  fix s t :: ep_state and r :: "'b + unit"
  assume "modp (\<lambda>s. s\<lparr>positions := tmany P f (positions s)\<rparr>) s = (r, t)"
  then have t: "t = s\<lparr>positions := tmany P f (positions s)\<rparr>" by simp
  have "p_ref (f p) = p_ref p \<and> p_outcome (f p) = p_outcome p" for p
    using assms [of p] by (simp add: position_key_def)
  then have "held t ref j = held s ref j" for ref j
    using assms t unfolding held_def tmany_def by (simp add: comp_def if_distrib cong: if_cong)
  moreover have "map position_key (positions t) = map position_key (positions s)"
    using assms t by (simp add: keys_tmany)
  ultimately show "supply_le s t"
    using t by (simp add: supply_le_def seeds_def gap_le_def gap_def out_shares_def)
qed

lemma seeds_primitives:
  "steps (\<lambda>s t. seeds t = seeds s) (marketRef a i)"
  "steps (\<lambda>s t. seeds t = seeds s) (updateMarket ref (\<lambda>m. m\<lparr>m_pot := g m\<rparr>))"
  "steps (\<lambda>s t. seeds t = seeds s) (updateOutcome ref j f)"
  "steps (\<lambda>s t. seeds t = seeds s) (insertTrade l ref acc sd j sh am sp pr)"
  "steps (\<lambda>s t. seeds t = seeds s) (sellPosition k os oc sh am)"
  "steps (\<lambda>s t. seeds t = seeds s) (buyPosition k sh am)"
  "steps (\<lambda>s t. seeds t = seeds s) (touch ref)"
  "steps (\<lambda>s t. seeds t = seeds s) (publishTrade ref l sd j b)"
proof -
  show "steps (\<lambda>s t. seeds t = seeds s) (marketRef a i)"
    by (rule stepsI, drule marketRef_db) (simp add: seeds_def)
  show "steps (\<lambda>s t. seeds t = seeds s) (updateMarket ref (\<lambda>m. m\<lparr>m_pot := g m\<rparr>))"
    by (auto simp: steps_def updateMarket_def seeds_def tupdate_def split: option.splits)
qed (simp_all add: steps_def seeds_def updateOutcome_def insertTrade_def sellPosition_def buyPosition_def touch_def
    publishTrade_def publishMarket_def publish_def split: option.splits)

lemma seeds_updatePosition: "steps (\<lambda>s t. seeds t = seeds s) (updatePosition ref acc i sd sh am)"
  unfolding updatePosition_def Let_def
  by (intro frame_order.steps_bindp frame_order.steps_gets frame_order.steps_if seeds_primitives)
    (auto intro!: seeds_primitives frame_order.steps_throw split: option.splits)

lemma supply_onTrade:
  assumes "0 \<le> x_shares a" "sd \<noteq> SHORT"
  shows "steps supply_le (onTrade l sd a)"
proof (rule supplyI)
  show "steps gap_le (onTrade l sd a)"
  proof (cases "sd = SELL")
    case True
    then show ?thesis using gap_onTrade_sell [OF assms(1)] by simp
  next
    case False
    then have "sd = BUY" using assms(2) by (cases sd) auto
    then show ?thesis using gap_eq_le [OF gap_onTrade_buy] by simp
  qed
  show "steps (\<lambda>s t. seeds t = seeds s) (onTrade l sd a)"
    unfolding onTrade_def Let_def seqs.simps
    by (intro frame_order.steps_intros seeds_primitives seeds_updatePosition)
qed

lemma supply_onShort: "steps supply_le (onShort l a)"
proof (rule supplyI)
  show "steps gap_le (onShort l a)" using gap_onShort by (rule gap_eq_le)
  show "steps (\<lambda>s t. seeds t = seeds s) (onShort l a)"
    unfolding onShort_def shortLeg_def Let_def seqs.simps
    by (intro frame_order.steps_intros seeds_primitives seeds_updatePosition)
qed

lemma supply_payouts:
  "steps supply_le (onResolved l i w owed surplus)" "steps supply_le (onInvalidated l i surplus)"
  "steps supply_le (onRedeem l i acc am)" "steps supply_le (onSeedRedeemed l i am)"
  unfolding onResolved_def onInvalidated_def onRedeem_def onSeedRedeemed_def seqs.simps
  by (intro supply_steps.steps_bindp supply_marketRef supply_steps.steps_option supply_steps.steps_ret
      supply_steps.steps_if supply_steps.steps_seqp supply_redeemed supply_updateMarket supply_tables;
      simp add: position_key_def)+

lemma supply_onMetadataPublished: "steps supply_le (onMetadataPublished E l i h m)"
proof -
  have copy: "steps supply_le (writeCopy ref md)" for ref md
    unfolding writeCopy_def steps_def
    using supply_updateMarket [of "\<lambda>m. m\<lparr>m_title := md_title md, m_description := md_description md,
        m_rules := md_rules md, m_imageUrl := md_imageUrl md, m_categoryKey := md_categoryKey md\<rparr>" ref]
    by (simp add: steps_def supply_steps.R_refl)
  have labels: "steps supply_le (writeLabels ref ls)" for ref ls
    unfolding writeLabels_def
    by (rule supply_steps.steps_allp) (auto intro!: supply_updateOutcome simp: outcome_key_def)
  show ?thesis
    unfolding onMetadataPublished_def
    by (intro supply_steps.steps_bindp supply_marketRef supply_steps.steps_option supply_steps.steps_ret
        supply_steps.steps_seqp supply_steps.steps_whenp supply_steps.steps_gets copy labels supply_tables)
qed

lemma supply_market_frame: "market_frame s t \<Longrightarrow> supply_le s t"
  by (simp add: market_frame_def supply_same)

lemma supply_other_streams:
  "steps supply_le (applyResolver l ev)" "steps supply_le (applyBlocklist l ev)"
  using resolver_applyResolver [of l ev] blocklist_applyBlocklist [of l ev] supply_market_frame
  by (auto simp: steps_def resolver_frame_def blocklist_frame_def)

lemma supply_refreshPrices: "steps supply_le (refreshPrices E logs ref)"
  unfolding refreshPrices_def applyPrices_def
  by (intro supply_steps.steps_intros supply_tables)
    (auto intro!: supply_updateOutcome supply_tables simp: outcome_key_def)

section \<open>Creation and batches\<close>

definition backed :: "ep_state \<Rightarrow> bool" where
  "backed s \<longleftrightarrow> (\<forall>m \<in> set (markets s). \<forall>i. gap s (m_id m) i \<le> m_seed m)"

lemma backed_supply:
  assumes "supply_le s t" "coherent E s" "backed s"
  shows "backed t"
proof -
  have gap: "gap t ref i \<le> gap s ref i" for ref i
    using assms(1,2) by (simp add: supply_le_def gap_le_def coherent_def)
  have "gap t (m_id m) i \<le> m_seed m" if "m \<in> set (markets t)" for m i
  proof -
    have "(m_id m, m_seed m) \<in> set (seeds t)" using that by (auto simp: seeds_def)
    then have "(m_id m, m_seed m) \<in> set (seeds s)" using assms(1) by (simp add: supply_le_def)
    then obtain m' where "m' \<in> set (markets s)" "m_id m' = m_id m" "m_seed m' = m_seed m"
      by (auto simp: seeds_def)
    then have "gap s (m_id m) i \<le> m_seed m" using assms(3) by (fastforce simp: backed_def)
    with gap show ?thesis using order_trans by blast
  qed
  then show ?thesis by (simp add: backed_def)
qed

lemma backed_steps: "steps supply_le m \<Longrightarrow> keeps (coherent E) m \<Longrightarrow> keeps (\<lambda>s. coherent E s \<and> backed s) m"
  using backed_supply by (simp add: steps_def) blast

lemma tfind_outcome_rows:
  "tfind outcome_key (ref, i) (outcome_rows_for ref ls p sd n) = Some r \<Longrightarrow> o_shares r = sd"
  by (auto simp: outcome_rows_for_def dest!: tfind_SomeD)

lemma backed_upsertMarket:
  assumes fresh: "fresh_ids E" and I: "coherent E s" "backed s" and seed: "0 \<le> a_seedPerOutcome a"
    and run: "upsertMarket E l a price c d s = (r, t)"
  shows "backed t"
proof (cases "markets t = markets s")
  case True
  then have "t = s" using run by (auto simp: upsertMarket_def Let_def split: option.splits)
  with I show ?thesis by simp
next
  case False
  then obtain start close ls where t: "t = s\<lparr>markets := markets s @ [market_row (e_uuid E (minted s)) l a start close c d],
      outcomes := outcomes s @ outcome_rows_for (e_uuid E (minted s)) ls price
        (a_seedPerOutcome a) (a_outcomeCount a), minted := minted s + 1\<rparr>"
    using run by (auto simp: upsertMarket_def Let_def split: option.splits)
  let ?ref = "e_uuid E (minted s)"
  have new: "?ref \<notin> ids s" using new_id [OF fresh I(1)] .
  have refs: "o_ref ` set (outcomes s) \<subseteq> ids s" "p_ref ` set (positions s) \<subseteq> ids s"
    using I(1) by (simp_all add: coherent_def)
  have held: "held t ref i = held s ref i" for ref i using t by (simp add: held_def)
  have none: "held s ?ref i = 0" for i
  proof -
    have "p_ref p \<noteq> ?ref" if "p \<in> set (positions s)" for p
      using new subsetD [OF refs(2) imageI [OF that]] by auto
    then have "held s ?ref i = sum_list (map (\<lambda>_. 0) (positions s))"
      unfolding held_def by (intro sum_list_map_cong) auto
    then show ?thesis by simp
  qed
  have noout: "tfind outcome_key (?ref, i) (outcomes s) = None" for i
    using new refs(1) by (auto simp: tfind_None_iff outcome_key_def)
  have fresh_out: "out_shares t ?ref i \<le> a_seedPerOutcome a" for i
    using t noout seed
    by (auto simp: out_shares_def tfind_append dest!: tfind_outcome_rows split: option.splits)
  have old_out: "out_shares t ref i = out_shares s ref i" if "ref \<noteq> ?ref" for ref i
  proof -
    have "tfind outcome_key (ref, i) (outcome_rows_for ?ref ls price sd n) = None" for sd n
      using that by (auto simp: tfind_None_iff outcome_rows_for_def outcome_key_def)
    then show ?thesis using t by (simp add: out_shares_def tfind_append split: option.splits)
  qed
  have "gap t (m_id m) i \<le> m_seed m" if "m \<in> set (markets t)" for m i
  proof (cases "m \<in> set (markets s)")
    case True
    then have "m_id m \<noteq> ?ref" using new imageI [OF True, of m_id] by metis
    then have "gap t (m_id m) i = gap s (m_id m) i" by (simp add: gap_def held old_out)
    with True I(2) show ?thesis by (simp add: backed_def)
  next
    case False
    then have "m_id m = ?ref" "m_seed m = a_seedPerOutcome a" using that t by (auto simp: market_row_def)
    then show ?thesis using fresh_out none by (simp add: gap_def held)
  qed
  then show ?thesis by (simp add: backed_def)
qed

text \<open>The amounts of a decoded log are unsigned.\<close>

fun unsigned :: "event \<Rightarrow> bool" where
  "unsigned (MarketCreated a) \<longleftrightarrow> 0 \<le> a_seedPerOutcome a"
| "unsigned (Bought a) \<longleftrightarrow> 0 \<le> x_shares a"
| "unsigned (Sold a) \<longleftrightarrow> 0 \<le> x_shares a"
| "unsigned _ \<longleftrightarrow> True"

lemma backed_createMarket:
  assumes "fresh_ids E" "0 \<le> a_seedPerOutcome a"
  shows "keeps (\<lambda>s. coherent E s \<and> backed s) (createMarket E l a)"
proof -
  let ?I = "\<lambda>s. coherent E s \<and> backed s"
  have upsert: "keeps ?I (bindp (upsertMarket E l a price c d) f)"
    if f: "\<And>ref. keeps (names E ref (lower (n_address l), a_marketId a)) (f ref)" "\<And>ref. steps supply_le (f ref)"
    for price c d f
  proof (rule stepsI, rule impI)
    fix s r t
    assume run: "bindp (upsertMarket E l a price c d) f s = (r, t)" and I: "?I s"
    have "coherent E t" using stepsD [OF coherent_upsert_bind [OF assms(1) f(1)] run] I by simp
    obtain x u where u: "upsertMarket E l a price c d s = (x, u)" by fastforce
    have "backed u" using backed_upsertMarket [OF assms(1) _ _ assms(2) u] I by simp
    show "?I t"
    proof (cases x)
      case (Inl e)
      then show ?thesis using run u \<open>coherent E t\<close> \<open>backed u\<close> by simp
    next
      case (Inr ref)
      then have "coherent E u" using coherent_upsertMarket [OF assms(1)] I u by blast
      moreover have "supply_le u t" using run u Inr stepsD [OF f(2)] by auto
      ultimately show ?thesis using backed_supply \<open>backed u\<close> \<open>coherent E t\<close> by blast
    qed
  qed
  have frame: "keeps ?I m" if "steps (\<lambda>s t. skel t = skel s) m" "steps supply_le m" for m :: "unit ep"
    using backed_steps [OF that(2) coherent_frame [OF that(1)]] .
  have refs: "steps supply_le (modp (\<lambda>s. s\<lparr>refCache := h s\<rparr>))" for h
    by (simp add: steps_def supply_same)
  show ?thesis
    unfolding createMarket_def Let_def
    by (intro keeps_order.steps_seqp keeps_order.steps_option
        keeps_order.steps_if keeps_order.steps_throw keeps_order.steps_ret
        keeps_order.steps_bindp [of _ "gets g" for g] keeps_order.steps_gets
        frame skel_tables supply_tables upsert names_refCache skel_tables [THEN names_frame]
        supply_steps.steps_seqp supply_steps.steps_ret refs)
qed

lemma backed_applyLog:
  assumes "fresh_ids E" "unsigned (n_event l)"
  shows "keeps (\<lambda>s. coherent E s \<and> backed s) (applyLog E l)"
proof -
  have engine: "keeps (\<lambda>s. coherent E s \<and> backed s) (applyEngine E l ev)" if "unsigned ev" for ev
    using that
    by (cases ev; simp only: applyEngine.simps unsigned.simps;
        intro keeps_order.steps_bindp keeps_order.steps_ret backed_createMarket assms(1) backed_steps
          coherent_onTrade coherent_onShort coherent_payouts coherent_onMetadataPublished
          supply_onTrade supply_onShort supply_payouts supply_onMetadataPublished; simp)
  show ?thesis
    using engine [OF assms(2)] backed_steps [OF supply_other_streams(1) coherent_frame [OF skel_resolver]]
      backed_steps [OF supply_other_streams(2) coherent_frame [OF skel_blocklist]]
    by (cases "n_kind l") (simp_all add: applyLog_def)
qed

text \<open>C13. Every batch keeps the tables coherent, whether it runs to its end or breaks off at a log
  that rejects: rows stay unique under their keys, outcomes, trades and positions belong to an
  indexed market, and the processor's market cache answers with the market of that engine and id.\<close>

theorem batches_keep_coherence:
  assumes "fresh_ids E" "coherent E s"
  shows "coherent E (snd (processBatch E logs s))"
  using coherent_processBatch [OF assms(1)] assms(2) by (rule keepsD)

text \<open>C3. The supply is backed after every batch of logs with unsigned amounts: for each outcome of
  each market, the recorded shares outstanding are at most the seed plus the shares held, wherever a
  batch breaks off.\<close>

theorem batches_keep_supply_backed:
  assumes "fresh_ids E" "\<forall>l \<in> set logs. unsigned (n_event l)" "coherent E s" "backed s"
  shows "\<forall>m \<in> set (markets (snd (processBatch E logs s))). \<forall>i.
    out_shares (snd (processBatch E logs s)) (m_id m) i \<le>
      m_seed m + held (snd (processBatch E logs s)) (m_id m) i"
proof -
  let ?I = "\<lambda>s. coherent E s \<and> backed s"
  have "keeps ?I (processBatch E logs)"
    unfolding processBatch_def
    by (intro keeps_order.steps_seqp keeps_order.steps_bindp keeps_order.steps_gets keeps_order.steps_forp
        keeps_order.steps_modp backed_applyLog assms(1) assms(2) [rule_format]
        backed_steps [OF supply_refreshPrices coherent_frame [OF skel_refreshPrices]])
      (auto simp: coherent_def backed_def gap_def held_def out_shares_def)
  then have "backed (snd (processBatch E logs s))" using assms(3,4) keepsD [of ?I] by blast
  then show ?thesis by (simp add: backed_def gap_def diff_le_eq)
qed

section \<open>An empty database\<close>

definition empty_state :: ep_state where
  "empty_state = \<lparr>markets = [], outcomes = [], trades = [], positions = [], pricePoints = [], drafts = [],
     categories = [], proposals = [], bans = [], poolLeaves = [], cursors = [],
     minted = 0, refCache = Map.empty, cache = Map.empty, published = [], touched = [], clock = 0\<rparr>"

lemma empty_state_ok: "coherent E empty_state" "backed empty_state"
  by (simp_all add: empty_state_def coherent_def backed_def)

lemma fresh_sample_env: "fresh_ids sample_env"
  by (auto simp: fresh_ids_def sample_env_def inj_def)

definition sample_created :: created_args where
  "sample_created = \<lparr>a_marketId = 7, a_collateral = ''0xdd'', a_creator = ''0xcc'', a_resolver = ''0xee'',
     a_outcomeCount = 2, a_startTime = 0, a_closeTime = 1000, a_alpha = 1, a_sStar = 1,
     a_seedPerOutcome = 100, a_seedCost = 200, a_category = [], a_metadataHash = ''0xff''\<rparr>"

lemma batches_keep_coherence_witness:
  "coherent sample_env (snd (processBatch sample_env
     [sample_log (MarketCreated sample_created), sample_log (Bought (sample_trade 1 10 4))] empty_state))"
  by (rule batches_keep_coherence [OF fresh_sample_env empty_state_ok(1)])

lemma batches_keep_supply_backed_witness:
  "\<exists>t. t = snd (processBatch sample_env
       [sample_log (MarketCreated sample_created), sample_log (Sold (sample_trade 1 10 4))] empty_state) \<and>
     list_all (\<lambda>m. \<forall>i. out_shares t (m_id m) i \<le> m_seed m + held t (m_id m) i) (markets t)"
  unfolding list_all_iff
  by (rule exI, rule conjI [OF refl], rule batches_keep_supply_backed [OF fresh_sample_env _ empty_state_ok])
    (simp add: sample_log_def sample_created_def sample_trade_def)

end
