(* ===== verification/CreationProps.thy ===== *)
theory CreationProps
  imports Supply
begin

text \<open>
  What the creation and the metadata logs establish: a new market is complete with its outcomes,
  opening prices and adopted draft; a replay of either changes nothing; and the two inputs that make
  the batch stop for good.
\<close>

definition category_of :: "env \<Rightarrow> created_args \<Rightarrow> string option" where
  "category_of E a = (if bytes32ToString E (a_category a) = [] then None else Some (bytes32ToString E (a_category a)))"

lemma createMarket_unfold:
  "createMarket E l a =
     seqp (case category_of E a of None \<Rightarrow> ret () | Some k \<Rightarrow> upsertCategory k)
       (if a_outcomeCount a = 0 then throw RangeError
        else bindp (gets (\<lambda>s. tfind d_hash (a_metadataHash a) (drafts s))) (\<lambda>d.
             bindp (upsertMarket E l a (bigint_div WAD (a_outcomeCount a)) (category_of E a) d) (\<lambda>ref.
             seqp (adoptDraft (a_metadataHash a) ref d)
            (seqp (modp (\<lambda>s. s\<lparr>refCache := (refCache s)(refKey (lower (n_address l)) (a_marketId a) \<mapsto> ref)\<rparr>))
            (seqp (invalidate ref)
            (seqp (publish (globalChannel EvMarketCreated) EvMarketCreated
                    (DMarketCreated ref (dec (a_marketId a)) (lower (n_address l)) (category_of E a)
                       (case unix_date (a_closeTime a) of Some t \<Rightarrow> t | None \<Rightarrow> 0)) None)
            (ret ref)))))))"
  by (simp add: createMarket_def category_of_def Let_def)

lemma category_step:
  "\<exists>cs. (case category_of E a of None \<Rightarrow> ret () | Some k \<Rightarrow> upsertCategory k) s = (Inr (), s\<lparr>categories := cs\<rparr>)"
proof (cases "category_of E a")
  case None
  then have "(case category_of E a of None \<Rightarrow> ret () | Some k \<Rightarrow> upsertCategory k) s =
      (Inr (), s\<lparr>categories := categories s\<rparr>)" by simp
  then show ?thesis by blast
next
  case (Some k)
  then show ?thesis by (auto simp: upsertCategory_def)
qed

lemma adoptDraft_run:
  "\<exists>ds. adoptDraft h ref d s = (Inr (), s\<lparr>drafts := ds\<rparr>) \<and>
     map d_hash ds = map d_hash (drafts s) \<and>
     (tfind d_hash h (drafts s) = d \<longrightarrow> (case d of None \<Rightarrow> True | Some r \<Rightarrow>
        \<exists>r'. tfind d_hash h ds = Some r' \<and> d_ref r' = (case d_ref r of None \<Rightarrow> Some ref | Some x \<Rightarrow> Some x)))"
proof (cases "case d of None \<Rightarrow> False | Some r \<Rightarrow> d_ref r = None")
  case True
  let ?ds = "tupdate d_hash h (\<lambda>r. r\<lparr>d_ref := Some ref\<rparr>) (drafts s)"
  have "map d_hash ?ds = map d_hash (drafts s)" by (simp add: tupdate_def)
  moreover have "tfind d_hash h ?ds = map_option (\<lambda>r. r\<lparr>d_ref := Some ref\<rparr>) (tfind d_hash h (drafts s))"
    using draft_rows.lookup_update [of h "\<lambda>r. r\<lparr>d_ref := Some ref\<rparr>" h "drafts s"] by simp
  ultimately show ?thesis using True
    by (intro exI [of _ ?ds]) (auto simp: adoptDraft_def split: option.splits)
next
  case False
  have "s = s\<lparr>drafts := drafts s\<rparr>" by simp
  with False show ?thesis
    by (intro exI [of _ "drafts s"]) (auto simp: adoptDraft_def split: option.splits)
qed

lemma tfind_outcome_rows_for:
  assumes "0 \<le> i" "i < n"
  shows "tfind outcome_key (ref, i) (outcome_rows_for ref ls price seed n) =
    Some \<lparr>o_ref = ref, o_index = i, o_label = (if nat i < length ls then ls ! nat i else []), o_price = price, o_shares = seed\<rparr>"
proof -
  let ?row = "\<lambda>i. \<lparr>o_ref = ref, o_index = int i, o_label = (if i < length ls then ls ! i else []), o_price = price, o_shares = seed\<rparr>"
  have "tfind outcome_key (ref, int j) (map ?row [0..<k]) = (if j < k then Some (?row j) else None)" for j k
    by (induction k) (auto simp: tfind_append outcome_key_def less_Suc_eq split: option.splits)
  from this [of "nat i" "nat n"] assms show ?thesis by (simp add: outcome_rows_for_def)
qed

lemma createMarket_run:
  assumes "0 < a_outcomeCount a" "unix_date (a_startTime a) = Some st" "unix_date (a_closeTime a) = Some ct"
    and "tfind market_key (lower (n_address l), a_marketId a) (markets s) = None"
    and d: "d = tfind d_hash (a_metadataHash a) (drafts s)" and ref: "ref = e_uuid E (minted s)"
  shows "\<exists>t. createMarket E l a s = (Inr ref, t) \<and>
    markets t = markets s @ [market_row ref l a st ct (category_of E a) d] \<and>
    outcomes t = outcomes s @ outcome_rows_for ref (case d of None \<Rightarrow> [] | Some r \<Rightarrow> d_labels r)
      (bigint_div WAD (a_outcomeCount a)) (a_seedPerOutcome a) (a_outcomeCount a) \<and>
    refCache t (refKey (lower (n_address l)) (a_marketId a)) = Some ref \<and>
    (case d of None \<Rightarrow> True | Some r \<Rightarrow> \<exists>r'. tfind d_hash (a_metadataHash a) (drafts t) = Some r' \<and>
       d_ref r' = (case d_ref r of None \<Rightarrow> Some ref | Some x \<Rightarrow> Some x))"
proof -
  obtain cs where cat: "(case category_of E a of None \<Rightarrow> ret () | Some k \<Rightarrow> upsertCategory k) s =
      (Inr (), s\<lparr>categories := cs\<rparr>)"
    using category_step by blast
  define u where "u = s\<lparr>categories := cs, markets := markets s @ [market_row ref l a st ct (category_of E a) d],
    outcomes := outcomes s @ outcome_rows_for ref (case d of None \<Rightarrow> [] | Some r \<Rightarrow> d_labels r)
      (bigint_div WAD (a_outcomeCount a)) (a_seedPerOutcome a) (a_outcomeCount a), minted := minted s + 1\<rparr>"
  have up: "upsertMarket E l a (bigint_div WAD (a_outcomeCount a)) (category_of E a) d (s\<lparr>categories := cs\<rparr>) = (Inr ref, u)"
    using assms by (simp add: upsertMarket_def u_def Let_def)
  obtain ds where ad: "adoptDraft (a_metadataHash a) ref d u = (Inr (), u\<lparr>drafts := ds\<rparr>)"
    "tfind d_hash (a_metadataHash a) (drafts u) = d \<longrightarrow> (case d of None \<Rightarrow> True | Some r \<Rightarrow>
        \<exists>r'. tfind d_hash (a_metadataHash a) ds = Some r' \<and> d_ref r' = (case d_ref r of None \<Rightarrow> Some ref | Some x \<Rightarrow> Some x))"
    using adoptDraft_run by blast
  have "drafts u = drafts s" by (simp add: u_def)
  with ad(2) d have linked: "case d of None \<Rightarrow> True | Some r \<Rightarrow>
        \<exists>r'. tfind d_hash (a_metadataHash a) ds = Some r' \<and> d_ref r' = (case d_ref r of None \<Rightarrow> Some ref | Some x \<Rightarrow> Some x)"
    by simp
  have "\<exists>t. createMarket E l a s = (Inr ref, t) \<and> markets t = markets u \<and> outcomes t = outcomes u \<and> drafts t = ds \<and>
      refCache t (refKey (lower (n_address l)) (a_marketId a)) = Some ref"
    using cat up ad(1) d assms(1) by (simp add: createMarket_unfold invalidate_def publish_def)
  then show ?thesis using linked by (auto simp: u_def)
qed

lemma new_id_no_outcome:
  assumes "fresh_ids E" "coherent E s"
  shows "tfind outcome_key (e_uuid E (minted s), i) (outcomes s) = None"
proof -
  have "o_ref r \<noteq> e_uuid E (minted s)" if "r \<in> set (outcomes s)" for r
  proof -
    have "o_ref r \<in> ids s" using assms(2) that by (auto simp: coherent_def)
    then show ?thesis using new_id [OF assms] by metis
  qed
  then show ?thesis by (force simp: tfind_None_iff outcome_key_def)
qed

lemma WAD_nonneg: "0 \<le> WAD"
  by (simp add: WAD_def)

lemma createMarket_again:
  assumes "a_outcomeCount a \<noteq> 0" "unix_date (a_startTime a) \<noteq> None" "unix_date (a_closeTime a) \<noteq> None"
    and "tfind market_key (lower (n_address l), a_marketId a) (markets s) = Some m"
  shows "\<exists>t. createMarket E l a s = (Inr (m_id m), t) \<and> markets t = markets s \<and> outcomes t = outcomes s \<and>
    trades t = trades s \<and> positions t = positions s"
proof -
  obtain cs where cat: "(case category_of E a of None \<Rightarrow> ret () | Some k \<Rightarrow> upsertCategory k) s =
      (Inr (), s\<lparr>categories := cs\<rparr>)"
    using category_step by blast
  let ?d = "tfind d_hash (a_metadataHash a) (drafts s)"
  have up: "upsertMarket E l a (bigint_div WAD (a_outcomeCount a)) (category_of E a) ?d (s\<lparr>categories := cs\<rparr>) =
      (Inr (m_id m), s\<lparr>categories := cs\<rparr>)"
    using assms by (auto simp: upsertMarket_def)
  obtain ds where "adoptDraft (a_metadataHash a) (m_id m) ?d (s\<lparr>categories := cs\<rparr>) =
      (Inr (), (s\<lparr>categories := cs\<rparr>)\<lparr>drafts := ds\<rparr>)"
    using adoptDraft_run by blast
  then show ?thesis
    using cat up assms(1) by (simp add: createMarket_unfold invalidate_def publish_def)
qed

lemma createMarket_bad_date:
  assumes "a_outcomeCount a \<noteq> 0" "unix_date (a_closeTime a) = None"
  shows "\<exists>t. createMarket E l a s = (Inl InvalidArgument, t) \<and> markets t = markets s \<and> outcomes t = outcomes s"
proof -
  obtain cs where cat: "(case category_of E a of None \<Rightarrow> ret () | Some k \<Rightarrow> upsertCategory k) s =
      (Inr (), s\<lparr>categories := cs\<rparr>)"
    using category_step by blast
  have "upsertMarket E l a p c d u = (Inl InvalidArgument, u)" for p c d u
    using assms(2) by (simp add: upsertMarket_def split: option.splits)
  then show ?thesis using cat assms(1) by (simp add: createMarket_unfold)
qed

text \<open>C20. A market created with at least one outcome and representable times is listed complete: one
  row under its engine address and id, every outcome with the seed as its supply and the uniform price
  (the prices together short of one WAD by less than the number of outcomes), the cache primed with
  its id, and a draft with the same metadata hash adopted unless another market already has it.\<close>

theorem created_market_is_complete:
  assumes "fresh_ids E" "coherent E s" "0 < a_outcomeCount a"
    and "unix_date (a_startTime a) = Some st" "unix_date (a_closeTime a) = Some ct"
    and "tfind market_key (lower (n_address l), a_marketId a) (markets s) = None"
    and "d = tfind d_hash (a_metadataHash a) (drafts s)"
  shows "\<exists>t ref. createMarket E l a s = (Inr ref, t) \<and>
    tfind m_id ref (markets t) = Some (market_row ref l a st ct (category_of E a) d) \<and>
    tfind market_key (lower (n_address l), a_marketId a) (markets t) =
      Some (market_row ref l a st ct (category_of E a) d) \<and>
    (\<forall>i. 0 \<le> i \<and> i < a_outcomeCount a \<longrightarrow> (\<exists>r. tfind outcome_key (ref, i) (outcomes t) = Some r \<and>
       o_shares r = a_seedPerOutcome a \<and> o_price r = bigint_div WAD (a_outcomeCount a))) \<and>
    a_outcomeCount a * bigint_div WAD (a_outcomeCount a) \<le> WAD \<and>
    WAD - a_outcomeCount a < a_outcomeCount a * bigint_div WAD (a_outcomeCount a) \<and>
    refCache t (refKey (lower (n_address l)) (a_marketId a)) = Some ref \<and>
    (case d of None \<Rightarrow> True | Some r \<Rightarrow> \<exists>r'. tfind d_hash (a_metadataHash a) (drafts t) = Some r' \<and>
       d_ref r' = (case d_ref r of None \<Rightarrow> Some ref | Some x \<Rightarrow> Some x))"
proof -
  let ?ref = "e_uuid E (minted s)"
  let ?m = "market_row ?ref l a st ct (category_of E a) d"
  obtain t where t: "createMarket E l a s = (Inr ?ref, t)" "markets t = markets s @ [?m]"
    "outcomes t = outcomes s @ outcome_rows_for ?ref (case d of None \<Rightarrow> [] | Some r \<Rightarrow> d_labels r)
      (bigint_div WAD (a_outcomeCount a)) (a_seedPerOutcome a) (a_outcomeCount a)"
    and rest: "refCache t (refKey (lower (n_address l)) (a_marketId a)) = Some ?ref"
    "case d of None \<Rightarrow> True | Some r \<Rightarrow> \<exists>r'. tfind d_hash (a_metadataHash a) (drafts t) = Some r' \<and>
       d_ref r' = (case d_ref r of None \<Rightarrow> Some ?ref | Some x \<Rightarrow> Some x)"
    using createMarket_run [OF assms(3-7) refl] by blast
  have new: "?ref \<notin> ids s" using new_id [OF assms(1,2)] .
  have "tfind m_id ?ref (markets s) = None" using new by (simp add: tfind_None_iff)
  then have "tfind m_id ?ref (markets t) = Some ?m" using t(2) by (simp add: tfind_append market_row_def)
  moreover have "tfind market_key (lower (n_address l), a_marketId a) (markets t) = Some ?m"
    using t(2) assms(6) by (simp add: tfind_append market_row_def market_key_def)
  moreover have noout: "tfind outcome_key (?ref, i) (outcomes s) = None" for i by (rule new_id_no_outcome [OF assms(1,2)])
  have "\<exists>r. tfind outcome_key (?ref, i) (outcomes t) = Some r \<and>
       o_shares r = a_seedPerOutcome a \<and> o_price r = bigint_div WAD (a_outcomeCount a)"
    if "0 \<le> i" "i < a_outcomeCount a" for i
    using t(3) noout tfind_outcome_rows_for [OF that] by (simp add: tfind_append)
  moreover have "a_outcomeCount a * bigint_div WAD (a_outcomeCount a) \<le> WAD"
    "WAD - a_outcomeCount a < a_outcomeCount a * bigint_div WAD (a_outcomeCount a)"
    using bigint_div_bounds [OF WAD_nonneg assms(3)] unfolding distrib_left mult_1_right by linarith+
  ultimately show ?thesis using t(1) rest by blast
qed

lemma created_market_is_complete_witness:
  "\<exists>t ref. createMarket sample_env (sample_log (MarketCreated sample_created)) sample_created empty_state = (Inr ref, t) \<and>
     refCache t (refKey ''0xaa'' 7) = Some ref"
proof -
  have "0 < a_outcomeCount sample_created" "unix_date (a_startTime sample_created) = Some 0"
    "unix_date (a_closeTime sample_created) = Some 1000000"
    by (simp_all add: sample_created_def unix_date_exact)
  from created_market_is_complete [OF fresh_sample_env empty_state_ok(1) this _ refl,
      of "sample_log (MarketCreated sample_created)"]
  show ?thesis by (auto simp: empty_state_def sample_log_def sample_created_def)
qed

text \<open>Replaying a creation is harmless: for a market that is already there, \<open>createMarket\<close>
  answers with its id and leaves every market, outcome, trade and position as it is.\<close>

theorem creation_replays_safely:
  assumes "a_outcomeCount a \<noteq> 0" "unix_date (a_startTime a) \<noteq> None" "unix_date (a_closeTime a) \<noteq> None"
    and "tfind market_key (lower (n_address l), a_marketId a) (markets s) = Some m"
  shows "\<exists>t. createMarket E l a s = (Inr (m_id m), t) \<and> markets t = markets s \<and> outcomes t = outcomes s \<and>
    trades t = trades s \<and> positions t = positions s"
  using assms by (rule createMarket_again)

lemma creation_replays_safely_witness:
  "\<exists>t. createMarket sample_env (sample_log (MarketCreated sample_created)) sample_created sample_state =
     (Inr ''m1'', t) \<and> markets t = markets sample_state \<and> outcomes t = outcomes sample_state"
  using creation_replays_safely [where a = sample_created and l = "sample_log (MarketCreated sample_created)" and
      E = sample_env and s = sample_state and m = sample_market]
  by (simp add: sample_created_def sample_defs market_key_def unix_date_exact) blast

text \<open>A close time no \<open>Date\<close> can hold (the contract's \<open>uint64\<close> allows one) makes the creation
  reject before a row is written, so a batch that starts with it never completes, now or on a retry.\<close>

theorem far_close_time_stops_the_batch:
  assumes "a_outcomeCount a \<noteq> 0" "8640000000001 \<le> a_closeTime a"
    and "n_kind l = LS_LMSR" "n_event l = MarketCreated a"
  shows "\<exists>t. processBatch E (l # logs) s = (Inl InvalidArgument, t) \<and> markets t = markets s"
proof -
  have "unix_date (a_closeTime a) = None" using assms(2) by (rule unix_date_far)
  from createMarket_bad_date [OF assms(1) this, of E l "s\<lparr>touched := []\<rparr>"] obtain t where
    "createMarket E l a (s\<lparr>touched := []\<rparr>) = (Inl InvalidArgument, t)" "markets t = markets s"
    by auto
  then show ?thesis using assms(3,4) by (simp add: processBatch_def applyLog_def)
qed

lemma far_close_time_stops_the_batch_witness:
  "\<exists>t. processBatch sample_env [sample_log (MarketCreated (sample_created\<lparr>a_closeTime := 2 ^ 64 - 1\<rparr>))] empty_state =
     (Inl InvalidArgument, t) \<and> markets t = []"
  using far_close_time_stops_the_batch [where a = "sample_created\<lparr>a_closeTime := 2 ^ 64 - 1\<rparr>" and
      l = "sample_log (MarketCreated (sample_created\<lparr>a_closeTime := 2 ^ 64 - 1\<rparr>))" and
      E = sample_env and s = empty_state and logs = "[]"]
  by (simp add: sample_created_def sample_log_def empty_state_def)

section \<open>The published copy\<close>

lemma writeCopy_run:
  assumes "tfind m_id ref (markets s) = Some m" "categoryExists s (md_categoryKey md)"
  shows "writeCopy ref md s = (Inr (), s\<lparr>markets := tupdate m_id ref (\<lambda>m. m\<lparr>m_title := md_title md,
      m_description := md_description md, m_rules := md_rules md, m_imageUrl := md_imageUrl md,
      m_categoryKey := md_categoryKey md\<rparr>) (markets s)\<rparr>)"
  using assms by (simp add: writeCopy_def updateMarket_def)

text \<open>A published copy whose hash matches but whose category is the empty string stops the
  batch: the guard before the category upsert tests truthiness, the update writes the empty key, and the
  foreign key rejects. Nothing is written, so every retry of the block range rejects again.\<close>

theorem empty_category_stops_the_batch:
  assumes "marketRef (n_address l) i s = (Inr (Some ref), s')" "tfind m_id ref (markets s) = Some m"
    and "parseCanonical (e_keccak E) encoded hash = Some md" "md_categoryKey md = Some []"
    and "tfind c_key [] (categories s) = None"
  shows "onMetadataPublished E l i hash encoded s = (Inl P2003, s') \<and>
    markets s' = markets s \<and> categories s' = categories s"
proof -
  have db: "markets s' = markets s" "categories s' = categories s"
    using marketRef_state [OF assms(1)] by auto
  then have "writeCopy ref md s' = (Inl P2003, s')"
    using assms(2,4,5) by (simp add: writeCopy_def categoryExists_def)
  then show ?thesis using assms(1,3,4) db by (simp add: onMetadataPublished_def)
qed

definition uncategorised :: metadata where
  "uncategorised = sample_metadata\<lparr>md_categoryKey := Some []\<rparr>"

lemma parse_uncategorised:
  "parseCanonical id (canonicalize uncategorised) (canonicalize uncategorised) = Some uncategorised"
proof -
  have "json_parse (canonicalize uncategorised) = Some (canonical_json uncategorised)"
    by (simp add: canonicalize_def json_parse_stringify)
  then show ?thesis
    by (simp add: parseCanonical_def canonical_json_def sample_metadata_def uncategorised_def metadata_of_pairs_def
        js_str_def string_or_null_def json_nullable_def metadataHashOf_def)
qed

lemma empty_category_stops_the_batch_witness:
  "\<exists>s'. onMetadataPublished sample_env (sample_log (OtherEvent [])) 7 (canonicalize uncategorised) (canonicalize uncategorised)
     sample_state = (Inl P2003, s')"
proof -
  have "marketRef (n_address (sample_log (OtherEvent []))) 7 sample_state =
      (Inr (Some ''m1''), sample_state\<lparr>refCache := [refKey ''0xaa'' 7 \<mapsto> ''m1'']\<rparr>)"
    using sample_ref_run by (simp add: sample_log_def sample_state_def)
  from empty_category_stops_the_batch [OF this, where m = sample_market and E = sample_env and md = uncategorised]
  show ?thesis
    using parse_uncategorised by (auto simp: sample_env_def sample_defs uncategorised_def)
qed

text \<open>The parallel updates of an array of outcomes, one per index.\<close>

lemma allp_updateOutcomes:
  assumes "\<And>x r. outcome_key (f x r) = outcome_key r"
    and "\<forall>i. k \<le> i \<and> i < k + length xs \<longrightarrow> tfind outcome_key (ref, int i) (outcomes s) \<noteq> None"
  shows "\<exists>os. allp (map (\<lambda>(i, x). updateOutcome ref (int i) (f x)) (enumerate k xs)) s = (Inr (), s\<lparr>outcomes := os\<rparr>) \<and>
    (\<forall>i. tfind outcome_key (ref, int i) os = (if k \<le> i \<and> i < k + length xs
       then map_option (f (xs ! (i - k))) (tfind outcome_key (ref, int i) (outcomes s))
       else tfind outcome_key (ref, int i) (outcomes s)))"
  using assms(2)
proof (induction xs arbitrary: k s)
  case Nil
  have "s = s\<lparr>outcomes := outcomes s\<rparr>" by simp
  then show ?case by (intro exI [of _ "outcomes s"]) auto
next
  case (Cons x xs)
  let ?s = "s\<lparr>outcomes := tupdate outcome_key (ref, int k) (f x) (outcomes s)\<rparr>"
  have head: "updateOutcome ref (int k) (f x) s = (Inr (), ?s)"
    using Cons.prems by (auto simp: updateOutcome_def)
  have found: "tfind outcome_key (ref, int i) (outcomes ?s) = (if i = k
      then map_option (f x) (tfind outcome_key (ref, int i) (outcomes s)) else tfind outcome_key (ref, int i) (outcomes s))" for i
    using outcome_rows.lookup_update [of "(ref, int k)" "f x" "(ref, int i)" "outcomes s"] assms(1) by auto
  have "\<forall>i. Suc k \<le> i \<and> i < Suc k + length xs \<longrightarrow> tfind outcome_key (ref, int i) (outcomes ?s) \<noteq> None"
    using Cons.prems found by auto
  from Cons.IH [OF this] obtain os where os:
    "allp (map (\<lambda>(i, x). updateOutcome ref (int i) (f x)) (enumerate (Suc k) xs)) ?s = (Inr (), ?s\<lparr>outcomes := os\<rparr>)"
    "\<forall>i. tfind outcome_key (ref, int i) os = (if Suc k \<le> i \<and> i < Suc k + length xs
       then map_option (f (xs ! (i - Suc k))) (tfind outcome_key (ref, int i) (outcomes ?s))
       else tfind outcome_key (ref, int i) (outcomes ?s))"
    by blast
  have "tfind outcome_key (ref, int i) os = (if k \<le> i \<and> i < k + length (x # xs)
       then map_option (f ((x # xs) ! (i - k))) (tfind outcome_key (ref, int i) (outcomes s))
       else tfind outcome_key (ref, int i) (outcomes s))" for i
    using os(2) found [of i] by (cases "i = k") (auto simp: nth_Cons')
  then show ?case using head os(1) by (intro exI [of _ os]) simp
qed

text \<open>Copy that hashes to the market's commitment is served as published: title, description,
  rules, image, category and the label of every outcome become the published ones, while the market's
  terms, status and pot, and the prices and supplies of its outcomes, stay as they were.\<close>

theorem published_copy_is_served:
  assumes "marketRef (n_address l) i s = (Inr (Some ref), s')" "tfind m_id ref (markets s) = Some m"
    and "parseCanonical (e_keccak E) encoded hash = Some md" "md_categoryKey md \<noteq> Some []"
    and "\<forall>j < nat (m_outcomeCount m). tfind outcome_key (ref, int j) (outcomes s) \<noteq> None"
  shows "\<exists>t m'. onMetadataPublished E l i hash encoded s = (Inr (), t) \<and> tfind m_id ref (markets t) = Some m' \<and>
    (m_title m', m_description m', m_rules m', m_imageUrl m', m_categoryKey m') =
      (md_title md, md_description md, md_rules md, md_imageUrl md, md_categoryKey md) \<and>
    (m_status m', m_pot m', m_outcomeCount m', m_metadataHash m') = (m_status m, m_pot m, m_outcomeCount m, m_metadataHash m) \<and>
    (\<forall>j < nat (m_outcomeCount m). \<exists>r r'. tfind outcome_key (ref, int j) (outcomes s) = Some r \<and>
       tfind outcome_key (ref, int j) (outcomes t) = Some r' \<and>
       o_shares r' = o_shares r \<and> o_price r' = o_price r \<and>
       o_label r' = (if j < length (md_labels md) then md_labels md ! j else o_label r))"
proof -
  have db: "markets s' = markets s" "outcomes s' = outcomes s" "categories s' = categories s"
    using marketRef_state [OF assms(1)] by auto
  let ?f = "\<lambda>m. m\<lparr>m_title := md_title md, m_description := md_description md,
        m_rules := md_rules md, m_imageUrl := md_imageUrl md, m_categoryKey := md_categoryKey md\<rparr>"
  obtain cs where cat: "(case md_categoryKey md of None \<Rightarrow> ret () | Some k \<Rightarrow> whenp (k \<noteq> []) (upsertCategory k)) s' =
      (Inr (), s'\<lparr>categories := cs\<rparr>)" and exists: "categoryExists (s'\<lparr>categories := cs\<rparr>) (md_categoryKey md)"
  proof (cases "md_categoryKey md")
    case None
    then show ?thesis using that [of "categories s'"] by (simp add: categoryExists_def)
  next
    case (Some k)
    have "tfind c_key k (tupsert c_key k \<lparr>c_key = k, c_label = k, c_enabled = True\<rparr> id (categories s')) \<noteq> None"
      by (simp add: category_rows.lookup_upsert)
    then show ?thesis using that Some assms(4) by (auto simp: upsertCategory_def categoryExists_def)
  qed
  define u where "u = s'\<lparr>categories := cs, markets := tupdate m_id ref ?f (markets s')\<rparr>"
  have copy: "writeCopy ref md (s'\<lparr>categories := cs\<rparr>) = (Inr (), u)"
    using writeCopy_run [of ref "s'\<lparr>categories := cs\<rparr>" m md] assms(2) db exists by (simp add: u_def)
  have row: "tfind m_id ref (markets u) = Some (?f m)"
    using market_ids.lookup_update [of ref ?f ref "markets s'"] assms(2) db by (simp add: u_def)
  let ?n = "nat (m_outcomeCount m)"
  let ?ls = "take ?n (md_labels md)"
  have "\<forall>j. 0 \<le> j \<and> j < 0 + length ?ls \<longrightarrow> tfind outcome_key (ref, int j) (outcomes u) \<noteq> None"
    using assms(5) db by (auto simp: u_def)
  from allp_updateOutcomes [of "\<lambda>label r. r\<lparr>o_label := label\<rparr>", OF _ this] obtain os where os:
    "writeLabels ref ?ls u = (Inr (), u\<lparr>outcomes := os\<rparr>)"
    "\<forall>j. tfind outcome_key (ref, int j) os = (if j < length ?ls
       then map_option (\<lambda>r. r\<lparr>o_label := ?ls ! j\<rparr>) (tfind outcome_key (ref, int j) (outcomes u))
       else tfind outcome_key (ref, int j) (outcomes u))"
    by (auto simp: writeLabels_def outcome_key_def)
  have run: "onMetadataPublished E l i hash encoded s = invalidate ref (u\<lparr>outcomes := os\<rparr>)"
    using assms(1,3) cat copy row os(1) by (simp add: onMetadataPublished_def)
  have labels: "\<exists>r r'. tfind outcome_key (ref, int j) (outcomes s) = Some r \<and> tfind outcome_key (ref, int j) os = Some r' \<and>
       o_shares r' = o_shares r \<and> o_price r' = o_price r \<and>
       o_label r' = (if j < length (md_labels md) then md_labels md ! j else o_label r)" if "j < ?n" for j
    using os(2) [rule_format, of j] assms(5) that db by (auto simp: u_def)
  show ?thesis using run row labels by (simp add: invalidate_def)
qed

lemma published_copy_is_served_witness:
  "\<exists>t m'. onMetadataPublished sample_env (sample_log (OtherEvent [])) 7 (canonicalize sample_metadata)
     (canonicalize sample_metadata) sample_state = (Inr (), t) \<and> tfind m_id ''m1'' (markets t) = Some m' \<and>
     m_title m' = ''T'' \<and> m_categoryKey m' = Some ''SPORTS''"
proof -
  have ref: "marketRef (n_address (sample_log (OtherEvent []))) 7 sample_state =
      (Inr (Some ''m1''), sample_state\<lparr>refCache := [refKey ''0xaa'' 7 \<mapsto> ''m1'']\<rparr>)"
    using sample_ref_run by (simp add: sample_log_def sample_state_def)
  have "json_parse (canonicalize sample_metadata) = Some (canonical_json sample_metadata)"
    by (simp add: canonicalize_def json_parse_stringify)
  then have parse: "parseCanonical (e_keccak sample_env) (canonicalize sample_metadata) (canonicalize sample_metadata) =
      Some sample_metadata"
    by (simp add: parseCanonical_def canonical_json_def sample_metadata_def metadata_of_pairs_def
        js_str_def string_or_null_def json_nullable_def metadataHashOf_def sample_env_def)
  have m: "tfind m_id ''m1'' (markets sample_state) = Some sample_market" by (simp add: sample_defs)
  have rows: "\<forall>j < nat (m_outcomeCount sample_market). tfind outcome_key (''m1'', int j) (outcomes sample_state) \<noteq> None"
    by (auto simp: sample_defs outcome_key_def)
  from published_copy_is_served [OF ref m parse _ rows] show ?thesis
    by (auto simp: sample_metadata_def)
qed

end
