(* ===== verification/Trading.thy ===== *)
theory Trading
  imports Samples
begin

text \<open>
  The ledger's properties: what a purchase, a sale and a short book, that shares outstanding and
  shares held move together, and what the retry of an interrupted or already applied log does.
\<close>

text \<open>C17. A purchase whose market is indexed resolves and books the trade exactly once each: the
  pot grows by the cost, the outcome's supply and the buyer's position by the shares, the basis by
  the cost, the trade row is there, and no other position, outcome or pot moves.\<close>

theorem purchase_books:
  assumes "marketRef (n_address l) (x_marketId a) s = (Inr (Some ref), s')" "ref \<noteq> []"
    and "tfind m_id ref (markets s) = Some m"
    and "tfind outcome_key (ref, i) (outcomes s) = Some r" "i = js_number (x_outcomeId a)"
    and "tfind trade_key (n_tx l, n_logIndex l) (trades s) = None"
  shows "\<exists>t. onTrade l BUY a s = (Inr (), t) \<and>
    tfind trade_key (n_tx l, n_logIndex l) (trades t) =
      Some (trade_row l ref (x_account a) BUY i (x_shares a) (x_amount a) (x_spreadWad a)
        (avgPrice (x_amount a) (x_shares a))) \<and>
    (\<forall>ref'. pot_of t ref' = pot_of s ref' + (if ref' = ref then x_amount a else 0)) \<and>
    (\<forall>ref' j. out_shares t ref' j = out_shares s ref' j +
       (if ref' = ref \<and> j = i then x_shares a else 0)) \<and>
    (\<forall>ref' acc j. pos_shares t ref' acc j = pos_shares s ref' acc j +
       (if (ref', acc, j) = (ref, lower (x_account a), i) then x_shares a else 0)) \<and>
    (\<forall>ref' acc j. pos_cost t ref' acc j = pos_cost s ref' acc j +
       (if (ref', acc, j) = (ref, lower (x_account a), i) then x_amount a else 0))"
proof -
  obtain ps where run: "onTrade l BUY a s = (Inr (), bought l ref a s'\<lparr>published := ps\<rparr>)"
    using onTrade_buy_run [OF assms(1)] assms marketRef_db [OF assms(1)] publishTrade_run by metis
  have db: "markets s' = markets s" "outcomes s' = outcomes s" "positions s' = positions s" "trades s' = trades s"
    using marketRef_db [OF assms(1)] by auto
  let ?t = "bought l ref a s'\<lparr>published := ps\<rparr>"
  have "tfind trade_key (n_tx l, n_logIndex l) (trades ?t) =
      Some (trade_row l ref (x_account a) BUY i (x_shares a) (x_amount a) (x_spreadWad a)
        (avgPrice (x_amount a) (x_shares a)))"
    using assms db by (simp add: bought_def Let_def trade_rows.lookup_upsert)
  moreover have "pot_of ?t ref' = pot_of s ref' + (if ref' = ref then x_amount a else 0)" for ref'
    using assms db by (simp add: bought_def Let_def pot_of_def find_pot_update)
  moreover have "out_shares ?t ref' j = out_shares s ref' j +
       (if ref' = ref \<and> j = i then x_shares a else 0)" for ref' j
    using assms db by (auto simp: bought_def Let_def out_shares_def find_outcome_update)
  moreover have "pos_shares ?t ref' acc j = pos_shares s ref' acc j +
       (if (ref', acc, j) = (ref, lower (x_account a), i) then x_shares a else 0)" for ref' acc j
    using assms db
    by (simp add: bought_def Let_def pos_shares_def find_add_position position_row_def split: option.splits)
  moreover have "pos_cost ?t ref' acc j = pos_cost s ref' acc j +
       (if (ref', acc, j) = (ref, lower (x_account a), i) then x_amount a else 0)" for ref' acc j
    using assms db
    by (simp add: bought_def Let_def pos_cost_def find_add_position position_row_def split: option.splits)
  ultimately show ?thesis using run by blast
qed

lemma purchase_books_witness:
  "\<exists>t. onTrade (sample_log (Bought (sample_trade 1 10 4))) BUY (sample_trade 1 10 4) sample_state = (Inr (), t) \<and>
     pot_of t ''m1'' = 334 \<and> out_shares t ''m1'' 1 = 110"
proof -
  let ?l = "sample_log (Bought (sample_trade 1 10 4))"
  have ref: "marketRef (n_address ?l) (x_marketId (sample_trade 1 10 4)) sample_state =
      (Inr (Some ''m1''), sample_state\<lparr>refCache := [refKey ''0xaa'' 7 \<mapsto> ''m1'']\<rparr>)"
    using sample_ref_run by (simp add: sample_log_def sample_trade_def sample_state_def)
  obtain t where "onTrade ?l BUY (sample_trade 1 10 4) sample_state = (Inr (), t)"
    "\<forall>ref'. pot_of t ref' = pot_of sample_state ref' + (if ref' = ''m1'' then x_amount (sample_trade 1 10 4) else 0)"
    "\<forall>ref' j. out_shares t ref' j = out_shares sample_state ref' j +
       (if ref' = ''m1'' \<and> j = 1 then x_shares (sample_trade 1 10 4) else 0)"
    using purchase_books [OF ref, where m = sample_market and r = "sample_outcome 1 100" and i = 1]
    by (auto simp: sample_defs outcome_key_def)
  then show ?thesis by (intro exI [of _ t]) (simp add: sample_defs pot_of_def out_shares_def outcome_key_def)
qed

text \<open>The same log delivered twice (an operator's re-scan, or a batch that was applied and then
  failed): the trade row is written once, but the pot, the supply and the position are not keyed by
  the log and count the purchase a second time.\<close>

theorem rescan_counts_twice:
  assumes "marketRef (n_address l) (x_marketId a) s = (Inr (Some ref), s')" "ref \<noteq> []"
    and "tfind m_id ref (markets s) = Some m"
    and "tfind outcome_key (ref, i) (outcomes s) = Some r" "i = js_number (x_outcomeId a)"
  shows "\<exists>t u. onTrade l BUY a s = (Inr (), t) \<and> onTrade l BUY a t = (Inr (), u) \<and>
    trades u = trades t \<and>
    pot_of u ref = pot_of s ref + 2 * x_amount a \<and>
    out_shares u ref i = out_shares s ref i + 2 * x_shares a \<and>
    pos_shares u ref (lower (x_account a)) i = pos_shares s ref (lower (x_account a)) i + 2 * x_shares a"
proof -
  obtain t where t: "onTrade l BUY a s = (Inr (), t)"
    "marketRef (n_address l) (x_marketId a) t = (Inr (Some ref), t)"
    "tfind m_id ref (markets t) = Some (m\<lparr>m_pot := m_pot m + x_amount a\<rparr>)"
    "tfind outcome_key (ref, i) (outcomes t) = Some (r\<lparr>o_shares := o_shares r + x_shares a\<rparr>)"
    "trades t = tupsert trade_key (n_tx l, n_logIndex l)
      (trade_row l ref (x_account a) BUY i (x_shares a) (x_amount a) (x_spreadWad a)
         (avgPrice (x_amount a) (x_shares a))) id (trades s)"
    "positions t = add_position (ref, lower (x_account a), i) (x_shares a) (x_amount a) (positions s)"
    using buy_effect [OF assms] by blast
  obtain u where u: "onTrade l BUY a t = (Inr (), u)"
    "tfind m_id ref (markets u) = Some (m\<lparr>m_pot := m_pot m + x_amount a + x_amount a\<rparr>)"
    "tfind outcome_key (ref, i) (outcomes u) = Some (r\<lparr>o_shares := o_shares r + x_shares a + x_shares a\<rparr>)"
    "trades u = tupsert trade_key (n_tx l, n_logIndex l)
      (trade_row l ref (x_account a) BUY i (x_shares a) (x_amount a) (x_spreadWad a)
         (avgPrice (x_amount a) (x_shares a))) id (trades t)"
    "positions u = add_position (ref, lower (x_account a), i) (x_shares a) (x_amount a) (positions t)"
    using buy_effect [OF t(2) assms(2) t(3,4) assms(5)] by auto
  have "trades u = trades t"
    using t(5) u(4) by (simp add: tupsert_id_twice)
  moreover have "pos_shares u ref (lower (x_account a)) i =
      pos_shares s ref (lower (x_account a)) i + 2 * x_shares a"
    using t(6) u(5) by (simp add: pos_shares_def find_add_position position_row_def split: option.splits)
  ultimately show ?thesis
    using t u assms(3,4) by (intro exI [of _ t] exI [of _ u]) (simp add: pot_of_def out_shares_def)
qed

lemma rescan_counts_twice_witness:
  "\<exists>t u. onTrade (sample_log (Bought (sample_trade 1 10 4))) BUY (sample_trade 1 10 4) sample_state = (Inr (), t) \<and>
     onTrade (sample_log (Bought (sample_trade 1 10 4))) BUY (sample_trade 1 10 4) t = (Inr (), u) \<and>
     trades u = trades t \<and> pot_of u ''m1'' = 338"
proof -
  let ?l = "sample_log (Bought (sample_trade 1 10 4))"
  have ref: "marketRef (n_address ?l) (x_marketId (sample_trade 1 10 4)) sample_state =
      (Inr (Some ''m1''), sample_state\<lparr>refCache := [refKey ''0xaa'' 7 \<mapsto> ''m1'']\<rparr>)"
    using sample_ref_run by (simp add: sample_log_def sample_trade_def sample_state_def)
  have "pot_of sample_state ''m1'' + 2 * x_amount (sample_trade 1 10 4) = 338"
    by (simp add: sample_defs pot_of_def)
  then show ?thesis
    using rescan_counts_twice [OF ref, where m = sample_market and r = "sample_outcome 1 100" and i = 1]
    by (auto simp: sample_defs outcome_key_def)
qed

text \<open>C18. A covered sale of a known market and outcome resolves: with the rows of the market, of the outcome and of
  the position found, a positive number of shares that the position holds, and shares and basis below \<open>10 ^ 21\<close> (beyond
  it \<open>large_sale_drains_pot\<close> tells what happens), the shares leave the position and the supply, the proceeds leave the
  pot, the basis falls in proportion and what is left is realised profit; shares and basis stay non-negative, the basis
  removed never exceeds the basis, and an exit of the whole position takes the whole basis with it.\<close>

theorem sale_realizes:
  assumes "marketRef (n_address l) (x_marketId a) s = (Inr (Some ref), s')"
    and "tfind m_id ref (markets s) = Some m"
    and "tfind outcome_key (ref, i) (outcomes s) = Some r" "i = js_number (x_outcomeId a)"
    and "tfind position_key (ref, lower (x_account a), i) (positions s) = Some p"
    and "0 < x_shares a" "x_shares a \<le> p_shares p" "p_shares p < 10 ^ 21" "0 \<le> p_cost p" "p_cost p < 10 ^ 21"
  shows "\<exists>t p'. onTrade l SELL a s = (Inr (), t) \<and>
    tfind position_key (ref, lower (x_account a), i) (positions t) = Some p' \<and>
    pot_of t ref = pot_of s ref - x_amount a \<and>
    out_shares t ref i = out_shares s ref i - x_shares a \<and>
    p_shares p' = p_shares p - x_shares a \<and> 0 \<le> p_shares p' \<and>
    p_pnl p' - p_pnl p = x_amount a - (p_cost p - p_cost p') \<and>
    p_cost p - p_cost p' = p_cost p * x_shares a div p_shares p \<and>
    0 \<le> p_cost p' \<and> p_cost p' \<le> p_cost p \<and>
    (x_shares a = p_shares p \<longrightarrow> p_cost p' = 0)"
proof -
  have db: "markets s' = markets s" "outcomes s' = outcomes s" "positions s' = positions s"
    using marketRef_db [OF assms(1)] by auto
  have fits: "\<bar>p_shares p\<bar> < 10 ^ 21" "\<bar>p_cost p\<bar> < 10 ^ 21" using assms by auto
  obtain ps where run: "onTrade l SELL a s =
      (Inr (), sold l ref a (p_shares p) (p_cost p) s'\<lparr>published := ps\<rparr>)"
    using onTrade_sell_run [OF assms(1) _ _ _ fits, of m r] assms db publishTrade_run by metis
  let ?t = "sold l ref a (p_shares p) (p_cost p) s'"
  let ?c = "costRemoved_of (p_shares p) (p_cost p) (x_shares a)"
  have sold: "sold_of (x_shares a) (p_shares p) = x_shares a" using assms by (simp add: sold_of_def)
  note reads = sold_reads [of ref s' m i r a p l "p_shares p" "p_cost p"]
  have c: "?c = p_cost p * x_shares a div p_shares p" "0 \<le> ?c" "?c \<le> p_cost p"
    using assms costRemoved_bounds [of "p_shares p" "p_cost p" "x_shares a"] sold
    by (auto simp: costRemoved_of_def)
  have full: "x_shares a = p_shares p \<longrightarrow> ?c = p_cost p"
    using costRemoved_full [of "p_shares p" "p_cost p"] assms by auto
  show ?thesis
    using run reads assms(2,3,4,5,7) db c full sold
    by (intro exI [of _ "?t\<lparr>published := ps\<rparr>"] exI) (auto simp: pot_of_def out_shares_def)
qed

lemma sale_realizes_witness:
  "\<exists>t p'. onTrade (sample_log (Sold (sample_trade 0 20 15))) SELL (sample_trade 0 20 15) sample_state = (Inr (), t) \<and>
     tfind position_key (''m1'', ''0xa1'', 0) (positions t) = Some p' \<and>
     p_shares p' = 30 \<and> p_cost p' = 18 \<and> p_pnl p' = 3"
proof -
  let ?l = "sample_log (Sold (sample_trade 0 20 15))"
  have ref: "marketRef (n_address ?l) (x_marketId (sample_trade 0 20 15)) sample_state =
      (Inr (Some ''m1''), sample_state\<lparr>refCache := [refKey ''0xaa'' 7 \<mapsto> ''m1'']\<rparr>)"
    using sample_ref_run by (simp add: sample_log_def sample_trade_def sample_state_def)
  show ?thesis
    using sale_realizes [OF ref, where m = sample_market and r = "sample_outcome 0 150" and i = 0
        and p = "sample_position 50 30"]
    by (simp add: sample_defs outcome_key_def position_key_def) fastforce
qed

text \<open>A holding of 1e21 or more cannot be sold: reading the position back rejects with a
  \<open>SyntaxError\<close>, and because the pot and the supply were already reduced, every retry of the batch
  reduces them again while the position stays as it was.\<close>

theorem large_sale_drains_pot:
  assumes "marketRef (n_address l) (x_marketId a) s = (Inr (Some ref), s')" "ref \<noteq> []"
    and "tfind m_id ref (markets s) = Some m"
    and "tfind outcome_key (ref, i) (outcomes s) = Some r" "i = js_number (x_outcomeId a)"
    and "tfind position_key (ref, lower (x_account a), i) (positions s) = Some p" "10 ^ 21 \<le> p_shares p"
  shows "\<exists>t u. onTrade l SELL a s = (Inl SyntaxError, t) \<and> onTrade l SELL a t = (Inl SyntaxError, u) \<and>
    pot_of u ref = pot_of s ref - 2 * x_amount a \<and>
    out_shares u ref i = out_shares s ref i - 2 * x_shares a \<and>
    positions u = positions s"
proof -
  have db: "markets s' = markets s" "outcomes s' = outcomes s" "positions s' = positions s"
    using marketRef_db [OF assms(1)] by auto
  obtain t where t: "onTrade l SELL a s = (Inl SyntaxError, t)"
    "markets t = tupdate m_id ref (\<lambda>m. m\<lparr>m_pot := m_pot m - x_amount a\<rparr>) (markets s)"
    "outcomes t = tupdate outcome_key (ref, i) (\<lambda>r. r\<lparr>o_shares := o_shares r - x_shares a\<rparr>) (outcomes s)"
    "positions t = positions s" "refCache t = refCache s'"
    using onTrade_sell_rejects [OF assms(1), of m r p] assms db by auto
  have "refCache t (refKey (lower (n_address l)) (x_marketId a)) = Some ref"
    using marketRef_Some_cached [OF assms(1,2)] t(5) by simp
  then have ref2: "marketRef (n_address l) (x_marketId a) t = (Inr (Some ref), t)"
    using marketRef_cached assms(2) by blast
  have m2: "tfind m_id ref (markets t) = Some (m\<lparr>m_pot := m_pot m - x_amount a\<rparr>)"
    using t(2) assms(3) by (simp only: find_pot_update_minus) simp
  have r2: "tfind outcome_key (ref, i) (outcomes t) = Some (r\<lparr>o_shares := o_shares r - x_shares a\<rparr>)"
    using t(3) assms(4) by (simp only: find_outcome_update_minus) simp
  obtain u where u: "onTrade l SELL a t = (Inl SyntaxError, u)"
    "markets u = tupdate m_id ref (\<lambda>m. m\<lparr>m_pot := m_pot m - x_amount a\<rparr>) (markets t)"
    "outcomes u = tupdate outcome_key (ref, i) (\<lambda>r. r\<lparr>o_shares := o_shares r - x_shares a\<rparr>) (outcomes t)"
    "positions u = positions t"
    using onTrade_sell_rejects [OF ref2 m2, of _ p] r2 assms t(4) by auto
  have "pot_of u ref = pot_of s ref - 2 * x_amount a"
    using u(2) m2 assms(3) by (simp only: pot_of_def find_pot_update_minus) simp
  moreover have "out_shares u ref i = out_shares s ref i - 2 * x_shares a"
    using u(3) r2 assms(4) by (simp only: out_shares_def find_outcome_update_minus) simp
  ultimately show ?thesis using t u by (intro exI [of _ t] exI [of _ u]) simp
qed

lemma large_sale_drains_pot_witness:
  "\<exists>t u. onTrade (sample_log (Sold (sample_trade 0 20 15))) SELL (sample_trade 0 20 15)
       (state_with [sample_position (10 ^ 21) 30]) = (Inl SyntaxError, t) \<and>
     onTrade (sample_log (Sold (sample_trade 0 20 15))) SELL (sample_trade 0 20 15) t = (Inl SyntaxError, u) \<and>
     pot_of u ''m1'' = 300"
proof -
  let ?l = "sample_log (Sold (sample_trade 0 20 15))"
  let ?s = "state_with [sample_position (10 ^ 21) 30]"
  have ref: "marketRef (n_address ?l) (x_marketId (sample_trade 0 20 15)) ?s =
      (Inr (Some ''m1''), ?s\<lparr>refCache := [refKey ''0xaa'' 7 \<mapsto> ''m1'']\<rparr>)"
    using sample_ref_run by (simp add: sample_log_def sample_trade_def)
  have "pot_of ?s ''m1'' - 2 * x_amount (sample_trade 0 20 15) = 300"
    by (simp add: sample_defs pot_of_def)
  then show ?thesis
    using large_sale_drains_pot [OF ref, where m = sample_market and r = "sample_outcome 0 150" and i = 0
        and p = "sample_position (10 ^ 21) 30"]
    by (auto simp: sample_defs outcome_key_def position_key_def)
qed

text \<open>C19. A short of a known market books one leg on every outcome but the shorted one. With the rows of the market
  and of its outcomes found and at least one leg, the supply and the seller's position of each leg grow by the shares,
  no other supply or position moves, and the pot of the market, and no other, grows by the cost. The basis of each leg
  but the last grows by the cost divided by the number of legs, that of the last by what this leaves of the cost, so
  that together they add up to it exactly.\<close>

theorem short_fans_out:
  assumes "marketRef (n_address l) (x_marketId a) s = (Inr (Some ref), s')"
    and "tfind m_id ref (markets s) = Some m"
    and "i = js_number (x_outcomeId a)" "acc = lower (x_account a)"
    and "legs = short_legs (m_outcomeCount m) i" "legs \<noteq> []"
    and "\<forall>j. 0 \<le> j \<and> j < m_outcomeCount m \<longrightarrow> tfind outcome_key (ref, j) (outcomes s) \<noteq> None"
  shows "\<exists>t. onShort l a s = (Inr (), t) \<and>
    set legs = {j. 0 \<le> j \<and> j < m_outcomeCount m \<and> j \<noteq> i} \<and>
    (\<forall>ref'. pot_of t ref' = pot_of s ref' + (if ref' = ref then x_amount a else 0)) \<and>
    (\<forall>ref' j. out_shares t ref' j = out_shares s ref' j + (if ref' = ref \<and> j \<in> set legs then x_shares a else 0)) \<and>
    (\<forall>ref' acc' j. pos_shares t ref' acc' j = pos_shares s ref' acc' j +
       (if ref' = ref \<and> acc' = acc \<and> j \<in> set legs then x_shares a else 0)) \<and>
    (\<forall>j \<in> set (butlast legs). pos_cost t ref acc j = pos_cost s ref acc j + bigint_div (x_amount a) (int (length legs))) \<and>
    pos_cost t ref acc (last legs) = pos_cost s ref acc (last legs) +
      (x_amount a - bigint_div (x_amount a) (int (length legs)) * int (length legs - 1)) \<and>
    sum_list (map (\<lambda>j. pos_cost t ref acc j - pos_cost s ref acc j) legs) = x_amount a \<and>
    (\<forall>ref' acc' j. (ref', acc') = (ref, acc) \<and> j \<in> set legs \<or> pos_cost t ref' acc' j = pos_cost s ref' acc' j)"
proof -
  have set: "set legs = {j. 0 \<le> j \<and> j < m_outcomeCount m \<and> j \<noteq> i}"
    using assms(5) by (simp add: set_short_legs)
  then have "\<forall>j \<in> set legs. tfind outcome_key (ref, j) (outcomes s) \<noteq> None" using assms(7) by auto
  from short_effect [OF assms(1,2,3,5,6,4) this] obtain t where t: "onShort l a s = (Inr (), t)"
    "\<forall>ref'. pot_of t ref' = pot_of s ref' + (if ref' = ref then x_amount a else 0)"
    "\<forall>ref' j. out_shares t ref' j = out_shares s ref' j + (if ref' = ref \<and> j \<in> set legs then x_shares a else 0)"
    "\<forall>ref' acc' j. pos_shares t ref' acc' j = pos_shares s ref' acc' j +
       (if ref' = ref \<and> acc' = acc \<and> j \<in> set legs then x_shares a else 0)"
    and basis: "\<forall>x \<in> set (enumerate 0 legs). pos_cost t ref acc (snd x) =
       pos_cost s ref acc (snd x) + leg_basis (x_amount a) (length legs) (fst x)"
    and rest: "\<forall>ref' acc' j. (ref', acc') = (ref, acc) \<and> j \<in> set legs \<or>
       pos_cost t ref' acc' j = pos_cost s ref' acc' j"
    by (elim exE conjE) (rule that; assumption)
  have whole: "sum_list (map (\<lambda>j. pos_cost t ref acc j - pos_cost s ref acc j) legs) = x_amount a"
    using assms(6) basis by (intro sum_short_basis) auto
  show ?thesis
    by (intro exI [of _ t] conjI) (fact set t whole rest short_bases [OF assms(6) basis])+
qed

lemma short_fans_out_witness:
  "\<exists>t. onShort (sample_log (Shorted (sample_trade 1 10 7))) (sample_trade 1 10 7) sample_state = (Inr (), t) \<and>
     pot_of t ''m1'' = 337 \<and> out_shares t ''m1'' 2 = 110 \<and>
     pos_cost t ''m1'' ''0xa1'' 0 = pos_cost sample_state ''m1'' ''0xa1'' 0 + 3 \<and>
     pos_cost t ''m1'' ''0xa1'' 2 = pos_cost sample_state ''m1'' ''0xa1'' 2 + 4"
proof -
  let ?l = "sample_log (Shorted (sample_trade 1 10 7))"
  let ?a = "sample_trade 1 10 7"
  have ref: "marketRef (n_address ?l) (x_marketId ?a) sample_state =
      (Inr (Some ''m1''), sample_state\<lparr>refCache := [refKey ''0xaa'' 7 \<mapsto> ''m1'']\<rparr>)"
    using sample_ref_run by (simp add: sample_log_def sample_trade_def sample_state_def)
  have m: "tfind m_id ''m1'' (markets sample_state) = Some sample_market" by (simp add: sample_defs)
  have legs: "[0, 2] = short_legs (m_outcomeCount sample_market) 1"
    by (simp add: short_legs_def sample_market_def upt_rec)
  have ne: "[0, 2 :: int] \<noteq> []" by simp
  have rows: "\<forall>j. 0 \<le> j \<and> j < m_outcomeCount sample_market \<longrightarrow>
      tfind outcome_key (''m1'', j) (outcomes sample_state) \<noteq> None"
    by (auto simp: sample_defs outcome_key_def)
  have i: "1 = js_number (x_outcomeId ?a)" "''0xa1'' = lower (x_account ?a)" by (simp_all add: sample_trade_def)
  have base: "pot_of sample_state ''m1'' + x_amount ?a = 337" "out_shares sample_state ''m1'' 2 + x_shares ?a = 110"
    "x_amount ?a = 7"
    by (simp_all add: sample_defs pot_of_def out_shares_def outcome_key_def)
  obtain t where "onShort ?l ?a sample_state = (Inr (), t)"
    "\<forall>ref'. pot_of t ref' = pot_of sample_state ref' + (if ref' = ''m1'' then x_amount ?a else 0)"
    "\<forall>ref' j. out_shares t ref' j = out_shares sample_state ref' j +
       (if ref' = ''m1'' \<and> j \<in> set [0, 2] then x_shares ?a else 0)"
    "\<forall>j \<in> set (butlast [0, 2]). pos_cost t ''m1'' ''0xa1'' j =
       pos_cost sample_state ''m1'' ''0xa1'' j + bigint_div (x_amount ?a) (int (length [0, 2 :: int]))"
    "pos_cost t ''m1'' ''0xa1'' (last [0, 2]) = pos_cost sample_state ''m1'' ''0xa1'' (last [0, 2]) +
       (x_amount ?a - bigint_div (x_amount ?a) (int (length [0, 2 :: int])) * int (length [0, 2 :: int] - 1))"
    using short_fans_out [OF ref m i legs ne rows] by (elim exE conjE) (rule that; assumption)
  then show ?thesis using base by (intro exI [of _ t]) simp
qed

text \<open>Shares outstanding against shares held, outcome by outcome: a purchase and a short leave
  the difference exactly as it was, a sale never makes it larger, whether the handler resolves or
  rejects half-way; and no trade creates a second row for one holder and outcome.\<close>

theorem supply_follows_holdings:
  assumes "one_row s" "0 \<le> x_shares a"
  shows "(\<forall>ref i. gap (snd (onTrade l BUY a s)) ref i = gap s ref i) \<and>
    (\<forall>ref i. gap (snd (onTrade l SELL a s)) ref i \<le> gap s ref i) \<and>
    (\<forall>ref i. gap (snd (onShort l a s)) ref i = gap s ref i) \<and>
    one_row (snd (onTrade l BUY a s)) \<and> one_row (snd (onTrade l SELL a s)) \<and> one_row (snd (onShort l a s))"
  using gap_onTrade_buy [of l a] gap_onTrade_sell [OF assms(2), of l] gap_onShort [of l a] assms(1)
  by (auto simp: steps_def gap_eq_def gap_le_def)

lemma supply_follows_holdings_witness:
  "gap (snd (onShort (sample_log (Shorted (sample_trade 1 10 7))) (sample_trade 1 10 7) sample_state)) ''m1'' 0 = 100"
proof -
  have "one_row sample_state" "0 \<le> x_shares (sample_trade 1 10 7)"
    by (simp_all add: sample_defs)
  moreover have "gap sample_state ''m1'' 0 = 100"
    by (simp add: sample_defs gap_def held_def out_shares_def outcome_key_def)
  ultimately show ?thesis using supply_follows_holdings by metis
qed

end
