(* ===== verification/PoolMirror.thy ===== *)
theory PoolMirror
  imports Schema Effects
begin

text \<open>
  The shielded pool's mirror and trees: \<open>src/src/pool/pool-indexer.service.ts\<close> and
  \<open>src/src/pool/pool.tree.ts\<close>. The Merkle tree is \<open>@zk-kit/lean-imt\<close>'s, an append-only tree whose
  root is a function of the leaves in the order of insertion: the model's tree is that list, and the
  root function is a parameter. The node and the database's transaction outcome are parameters too.
\<close>

section \<open>Trees\<close>

record leaf_row =
  lf_kind :: leaf_kind
  lf_commitment :: string
  lf_label :: "string option"

text \<open>\<open>BigInt(..)\<close> of a malformed string throws: \<open>None\<close>.\<close>

fun buildStateTree :: "leaf_row list \<Rightarrow> int list option" where
  "buildStateTree [] = Some []"
| "buildStateTree (l # ls) = (case bigint_of_string (lf_commitment l) of
     None \<Rightarrow> None | Some c \<Rightarrow> map_option ((#) c) (buildStateTree ls))"

fun buildAspTree :: "leaf_row list \<Rightarrow> int list option" where
  "buildAspTree [] = Some []"
| "buildAspTree (l # ls) = (case (lf_kind l, lf_label l) of
     (DEPOSIT, Some label) \<Rightarrow> (case bigint_of_string label of
         None \<Rightarrow> None | Some c \<Rightarrow> map_option ((#) c) (buildAspTree ls))
   | _ \<Rightarrow> buildAspTree ls)"

text \<open>The loop of \<open>aspRootHistory\<close>, with the tree built so far.\<close>

fun asp_roots :: "(int list \<Rightarrow> int) \<Rightarrow> int list \<Rightarrow> leaf_row list \<Rightarrow> int list option" where
  "asp_roots rootOf tree [] = Some []"
| "asp_roots rootOf tree (l # ls) = (case (lf_kind l, lf_label l) of
     (DEPOSIT, Some label) \<Rightarrow> (case bigint_of_string label of
         None \<Rightarrow> None
       | Some c \<Rightarrow> map_option ((#) (rootOf (tree @ [c]))) (asp_roots rootOf (tree @ [c]) ls))
   | _ \<Rightarrow> asp_roots rootOf tree ls)"

definition aspRootHistory :: "(int list \<Rightarrow> int) \<Rightarrow> leaf_row list \<Rightarrow> nat \<Rightarrow> int list option" where
  "aspRootHistory rootOf leaves depth = map_option (slice_last depth) (asp_roots rootOf [] leaves)"

section \<open>The leaf indexer\<close>

datatype pool_event =
    Deposited int int int int  \<comment> \<open>commitment, label, value, precommitment hash\<close>
  | Withdrawn int int int  \<comment> \<open>new commitment, value, spent nullifier\<close>
  | PoolOther string

record pool_log =
  pl_event :: pool_event
  pl_block :: int
  pl_tx :: string
  pl_index :: int

record pool_rpc =
  pr_head :: "int option"
  pr_logs :: "int \<Rightarrow> int \<Rightarrow> pool_log list option"
  pr_commits :: bool

record pool_config =
  pc_startBlock :: int
  pc_confirmations :: int
  pc_batchBlocks :: int

definition toLeaf :: "pool_log \<Rightarrow> pool_leaf option" where
  "toLeaf l = (case pl_event l of
      Deposited c lab v pre \<Rightarrow> Some
        \<lparr>l_block = pl_block l, l_logIndex = pl_index l, l_tx = lower (pl_tx l), l_kind = DEPOSIT,
         l_commitment = dec c, l_label = Some (dec lab), l_value = dec v,
         l_precommitment = Some (dec pre), l_spent = None\<rparr>
    | Withdrawn c v n \<Rightarrow> Some
        \<lparr>l_block = pl_block l, l_logIndex = pl_index l, l_tx = lower (pl_tx l), l_kind = CHANGE,
         l_commitment = dec c, l_label = None, l_value = dec v,
         l_precommitment = None, l_spent = Some (dec n)\<rparr>
    | PoolOther _ \<Rightarrow> None)"

definition leafOrder :: "pool_leaf \<Rightarrow> pool_leaf \<Rightarrow> int" where
  "leafOrder a b = (if l_block a = l_block b then l_logIndex a - l_logIndex b
     else js_number (l_block a - l_block b))"

text \<open>\<open>upsert\<close> with \<open>update: row\<close>: the columns the row does not mention keep their value.\<close>

definition overwrite_leaf :: "pool_leaf \<Rightarrow> pool_leaf \<Rightarrow> pool_leaf" where
  "overwrite_leaf row old = row\<lparr>
     l_label := (case l_label row of None \<Rightarrow> l_label old | Some x \<Rightarrow> Some x),
     l_precommitment := (case l_precommitment row of None \<Rightarrow> l_precommitment old | Some x \<Rightarrow> Some x),
     l_spent := (case l_spent row of None \<Rightarrow> l_spent old | Some x \<Rightarrow> Some x)\<rparr>"

definition upsertLeaf :: "pool_leaf \<Rightarrow> pool_leaf list \<Rightarrow> pool_leaf list" where
  "upsertLeaf row = tupsert leaf_key (leaf_key row) row (overwrite_leaf row)"

record pool_state = db +
  caughtUp :: bool

definition POOL_STREAM :: string where
  "POOL_STREAM = ''pool''"

definition poolNextFromBlock :: "pool_config \<Rightarrow> 'a db_scheme \<Rightarrow> int" where
  "poolNextFromBlock C s = (case tfind k_stream POOL_STREAM (cursors s) of
     None \<Rightarrow> pc_startBlock C | Some c \<Rightarrow> k_last c + 1)"

datatype pool_tick_error = PoolRpcFailed | TransactionFailed

definition poolRows :: "pool_log list \<Rightarrow> pool_leaf list" where
  "poolRows logs = js_sort leafOrder (List.map_filter toLeaf logs)"

text \<open>The leaves and the cursor are one transaction: all of it is written or none.\<close>

definition commitPage :: "pool_leaf list \<Rightarrow> int \<Rightarrow> pool_state \<Rightarrow> pool_state" where
  "commitPage rows to s = s\<lparr>poolLeaves := fold upsertLeaf rows (poolLeaves s),
     cursors := tupsert k_stream POOL_STREAM \<lparr>k_stream = POOL_STREAM, k_last = to\<rparr>
       (\<lambda>c. c\<lparr>k_last := to\<rparr>) (cursors s)\<rparr>"

definition poolSafeHead :: "pool_config \<Rightarrow> int \<Rightarrow> int" where
  "poolSafeHead C head = (if pc_confirmations C < head then head - pc_confirmations C else 0)"

definition poolTick :: "pool_config \<Rightarrow> pool_rpc \<Rightarrow> (pool_state, pool_tick_error, bool) proc" where
  "poolTick C R = (\<lambda>s.
     case pr_head R of None \<Rightarrow> (Inl PoolRpcFailed, s)
     | Some head \<Rightarrow>
         (let safeHead = poolSafeHead C head; start = poolNextFromBlock C s
          in if safeHead < start then (Inr True, s\<lparr>caughtUp := True\<rparr>)
             else (let to = (if start + pc_batchBlocks C - 1 < safeHead
                             then start + pc_batchBlocks C - 1 else safeHead)
                   in case pr_logs R start to of None \<Rightarrow> (Inl PoolRpcFailed, s)
                      | Some logs \<Rightarrow>
                          if \<not> pr_commits R then (Inl TransactionFailed, s)
                          else (let t = commitPage (poolRows logs) to s; fin = (safeHead \<le> to)
                                in (Inr fin, if fin then t\<lparr>caughtUp := True\<rparr> else t)))))"

text \<open>\<open>leaves()\<close> of \<open>src/src/pool/pool.service.ts\<close>: the table in chain order.\<close>

definition leavesInOrder :: "'a db_scheme \<Rightarrow> pool_leaf list" where
  "leavesInOrder s = js_sort leafOrder (poolLeaves s)"

definition leafRow :: "pool_leaf \<Rightarrow> leaf_row" where
  "leafRow l = \<lparr>lf_kind = l_kind l, lf_commitment = l_commitment l, lf_label = l_label l\<rparr>"

section \<open>Order and keys\<close>

lemma js_trim_dec_neg: "js_trim (CHR ''-'' # dec_nat n) = CHR ''-'' # dec_nat n"
proof -
  have "\<not> js_space c" if "c \<in> set (CHR ''-'' # dec_nat n)" for c
    using that dec_nat_digits [of c n] digit_not_space [of c] by (auto simp: js_space_def)
  then show ?thesis by (simp add: js_trim_def dropWhile_none del: dropWhile.simps)
qed

lemma bigint_of_string_dec_all [simp]: "bigint_of_string (dec i) = Some i"
proof (cases "0 \<le> i")
  case False
  then have "dec i = CHR ''-'' # dec_nat (nat (- i))" by (simp add: dec_def)
  then show ?thesis
    using False by (simp add: bigint_of_string_def Let_def js_trim_dec_neg bigint_unsigned_def digits_val_dec_nat)
qed (rule bigint_of_string_dec)

interpretation leaf_order: comparator leafOrder
proof
  have le: "leafOrder a b \<le> 0 \<longleftrightarrow> l_block a < l_block b \<or> l_block a = l_block b \<and> l_logIndex a \<le> l_logIndex b" for a b
    by (auto simp: leafOrder_def)
  show "leafOrder y x \<le> 0" if "0 < leafOrder x y" for x y
    using that by (metis le leD linorder_neqE not_le_imp_less order_less_imp_le)
  show "leafOrder x z \<le> 0" if "leafOrder x y \<le> 0" "leafOrder y z \<le> 0" for x y z
    using that unfolding le by auto
qed

lemma leafOrder_le:
  "leafOrder a b \<le> 0 \<longleftrightarrow> l_block a < l_block b \<or> l_block a = l_block b \<and> l_logIndex a \<le> l_logIndex b"
  by (auto simp: leafOrder_def)

lemma toLeaf_place: "toLeaf l = Some r \<Longrightarrow> l_block r = pl_block l \<and> l_logIndex r = pl_index l \<and> l_tx r = lower (pl_tx l)"
  by (auto simp: toLeaf_def split: pool_event.splits)

lemma overwrite_same [simp]: "overwrite_leaf r r = r"
  by (simp add: overwrite_leaf_def split: option.splits)

lemma leaf_key_overwrite [simp]: "leaf_key (overwrite_leaf row old) = leaf_key row"
  by (simp add: overwrite_leaf_def leaf_key_def)

lemma upsertLeaf_new: "tfind leaf_key (leaf_key r) t = None \<Longrightarrow> upsertLeaf r t = t @ [r]"
  by (simp add: upsertLeaf_def tupsert_def)

lemma fold_upsert_new:
  assumes "distinct (map leaf_key (t @ rows))"
  shows "fold upsertLeaf rows t = t @ rows"
  using assms
proof (induction rows arbitrary: t)
  case (Cons r rows)
  then have "tfind leaf_key (leaf_key r) t = None" by (auto simp: tfind_None_iff)
  with Cons show ?case by (simp add: upsertLeaf_new)
qed simp

lemma upsertLeaf_present:
  assumes "r \<in> set t" "distinct (map leaf_key t)"
  shows "upsertLeaf r t = t"
proof -
  have found: "tfind leaf_key (leaf_key r) t \<noteq> None" using assms(1) by (auto simp: tfind_None_iff)
  have "map (\<lambda>x. if leaf_key x = leaf_key r then overwrite_leaf r x else x) t = t"
  proof (rule map_idI)
    fix x
    assume "x \<in> set t"
    then have "leaf_key x = leaf_key r \<Longrightarrow> x = r" using assms by (metis distinct_map inj_onD)
    then show "(if leaf_key x = leaf_key r then overwrite_leaf r x else x) = x" by auto
  qed
  with found show ?thesis by (auto simp: upsertLeaf_def tupsert_def tupdate_def split: option.splits)
qed

lemma fold_upsert_present: "set rows \<subseteq> set t \<Longrightarrow> distinct (map leaf_key t) \<Longrightarrow> fold upsertLeaf rows t = t"
  by (induction rows) (auto simp: upsertLeaf_present)

end
