(* ===== verification/PoolProps.thy ===== *)
theory PoolProps
  imports PoolMirror
begin

text \<open>
  The mirror is the chain's leaf sequence: no gap, no duplicate, in insertion order, whatever ticks
  failed in between; reading a span again changes nothing; and the association roots offered to
  withdrawals are the roots of the label sequence's prefixes.
\<close>

section \<open>The mirror\<close>

definition chainLeaves :: "pool_log list \<Rightarrow> int \<Rightarrow> int \<Rightarrow> pool_leaf list" where
  "chainLeaves hist start to =
     List.map_filter toLeaf (filter (\<lambda>l. start \<le> pl_block l \<and> pl_block l \<le> to) hist)"

text \<open>What a node answers is the history of the span, in any order.\<close>

definition pool_serves :: "pool_rpc \<Rightarrow> pool_log list \<Rightarrow> bool" where
  "pool_serves R hist \<longleftrightarrow> (\<forall>f t ls. pr_logs R f t = Some ls \<longrightarrow>
     mset ls = mset (filter (\<lambda>l. f \<le> pl_block l \<and> pl_block l \<le> t) hist))"

text \<open>A log has one place on the chain, and one transaction and index.\<close>

definition pool_keyed :: "pool_log list \<Rightarrow> bool" where
  "pool_keyed hist \<longleftrightarrow> distinct hist \<and> inj_on (\<lambda>l. (lower (pl_tx l), pl_index l)) (set hist) \<and>
     inj_on (\<lambda>l. (pl_block l, pl_index l)) (set hist)"

lemma mset_map_filter: "mset xs = mset ys \<Longrightarrow> mset (List.map_filter f xs) = mset (List.map_filter f ys)"
  by (simp add: List.map_filter_def)

lemma set_chainLeaves:
  "r \<in> set (chainLeaves hist start to) \<longleftrightarrow>
     (\<exists>l \<in> set hist. toLeaf l = Some r \<and> start \<le> pl_block l \<and> pl_block l \<le> to)"
  by (force simp: chainLeaves_def List.map_filter_def)

lemma chainLeaves_split:
  assumes "f \<le> m" "m \<le> t + 1"
  shows "mset (chainLeaves hist f t) = mset (chainLeaves hist f (m - 1)) + mset (chainLeaves hist m t)"
  using assms by (induction hist) (auto simp: chainLeaves_def List.map_filter_simps split: option.splits)

lemma poolRows_served:
  assumes "pool_serves R hist" "pr_logs R f t = Some logs"
  shows "mset (poolRows logs) = mset (chainLeaves hist f t)"
  using assms by (auto simp: poolRows_def chainLeaves_def pool_serves_def intro!: mset_map_filter)

lemma toLeaf_key: "toLeaf l = Some r \<Longrightarrow> leaf_key r = (lower (pl_tx l), pl_index l)"
  by (auto simp: leaf_key_def dest: toLeaf_place)

lemma distinct_chainLeaves:
  assumes "pool_keyed hist"
  shows "distinct (map leaf_key (chainLeaves hist f t))"
proof -
  have keys: "map leaf_key (List.map_filter toLeaf xs) =
      map (\<lambda>l. (lower (pl_tx l), pl_index l)) (filter (\<lambda>l. toLeaf l \<noteq> None) xs)" for xs
  proof (induction xs)
    case (Cons l xs)
    then show ?case by (cases "toLeaf l") (simp_all add: List.map_filter_simps toLeaf_key)
  qed (simp add: List.map_filter_simps)
  have "distinct (map (\<lambda>l. (lower (pl_tx l), pl_index l)) hist)"
    using assms unfolding pool_keyed_def distinct_map by blast
  then show ?thesis unfolding chainLeaves_def keys filter_filter by (rule List.distinct_map_filter)
qed

lemma chainLeaves_tie:
  assumes "pool_keyed hist" "a \<in> set (chainLeaves hist f t)" "b \<in> set (chainLeaves hist f t)"
    and "leafOrder a b \<le> 0" "leafOrder b a \<le> 0"
  shows "a = b"
proof -
  obtain k l where k: "k \<in> set hist" "toLeaf k = Some a" and l: "l \<in> set hist" "toLeaf l = Some b"
    using assms(2,3) by (auto simp: set_chainLeaves)
  have "l_block a = l_block b \<and> l_logIndex a = l_logIndex b"
    using assms(4,5) unfolding leafOrder_le by linarith
  then have "(pl_block k, pl_index k) = (pl_block l, pl_index l)"
    using toLeaf_place [OF k(2)] toLeaf_place [OF l(2)] by simp
  moreover have "inj_on (\<lambda>l. (pl_block l, pl_index l)) (set hist)" using assms(1) by (simp add: pool_keyed_def)
  ultimately have "k = l" using k(1) l(1) by (meson inj_onD)
  with k l show ?thesis by simp
qed

definition mirrors :: "pool_config \<Rightarrow> pool_log list \<Rightarrow> pool_state \<Rightarrow> bool" where
  "mirrors C hist s \<longleftrightarrow> pc_startBlock C \<le> poolNextFromBlock C s \<and>
     mset (poolLeaves s) = mset (chainLeaves hist (pc_startBlock C) (poolNextFromBlock C s - 1))"

lemma mirrors_frame:
  "poolLeaves t = poolLeaves s \<Longrightarrow> cursors t = cursors s \<Longrightarrow> mirrors C hist s \<Longrightarrow> mirrors C hist t"
  by (simp add: mirrors_def poolNextFromBlock_def)

lemma pool_cursor_saved: "poolNextFromBlock C (commitPage rows to s) = to + 1"
  using cursor_rows.lookup_upsert [of "\<lparr>k_stream = POOL_STREAM, k_last = to\<rparr>" POOL_STREAM
      "\<lambda>c. c\<lparr>k_last := to\<rparr>" POOL_STREAM "cursors s"]
  by (simp add: poolNextFromBlock_def commitPage_def split: option.splits)

lemma commitPage_mirrors:
  assumes "pool_keyed hist" "mirrors C hist s" "poolNextFromBlock C s \<le> to + 1"
    and "mset rows = mset (chainLeaves hist (poolNextFromBlock C s) to)"
  shows "mirrors C hist (commitPage rows to s)"
proof -
  let ?m = "poolNextFromBlock C s"
  have split: "mset (chainLeaves hist (pc_startBlock C) to) = mset (poolLeaves s) + mset rows"
    using chainLeaves_split [of "pc_startBlock C" ?m to hist] assms(2-4) by (simp add: mirrors_def)
  then have "mset (map leaf_key (poolLeaves s @ rows)) = mset (map leaf_key (chainLeaves hist (pc_startBlock C) to))"
    by simp
  then have "distinct (map leaf_key (poolLeaves s @ rows))"
    using distinct_chainLeaves [OF assms(1)] mset_eq_imp_distinct_iff by blast
  then have "poolLeaves (commitPage rows to s) = poolLeaves s @ rows"
    by (simp add: commitPage_def fold_upsert_new)
  then show ?thesis
    using split assms(2,3) by (simp add: mirrors_def pool_cursor_saved)
qed

lemma poolTick_mirrors:
  assumes "poolTick C R s = (r, t)" "pool_serves R hist" "pool_keyed hist" "1 \<le> pc_batchBlocks C" "mirrors C hist s"
  shows "mirrors C hist t"
proof (cases "pr_head R")
  case None
  then show ?thesis using assms(1,5) by (simp add: poolTick_def)
next
  case (Some head)
  let ?safe = "poolSafeHead C head"
  let ?start = "poolNextFromBlock C s"
  let ?to = "if ?start + pc_batchBlocks C - 1 < ?safe then ?start + pc_batchBlocks C - 1 else ?safe"
  show ?thesis
  proof (cases "?safe < ?start")
    case True
    then have "t = s\<lparr>caughtUp := True\<rparr>" using assms(1) Some by (simp add: poolTick_def)
    then show ?thesis using assms(5) by (auto intro: mirrors_frame)
  next
    case False
    then have le: "?start \<le> ?to + 1" using assms(4) by auto
    show ?thesis
    proof (cases "pr_logs R ?start ?to")
      case None
      then have "t = s" using assms(1) Some False by (simp add: poolTick_def Let_def)
      then show ?thesis using assms(5) by simp
    next
      case (Some logs)
      have rows: "mset (poolRows logs) = mset (chainLeaves hist ?start ?to)"
        using poolRows_served [OF assms(2) Some] .
      have "t = s \<or> t = commitPage (poolRows logs) ?to s \<or> t = (commitPage (poolRows logs) ?to s)\<lparr>caughtUp := True\<rparr>"
        using assms(1) \<open>pr_head R = Some head\<close> False Some by (auto simp: poolTick_def Let_def split: if_splits)
      then show ?thesis
        using commitPage_mirrors [OF assms(3,5) le rows] assms(5)
          mirrors_frame [of "(commitPage (poolRows logs) ?to s)\<lparr>caughtUp := True\<rparr>" "commitPage (poolRows logs) ?to s"]
        by auto
    qed
  qed
qed

inductive pool_ticks :: "pool_config \<Rightarrow> pool_log list \<Rightarrow> pool_state \<Rightarrow> pool_state \<Rightarrow> bool"
  for C hist s where
  start: "pool_ticks C hist s s"
| tick: "pool_ticks C hist s t \<Longrightarrow> pool_serves R hist \<Longrightarrow> poolTick C R t = (r, u) \<Longrightarrow> pool_ticks C hist s u"

lemma pool_ticks_mirrors:
  assumes "pool_ticks C hist s t" "pool_keyed hist" "1 \<le> pc_batchBlocks C" "mirrors C hist s"
  shows "mirrors C hist t"
  using assms by (induction rule: pool_ticks.induct) (auto intro: poolTick_mirrors)

lemma buildStateTree_chain:
  assumes "set rows \<subseteq> set (chainLeaves hist f t)"
  shows "buildStateTree (map leafRow rows) = Some (map (\<lambda>r. the (bigint_of_string (l_commitment r))) rows)"
  using assms
proof (induction rows)
  case (Cons r rows)
  then obtain l where "toLeaf l = Some r" by (auto simp: set_chainLeaves)
  then obtain c where "l_commitment r = dec c" by (auto simp: toLeaf_def split: pool_event.splits)
  with Cons show ?case by (simp add: leafRow_def)
qed simp

text \<open>The commitments the pool contract inserted in a span of blocks, in the order it did: the history
  itself is in the order of the chain.\<close>

definition in_chain_order :: "pool_log list \<Rightarrow> bool" where
  "in_chain_order hist \<longleftrightarrow> sorted_wrt (\<lambda>k l. pl_block k < pl_block l \<or>
     pl_block k = pl_block l \<and> pl_index k < pl_index l) hist"

definition commitmentOf :: "pool_log \<Rightarrow> int option" where
  "commitmentOf l = (case pl_event l of Deposited c _ _ _ \<Rightarrow> Some c | Withdrawn c _ _ \<Rightarrow> Some c | PoolOther _ \<Rightarrow> None)"

definition insertions :: "pool_log list \<Rightarrow> int \<Rightarrow> int \<Rightarrow> int list" where
  "insertions hist f t = List.map_filter commitmentOf (filter (\<lambda>l. f \<le> pl_block l \<and> pl_block l \<le> t) hist)"

lemma insertions_chainLeaves:
  "map (\<lambda>r. the (bigint_of_string (l_commitment r))) (chainLeaves hist f t) = insertions hist f t"
  by (induction hist)
    (auto simp: chainLeaves_def insertions_def List.map_filter_simps toLeaf_def commitmentOf_def split: pool_event.splits)

lemma sorted_chainLeaves:
  "in_chain_order hist \<Longrightarrow> sorted_wrt (\<lambda>a b. leafOrder a b \<le> 0) (chainLeaves hist f t)"
proof (induction hist)
  case (Cons l hist)
  have "leafOrder a b \<le> 0" if la: "toLeaf l = Some a" and b: "b \<in> set (chainLeaves hist f t)" for a b
  proof -
    obtain k where k: "k \<in> set hist" "toLeaf k = Some b" using b by (auto simp: set_chainLeaves)
    have "pl_block l < pl_block k \<or> pl_block l = pl_block k \<and> pl_index l < pl_index k"
      using Cons.prems k(1) by (auto simp: in_chain_order_def)
    then show ?thesis using toLeaf_place [OF la] toLeaf_place [OF k(2)] by (auto simp: leafOrder_le)
  qed
  moreover have "sorted_wrt (\<lambda>a b. leafOrder a b \<le> 0) (chainLeaves hist f t)"
    using Cons by (simp add: in_chain_order_def)
  moreover have "chainLeaves (l # hist) f t =
      (if f \<le> pl_block l \<and> pl_block l \<le> t then (case toLeaf l of None \<Rightarrow> [] | Some a \<Rightarrow> [a]) else []) @ chainLeaves hist f t"
    by (simp add: chainLeaves_def List.map_filter_simps split: option.splits)
  ultimately show ?case by (auto split: option.splits)
qed (simp add: chainLeaves_def List.map_filter_simps)

lemma leavesInOrder_chain:
  assumes "pool_keyed hist" "in_chain_order hist" "mirrors C hist s"
  shows "leavesInOrder s = chainLeaves hist (pc_startBlock C) (poolNextFromBlock C s - 1)"
  unfolding leavesInOrder_def
proof (rule leaf_order.js_sort_unique)
  show "mset (poolLeaves s) = mset (chainLeaves hist (pc_startBlock C) (poolNextFromBlock C s - 1))"
    using assms(3) by (simp add: mirrors_def)
  show "sorted_wrt (\<lambda>a b. leafOrder a b \<le> 0) (chainLeaves hist (pc_startBlock C) (poolNextFromBlock C s - 1))"
    by (rule sorted_chainLeaves [OF assms(2)])
qed (use chainLeaves_tie [OF assms(1)] in auto)

section \<open>Association roots\<close>

lemma asp_roots_prefixes:
  "asp_roots rootOf tree leaves =
     map_option (\<lambda>labels. map (\<lambda>n. rootOf (tree @ take (Suc n) labels)) [0..<length labels]) (buildAspTree leaves)"
proof (induction leaves arbitrary: tree)
  case (Cons l ls)
  have shift: "map (\<lambda>n. rootOf (tree @ take (Suc n) (c # labels))) [0..<length (c # labels)] =
      rootOf (tree @ [c]) # map (\<lambda>n. rootOf ((tree @ [c]) @ take (Suc n) labels)) [0..<length labels]" for c labels
    by (simp add: upt_conv_Cons map_Suc_upt [symmetric] del: upt_Suc)
  show ?case
  proof (cases "lf_kind l = DEPOSIT \<and> lf_label l \<noteq> None")
    case True
    then obtain x where x: "lf_kind l = DEPOSIT" "lf_label l = Some x" by auto
    show ?thesis
    proof (cases "bigint_of_string x")
      case (Some c)
      then show ?thesis
        using Cons [of "tree @ [c]"] x shift by (cases "buildAspTree ls") (simp_all add: comp_def)
    qed (use x in simp)
  next
    case False
    then show ?thesis using Cons by (auto split: leaf_kind.splits option.splits)
  qed
qed simp

lemma buildAspTree_chain:
  assumes "set rows \<subseteq> set (chainLeaves hist f t)"
  shows "buildAspTree (map leafRow rows) =
    Some (List.map_filter (\<lambda>r. map_option (\<lambda>x. the (bigint_of_string x)) (l_label r)) rows)"
  using assms
proof (induction rows)
  case (Cons r rows)
  then obtain l where "toLeaf l = Some r" by (auto simp: set_chainLeaves)
  then have "l_kind r = DEPOSIT \<and> (\<exists>c. l_label r = Some (dec c)) \<or> l_kind r = CHANGE \<and> l_label r = None"
    by (auto simp: toLeaf_def split: pool_event.splits)
  then show ?case
    using Cons by (auto simp: leafRow_def List.map_filter_simps)
qed (simp add: List.map_filter_simps)

section \<open>Properties\<close>

text \<open>C5. The mirror is the chain: after any sequence of leaf-indexer ticks, failing and retrying as
  they may, the leaves read for a proof are exactly the pool's leaves from the start block to the cursor,
  each once and in the order the contract inserted them, so the state tree built from them is the
  contract's.\<close>

theorem mirror_is_the_chain:
  assumes "pool_ticks C hist s t" "pool_keyed hist" "in_chain_order hist" "1 \<le> pc_batchBlocks C"
    and "poolLeaves s = []" "cursors s = []"
  shows "leavesInOrder t = chainLeaves hist (pc_startBlock C) (poolNextFromBlock C t - 1) \<and>
    distinct (map leaf_key (leavesInOrder t)) \<and>
    buildStateTree (map leafRow (leavesInOrder t)) =
      Some (insertions hist (pc_startBlock C) (poolNextFromBlock C t - 1))"
proof -
  have "chainLeaves hist (pc_startBlock C) (pc_startBlock C - 1) = []"
    by (simp add: chainLeaves_def List.map_filter_def)
  then have "mirrors C hist s" using assms(5,6) by (simp add: mirrors_def poolNextFromBlock_def)
  then have "mirrors C hist t" by (rule pool_ticks_mirrors [OF assms(1,2,4)])
  then have eq: "leavesInOrder t = chainLeaves hist (pc_startBlock C) (poolNextFromBlock C t - 1)"
    by (rule leavesInOrder_chain [OF assms(2,3)])
  show ?thesis
    unfolding eq using distinct_chainLeaves [OF assms(2)] buildStateTree_chain [OF order_refl]
    by (simp add: insertions_chainLeaves)
qed

definition sample_pool_config :: pool_config where
  "sample_pool_config = \<lparr>pc_startBlock = 5, pc_confirmations = 1, pc_batchBlocks = 100\<rparr>"

definition sample_pool_hist :: "pool_log list" where
  "sample_pool_hist =
     [\<lparr>pl_event = Deposited 11 21 5 31, pl_block = 6, pl_tx = ''0xA'', pl_index = 0\<rparr>,
      \<lparr>pl_event = Withdrawn 12 2 41, pl_block = 7, pl_tx = ''0xB'', pl_index = 0\<rparr>]"

definition sample_pool_rpc :: pool_rpc where
  "sample_pool_rpc = \<lparr>pr_head = Some 10,
     pr_logs = (\<lambda>f t. Some (filter (\<lambda>l. f \<le> pl_block l \<and> pl_block l \<le> t) sample_pool_hist)), pr_commits = True\<rparr>"

definition empty_pool :: pool_state where
  "empty_pool = \<lparr>markets = [], outcomes = [], trades = [], positions = [], pricePoints = [], drafts = [],
     categories = [], proposals = [], bans = [], poolLeaves = [], cursors = [], caughtUp = False\<rparr>"

lemma sample_pool_ok:
  "pool_serves sample_pool_rpc sample_pool_hist" "pool_keyed sample_pool_hist"
  "in_chain_order sample_pool_hist" "1 \<le> pc_batchBlocks sample_pool_config"
proof -
  show "pool_serves sample_pool_rpc sample_pool_hist" by (auto simp: pool_serves_def sample_pool_rpc_def)
  have "lower ''0xA'' \<noteq> lower ''0xB''" by code_simp
  then show "pool_keyed sample_pool_hist" by (simp add: pool_keyed_def sample_pool_hist_def)
  show "in_chain_order sample_pool_hist" by (simp add: in_chain_order_def sample_pool_hist_def)
  show "1 \<le> pc_batchBlocks sample_pool_config" by (simp add: sample_pool_config_def)
qed

lemma mirror_is_the_chain_witness:
  "\<exists>t. pool_ticks sample_pool_config sample_pool_hist empty_pool t \<and> poolNextFromBlock sample_pool_config t = 10 \<and>
     buildStateTree (map leafRow (leavesInOrder t)) = Some (insertions sample_pool_hist 5 9)"
proof -
  obtain r t where t: "poolTick sample_pool_config sample_pool_rpc empty_pool = (r, t)" by fastforce
  then have run: "pool_ticks sample_pool_config sample_pool_hist empty_pool t"
    by (rule pool_ticks.tick [OF pool_ticks.start sample_pool_ok(1)])
  have "poolNextFromBlock sample_pool_config empty_pool = 5"
    by (simp add: poolNextFromBlock_def empty_pool_def sample_pool_config_def)
  then have "t = commitPage (poolRows sample_pool_hist) 9 empty_pool\<lparr>caughtUp := True\<rparr>"
    using t by (simp add: poolTick_def sample_pool_rpc_def sample_pool_config_def poolSafeHead_def
        sample_pool_hist_def Let_def)
  then have "poolNextFromBlock sample_pool_config t = 10"
    using pool_cursor_saved [of sample_pool_config "poolRows sample_pool_hist" 9 empty_pool]
    by (simp add: poolNextFromBlock_def)
  moreover have "poolLeaves empty_pool = []" "cursors empty_pool = []" by (simp_all add: empty_pool_def)
  ultimately show ?thesis
    using mirror_is_the_chain [OF run sample_pool_ok(2-4)] run by (auto simp: sample_pool_config_def)
qed

text \<open>Reading a span again is free: when every leaf of the span is already mirrored, committing it
  once more changes no leaf, so a failed tick or a rewound cursor cannot duplicate or disturb the tree.\<close>

theorem pool_rescan_is_free:
  assumes "pool_keyed hist" "pool_serves R hist" "mirrors C hist s"
    and "pr_logs R f t = Some logs" "pc_startBlock C \<le> f" "t < poolNextFromBlock C s"
  shows "poolLeaves (commitPage (poolRows logs) to s) = poolLeaves s"
proof -
  have mirror: "mset (poolLeaves s) = mset (chainLeaves hist (pc_startBlock C) (poolNextFromBlock C s - 1))"
    using assms(3) by (simp add: mirrors_def)
  have "set (poolRows logs) = set (chainLeaves hist f t)"
    using poolRows_served [OF assms(2,4)] by (rule mset_eq_setD)
  also have "\<dots> \<subseteq> set (chainLeaves hist (pc_startBlock C) (poolNextFromBlock C s - 1))"
    using assms(5,6) by (force simp: set_chainLeaves)
  also have "\<dots> = set (poolLeaves s)" using mirror mset_eq_setD by metis
  finally have "set (poolRows logs) \<subseteq> set (poolLeaves s)" .
  moreover have "mset (map leaf_key (poolLeaves s)) =
      mset (map leaf_key (chainLeaves hist (pc_startBlock C) (poolNextFromBlock C s - 1)))"
    using mirror by simp
  then have "distinct (map leaf_key (poolLeaves s))"
    using distinct_chainLeaves [OF assms(1)] mset_eq_imp_distinct_iff by blast
  ultimately show ?thesis by (simp add: commitPage_def fold_upsert_present)
qed

lemma pool_rescan_is_free_witness:
  "poolLeaves (commitPage (poolRows sample_pool_hist) 9 (commitPage (poolRows sample_pool_hist) 9 empty_pool)) =
     poolLeaves (commitPage (poolRows sample_pool_hist) 9 empty_pool)"
proof -
  let ?s = "commitPage (poolRows sample_pool_hist) 9 empty_pool"
  have logs: "pr_logs sample_pool_rpc 5 9 = Some sample_pool_hist"
    by (simp add: sample_pool_rpc_def sample_pool_hist_def)
  have "chainLeaves sample_pool_hist 5 4 = []" by (simp add: chainLeaves_def sample_pool_hist_def List.map_filter_def)
  then have "mirrors sample_pool_config sample_pool_hist empty_pool"
    by (simp add: mirrors_def poolNextFromBlock_def empty_pool_def sample_pool_config_def)
  moreover have next_block: "poolNextFromBlock sample_pool_config empty_pool = 5"
    by (simp add: poolNextFromBlock_def empty_pool_def sample_pool_config_def)
  ultimately have "mirrors sample_pool_config sample_pool_hist ?s"
    using poolRows_served [OF sample_pool_ok(1) logs] by (intro commitPage_mirrors [OF sample_pool_ok(2)]) simp_all
  then show ?thesis
    using pool_rescan_is_free [OF sample_pool_ok(2,1) _ logs, of sample_pool_config ?s 9] pool_cursor_saved
    by (simp add: sample_pool_config_def)
qed

text \<open>C27. The association roots a withdrawal may name are the roots of the deposit labels' prefixes: the
  list ends with the current association root, holds the most recent \<open>depth\<close> of them, and every root in
  it approves only deposits the current set approves.\<close>

theorem asp_history_is_prefix_roots:
  assumes "buildAspTree leaves = Some labels" "0 < depth"
  shows "aspRootHistory rootOf leaves depth =
      Some (slice_last depth (map (\<lambda>n. rootOf (take (Suc n) labels)) [0..<length labels])) \<and>
    (\<forall>roots. aspRootHistory rootOf leaves depth = Some roots \<longrightarrow>
       length roots = min depth (length labels) \<and>
       (labels \<noteq> [] \<longrightarrow> last roots = rootOf labels) \<and>
       (\<forall>r \<in> set roots. \<exists>n. r = rootOf (take n labels) \<and> set (take n labels) \<subseteq> set labels))"
proof -
  let ?all = "map (\<lambda>n. rootOf (take (Suc n) labels)) [0..<length labels]"
  have hist: "aspRootHistory rootOf leaves depth = Some (slice_last depth ?all)"
    using assms(1) by (simp add: aspRootHistory_def asp_roots_prefixes)
  have "last (slice_last depth ?all) = rootOf labels" if "labels \<noteq> []"
    using that by (simp add: last_slice_last last_map)
  moreover have "\<exists>n. r = rootOf (take n labels) \<and> set (take n labels) \<subseteq> set labels" if "r \<in> set (slice_last depth ?all)" for r
    using that set_slice_last [of depth ?all] set_take_subset by fastforce
  ultimately show ?thesis using hist assms(2) by (auto simp: length_slice_last)
qed

lemma asp_history_is_prefix_roots_witness:
  "aspRootHistory sum_list (map (\<lambda>i. \<lparr>lf_kind = DEPOSIT, lf_commitment = dec 1, lf_label = Some (dec i)\<rparr>) [3, 4]) 32 =
     Some [3, 7]"
proof -
  have "buildAspTree (map (\<lambda>i. \<lparr>lf_kind = DEPOSIT, lf_commitment = dec 1, lf_label = Some (dec i)\<rparr>) [3, 4]) = Some [3, 4]"
    by simp
  from asp_history_is_prefix_roots [OF this, of 32 sum_list] show ?thesis
    by (simp add: slice_last_def)
qed

end
