(* ===== verification/PromiseChain.thy ===== *)
theory PromiseChain
  imports Prelude
begin

text \<open>
  The serialising promise chain of \<open>src/src/relay/relay.service.ts\<close> (\<open>enqueue\<close>, one nonce queue)
  and of \<open>src/src/pool/pool.service.ts\<close> (\<open>exclusively\<close>, the publish-and-relay lock). Each call
  appends a link: \<open>run = chain.then(fn, fn)\<close> waits for the chain as it was, and the chain becomes
  \<open>run.then(() => undefined, () => undefined)\<close>. The model keeps every \<open>run\<close> promise with its status;
  a link may start exactly when the swallowed promise of the link before it has settled.
\<close>

datatype run_status = Waiting | Running | Settled bool  \<comment> \<open>\<open>Settled True\<close>: it resolved\<close>

type_synonym 'j chain = "('j \<times> run_status) list"

text \<open>The promise \<open>run.then(() => undefined, () => undefined)\<close> settles with \<open>run\<close>, either way.\<close>

definition swallowed :: "run_status \<Rightarrow> bool" where
  "swallowed st = (case st of Settled _ \<Rightarrow> True | _ \<Rightarrow> False)"

definition chain_call :: "'j \<Rightarrow> 'j chain \<Rightarrow> 'j chain" where
  "chain_call j c = c @ [(j, Waiting)]"

text \<open>What \<open>this.queue\<close> (\<open>this.lock\<close>) was when link \<open>i\<close> was made: the first one waits for
  \<open>Promise.resolve()\<close>.\<close>

definition released :: "'j chain \<Rightarrow> nat \<Rightarrow> bool" where
  "released c i = (case i of 0 \<Rightarrow> True | Suc k \<Rightarrow> swallowed (snd (c ! k)))"

definition set_status :: "nat \<Rightarrow> run_status \<Rightarrow> 'j chain \<Rightarrow> 'j chain" where
  "set_status i st c = c[i := (fst (c ! i), st)]"

inductive chain_step :: "'j chain \<Rightarrow> 'j chain \<Rightarrow> bool" where
  called: "chain_step c (chain_call j c)"
| started: "i < length c \<Longrightarrow> snd (c ! i) = Waiting \<Longrightarrow> released c i \<Longrightarrow> chain_step c (set_status i Running c)"
| settled: "i < length c \<Longrightarrow> snd (c ! i) = Running \<Longrightarrow> chain_step c (set_status i (Settled ok) c)"

inductive chain_reach :: "'j chain \<Rightarrow> bool" where
  empty: "chain_reach []"
| step: "chain_reach c \<Longrightarrow> chain_step c d \<Longrightarrow> chain_reach d"

inductive_cases chain_stepE: "chain_step c d"

section \<open>The shape of a reachable chain\<close>

text \<open>Settled links, then at most one running one, then the waiting ones.\<close>

fun all_waiting :: "'j chain \<Rightarrow> bool" where
  "all_waiting [] = True"
| "all_waiting (x # c) = (snd x = Waiting \<and> all_waiting c)"

fun in_turn :: "'j chain \<Rightarrow> bool" where
  "in_turn [] = True"
| "in_turn (x # c) = (case snd x of
     Settled _ \<Rightarrow> in_turn c | Running \<Rightarrow> all_waiting c | Waiting \<Rightarrow> all_waiting c)"

lemma all_waiting_call [simp]: "all_waiting (chain_call j c) = all_waiting c"
  by (induction c) (auto simp: chain_call_def)

lemma all_waiting_nth: "all_waiting c \<Longrightarrow> i < length c \<Longrightarrow> snd (c ! i) = Waiting"
  by (induction c arbitrary: i) (auto simp: nth_Cons split: nat.splits)

lemma in_turn_call: "in_turn c \<Longrightarrow> in_turn (chain_call j c)"
proof (induction c)
  case (Cons x c)
  have "chain_call j (x # c) = x # chain_call j c" by (simp add: chain_call_def)
  with Cons show ?case by (simp split: run_status.splits)
qed (simp add: chain_call_def)

lemma in_turn_start:
  "in_turn c \<Longrightarrow> i < length c \<Longrightarrow> snd (c ! i) = Waiting \<Longrightarrow> released c i \<Longrightarrow> in_turn (set_status i Running c)"
proof (induction c arbitrary: i)
  case (Cons x c)
  show ?case
  proof (cases i)
    case 0
    then show ?thesis using Cons.prems by (simp add: set_status_def)
  next
    case (Suc k)
    show ?thesis
    proof (cases k)
      case 0
      then obtain b where "snd x = Settled b"
        using Cons.prems Suc by (auto simp: released_def swallowed_def split: run_status.splits)
      then show ?thesis using Cons.prems Cons.IH [of 0] Suc 0 by (simp add: set_status_def released_def)
    next
      case (Suc l)
      then have rel: "swallowed (snd (c ! l))"
        using Cons.prems \<open>i = Suc k\<close> by (simp add: released_def)
      have l: "l < length c" using Cons.prems \<open>i = Suc k\<close> Suc by simp
      have "\<not> all_waiting c"
        using all_waiting_nth [of c l] l rel by (auto simp: swallowed_def)
      then obtain b where "snd x = Settled b" using Cons.prems by (auto split: run_status.splits)
      then show ?thesis
        using Cons.prems Cons.IH [of k] \<open>i = Suc k\<close> Suc rel by (simp add: set_status_def released_def)
    qed
  qed
qed simp

lemma in_turn_settle:
  "in_turn c \<Longrightarrow> i < length c \<Longrightarrow> snd (c ! i) = Running \<Longrightarrow> in_turn (set_status i (Settled ok) c)"
proof (induction c arbitrary: i)
  case (Cons x c)
  have w: "all_waiting c \<Longrightarrow> in_turn c" by (cases c) auto
  show ?case
  proof (cases i)
    case 0
    then show ?thesis using Cons.prems w by (simp add: set_status_def)
  next
    case (Suc k)
    then have "\<not> all_waiting c" using Cons.prems all_waiting_nth [of c k] by auto
    then obtain b where "snd x = Settled b" using Cons.prems by (auto split: run_status.splits)
    then show ?thesis using Cons.prems Cons.IH [of k] Suc by (simp add: set_status_def)
  qed
qed simp

lemma in_turn_reach: "chain_reach c \<Longrightarrow> in_turn c"
proof (induction rule: chain_reach.induct)
  case (step c d)
  from step.hyps(2) step.IH show ?case
    by (cases rule: chain_step.cases) (auto intro: in_turn_call in_turn_start in_turn_settle)
qed simp

lemma in_turn_before:
  assumes "in_turn c" "j < i" "i < length c" "snd (c ! i) \<noteq> Waiting"
  shows "\<exists>b. snd (c ! j) = Settled b"
  using assms
proof (induction c arbitrary: i j)
  case (Cons x c)
  obtain k where i: "i = Suc k" using Cons.prems(2) by (cases i) auto
  then have "\<not> all_waiting c" using Cons.prems(3,4) all_waiting_nth [of c k] by auto
  then obtain b where x: "snd x = Settled b" using Cons.prems(1) by (auto split: run_status.splits)
  show ?case
  proof (cases j)
    case 0
    then show ?thesis using x by simp
  next
    case (Suc m)
    then show ?thesis using Cons.IH [of m k] Cons.prems x i by simp
  qed
qed simp

section \<open>What a client of the chain may rely on\<close>

text \<open>
  A section scheduler: which section runs, and what has run. The law is mutual exclusion in call
  order; the client's lemma says an invariant kept by each section alone is kept by any interleaving
  of calls, because sections never overlap.
\<close>

locale section_scheduler =
  fixes reach :: "'c \<Rightarrow> bool"
    and running :: "'c \<Rightarrow> nat \<Rightarrow> bool"
    and finished :: "'c \<Rightarrow> nat \<Rightarrow> bool"
  assumes earlier_finished: "reach c \<Longrightarrow> running c i \<Longrightarrow> j < i \<Longrightarrow> finished c j"
    and finished_not_running: "finished c i \<Longrightarrow> \<not> running c i"
begin

lemma exclusive: "reach c \<Longrightarrow> running c i \<Longrightarrow> running c j \<Longrightarrow> i = j"
  using earlier_finished finished_not_running by (metis linorder_neqE_nat)

lemma later_not_started: "reach c \<Longrightarrow> running c i \<Longrightarrow> i < j \<Longrightarrow> \<not> running c j"
  using exclusive by blast

end

definition runs_now :: "'j chain \<Rightarrow> nat \<Rightarrow> bool" where
  "runs_now c i \<longleftrightarrow> i < length c \<and> snd (c ! i) = Running"

definition has_settled :: "'j chain \<Rightarrow> nat \<Rightarrow> bool" where
  "has_settled c i \<longleftrightarrow> i < length c \<and> swallowed (snd (c ! i))"

interpretation promise_chain: section_scheduler chain_reach runs_now has_settled
proof
  show "has_settled c j" if "chain_reach c" "runs_now c i" "j < i" for c :: "'a chain" and i j
    using in_turn_before [OF in_turn_reach [OF that(1)] that(3)] that(2,3)
    by (auto simp: runs_now_def has_settled_def swallowed_def)
  show "\<not> runs_now c i" if "has_settled c i" for c :: "'a chain" and i
    using that by (auto simp: has_settled_def runs_now_def swallowed_def)
qed

lemma first_unsettled:
  assumes "in_turn c" "\<exists>x \<in> set c. \<not> swallowed (snd x)"
  shows "\<exists>i < length c. released c i \<and> \<not> swallowed (snd (c ! i))"
  using assms
proof (induction c)
  case (Cons x c)
  show ?case
  proof (cases "swallowed (snd x)")
    case False
    then show ?thesis by (intro exI [of _ 0]) (simp add: released_def)
  next
    case True
    then obtain b where b: "snd x = Settled b" by (auto simp: swallowed_def split: run_status.splits)
    then obtain i where i: "i < length c" "released c i" "\<not> swallowed (snd (c ! i))"
      using Cons True by auto
    then have "released (x # c) (Suc i)" using True by (cases i) (auto simp: released_def)
    with i show ?thesis by (intro exI [of _ "Suc i"]) simp
  qed
qed simp

section \<open>Properties\<close>

text \<open>C25. The promise chain is a lock: whatever calls, starts and settlements interleave, at most one
  section runs, sections run in the order they were asked for, and as long as a section is outstanding
  one can move, whether its predecessors resolved or rejected, so a failure never poisons the chain.\<close>

theorem sections_run_one_at_a_time:
  assumes "chain_reach c"
  shows "(\<forall>i j. runs_now c i \<and> runs_now c j \<longrightarrow> i = j) \<and>
    (\<forall>i j. runs_now c i \<and> j < i \<longrightarrow> has_settled c j) \<and>
    ((\<exists>x \<in> set c. \<not> swallowed (snd x)) \<longrightarrow>
      (\<exists>i < length c. runs_now c i \<or> chain_step c (set_status i Running c)))"
proof (intro conjI allI impI)
  show "i = j" if "runs_now c i \<and> runs_now c j" for i j
    using promise_chain.exclusive [OF assms] that by blast
  show "has_settled c j" if "runs_now c i \<and> j < i" for i j
    using promise_chain.earlier_finished [OF assms] that by blast
  assume out: "\<exists>x \<in> set c. \<not> swallowed (snd x)"
  obtain i where i: "i < length c" "released c i" "\<not> swallowed (snd (c ! i))"
    using first_unsettled [OF in_turn_reach [OF assms] out] by blast
  then show "\<exists>i < length c. runs_now c i \<or> chain_step c (set_status i Running c)"
    by (cases "snd (c ! i)") (auto simp: runs_now_def swallowed_def intro: chain_step.started)
qed

lemma sections_run_one_at_a_time_witness:
  "runs_now [(''a'', Settled False), (''b'', Running), (''c'', Waiting)] 1 \<and>
   has_settled [(''a'', Settled False), (''b'', Running), (''c'', Waiting)] 0"
proof -
  let ?c = "[(''a'', Settled False), (''b'', Running), (''c'', Waiting)]"
  have "chain_reach [(''a'', Waiting), (''b'', Waiting), (''c'', Waiting)]"
    using chain_reach.step [OF chain_reach.step [OF chain_reach.step [OF chain_reach.empty
          chain_step.called [of _ "''a''"]] chain_step.called [of _ "''b''"]] chain_step.called [of _ "''c''"]]
    by (simp add: chain_call_def)
  from chain_reach.step [OF this chain_step.started [of 0]]
  have "chain_reach [(''a'', Running), (''b'', Waiting), (''c'', Waiting)]"
    by (simp add: released_def set_status_def)
  from chain_reach.step [OF this chain_step.settled [of 0 _ False]]
  have "chain_reach [(''a'', Settled False), (''b'', Waiting), (''c'', Waiting)]"
    by (simp add: set_status_def)
  from chain_reach.step [OF this chain_step.started [of 1]]
  have c: "chain_reach ?c" by (simp add: released_def set_status_def swallowed_def)
  have "runs_now ?c 1" by (simp add: runs_now_def)
  then show ?thesis using sections_run_one_at_a_time [OF c] by (meson less_numeral_extra(1))
qed

end
