(* ===== verification/PoolLock.thy ===== *)
theory PoolLock
  imports PromiseChain
begin

text \<open>
  The publish-and-relay lock of \<open>src/src/pool/pool.service.ts\<close>: withdrawals as sections of the promise
  chain, each in the steps the source awaits between (read the root, broadcast the update, await its
  receipt, simulate, broadcast the proof), interleaved with the chain mining the relayer's transactions
  in nonce order and with the relayer's other transactions. What is checked is the pool's own condition
  \<open>proof.ASPRoot == entrypoint.latestRoot()\<close> at the position where the proof executes.
\<close>

datatype pool_tx = UpdateRoot int | RelayProof int | OtherTx

datatype phase = Reading | AwaitReceipt nat | Simulating

record pool_world =
  lock :: "int chain"  \<comment> \<open>each section carries the root its proof was built against\<close>
  phases :: "nat \<Rightarrow> phase"
  nonces :: "pool_tx list"  \<comment> \<open>what the relayer's key has broadcast, in nonce order\<close>
  mined :: nat

text \<open>\<open>latestRoot()\<close> after a transaction; an update to the current root reverts and changes nothing.\<close>

fun root_after :: "int \<Rightarrow> pool_tx list \<Rightarrow> int" where
  "root_after r [] = r"
| "root_after r (x # xs) = root_after (case x of UpdateRoot q \<Rightarrow> q | _ \<Rightarrow> r) xs"

definition latestRoot :: "int \<Rightarrow> pool_world \<Rightarrow> int" where
  "latestRoot r0 w = root_after r0 (take (mined w) (nonces w))"

definition update_succeeds :: "int \<Rightarrow> pool_world \<Rightarrow> nat \<Rightarrow> int \<Rightarrow> bool" where
  "update_succeeds r0 w n r \<longleftrightarrow> root_after r0 (take n (nonces w)) \<noteq> r"

definition root_of :: "pool_world \<Rightarrow> nat \<Rightarrow> int" where
  "root_of w i = fst (lock w ! i)"

definition settle_section :: "nat \<Rightarrow> bool \<Rightarrow> pool_world \<Rightarrow> pool_world" where
  "settle_section i ok w = w\<lparr>lock := set_status i (Settled ok) (lock w)\<rparr>"

definition enter_phase :: "nat \<Rightarrow> phase \<Rightarrow> pool_world \<Rightarrow> pool_world" where
  "enter_phase i p w = w\<lparr>phases := (phases w)(i := p)\<rparr>"

definition send_tx :: "pool_tx \<Rightarrow> pool_world \<Rightarrow> pool_world" where
  "send_tx x w = w\<lparr>nonces := nonces w @ [x]\<rparr>"

text \<open>\<open>patient\<close>: every receipt arrives before \<open>receiptFor\<close> gives up on it.\<close>

inductive pool_step :: "bool \<Rightarrow> int \<Rightarrow> pool_world \<Rightarrow> pool_world \<Rightarrow> bool" for patient r0 where
  withdrawal: "pool_step patient r0 w (w\<lparr>lock := chain_call r (lock w)\<rparr>)"
| begins: "i < length (lock w) \<Longrightarrow> snd (lock w ! i) = Waiting \<Longrightarrow> released (lock w) i \<Longrightarrow>
    pool_step patient r0 w (enter_phase i Reading (w\<lparr>lock := set_status i Running (lock w)\<rparr>))"
| read_fails: "runs_now (lock w) i \<Longrightarrow> phases w i = Reading \<Longrightarrow> pool_step patient r0 w (settle_section i False w)"
| already_current: "runs_now (lock w) i \<Longrightarrow> phases w i = Reading \<Longrightarrow> latestRoot r0 w = root_of w i \<Longrightarrow>
    pool_step patient r0 w (enter_phase i Simulating w)"
| publishes: "runs_now (lock w) i \<Longrightarrow> phases w i = Reading \<Longrightarrow> latestRoot r0 w \<noteq> root_of w i \<Longrightarrow>
    pool_step patient r0 w (enter_phase i (AwaitReceipt (length (nonces w))) (send_tx (UpdateRoot (root_of w i)) w))"
| published: "runs_now (lock w) i \<Longrightarrow> phases w i = AwaitReceipt n \<Longrightarrow> n < mined w \<Longrightarrow>
    update_succeeds r0 w n (root_of w i) \<Longrightarrow> pool_step patient r0 w (enter_phase i Simulating w)"
| reverted: "runs_now (lock w) i \<Longrightarrow> phases w i = AwaitReceipt n \<Longrightarrow> n < mined w \<Longrightarrow>
    \<not> update_succeeds r0 w n (root_of w i) \<Longrightarrow> pool_step patient r0 w (settle_section i False w)"
| gives_up: "\<not> patient \<Longrightarrow> runs_now (lock w) i \<Longrightarrow> phases w i = AwaitReceipt n \<Longrightarrow>
    pool_step patient r0 w (settle_section i False w)"
| relays: "runs_now (lock w) i \<Longrightarrow> phases w i = Simulating \<Longrightarrow> latestRoot r0 w = root_of w i \<Longrightarrow>
    pool_step patient r0 w (settle_section i True (send_tx (RelayProof (root_of w i)) w))"
| refused: "runs_now (lock w) i \<Longrightarrow> phases w i = Simulating \<Longrightarrow> pool_step patient r0 w (settle_section i False w)"
| other: "pool_step patient r0 w (send_tx OtherTx w)"
| mines: "mined w < length (nonces w) \<Longrightarrow> pool_step patient r0 w (w\<lparr>mined := mined w + 1\<rparr>)"

inductive pool_run :: "bool \<Rightarrow> int \<Rightarrow> pool_world \<Rightarrow> bool" for patient r0 where
  boot: "lock w = [] \<Longrightarrow> nonces w = [] \<Longrightarrow> mined w = 0 \<Longrightarrow> pool_run patient r0 w"
| step: "pool_run patient r0 w \<Longrightarrow> pool_step patient r0 w v \<Longrightarrow> pool_run patient r0 v"

inductive_cases pool_stepE: "pool_step patient r0 w v"

lemmas world_defs = settle_section_def enter_phase_def send_tx_def

section \<open>Roots and pending updates\<close>

lemma root_after_append: "root_after r (xs @ ys) = root_after (root_after r xs) ys"
  by (induction xs arbitrary: r) auto

lemma root_after_still: "(\<And>q. UpdateRoot q \<notin> set xs) \<Longrightarrow> root_after r xs = r"
  by (induction xs arbitrary: r) (auto split: pool_tx.splits)

text \<open>The updates not mined yet, and the one a waiting section may still have there.\<close>

definition pending_updates :: "pool_world \<Rightarrow> nat set" where
  "pending_updates w = {k. mined w \<le> k \<and> k < length (nonces w) \<and> (\<exists>q. nonces w ! k = UpdateRoot q)}"

definition allowed :: "pool_world \<Rightarrow> nat set" where
  "allowed w = {n. \<exists>i. runs_now (lock w) i \<and> phases w i = AwaitReceipt n}"

definition executes_at_its_root :: "int \<Rightarrow> pool_world \<Rightarrow> bool" where
  "executes_at_its_root r0 w \<longleftrightarrow>
     (\<forall>k < length (nonces w). \<forall>r. nonces w ! k = RelayProof r \<longrightarrow> root_after r0 (take k (nonces w)) = r)"

definition lock_invariant :: "int \<Rightarrow> pool_world \<Rightarrow> bool" where
  "lock_invariant r0 w \<longleftrightarrow> chain_reach (lock w) \<and> mined w \<le> length (nonces w) \<and>
     pending_updates w \<subseteq> allowed w \<and> executes_at_its_root r0 w"

lemma quiet_root:
  assumes "pending_updates w = {}" "mined w \<le> length (nonces w)"
  shows "root_after r0 (nonces w) = latestRoot r0 w"
proof -
  have "UpdateRoot q \<notin> set (drop (mined w) (nonces w))" for q
  proof
    assume "UpdateRoot q \<in> set (drop (mined w) (nonces w))"
    then obtain j where "j < length (nonces w) - mined w" "nonces w ! (mined w + j) = UpdateRoot q"
      by (auto simp: in_set_conv_nth)
    then have "mined w + j \<in> pending_updates w" by (auto simp: pending_updates_def)
    with assms(1) show False by simp
  qed
  then have "root_after r (drop (mined w) (nonces w)) = r" for r by (rule root_after_still)
  then have "root_after r0 (take (mined w) (nonces w) @ drop (mined w) (nonces w)) = latestRoot r0 w"
    by (simp only: root_after_append latestRoot_def)
  then show ?thesis by simp
qed

lemma allowed_none:
  assumes "chain_reach (lock w)" "runs_now (lock w) i" "\<And>n. phases w i \<noteq> AwaitReceipt n"
  shows "allowed w = {}"
proof -
  have "j = i" if "runs_now (lock w) j" for j using promise_chain.exclusive [OF assms(1)] assms(2) that by blast
  then show ?thesis using assms(3) by (auto simp: allowed_def)
qed

lemma allowed_one:
  assumes "chain_reach (lock w)" "runs_now (lock w) i" "phases w i = AwaitReceipt n"
  shows "allowed w = {n}"
proof
  show "allowed w \<subseteq> {n}"
  proof
    fix m
    assume "m \<in> allowed w"
    then obtain j where j: "runs_now (lock w) j" "phases w j = AwaitReceipt m" by (auto simp: allowed_def)
    then have "j = i" using promise_chain.exclusive [OF assms(1)] assms(2) by blast
    then show "m \<in> {n}" using j assms(3) by simp
  qed
  show "{n} \<subseteq> allowed w" using assms(2,3) by (auto simp: allowed_def)
qed

lemma executes_send:
  assumes "executes_at_its_root r0 w" "\<And>r. x = RelayProof r \<Longrightarrow> root_after r0 (nonces w) = r"
  shows "executes_at_its_root r0 (send_tx x w)"
  using assms by (auto simp: executes_at_its_root_def send_tx_def nth_append less_Suc_eq)

lemma pending_send:
  "pending_updates (send_tx x w) \<subseteq> pending_updates w \<union> (case x of UpdateRoot _ \<Rightarrow> {length (nonces w)} | _ \<Rightarrow> {})"
  by (auto simp: pending_updates_def send_tx_def nth_append less_Suc_eq split: pool_tx.splits if_splits)

lemma runs_now_set_status:
  "runs_now (set_status i st c) j \<longleftrightarrow> (if j = i then i < length c \<and> st = Running else runs_now c j)"
  by (auto simp: runs_now_def set_status_def nth_list_update)

lemma runs_now_call [simp]: "runs_now (chain_call r c) j = runs_now c j"
  by (auto simp: runs_now_def chain_call_def nth_append less_Suc_eq)

lemma chain_settle: "chain_reach c \<Longrightarrow> runs_now c i \<Longrightarrow> chain_reach (set_status i (Settled ok) c)"
  unfolding runs_now_def by (blast intro: chain_reach.step chain_step.settled)

section \<open>Every step keeps the invariant\<close>

lemma pending_same:
  "mined v = mined w \<Longrightarrow> nonces v = nonces w \<Longrightarrow> pending_updates v = pending_updates w"
  by (simp add: pending_updates_def)

lemma executes_same: "nonces v = nonces w \<Longrightarrow> executes_at_its_root r0 v = executes_at_its_root r0 w"
  by (simp add: executes_at_its_root_def)

lemma invariant_quiet:
  assumes "lock_invariant r0 w" "pending_updates w = {}" "mined v = mined w" "nonces v = nonces w" "chain_reach (lock v)"
  shows "lock_invariant r0 v"
  using assms pending_same [OF assms(3,4)] executes_same [OF assms(4)] by (simp add: lock_invariant_def)

lemma invariant_phase:
  assumes "lock_invariant r0 w" "mined v = mined w" "nonces v = nonces w" "chain_reach (lock v)" "allowed w \<subseteq> allowed v"
  shows "lock_invariant r0 v"
  using assms pending_same [OF assms(2,3)] executes_same [OF assms(3)] by (auto simp: lock_invariant_def)

lemma not_awaiting_quiet:
  assumes "lock_invariant r0 w" "runs_now (lock w) i" "\<And>n. phases w i \<noteq> AwaitReceipt n"
  shows "pending_updates w = {}"
  using assms allowed_none [of w i] by (auto simp: lock_invariant_def)

lemma mined_quiet:
  assumes "lock_invariant r0 w" "runs_now (lock w) i" "phases w i = AwaitReceipt n" "n < mined w"
  shows "pending_updates w = {}"
proof -
  have "allowed w = {n}" using assms by (intro allowed_one) (auto simp: lock_invariant_def)
  then have "pending_updates w \<subseteq> {n}" using assms(1) by (simp add: lock_invariant_def)
  moreover have "n \<notin> pending_updates w" using assms(4) by (simp add: pending_updates_def)
  ultimately show ?thesis by blast
qed

lemma settle_quiet:
  assumes "lock_invariant r0 w" "runs_now (lock w) i" "pending_updates w = {}"
  shows "lock_invariant r0 (settle_section i ok w)"
proof (rule invariant_quiet [OF assms(1,3)])
  have "chain_reach (lock w)" using assms(1) by (simp add: lock_invariant_def)
  then show "chain_reach (lock (settle_section i ok w))"
    using chain_settle assms(2) by (simp add: settle_section_def)
qed (simp_all add: settle_section_def)

lemma enter_quiet:
  assumes "lock_invariant r0 w" "pending_updates w = {}"
  shows "lock_invariant r0 (enter_phase i p w)"
proof (rule invariant_quiet [OF assms])
  show "chain_reach (lock (enter_phase i p w))" using assms(1) by (simp add: lock_invariant_def enter_phase_def)
qed (simp_all add: enter_phase_def)

lemma send_keeps:
  assumes "lock_invariant r0 w" "\<And>q. x \<noteq> UpdateRoot q" "\<And>r. x = RelayProof r \<Longrightarrow> root_after r0 (nonces w) = r"
  shows "lock_invariant r0 (send_tx x w)" "pending_updates (send_tx x w) \<subseteq> pending_updates w"
proof -
  show p: "pending_updates (send_tx x w) \<subseteq> pending_updates w"
    using pending_send [of x w] assms(2) by (cases x) auto
  have "allowed (send_tx x w) = allowed w" by (simp add: allowed_def send_tx_def)
  moreover have "executes_at_its_root r0 (send_tx x w)"
    using assms(1,3) by (intro executes_send) (auto simp: lock_invariant_def)
  moreover have "lock (send_tx x w) = lock w" "mined (send_tx x w) = mined w"
    "length (nonces (send_tx x w)) = Suc (length (nonces w))" by (simp_all add: send_tx_def)
  ultimately show "lock_invariant r0 (send_tx x w)" using assms(1) p unfolding lock_invariant_def by auto
qed

lemma begins_keeps:
  assumes "lock_invariant r0 w" "i < length (lock w)" "snd (lock w ! i) = Waiting" "released (lock w) i"
  shows "lock_invariant r0 (enter_phase i Reading (w\<lparr>lock := set_status i Running (lock w)\<rparr>))"
proof (rule invariant_phase [OF assms(1)])
  show "chain_reach (lock (enter_phase i Reading (w\<lparr>lock := set_status i Running (lock w)\<rparr>)))"
    using assms unfolding lock_invariant_def enter_phase_def
    by (auto intro: chain_reach.step chain_step.started)
  have "\<not> runs_now (lock w) i" using assms(3) by (simp add: runs_now_def)
  then show "allowed w \<subseteq> allowed (enter_phase i Reading (w\<lparr>lock := set_status i Running (lock w)\<rparr>))"
    by (auto simp: allowed_def enter_phase_def runs_now_set_status)
qed (simp_all add: enter_phase_def)

lemma publishes_keeps:
  assumes "lock_invariant r0 w" "runs_now (lock w) i" "phases w i = Reading"
  shows "lock_invariant r0 (enter_phase i (AwaitReceipt (length (nonces w))) (send_tx (UpdateRoot q) w))"
proof -
  let ?s = "send_tx (UpdateRoot q) w"
  let ?v = "enter_phase i (AwaitReceipt (length (nonces w))) ?s"
  have "pending_updates w = {}" using assms by (intro not_awaiting_quiet) auto
  then have "pending_updates ?s \<subseteq> {length (nonces w)}" using pending_send [of "UpdateRoot q" w] by simp
  moreover have "pending_updates ?v = pending_updates ?s" by (rule pending_same) (simp_all add: enter_phase_def)
  moreover have "length (nonces w) \<in> allowed ?v"
    using assms(2) by (auto simp: allowed_def enter_phase_def send_tx_def)
  moreover have "executes_at_its_root r0 ?v"
    using executes_send [of r0 w "UpdateRoot q"] executes_same [of ?v ?s] assms(1)
    by (simp add: lock_invariant_def enter_phase_def)
  ultimately show ?thesis
    using assms(1) by (auto simp: lock_invariant_def enter_phase_def send_tx_def)
qed

lemma mines_keeps:
  assumes "lock_invariant r0 w" "mined w < length (nonces w)"
  shows "lock_invariant r0 (w\<lparr>mined := mined w + 1\<rparr>)"
proof -
  have "pending_updates (w\<lparr>mined := mined w + 1\<rparr>) \<subseteq> pending_updates w" by (auto simp: pending_updates_def)
  moreover have "allowed (w\<lparr>mined := mined w + 1\<rparr>) = allowed w" by (simp add: allowed_def)
  ultimately show ?thesis
    using assms executes_same [of "w\<lparr>mined := mined w + 1\<rparr>" w] by (auto simp: lock_invariant_def)
qed

lemma pool_step_invariant:
  assumes "pool_step True r0 w v" "lock_invariant r0 w"
  shows "lock_invariant r0 v"
  using assms(1)
proof (cases rule: pool_step.cases)
  case (withdrawal r)
  have "allowed (w\<lparr>lock := chain_call r (lock w)\<rparr>) = allowed w" by (simp add: allowed_def)
  then show ?thesis
    unfolding withdrawal using assms(2)
    by (intro invariant_phase [OF assms(2)]) (auto simp: lock_invariant_def intro: chain_reach.step chain_step.called)
next
  case (begins i)
  then show ?thesis using begins_keeps [OF assms(2)] by simp
next
  case (read_fails i)
  then show ?thesis using settle_quiet [OF assms(2)] not_awaiting_quiet [OF assms(2)] by simp
next
  case (already_current i)
  then show ?thesis using enter_quiet [OF assms(2)] not_awaiting_quiet [OF assms(2)] by simp
next
  case (publishes i)
  then show ?thesis using publishes_keeps [OF assms(2)] by simp
next
  case (published i n)
  then show ?thesis using enter_quiet [OF assms(2)] mined_quiet [OF assms(2)] by simp
next
  case (reverted i n)
  then show ?thesis using settle_quiet [OF assms(2)] mined_quiet [OF assms(2)] by simp
next
  case (relays i)
  have q: "pending_updates w = {}" using relays by (intro not_awaiting_quiet [OF assms(2)]) auto
  then have "root_after r0 (nonces w) = root_of w i"
    using relays quiet_root [OF q] assms(2) by (simp add: lock_invariant_def)
  then have s: "lock_invariant r0 (send_tx (RelayProof (root_of w i)) w)"
    "pending_updates (send_tx (RelayProof (root_of w i)) w) = {}"
    using send_keeps [OF assms(2), of "RelayProof (root_of w i)"] q by auto
  have "runs_now (lock (send_tx (RelayProof (root_of w i)) w)) i" using relays by (simp add: send_tx_def)
  then show ?thesis using settle_quiet [OF s(1) _ s(2)] relays by simp
next
  case (refused i)
  then show ?thesis using settle_quiet [OF assms(2)] not_awaiting_quiet [OF assms(2)] by simp
next
  case other
  then show ?thesis using send_keeps(1) [OF assms(2), of OtherTx] by simp
next
  case mines
  then show ?thesis using mines_keeps [OF assms(2)] by simp
qed simp

lemma pool_run_invariant: "pool_run True r0 w \<Longrightarrow> lock_invariant r0 w"
proof (induction rule: pool_run.induct)
  case (boot w)
  then show ?case
    by (auto simp: lock_invariant_def pending_updates_def executes_at_its_root_def intro: chain_reach.empty)
qed (rule pool_step_invariant)

section \<open>Properties\<close>

text \<open>C12. The lock keeps the pair together: as long as receipts arrive, however withdrawals, other
  transactions and mining interleave, every withdrawal proof the relayer broadcasts executes, at its place
  in the nonce order, when the entrypoint's latest root is the root the proof was built against.\<close>

theorem relayed_proofs_meet_their_root:
  assumes "pool_run True r0 w" "k < length (nonces w)" "nonces w ! k = RelayProof r"
  shows "root_after r0 (take k (nonces w)) = r"
  using pool_run_invariant [OF assms(1)] assms(2,3)
  by (simp add: lock_invariant_def executes_at_its_root_def)

definition world :: "int chain \<Rightarrow> (nat \<Rightarrow> phase) \<Rightarrow> pool_tx list \<Rightarrow> nat \<Rightarrow> pool_world" where
  "world c ph xs n = \<lparr>lock = c, phases = ph, nonces = xs, mined = n\<rparr>"

lemmas run_step = pool_run.step
lemmas step_simps = world_def chain_call_def set_status_def enter_phase_def send_tx_def settle_section_def
  released_def swallowed_def runs_now_def latestRoot_def root_of_def update_succeeds_def

lemma sample_locked_run:
  "\<exists>ph. pool_run True 0 (world [(7, Settled True)] ph [UpdateRoot 7, RelayProof 7] 1)"
proof -
  define ph where "ph = (\<lambda>_::nat. Reading)"
  have "pool_run True 0 (world [] ph [] 0)" by (rule pool_run.boot) (simp_all add: world_def)
  from run_step [OF this pool_step.withdrawal [of _ _ _ 7]] have "pool_run True 0 (world [(7, Waiting)] ph [] 0)"
    by (simp add: step_simps)
  from run_step [OF this pool_step.begins [of 0]] have "pool_run True 0 (world [(7, Running)] ph [] 0)"
    by (simp add: step_simps ph_def fun_upd_idem)
  from run_step [OF this pool_step.publishes [of _ 0]]
  have "pool_run True 0 (world [(7, Running)] (ph(0 := AwaitReceipt 0)) [UpdateRoot 7] 0)"
    by (simp add: step_simps ph_def)
  from run_step [OF this pool_step.mines]
  have "pool_run True 0 (world [(7, Running)] (ph(0 := AwaitReceipt 0)) [UpdateRoot 7] 1)" by (simp add: step_simps)
  from run_step [OF this pool_step.published [of _ 0 0]]
  have "pool_run True 0 (world [(7, Running)] (ph(0 := Simulating)) [UpdateRoot 7] 1)" by (simp add: step_simps)
  from run_step [OF this pool_step.relays [of _ 0]] show ?thesis by (auto simp: step_simps)
qed

lemma relayed_proofs_meet_their_root_witness:
  "\<exists>w. pool_run True 0 w \<and> nonces w ! 1 = RelayProof 7 \<and> root_after 0 (take 1 (nonces w)) = 7"
proof -
  obtain ph where run: "pool_run True 0 (world [(7, Settled True)] ph [UpdateRoot 7, RelayProof 7] 1)"
    using sample_locked_run by blast
  from relayed_proofs_meet_their_root [OF this, of 1 7] run show ?thesis
    by (intro exI [of _ "world [(7, Settled True)] ph [UpdateRoot 7, RelayProof 7] 1"]) (simp add: world_def)
qed

text \<open>The wait for the receipt is where the pair can come apart: when the receipt of a publication
  times out while the transaction stays pending, the section ends, and the next withdrawal, whose root the
  chain still shows, is relayed behind it and executes at the other root.\<close>

theorem lost_receipt_breaks_the_pair:
  "\<exists>w. pool_run False 0 w \<and> nonces w = [UpdateRoot 7, RelayProof 0] \<and>
     lock w = [(7, Settled False), (0, Settled True)] \<and> root_after 0 (take 1 (nonces w)) = 7 \<and>
     \<not> executes_at_its_root 0 w"
proof -
  define ph where "ph = (\<lambda>_::nat. Reading)"
  have "pool_run False 0 (world [] ph [] 0)" by (rule pool_run.boot) (simp_all add: world_def)
  from run_step [OF run_step [OF this pool_step.withdrawal [of _ _ _ 7]] pool_step.withdrawal [of _ _ _ 0]]
  have "pool_run False 0 (world [(7, Waiting), (0, Waiting)] ph [] 0)" by (simp add: step_simps)
  from run_step [OF this pool_step.begins [of 0]] have "pool_run False 0 (world [(7, Running), (0, Waiting)] ph [] 0)"
    by (simp add: step_simps ph_def fun_upd_idem)
  from run_step [OF this pool_step.publishes [of _ 0]]
  have "pool_run False 0 (world [(7, Running), (0, Waiting)] (ph(0 := AwaitReceipt 0)) [UpdateRoot 7] 0)"
    by (simp add: step_simps ph_def)
  from run_step [OF this pool_step.gives_up [of _ _ 0 0]]
  have "pool_run False 0 (world [(7, Settled False), (0, Waiting)] (ph(0 := AwaitReceipt 0)) [UpdateRoot 7] 0)"
    by (simp add: step_simps)
  from run_step [OF this pool_step.begins [of 1]]
  have "pool_run False 0 (world [(7, Settled False), (0, Running)] (ph(0 := AwaitReceipt 0, 1 := Reading)) [UpdateRoot 7] 0)"
    by (simp add: step_simps)
  from run_step [OF this pool_step.already_current [of _ 1]]
  have "pool_run False 0 (world [(7, Settled False), (0, Running)] (ph(0 := AwaitReceipt 0, 1 := Simulating)) [UpdateRoot 7] 0)"
    by (simp add: step_simps)
  from run_step [OF this pool_step.relays [of _ 1]]
  have "pool_run False 0 (world [(7, Settled False), (0, Settled True)] (ph(0 := AwaitReceipt 0, 1 := Simulating))
      [UpdateRoot 7, RelayProof 0] 0)"
    by (simp add: step_simps)
  then show ?thesis
    by (intro exI conjI) (assumption | simp add: world_def executes_at_its_root_def; fail | force simp: world_def executes_at_its_root_def)+
qed

end
