(* ===== verification/Relay.thy ===== *)
theory Relay
  imports Store PromiseChain
begin

text \<open>
  The gas relay: \<open>src/src/relay/relay.service.ts\<close> and the selector lists of
  \<open>src/src/relay/relay.abi.ts\<close>. The node, the clock and the availability of Redis are the
  environment \<open>relay_env\<close>; \<open>encodeFunctionData\<close> and the selector hash are viem's, so call data stays
  symbolic and the hash is a parameter. A Redis counter is its value and its expiry.
  The copy of a rejection is not modelled; the recognised contract error it is built from is.
\<close>

section \<open>Redis counters\<close>

record counter =
  ct_key :: string
  ct_val :: int
  ct_exp :: "int option"  \<comment> \<open>milliseconds\<close>

definition redis_live :: "int \<Rightarrow> counter list \<Rightarrow> counter list" where
  "redis_live now cs = filter (\<lambda>c. case ct_exp c of None \<Rightarrow> True | Some t \<Rightarrow> now < t) cs"

definition redis_get :: "int \<Rightarrow> string \<Rightarrow> counter list \<Rightarrow> int option" where
  "redis_get now k cs = map_option ct_val (tfind ct_key k (redis_live now cs))"

definition redis_incrby :: "int \<Rightarrow> string \<Rightarrow> int \<Rightarrow> counter list \<Rightarrow> counter list" where
  "redis_incrby now k n cs = tupsert ct_key k \<lparr>ct_key = k, ct_val = n, ct_exp = None\<rparr>
     (\<lambda>c. c\<lparr>ct_val := ct_val c + n\<rparr>) (redis_live now cs)"

definition redis_expire :: "int \<Rightarrow> string \<Rightarrow> int \<Rightarrow> counter list \<Rightarrow> counter list" where
  "redis_expire now k seconds cs = tupdate ct_key k (\<lambda>c. c\<lparr>ct_exp := Some (now + seconds * 1000)\<rparr>) (redis_live now cs)"

datatype redis_command = Get | Incr | IncrBy | Expire

section \<open>Requests, calls and transactions\<close>

record forward_request =
  q_from :: string
  q_to :: string
  q_value :: string
  q_gas :: string
  q_deadline :: int
  q_data :: string
  q_signature :: string

record permit =
  p_owner :: string
  p_value :: string
  p_deadline :: string
  p_v :: int
  p_r :: string
  p_s :: string

record permit_request = permit +
  p_token :: string
  p_spender :: string

record relay_request =
  rq_request :: forward_request
  rq_permit :: "permit option"

record contract_request =
  cr_from :: string
  cr_to :: string
  cr_value :: int
  cr_gas :: int
  cr_deadline :: int
  cr_data :: string
  cr_signature :: string

datatype relay_call =
    Execute contract_request
  | ExecuteWithPermit string int int int string string contract_request
  | PermitCall string string int int int string string
  | RawCall string

record relay_tx =
  x_to :: string
  x_call :: relay_call
  x_gas :: int
  x_fee :: int
  x_priority :: int

text \<open>An error as viem nests it: the revert bytes, when there are any, hang on some cause.\<close>

datatype js_error = JsError (e_data: "string option") (e_message: string) (e_cause: "js_error option")

datatype reject_code = Invalid | Rejected | RateLimited | Unavailable

datatype relay_error =
    RelayRejected reject_code "string option"  \<comment> \<open>the contract error named to the sender, if any\<close>
  | SyntaxFailed
  | TypeFailed
  | NodeFailed
  | RedisFailed

record relay_config =
  rc_enabled :: bool
  rc_privateKey :: "string option"
  rc_forwarder :: "string option"
  rc_resolutionForwarder :: "string option"
  rc_httpUrl :: "string option"
  rc_permit2 :: "string option"
  rc_lsLmsr :: "string option"
  rc_optimisticResolver :: "string option"
  rc_maxGas :: int
  rc_maxFee :: int
  rc_accountLimit :: int
  rc_accountWindow :: int
  rc_dailyCap :: int
  rc_minBalance :: int

record relay_env =
  n_now :: int
  n_today :: string  \<comment> \<open>\<open>new Date().toISOString().slice(0, 10)\<close>\<close>
  n_redis :: "redis_command \<Rightarrow> bool"
  n_verify :: "string \<Rightarrow> contract_request \<Rightarrow> bool option"
  n_call :: "string \<Rightarrow> relay_call \<Rightarrow> js_error option"
  n_estimate :: "string \<Rightarrow> relay_call \<Rightarrow> js_error + int"
  n_fees :: "(int option \<times> int option) option"
  n_send :: "relay_tx \<Rightarrow> string option"
  n_balance :: "int option"

record relay_state =
  hasRpc :: bool
  hasWallet :: bool
  account :: "string option"
  engine :: "string option"
  permitSpenders :: "string list"
  selectors :: "string list"
  resolutionForwarder :: "string option"
  resolutionResolver :: "string option"
  resolutionSelectors :: "string list"
  counters :: "counter list"
  sent :: "relay_tx list"
  balanceRead :: "(int \<times> int option) option"

type_synonym 'a relay = "(relay_state, relay_error, 'a) proc"

section \<open>What a failed simulation means\<close>

definition REVERT_REASONS :: "(string \<times> string) list" where
  "REVERT_REASONS =
     [(''0x71c4efed'', ''SlippageExceeded''), (''0x38fcec43'', ''AmountBelowMin''),
      (''0xfb8f41b2'', ''ERC20InsufficientAllowance''), (''0xe450d38c'', ''ERC20InsufficientBalance''),
      (''0x5bd17307'', ''ProposalExists''), (''0x290e4209'', ''NotDisputable''),
      (''0x2ec1bf71'', ''SameOutcome''), (''0x966a32f7'', ''MarketNotClosed''),
      (''0x9dc30b8e'', ''MarketClosed''), (''0xdfd92da0'', ''AlreadySettled''),
      (''0xf5ccd95e'', ''AccountBanned''), (''0xeac3a0ea'', ''InvalidOutcome'')]"

definition revert_bytes :: "string option \<Rightarrow> string option" where
  "revert_bytes data = (case data of None \<Rightarrow> None
     | Some d \<Rightarrow> if take 2 d = ''0x'' \<and> 10 \<le> length d then Some d else None)"

text \<open>The loop both functions run: eight nodes of the cause chain at most.\<close>

fun find_revert :: "nat \<Rightarrow> js_error option \<Rightarrow> string option" where
  "find_revert 0 node = None"
| "find_revert (Suc depth) None = None"
| "find_revert (Suc depth) (Some node) = (case revert_bytes (e_data node) of
     Some d \<Rightarrow> Some d | None \<Rightarrow> find_revert depth (e_cause node))"

text \<open>The \<open>user\<close> part of \<open>revertReason\<close>, named by the contract error.\<close>

definition revertReason :: "js_error \<Rightarrow> string option" where
  "revertReason err = (case find_revert 8 (Some err) of
     None \<Rightarrow> None
   | Some d \<Rightarrow> map_of REVERT_REASONS (lower (take 10 d)))"

fun text_includes :: "string \<Rightarrow> string \<Rightarrow> bool" where
  "text_includes sub [] = (sub = [])"
| "text_includes sub (c # cs) = (take (length sub) (c # cs) = sub \<or> text_includes sub cs)"

definition isTransportFailure :: "js_error \<Rightarrow> bool" where
  "isTransportFailure err = (case find_revert 8 (Some err) of
     Some _ \<Rightarrow> False
   | None \<Rightarrow>
       (let text = lower (e_message err)
        in text_includes ''rpc request failed'' text \<or> text_includes ''http request failed'' text \<or>
           text_includes ''timed out'' text \<or> text_includes ''fetch failed'' text \<or>
           text_includes ''socket'' text \<or> text_includes ''econnreset'' text))"

section \<open>Cost bounds\<close>

definition GWEI :: int where
  "GWEI = 1000000000"

definition bigintMin :: "int \<Rightarrow> int \<Rightarrow> int" where
  "bigintMin a b = (if a < b then a else b)"

definition gasFor :: "relay_env \<Rightarrow> relay_config \<Rightarrow> int \<Rightarrow> (int \<times> int \<times> int) relay" where
  "gasFor E C estimate =
     (let headroom = bigintMin (bigint_div estimate 10) 200000;
          limit = estimate + headroom
      in if rc_maxGas C < limit then throw (RelayRejected Unavailable None)
         else (let fee = (case n_fees E of Some (Some f, _) \<Rightarrow> f | _ \<Rightarrow> rc_maxFee C);
                   maxFeePerGas = bigintMin fee (rc_maxFee C);
                   tip = (case n_fees E of Some (_, Some p) \<Rightarrow> p | _ \<Rightarrow> 1000000000)
               in ret (limit, maxFeePerGas, bigintMin tip maxFeePerGas)))"

definition rateKey :: "string \<Rightarrow> string" where
  "rateKey acc = ''relay:rate:'' @ lower acc"

definition spendKey :: "relay_env \<Rightarrow> string" where
  "spendKey E = ''relay:spend:'' @ n_today E"

definition redisp :: "relay_env \<Rightarrow> redis_command \<Rightarrow> (counter list \<Rightarrow> counter list) \<Rightarrow> unit relay" where
  "redisp E cmd f = (if n_redis E cmd then modp (\<lambda>s. s\<lparr>counters := f (counters s)\<rparr>) else throw RedisFailed)"

definition enforceAccountRate :: "relay_env \<Rightarrow> relay_config \<Rightarrow> string \<Rightarrow> unit relay" where
  "enforceAccountRate E C acc =
     seqp (redisp E Incr (redis_incrby (n_now E) (rateKey acc) 1))
       (bindp (gets (\<lambda>s. redis_get (n_now E) (rateKey acc) (counters s)))
         (\<lambda>r. let count = (case r of None \<Rightarrow> 0 | Some n \<Rightarrow> n) in
           seqp (whenp (count = 1) (redisp E Expire (redis_expire (n_now E) (rateKey acc) (rc_accountWindow C))))
             (whenp (rc_accountLimit C < count) (throw (RelayRejected RateLimited None)))))"

definition spentTodayWei :: "relay_env \<Rightarrow> relay_state \<Rightarrow> int" where
  "spentTodayWei E s =
     (case redis_get (n_now E) (spendKey E) (counters s) of None \<Rightarrow> 0 | Some n \<Rightarrow> n) * GWEI"

definition enforceDailyCap :: "relay_env \<Rightarrow> relay_config \<Rightarrow> unit relay" where
  "enforceDailyCap E C = (if \<not> n_redis E Get then throw RedisFailed
     else bindp (gets (spentTodayWei E))
       (\<lambda>spent. whenp (rc_dailyCap C \<le> spent) (throw (RelayRejected Unavailable None))))"

definition recordSpend :: "relay_env \<Rightarrow> int \<Rightarrow> unit relay" where
  "recordSpend E wei =
     seqp (redisp E IncrBy (redis_incrby (n_now E) (spendKey E) (js_number (bigint_div wei GWEI))))
       (redisp E Expire (redis_expire (n_now E) (spendKey E) 172800))"

section \<open>Sending\<close>

definition isEnabled :: "relay_config \<Rightarrow> relay_state \<Rightarrow> bool" where
  "isEnabled C s \<longleftrightarrow> rc_enabled C \<and> hasRpc s \<and> hasWallet s"

definition isResolutionEnabled :: "relay_config \<Rightarrow> relay_state \<Rightarrow> bool" where
  "isResolutionEnabled C s \<longleftrightarrow> isEnabled C s \<and> resolutionForwarder s \<noteq> None"

text \<open>\<open>rpc.call\<close> and then \<open>rpc.estimateGas\<close>, in one \<open>try\<close>.\<close>

definition simulate :: "relay_env \<Rightarrow> string \<Rightarrow> relay_call \<Rightarrow> js_error + int" where
  "simulate E to call = (case n_call E to call of Some err \<Rightarrow> Inl err | None \<Rightarrow> n_estimate E to call)"

definition sendTransaction :: "relay_env \<Rightarrow> relay_tx \<Rightarrow> string relay" where
  "sendTransaction E tx = (case n_send E tx of None \<Rightarrow> throw NodeFailed
     | Some hash \<Rightarrow> seqp (modp (\<lambda>s. s\<lparr>sent := sent s @ [tx]\<rparr>)) (ret hash))"

text \<open>The tail every sending path shares: the gas policy, the transaction, the charge.\<close>

definition broadcast :: "relay_env \<Rightarrow> relay_config \<Rightarrow> string \<Rightarrow> relay_call \<Rightarrow> int \<Rightarrow> string relay" where
  "broadcast E C to call gas =
     bindp (gasFor E C gas) (\<lambda>(limit, fee, tip).
       bindp (sendTransaction E \<lparr>x_to = to, x_call = call, x_gas = limit, x_fee = fee, x_priority = tip\<rparr>)
         (\<lambda>hash. seqp (recordSpend E (limit * fee)) (ret hash)))"

definition rejectSimulation :: "js_error \<Rightarrow> 'a relay" where
  "rejectSimulation err = throw (if isTransportFailure err then RelayRejected Unavailable None
     else RelayRejected Rejected (revertReason err))"

definition forwardCall :: "relay_request \<Rightarrow> contract_request \<Rightarrow> relay_call option" where
  "forwardCall payload request = (case rq_permit payload of
     None \<Rightarrow> Some (Execute request)
   | Some p \<Rightarrow> (case (bigint_of_string (p_value p), bigint_of_string (p_deadline p)) of
        (Some v, Some d) \<Rightarrow> Some (ExecuteWithPermit (p_owner p) v d (p_v p) (p_r p) (p_s p) request)
      | _ \<Rightarrow> None))"

definition simulateAndSend ::
  "relay_env \<Rightarrow> relay_config \<Rightarrow> relay_request \<Rightarrow> contract_request \<Rightarrow> string \<Rightarrow> string relay" where
  "simulateAndSend E C payload request forwarder = (case forwardCall payload request of
     None \<Rightarrow> throw SyntaxFailed
   | Some call \<Rightarrow> (case simulate E forwarder call of
        Inl err \<Rightarrow> rejectSimulation err
      | Inr gas \<Rightarrow> broadcast E C forwarder call gas))"

definition toContractRequest :: "relay_request \<Rightarrow> contract_request option" where
  "toContractRequest payload = (let r = rq_request payload in
     case (bigint_of_string (q_value r), bigint_of_string (q_gas r)) of
       (Some v, Some g) \<Rightarrow> Some \<lparr>cr_from = q_from r, cr_to = q_to r, cr_value = v, cr_gas = g,
          cr_deadline = q_deadline r, cr_data = q_data r, cr_signature = q_signature r\<rparr>
     | _ \<Rightarrow> None)"

text \<open>The checks that cost nothing, shared by the two forwarding endpoints in this order.\<close>

definition shape_ok :: "relay_config \<Rightarrow> string \<Rightarrow> string list \<Rightarrow> relay_request \<Rightarrow> contract_request \<Rightarrow> bool" where
  "shape_ok C target sels payload request \<longleftrightarrow>
     lower (cr_to request) = lower target \<and> cr_value request = 0 \<and> cr_gas request \<le> rc_maxGas C \<and>
     10 \<le> length (cr_data request) \<and> lower (take 10 (cr_data request)) \<in> set sels \<and>
     (case rq_permit payload of None \<Rightarrow> True | Some p \<Rightarrow> lower (p_owner p) = lower (cr_from request))"

definition admit :: "relay_env \<Rightarrow> relay_config \<Rightarrow> string \<Rightarrow> string option \<Rightarrow> string list \<Rightarrow> relay_request \<Rightarrow> contract_request relay" where
  "admit E C forwarder target sels payload = (case toContractRequest payload of
     None \<Rightarrow> throw SyntaxFailed
   | Some request \<Rightarrow> (case target of
        None \<Rightarrow> throw TypeFailed
      | Some t \<Rightarrow>
          if \<not> shape_ok C t sels payload request then throw (RelayRejected Invalid None)
          else seqp (enforceAccountRate E C (cr_from request))
                 (seqp (enforceDailyCap E C)
                   (if n_verify E forwarder request = Some True then ret request
                    else throw (RelayRejected Invalid None)))))"

definition submitAdmit :: "relay_env \<Rightarrow> relay_config \<Rightarrow> relay_request \<Rightarrow> (contract_request \<times> string) relay" where
  "submitAdmit E C payload = bindp (gets id) (\<lambda>s.
     if \<not> isEnabled C s then throw (RelayRejected Unavailable None)
     else (case rc_forwarder C of None \<Rightarrow> throw TypeFailed
       | Some fwd \<Rightarrow> bindp (admit E C fwd (engine s) (selectors s) payload) (\<lambda>request. ret (request, fwd))))"

definition submit :: "relay_env \<Rightarrow> relay_config \<Rightarrow> relay_request \<Rightarrow> string relay" where
  "submit E C payload = bindp (submitAdmit E C payload)
     (\<lambda>(request, fwd). simulateAndSend E C payload request fwd)"

definition submitResolutionAdmit :: "relay_env \<Rightarrow> relay_config \<Rightarrow> relay_request \<Rightarrow> (contract_request \<times> string) relay" where
  "submitResolutionAdmit E C payload = bindp (gets id) (\<lambda>s.
     if \<not> isEnabled C s then throw (RelayRejected Unavailable None)
     else (case resolutionForwarder s of
         None \<Rightarrow> throw (RelayRejected Unavailable None)
       | Some fwd \<Rightarrow> bindp (admit E C fwd (resolutionResolver s) (resolutionSelectors s) payload)
           (\<lambda>request. ret (request, fwd))))"

definition submitResolution :: "relay_env \<Rightarrow> relay_config \<Rightarrow> relay_request \<Rightarrow> string relay" where
  "submitResolution E C payload = bindp (submitResolutionAdmit E C payload)
     (\<lambda>(request, fwd). simulateAndSend E C payload request fwd)"

definition submitPermitAdmit :: "relay_env \<Rightarrow> relay_config \<Rightarrow> permit_request \<Rightarrow> relay_call relay" where
  "submitPermitAdmit E C p = bindp (gets id) (\<lambda>s.
     if \<not> isEnabled C s then throw (RelayRejected Unavailable None)
     else if lower (p_spender p) \<notin> set (permitSpenders s) then throw (RelayRejected Invalid None)
     else seqp (enforceAccountRate E C (p_owner p))
            (seqp (enforceDailyCap E C)
              (case (bigint_of_string (p_value p), bigint_of_string (p_deadline p)) of
                 (Some v, Some d) \<Rightarrow> ret (PermitCall (p_owner p) (p_spender p) v d (p_v p) (p_r p) (p_s p))
               | _ \<Rightarrow> throw SyntaxFailed)))"

definition permitSection :: "relay_env \<Rightarrow> relay_config \<Rightarrow> string \<Rightarrow> relay_call \<Rightarrow> string relay" where
  "permitSection E C token call = (case simulate E token call of
     Inl err \<Rightarrow> throw (RelayRejected Rejected None)
   | Inr gas \<Rightarrow> broadcast E C token call gas)"

definition submitPermit :: "relay_env \<Rightarrow> relay_config \<Rightarrow> permit_request \<Rightarrow> string relay" where
  "submitPermit E C p = bindp (submitPermitAdmit E C p) (permitSection E C (p_token p))"

definition sendAdmit :: "relay_env \<Rightarrow> relay_config \<Rightarrow> unit relay" where
  "sendAdmit E C = bindp (gets id) (\<lambda>s.
     if \<not> isEnabled C s then throw (RelayRejected Unavailable None) else enforceDailyCap E C)"

definition sendSection :: "relay_env \<Rightarrow> relay_config \<Rightarrow> string \<Rightarrow> string \<Rightarrow> string relay" where
  "sendSection E C to data = (case simulate E to (RawCall data) of
     Inl err \<Rightarrow> rejectSimulation err
   | Inr gas \<Rightarrow> broadcast E C to (RawCall data) gas)"

definition sendFromRelayer :: "relay_env \<Rightarrow> relay_config \<Rightarrow> string \<Rightarrow> string \<Rightarrow> string relay" where
  "sendFromRelayer E C to data = seqp (sendAdmit E C) (sendSection E C to data)"

text \<open>\<open>receiptFor\<close>: \<open>NoReceipt\<close> is its \<open>null\<close>, a timeout or a relay without a node.\<close>

datatype receipt = Success | Reverted | NoReceipt

definition receiptFor :: "(string \<Rightarrow> receipt) \<Rightarrow> relay_state \<Rightarrow> string \<Rightarrow> receipt" where
  "receiptFor wait s hash = (if hasRpc s then wait hash else NoReceipt)"

section \<open>Reading the relay\<close>

definition BALANCE_TTL_MS :: int where
  "BALANCE_TTL_MS = 15000"

definition readBalance :: "relay_env \<Rightarrow> relay_state \<Rightarrow> int option \<times> relay_state" where
  "readBalance E s =
     (let wei = (if hasRpc s \<and> account s \<noteq> None then n_balance E else None)
      in (wei, s\<lparr>balanceRead := Some (n_now E, wei)\<rparr>))"

definition cachedBalance :: "relay_env \<Rightarrow> relay_state \<Rightarrow> int option \<times> relay_state" where
  "cachedBalance E s = (case balanceRead s of
     Some (at_ms, wei) \<Rightarrow> if n_now E - at_ms < BALANCE_TTL_MS then (wei, s) else readBalance E s
   | None \<Rightarrow> readBalance E s)"

datatype relay_reason = Disabled | Capped

record public_state =
  ps_available :: bool
  ps_reason :: "relay_reason option"
  ps_resolution :: bool

definition publicState :: "relay_env \<Rightarrow> relay_config \<Rightarrow> relay_state \<Rightarrow> public_state" where
  "publicState E C s =
     (if \<not> isEnabled C s then \<lparr>ps_available = False, ps_reason = Some Disabled, ps_resolution = False\<rparr>
      else (let capped = rc_dailyCap C \<le> spentTodayWei E s
            in \<lparr>ps_available = \<not> capped, ps_reason = (if capped then Some Capped else None),
                ps_resolution = isResolutionEnabled C s\<rparr>))"

record relay_gauge =
  g_enabled :: bool
  g_relayer :: "string option"
  g_balanceWei :: "string option"
  g_spentTodayWei :: string
  g_dailyCapWei :: string
  g_minBalanceWei :: string
  g_lowBalance :: bool
  g_resolution :: bool

definition gauge :: "relay_env \<Rightarrow> relay_config \<Rightarrow> relay_state \<Rightarrow> relay_gauge \<times> relay_state" where
  "gauge E C s =
     (let (balance, t) = cachedBalance E s
      in (\<lparr>g_enabled = isEnabled C s, g_relayer = account s, g_balanceWei = map_option dec balance,
           g_spentTodayWei = dec (spentTodayWei E s), g_dailyCapWei = dec (rc_dailyCap C),
           g_minBalanceWei = dec (rc_minBalance C),
           g_lowBalance = (case balance of None \<Rightarrow> False | Some b \<Rightarrow> b < rc_minBalance C),
           g_resolution = isResolutionEnabled C s\<rparr>, t))"

section \<open>Boot\<close>

definition RELAYABLE_SIGNATURES :: "string list" where
  "RELAYABLE_SIGNATURES =
     [''buy(uint256,uint256,uint256,uint256)'', ''buyComplement(uint256,uint256,uint256,uint256)'',
      ''sell(uint256,uint256,uint256,uint256)'', ''sellComplement(uint256,uint256,uint256,uint256)'',
      ''redeem(uint256)'']"

definition RESOLUTION_SIGNATURES :: "string list" where
  "RESOLUTION_SIGNATURES = [''propose(address,uint256,uint256)'', ''dispute(address,uint256,uint256)'']"

definition zero_address :: string where
  "zero_address = ''0x0000000000000000000000000000000000000000''"

definition WIRING_RETRIES :: nat where
  "WIRING_RETRIES = 5"

text \<open>What the node answers during one attempt; \<open>None\<close> is a read that throws.\<close>

record wiring =
  w_target :: "string option"  \<comment> \<open>\<open>market()\<close>, or \<open>resolver()\<close> of the resolution forwarder\<close>
  w_relayable :: "string \<Rightarrow> bool option"
  w_balance :: "int option"

fun checkSelectors :: "(string \<Rightarrow> bool option) \<Rightarrow> string list \<Rightarrow> bool option" where
  "checkSelectors ok [] = Some True"
| "checkSelectors ok (x # xs) = (case ok x of
     None \<Rightarrow> None | Some b \<Rightarrow> if b then checkSelectors ok xs else Some False)"

definition wrong_target :: "string option \<Rightarrow> string \<Rightarrow> bool" where
  "wrong_target configured target =
     (case configured of None \<Rightarrow> False | Some c \<Rightarrow> lower target \<noteq> lower c)"

text \<open>One attempt: whether to try again, and the state.\<close>

definition wiringAttempt :: "relay_config \<Rightarrow> wiring \<Rightarrow> relay_state \<Rightarrow> bool \<times> relay_state" where
  "wiringAttempt C w s = (case w_target w of
     None \<Rightarrow> (True, s)
   | Some market \<Rightarrow>
       if market = zero_address \<or> wrong_target (rc_lsLmsr C) market then (False, s\<lparr>hasWallet := False\<rparr>)
       else (let t = s\<lparr>engine := Some market,
                       permitSpenders := lower market # (case rc_permit2 C of None \<Rightarrow> [] | Some p \<Rightarrow> [lower p])\<rparr>
             in case checkSelectors (w_relayable w) (selectors s) of
                  None \<Rightarrow> (True, t)
                | Some ok \<Rightarrow> if \<not> ok then (False, t\<lparr>hasWallet := False\<rparr>)
                            else (case w_balance w of None \<Rightarrow> (True, t) | Some _ \<Rightarrow> (False, t))))"

function verifyWiring :: "relay_config \<Rightarrow> (nat \<Rightarrow> wiring) \<Rightarrow> nat \<Rightarrow> relay_state \<Rightarrow> relay_state" where
  "verifyWiring C answers attempt s =
     (let (again, t) = wiringAttempt C (answers attempt) s
      in if \<not> again then t
         else if attempt < WIRING_RETRIES then verifyWiring C answers (attempt + 1) t
         else t\<lparr>hasWallet := False\<rparr>)"
  by pat_completeness auto
termination
  by (relation "measure (\<lambda>(_, _, attempt, _). Suc WIRING_RETRIES - attempt)") auto

definition resolutionAttempt :: "relay_config \<Rightarrow> string \<Rightarrow> wiring \<Rightarrow> relay_state \<Rightarrow> bool \<times> relay_state" where
  "resolutionAttempt C fwd w s = (case w_target w of
     None \<Rightarrow> (True, s)
   | Some resolver \<Rightarrow>
       if resolver = zero_address \<or> wrong_target (rc_optimisticResolver C) resolver then (False, s)
       else (case checkSelectors (w_relayable w) (resolutionSelectors s) of
               None \<Rightarrow> (True, s)
             | Some ok \<Rightarrow> (False, if ok then s\<lparr>resolutionForwarder := Some fwd, resolutionResolver := Some resolver\<rparr> else s)))"

function verifyResolutionWiring ::
  "relay_config \<Rightarrow> (nat \<Rightarrow> wiring) \<Rightarrow> nat \<Rightarrow> relay_state \<Rightarrow> relay_state" where
  "verifyResolutionWiring C answers attempt s = (case rc_resolutionForwarder C of
     None \<Rightarrow> s
   | Some fwd \<Rightarrow>
       (let (again, t) = resolutionAttempt C fwd (answers attempt) s
        in if again \<and> attempt < WIRING_RETRIES then verifyResolutionWiring C answers (attempt + 1) t else t))"
  by pat_completeness auto
termination
  by (relation "measure (\<lambda>(_, _, attempt, _). Suc WIRING_RETRIES - attempt)") auto

declare verifyWiring.simps [simp del] verifyResolutionWiring.simps [simp del]

definition relayInit ::
  "relay_config \<Rightarrow> (string \<Rightarrow> string) \<Rightarrow> (string \<Rightarrow> string) \<Rightarrow> (nat \<Rightarrow> wiring) \<Rightarrow> (nat \<Rightarrow> wiring) \<Rightarrow> relay_state \<Rightarrow> relay_state" where
  "relayInit C addressOf selectorOf trading resolution s =
     (if \<not> rc_enabled C then s
      else (case (rc_privateKey C, rc_forwarder C, rc_httpUrl C) of
        (Some key, Some _, Some _) \<Rightarrow>
          (let t = s\<lparr>account := Some (addressOf key), hasRpc := True, hasWallet := True,
                     selectors := map selectorOf RELAYABLE_SIGNATURES,
                     resolutionSelectors := map selectorOf RESOLUTION_SIGNATURES\<rparr>
           in verifyResolutionWiring C resolution 0 (verifyWiring C trading 0 t))
      | _ \<Rightarrow> s))"

end
