(* ===== verification/RelayProps.thy ===== *)
theory RelayProps
  imports Relay
begin

text \<open>
  What a relayed transaction can cost and what must have been checked before it was sent: the gas
  policy, the admission checks of each endpoint, and the daily cap under interleaved requests.
\<close>

section \<open>The gas policy\<close>

lemma bigintMin_bounds: "bigintMin a b \<le> a" "bigintMin a b \<le> b"
  by (auto simp: bigintMin_def)

lemma gasFor_state: "gasFor E C g s = (r, t) \<Longrightarrow> t = s"
  by (auto simp: gasFor_def Let_def throw_def ret_def split: if_splits)

text \<open>The node's fee estimate is not negative.\<close>

definition fair_fees :: "relay_env \<Rightarrow> bool" where
  "fair_fees E \<longleftrightarrow> (\<forall>f p. n_fees E = Some (Some f, p) \<longrightarrow> 0 \<le> f)"

lemma gasFor_Inr:
  assumes "gasFor E C g s = (Inr (limit, fee, tip), t)" "0 \<le> g"
  shows "g \<le> limit" "limit \<le> rc_maxGas C" "limit \<le> g + 200000" "10 * limit \<le> 11 * g"
    and "fee \<le> rc_maxFee C" "tip \<le> fee" "t = s" "fair_fees E \<Longrightarrow> 0 \<le> rc_maxFee C \<Longrightarrow> 0 \<le> fee"
proof -
  let ?h = "bigintMin (bigint_div g 10) 200000"
  have h: "0 \<le> ?h" "?h \<le> 200000" "10 * ?h \<le> g" using assms(2) by (auto simp: bigintMin_def)
  have eq: "limit = g + ?h" "\<not> rc_maxGas C < limit"
    and f: "\<exists>x y. fee = bigintMin x (rc_maxFee C) \<and> tip = bigintMin y fee" and t: "t = s"
    using assms(1) by (auto simp: gasFor_def Let_def throw_def ret_def split: if_splits)
  show "g \<le> limit" "limit \<le> rc_maxGas C" "limit \<le> g + 200000" "10 * limit \<le> 11 * g"
    using eq h by linarith+
  show "fee \<le> rc_maxFee C" "tip \<le> fee" "t = s" using f bigintMin_bounds t by auto
  show "0 \<le> fee" if "fair_fees E" "0 \<le> rc_maxFee C"
    using assms(1) that
    by (auto simp: gasFor_def Let_def throw_def ret_def fair_fees_def bigintMin_def split: if_splits option.splits)
qed

text \<open>The gas limit and the two fees the policy gives a call whose simulation estimates \<open>g\<close>.\<close>

definition priced :: "relay_env \<Rightarrow> relay_config \<Rightarrow> int \<Rightarrow> relay_tx \<Rightarrow> bool" where
  "priced E C g x \<longleftrightarrow> x_gas x = g + bigintMin (bigint_div g 10) 200000 \<and> x_gas x \<le> rc_maxGas C \<and>
     x_fee x = bigintMin (case n_fees E of Some (Some f, _) \<Rightarrow> f | _ \<Rightarrow> rc_maxFee C) (rc_maxFee C) \<and>
     x_priority x = bigintMin (case n_fees E of Some (_, Some p) \<Rightarrow> p | _ \<Rightarrow> 1000000000) (x_fee x)"

lemma gasFor_priced:
  "gasFor E C g s = (Inr (limit, fee, tip), t) \<Longrightarrow>
   priced E C g \<lparr>x_to = to, x_call = call, x_gas = limit, x_fee = fee, x_priority = tip\<rparr>"
  by (auto simp: gasFor_def priced_def Let_def throw_def ret_def split: if_splits)

definition cost :: "relay_tx \<Rightarrow> int" where
  "cost x = x_gas x * x_fee x"

definition fits :: "relay_config \<Rightarrow> relay_tx \<Rightarrow> bool" where
  "fits C x \<longleftrightarrow> 0 \<le> x_gas x \<and> x_gas x \<le> rc_maxGas C \<and> x_fee x \<le> rc_maxFee C \<and> x_priority x \<le> x_fee x"

lemma fits_cost:
  assumes "fits C x" "0 \<le> rc_maxFee C"
  shows "cost x \<le> rc_maxGas C * rc_maxFee C"
proof -
  have "cost x \<le> x_gas x * rc_maxFee C" using assms by (simp add: cost_def fits_def mult_left_mono)
  also have "\<dots> \<le> rc_maxGas C * rc_maxFee C" using assms by (simp add: fits_def mult_right_mono)
  finally show ?thesis .
qed

section \<open>What a sending section does\<close>

lemma redisp_cases:
  "redisp E cmd f s = (r, t) \<longleftrightarrow>
     (if n_redis E cmd then r = Inr () \<and> t = s\<lparr>counters := f (counters s)\<rparr> else r = Inl RedisFailed \<and> t = s)"
  by (auto simp: redisp_def throw_def modp_def)

definition charged :: "relay_env \<Rightarrow> int \<Rightarrow> counter list \<Rightarrow> counter list" where
  "charged E wei cs = redis_expire (n_now E) (spendKey E) 172800
     (redis_incrby (n_now E) (spendKey E) (js_number (bigint_div wei GWEI)) cs)"

lemma recordSpend_run:
  assumes "recordSpend E wei s = (r, t)"
  shows "sent t = sent s" "\<exists>cs. t = s\<lparr>counters := cs\<rparr>" "r = Inr () \<or> r = Inl RedisFailed"
    and "r = (if n_redis E IncrBy \<and> n_redis E Expire then Inr () else Inl RedisFailed)"
    and "n_redis E IncrBy \<Longrightarrow> n_redis E Expire \<Longrightarrow> r = Inr () \<and> t = s\<lparr>counters := charged E wei (counters s)\<rparr>"
proof -
  have upd: "\<exists>cs. u = u\<lparr>counters := cs\<rparr>" for u :: relay_state
    by (intro exI [of _ "counters u"]) simp
  show "\<exists>cs. t = s\<lparr>counters := cs\<rparr>"
    using assms upd unfolding recordSpend_def seqp_def bindp_def redisp_def
    by (auto simp: throw_def modp_def split: if_splits)
  then show "sent t = sent s" by auto
  show r: "r = (if n_redis E IncrBy \<and> n_redis E Expire then Inr () else Inl RedisFailed)"
    using assms unfolding recordSpend_def seqp_def bindp_def redisp_def
    by (auto simp: throw_def modp_def split: if_splits)
  then show "r = Inr () \<or> r = Inl RedisFailed" by simp
  show "r = Inr () \<and> t = s\<lparr>counters := charged E wei (counters s)\<rparr>" if "n_redis E IncrBy" "n_redis E Expire"
    using assms that unfolding recordSpend_def by (auto simp: redisp_def charged_def)
qed

text \<open>A transaction that a section sent, and how the section ended: with its hash, or with a Redis
  failure after the fact.\<close>

definition sends :: "relay_env \<Rightarrow> relay_config \<Rightarrow> string \<Rightarrow> relay_call \<Rightarrow> relay_state \<Rightarrow>
    (relay_error + string) \<Rightarrow> relay_state \<Rightarrow> relay_tx \<Rightarrow> bool" where
  "sends E C to call s r t x \<longleftrightarrow> x_to x = to \<and> x_call x = call \<and> sent t = sent s @ [x] \<and>
     (\<exists>cs. t = s\<lparr>sent := sent s @ [x], counters := cs\<rparr>) \<and>
     n_call E to call = None \<and> (\<exists>g. n_estimate E to call = Inr g \<and> priced E C g x \<and>
        (0 \<le> g \<longrightarrow> g \<le> x_gas x \<and> fits C x \<and> (fair_fees E \<and> 0 \<le> rc_maxFee C \<longrightarrow> 0 \<le> x_fee x))) \<and>
     (\<exists>h. n_send E x = Some h \<and> r = (if n_redis E IncrBy \<and> n_redis E Expire then Inr h else Inl RedisFailed)) \<and>
     ((\<exists>h. r = Inr h) \<or> r = Inl RedisFailed) \<and>
     (n_redis E IncrBy \<and> n_redis E Expire \<longrightarrow>
        (\<exists>h. r = Inr h) \<and> counters t = charged E (cost x) (counters s))"

lemma simulate_Inr: "simulate E to call = Inr g \<longleftrightarrow> n_call E to call = None \<and> n_estimate E to call = Inr g"
  by (auto simp: simulate_def split: option.splits)

lemma broadcast_cases:
  assumes "broadcast E C to call g s = (r, t)" "simulate E to call = Inr g"
  shows "(t = s \<and> (\<exists>e. r = Inl e)) \<or> (\<exists>x. sends E C to call s r t x)"
proof (cases "fst (gasFor E C g s)")
  case (Inl e)
  then have "gasFor E C g s = (Inl e, s)" by (metis gasFor_state prod.collapse)
  then show ?thesis using assms(1) by (auto simp: broadcast_def)
next
  case (Inr p)
  obtain limit fee tip where p: "p = (limit, fee, tip)" by (cases p) auto
  then have g: "gasFor E C g s = (Inr (limit, fee, tip), s)" using Inr by (metis gasFor_state prod.collapse)
  define x where "x = \<lparr>x_to = to, x_call = call, x_gas = limit, x_fee = fee, x_priority = tip\<rparr>"
  have run: "bindp (sendTransaction E x) (\<lambda>hash. seqp (recordSpend E (limit * fee)) (ret hash)) s = (r, t)"
    using assms(1) g by (simp add: broadcast_def x_def)
  show ?thesis
  proof (cases "n_send E x")
    case None
    then show ?thesis using run by (auto simp: sendTransaction_def)
  next
    case (Some hash)
    define u where "u = s\<lparr>sent := sent s @ [x]\<rparr>"
    have run2: "seqp (recordSpend E (limit * fee)) (ret hash) u = (r, t)"
      using run Some by (simp add: sendTransaction_def u_def)
    obtain r1 v where rec: "recordSpend E (limit * fee) u = (r1, v)" by fastforce
    have tv: "t = v" and rr: "r = (case r1 of Inl e \<Rightarrow> Inl e | Inr _ \<Rightarrow> Inr hash)"
      using run2 rec by (auto simp: seqp_def bindp_def split: sum.splits)
    obtain cs where v: "v = u\<lparr>counters := cs\<rparr>" using recordSpend_run(2) [OF rec] by blast
    have price: "priced E C g x" using gasFor_priced [OF g] by (simp add: x_def)
    have fit: "0 \<le> g \<Longrightarrow> g \<le> x_gas x \<and> fits C x \<and> (fair_fees E \<and> 0 \<le> rc_maxFee C \<longrightarrow> 0 \<le> x_fee x)"
      using gasFor_Inr [OF g] by (auto simp: fits_def x_def)
    have "sends E C to call s r t x"
      unfolding sends_def
    proof (intro conjI)
      show "\<exists>cs. t = s\<lparr>sent := sent s @ [x], counters := cs\<rparr>" using tv v by (auto simp: u_def)
      show "\<exists>g. n_estimate E to call = Inr g \<and> priced E C g x \<and> (0 \<le> g \<longrightarrow> g \<le> x_gas x \<and> fits C x \<and>
          (fair_fees E \<and> 0 \<le> rc_maxFee C \<longrightarrow> 0 \<le> x_fee x))"
        using assms(2) fit price by (intro exI [of _ g]) (simp add: simulate_Inr)
      show "\<exists>h. n_send E x = Some h \<and> r = (if n_redis E IncrBy \<and> n_redis E Expire then Inr h else Inl RedisFailed)"
        using Some recordSpend_run(4) [OF rec] rr by auto
      show "(\<exists>h. r = Inr h) \<or> r = Inl RedisFailed" using recordSpend_run(3) [OF rec] rr by auto
      show "n_redis E IncrBy \<and> n_redis E Expire \<longrightarrow> (\<exists>h. r = Inr h) \<and> counters t = charged E (cost x) (counters s)"
        using recordSpend_run(5) [OF rec] rr tv by (auto simp: u_def cost_def x_def)
    qed (use tv v assms(2) in \<open>auto simp: x_def u_def simulate_Inr\<close>)
    then show ?thesis by blast
  qed
qed

text \<open>A section either sends exactly the simulated call or leaves everything as it was.\<close>

definition all_or_nothing :: "relay_env \<Rightarrow> relay_config \<Rightarrow> string \<Rightarrow> relay_call \<Rightarrow> relay_state \<Rightarrow>
    (relay_error + string) \<Rightarrow> relay_state \<Rightarrow> bool" where
  "all_or_nothing E C to call s r t \<longleftrightarrow>
     (t = s \<and> (\<exists>e. r = Inl e)) \<or> (\<exists>x. sends E C to call s r t x)"

lemma simulateAndSend_effect:
  assumes "simulateAndSend E C payload req fwd s = (r, t)"
  shows "(t = s \<and> (\<exists>e. r = Inl e)) \<or> (\<exists>call x. forwardCall payload req = Some call \<and> sends E C fwd call s r t x)"
proof (cases "forwardCall payload req")
  case None
  then show ?thesis using assms by (auto simp: simulateAndSend_def throw_def)
next
  case (Some call)
  show ?thesis
  proof (cases "simulate E fwd call")
    case (Inl err)
    then show ?thesis using assms Some by (auto simp: simulateAndSend_def rejectSimulation_def throw_def)
  next
    case (Inr g)
    then show ?thesis
      using assms Some broadcast_cases [of E C fwd call g s r t] by (auto simp: simulateAndSend_def)
  qed
qed

lemma permitSection_effect:
  assumes "permitSection E C token call s = (r, t)"
  shows "all_or_nothing E C token call s r t"
proof (cases "simulate E token call")
  case (Inl err)
  then show ?thesis using assms by (auto simp: permitSection_def throw_def all_or_nothing_def)
next
  case (Inr g)
  then show ?thesis
    using assms broadcast_cases [of E C token call g s r t]
    by (auto simp: permitSection_def all_or_nothing_def)
qed

lemma sendSection_effect:
  assumes "sendSection E C to data s = (r, t)"
  shows "all_or_nothing E C to (RawCall data) s r t"
proof (cases "simulate E to (RawCall data)")
  case (Inl err)
  then show ?thesis using assms by (auto simp: sendSection_def rejectSimulation_def throw_def all_or_nothing_def)
next
  case (Inr g)
  then show ?thesis
    using assms broadcast_cases [of E C to "RawCall data" g s r t]
    by (auto simp: sendSection_def all_or_nothing_def)
qed

section \<open>Admission\<close>

text \<open>A step that writes nothing but the counters.\<close>

definition counters_only :: "relay_state \<Rightarrow> relay_state \<Rightarrow> bool" where
  "counters_only s t \<longleftrightarrow> (\<exists>cs. t = s\<lparr>counters := cs\<rparr>)"

lemma counters_only_refl: "counters_only s s"
  unfolding counters_only_def by (intro exI [of _ "counters s"]) simp

interpretation counter_order: step_order counters_only
  by unfold_locales (auto simp: counters_only_refl, auto simp: counters_only_def)

lemma counters_only_sent: "counters_only s t \<Longrightarrow> sent t = sent s"
  by (auto simp: counters_only_def)

lemma counters_redisp: "steps counters_only (redisp E cmd f)"
  unfolding redisp_def
  by (intro counter_order.steps_intros) (auto simp: counters_only_def)

lemma counters_rate: "steps counters_only (enforceAccountRate E C acc)"
  unfolding enforceAccountRate_def Let_def by (intro counter_order.steps_intros counters_redisp)

lemma counters_cap: "steps counters_only (enforceDailyCap E C)"
  unfolding enforceDailyCap_def by (intro counter_order.steps_intros)

lemma counters_admit: "steps counters_only (admit E C fwd target sels payload)"
  unfolding admit_def by (intro counter_order.steps_intros counters_rate counters_cap)

lemma redis_live_again [simp]: "redis_live now (redis_live now cs) = redis_live now cs"
  by (simp add: redis_live_def)

lemma find_filter_update:
  "(\<And>c. ct_key (f c) = ct_key c) \<Longrightarrow> k \<noteq> k' \<Longrightarrow>
   tfind ct_key k (filter P (tupdate ct_key k' f cs)) = tfind ct_key k (filter P cs)"
  by (induction cs) (auto simp: tupdate_def)

lemma redis_get_other:
  assumes "k \<noteq> k'"
  shows "redis_get now k (redis_incrby now k' n cs) = redis_get now k cs"
    and "redis_get now k (redis_expire now k' ttl cs) = redis_get now k cs"
proof -
  have "tfind ct_key k (redis_live now (tupsert ct_key k' \<lparr>ct_key = k', ct_val = n, ct_exp = None\<rparr>
      (\<lambda>c. c\<lparr>ct_val := ct_val c + n\<rparr>) (redis_live now cs))) = tfind ct_key k (redis_live now cs)"
    using assms redis_live_again
    by (auto simp: tupsert_def redis_live_def find_filter_update tfind_append split: option.splits)
  then show "redis_get now k (redis_incrby now k' n cs) = redis_get now k cs"
    by (simp add: redis_get_def redis_incrby_def)
  show "redis_get now k (redis_expire now k' ttl cs) = redis_get now k cs"
    using assms by (simp add: redis_get_def redis_expire_def redis_live_def find_filter_update)
qed

lemma spend_not_rate [simp]: "spendKey E \<noteq> rateKey acc"
  by (simp add: spendKey_def rateKey_def)

lemma rate_spent:
  assumes "enforceAccountRate E C acc s = (r, t)"
  shows "spentTodayWei E t = spentTodayWei E s"
  using assms unfolding enforceAccountRate_def Let_def seqp_def bindp_def redisp_def whenp_def
  by (auto simp: throw_def modp_def gets_def ret_def spentTodayWei_def redis_get_other
      split: if_splits option.splits)

lemma cap_run:
  "enforceDailyCap E C s = (Inr (), t) \<longleftrightarrow> n_redis E Get \<and> t = s \<and> spentTodayWei E s < rc_dailyCap C"
  by (auto simp: enforceDailyCap_def whenp_def throw_def ret_def gets_def bindp_def)

lemma admit_run:
  assumes "admit E C fwd target sels payload s = (Inr req, t)"
  shows "toContractRequest payload = Some req" "n_verify E fwd req = Some True"
    and "spentTodayWei E s < rc_dailyCap C" "counters_only s t"
    and "\<exists>tg. target = Some tg \<and> shape_ok C tg sels payload req"
    and "spentTodayWei E t = spentTodayWei E s"
proof -
  show "counters_only s t" using counters_admit assms by (rule stepsD)
  obtain q where q: "toContractRequest payload = Some q"
    using assms by (auto simp: admit_def throw_def split: option.splits)
  obtain tg where tg: "target = Some tg" using assms q by (auto simp: admit_def throw_def split: option.splits)
  have ok: "shape_ok C tg sels payload q" using assms q tg by (auto simp: admit_def throw_def split: if_splits)
  have "\<exists>u v. enforceAccountRate E C (cr_from q) s = (Inr (), u) \<and> enforceDailyCap E C u = (Inr (), v) \<and>
      n_verify E fwd q = Some True \<and> req = q \<and> t = v"
    using assms q tg ok by (auto simp: admit_def seqp_Inr throw_def ret_def split: if_splits)
  then obtain u where u: "enforceAccountRate E C (cr_from q) s = (Inr (), u)"
    "spentTodayWei E u < rc_dailyCap C" "n_verify E fwd q = Some True" "req = q" "t = u"
    unfolding cap_run by blast
  then show "toContractRequest payload = Some req" "n_verify E fwd req = Some True"
    "\<exists>tg. target = Some tg \<and> shape_ok C tg sels payload req" using q tg ok by auto
  show "spentTodayWei E s < rc_dailyCap C" "spentTodayWei E t = spentTodayWei E s" using u rate_spent [OF u(1)] by auto
qed

lemma submitAdmit_run:
  assumes "submitAdmit E C payload s = (Inr (req, fwd), t)"
  shows "isEnabled C s" "rc_forwarder C = Some fwd" "admit E C fwd (engine s) (selectors s) payload s = (Inr req, t)"
  using assms
  by (auto simp: submitAdmit_def bindp_Inr gets_def throw_def ret_def split: if_splits option.splits)

lemma submitAdmit_counters: "steps counters_only (submitAdmit E C payload)"
  unfolding submitAdmit_def by (intro counter_order.steps_intros counters_admit)

section \<open>Properties\<close>

text \<open>The gas policy: a limit is the estimate plus a tenth, at most 200,000 more, and never above the
  configured maximum; when it would be, the call is refused instead of being sent to run out of gas. The
  fee is capped by configuration and the tip by the fee, so no caller chooses what is spent.\<close>

theorem gas_policy:
  assumes "0 \<le> estimate"
  shows "fst (gasFor E C estimate s) = Inl (RelayRejected Unavailable None) \<and>
      rc_maxGas C < estimate + min (estimate div 10) 200000 \<or>
    (\<exists>limit fee tip. gasFor E C estimate s = (Inr (limit, fee, tip), s) \<and>
      limit = estimate + min (estimate div 10) 200000 \<and> limit \<le> rc_maxGas C \<and>
      fee \<le> rc_maxFee C \<and> tip \<le> fee \<and>
      (0 \<le> rc_maxFee C \<longrightarrow> limit * fee \<le> rc_maxGas C * rc_maxFee C))"
proof -
  have head: "bigintMin (bigint_div estimate 10) 200000 = min (estimate div 10) 200000"
    using assms by (auto simp: bigintMin_def)
  show ?thesis
  proof (cases "rc_maxGas C < estimate + min (estimate div 10) 200000")
    case True
    then show ?thesis using head by (simp add: gasFor_def Let_def)
  next
    case False
    then obtain limit fee tip where g: "gasFor E C estimate s = (Inr (limit, fee, tip), s)"
      and l: "limit = estimate + min (estimate div 10) 200000"
      using head by (auto simp: gasFor_def Let_def)
    note b = gasFor_Inr [OF g assms]
    have "limit * fee \<le> rc_maxGas C * rc_maxFee C" if "0 \<le> rc_maxFee C"
      using fits_cost [of C "\<lparr>x_to = [], x_call = RawCall [], x_gas = limit, x_fee = fee, x_priority = tip\<rparr>"]
        b that assms by (simp add: fits_def cost_def)
    then show ?thesis using g l b by blast
  qed
qed

definition sample_relay_config :: relay_config where
  "sample_relay_config = \<lparr>rc_enabled = True, rc_privateKey = Some ''0x1'', rc_forwarder = Some ''0xf'',
     rc_resolutionForwarder = None, rc_httpUrl = Some ''http://node'', rc_permit2 = None, rc_lsLmsr = None,
     rc_optimisticResolver = None, rc_maxGas = 2000000, rc_maxFee = 100000000000, rc_accountLimit = 20,
     rc_accountWindow = 60, rc_dailyCap = 300000000000000000, rc_minBalance = 0\<rparr>"

definition sample_relay_env :: relay_env where
  "sample_relay_env = \<lparr>n_now = 1000, n_today = ''2026-01-01'', n_redis = (\<lambda>_. True),
     n_verify = (\<lambda>_ _. Some True), n_call = (\<lambda>_ _. None), n_estimate = (\<lambda>_ _. Inr 1600000),
     n_fees = None, n_send = (\<lambda>_. Some ''0xh''), n_balance = Some 5\<rparr>"

definition sample_relay_state :: relay_state where
  "sample_relay_state = \<lparr>hasRpc = True, hasWallet = True, account = Some ''0xr'', engine = Some ''0xE'',
     permitSpenders = [''0xe''], selectors = [''0x12345678''], resolutionForwarder = None,
     resolutionResolver = None, resolutionSelectors = [], counters = [], sent = [], balanceRead = None\<rparr>"

definition sample_relay_request :: relay_request where
  "sample_relay_request = \<lparr>rq_request = \<lparr>q_from = ''0xa'', q_to = ''0xe'', q_value = dec 0, q_gas = dec 500000,
     q_deadline = 9, q_data = ''0x12345678ff'', q_signature = ''0x''\<rparr>, rq_permit = None\<rparr>"

lemma gas_policy_witness:
  "fst (gasFor sample_relay_env sample_relay_config 1900000 sample_relay_state) = Inl (RelayRejected Unavailable None) \<and>
   (\<exists>limit fee tip. gasFor sample_relay_env sample_relay_config 1600000 sample_relay_state =
      (Inr (limit, fee, tip), sample_relay_state) \<and> limit = 1760000 \<and> limit * fee \<le> 2000000 * 100000000000)"
  using gas_policy [of 1900000 sample_relay_env sample_relay_config sample_relay_state]
    gas_policy [of 1600000 sample_relay_env sample_relay_config sample_relay_state]
  by (auto simp: sample_relay_config_def)

lemma sample_submitted: "\<exists>h t. submit sample_relay_env sample_relay_config sample_relay_request sample_relay_state = (Inr h, t)"
proof -
  define req where "req = \<lparr>cr_from = ''0xa'', cr_to = ''0xe'', cr_value = 0, cr_gas = 500000, cr_deadline = 9,
    cr_data = ''0x12345678ff'', cr_signature = ''0x''\<rparr>"
  define mid where "mid = sample_relay_state\<lparr>counters := [\<lparr>ct_key = rateKey ''0xa'', ct_val = 1, ct_exp = Some 61000\<rparr>]\<rparr>"
  have q: "toContractRequest sample_relay_request = Some req"
    by (simp add: toContractRequest_def sample_relay_request_def req_def bigint_of_string_dec)
  have low: "lower ''0xe'' = ''0xe''" "lower ''0xE'' = ''0xe''" "lower ''0x12345678'' = ''0x12345678''"
    by code_simp+
  have rate: "enforceAccountRate sample_relay_env sample_relay_config ''0xa'' sample_relay_state = (Inr (), mid)"
    by (simp add: enforceAccountRate_def redisp_def sample_relay_env_def sample_relay_config_def sample_relay_state_def
        redis_get_def redis_incrby_def redis_expire_def redis_live_def tupsert_def tupdate_def mid_def)
  have cap: "enforceDailyCap sample_relay_env sample_relay_config mid = (Inr (), mid)"
    unfolding cap_run
    by (simp add: sample_relay_env_def sample_relay_config_def spentTodayWei_def mid_def redis_get_def
        redis_live_def not_sym [OF spend_not_rate] sample_relay_state_def)
  have "shape_ok sample_relay_config ''0xE'' [''0x12345678''] sample_relay_request req"
    using low by (simp add: shape_ok_def req_def sample_relay_config_def sample_relay_request_def)
  then have "admit sample_relay_env sample_relay_config ''0xf'' (Some ''0xE'') [''0x12345678''] sample_relay_request
      sample_relay_state = (Inr req, mid)"
    using q rate cap by (simp add: admit_def req_def sample_relay_env_def)
  then have adm: "submitAdmit sample_relay_env sample_relay_config sample_relay_request sample_relay_state =
      (Inr (req, ''0xf''), mid)"
    by (simp add: submitAdmit_def isEnabled_def sample_relay_state_def sample_relay_config_def)
  have "\<exists>h u. simulateAndSend sample_relay_env sample_relay_config sample_relay_request req ''0xf'' mid = (Inr h, u)"
    by (simp add: simulateAndSend_def forwardCall_def sample_relay_request_def simulate_def broadcast_def gasFor_def
        bigintMin_def sendTransaction_def recordSpend_def redisp_def sample_relay_env_def sample_relay_config_def)
  then show ?thesis using adm by (simp add: submit_def)
qed

text \<open>C6. A relayed trade is checked before it is paid for: \<open>submit\<close> broadcasts at most one transaction, and only when
  the relay is enabled, the signed request targets the engine, carries no value, asks for no more gas than allowed,
  names a permitted selector, bundles no stranger's permit, the day's spend is below the cap, the forwarder verified it
  and the simulation passed. The transaction goes to the configured forwarder and carries exactly that request. Its gas
  limit is the relay's own, the simulation's estimate and a tenth of it, at most 200000, and within the ceiling; its fee
  is the node's or the configured ceiling, whichever is less, and its tip is capped by that fee. The caller gets its
  hash, or, when one of the two commands that charge it in Redis fails afterwards, the Redis error although it was
  sent. In every other case the caller gets an error and nothing was sent.\<close>

theorem relayed_trade_is_checked:
  assumes "submit E C payload s = (r, t)"
  shows "(sent t = sent s \<and> (\<exists>e. r = Inl e)) \<or>
    (\<exists>req fwd tgt tx g h. sent t = sent s @ [tx] \<and>
       isEnabled C s \<and> toContractRequest payload = Some req \<and> rc_forwarder C = Some fwd \<and> engine s = Some tgt \<and>
       lower (cr_to req) = lower tgt \<and> cr_value req = 0 \<and> cr_gas req \<le> rc_maxGas C \<and>
       lower (take 10 (cr_data req)) \<in> set (selectors s) \<and>
       (\<forall>p. rq_permit payload = Some p \<longrightarrow> lower (p_owner p) = lower (cr_from req)) \<and>
       spentTodayWei E s < rc_dailyCap C \<and> n_verify E fwd req = Some True \<and>
       n_call E fwd (x_call tx) = None \<and> x_to tx = fwd \<and> forwardCall payload req = Some (x_call tx) \<and>
       n_estimate E fwd (x_call tx) = Inr g \<and> x_gas tx = g + bigintMin (bigint_div g 10) 200000 \<and> x_gas tx \<le> rc_maxGas C \<and>
       x_fee tx = bigintMin (case n_fees E of Some (Some f, _) \<Rightarrow> f | _ \<Rightarrow> rc_maxFee C) (rc_maxFee C) \<and>
       x_fee tx \<le> rc_maxFee C \<and>
       x_priority tx = bigintMin (case n_fees E of Some (_, Some p) \<Rightarrow> p | _ \<Rightarrow> 1000000000) (x_fee tx) \<and>
       n_send E tx = Some h \<and> r = (if n_redis E IncrBy \<and> n_redis E Expire then Inr h else Inl RedisFailed))"
proof (cases "submitAdmit E C payload s")
  case (Pair q u)
  have only: "counters_only s u" using submitAdmit_counters Pair by (rule stepsD)
  show ?thesis
  proof (cases q)
    case (Inl e)
    then have "r = Inl e" "t = u" using assms(1) Pair by (auto simp: submit_def)
    then show ?thesis using counters_only_sent [OF only] by blast
  next
    case (Inr p)
    obtain req fwd where p: "p = (req, fwd)" by (cases p)
    then have adm: "submitAdmit E C payload s = (Inr (req, fwd), u)" using Pair Inr by simp
    note en = submitAdmit_run [OF adm]
    note run = admit_run [OF en(3)]
    have "simulateAndSend E C payload req fwd u = (r, t)" using assms(1) adm by (simp add: submit_def)
    then consider "t = u \<and> (\<exists>e. r = Inl e)"
      | (sends) call x where "forwardCall payload req = Some call" "sends E C fwd call u r t x"
      using simulateAndSend_effect by blast
    then show ?thesis
    proof cases
      case 1
      then show ?thesis using counters_only_sent [OF only] by blast
    next
      case sends
      obtain g h where price: "n_estimate E fwd call = Inr g" "priced E C g x"
        and r: "n_send E x = Some h" "r = (if n_redis E IncrBy \<and> n_redis E Expire then Inr h else Inl RedisFailed)"
        using sends(2) unfolding sends_def by blast
      have sx: "sent t = sent u @ [x]" "x_call x = call" "x_to x = fwd" "n_call E fwd call = None"
        using sends(2) unfolding sends_def by blast+
      obtain tgt where tgt: "engine s = Some tgt" "shape_ok C tgt (selectors s) payload req" using run(5) by blast
      have shape: "lower (cr_to req) = lower tgt" "cr_value req = 0" "cr_gas req \<le> rc_maxGas C"
        "lower (take 10 (cr_data req)) \<in> set (selectors s)"
        "\<forall>p. rq_permit payload = Some p \<longrightarrow> lower (p_owner p) = lower (cr_from req)"
        using tgt(2) by (auto simp: shape_ok_def)
      have "sent t = sent s @ [x]" using sx(1) counters_only_sent [OF only] by simp
      moreover have "x_fee x \<le> rc_maxFee C" using price(2) bigintMin_bounds by (simp add: priced_def)
      moreover note price(2) [unfolded priced_def]
      ultimately show ?thesis
        using en(1,2) run(1-3) tgt(1) shape sx(2-4) sends(1) price(1) r by blast
    qed
  qed
qed

lemma relayed_trade_is_checked_witness:
  "\<exists>r t tx. submit sample_relay_env sample_relay_config sample_relay_request sample_relay_state = (r, t) \<and>
     (sent t = [tx] \<and> x_to tx = ''0xf'' \<and> x_gas tx = 1760000 \<and> x_fee tx = 100000000000)"
proof -
  obtain h t where run: "submit sample_relay_env sample_relay_config sample_relay_request sample_relay_state = (Inr h, t)"
    using sample_submitted by blast
  let ?E = sample_relay_env and ?C = sample_relay_config
  have env: "n_estimate ?E to call = Inr g \<longleftrightarrow> g = 1600000" "n_fees ?E = None" "rc_maxFee ?C = 100000000000"
    "rc_forwarder ?C = Some fwd \<longleftrightarrow> fwd = ''0xf''" "sent sample_relay_state = []" for to call g fwd
    by (auto simp: sample_relay_env_def sample_relay_config_def sample_relay_state_def)
  have "\<exists>fwd tx g. sent t = sent sample_relay_state @ [tx] \<and> rc_forwarder ?C = Some fwd \<and> x_to tx = fwd \<and>
      n_estimate ?E fwd (x_call tx) = Inr g \<and> x_gas tx = g + bigintMin (bigint_div g 10) 200000 \<and>
      x_fee tx = bigintMin (case n_fees ?E of Some (Some f, _) \<Rightarrow> f | _ \<Rightarrow> rc_maxFee ?C) (rc_maxFee ?C)"
    using relayed_trade_is_checked [OF run] by blast
  then have "\<exists>tx. sent t = [tx] \<and> x_to tx = ''0xf'' \<and> x_gas tx = 1760000 \<and> x_fee tx = 100000000000"
    unfolding env by (auto simp: bigintMin_def)
  then show ?thesis using run by blast
qed

lemma submitPermitAdmit_run:
  assumes "submitPermitAdmit E C p s = (Inr call, t)"
  shows "isEnabled C s" "lower (p_spender p) \<in> set (permitSpenders s)" "spentTodayWei E s < rc_dailyCap C"
    and "counters_only s t"
    and "\<exists>v d. bigint_of_string (p_value p) = Some v \<and> bigint_of_string (p_deadline p) = Some d \<and>
      call = PermitCall (p_owner p) (p_spender p) v d (p_v p) (p_r p) (p_s p)"
proof -
  show en: "isEnabled C s" and sp: "lower (p_spender p) \<in> set (permitSpenders s)"
    using assms by (auto simp: submitPermitAdmit_def bindp_Inr gets_def throw_def split: if_splits)
  have "\<exists>u w. enforceAccountRate E C (p_owner p) s = (Inr (), u) \<and> enforceDailyCap E C u = (Inr (), w) \<and> t = w \<and>
      (\<exists>v d. bigint_of_string (p_value p) = Some v \<and> bigint_of_string (p_deadline p) = Some d \<and>
        call = PermitCall (p_owner p) (p_spender p) v d (p_v p) (p_r p) (p_s p))"
    using assms en sp
    by (auto simp: submitPermitAdmit_def bindp_Inr seqp_Inr gets_def throw_def ret_def split: if_splits option.splits)
  then obtain u where u: "enforceAccountRate E C (p_owner p) s = (Inr (), u)" "spentTodayWei E u < rc_dailyCap C" "t = u"
    and v: "\<exists>v d. bigint_of_string (p_value p) = Some v \<and> bigint_of_string (p_deadline p) = Some d \<and>
        call = PermitCall (p_owner p) (p_spender p) v d (p_v p) (p_r p) (p_s p)"
    unfolding cap_run by blast
  show "spentTodayWei E s < rc_dailyCap C" using u rate_spent [OF u(1)] by simp
  show "counters_only s t" using stepsD [OF counters_rate u(1)] u(3) by simp
  show "\<exists>v d. bigint_of_string (p_value p) = Some v \<and> bigint_of_string (p_deadline p) = Some d \<and>
      call = PermitCall (p_owner p) (p_spender p) v d (p_v p) (p_r p) (p_s p)" by (rule v)
qed

lemma submitPermitAdmit_counters: "steps counters_only (submitPermitAdmit E C p)"
  unfolding submitPermitAdmit_def
  by (intro counter_order.steps_intros counters_rate counters_cap)
    (auto split: option.split intro!: counter_order.steps_intros)

text \<open>A standalone permit is bounded but not targeted: \<open>submitPermit\<close> sends at most one transaction, an
  approval of the signed amount to a spender frozen at boot, below the daily cap and within the gas policy;
  but the contract it calls is the one the request names. Admission does not look at the token, although
  the request's documentation says it is checked against the relayer's configuration.\<close>

theorem permit_calls_whatever_is_named:
  assumes "submitPermit E C p s = (r, t)" "\<And>to call g. n_estimate E to call = Inr g \<Longrightarrow> 0 \<le> g"
  shows "((sent t = sent s \<and> (\<exists>e. r = Inl e)) \<or>
    (\<exists>tx v d. sent t = sent s @ [tx] \<and> isEnabled C s \<and> spentTodayWei E s < rc_dailyCap C \<and>
       lower (p_spender p) \<in> set (permitSpenders s) \<and> bigint_of_string (p_value p) = Some v \<and>
       x_call tx = PermitCall (p_owner p) (p_spender p) v d (p_v p) (p_r p) (p_s p) \<and>
       x_gas tx \<le> rc_maxGas C \<and> x_fee tx \<le> rc_maxFee C \<and> x_to tx = p_token p)) \<and>
    (\<forall>anywhere. submitPermitAdmit E C (p\<lparr>p_token := anywhere\<rparr>) s = submitPermitAdmit E C p s)"
proof
  show "\<forall>anywhere. submitPermitAdmit E C (p\<lparr>p_token := anywhere\<rparr>) s = submitPermitAdmit E C p s"
    by (cases p) (simp add: submitPermitAdmit_def cong: option.case_cong)
next
  obtain q u where a: "submitPermitAdmit E C p s = (q, u)" by fastforce
  have only: "counters_only s u" using submitPermitAdmit_counters a by (rule stepsD)
  show "(sent t = sent s \<and> (\<exists>e. r = Inl e)) \<or>
    (\<exists>tx v d. sent t = sent s @ [tx] \<and> isEnabled C s \<and> spentTodayWei E s < rc_dailyCap C \<and>
       lower (p_spender p) \<in> set (permitSpenders s) \<and> bigint_of_string (p_value p) = Some v \<and>
       x_call tx = PermitCall (p_owner p) (p_spender p) v d (p_v p) (p_r p) (p_s p) \<and>
       x_gas tx \<le> rc_maxGas C \<and> x_fee tx \<le> rc_maxFee C \<and> x_to tx = p_token p)"
  proof (cases q)
    case (Inl e)
    then have "r = Inl e" "t = u" using assms(1) a by (auto simp: submitPermit_def)
    then show ?thesis using counters_only_sent [OF only] by blast
  next
    case (Inr call)
    have adm: "submitPermitAdmit E C p s = (Inr call, u)" using a Inr by simp
    note run = submitPermitAdmit_run [OF adm]
    have "permitSection E C (p_token p) call u = (r, t)" using assms(1) adm by (simp add: submitPermit_def)
    then consider "t = u \<and> (\<exists>e. r = Inl e)" | (sends) x where "sends E C (p_token p) call u r t x"
      using permitSection_effect unfolding all_or_nothing_def by blast
    then show ?thesis
    proof cases
      case 1
      then show ?thesis using counters_only_sent [OF only] by blast
    next
      case sends
      have "fits C x" and x: "sent t = sent s @ [x]" "x_call x = call" "x_to x = p_token p"
        using sends assms(2) counters_only_sent [OF only] unfolding sends_def by auto
      then have "x_gas x \<le> rc_maxGas C" "x_fee x \<le> rc_maxFee C" by (auto simp: fits_def)
      then show ?thesis using run(1,2,3,5) x by blast
    qed
  qed
qed

definition sample_permit :: permit_request where
  "sample_permit = \<lparr>p_owner = ''0xa'', p_value = dec 0, p_deadline = dec 9, p_v = 27, p_r = ''0x'', p_s = ''0x'',
     p_token = ''0xanything'', p_spender = ''0xe''\<rparr>"

lemma permit_calls_whatever_is_named_witness:
  "\<exists>r t tx. submitPermit sample_relay_env sample_relay_config sample_permit sample_relay_state = (r, t) \<and>
     sent t = [tx] \<and> x_to tx = ''0xanything''"
proof -
  obtain r t where run: "submitPermit sample_relay_env sample_relay_config sample_permit sample_relay_state = (r, t)"
    by fastforce
  define mid where "mid = sample_relay_state\<lparr>counters := [\<lparr>ct_key = rateKey ''0xa'', ct_val = 1, ct_exp = Some 61000\<rparr>]\<rparr>"
  have low: "lower ''0xe'' = ''0xe''" by code_simp
  have rate: "enforceAccountRate sample_relay_env sample_relay_config ''0xa'' sample_relay_state = (Inr (), mid)"
    by (simp add: enforceAccountRate_def redisp_def sample_relay_env_def sample_relay_config_def sample_relay_state_def
        redis_get_def redis_incrby_def redis_expire_def redis_live_def tupsert_def tupdate_def mid_def)
  have cap: "enforceDailyCap sample_relay_env sample_relay_config mid = (Inr (), mid)"
    unfolding cap_run
    by (simp add: sample_relay_env_def sample_relay_config_def spentTodayWei_def mid_def redis_get_def
        redis_live_def not_sym [OF spend_not_rate] sample_relay_state_def)
  have "submitPermitAdmit sample_relay_env sample_relay_config sample_permit sample_relay_state =
      (Inr (PermitCall ''0xa'' ''0xe'' 0 9 27 ''0x'' ''0x''), mid)"
    using low rate cap
    by (simp add: submitPermitAdmit_def sample_permit_def isEnabled_def bigint_of_string_dec)
      (simp add: sample_relay_state_def sample_relay_config_def)
  then have "\<exists>h. r = Inr h"
    using run by (auto simp: submitPermit_def permitSection_def simulate_def broadcast_def gasFor_def
        bigintMin_def sendTransaction_def recordSpend_def redisp_def sample_relay_env_def sample_relay_config_def)
  then show ?thesis
    using permit_calls_whatever_is_named [OF run] run
    by (fastforce simp: sample_relay_env_def sample_relay_config_def sample_relay_state_def sample_permit_def)
qed

end
