(* ===== verification/PoolService.thy ===== *)
theory PoolService
  imports PoolMirror RelayProps
begin

text \<open>
  The pool's service, \<open>src/src/pool/pool.service.ts\<close>: the state view, the checks of a withdrawal and of a
  shielded return, the publication of an association root, and the section a withdrawal runs under the lock.
  The database is the mirror's, the relay the relay's state; viem's encodings are the parameter
  \<open>pool_codec\<close>, the node's answers the environment. \<open>PoolLock\<close> treats the interleaving of the sections.
\<close>

datatype pool_kind = PoolUnavailable | PoolInvalid | PoolStale | PoolRefused

datatype pool_error = PoolRejected pool_kind | RelayFailed relay_error | ReadFailed | BadNumber

record pool_service_config =
  ps_entrypoint :: "string option"
  ps_privacyPool :: "string option"
  ps_asset :: "string option"
  ps_chainId :: int

record pool_env =
  pe_chainReady :: bool
  pe_now :: int
  pe_scope :: "int option"
  pe_currentRoot :: "int option"
  pe_latestRoot :: "int option"
  pe_publish :: relay_env  \<comment> \<open>around the publication\<close>
  pe_relay :: relay_env  \<comment> \<open>around the relayed call\<close>
  pe_wait :: "string \<Rightarrow> receipt"

record pool_proof =
  pf_pA :: "string list"
  pf_pB :: "string list list"
  pf_pC :: "string list"
  pf_signals :: "string list"

record withdraw_dto =
  wd_processooor :: string
  wd_data :: string
  wd_proof :: pool_proof

record shield_dto =
  sh_owner :: string
  sh_value :: string
  sh_precommitment :: string
  sh_deadline :: string
  sh_signature :: string
  sh_permit :: "(string \<times> int \<times> string \<times> string) option"

record big_proof =
  bp_pA :: "int \<times> int"
  bp_pB :: "(int \<times> int) \<times> (int \<times> int)"
  bp_pC :: "int \<times> int"
  bp_signals :: "int list"

record pool_codec =
  enc_updateRoot :: "int \<Rightarrow> string"
  enc_relay :: "string \<Rightarrow> string \<Rightarrow> big_proof \<Rightarrow> string"
  enc_depositFor :: "string \<Rightarrow> int \<Rightarrow> int \<Rightarrow> int \<Rightarrow> string \<Rightarrow> string"
  enc_depositWithPermit :: "string \<Rightarrow> int \<Rightarrow> int \<Rightarrow> int \<Rightarrow> string \<Rightarrow> int \<Rightarrow> int \<Rightarrow> string \<Rightarrow> string \<Rightarrow> string"

definition poolEnabled :: "pool_service_config \<Rightarrow> pool_env \<Rightarrow> bool" where
  "poolEnabled P E \<longleftrightarrow> ps_entrypoint P \<noteq> None \<and> ps_privacyPool P \<noteq> None \<and> pe_chainReady E"

section \<open>Reads\<close>

record leaf_view =
  lv_index :: nat
  lv_kind :: leaf_kind
  lv_commitment :: string
  lv_label :: "string option"
  lv_value :: string
  lv_precommitment :: "string option"
  lv_spent :: "string option"

record pool_view =
  pv_enabled :: bool
  pv_chainId :: int
  pv_entrypoint :: string
  pv_privacyPool :: string
  pv_asset :: string
  pv_scope :: string
  pv_stateRoot :: string
  pv_onChainAspRoot :: string
  pv_aspRoot :: string
  pv_synced :: bool
  pv_leaves :: "leaf_view list"

definition leafView :: "nat \<Rightarrow> pool_leaf \<Rightarrow> leaf_view" where
  "leafView i l = \<lparr>lv_index = i, lv_kind = l_kind l, lv_commitment = l_commitment l, lv_label = l_label l,
     lv_value = l_value l, lv_precommitment = l_precommitment l, lv_spent = l_spent l\<rparr>"

text \<open>\<open>cachedScope\<close>: the first successful read is kept.\<close>

definition readScope :: "pool_env \<Rightarrow> int option \<Rightarrow> int option" where
  "readScope E cached = (case cached of None \<Rightarrow> pe_scope E | Some x \<Rightarrow> Some x)"

definition poolState ::
  "(int list \<Rightarrow> int) \<Rightarrow> pool_service_config \<Rightarrow> pool_env \<Rightarrow> int option \<Rightarrow> pool_state \<Rightarrow> pool_error + pool_view" where
  "poolState rootOf P E cached s =
     (if \<not> poolEnabled P E
      then Inr \<lparr>pv_enabled = False, pv_chainId = ps_chainId P, pv_entrypoint = [], pv_privacyPool = [], pv_asset = [],
                pv_scope = ''0'', pv_stateRoot = ''0'', pv_onChainAspRoot = ''0'', pv_aspRoot = ''0'',
                pv_synced = False, pv_leaves = []\<rparr>
      else (let rows = leavesInOrder s in
        case (readScope E cached, pe_currentRoot E, pe_latestRoot E) of
          (Some scope, Some stateRoot, Some onChain) \<Rightarrow>
            (case buildAspTree (map leafRow rows) of
               None \<Rightarrow> Inl BadNumber
             | Some labels \<Rightarrow> Inr
                 \<lparr>pv_enabled = True, pv_chainId = ps_chainId P,
                  pv_entrypoint = (case ps_entrypoint P of None \<Rightarrow> [] | Some x \<Rightarrow> x),
                  pv_privacyPool = (case ps_privacyPool P of None \<Rightarrow> [] | Some x \<Rightarrow> x),
                  pv_asset = (case ps_asset P of None \<Rightarrow> [] | Some x \<Rightarrow> x),
                  pv_scope = dec scope, pv_stateRoot = dec stateRoot, pv_onChainAspRoot = dec onChain,
                  pv_aspRoot = (if labels = [] then ''0'' else dec (rootOf labels)),
                  pv_synced = caughtUp s, pv_leaves = map (\<lambda>(i, l). leafView i l) (enumerate 0 rows)\<rparr>)
        | _ \<Rightarrow> Inl ReadFailed))"

section \<open>Withdrawals\<close>

fun bigints :: "string list \<Rightarrow> int list option" where
  "bigints [] = Some []"
| "bigints (x # xs) = (case (bigint_of_string x, bigints xs) of (Some i, Some is) \<Rightarrow> Some (i # is) | _ \<Rightarrow> None)"

definition bigint_pair :: "string list \<Rightarrow> (int \<times> int) option" where
  "bigint_pair xs = (case xs of x # y # _ \<Rightarrow> (case (bigint_of_string x, bigint_of_string y) of
     (Some i, Some j) \<Rightarrow> Some (i, j) | _ \<Rightarrow> None) | _ \<Rightarrow> None)"

definition bigProof :: "pool_proof \<Rightarrow> int list \<Rightarrow> big_proof option" where
  "bigProof p signals = (case pf_pB p of
     b0 # b1 # _ \<Rightarrow> (case (bigint_pair (pf_pA p), bigint_pair b0, bigint_pair b1, bigint_pair (pf_pC p)) of
        (Some a, Some x, Some y, Some c) \<Rightarrow> Some \<lparr>bp_pA = a, bp_pB = (x, y), bp_pC = c, bp_signals = signals\<rparr>
      | _ \<Rightarrow> None)
   | _ \<Rightarrow> None)"

definition PUB_SIGNAL_aspRoot :: nat where
  "PUB_SIGNAL_aspRoot = 5"

text \<open>Everything before the lock is taken: the root the proof names, and the proof as numbers.\<close>

definition withdrawChecks ::
  "(int list \<Rightarrow> int) \<Rightarrow> pool_service_config \<Rightarrow> pool_env \<Rightarrow> withdraw_dto \<Rightarrow> pool_state \<Rightarrow> pool_error + (string \<times> int \<times> big_proof)" where
  "withdrawChecks rootOf P E dto s = (case ps_entrypoint P of
     None \<Rightarrow> Inl (PoolRejected PoolUnavailable)
   | Some entrypoint \<Rightarrow>
      if \<not> poolEnabled P E then Inl (PoolRejected PoolUnavailable)
      else if \<not> caughtUp s then Inl (PoolRejected PoolStale)
      else if lower (wd_processooor dto) \<noteq> lower entrypoint then Inl (PoolRejected PoolInvalid)
      else (case bigints (pf_signals (wd_proof dto)) of
          None \<Rightarrow> Inl BadNumber
        | Some signals \<Rightarrow> (case aspRootHistory rootOf (map leafRow (leavesInOrder s)) 32 of
            None \<Rightarrow> Inl BadNumber
          | Some known \<Rightarrow>
              if \<not> (PUB_SIGNAL_aspRoot < length signals \<and> signals ! PUB_SIGNAL_aspRoot \<in> set known)
              then Inl (PoolRejected PoolStale)
              else (case bigProof (wd_proof dto) signals of
                  None \<Rightarrow> Inl BadNumber
                | Some proof \<Rightarrow> Inr (entrypoint, signals ! PUB_SIGNAL_aspRoot, proof)))))"

text \<open>A call of the relay from the pool: its rejection is renamed or passed on.\<close>

definition relayp :: "(relay_error \<Rightarrow> pool_error) \<Rightarrow> 'a relay \<Rightarrow> (relay_state, pool_error, 'a) proc" where
  "relayp f m = (\<lambda>s. case m s of (Inl e, t) \<Rightarrow> (Inl (f e), t) | (Inr a, t) \<Rightarrow> (Inr a, t))"

definition publishAspRoot ::
  "pool_codec \<Rightarrow> relay_config \<Rightarrow> pool_env \<Rightarrow> string \<Rightarrow> int \<Rightarrow> (relay_state, pool_error, unit) proc" where
  "publishAspRoot X C E entrypoint r = (case pe_latestRoot E of
     None \<Rightarrow> throw ReadFailed
   | Some current \<Rightarrow>
      if current = r then ret ()
      else bindp (relayp RelayFailed (sendFromRelayer (pe_publish E) C entrypoint (enc_updateRoot X r)))
        (\<lambda>hash. bindp (gets (\<lambda>s. receiptFor (pe_wait E) s hash))
          (\<lambda>rc. whenp (rc \<noteq> Success) (throw (PoolRejected PoolStale)))))"

text \<open>What \<open>withdraw\<close> hands to \<open>exclusively\<close>.\<close>

definition withdrawSection ::
  "pool_codec \<Rightarrow> relay_config \<Rightarrow> pool_env \<Rightarrow> string \<Rightarrow> string \<Rightarrow> int \<Rightarrow> big_proof \<Rightarrow> (relay_state, pool_error, string) proc" where
  "withdrawSection X C E entrypoint data r proof =
     seqp (publishAspRoot X C E entrypoint r)
       (relayp (\<lambda>_. PoolRejected PoolRefused)
         (sendFromRelayer (pe_relay E) C entrypoint (enc_relay X entrypoint data proof)))"

definition withdraw ::
  "(int list \<Rightarrow> int) \<Rightarrow> pool_codec \<Rightarrow> pool_service_config \<Rightarrow> relay_config \<Rightarrow> pool_env \<Rightarrow> withdraw_dto \<Rightarrow> pool_state \<Rightarrow>
   (relay_state, pool_error, string) proc" where
  "withdraw rootOf X P C E dto s = (case withdrawChecks rootOf P E dto s of
     Inl e \<Rightarrow> throw e
   | Inr (entrypoint, r, proof) \<Rightarrow> withdrawSection X C E entrypoint (wd_data dto) r proof)"

section \<open>Shielded returns\<close>

definition shieldData :: "pool_codec \<Rightarrow> int \<Rightarrow> shield_dto \<Rightarrow> pool_error + string" where
  "shieldData X now dto =
     (case (bigint_of_string (sh_value dto), bigint_of_string (sh_precommitment dto), bigint_of_string (sh_deadline dto)) of
        (Some value, Some pre, Some deadline) \<Rightarrow>
          if value = 0 then Inl (PoolRejected PoolInvalid)
          else if deadline * 1000 < now then Inl (PoolRejected PoolInvalid)
          else (case sh_permit dto of
              None \<Rightarrow> Inr (enc_depositFor X (sh_owner dto) value pre deadline (sh_signature dto))
            | Some (pd, v, r, ss) \<Rightarrow> (case bigint_of_string pd of
                None \<Rightarrow> Inl BadNumber
              | Some d \<Rightarrow> Inr (enc_depositWithPermit X (sh_owner dto) value pre deadline (sh_signature dto) d v r ss)))
      | _ \<Rightarrow> Inl BadNumber)"

definition shield ::
  "pool_codec \<Rightarrow> pool_service_config \<Rightarrow> relay_config \<Rightarrow> pool_env \<Rightarrow> shield_dto \<Rightarrow> (relay_state, pool_error, string) proc" where
  "shield X P C E dto = (case ps_entrypoint P of
     None \<Rightarrow> throw (PoolRejected PoolUnavailable)
   | Some entrypoint \<Rightarrow>
      if \<not> poolEnabled P E then throw (PoolRejected PoolUnavailable)
      else (case shieldData X (pe_now E) dto of
          Inl e \<Rightarrow> throw e
        | Inr data \<Rightarrow> relayp (\<lambda>_. PoolRejected PoolRefused) (sendFromRelayer (pe_relay E) C entrypoint data)))"

section \<open>What the pool sends\<close>

lemma sendFromRelayer_sent:
  assumes "sendFromRelayer E C to data s = (r, t)"
  shows "(sent t = sent s \<and> (\<exists>e. r = Inl e)) \<or>
    (\<exists>x. sent t = sent s @ [x] \<and> x_to x = to \<and> x_call x = RawCall data)"
proof (cases "sendAdmit E C s")
  case (Pair q u)
  have us: "u = s"
    using Pair by (auto simp: sendAdmit_def enforceDailyCap_def bindp_def gets_def throw_def ret_def whenp_def split: if_splits)
  show ?thesis
  proof (cases q)
    case (Inl e)
    then show ?thesis using assms Pair us by (auto simp: sendFromRelayer_def)
  next
    case (Inr z)
    then have "sendSection E C to data s = (r, t)" using assms Pair us by (simp add: sendFromRelayer_def)
    from sendSection_effect [OF this] show ?thesis by (auto simp: all_or_nothing_def sends_def)
  qed
qed

lemma relayp_cases: "relayp f m s = (r, t) \<longleftrightarrow>
  (\<exists>q. m s = (q, t) \<and> r = (case q of Inl e \<Rightarrow> Inl (f e) | Inr a \<Rightarrow> Inr a))"
  by (auto simp: relayp_def split: prod.splits sum.splits)

definition only_sends :: "string \<Rightarrow> string set \<Rightarrow> relay_state \<Rightarrow> relay_state \<Rightarrow> bool" where
  "only_sends to data s t \<longleftrightarrow> (\<exists>xs. sent t = sent s @ xs \<and> (\<forall>x \<in> set xs. x_to x = to \<and> (\<exists>d \<in> data. x_call x = RawCall d)))"

interpretation send_order: step_order "only_sends to data" for to data
  by unfold_locales (auto simp: only_sends_def)

lemma only_sends_relay: "d \<in> data \<Longrightarrow> steps (only_sends to data) (relayp f (sendFromRelayer E C to d))"
  by (rule stepsI) (auto simp: relayp_cases only_sends_def dest!: sendFromRelayer_sent)

lemma only_sends_publish: "enc_updateRoot X r \<in> data \<Longrightarrow> steps (only_sends to data) (publishAspRoot X C E to r)"
  unfolding publishAspRoot_def by (intro send_order.steps_intros only_sends_relay)

end
