(* ===== verification/PoolServiceProps.thy ===== *)
theory PoolServiceProps
  imports PoolService PoolProps
begin

text \<open>
  What a withdrawal and a shielded return send: the root a proof may name, the two calls of a withdrawal
  and their order, and the single call of a return.
\<close>

section \<open>The checks before the lock\<close>

lemma withdrawChecks_run:
  assumes "withdrawChecks rootOf P E dto s = Inr (entry, r, pf)"
  shows "ps_entrypoint P = Some entry" "poolEnabled P E" "caughtUp s" "lower (wd_processooor dto) = lower entry"
    and "\<exists>known. aspRootHistory rootOf (map leafRow (leavesInOrder s)) 32 = Some known \<and> r \<in> set known"
    and "\<exists>signals. bigints (pf_signals (wd_proof dto)) = Some signals \<and> r = signals ! PUB_SIGNAL_aspRoot"
  using assms by (auto simp: withdrawChecks_def split: option.splits if_splits)

lemma root_of_prefix:
  assumes "aspRootHistory rootOf leaves 32 = Some known" "r \<in> set known" "buildAspTree leaves = Some labels"
  shows "\<exists>n. r = rootOf (take n labels)"
proof -
  have "known = slice_last 32 (map (\<lambda>n. rootOf (take (Suc n) labels)) [0..<length labels])"
    using assms(1,3) by (simp add: aspRootHistory_def asp_roots_prefixes)
  then show ?thesis using assms(2) set_slice_last [of 32] by fastforce
qed

section \<open>The section\<close>

lemma relayp_sent:
  assumes "relayp f (sendFromRelayer E C to data) s = (q, t)"
  shows "(sent t = sent s \<and> (\<exists>e. q = Inl e)) \<or> (\<exists>x. sent t = sent s @ [x] \<and> x_to x = to \<and> x_call x = RawCall data)"
  using assms by (auto simp: relayp_cases dest!: sendFromRelayer_sent)

text \<open>A publication that succeeds found the root in place, or sent it and saw it mined.\<close>

definition in_force :: "pool_codec \<Rightarrow> pool_env \<Rightarrow> string \<Rightarrow> int \<Rightarrow> relay_tx list \<Rightarrow> bool" where
  "in_force X E entry r xs \<longleftrightarrow> pe_latestRoot E = Some r \<and> xs = [] \<or>
     (\<exists>x hash. pe_latestRoot E \<noteq> Some r \<and> xs = [x] \<and> x_to x = entry \<and> x_call x = RawCall (enc_updateRoot X r) \<and>
       pe_wait E hash = Success)"

lemma publish_run:
  assumes "publishAspRoot X C E entry r s = (Inr (), t)"
  shows "\<exists>xs. sent t = sent s @ xs \<and> in_force X E entry r xs"
proof -
  obtain current where cur: "pe_latestRoot E = Some current"
    using assms by (auto simp: publishAspRoot_def split: option.splits)
  show ?thesis
  proof (cases "current = r")
    case True
    then show ?thesis using assms cur by (auto simp: publishAspRoot_def in_force_def)
  next
    case False
    then obtain hash u where send: "relayp RelayFailed (sendFromRelayer (pe_publish E) C entry (enc_updateRoot X r)) s = (Inr hash, u)"
      and rest: "bindp (gets (\<lambda>s. receiptFor (pe_wait E) s hash)) (\<lambda>rc. whenp (rc \<noteq> Success) (throw (PoolRejected PoolStale))) u = (Inr (), t)"
      using assms cur by (auto simp: publishAspRoot_def bindp_Inr)
    have ok: "t = u" "receiptFor (pe_wait E) u hash = Success"
      using rest by (auto simp: whenp_def split: if_splits)
    have "pe_wait E hash = Success" using ok(2) by (auto simp: receiptFor_def split: if_splits)
    moreover obtain x where "sent u = sent s @ [x]" "x_to x = entry" "x_call x = RawCall (enc_updateRoot X r)"
      using relayp_sent [OF send] by auto
    ultimately show ?thesis using ok(1) cur False by (auto simp: in_force_def)
  qed
qed

section \<open>Properties\<close>

text \<open>C8. A withdrawal is relayed under a root we computed: \<open>withdraw\<close> sends nothing unless the mirror is
  complete and the proof names an association root of some prefix of the deposit labels we indexed. All it
  sends goes to the entrypoint, first the publication of that root and then the proof, and the proof only
  when the root was already in force or its publication was seen to succeed.\<close>

theorem withdrawal_follows_its_root:
  assumes "withdraw rootOf X P C E dto s w = (q, v)"
  shows "(sent v = sent w \<and> (\<exists>e. q = Inl e)) \<or>
    (\<exists>entry r pf xs. ps_entrypoint P = Some entry \<and> caughtUp s \<and> lower (wd_processooor dto) = lower entry \<and>
       (\<exists>signals. bigints (pf_signals (wd_proof dto)) = Some signals \<and> r = signals ! PUB_SIGNAL_aspRoot) \<and>
       (\<forall>labels. buildAspTree (map leafRow (leavesInOrder s)) = Some labels \<longrightarrow> (\<exists>n. r = rootOf (take n labels))) \<and>
       sent v = sent w @ xs \<and>
       (\<forall>x \<in> set xs. x_to x = entry \<and> (x_call x = RawCall (enc_updateRoot X r) \<or>
          x_call x = RawCall (enc_relay X entry (wd_data dto) pf))) \<and>
       (\<forall>hash. q = Inr hash \<longrightarrow> (\<exists>ys x. xs = ys @ [x] \<and> x_call x = RawCall (enc_relay X entry (wd_data dto) pf) \<and>
          in_force X E entry r ys)))"
proof (cases "withdrawChecks rootOf P E dto s")
  case (Inl e)
  then show ?thesis using assms by (auto simp: withdraw_def)
next
  case (Inr p)
  obtain entry r pf where p: "p = (entry, r, pf)" by (cases p) auto
  let ?data = "enc_relay X entry (wd_data dto) pf"
  have chk: "withdrawChecks rootOf P E dto s = Inr (entry, r, pf)" using Inr p by simp
  note ok = withdrawChecks_run [OF chk]
  have root: "\<forall>labels. buildAspTree (map leafRow (leavesInOrder s)) = Some labels \<longrightarrow> (\<exists>n. r = rootOf (take n labels))"
    using ok(5) root_of_prefix by blast
  have sec: "withdrawSection X C E entry (wd_data dto) r pf w = (q, v)"
    using assms chk by (simp add: withdraw_def)
  have all: "steps (only_sends entry {enc_updateRoot X r, ?data}) (withdrawSection X C E entry (wd_data dto) r pf)"
    unfolding withdrawSection_def by (intro send_order.steps_seqp only_sends_publish only_sends_relay) simp_all
  have "only_sends entry {enc_updateRoot X r, ?data} w v" using all sec by (rule stepsD)
  then obtain xs where xs: "sent v = sent w @ xs"
    "\<forall>x \<in> set xs. x_to x = entry \<and> (x_call x = RawCall (enc_updateRoot X r) \<or> x_call x = RawCall ?data)"
    unfolding only_sends_def by blast
  have "\<exists>ys x. xs = ys @ [x] \<and> x_call x = RawCall ?data \<and> in_force X E entry r ys" if q: "q = Inr hash" for hash
  proof -
    obtain u where pub: "publishAspRoot X C E entry r w = (Inr (), u)"
      and rel: "relayp (\<lambda>_. PoolRejected PoolRefused) (sendFromRelayer (pe_relay E) C entry ?data) u = (Inr hash, v)"
      using sec q by (auto simp: withdrawSection_def seqp_Inr)
    obtain ys where "sent u = sent w @ ys" "in_force X E entry r ys" using publish_run [OF pub] by blast
    moreover obtain x where "sent v = sent u @ [x]" "x_call x = RawCall ?data" using relayp_sent [OF rel] by auto
    ultimately show ?thesis using xs(1) by auto
  qed
  then have last: "\<forall>hash. q = Inr hash \<longrightarrow> (\<exists>ys x. xs = ys @ [x] \<and> x_call x = RawCall ?data \<and> in_force X E entry r ys)" by blast
  show ?thesis
    by (rule disjI2, rule exI [of _ entry], rule exI [of _ r], rule exI [of _ pf], rule exI [of _ xs])
      (rule conjI ok(1) ok(3) ok(4) ok(6) root xs last)+
qed

definition sample_pool_codec :: pool_codec where
  "sample_pool_codec = \<lparr>enc_updateRoot = (\<lambda>r. ''update''), enc_relay = (\<lambda>_ _ _. ''relay''),
     enc_depositFor = (\<lambda>_ _ _ _ _. ''deposit''), enc_depositWithPermit = (\<lambda>_ _ _ _ _ _ _ _ _. ''permit'')\<rparr>"

definition sample_pool_service :: pool_service_config where
  "sample_pool_service = \<lparr>ps_entrypoint = Some ''0xe'', ps_privacyPool = Some ''0xb'', ps_asset = None, ps_chainId = 1\<rparr>"

definition sample_pool_env :: pool_env where
  "sample_pool_env = \<lparr>pe_chainReady = True, pe_now = 0, pe_scope = Some 1, pe_currentRoot = Some 1, pe_latestRoot = Some 0,
     pe_publish = sample_relay_env, pe_relay = sample_relay_env, pe_wait = (\<lambda>_. Success)\<rparr>"

definition sample_deposit_leaf :: pool_leaf where
  "sample_deposit_leaf = \<lparr>l_block = 1, l_logIndex = 0, l_tx = ''t'', l_kind = DEPOSIT, l_commitment = dec 1,
     l_label = Some (dec 7), l_value = dec 5, l_precommitment = None, l_spent = None\<rparr>"

definition sample_mirror :: pool_state where
  "sample_mirror = empty_pool\<lparr>poolLeaves := [sample_deposit_leaf], caughtUp := True\<rparr>"

definition sample_withdrawal :: withdraw_dto where
  "sample_withdrawal = \<lparr>wd_processooor = ''0xe'', wd_data = ''0x'', wd_proof = \<lparr>pf_pA = [dec 1, dec 1],
     pf_pB = [[dec 1, dec 1], [dec 1, dec 1]], pf_pC = [dec 1, dec 1],
     pf_signals = [dec 1, dec 1, dec 1, dec 1, dec 1, dec 7, dec 1, dec 1]\<rparr>\<rparr>"

lemma sample_withdrawal_runs:
  "\<exists>v. withdraw sum_list sample_pool_codec sample_pool_service sample_relay_config sample_pool_env sample_withdrawal
     sample_mirror sample_relay_state = (Inr ''0xh'', v)"
proof -
  have low: "lower ''0xe'' = ''0xe''" by code_simp
  have "leavesInOrder sample_mirror = [sample_deposit_leaf]" "caughtUp sample_mirror"
    by (simp_all add: leavesInOrder_def sample_mirror_def)
  then have chk: "withdrawChecks sum_list sample_pool_service sample_pool_env sample_withdrawal sample_mirror =
      Inr (''0xe'', 7, \<lparr>bp_pA = (1, 1), bp_pB = ((1, 1), (1, 1)), bp_pC = (1, 1), bp_signals = [1, 1, 1, 1, 1, 7, 1, 1]\<rparr>)"
    by (simp add: withdrawChecks_def sample_pool_service_def poolEnabled_def sample_pool_env_def sample_withdrawal_def low
        aspRootHistory_def slice_last_def sample_deposit_leaf_def leafRow_def PUB_SIGNAL_aspRoot_def bigProof_def bigint_pair_def)
  define tx where "tx = (\<lambda>data. \<lparr>x_to = ''0xe'', x_call = RawCall data, x_gas = 1760000, x_fee = 100000000000,
    x_priority = 1000000000\<rparr>)"
  define st where "st = sample_relay_state\<lparr>counters := [\<lparr>ct_key = spendKey sample_relay_env, ct_val = 176000000,
    ct_exp = Some 172801000\<rparr>], sent := [tx ''update'']\<rparr>"
  note defs = sendFromRelayer_def sendAdmit_def sendSection_def simulate_def broadcast_def gasFor_def bigintMin_def
    sendTransaction_def recordSpend_def redisp_def enforceDailyCap_def spentTodayWei_def isEnabled_def redis_get_def
    redis_incrby_def redis_expire_def redis_live_def tupsert_def tupdate_def GWEI_def js_number_def
    sample_relay_env_def sample_relay_config_def sample_relay_state_def
  have "sendFromRelayer sample_relay_env sample_relay_config ''0xe'' ''update'' sample_relay_state = (Inr ''0xh'', st)"
    by (simp add: defs st_def tx_def)
  moreover have "\<exists>v. sendFromRelayer sample_relay_env sample_relay_config ''0xe'' ''relay'' st = (Inr ''0xh'', v)"
    by (simp add: defs st_def tx_def)
  moreover have "hasRpc st" by (simp add: st_def sample_relay_state_def)
  ultimately show ?thesis
    using chk by (auto simp: withdraw_def withdrawSection_def publishAspRoot_def relayp_def sample_pool_env_def
        sample_pool_codec_def receiptFor_def sample_withdrawal_def)
qed

lemma withdrawal_follows_its_root_witness:
  "\<exists>v ys x. withdraw sum_list sample_pool_codec sample_pool_service sample_relay_config sample_pool_env sample_withdrawal
       sample_mirror sample_relay_state = (Inr ''0xh'', v) \<and>
     sent v = ys @ [x] \<and> x_to x = ''0xe'' \<and> in_force sample_pool_codec sample_pool_env ''0xe'' 7 ys"
proof -
  obtain v where run: "withdraw sum_list sample_pool_codec sample_pool_service sample_relay_config sample_pool_env
      sample_withdrawal sample_mirror sample_relay_state = (Inr ''0xh'', v)" using sample_withdrawal_runs by blast
  have "sent sample_relay_state = []" "ps_entrypoint sample_pool_service = Some ''0xe''"
    by (simp_all add: sample_relay_state_def sample_pool_service_def)
  moreover have "bigints (pf_signals (wd_proof sample_withdrawal)) = Some [1, 1, 1, 1, 1, 7, 1, 1]"
    by (simp add: sample_withdrawal_def)
  ultimately obtain ys x where "sent v = ys @ [x]" "x_to x = ''0xe''" "in_force sample_pool_codec sample_pool_env ''0xe'' 7 ys"
    using withdrawal_follows_its_root [OF run] by (auto simp: PUB_SIGNAL_aspRoot_def)
  then show ?thesis using run by blast
qed

end
