(* ===== verification/RelayCap.thy ===== *)
theory RelayCap
  imports RelayProps
begin

text \<open>
  The daily cap under concurrency. A request passes its checks, the cap among them, when it arrives; the forwarder's
  verdict on it comes later, then its turn in the queue, and what it cost is charged after it was sent, by two further
  commands. The step relation has one step for each, and the steps of any number of requests interleave. Within one
  UTC day the recorded spend and the transaction not yet recorded are an exact ledger, and the cap bounds the spend up
  to the requests that were past it and not yet charged.
\<close>

section \<open>A request in steps\<close>

datatype relay_job = ForwardJob relay_request contract_request string | PermitJob string relay_call | SendJob string string

datatype relay_ask = AskTrade relay_request | AskResolution relay_request | AskPermit permit_request | AskSend string string

text \<open>A request past its first checks, with what the later ones need.\<close>

datatype relay_ticket =
    ForwardTicket relay_request contract_request string
  | PermitTicket permit_request
  | SendTicket string string

definition admission :: "relay_env \<Rightarrow> relay_config \<Rightarrow> relay_ask \<Rightarrow> relay_job relay" where
  "admission E C ask = (case ask of
     AskTrade p \<Rightarrow> bindp (submitAdmit E C p) (\<lambda>(req, fwd). ret (ForwardJob p req fwd))
   | AskResolution p \<Rightarrow> bindp (submitResolutionAdmit E C p) (\<lambda>(req, fwd). ret (ForwardJob p req fwd))
   | AskPermit p \<Rightarrow> bindp (submitPermitAdmit E C p) (\<lambda>call. ret (PermitJob (p_token p) call))
   | AskSend to data \<Rightarrow> seqp (sendAdmit E C) (ret (SendJob to data)))"

text \<open>From the arrival to the rate of the account.\<close>

definition forwardRated ::
  "relay_env \<Rightarrow> relay_config \<Rightarrow> string \<Rightarrow> string option \<Rightarrow> string list \<Rightarrow> relay_request \<Rightarrow> relay_ticket relay" where
  "forwardRated E C forwarder target sels payload = (case toContractRequest payload of
     None \<Rightarrow> throw SyntaxFailed
   | Some request \<Rightarrow> (case target of
        None \<Rightarrow> throw TypeFailed
      | Some t \<Rightarrow>
          if \<not> shape_ok C t sels payload request then throw (RelayRejected Invalid None)
          else seqp (enforceAccountRate E C (cr_from request)) (ret (ForwardTicket payload request forwarder))))"

definition rated :: "relay_env \<Rightarrow> relay_config \<Rightarrow> relay_ask \<Rightarrow> relay_ticket relay" where
  "rated E C ask = bindp (gets id) (\<lambda>s.
     if \<not> isEnabled C s then throw (RelayRejected Unavailable None)
     else (case ask of
         AskTrade p \<Rightarrow> (case rc_forwarder C of None \<Rightarrow> throw TypeFailed
           | Some fwd \<Rightarrow> forwardRated E C fwd (engine s) (selectors s) p)
       | AskResolution p \<Rightarrow> (case resolutionForwarder s of None \<Rightarrow> throw (RelayRejected Unavailable None)
           | Some fwd \<Rightarrow> forwardRated E C fwd (resolutionResolver s) (resolutionSelectors s) p)
       | AskPermit p \<Rightarrow>
           if lower (p_spender p) \<notin> set (permitSpenders s) then throw (RelayRejected Invalid None)
           else seqp (enforceAccountRate E C (p_owner p)) (ret (PermitTicket p))
       | AskSend to data \<Rightarrow> ret (SendTicket to data)))"

text \<open>From the cap to the queue.\<close>

definition queueable :: "relay_env \<Rightarrow> relay_ticket \<Rightarrow> relay_job relay" where
  "queueable E ticket = (case ticket of
     ForwardTicket p req fwd \<Rightarrow>
       if n_verify E fwd req = Some True then ret (ForwardJob p req fwd) else throw (RelayRejected Invalid None)
   | PermitTicket p \<Rightarrow> (case (bigint_of_string (p_value p), bigint_of_string (p_deadline p)) of
        (Some v, Some d) \<Rightarrow> ret (PermitJob (p_token p) (PermitCall (p_owner p) (p_spender p) v d (p_v p) (p_r p) (p_s p)))
      | _ \<Rightarrow> throw SyntaxFailed)
   | SendTicket to data \<Rightarrow> ret (SendJob to data))"

definition runJob :: "relay_env \<Rightarrow> relay_config \<Rightarrow> relay_job \<Rightarrow> string relay" where
  "runJob E C job = (case job of
     ForwardJob p req fwd \<Rightarrow> simulateAndSend E C p req fwd
   | PermitJob token call \<Rightarrow> permitSection E C token call
   | SendJob to data \<Rightarrow> sendSection E C to data)"

text \<open>A turn up to the transaction: its hash and what it is to be charged.\<close>

definition priceAndSend :: "relay_env \<Rightarrow> relay_config \<Rightarrow> string \<Rightarrow> relay_call \<Rightarrow> int \<Rightarrow> (string \<times> int) relay" where
  "priceAndSend E C to call gas =
     bindp (gasFor E C gas) (\<lambda>(limit, fee, tip).
       bindp (sendTransaction E \<lparr>x_to = to, x_call = call, x_gas = limit, x_fee = fee, x_priority = tip\<rparr>)
         (\<lambda>hash. ret (hash, limit * fee)))"

definition jobSend :: "relay_env \<Rightarrow> relay_config \<Rightarrow> relay_job \<Rightarrow> (string \<times> int) relay" where
  "jobSend E C job = (case job of
     ForwardJob p req fwd \<Rightarrow> (case forwardCall p req of
         None \<Rightarrow> throw SyntaxFailed
       | Some call \<Rightarrow> (case simulate E fwd call of
            Inl err \<Rightarrow> rejectSimulation err | Inr gas \<Rightarrow> priceAndSend E C fwd call gas))
   | PermitJob token call \<Rightarrow> (case simulate E token call of
         Inl err \<Rightarrow> throw (RelayRejected Rejected None) | Inr gas \<Rightarrow> priceAndSend E C token call gas)
   | SendJob to data \<Rightarrow> (case simulate E to (RawCall data) of
         Inl err \<Rightarrow> rejectSimulation err | Inr gas \<Rightarrow> priceAndSend E C to (RawCall data) gas))"

text \<open>The two commands of \<open>recordSpend\<close>.\<close>

definition chargeSpend :: "relay_env \<Rightarrow> int \<Rightarrow> unit relay" where
  "chargeSpend E wei = redisp E IncrBy (redis_incrby (n_now E) (spendKey E) (js_number (bigint_div wei GWEI)))"

definition stampSpend :: "relay_env \<Rightarrow> unit relay" where
  "stampSpend E = redisp E Expire (redis_expire (n_now E) (spendKey E) 172800)"

text \<open>The endpoints are the steps in one go.\<close>

lemma endpoints_are_halves:
  "submit E C p = bindp (admission E C (AskTrade p)) (runJob E C)"
  "submitResolution E C p = bindp (admission E C (AskResolution p)) (runJob E C)"
  "submitPermit E C q = bindp (admission E C (AskPermit q)) (runJob E C)"
  "sendFromRelayer E C to data = bindp (admission E C (AskSend to data)) (runJob E C)"
  by (rule ext, auto simp: submit_def submitResolution_def submitPermit_def sendFromRelayer_def admission_def
      runJob_def bindp_def seqp_def ret_def split: prod.splits sum.splits)+

lemma admit_in_steps:
  "bindp (admit E C fwd target sels p) (\<lambda>req. ret (ForwardJob p req fwd)) =
   bindp (forwardRated E C fwd target sels p) (\<lambda>k. seqp (enforceDailyCap E C) (queueable E k))"
  by (rule ext) (auto simp: admit_def forwardRated_def queueable_def bindp_def seqp_def ret_def throw_def
      split: option.splits prod.splits sum.splits)

lemma admission_in_steps:
  "admission E C ask = bindp (rated E C ask) (\<lambda>k. seqp (enforceDailyCap E C) (queueable E k))"
proof (rule ext)
  fix s
  show "admission E C ask s = bindp (rated E C ask) (\<lambda>k. seqp (enforceDailyCap E C) (queueable E k)) s"
  proof (cases ask)
    case (AskTrade p)
    have "bindp (submitAdmit E C p) (\<lambda>(req, fwd). ret (ForwardJob p req fwd)) s =
        (if \<not> isEnabled C s then (Inl (RelayRejected Unavailable None), s)
         else (case rc_forwarder C of None \<Rightarrow> (Inl TypeFailed, s)
           | Some fwd \<Rightarrow> bindp (admit E C fwd (engine s) (selectors s) p) (\<lambda>req. ret (ForwardJob p req fwd)) s))"
      by (auto simp: submitAdmit_def bindp_def gets_def ret_def throw_def split: option.splits prod.splits sum.splits)
    then show ?thesis using AskTrade unfolding admit_in_steps
      by (auto simp: admission_def rated_def bindp_def gets_def throw_def split: option.splits)
  next
    case (AskResolution p)
    have "bindp (submitResolutionAdmit E C p) (\<lambda>(req, fwd). ret (ForwardJob p req fwd)) s =
        (if \<not> isEnabled C s then (Inl (RelayRejected Unavailable None), s)
         else (case resolutionForwarder s of None \<Rightarrow> (Inl (RelayRejected Unavailable None), s)
           | Some fwd \<Rightarrow> bindp (admit E C fwd (resolutionResolver s) (resolutionSelectors s) p)
               (\<lambda>req. ret (ForwardJob p req fwd)) s))"
      by (auto simp: submitResolutionAdmit_def bindp_def gets_def ret_def throw_def split: option.splits prod.splits sum.splits)
    then show ?thesis using AskResolution unfolding admit_in_steps
      by (auto simp: admission_def rated_def bindp_def gets_def throw_def split: option.splits)
  next
    case (AskPermit p)
    then show ?thesis
      by (auto simp: admission_def submitPermitAdmit_def rated_def queueable_def bindp_def seqp_def gets_def ret_def throw_def
          split: option.splits prod.splits sum.splits)
  next
    case (AskSend to data)
    then show ?thesis
      by (auto simp: admission_def sendAdmit_def rated_def queueable_def bindp_def seqp_def gets_def ret_def throw_def
          split: prod.splits sum.splits)
  qed
qed

lemma broadcast_in_steps:
  "broadcast E C to call g = bindp (priceAndSend E C to call g) (\<lambda>(hash, wei). seqp (recordSpend E wei) (ret hash))"
  by (rule ext) (auto simp: broadcast_def priceAndSend_def bindp_def ret_def split: prod.splits sum.splits)

lemma runJob_in_steps:
  "runJob E C job = bindp (jobSend E C job) (\<lambda>(hash, wei). seqp (seqp (chargeSpend E wei) (stampSpend E)) (ret hash))"
  by (rule ext, cases job)
    (auto simp: runJob_def jobSend_def simulateAndSend_def permitSection_def sendSection_def broadcast_in_steps
      recordSpend_def chargeSpend_def stampSpend_def rejectSimulation_def throw_def split: option.splits sum.splits)

section \<open>A day of requests\<close>

text \<open>The environment of a step during the day: the date is \<open>D\<close>, the clock is within the day that starts at \<open>d0\<close>,
  Redis answers the writes, and the node's estimates and fees are not negative.\<close>

definition in_day :: "string \<Rightarrow> int \<Rightarrow> relay_env \<Rightarrow> bool" where
  "in_day D d0 E \<longleftrightarrow> n_today E = D \<and> d0 \<le> n_now E \<and> n_now E < d0 + 86400000 \<and>
     n_redis E IncrBy \<and> n_redis E Expire \<and>
     (\<forall>to call g. n_estimate E to call = Inr g \<longrightarrow> 0 \<le> g) \<and>
     fair_fees E"

text \<open>The turn at the head of the queue: none, one whose transaction is sent and not yet charged, one whose counter is
  not yet given its lifetime.\<close>

datatype relay_turn = NoTurn | ToCharge int | ToStamp

text \<open>The requests that passed the rate and not yet the cap, those that passed the cap and are not yet queued, the
  queue, the turn, the service's own state, and the most requests there have been past their cap check and not yet
  charged.\<close>

record relay_floor =
  fl_rated :: "relay_ticket list"
  fl_passed :: "relay_ticket list"
  fl_queue :: "relay_job list"
  fl_turn :: relay_turn
  fl_relay :: relay_state
  fl_peak :: nat

definition outstanding :: "relay_floor \<Rightarrow> nat" where
  "outstanding f = length (fl_passed f) + length (fl_queue f) + (case fl_turn f of ToCharge _ \<Rightarrow> 1 | _ \<Rightarrow> 0)"

definition passes_cap :: "relay_ticket \<Rightarrow> relay_state \<Rightarrow> relay_floor \<Rightarrow> relay_floor" where
  "passes_cap k t f = f\<lparr>fl_rated := remove1 k (fl_rated f), fl_passed := k # fl_passed f, fl_relay := t,
     fl_peak := max (fl_peak f) (Suc (outstanding f))\<rparr>"

inductive relay_day :: "relay_config \<Rightarrow> string \<Rightarrow> int \<Rightarrow> relay_state \<Rightarrow> relay_floor \<Rightarrow> bool"
  for C D d0 s0 where
  dawn: "relay_day C D d0 s0
    \<lparr>fl_rated = [], fl_passed = [], fl_queue = [], fl_turn = NoTurn, fl_relay = s0, fl_peak = 0\<rparr>"
| arrives: "relay_day C D d0 s0 f \<Longrightarrow> in_day D d0 E \<Longrightarrow> rated E C ask (fl_relay f) = (Inr k, t) \<Longrightarrow>
    relay_day C D d0 s0 (f\<lparr>fl_rated := k # fl_rated f, fl_relay := t\<rparr>)"
| turned_away: "relay_day C D d0 s0 f \<Longrightarrow> in_day D d0 E \<Longrightarrow> rated E C ask (fl_relay f) = (Inl e, t) \<Longrightarrow>
    relay_day C D d0 s0 (f\<lparr>fl_relay := t\<rparr>)"
| passes: "relay_day C D d0 s0 f \<Longrightarrow> in_day D d0 E \<Longrightarrow> k \<in> set (fl_rated f) \<Longrightarrow>
    enforceDailyCap E C (fl_relay f) = (Inr (), t) \<Longrightarrow> relay_day C D d0 s0 (passes_cap k t f)"
| capped: "relay_day C D d0 s0 f \<Longrightarrow> in_day D d0 E \<Longrightarrow> k \<in> set (fl_rated f) \<Longrightarrow>
    enforceDailyCap E C (fl_relay f) = (Inl e, t) \<Longrightarrow>
    relay_day C D d0 s0 (f\<lparr>fl_rated := remove1 k (fl_rated f), fl_relay := t\<rparr>)"
| queued: "relay_day C D d0 s0 f \<Longrightarrow> in_day D d0 E \<Longrightarrow> k \<in> set (fl_passed f) \<Longrightarrow>
    queueable E k (fl_relay f) = (Inr job, t) \<Longrightarrow>
    relay_day C D d0 s0 (f\<lparr>fl_passed := remove1 k (fl_passed f), fl_queue := fl_queue f @ [job], fl_relay := t\<rparr>)"
| unverified: "relay_day C D d0 s0 f \<Longrightarrow> in_day D d0 E \<Longrightarrow> k \<in> set (fl_passed f) \<Longrightarrow>
    queueable E k (fl_relay f) = (Inl e, t) \<Longrightarrow>
    relay_day C D d0 s0 (f\<lparr>fl_passed := remove1 k (fl_passed f), fl_relay := t\<rparr>)"
| sends_job: "relay_day C D d0 s0 f \<Longrightarrow> in_day D d0 E \<Longrightarrow> fl_turn f = NoTurn \<Longrightarrow> fl_queue f = job # jobs \<Longrightarrow>
    jobSend E C job (fl_relay f) = (Inr (hash, wei), t) \<Longrightarrow>
    relay_day C D d0 s0 (f\<lparr>fl_queue := jobs, fl_turn := ToCharge wei, fl_relay := t\<rparr>)"
| drops_job: "relay_day C D d0 s0 f \<Longrightarrow> in_day D d0 E \<Longrightarrow> fl_turn f = NoTurn \<Longrightarrow> fl_queue f = job # jobs \<Longrightarrow>
    jobSend E C job (fl_relay f) = (Inl e, t) \<Longrightarrow>
    relay_day C D d0 s0 (f\<lparr>fl_queue := jobs, fl_relay := t\<rparr>)"
| charges: "relay_day C D d0 s0 f \<Longrightarrow> in_day D d0 E \<Longrightarrow> fl_turn f = ToCharge wei \<Longrightarrow>
    chargeSpend E wei (fl_relay f) = (r, t) \<Longrightarrow> relay_day C D d0 s0 (f\<lparr>fl_turn := ToStamp, fl_relay := t\<rparr>)"
| stamps: "relay_day C D d0 s0 f \<Longrightarrow> in_day D d0 E \<Longrightarrow> fl_turn f = ToStamp \<Longrightarrow>
    stampSpend E (fl_relay f) = (r, t) \<Longrightarrow> relay_day C D d0 s0 (f\<lparr>fl_turn := NoTurn, fl_relay := t\<rparr>)"

section \<open>The counter as a ledger\<close>

definition day_key :: "string \<Rightarrow> string" where
  "day_key D = ''relay:spend:'' @ D"

text \<open>The day's counter reads \<open>g\<close> at every instant of the day.\<close>

definition ledger :: "string \<Rightarrow> int \<Rightarrow> counter list \<Rightarrow> int \<Rightarrow> bool" where
  "ledger D d0 cs g \<longleftrightarrow> (case tfind ct_key (day_key D) cs of
     None \<Rightarrow> g = 0
   | Some c \<Rightarrow> ct_val c = g \<and> (\<forall>t. ct_exp c = Some t \<longrightarrow> d0 + 86400000 \<le> t))"

lemma find_filter_first: "tfind key k cs = Some c \<Longrightarrow> P c \<Longrightarrow> tfind key k (filter P cs) = Some c"
  by (induction cs) (auto split: if_splits)

lemma find_filter_none: "tfind key k cs = None \<Longrightarrow> tfind key k (filter P cs) = None"
  by (induction cs) (auto split: if_splits)

lemma ledger_live:
  assumes "ledger D d0 cs g" "now < d0 + 86400000"
  shows "tfind ct_key (day_key D) (redis_live now cs) = tfind ct_key (day_key D) cs"
proof (cases "tfind ct_key (day_key D) cs")
  case None
  then show ?thesis by (simp add: redis_live_def find_filter_none)
next
  case (Some c)
  then have "case ct_exp c of None \<Rightarrow> True | Some t \<Rightarrow> now < t"
    using assms by (auto simp: ledger_def split: option.splits)
  then show ?thesis
    using Some find_filter_first [of ct_key "day_key D" cs c "\<lambda>c. case ct_exp c of None \<Rightarrow> True | Some t \<Rightarrow> now < t"]
    by (simp add: redis_live_def)
qed

lemma ledger_get:
  assumes "ledger D d0 cs g" "now < d0 + 86400000"
  shows "(case redis_get now (day_key D) cs of None \<Rightarrow> 0 | Some n \<Rightarrow> n) = g"
  using assms by (auto simp: redis_get_def ledger_live ledger_def split: option.splits)

lemma ledger_incr:
  assumes "ledger D d0 cs g" "now < d0 + 86400000"
  shows "ledger D d0 (redis_incrby now k n cs) (if k = day_key D then g + n else g)"
  using assms ledger_live [OF assms]
  by (auto simp: ledger_def redis_incrby_def tfind_tupsert split: option.splits)

lemma ledger_expire:
  assumes "ledger D d0 cs g" "now < d0 + 86400000" "k = day_key D \<longrightarrow> d0 + 86400000 \<le> now + ttl * 1000"
  shows "ledger D d0 (redis_expire now k ttl cs) g"
  using assms ledger_live [OF assms(1,2)]
  by (auto simp: ledger_def redis_expire_def tfind_tupdate split: option.splits)

lemma ledger_charge:
  assumes "ledger D d0 (counters s) g" "in_day D d0 E" "chargeSpend E wei s = (r, t)"
  shows "ledger D d0 (counters t) (g + js_number (bigint_div wei GWEI))" "sent t = sent s"
proof -
  have k: "spendKey E = day_key D" and day: "n_now E < d0 + 86400000"
    using assms(2) by (auto simp: in_day_def spendKey_def day_key_def)
  have t: "t = s\<lparr>counters := redis_incrby (n_now E) (day_key D) (js_number (bigint_div wei GWEI)) (counters s)\<rparr>"
    using assms(2,3) k by (auto simp: chargeSpend_def redisp_cases in_day_def)
  then show "sent t = sent s" by simp
  show "ledger D d0 (counters t) (g + js_number (bigint_div wei GWEI))"
    using ledger_incr [OF assms(1) day, of "day_key D"] t by simp
qed

lemma ledger_stamp:
  assumes "ledger D d0 (counters s) g" "in_day D d0 E" "stampSpend E s = (r, t)"
  shows "ledger D d0 (counters t) g" "sent t = sent s"
proof -
  have day: "d0 \<le> n_now E" "n_now E < d0 + 86400000" using assms(2) by (auto simp: in_day_def)
  have t: "t = s\<lparr>counters := redis_expire (n_now E) (spendKey E) 172800 (counters s)\<rparr>"
    using assms(2,3) by (auto simp: stampSpend_def redisp_cases in_day_def)
  then show "sent t = sent s" by simp
  show "ledger D d0 (counters t) g" using ledger_expire [OF assms(1) day(2)] day(1) t by simp
qed

lemma ledger_spent: "ledger D d0 (counters s) g \<Longrightarrow> in_day D d0 E \<Longrightarrow> spentTodayWei E s = g * GWEI"
  using ledger_get [of D d0 "counters s" g "n_now E"]
  by (auto simp: spentTodayWei_def in_day_def spendKey_def day_key_def)

abbreviation on_ledger :: "string \<Rightarrow> int \<Rightarrow> int \<Rightarrow> relay_state \<Rightarrow> bool" where
  "on_ledger D d0 g s \<equiv> ledger D d0 (counters s) g"

text \<open>Nothing before the turn touches the day's counter or sends.\<close>

lemma keeps_rate: "in_day D d0 E \<Longrightarrow> keeps (on_ledger D d0 g) (enforceAccountRate E C acc)"
  unfolding enforceAccountRate_def Let_def redisp_def
  by (intro keeps_order.steps_intros)
    (auto simp: in_day_def rateKey_def day_key_def intro!: ledger_expire dest: ledger_incr [of _ _ _ _ "n_now E" "rateKey acc" 1])

lemma keeps_rated: "in_day D d0 E \<Longrightarrow> keeps (on_ledger D d0 g) (rated E C ask)"
  unfolding rated_def forwardRated_def
  by (cases ask; simp only: relay_ask.case) (intro keeps_order.steps_intros keeps_rate; simp)+

lemma counters_rated: "steps counters_only (rated E C ask)"
  unfolding rated_def forwardRated_def
  by (cases ask; simp only: relay_ask.case) (intro counter_order.steps_intros counters_rate)+

lemma rated_keeps:
  assumes "rated E C ask s = (r, t)" "in_day D d0 E" "on_ledger D d0 g s"
  shows "on_ledger D d0 g t" "sent t = sent s"
  using stepsD [OF keeps_rated [OF assms(2)] assms(1)] assms(3)
    counters_only_sent [OF stepsD [OF counters_rated assms(1)]] by auto

lemma cap_state: "enforceDailyCap E C s = (r, t) \<Longrightarrow> t = s"
  by (auto simp: enforceDailyCap_def whenp_def throw_def ret_def gets_def bindp_def split: if_splits)

lemma queueable_state: "queueable E k s = (r, t) \<Longrightarrow> t = s"
  by (auto simp: queueable_def throw_def ret_def split: relay_ticket.splits if_splits option.splits)

section \<open>The day's books\<close>

definition price_cap :: "relay_config \<Rightarrow> int" where
  "price_cap C = rc_maxGas C * rc_maxFee C"

text \<open>Prices stay in the range \<open>Number\<close> represents exactly.\<close>

definition sane_prices :: "relay_config \<Rightarrow> bool" where
  "sane_prices C \<longleftrightarrow> 0 \<le> rc_maxFee C \<and> price_cap C \<le> GWEI * 2 ^ 53"

text \<open>What a turn may have to charge.\<close>

definition chargeable :: "relay_config \<Rightarrow> int \<Rightarrow> bool" where
  "chargeable C wei \<longleftrightarrow> 0 \<le> wei \<and> wei \<le> price_cap C"

lemma chargeable_bounds:
  assumes "sane_prices C" "chargeable C wei"
  shows "js_number (bigint_div wei GWEI) = wei div GWEI" "0 \<le> wei div GWEI" "wei div GWEI * GWEI \<le> wei"
    and "wei \<le> wei div GWEI * GWEI + GWEI"
proof -
  have w: "0 \<le> wei" "wei \<le> 2 ^ 53 * GWEI" using assms by (auto simp: chargeable_def sane_prices_def mult.commute)
  have G: "0 < GWEI" by (simp add: GWEI_def)
  have "wei div GWEI \<le> 2 ^ 53" using w G zdiv_mono1 [of wei "2 ^ 53 * GWEI" GWEI] by simp
  moreover show "0 \<le> wei div GWEI" using w G by (simp add: pos_imp_zdiv_nonneg_iff)
  ultimately show "js_number (bigint_div wei GWEI) = wei div GWEI" using w G by simp
  show "wei div GWEI * GWEI \<le> wei" "wei \<le> wei div GWEI * GWEI + GWEI"
    using bigint_div_bounds [OF w(1) G] w G by (simp_all add: algebra_simps)
qed

text \<open>A turn that sends.\<close>

lemma priceAndSend_effect:
  assumes "priceAndSend E C to call g s = (r, t)" "0 \<le> g" "fair_fees E" "sane_prices C"
  shows "case r of Inl e \<Rightarrow> t = s
    | Inr (hash, wei) \<Rightarrow> chargeable C wei \<and> (\<exists>x. t = s\<lparr>sent := sent s @ [x]\<rparr> \<and> cost x = wei)"
proof (cases "fst (gasFor E C g s)")
  case (Inl e)
  then have "gasFor E C g s = (Inl e, s)" by (metis gasFor_state prod.collapse)
  then show ?thesis using assms(1) by (auto simp: priceAndSend_def)
next
  case (Inr p)
  obtain limit fee tip where "p = (limit, fee, tip)" by (cases p) auto
  then have gas: "gasFor E C g s = (Inr (limit, fee, tip), s)" using Inr by (metis gasFor_state prod.collapse)
  have max: "0 \<le> rc_maxFee C" using assms(4) by (simp add: sane_prices_def)
  note b = gasFor_Inr [OF gas assms(2)]
  define x where "x = \<lparr>x_to = to, x_call = call, x_gas = limit, x_fee = fee, x_priority = tip\<rparr>"
  have "fits C x" using b(1,2,5,6) assms(2) by (simp add: fits_def x_def)
  then have "cost x \<le> price_cap C" using fits_cost max by (simp add: price_cap_def)
  moreover have "0 \<le> cost x" using b(1) b(8) [OF assms(3) max] assms(2) by (simp add: cost_def x_def)
  ultimately have "chargeable C (limit * fee)" "cost x = limit * fee" by (simp_all add: chargeable_def cost_def x_def)
  then show ?thesis using assms(1) gas
    by (auto simp: priceAndSend_def sendTransaction_def throw_def x_def split: option.splits)
qed

lemma jobSend_effect:
  assumes "jobSend E C job s = (r, t)" "in_day D d0 E" "sane_prices C"
  shows "case r of Inl e \<Rightarrow> t = s
    | Inr (hash, wei) \<Rightarrow> chargeable C wei \<and> (\<exists>x. t = s\<lparr>sent := sent s @ [x]\<rparr> \<and> cost x = wei)"
proof -
  have day: "\<And>to call g. simulate E to call = Inr g \<Longrightarrow> 0 \<le> g" "fair_fees E"
    using assms(2) by (auto simp: in_day_def simulate_Inr)
  have "(t = s \<and> (\<exists>e. r = Inl e)) \<or> (\<exists>to call g. simulate E to call = Inr g \<and> priceAndSend E C to call g s = (r, t))"
    using assms(1) by (auto simp: jobSend_def rejectSimulation_def throw_def split: relay_job.splits option.splits sum.splits)
  then show ?thesis using priceAndSend_effect [OF _ day(1) day(2) assms(3)] by auto
qed

definition gwei :: "relay_tx \<Rightarrow> int" where
  "gwei x = cost x div GWEI"

text \<open>What the turn in progress has sent and not charged, in gwei.\<close>

definition due :: "relay_floor \<Rightarrow> int" where
  "due f = (case fl_turn f of ToCharge wei \<Rightarrow> wei div GWEI | _ \<Rightarrow> 0)"

definition booked :: "relay_config \<Rightarrow> string \<Rightarrow> int \<Rightarrow> relay_floor \<Rightarrow> bool" where
  "booked C D d0 f \<longleftrightarrow> on_ledger D d0 (sum_list (map gwei (sent (fl_relay f))) - due f) (fl_relay f) \<and>
     (\<forall>x \<in> set (sent (fl_relay f)). chargeable C (cost x)) \<and>
     (\<forall>wei. fl_turn f = ToCharge wei \<longrightarrow> chargeable C wei)"

text \<open>The recorded spend, with every request past its check and not yet charged priced at the most, stays within the
  cap and the peak.\<close>

definition covered :: "relay_config \<Rightarrow> relay_floor \<Rightarrow> bool" where
  "covered C f \<longleftrightarrow> (sum_list (map gwei (sent (fl_relay f))) - due f) * GWEI + int (outstanding f) * price_cap C
     \<le> rc_dailyCap C + int (fl_peak f) * price_cap C"

lemmas floor_defs = booked_def covered_def outstanding_def due_def

lemma relay_day_invariant:
  assumes "relay_day C D d0 s0 f" "counters s0 = []" "sent s0 = []" "sane_prices C"
    and "0 \<le> rc_dailyCap C" "0 \<le> rc_maxGas C"
  shows "booked C D d0 f \<and> covered C f"
proof -
  have p0: "0 \<le> price_cap C" using assms(4,6) by (simp add: price_cap_def sane_prices_def)
  from assms(1) show ?thesis
  proof (induction rule: relay_day.induct)
    case dawn
    then show ?case using assms(2,3,5) p0 by (simp add: floor_defs ledger_def)
  next
    case (arrives f E ask k t)
    then show ?case using rated_keeps [OF arrives.hyps(3,2)] by (auto simp: floor_defs)
  next
    case (turned_away f E ask e t)
    then show ?case using rated_keeps [OF turned_away.hyps(3,2)] by (auto simp: floor_defs)
  next
    case (passes f E k t)
    then have t: "t = fl_relay f" "spentTodayWei E (fl_relay f) < rc_dailyCap C" by (simp_all add: cap_run)
    let ?g = "sum_list (map gwei (sent (fl_relay f))) - due f"
    have "?g * GWEI < rc_dailyCap C"
      using ledger_spent [OF _ passes.hyps(2), of "fl_relay f" ?g] t(2) passes.IH by (simp add: booked_def)
    moreover have "int (Suc (outstanding f)) * price_cap C \<le> int (max (fl_peak f) (Suc (outstanding f))) * price_cap C"
      using p0 by (intro mult_right_mono) auto
    moreover have "outstanding (passes_cap k t f) = Suc (outstanding f)" by (simp add: passes_cap_def outstanding_def)
    ultimately have "covered C (passes_cap k t f)"
      by (simp add: covered_def passes_cap_def due_def t(1))
    then show ?case using passes.IH t(1) by (simp add: booked_def passes_cap_def due_def)
  next
    case (capped f E k e t)
    then show ?case using cap_state [OF capped.hyps(4)] by (simp add: floor_defs)
  next
    case (queued f E k job t)
    then have "length (fl_passed f) = Suc (length (remove1 k (fl_passed f)))"
      using length_pos_if_in_set [of k "fl_passed f"] by (simp add: length_remove1)
    then show ?case using queued.IH queueable_state [OF queued.hyps(4)] by (simp add: floor_defs)
  next
    case (unverified f E k e t)
    have "int (length (remove1 k (fl_passed f))) * price_cap C \<le> int (length (fl_passed f)) * price_cap C"
      using p0 by (intro mult_right_mono) (auto simp: length_remove1)
    then show ?case using unverified.IH queueable_state [OF unverified.hyps(4)] by (simp add: floor_defs algebra_simps)
  next
    case (sends_job f E job jobs hash wei t)
    obtain x where t: "t = (fl_relay f)\<lparr>sent := sent (fl_relay f) @ [x]\<rparr>" "cost x = wei" "chargeable C wei"
      using jobSend_effect [OF sends_job.hyps(5,2) assms(4)] by auto
    then show ?case using sends_job.IH sends_job.hyps(3,4) by (simp add: floor_defs gwei_def)
  next
    case (drops_job f E job jobs e t)
    have "t = fl_relay f" using jobSend_effect [OF drops_job.hyps(5,2) assms(4)] by simp
    then show ?case using drops_job.IH drops_job.hyps(3,4) p0 by (simp add: floor_defs algebra_simps)
  next
    case (charges f E wei r t)
    let ?g = "sum_list (map gwei (sent (fl_relay f))) - due f"
    have ok: "chargeable C wei" and led: "on_ledger D d0 ?g (fl_relay f)"
      using charges.IH charges.hyps(3) by (simp_all add: booked_def)
    note b = chargeable_bounds [OF assms(4) ok]
    have t: "on_ledger D d0 (?g + wei div GWEI) t" "sent t = sent (fl_relay f)"
      using ledger_charge [OF led charges.hyps(2,4)] unfolding b(1) by simp_all
    have "wei div GWEI * GWEI \<le> price_cap C" using b(3) ok by (simp add: chargeable_def)
    then show ?case using charges.IH charges.hyps(3) t by (simp add: floor_defs algebra_simps)
  next
    case (stamps f E r t)
    have led: "on_ledger D d0 (sum_list (map gwei (sent (fl_relay f)))) (fl_relay f)"
      using stamps.IH stamps.hyps(3) by (simp add: booked_def due_def)
    have "on_ledger D d0 (sum_list (map gwei (sent (fl_relay f)))) t" "sent t = sent (fl_relay f)"
      using ledger_stamp [OF led stamps.hyps(2,4)] by simp_all
    then show ?case using stamps.IH stamps.hyps(3) by (simp add: floor_defs)
  qed
qed

section \<open>Requests admitted together\<close>

text \<open>A node that accepts everything: every simulation estimates \<open>g\<close> and every transaction is taken.\<close>

definition accepting :: "relay_env \<Rightarrow> int \<Rightarrow> bool" where
  "accepting E g \<longleftrightarrow> n_redis E Get \<and> (\<forall>to call. n_call E to call = None \<and> n_estimate E to call = Inr g) \<and>
     (\<forall>x. n_send E x \<noteq> None)"

definition top_price :: "relay_config \<Rightarrow> relay_env \<Rightarrow> int \<Rightarrow> int" where
  "top_price C E g = (g + bigintMin (bigint_div g 10) 200000) * rc_maxFee C"

definition prices_up :: "relay_config \<Rightarrow> relay_env \<Rightarrow> int \<Rightarrow> bool" where
  "prices_up C E g \<longleftrightarrow> n_fees E = None \<and> g + bigintMin (bigint_div g 10) 200000 \<le> rc_maxGas C"

lemma accepted_send:
  assumes "accepting E g" "prices_up C E g"
  shows "\<exists>h x. jobSend E C (SendJob to data) s = (Inr (h, top_price C E g), s\<lparr>sent := sent s @ [x]\<rparr>) \<and>
    cost x = top_price C E g"
proof -
  define x where "x = \<lparr>x_to = to, x_call = RawCall data, x_gas = g + bigintMin (bigint_div g 10) 200000,
    x_fee = rc_maxFee C, x_priority = bigintMin 1000000000 (rc_maxFee C)\<rparr>"
  obtain h where h: "n_send E x = Some h" using assms(1) unfolding accepting_def by blast
  have "jobSend E C (SendJob to data) s = (Inr (h, top_price C E g), s\<lparr>sent := sent s @ [x]\<rparr>)"
    using assms h
    by (simp add: jobSend_def simulate_def accepting_def priceAndSend_def gasFor_def prices_up_def Let_def
        bigintMin_def [of "rc_maxFee C" "rc_maxFee C"] sendTransaction_def x_def top_price_def)
  then show ?thesis by (auto simp: cost_def x_def top_price_def)
qed

definition waiting_floor :: "relay_state \<Rightarrow> nat \<Rightarrow> nat \<Rightarrow> nat \<Rightarrow> nat \<Rightarrow> relay_floor" where
  "waiting_floor s0 a b c peak = \<lparr>fl_rated = replicate a (SendTicket [] []), fl_passed = replicate b (SendTicket [] []),
     fl_queue = replicate c (SendJob [] []), fl_turn = NoTurn, fl_relay = s0, fl_peak = peak\<rparr>"

lemma accepted_arrivals:
  assumes "in_day D d0 E" "isEnabled C s0"
  shows "relay_day C D d0 s0 (waiting_floor s0 n 0 0 0)"
proof (induction n)
  case 0
  show ?case using relay_day.dawn by (simp add: waiting_floor_def)
next
  case (Suc n)
  have "rated E C (AskSend [] []) (fl_relay (waiting_floor s0 n 0 0 0)) = (Inr (SendTicket [] []), s0)"
    using assms(2) by (simp add: rated_def gets_def waiting_floor_def)
  from relay_day.arrives [OF Suc.IH assms(1) this] show ?case by (simp add: waiting_floor_def)
qed

lemma accepted_passes:
  assumes "accepting E g" "in_day D d0 E" "isEnabled C s0" "counters s0 = []" "0 < rc_dailyCap C" "k \<le> n"
  shows "relay_day C D d0 s0 (waiting_floor s0 (n - k) k 0 k)"
  using assms(6)
proof (induction k)
  case 0
  show ?case using accepted_arrivals [OF assms(2,3)] by simp
next
  case (Suc k)
  then have ih: "relay_day C D d0 s0 (waiting_floor s0 (n - k) k 0 k)" and more: "n - k = Suc (n - Suc k)" by auto
  have in_rated: "SendTicket [] [] \<in> set (fl_rated (waiting_floor s0 (n - k) k 0 k))"
    unfolding more by (simp add: waiting_floor_def)
  have "spentTodayWei E s0 = 0" using assms(4) by (simp add: spentTodayWei_def redis_get_def redis_live_def)
  then have "enforceDailyCap E C (fl_relay (waiting_floor s0 (n - k) k 0 k)) = (Inr (), s0)"
    using assms(1,5) by (simp add: cap_run accepting_def waiting_floor_def)
  from relay_day.passes [OF ih assms(2) in_rated this] show ?case
    unfolding more by (simp add: waiting_floor_def passes_cap_def outstanding_def)
qed

lemma accepted_queue:
  assumes "accepting E g" "in_day D d0 E" "isEnabled C s0" "counters s0 = []" "0 < rc_dailyCap C" "k \<le> n"
  shows "relay_day C D d0 s0 (waiting_floor s0 0 (n - k) k n)"
  using assms(6)
proof (induction k)
  case 0
  show ?case using accepted_passes [OF assms(1-5), of n n] by simp
next
  case (Suc k)
  then have ih: "relay_day C D d0 s0 (waiting_floor s0 0 (n - k) k n)" and more: "n - k = Suc (n - Suc k)" by auto
  have in_passed: "SendTicket [] [] \<in> set (fl_passed (waiting_floor s0 0 (n - k) k n))"
    unfolding more by (simp add: waiting_floor_def)
  have "queueable E (SendTicket [] []) (fl_relay (waiting_floor s0 0 (n - k) k n)) = (Inr (SendJob [] []), s0)"
    by (simp add: queueable_def waiting_floor_def)
  from relay_day.queued [OF ih assms(2) in_passed this] show ?case
    unfolding more by (simp add: waiting_floor_def replicate_append_same)
qed

text \<open>A whole turn.\<close>

lemma accepted_turn:
  assumes "accepting E g" "prices_up C E g" "in_day D d0 E" "relay_day C D d0 s0 f" "fl_turn f = NoTurn"
    and "fl_queue f = SendJob to data # jobs"
  shows "\<exists>t x. relay_day C D d0 s0 (f\<lparr>fl_queue := jobs, fl_relay := t\<rparr>) \<and> sent t = sent (fl_relay f) @ [x] \<and>
    cost x = top_price C E g"
proof -
  obtain h x where send: "jobSend E C (SendJob to data) (fl_relay f) =
      (Inr (h, top_price C E g), (fl_relay f)\<lparr>sent := sent (fl_relay f) @ [x]\<rparr>)" "cost x = top_price C E g"
    using accepted_send [OF assms(1,2)] by blast
  let ?t = "(fl_relay f)\<lparr>sent := sent (fl_relay f) @ [x]\<rparr>"
  let ?f1 = "f\<lparr>fl_queue := jobs, fl_turn := ToCharge (top_price C E g), fl_relay := ?t\<rparr>"
  obtain r1 u where u: "chargeSpend E (top_price C E g) ?t = (r1, u)" by fastforce
  obtain r2 v where v: "stampSpend E u = (r2, v)" by fastforce
  have kept: "sent v = sent ?t" using u v by (auto simp: chargeSpend_def stampSpend_def redisp_cases split: if_splits)
  have "relay_day C D d0 s0 ?f1" by (rule relay_day.sends_job [OF assms(4,3,5,6) send(1)])
  from relay_day.charges [OF this assms(3), of "top_price C E g" r1 u] u
  have "relay_day C D d0 s0 (?f1\<lparr>fl_turn := ToStamp, fl_relay := u\<rparr>)" by simp
  from relay_day.stamps [OF this assms(3), of r2 v] v
  have "relay_day C D d0 s0 (f\<lparr>fl_queue := jobs, fl_turn := NoTurn, fl_relay := v\<rparr>)" by simp
  moreover have "f\<lparr>fl_queue := jobs, fl_turn := NoTurn, fl_relay := v\<rparr> = f\<lparr>fl_queue := jobs, fl_relay := v\<rparr>"
    using assms(5) by (cases f) simp
  ultimately have "relay_day C D d0 s0 (f\<lparr>fl_queue := jobs, fl_relay := v\<rparr>)" by simp
  then show ?thesis using kept send(2) by auto
qed

lemma accepted_run:
  assumes "accepting E g" "prices_up C E g" "in_day D d0 E" "isEnabled C s0" "counters s0 = []" "sent s0 = []"
    and "0 < rc_dailyCap C"
  shows "\<exists>s. relay_day C D d0 s0 (waiting_floor s 0 0 0 n) \<and> length (sent s) = n \<and>
    sum_list (map cost (sent s)) = int n * top_price C E g"
proof -
  have "\<exists>s. relay_day C D d0 s0 (waiting_floor s 0 0 (n - j) n) \<and> length (sent s) = j \<and>
      sum_list (map cost (sent s)) = int j * top_price C E g" if "j \<le> n" for j
    using that
  proof (induction j)
    case 0
    then show ?case using accepted_queue [OF assms(1,3,4,5,7), of n n] assms(6) by auto
  next
    case (Suc j)
    then obtain s where s: "relay_day C D d0 s0 (waiting_floor s 0 0 (n - j) n)" "length (sent s) = j"
      "sum_list (map cost (sent s)) = int j * top_price C E g" by auto
    have more: "n - j = Suc (n - Suc j)" using Suc.prems by simp
    obtain t x where t: "relay_day C D d0 s0 (waiting_floor t 0 0 (n - Suc j) n)" "sent t = sent s @ [x]" "cost x = top_price C E g"
      using accepted_turn [OF assms(1-3) s(1), of "[]" "[]" "replicate (n - Suc j) (SendJob [] [])"]
      unfolding more by (auto simp: waiting_floor_def)
    then show ?case using s by (intro exI [of _ t]) (simp add: algebra_simps)
  qed
  from this [of n] show ?thesis by simp
qed

lemma sample_accepts:
  "accepting sample_relay_env 1600000" "prices_up sample_relay_config sample_relay_env 1600000"
  "in_day ''2026-01-01'' 0 sample_relay_env" "isEnabled sample_relay_config sample_relay_state"
  by (simp_all add: accepting_def prices_up_def in_day_def fair_fees_def isEnabled_def sample_relay_env_def
      sample_relay_config_def sample_relay_state_def bigintMin_def)

section \<open>Properties\<close>

text \<open>C7. The daily cap with its real margin. Take one UTC day whose counter is empty at its start, with Redis
  answering its writes, node estimates and fees that are not negative, and a configured price of at most \<open>2 ^ 53\<close> gwei
  for one transaction. However the day's requests interleave, at every moment what the relay has sent in the day
  exceeds the cap by at most one maximally priced transaction for each of the most requests that were, at one moment,
  past their cap check and not yet charged (awaiting the forwarder's verdict, in the queue, or sent), and a gwei of
  rounding for each transaction sent.\<close>

theorem daily_cap_bounds_spend:
  assumes "relay_day C D d0 s0 f" "counters s0 = []" "sent s0 = []" "sane_prices C"
    and "0 \<le> rc_dailyCap C" "0 \<le> rc_maxGas C"
  shows "sum_list (map cost (sent (fl_relay f))) \<le>
    rc_dailyCap C + int (fl_peak f) * (rc_maxGas C * rc_maxFee C) + int (length (sent (fl_relay f))) * GWEI"
proof -
  have inv: "booked C D d0 f" "covered C f" using relay_day_invariant [OF assms] by simp_all
  have round_off: "sum_list (map cost xs) \<le> sum_list (map gwei xs) * GWEI + int (length xs) * GWEI"
    if "\<forall>x \<in> set xs. chargeable C (cost x)" for xs
    using that
  proof (induction xs)
    case (Cons x xs)
    then have "cost x \<le> gwei x * GWEI + GWEI" using chargeable_bounds(4) [OF assms(4)] by (simp add: gwei_def)
    with Cons show ?case by (simp add: algebra_simps)
  qed simp
  have "due f * GWEI \<le> int (outstanding f) * price_cap C"
  proof (cases "fl_turn f")
    case (ToCharge wei)
    then have "wei div GWEI * GWEI \<le> price_cap C"
      using inv(1) chargeable_bounds(3) [OF assms(4), of wei] by (simp add: booked_def chargeable_def)
    moreover have "1 * price_cap C \<le> int (outstanding f) * price_cap C"
      using ToCharge assms(4,6) by (intro mult_right_mono) (auto simp: outstanding_def price_cap_def sane_prices_def)
    ultimately show ?thesis using ToCharge by (simp add: due_def)
  qed (use assms(4,6) in \<open>simp_all add: due_def price_cap_def sane_prices_def\<close>)
  then show ?thesis
    using round_off [of "sent (fl_relay f)"] inv by (simp add: booked_def covered_def price_cap_def algebra_simps)
qed

lemma daily_cap_bounds_spend_witness:
  "\<exists>f. relay_day sample_relay_config ''2026-01-01'' 0 sample_relay_state f \<and> length (sent (fl_relay f)) = 2 \<and> fl_peak f = 2 \<and>
     sum_list (map cost (sent (fl_relay f))) \<le> 300000000000000000 + 2 * (2000000 * 100000000000) + 2 * GWEI"
proof -
  have ok: "counters sample_relay_state = []" "sent sample_relay_state = []" "0 < rc_dailyCap sample_relay_config"
    "sane_prices sample_relay_config" "0 \<le> rc_maxGas sample_relay_config"
    by (simp_all add: sample_relay_state_def sample_relay_config_def sane_prices_def price_cap_def GWEI_def)
  then obtain s where s: "relay_day sample_relay_config ''2026-01-01'' 0 sample_relay_state (waiting_floor s 0 0 0 2)"
    "length (sent s) = 2"
    using accepted_run [OF sample_accepts] by blast
  from daily_cap_bounds_spend [OF s(1) ok(1,2,4)] s show ?thesis
    by (intro exI [of _ "waiting_floor s 0 0 0 2"]) (auto simp: sample_relay_config_def waiting_floor_def)
qed

text \<open>The cap is checked on arrival only, so it is not a ceiling on what concurrent requests spend:
  any number of requests that arrive before the first of them is charged all pass it, however small it is,
  and all of them are sent at full price.\<close>

theorem simultaneous_requests_pass_the_cap:
  assumes "accepting E g" "prices_up C E g" "in_day D d0 E" "isEnabled C s0" "counters s0 = []" "sent s0 = []"
    and "0 < rc_dailyCap C"
  shows "\<exists>f. relay_day C D d0 s0 f \<and> fl_peak f = n \<and> length (sent (fl_relay f)) = n \<and>
    sum_list (map cost (sent (fl_relay f))) = int n * top_price C E g"
proof -
  obtain s where "relay_day C D d0 s0 (waiting_floor s 0 0 0 n)" "length (sent s) = n"
    "sum_list (map cost (sent s)) = int n * top_price C E g"
    using accepted_run [OF assms] by blast
  then show ?thesis by (intro exI [of _ "waiting_floor s 0 0 0 n"]) (simp add: waiting_floor_def)
qed

lemma simultaneous_requests_pass_the_cap_witness:
  "\<exists>f. relay_day sample_relay_config ''2026-01-01'' 0 sample_relay_state f \<and>
     rc_dailyCap sample_relay_config < sum_list (map cost (sent (fl_relay f)))"
proof -
  have ok: "counters sample_relay_state = []" "sent sample_relay_state = []" "0 < rc_dailyCap sample_relay_config"
    by (simp_all add: sample_relay_state_def sample_relay_config_def)
  from simultaneous_requests_pass_the_cap [OF sample_accepts ok, of 3] show ?thesis
    by (auto simp: top_price_def sample_relay_config_def bigintMin_def)
qed

end
