(* ===== verification/RelayBoot.thy ===== *)
theory RelayBoot
  imports RelayProps
begin

text \<open>
  The boot checks: which answers of the node leave the relay enabled, what an enabled relay may be
  pointed at, and how a failed simulation is classified.
\<close>

section \<open>Failed simulations\<close>

text \<open>A transport failure never carries a decoded contract error, and an error with revert bytes is never
  a transport failure: the two answers of a rejection do not overlap.\<close>

lemma transport_has_no_reason: "isTransportFailure err \<Longrightarrow> revertReason err = None"
  by (auto simp: isTransportFailure_def revertReason_def split: option.splits)

lemma known_revert_is_not_transport: "revertReason err = Some name \<Longrightarrow> \<not> isTransportFailure err"
  by (auto simp: isTransportFailure_def revertReason_def split: option.splits)

lemma find_revert_selector: "find_revert n node = Some d \<Longrightarrow> take 2 d = ''0x'' \<and> 10 \<le> length d"
  by (induction n node rule: find_revert.induct) (auto simp: revert_bytes_def split: option.splits if_splits)

section \<open>One attempt\<close>

definition target_ok :: "string option \<Rightarrow> string \<Rightarrow> bool" where
  "target_ok configured m \<longleftrightarrow> m \<noteq> zero_address \<and> \<not> wrong_target configured m"

definition wiring_good :: "relay_config \<Rightarrow> string list \<Rightarrow> wiring \<Rightarrow> string \<Rightarrow> bool" where
  "wiring_good C sels w m \<longleftrightarrow> w_target w = Some m \<and> target_ok (rc_lsLmsr C) m \<and>
     (\<forall>x \<in> set sels. w_relayable w x = Some True) \<and> w_balance w \<noteq> None"

text \<open>The attempt ends in an exception: some read failed before a verdict was reached.\<close>

definition wiring_throws :: "relay_config \<Rightarrow> string list \<Rightarrow> wiring \<Rightarrow> bool" where
  "wiring_throws C sels w \<longleftrightarrow> (case w_target w of
     None \<Rightarrow> True
   | Some m \<Rightarrow> target_ok (rc_lsLmsr C) m \<and>
       (checkSelectors (w_relayable w) sels = None \<or>
        checkSelectors (w_relayable w) sels = Some True \<and> w_balance w = None))"

lemma checkSelectors_True: "checkSelectors ok xs = Some True \<longleftrightarrow> (\<forall>x \<in> set xs. ok x = Some True)"
  by (induction xs) (auto split: option.splits if_splits)

definition spenders :: "relay_config \<Rightarrow> string \<Rightarrow> string list" where
  "spenders C m = lower m # (case rc_permit2 C of None \<Rightarrow> [] | Some p \<Rightarrow> [lower p])"

lemma attempt_again: "fst (wiringAttempt C w s) = wiring_throws C (selectors s) w"
  by (auto simp: wiringAttempt_def wiring_throws_def target_ok_def Let_def split: option.splits)

lemma attempt_selectors [simp]: "selectors (snd (wiringAttempt C w s)) = selectors s"
  by (auto simp: wiringAttempt_def Let_def split: option.splits)

lemma attempt_fixed:
  "hasRpc (snd (wiringAttempt C w s)) = hasRpc s" "resolutionForwarder (snd (wiringAttempt C w s)) = resolutionForwarder s"
  "resolutionSelectors (snd (wiringAttempt C w s)) = resolutionSelectors s"
  by (auto simp: wiringAttempt_def Let_def split: option.splits)

lemma attempt_throws_wallet: "wiring_throws C (selectors s) w \<Longrightarrow> hasWallet (snd (wiringAttempt C w s)) = hasWallet s"
  by (auto simp: wiringAttempt_def wiring_throws_def target_ok_def Let_def split: option.splits)

lemma attempt_verdict:
  assumes "\<not> wiring_throws C (selectors s) w"
  shows "hasWallet (snd (wiringAttempt C w s)) \<longleftrightarrow> hasWallet s \<and> (\<exists>m. wiring_good C (selectors s) w m)"
    and "wiring_good C (selectors s) w m \<Longrightarrow>
      snd (wiringAttempt C w s) = s\<lparr>engine := Some m, permitSpenders := spenders C m\<rparr>"
  using assms checkSelectors_True [of "w_relayable w" "selectors s"]
  by (auto simp: wiringAttempt_def wiring_throws_def wiring_good_def target_ok_def spenders_def Let_def
      split: option.splits)

section \<open>The retries\<close>

definition accepted_at :: "relay_config \<Rightarrow> string list \<Rightarrow> (nat \<Rightarrow> wiring) \<Rightarrow> nat \<Rightarrow> nat \<Rightarrow> string \<Rightarrow> bool" where
  "accepted_at C sels answers a k m \<longleftrightarrow> a \<le> k \<and> k \<le> WIRING_RETRIES \<and>
     (\<forall>j. a \<le> j \<and> j < k \<longrightarrow> wiring_throws C sels (answers j)) \<and> wiring_good C sels (answers k) m"

lemma good_not_throws: "wiring_good C sels w m \<Longrightarrow> \<not> wiring_throws C sels w"
  using checkSelectors_True [of "w_relayable w" sels]
  by (auto simp: wiring_good_def wiring_throws_def)

lemma accepted_now: "\<not> wiring_throws C sels (answers a) \<Longrightarrow> accepted_at C sels answers a k m \<longleftrightarrow>
    k = a \<and> a \<le> WIRING_RETRIES \<and> wiring_good C sels (answers a) m"
  unfolding accepted_at_def by (metis le_neq_implies_less le_refl linorder_not_le)

lemma accepted_later: "wiring_throws C sels (answers a) \<Longrightarrow> accepted_at C sels answers a k m \<longleftrightarrow>
    accepted_at C sels answers (a + 1) k m"
  unfolding accepted_at_def
  by (metis Suc_eq_plus1 Suc_le_eq good_not_throws le_neq_implies_less less_imp_le)

lemma verifyWiring_spec:
  "a \<le> WIRING_RETRIES \<Longrightarrow>
   (hasWallet (verifyWiring C answers a s) \<longleftrightarrow> hasWallet s \<and> (\<exists>k m. accepted_at C (selectors s) answers a k m)) \<and>
   (\<forall>k m. accepted_at C (selectors s) answers a k m \<longrightarrow>
      engine (verifyWiring C answers a s) = Some m \<and> permitSpenders (verifyWiring C answers a s) = spenders C m) \<and>
   selectors (verifyWiring C answers a s) = selectors s \<and> hasRpc (verifyWiring C answers a s) = hasRpc s \<and>
   resolutionForwarder (verifyWiring C answers a s) = resolutionForwarder s"
proof (induction C answers a s rule: verifyWiring.induct)
  case (1 C answers a s)
  obtain again t where at: "wiringAttempt C (answers a) s = (again, t)" by fastforce
  have again: "again = wiring_throws C (selectors s) (answers a)" using attempt_again [of C "answers a" s] at by simp
  have fixed: "selectors t = selectors s" "hasRpc t = hasRpc s" "resolutionForwarder t = resolutionForwarder s"
    using attempt_fixed [of C "answers a" s] attempt_selectors [of C "answers a" s] at by simp_all
  show ?case
  proof (cases again)
    case False
    then have v: "verifyWiring C answers a s = t" using at by (simp add: verifyWiring.simps)
    have nt: "\<not> wiring_throws C (selectors s) (answers a)" using again False by simp
    show ?thesis
      unfolding v accepted_now [where answers = answers and a = a, OF nt] using attempt_verdict [OF nt] at fixed "1.prems" by fastforce
  next
    case True
    then have th: "wiring_throws C (selectors s) (answers a)" using again by simp
    have w: "hasWallet t = hasWallet s" using attempt_throws_wallet [OF th] at by simp
    show ?thesis
    proof (cases "a < WIRING_RETRIES")
      case lt: True
      then have v: "verifyWiring C answers a s = verifyWiring C answers (a + 1) t"
        using at True by (simp add: verifyWiring.simps [of C answers a])
      show ?thesis
        unfolding v accepted_later [where answers = answers and a = a, OF th] using "1.IH" [OF at [symmetric] refl] True lt fixed w by simp
    next
      case False
      then have v: "verifyWiring C answers a s = t\<lparr>hasWallet := False\<rparr>"
        using at True by (simp add: verifyWiring.simps [of C answers a])
      have "\<not> accepted_at C (selectors s) answers a k m" for k m
        using False accepted_later [where answers = answers and a = a, OF th] by (simp add: accepted_at_def)
      then show ?thesis unfolding v using fixed by simp
    qed
  qed
qed

lemma resolution_keeps_trading:
  "engine (verifyResolutionWiring C answers a s) = engine s \<and> hasWallet (verifyResolutionWiring C answers a s) = hasWallet s \<and>
   hasRpc (verifyResolutionWiring C answers a s) = hasRpc s \<and> selectors (verifyResolutionWiring C answers a s) = selectors s \<and>
   permitSpenders (verifyResolutionWiring C answers a s) = permitSpenders s"
proof (induction C answers a s rule: verifyResolutionWiring.induct)
  case (1 C answers a s)
  show ?case
  proof (cases "rc_resolutionForwarder C")
    case None
    then show ?thesis by (simp add: verifyResolutionWiring.simps)
  next
    case (Some fwd)
    obtain again t where at: "resolutionAttempt C fwd (answers a) s = (again, t)" by fastforce
    have "engine t = engine s \<and> hasWallet t = hasWallet s \<and> hasRpc t = hasRpc s \<and> selectors t = selectors s \<and>
        permitSpenders t = permitSpenders s"
      using at by (auto simp: resolutionAttempt_def split: option.splits if_splits)
    then show ?thesis
      using "1.IH" [OF Some at [symmetric] refl] at Some by (subst (1 2 3 4 5) verifyResolutionWiring.simps) simp
  qed
qed

section \<open>Properties\<close>

text \<open>C26. Boot is fail-closed and survives a transient outage: the relay comes up enabled exactly when one
  of the first six attempts gets every answer, those before it having ended in a failed read, and those
  answers name a destination that is set and is the configured engine, with every selector this service
  allows permitted by the forwarder; the engine and the only permitted spenders are then that destination
  and Permit2. The resolution check can change none of it.\<close>

theorem boot_enables_only_checked_wiring:
  assumes "rc_enabled C" "rc_privateKey C = Some key" "rc_forwarder C = Some fwd" "rc_httpUrl C = Some url"
    and "booted = relayInit C addressOf selectorOf trading resolution s"
    and "sels = map selectorOf RELAYABLE_SIGNATURES"
  shows "(isEnabled C booted \<longleftrightarrow> (\<exists>k m. accepted_at C sels trading 0 k m)) \<and>
    (\<forall>k m. accepted_at C sels trading 0 k m \<longrightarrow>
       engine booted = Some m \<and> permitSpenders booted = spenders C m \<and> selectors booted = sels)"
proof -
  define t where "t = s\<lparr>account := Some (addressOf key), hasRpc := True, hasWallet := True, selectors := sels,
    resolutionSelectors := map selectorOf RESOLUTION_SIGNATURES\<rparr>"
  have b: "booted = verifyResolutionWiring C resolution 0 (verifyWiring C trading 0 t)"
    using assms by (simp add: relayInit_def t_def)
  have "selectors t = sels" "hasWallet t" "hasRpc t" by (simp_all add: t_def)
  then show ?thesis
    using verifyWiring_spec [of 0 C trading t] resolution_keeps_trading [of C resolution 0 "verifyWiring C trading 0 t"]
      assms(1) unfolding b isEnabled_def by simp
qed

definition sample_wiring :: "nat \<Rightarrow> wiring" where
  "sample_wiring k = \<lparr>w_target = (if k < 2 then None else Some ''0xE''), w_relayable = (\<lambda>_. Some True), w_balance = Some 1\<rparr>"

lemma boot_enables_only_checked_wiring_witness:
  "isEnabled sample_relay_config (relayInit sample_relay_config id id sample_wiring sample_wiring sample_relay_state) \<and>
   engine (relayInit sample_relay_config id id sample_wiring sample_wiring sample_relay_state) = Some ''0xE''"
proof -
  have "accepted_at sample_relay_config (map id RELAYABLE_SIGNATURES) sample_wiring 0 2 ''0xE''"
    by (auto simp: accepted_at_def WIRING_RETRIES_def wiring_throws_def wiring_good_def target_ok_def wrong_target_def
        sample_wiring_def sample_relay_config_def zero_address_def)
  then show ?thesis
    using boot_enables_only_checked_wiring [of sample_relay_config "''0x1''" "''0xf''" "''http://node''" _ id id sample_wiring
        sample_wiring sample_relay_state, OF _ _ _ _ refl refl]
    by (auto simp: sample_relay_config_def)
qed

end
