(* ===== verification/Settlement.thy ===== *)
theory Settlement
  imports Schema RelayProps
begin

text \<open>
  The settlement keeper, \<open>src/src/relay/settlement.service.ts\<close>: which proposals a pass picks, one
  \<open>finalize\<close> with its receipt, and the backoff books. What the node answers around one attempt (the
  relay's environment, the clock before and after, the receipt) is a parameter of the pass; the call data
  of \<open>finalize\<close> is viem's encoding, a parameter as well.
\<close>

definition SETTLE_COOLDOWN_MS :: int where
  "SETTLE_COOLDOWN_MS = 60000"

definition BASE_BACKOFF_MS :: int where
  "BASE_BACKOFF_MS = 60000"

definition MAX_BACKOFF_MS :: int where
  "MAX_BACKOFF_MS = 1800000"

definition BATCH :: nat where
  "BATCH = 10"

record settlement =
  st_relay :: relay_state
  nextAttempt :: "string \<rightharpoonup> int"
  attempts :: "string \<rightharpoonup> nat"

record attempt_env =
  ae_before :: int  \<comment> \<open>\<open>Date.now()\<close> when the cooldown is booked\<close>
  ae_after :: int  \<comment> \<open>\<open>Date.now()\<close> in \<open>backOff\<close>\<close>
  ae_relay :: relay_env
  ae_receipt :: "string \<Rightarrow> receipt"

definition settle_key :: "proposal \<Rightarrow> string" where
  "settle_key p = r_address p @ '':'' @ dec (r_marketId p)"

text \<open>\<open>Math.min(BASE * 2 ** (n - 1), MAX)\<close>; the doubles involved are exact, or far above the cap.\<close>

definition backoff_delay :: "nat \<Rightarrow> int" where
  "backoff_delay n = min (BASE_BACKOFF_MS * 2 ^ (n - 1)) MAX_BACKOFF_MS"

definition backOff :: "int \<Rightarrow> string \<Rightarrow> settlement \<Rightarrow> settlement" where
  "backOff now key s =
     (let n = (case attempts s key of None \<Rightarrow> 0 | Some k \<Rightarrow> k) + 1
      in s\<lparr>attempts := (attempts s)(key \<mapsto> n), nextAttempt := (nextAttempt s)(key \<mapsto> now + backoff_delay n)\<rparr>)"

definition finalize ::
  "relay_config \<Rightarrow> (string \<Rightarrow> int \<Rightarrow> string) \<Rightarrow> string \<Rightarrow> attempt_env \<Rightarrow> proposal \<Rightarrow> settlement \<Rightarrow> settlement" where
  "finalize C encode resolver A p s =
     (let key = settle_key p;
          booked = s\<lparr>nextAttempt := (nextAttempt s)(key \<mapsto> ae_before A + SETTLE_COOLDOWN_MS)\<rparr>
      in case sendFromRelayer (ae_relay A) C resolver (encode (r_address p) (r_marketId p)) (st_relay s) of
           (Inl err, r) \<Rightarrow> backOff (ae_after A) key (booked\<lparr>st_relay := r\<rparr>)
         | (Inr hash, r) \<Rightarrow>
             (let t = booked\<lparr>st_relay := r, attempts := (attempts s)(key := None)\<rparr>
              in case receiptFor (ae_receipt A) r hash of Reverted \<Rightarrow> backOff (ae_after A) key t | _ \<Rightarrow> t))"

definition isDue :: "int \<Rightarrow> proposal \<Rightarrow> bool" where
  "isDue now p \<longleftrightarrow> r_phase p = PROPOSED \<and> (case r_deadline p of None \<Rightarrow> False | Some d \<Rightarrow> d < now)"

definition byDeadline :: "proposal \<Rightarrow> proposal \<Rightarrow> int" where
  "byDeadline p q = the (r_deadline p) - the (r_deadline q)"

definition duePage :: "int \<Rightarrow> proposal list \<Rightarrow> proposal list" where
  "duePage now ps = take BATCH (js_sort byDeadline (filter (isDue now) ps))"

fun settleEach ::
  "relay_config \<Rightarrow> (string \<Rightarrow> int \<Rightarrow> string) \<Rightarrow> string \<Rightarrow> int \<Rightarrow> (proposal \<Rightarrow> attempt_env) \<Rightarrow> proposal list \<Rightarrow>
   settlement \<Rightarrow> settlement" where
  "settleEach C encode resolver now A [] s = s"
| "settleEach C encode resolver now A (p # ps) s =
     settleEach C encode resolver now A ps
       (if now < (case nextAttempt s (settle_key p) of None \<Rightarrow> 0 | Some t \<Rightarrow> t) then s
        else finalize C encode resolver (A p) p s)"

definition settleDue ::
  "relay_config \<Rightarrow> (string \<Rightarrow> int \<Rightarrow> string) \<Rightarrow> int \<Rightarrow> int \<Rightarrow> (proposal \<Rightarrow> attempt_env) \<Rightarrow> proposal list \<Rightarrow>
   settlement \<Rightarrow> settlement" where
  "settleDue C encode queried now A ps s = (case rc_optimisticResolver C of
     None \<Rightarrow> s
   | Some resolver \<Rightarrow> settleEach C encode resolver now A (duePage queried ps) s)"

definition settleTick ::
  "relay_config \<Rightarrow> (string \<Rightarrow> int \<Rightarrow> string) \<Rightarrow> int \<Rightarrow> int \<Rightarrow> (proposal \<Rightarrow> attempt_env) \<Rightarrow> proposal list \<Rightarrow>
   settlement \<Rightarrow> settlement" where
  "settleTick C encode queried now A ps s =
     (if isEnabled C (st_relay s) then settleDue C encode queried now A ps s else s)"

section \<open>The page and the books\<close>

interpretation deadline_order: comparator byDeadline
  by unfold_locales (auto simp: byDeadline_def)

lemma backOff_other: "k \<noteq> key \<Longrightarrow>
  nextAttempt (backOff now key s) k = nextAttempt s k \<and> attempts (backOff now key s) k = attempts s k"
  by (simp add: backOff_def Let_def)

lemma finalize_other:
  assumes "k \<noteq> settle_key p"
  shows "nextAttempt (finalize C encode resolver A p s) k = nextAttempt s k \<and>
    attempts (finalize C encode resolver A p s) k = attempts s k"
  using assms by (auto simp: finalize_def Let_def backOff_other split: prod.split sum.split receipt.split)

lemma settleEach_other:
  "k \<notin> settle_key ` set ps \<Longrightarrow>
   nextAttempt (settleEach C encode resolver now A ps s) k = nextAttempt s k \<and>
   attempts (settleEach C encode resolver now A ps s) k = attempts s k"
  by (induction ps arbitrary: s) (auto simp: finalize_other)

lemma settleEach_idle:
  "(\<And>p. p \<in> set ps \<Longrightarrow> \<exists>t. nextAttempt s (settle_key p) = Some t \<and> now < t) \<Longrightarrow>
   settleEach C encode resolver now A ps s = s"
  by (induction ps) fastforce+

text \<open>With a full page of earlier deadlines, a later one is not on the page.\<close>

lemma sorted_take_before:
  assumes "sorted_wrt (\<lambda>a b. byDeadline a b \<le> 0) xs" "p \<in> set (take n xs)"
    and "n \<le> length (filter (\<lambda>q. byDeadline q p < 0) xs)"
  shows False
  using assms
proof (induction xs arbitrary: n)
  case (Cons x xs)
  show ?case
  proof (cases n)
    case 0
    then show ?thesis using Cons.prems(2) by simp
  next
    case (Suc m)
    show ?thesis
    proof (cases "byDeadline x p < 0")
      case True
      then have "p \<noteq> x" by (auto simp: byDeadline_def)
      then show ?thesis using Cons.IH [of m] Cons.prems Suc True by simp
    next
      case False
      have "\<not> byDeadline q p < 0" if "q \<in> set xs" for q
        using Cons.prems(1) that False by (force simp: byDeadline_def)
      then have "filter (\<lambda>q. byDeadline q p < 0) (x # xs) = []" using False by (auto simp: filter_empty_conv)
      then show ?thesis using Cons.prems(3) Suc by simp
    qed
  qed
qed simp

lemma crowded_out:
  assumes "BATCH \<le> length (filter (\<lambda>q. isDue now q \<and> byDeadline q p < 0) ps)"
  shows "p \<notin> set (duePage now ps)"
proof
  assume "p \<in> set (duePage now ps)"
  then have "p \<in> set (take BATCH (js_sort byDeadline (filter (isDue now) ps)))" by (simp add: duePage_def)
  moreover have "mset (filter (\<lambda>q. byDeadline q p < 0) (js_sort byDeadline (filter (isDue now) ps))) =
      mset (filter (\<lambda>q. byDeadline q p < 0) (filter (isDue now) ps))"
    by (simp only: mset_filter mset_js_sort)
  then have "mset (filter (\<lambda>q. byDeadline q p < 0) (js_sort byDeadline (filter (isDue now) ps))) =
      mset (filter (\<lambda>q. isDue now q \<and> byDeadline q p < 0) ps)"
    unfolding filter_filter .
  then have "BATCH \<le> length (filter (\<lambda>q. byDeadline q p < 0) (js_sort byDeadline (filter (isDue now) ps)))"
    using assms mset_eq_length by metis
  ultimately show False by (rule sorted_take_before [OF deadline_order.sorted_js_sort])
qed

lemma duePage_due: "p \<in> set (duePage now ps) \<Longrightarrow> p \<in> set ps \<and> isDue now p"
  using set_take_subset [of BATCH "js_sort byDeadline (filter (isDue now) ps)"] by (auto simp: duePage_def)

section \<open>Properties\<close>

definition sample_due_proposal :: "int \<Rightarrow> proposal" where
  "sample_due_proposal d = \<lparr>r_address = ''0xe'', r_marketId = d, r_ref = None, r_phase = PROPOSED, r_proposer = None,
     r_proposed = Some 0, r_bonded = True, r_bond = 1, r_deadline = Some d, r_disputer = None, r_counter = None,
     r_disputerBond = 0, r_arbDeadline = None, r_route = None, r_settled = None, r_reward = 0, r_forfeited = 0,
     r_loser = None, r_settledAt = None, r_proposedTx = None, r_settledTx = None\<rparr>"

definition sample_settlement :: settlement where
  "sample_settlement = \<lparr>st_relay = sample_relay_state, nextAttempt = (\<lambda>_. Some 5000), attempts = (\<lambda>_. Some 3)\<rparr>"

text \<open>Ten stuck proposals stop settlement: the page is the ten due proposals with the earliest
  deadlines, and backoff is applied after it is taken. A due proposal with a full page of earlier ones is
  never attempted, pass after pass, and while those ten wait out their backoff the pass does nothing.\<close>

theorem stuck_page_starves_the_rest:
  assumes "BATCH \<le> length (filter (\<lambda>q. isDue queried q \<and> byDeadline q p < 0) ps)"
    and "\<And>q. q \<in> set ps \<Longrightarrow> settle_key q = settle_key p \<Longrightarrow> q = p"
  shows "nextAttempt (settleTick C encode queried now A ps s) (settle_key p) = nextAttempt s (settle_key p) \<and>
    attempts (settleTick C encode queried now A ps s) (settle_key p) = attempts s (settle_key p) \<and>
    ((\<forall>q \<in> set (duePage queried ps). \<exists>t. nextAttempt s (settle_key q) = Some t \<and> now < t) \<longrightarrow>
       settleTick C encode queried now A ps s = s)"
proof -
  have "settle_key p \<notin> settle_key ` set (duePage queried ps)"
    using crowded_out [OF assms(1)] assms(2) duePage_due by fastforce
  note other = settleEach_other [OF this]
  show ?thesis
    using other settleEach_idle [of "duePage queried ps" s now]
    by (auto simp: settleTick_def settleDue_def split: option.split)
qed

lemma stuck_page_starves_the_rest_witness:
  "\<forall>A. isDue 100 (sample_due_proposal 50) \<and>
   settleTick sample_relay_config (\<lambda>_ _. []) 100 100 A (map sample_due_proposal [1, 2, 3, 4, 5, 6, 7, 8, 9, 10, 50])
     sample_settlement = sample_settlement"
proof
  fix A
  let ?ps = "map sample_due_proposal [1, 2, 3, 4, 5, 6, 7, 8, 9, 10, 50]"
  have crowd: "BATCH \<le> length (filter (\<lambda>q. isDue 100 q \<and> byDeadline q (sample_due_proposal 50) < 0) ?ps)"
    by (simp add: BATCH_def isDue_def byDeadline_def sample_due_proposal_def)
  have keys: "q = sample_due_proposal 50" if "q \<in> set ?ps" "settle_key q = settle_key (sample_due_proposal 50)" for q
    using that by (auto simp: settle_key_def sample_due_proposal_def)
  show "isDue 100 (sample_due_proposal 50) \<and>
      settleTick sample_relay_config (\<lambda>_ _. []) 100 100 A ?ps sample_settlement = sample_settlement"
    using stuck_page_starves_the_rest [OF crowd keys, of sample_relay_config "\<lambda>_ _. []" 100 A sample_settlement]
    by (simp add: isDue_def sample_due_proposal_def sample_settlement_def)
qed

text \<open>The backoff books: when the relay refuses, the next attempt waits a minute, doubling with every
  consecutive refusal up to half an hour; when the transaction was broadcast the count starts again, so a
  finalize that always reverts on chain is retried, and paid for, after a minute each time, never later.\<close>

theorem finalize_books:
  assumes "sendFromRelayer (ae_relay A) C resolver (encode (r_address p) (r_marketId p)) (st_relay s) = (out, r)"
    and "k = (case attempts s (settle_key p) of None \<Rightarrow> 0 | Some k \<Rightarrow> k)"
    and "t = finalize C encode resolver A p s"
  shows "st_relay t = r \<and>
    (case out of
       Inl err \<Rightarrow> attempts t (settle_key p) = Some (k + 1) \<and>
         nextAttempt t (settle_key p) = Some (ae_after A + min (60000 * 2 ^ k) 1800000)
     | Inr hash \<Rightarrow>
         if receiptFor (ae_receipt A) r hash = Reverted
         then attempts t (settle_key p) = Some 1 \<and> nextAttempt t (settle_key p) = Some (ae_after A + 60000)
         else attempts t (settle_key p) = None \<and> nextAttempt t (settle_key p) = Some (ae_before A + 60000))"
  using assms
  by (cases out; cases "attempts s (settle_key p)")
    (auto simp: finalize_def backOff_def Let_def backoff_delay_def SETTLE_COOLDOWN_MS_def BASE_BACKOFF_MS_def
      MAX_BACKOFF_MS_def split: receipt.split)

lemma finalize_books_witness:
  "\<exists>t. attempts sample_settlement (settle_key (sample_due_proposal 50)) = Some 3 \<and>
     t = finalize sample_relay_config (\<lambda>_ _. []) ''0xo''
       \<lparr>ae_before = 7000, ae_after = 9000, ae_relay = sample_relay_env, ae_receipt = (\<lambda>_. Reverted)\<rparr>
       (sample_due_proposal 50) (sample_settlement\<lparr>st_relay := sample_relay_state\<lparr>hasWallet := False\<rparr>\<rparr>) \<and>
     attempts t (settle_key (sample_due_proposal 50)) = Some 4 \<and>
     nextAttempt t (settle_key (sample_due_proposal 50)) = Some (9000 + 480000)"
proof -
  let ?A = "\<lparr>ae_before = 7000, ae_after = 9000, ae_relay = sample_relay_env, ae_receipt = (\<lambda>_. Reverted)\<rparr>"
  let ?s = "sample_settlement\<lparr>st_relay := sample_relay_state\<lparr>hasWallet := False\<rparr>\<rparr>"
  have "sendFromRelayer (ae_relay ?A) sample_relay_config ''0xo'' [] (st_relay ?s) =
      (Inl (RelayRejected Unavailable None), sample_relay_state\<lparr>hasWallet := False\<rparr>)"
    by (simp add: sendFromRelayer_def sendAdmit_def isEnabled_def)
  from finalize_books [where A = ?A and encode = "\<lambda>_ _. []" and s = ?s and p = "sample_due_proposal 50", OF this refl refl]
  show ?thesis by (simp add: sample_settlement_def)
qed

end
