(* ===== verification/Auth.thy ===== *)
theory Auth
  imports Store
begin

text \<open>
  Wallet sign-in: \<open>src/src/auth/siwe.service.ts\<close>, \<open>auth.service.ts\<close> and \<open>auth-tokens.service.ts\<close>. The
  SIWE parser, ECDSA recovery, the JWT library, SHA-256 and the random identifiers are parameters in
  \<open>auth_env\<close>, with the clock. A nonce is a Redis key with its expiry; users and refresh sessions are
  tables. Where a method reads and later writes, the model keeps the two halves apart, so that two calls
  can be interleaved between them.
\<close>

section \<open>State\<close>

record user =
  u_id :: string
  u_address :: string
  u_displayName :: "string option"
  u_lastLogin :: int

record session =
  se_id :: string
  se_user :: string
  se_hash :: string
  se_userAgent :: "string option"
  se_ip :: "string option"
  se_expires :: int
  se_revoked :: "int option"

record nonce_row =
  nr_key :: string
  nr_value :: string
  nr_expires :: int

record auth_state =
  users :: "user list"
  sessions :: "session list"
  nonceRows :: "nonce_row list"

datatype jwt_payload = AccessToken string string | RefreshToken string string | OtherToken

record siwe_fields =
  sf_address :: "string option"
  sf_nonce :: "string option"
  sf_domain :: "string option"
  sf_chainId :: "int option"
  sf_expiration :: "int option"

record auth_config =
  ac_domain :: string
  ac_chainId :: int
  ac_nonceTtl :: int
  ac_accessTtl :: string
  ac_refreshTtl :: string

record auth_env =
  av_now :: int
  av_parse :: "string \<Rightarrow> siwe_fields option"  \<comment> \<open>\<open>None\<close>: it throws\<close>
  av_recover :: "string \<Rightarrow> string \<Rightarrow> string option"
  av_nonce :: string  \<comment> \<open>\<open>generateSiweNonce()\<close>\<close>
  av_message :: "string \<Rightarrow> string \<Rightarrow> int \<Rightarrow> int \<Rightarrow> string"  \<comment> \<open>address, nonce, issued, expires\<close>
  av_address :: "string \<Rightarrow> bool"  \<comment> \<open>\<open>isAddress\<close> without the checksum\<close>
  av_uuid :: string  \<comment> \<open>the session id this call draws\<close>
  av_userId :: string
  av_access :: "string \<Rightarrow> string \<Rightarrow> string"
  av_refresh :: "string \<Rightarrow> string \<Rightarrow> string"
  av_verify :: "string \<Rightarrow> jwt_payload option"
  av_hash :: "string \<Rightarrow> string"

record request_meta =
  mt_userAgent :: "string option"
  mt_ip :: "string option"

record token_pair =
  tp_access :: string
  tp_refresh :: string
  tp_accessTtl :: string
  tp_refreshTtl :: string

datatype auth_error = Unauthorized string | BadAddress | UniqueViolation | MissingRow

type_synonym 'a auth = "(auth_state, auth_error, 'a) proc"

section \<open>Refresh sessions\<close>

text \<open>\<open>ttlToMs\<close>: the pattern \<open>/^(\d+)\s*(s|m|h|d)?$/\<close> on the trimmed string.\<close>

definition ttlToMs :: "string \<Rightarrow> int" where
  "ttlToMs ttl =
     (let s = js_trim ttl;
          ds = takeWhile (\<lambda>c. digit_val c \<noteq> None) s;
          unit = dropWhile js_space (dropWhile (\<lambda>c. digit_val c \<noteq> None) s)
      in if ds = [] \<or> unit \<notin> {[], ''s'', ''m'', ''h'', ''d''} then 0
         else (let n = js_number (int (the (digits_val 0 ds)))
               in js_number (n * (if unit = ''d'' then 86400000 else if unit = ''h'' then 3600000
                                  else if unit = ''m'' then 60000 else 1000))))"

definition createSession :: "session \<Rightarrow> unit auth" where
  "createSession r = (\<lambda>s. if tfind se_id (se_id r) (sessions s) \<noteq> None then (Inl UniqueViolation, s)
     else (Inr (), s\<lparr>sessions := sessions s @ [r]\<rparr>))"

definition issue :: "auth_env \<Rightarrow> auth_config \<Rightarrow> string \<Rightarrow> string \<Rightarrow> request_meta \<Rightarrow> token_pair auth" where
  "issue E C userId address meta =
     (let jti = av_uuid E; refreshToken = av_refresh E userId jti
      in seqp (createSession \<lparr>se_id = jti, se_user = userId, se_hash = av_hash E refreshToken,
                 se_userAgent = map_option (take 512) (mt_userAgent meta), se_ip = mt_ip meta,
                 se_expires = av_now E + ttlToMs (ac_refreshTtl C), se_revoked = None\<rparr>)
           (ret \<lparr>tp_access = av_access E userId address, tp_refresh = refreshToken,
                 tp_accessTtl = ac_accessTtl C, tp_refreshTtl = ac_refreshTtl C\<rparr>))"

definition revoke_where :: "int \<Rightarrow> (session \<Rightarrow> bool) \<Rightarrow> unit auth" where
  "revoke_where now P = modp (\<lambda>s. s\<lparr>sessions :=
     tmany (\<lambda>r. P r \<and> se_revoked r = None) (\<lambda>r. r\<lparr>se_revoked := Some now\<rparr>) (sessions s)\<rparr>)"

definition revokeAllForUser :: "auth_env \<Rightarrow> string \<Rightarrow> unit auth" where
  "revokeAllForUser E userId = revoke_where (av_now E) (\<lambda>r. se_user r = userId)"

text \<open>\<open>payload.jti\<close>; Prisma ignores a filter that is \<open>undefined\<close>, so a payload without one matches every
  session.\<close>

definition jti_of :: "jwt_payload \<Rightarrow> string option" where
  "jti_of p = (case p of RefreshToken sub jti \<Rightarrow> Some jti | _ \<Rightarrow> None)"

definition revoke :: "auth_env \<Rightarrow> string \<Rightarrow> unit auth" where
  "revoke E refreshToken = (case av_verify E refreshToken of
     None \<Rightarrow> ret ()
   | Some p \<Rightarrow> revoke_where (av_now E) (\<lambda>r. case jti_of p of None \<Rightarrow> True | Some jti \<Rightarrow> se_id r = jti))"

text \<open>The reads and checks of \<open>rotate\<close>, up to the point where the presented session is revoked.\<close>

definition rotateRead :: "auth_env \<Rightarrow> string \<Rightarrow> (session \<times> user) auth" where
  "rotateRead E refreshToken = (case av_verify E refreshToken of
     None \<Rightarrow> throw (Unauthorized ''invalid or expired refresh token'')
   | Some (RefreshToken sub jti) \<Rightarrow> bindp (gets id) (\<lambda>s. case tfind se_id jti (sessions s) of
        None \<Rightarrow> throw (Unauthorized ''unknown session'')
      | Some r \<Rightarrow>
          if se_hash r \<noteq> av_hash E refreshToken then throw (Unauthorized ''unknown session'')
          else if se_revoked r \<noteq> None
          then seqp (revokeAllForUser E (se_user r)) (throw (Unauthorized ''refresh token already used''))
          else if se_expires r < av_now E then throw (Unauthorized ''session expired'')
          else (case tfind u_id (se_user r) (users s) of None \<Rightarrow> throw MissingRow | Some u \<Rightarrow> ret (r, u)))
   | Some _ \<Rightarrow> throw (Unauthorized ''wrong token type''))"

definition rotateWrite ::
  "auth_env \<Rightarrow> auth_config \<Rightarrow> request_meta \<Rightarrow> session \<times> user \<Rightarrow> (token_pair \<times> string \<times> string) auth" where
  "rotateWrite E C meta p = (case p of (r, u) \<Rightarrow>
     seqp (\<lambda>s. if tfind se_id (se_id r) (sessions s) = None then (Inl MissingRow, s)
               else (Inr (), s\<lparr>sessions := tupdate se_id (se_id r) (\<lambda>x. x\<lparr>se_revoked := Some (av_now E)\<rparr>) (sessions s)\<rparr>))
       (bindp (issue E C (se_user r) (u_address u) meta)
         (\<lambda>tokens. ret (tokens, se_user r, u_address u))))"

definition rotate ::
  "auth_env \<Rightarrow> auth_config \<Rightarrow> string \<Rightarrow> request_meta \<Rightarrow> (token_pair \<times> string \<times> string) auth" where
  "rotate E C refreshToken meta = bindp (rotateRead E refreshToken) (rotateWrite E C meta)"

section \<open>Signing in\<close>

definition nonceKey :: "string \<Rightarrow> string" where
  "nonceKey address = ''auth:nonce:'' @ address"

definition normalizeAddress :: "auth_env \<Rightarrow> string \<Rightarrow> string option" where
  "normalizeAddress E a = (if av_address E a then Some (lower a) else None)"

record prepared_siwe =
  pp_message :: string
  pp_nonce :: string
  pp_expiresAt :: int

definition prepare :: "auth_env \<Rightarrow> auth_config \<Rightarrow> string \<Rightarrow> prepared_siwe" where
  "prepare E C address =
     (let expiresAt = av_now E + ac_nonceTtl C * 1000
      in \<lparr>pp_message = av_message E address (av_nonce E) (av_now E) expiresAt, pp_nonce = av_nonce E,
          pp_expiresAt = expiresAt\<rparr>)"

definition storeNonce :: "string \<Rightarrow> string \<Rightarrow> int \<Rightarrow> auth_state \<Rightarrow> auth_state" where
  "storeNonce k v t s = s\<lparr>nonceRows := tupsert nr_key k \<lparr>nr_key = k, nr_value = v, nr_expires = t\<rparr>
     (\<lambda>_. \<lparr>nr_key = k, nr_value = v, nr_expires = t\<rparr>) (nonceRows s)\<rparr>"

definition getNonce :: "int \<Rightarrow> string \<Rightarrow> auth_state \<Rightarrow> string option" where
  "getNonce now k s = (case tfind nr_key k (nonceRows s) of
     None \<Rightarrow> None | Some r \<Rightarrow> if now < nr_expires r then Some (nr_value r) else None)"

definition delNonce :: "string \<Rightarrow> auth_state \<Rightarrow> auth_state" where
  "delNonce k s = s\<lparr>nonceRows := filter (\<lambda>r. nr_key r \<noteq> k) (nonceRows s)\<rparr>"

definition requestNonce :: "auth_env \<Rightarrow> auth_config \<Rightarrow> string \<Rightarrow> prepared_siwe auth" where
  "requestNonce E C rawAddress = (case normalizeAddress E rawAddress of
     None \<Rightarrow> throw BadAddress
   | Some address \<Rightarrow> (let p = prepare E C address in
        seqp (modp (storeNonce (nonceKey address) (pp_nonce p) (av_now E + ac_nonceTtl C * 1000))) (ret p)))"

datatype siwe_result = SiweOk string string | SiweFail string

text \<open>\<open>SiweService.verify\<close>; an absent or empty field is falsy.\<close>

definition present :: "string option \<Rightarrow> string option" where
  "present x = (case x of None \<Rightarrow> None | Some v \<Rightarrow> if v = [] then None else Some v)"

definition siweVerify :: "auth_env \<Rightarrow> auth_config \<Rightarrow> string \<Rightarrow> string \<Rightarrow> siwe_result" where
  "siweVerify E C message signature = (case av_parse E message of
     None \<Rightarrow> SiweFail ''malformed SIWE message''
   | Some f \<Rightarrow> (case present (sf_address f) of
      None \<Rightarrow> SiweFail ''missing address''
    | Some address \<Rightarrow> (case present (sf_nonce f) of
       None \<Rightarrow> SiweFail ''missing nonce''
     | Some nonce \<Rightarrow>
        if sf_domain f \<noteq> Some (ac_domain C) then SiweFail ''domain mismatch''
        else if sf_chainId f \<noteq> Some (ac_chainId C) then SiweFail ''chainId mismatch''
        else if (case sf_expiration f of None \<Rightarrow> False | Some t \<Rightarrow> t < av_now E) then SiweFail ''message expired''
        else (case av_recover E message signature of
            None \<Rightarrow> SiweFail ''invalid signature''
          | Some recovered \<Rightarrow>
              if lower recovered \<noteq> lower address then SiweFail ''signature does not match address''
              else SiweOk (lower address) nonce))))"

record auth_result =
  ar_isNewUser :: bool
  ar_user :: user
  ar_tokens :: token_pair

definition verifyRead :: "auth_env \<Rightarrow> auth_config \<Rightarrow> string \<Rightarrow> string \<Rightarrow> string auth" where
  "verifyRead E C message signature = (case siweVerify E C message signature of
     SiweFail reason \<Rightarrow> throw (Unauthorized (''signature verification failed: '' @ reason))
   | SiweOk address nonce \<Rightarrow> bindp (gets (getNonce (av_now E) (nonceKey address)))
       (\<lambda>stored. if stored \<noteq> Some nonce then throw (Unauthorized ''nonce invalid, expired, or already used'')
                 else ret address))"

definition upsertUser :: "auth_env \<Rightarrow> string \<Rightarrow> (bool \<times> user) auth" where
  "upsertUser E address = (\<lambda>s. case tfind u_address address (users s) of
     Some u \<Rightarrow> (Inr (False, u\<lparr>u_lastLogin := av_now E\<rparr>),
                s\<lparr>users := tupdate u_address address (\<lambda>x. x\<lparr>u_lastLogin := av_now E\<rparr>) (users s)\<rparr>)
   | None \<Rightarrow> (let u = \<lparr>u_id = av_userId E, u_address = address, u_displayName = None, u_lastLogin = av_now E\<rparr>
              in (Inr (True, u), s\<lparr>users := users s @ [u]\<rparr>)))"

definition verifyWrite :: "auth_env \<Rightarrow> auth_config \<Rightarrow> request_meta \<Rightarrow> string \<Rightarrow> auth_result auth" where
  "verifyWrite E C meta address =
     seqp (modp (delNonce (nonceKey address)))
       (bindp (upsertUser E address) (\<lambda>(isNew, u).
         bindp (issue E C (u_id u) (u_address u) meta)
           (\<lambda>tokens. ret \<lparr>ar_isNewUser = isNew, ar_user = u, ar_tokens = tokens\<rparr>)))"

definition verifyLogin :: "auth_env \<Rightarrow> auth_config \<Rightarrow> string \<Rightarrow> string \<Rightarrow> request_meta \<Rightarrow> auth_result auth" where
  "verifyLogin E C message signature meta = bindp (verifyRead E C message signature) (verifyWrite E C meta)"

definition refresh :: "auth_env \<Rightarrow> auth_config \<Rightarrow> string \<Rightarrow> request_meta \<Rightarrow> token_pair auth" where
  "refresh E C refreshToken meta = bindp (rotate E C refreshToken meta) (\<lambda>(tokens, _, _). ret tokens)"

definition logout :: "auth_env \<Rightarrow> string \<Rightarrow> unit auth" where
  "logout E refreshToken = revoke E refreshToken"

interpretation session_rows: unique_store se_id "tfind se_id" "tupdate se_id" "tupsert se_id"
  by (rule list_table_store)

interpretation user_rows: unique_store u_address "tfind u_address" "tupdate u_address" "tupsert u_address"
  by (rule list_table_store)

interpretation nonce_rows: unique_store nr_key "tfind nr_key" "tupdate nr_key" "tupsert nr_key"
  by (rule list_table_store)

end
