(* ===== verification/AuthProps.thy ===== *)
theory AuthProps
  imports Auth
begin

text \<open>
  What sign-in guarantees: a refresh token is good for one rotation and its reuse is detected, whatever
  happens in between; a login message is good for one login; and where two calls interleave between a
  read and its write, what is lost.
\<close>

section \<open>Revocation is permanent\<close>

definition dead :: "string \<Rightarrow> string \<Rightarrow> string \<Rightarrow> auth_state \<Rightarrow> bool" where
  "dead jti h usr s \<longleftrightarrow> (\<exists>r. tfind se_id jti (sessions s) = Some r \<and> se_hash r = h \<and> se_user r = usr \<and> se_revoked r \<noteq> None)"

lemma dead_frame: "sessions t = sessions s \<Longrightarrow> dead jti h usr s \<Longrightarrow> dead jti h usr t"
  by (simp add: dead_def)

lemma keeps_create: "keeps (dead jti h usr) (createSession r)"
  by (auto simp: steps_def createSession_def dead_def tfind_append)

lemma keeps_revoke_where: "keeps (dead jti h usr) (revoke_where now P)"
proof -
  have "tfind se_id jti (tmany (\<lambda>r. P r \<and> se_revoked r = None) (\<lambda>r. r\<lparr>se_revoked := Some now\<rparr>) t) = Some r"
    if "tfind se_id jti t = Some r" "se_revoked r \<noteq> None" for t r
    using that by (simp add: tfind_tmany)
  then show ?thesis unfolding revoke_where_def steps_def dead_def modp_def by force
qed

lemma keeps_read: "keeps (dead jti h usr) (rotateRead E tok)"
  unfolding rotateRead_def revokeAllForUser_def
  by (intro keeps_order.steps_intros keeps_revoke_where allI impI; simp split: option.split jwt_payload.split;
      intro allI impI conjI keeps_order.steps_intros keeps_revoke_where)

lemma keeps_issue: "keeps (dead jti h usr) (issue E C userId address meta)"
  unfolding issue_def Let_def by (intro keeps_order.steps_intros keeps_create)

lemma keeps_write: "keeps (dead jti h usr) (rotateWrite E C meta p)"
proof -
  have "keeps (dead jti h usr) (\<lambda>s. if tfind se_id (se_id r) (sessions s) = None then (Inl MissingRow, s)
      else (Inr (), s\<lparr>sessions := tupdate se_id (se_id r) (\<lambda>x. x\<lparr>se_revoked := Some (av_now E)\<rparr>) (sessions s)\<rparr>))" for r
    by (auto simp: steps_def dead_def tfind_tupdate)
  then show ?thesis
    unfolding rotateWrite_def split_beta by (intro keeps_order.steps_intros keeps_issue)
qed

lemma keeps_users: "keeps (dead jti h usr) (upsertUser E address)"
  by (rule keeps_frame [of sessions]) (auto simp: steps_def upsertUser_def Let_def dead_def split: option.split)

lemma keeps_login: "keeps (dead jti h usr) (verifyLogin E C message signature meta)"
proof -
  have del: "keeps (dead jti h usr) (modp (delNonce k))" for k
    by (intro keeps_order.steps_intros) (simp add: delNonce_def dead_def)
  show ?thesis
    unfolding verifyLogin_def verifyRead_def verifyWrite_def split_beta
    by (intro keeps_order.steps_bindp keeps_order.steps_seqp keeps_users del keeps_issue)
      (auto split: siwe_result.split intro!: keeps_order.steps_intros keeps_issue)
qed

lemma keeps_nonce: "keeps (dead jti h usr) (requestNonce E C raw)"
  unfolding requestNonce_def Let_def
  by (intro keeps_order.steps_intros) (auto simp: storeNonce_def dead_def)

section \<open>Histories\<close>

datatype auth_op = OpNonce string | OpVerify string string request_meta | OpRefresh string request_meta | OpLogout string

definition auth_do :: "auth_env \<Rightarrow> auth_config \<Rightarrow> auth_op \<Rightarrow> auth_state \<Rightarrow> auth_state" where
  "auth_do E C op s = (case op of
     OpNonce raw \<Rightarrow> snd (requestNonce E C raw s)
   | OpVerify message signature meta \<Rightarrow> snd (verifyLogin E C message signature meta s)
   | OpRefresh tok meta \<Rightarrow> snd (refresh E C tok meta s)
   | OpLogout tok \<Rightarrow> snd (logout E tok s))"

inductive auth_run :: "auth_config \<Rightarrow> auth_state \<Rightarrow> auth_state \<Rightarrow> bool" for C where
  start: "auth_run C s s"
| step: "auth_run C s t \<Longrightarrow> auth_run C s (auth_do E C op t)"

lemma keeps_rotate: "keeps (dead jti h usr) (rotate E C tok meta)"
  unfolding rotate_def by (intro keeps_order.steps_intros keeps_read keeps_write)

lemma keeps_revoke: "keeps (dead jti h usr) (revoke E tok)"
  unfolding revoke_def by (intro keeps_order.steps_intros keeps_revoke_where)

lemma auth_do_dead: "dead jti h usr s \<Longrightarrow> dead jti h usr (auth_do E C op s)"
proof -
  have "keeps (dead jti h usr) (refresh E C tok meta)" for tok meta
    unfolding refresh_def split_beta by (intro keeps_order.steps_intros keeps_rotate)
  then show "dead jti h usr s \<Longrightarrow> dead jti h usr (auth_do E C op s)"
    using keepsD [OF keeps_login] keepsD [OF keeps_nonce] keepsD [OF keeps_revoke]
    by (cases op) (auto simp: auth_do_def logout_def dest: keepsD)
qed

lemma auth_run_dead: "auth_run C s t \<Longrightarrow> dead jti h usr s \<Longrightarrow> dead jti h usr t"
  by (induction rule: auth_run.induct) (auto intro: auth_do_dead)

section \<open>What a rotation did\<close>

lemma rotateRead_run:
  "rotateRead E tok s = (Inr (r, u), t) \<longleftrightarrow> t = s \<and>
     (\<exists>sub jti. av_verify E tok = Some (RefreshToken sub jti) \<and> tfind se_id jti (sessions s) = Some r) \<and>
     se_hash r = av_hash E tok \<and> se_revoked r = None \<and> av_now E \<le> se_expires r \<and> tfind u_id (se_user r) (users s) = Some u"
  by (auto simp: rotateRead_def bindp_def gets_def throw_def ret_def seqp_Inr
      split: option.splits jwt_payload.splits if_splits)

lemma rotateRead_dead:
  assumes "dead jti h usr s" "av_verify E tok = Some (RefreshToken sub jti)" "av_hash E tok = h"
  shows "\<exists>t. rotateRead E tok s = (Inl (Unauthorized ''refresh token already used''), t) \<and>
    (\<forall>r \<in> set (sessions t). se_user r = usr \<longrightarrow> se_revoked r \<noteq> None)"
  using assms
  by (auto simp: dead_def rotateRead_def revokeAllForUser_def revoke_where_def tmany_def)

lemma rotateWrite_run:
  assumes "rotateWrite E C meta (r, u) s = (Inr res, t)" "tfind se_id (se_id r) (sessions s) = Some r"
  shows "dead (se_id r) (se_hash r) (se_user r) t" "fst (snd res) = se_user r"
proof -
  let ?s1 = "s\<lparr>sessions := tupdate se_id (se_id r) (\<lambda>x. x\<lparr>se_revoked := Some (av_now E)\<rparr>) (sessions s)\<rparr>"
  have run: "bindp (issue E C (se_user r) (u_address u) meta) (\<lambda>tokens. ret (tokens, se_user r, u_address u)) ?s1 = (Inr res, t)"
    using assms by (simp add: rotateWrite_def seqp_def bindp_def)
  then obtain tokens where i: "issue E C (se_user r) (u_address u) meta ?s1 = (Inr tokens, t)"
    and res: "res = (tokens, se_user r, u_address u)" by (auto simp: bindp_Inr)
  have "dead (se_id r) (se_hash r) (se_user r) ?s1" using assms(2) by (auto simp: dead_def tfind_tupdate)
  then show "dead (se_id r) (se_hash r) (se_user r) t" using stepsD [OF keeps_issue i] by blast
  show "fst (snd res) = se_user r" by (simp add: res)
qed

section \<open>Samples\<close>

definition sample_auth_env :: "string \<Rightarrow> auth_env" where
  "sample_auth_env uuid = \<lparr>av_now = 1000,
     av_parse = (\<lambda>_. Some \<lparr>sf_address = Some ''0xa'', sf_nonce = Some ''n'', sf_domain = Some ''d'',
                       sf_chainId = Some 1, sf_expiration = None\<rparr>),
     av_recover = (\<lambda>_ _. Some ''0xa''), av_nonce = ''n'', av_message = (\<lambda>_ _ _ _. ''m''), av_address = (\<lambda>_. True),
     av_uuid = uuid, av_userId = ''u1'', av_access = (\<lambda>u a. u @ a), av_refresh = (\<lambda>u j. j),
     av_verify = (\<lambda>t. if t = ''acc'' then Some (AccessToken ''u1'' ''0xa'') else Some (RefreshToken ''u1'' t)),
     av_hash = (\<lambda>t. t)\<rparr>"

definition sample_auth_config :: auth_config where
  "sample_auth_config = \<lparr>ac_domain = ''d'', ac_chainId = 1, ac_nonceTtl = 300, ac_accessTtl = ''900s'', ac_refreshTtl = ''30d''\<rparr>"

definition sample_session :: session where
  "sample_session = \<lparr>se_id = ''s1'', se_user = ''u1'', se_hash = ''s1'', se_userAgent = None, se_ip = None,
     se_expires = 5000, se_revoked = None\<rparr>"

definition sample_user :: user where
  "sample_user = \<lparr>u_id = ''u1'', u_address = ''0xa'', u_displayName = None, u_lastLogin = 0\<rparr>"

definition sample_auth_state :: auth_state where
  "sample_auth_state = \<lparr>users = [sample_user], sessions = [sample_session],
     nonceRows = [\<lparr>nr_key = nonceKey ''0xa'', nr_value = ''n'', nr_expires = 9000\<rparr>]\<rparr>"

definition no_meta :: request_meta where
  "no_meta = \<lparr>mt_userAgent = None, mt_ip = None\<rparr>"

lemma sample_read:
  "rotateRead (sample_auth_env uuid) ''s1'' sample_auth_state = (Inr (sample_session, sample_user), sample_auth_state)"
  unfolding rotateRead_run
  by (simp add: sample_auth_env_def sample_auth_state_def sample_session_def sample_user_def)

lemma issue_fresh:
  assumes "tfind se_id (av_uuid E) (sessions s) = None"
  shows "\<exists>tokens r. issue E C userId address meta s = (Inr tokens, s\<lparr>sessions := sessions s @ [r]\<rparr>) \<and>
    se_id r = av_uuid E \<and> se_revoked r = None \<and> se_user r = userId"
proof -
  define r where "r = \<lparr>se_id = av_uuid E, se_user = userId, se_hash = av_hash E (av_refresh E userId (av_uuid E)),
    se_userAgent = map_option (take 512) (mt_userAgent meta), se_ip = mt_ip meta,
    se_expires = av_now E + ttlToMs (ac_refreshTtl C), se_revoked = None\<rparr>"
  have "\<exists>tokens. issue E C userId address meta s = (Inr tokens, s\<lparr>sessions := sessions s @ [r]\<rparr>)"
    using assms by (simp add: issue_def Let_def createSession_def seqp_def bindp_def ret_def r_def)
  moreover have "se_id r = av_uuid E" "se_revoked r = None" "se_user r = userId" by (simp_all add: r_def)
  ultimately show ?thesis by blast
qed

lemma rotateWrite_fresh:
  assumes "tfind se_id (se_id r) (sessions s) \<noteq> None" "tfind se_id (av_uuid E) (sessions s) = None"
  shows "\<exists>res t n. rotateWrite E C meta (r, u) s = (Inr res, t) \<and> se_id n = av_uuid E \<and> se_revoked n = None \<and>
    sessions t = tupdate se_id (se_id r) (\<lambda>x. x\<lparr>se_revoked := Some (av_now E)\<rparr>) (sessions s) @ [n]"
proof -
  let ?s1 = "s\<lparr>sessions := tupdate se_id (se_id r) (\<lambda>x. x\<lparr>se_revoked := Some (av_now E)\<rparr>) (sessions s)\<rparr>"
  have "tfind se_id (av_uuid E) (sessions ?s1) = None" using assms by (auto simp: tfind_tupdate)
  then obtain tokens n where "issue E C (se_user r) (u_address u) meta ?s1 = (Inr tokens, ?s1\<lparr>sessions := sessions ?s1 @ [n]\<rparr>)"
    "se_id n = av_uuid E" "se_revoked n = None"
    using issue_fresh [of E ?s1 C "se_user r" "u_address u" meta] by blast
  then show ?thesis using assms(1) by (simp add: rotateWrite_def seqp_def bindp_def ret_def)
qed

lemma sample_rotates: "\<exists>res t. rotate (sample_auth_env ''s2'') sample_auth_config ''s1'' no_meta sample_auth_state = (Inr res, t)"
proof -
  have "\<exists>res t. rotateWrite (sample_auth_env ''s2'') sample_auth_config no_meta (sample_session, sample_user)
      sample_auth_state = (Inr res, t)"
    using rotateWrite_fresh [of sample_session sample_auth_state "sample_auth_env ''s2''" sample_auth_config no_meta sample_user]
    by (auto simp: sample_auth_state_def sample_session_def sample_auth_env_def)
  then show ?thesis by (auto simp: rotate_def sample_read)
qed

section \<open>Properties\<close>

text \<open>C15. A refresh token is good for one rotation: once it has been rotated, presenting it again, after
  any history of nonces, logins, refreshes and logouts, is refused, and revokes every session of its user.\<close>

theorem refresh_token_is_single_use:
  assumes "rotate E C tok meta s = (Inr res, t)" "auth_run C t u"
    and "av_verify E' tok = av_verify E tok" "av_hash E' tok = av_hash E tok"
  shows "\<exists>v. rotate E' C tok meta' u = (Inl (Unauthorized ''refresh token already used''), v) \<and>
    (\<forall>r \<in> set (sessions v). se_user r = fst (snd res) \<longrightarrow> se_revoked r \<noteq> None)"
proof -
  obtain p where read: "rotateRead E tok s = (Inr p, s)" and "write": "rotateWrite E C meta p s = (Inr res, t)"
    using assms(1) rotateRead_run by (auto simp: rotate_def bindp_Inr)
  obtain r x where p: "p = (r, x)" by (cases p)
  obtain sub jti where v: "av_verify E tok = Some (RefreshToken sub jti)" and f: "tfind se_id jti (sessions s) = Some r"
    and h: "se_hash r = av_hash E tok"
    using read [unfolded p rotateRead_run] by blast
  have id: "se_id r = jti" using tfind_SomeD [OF f] by simp
  note w = rotateWrite_run [OF "write" [unfolded p]]
  have "dead jti (se_hash r) (se_user r) u" using w(1) auth_run_dead [OF assms(2)] f id by simp
  then obtain v' where
    "rotateRead E' tok u = (Inl (Unauthorized ''refresh token already used''), v')"
    "\<forall>q \<in> set (sessions v'). se_user q = se_user r \<longrightarrow> se_revoked q \<noteq> None"
    using rotateRead_dead [of jti "se_hash r" "se_user r" u E' tok sub] assms(3,4) v h by auto
  moreover have "fst (snd res) = se_user r" using w(2) f id by simp
  ultimately show ?thesis by (auto simp: rotate_def)
qed

lemma refresh_token_is_single_use_witness:
  "\<exists>res t v. rotate (sample_auth_env ''s2'') sample_auth_config ''s1'' no_meta sample_auth_state = (Inr res, t) \<and>
     rotate (sample_auth_env ''s3'') sample_auth_config ''s1'' no_meta t =
       (Inl (Unauthorized ''refresh token already used''), v)"
proof -
  obtain res t where run: "rotate (sample_auth_env ''s2'') sample_auth_config ''s1'' no_meta sample_auth_state = (Inr res, t)"
    using sample_rotates by blast
  have same: "av_verify (sample_auth_env ''s3'') ''s1'' = av_verify (sample_auth_env ''s2'') ''s1''"
    "av_hash (sample_auth_env ''s3'') ''s1'' = av_hash (sample_auth_env ''s2'') ''s1''" by (simp_all add: sample_auth_env_def)
  from refresh_token_is_single_use [OF run auth_run.start same, of no_meta] run show ?thesis by blast
qed

text \<open>Two refreshes that both read before either writes both succeed: the check and the revocation are
  not one statement, so the second is not seen as a reuse, and two live sessions descend from one token.\<close>

theorem concurrent_refreshes_both_succeed:
  assumes "rotateRead E tok s = (Inr p, s)" "rotateRead E' tok s = (Inr p, s)"
    and "tfind se_id (av_uuid E) (sessions s) = None" "tfind se_id (av_uuid E') (sessions s) = None"
    and "av_uuid E \<noteq> av_uuid E'"
  shows "\<exists>a t b u. rotateWrite E C meta p s = (Inr a, t) \<and> rotateWrite E' C meta' p t = (Inr b, u) \<and>
    (\<exists>x y. tfind se_id (av_uuid E) (sessions u) = Some x \<and> se_revoked x = None \<and>
           tfind se_id (av_uuid E') (sessions u) = Some y \<and> se_revoked y = None)"
proof -
  obtain r w where p: "p = (r, w)" by (cases p)
  obtain sub jti where f: "tfind se_id jti (sessions s) = Some r" using assms(1) [unfolded p rotateRead_run] by blast
  then have r: "se_id r = jti" "tfind se_id (se_id r) (sessions s) = Some r" using tfind_SomeD [OF f] by auto
  have ne: "se_id r \<noteq> av_uuid E" "se_id r \<noteq> av_uuid E'" using r assms(3,4) by auto
  obtain a t n where t: "rotateWrite E C meta (r, w) s = (Inr a, t)" "se_id n = av_uuid E" "se_revoked n = None"
    "sessions t = tupdate se_id (se_id r) (\<lambda>x. x\<lparr>se_revoked := Some (av_now E)\<rparr>) (sessions s) @ [n]"
    using rotateWrite_fresh [of r s E C meta w] r(2) assms(3) by auto
  have "tfind se_id (se_id r) (sessions t) \<noteq> None" "tfind se_id (av_uuid E') (sessions t) = None"
    using t r assms(4,5) ne by (auto simp: tfind_append tfind_tupdate)
  then obtain b u m where u: "rotateWrite E' C meta' (r, w) t = (Inr b, u)" "se_id m = av_uuid E'" "se_revoked m = None"
    "sessions u = tupdate se_id (se_id r) (\<lambda>x. x\<lparr>se_revoked := Some (av_now E')\<rparr>) (sessions t) @ [m]"
    using rotateWrite_fresh [of r t E' C meta' w] by auto
  have "tfind se_id (av_uuid E) (sessions u) = Some n" "tfind se_id (av_uuid E') (sessions u) = Some m"
    using t u ne assms(3,4,5) by (simp_all add: tfind_append tfind_tupdate)
  then show ?thesis using t u unfolding p by blast
qed

lemma concurrent_refreshes_both_succeed_witness:
  "\<exists>a t b u. rotateWrite (sample_auth_env ''s2'') sample_auth_config no_meta (sample_session, sample_user) sample_auth_state = (Inr a, t) \<and>
     rotateWrite (sample_auth_env ''s3'') sample_auth_config no_meta (sample_session, sample_user) t = (Inr b, u)"
proof -
  have fresh: "tfind se_id (av_uuid (sample_auth_env ''s2'')) (sessions sample_auth_state) = None"
    "tfind se_id (av_uuid (sample_auth_env ''s3'')) (sessions sample_auth_state) = None"
    "av_uuid (sample_auth_env ''s2'') \<noteq> av_uuid (sample_auth_env ''s3'')"
    by (simp_all add: sample_auth_env_def sample_auth_state_def sample_session_def)
  from concurrent_refreshes_both_succeed [OF sample_read sample_read fresh] show ?thesis by blast
qed

text \<open>C16. A login needs a fresh nonce and a matching signature: tokens are issued only when the message's
  domain and chain are ours, it has not expired, the signature recovers to its address and the nonce is the
  live one stored for that address; the login consumes it, so the same message cannot log in again.\<close>

theorem login_is_single_use:
  assumes "verifyLogin E C message signature meta s = (Inr res, t)"
    and "av_parse E' = av_parse E" "av_recover E' = av_recover E"
  shows "(\<exists>f address nonce recovered. av_parse E message = Some f \<and> sf_address f = Some address \<and>
      sf_nonce f = Some nonce \<and> sf_domain f = Some (ac_domain C) \<and> sf_chainId f = Some (ac_chainId C) \<and>
      (\<forall>x. sf_expiration f = Some x \<longrightarrow> av_now E \<le> x) \<and>
      av_recover E message signature = Some recovered \<and> lower recovered = lower address \<and>
      getNonce (av_now E) (nonceKey (lower address)) s = Some nonce \<and> u_address (ar_user res) = lower address) \<and>
    (\<exists>e. fst (verifyLogin E' C message signature meta' t) = Inl (Unauthorized e))"
proof -
  obtain a where rd: "verifyRead E C message signature s = (Inr a, s)" and wr: "verifyWrite E C meta a s = (Inr res, t)"
    using assms(1) by (auto simp: verifyLogin_def bindp_Inr verifyRead_def gets_def throw_def ret_def
        split: siwe_result.splits if_splits)
  obtain nonce where ok: "siweVerify E C message signature = SiweOk a nonce"
    and st: "getNonce (av_now E) (nonceKey a) s = Some nonce"
    using rd by (auto simp: verifyRead_def bindp_Inr gets_def throw_def ret_def split: siwe_result.splits if_splits)
  obtain f address recovered where f: "av_parse E message = Some f" "sf_address f = Some address" "sf_nonce f = Some nonce"
    "sf_domain f = Some (ac_domain C)" "sf_chainId f = Some (ac_chainId C)"
    "\<forall>x. sf_expiration f = Some x \<longrightarrow> av_now E \<le> x" "av_recover E message signature = Some recovered"
    "lower recovered = lower address" "a = lower address"
    using ok by (auto simp: siweVerify_def present_def split: option.splits if_splits)
  have user: "u_address (ar_user res) = a"
    using wr tfind_SomeD [of u_address a "users s"]
    by (auto simp: verifyWrite_def seqp_def bindp_def upsertUser_def delNonce_def ret_def Let_def
        split: option.splits prod.splits sum.splits)
  have nr: "nonceRows t = filter (\<lambda>r. nr_key r \<noteq> nonceKey a) (nonceRows s)"
    using wr by (auto simp: verifyWrite_def seqp_def bindp_def upsertUser_def delNonce_def ret_def issue_def createSession_def
        Let_def split: option.splits prod.splits sum.splits if_splits)
  have none: "getNonce now (nonceKey a) t = None" for now
  proof -
    have "tfind nr_key (nonceKey a) (nonceRows t) = None" unfolding nr tfind_None_iff by auto
    then show ?thesis by (simp add: getNonce_def)
  qed
  have "\<exists>e. fst (verifyRead E' C message signature t) = Inl (Unauthorized e)"
  proof (cases "siweVerify E' C message signature")
    case (SiweOk b n)
    then have "b = a" using f assms(2,3)
      by (auto simp: siweVerify_def present_def split: option.splits if_splits)
    then show ?thesis using SiweOk none by (simp add: verifyRead_def)
  qed (simp add: verifyRead_def)
  then have "\<exists>e. fst (verifyLogin E' C message signature meta' t) = Inl (Unauthorized e)"
    by (auto simp: verifyLogin_def bindp_def split: prod.splits sum.splits)
  then show ?thesis using f st user by blast
qed

lemma sample_login:
  "\<exists>res t. verifyLogin (sample_auth_env ''s2'') sample_auth_config ''m'' ''sig'' no_meta sample_auth_state = (Inr res, t)"
proof -
  have low: "lower ''0xa'' = ''0xa''" by code_simp
  show ?thesis
    using low
    by (simp add: verifyLogin_def verifyRead_def siweVerify_def present_def sample_auth_env_def sample_auth_config_def
        getNonce_def sample_auth_state_def nonceKey_def verifyWrite_def upsertUser_def sample_user_def issue_def Let_def
        createSession_def sample_session_def seqp_def bindp_def delNonce_def ret_def gets_def modp_def)
qed

lemma login_is_single_use_witness:
  "\<exists>res t e. verifyLogin (sample_auth_env ''s2'') sample_auth_config ''m'' ''sig'' no_meta sample_auth_state = (Inr res, t) \<and>
     fst (verifyLogin (sample_auth_env ''s3'') sample_auth_config ''m'' ''sig'' no_meta t) = Inl (Unauthorized e)"
proof -
  obtain res t where run: "verifyLogin (sample_auth_env ''s2'') sample_auth_config ''m'' ''sig'' no_meta sample_auth_state = (Inr res, t)"
    using sample_login by blast
  have "av_parse (sample_auth_env ''s3'') = av_parse (sample_auth_env ''s2'')"
    "av_recover (sample_auth_env ''s3'') = av_recover (sample_auth_env ''s2'')" by (simp_all add: sample_auth_env_def)
  from login_is_single_use [OF run this, of no_meta] run show ?thesis by blast
qed

text \<open>Logging out with a token that carries no session id logs everybody out: \<open>revoke\<close> does not look at
  the token's type, and the absent id is a filter Prisma ignores, so any other token the refresh secret
  verifies (an access token, when both secrets are the same) revokes every live session of every user.\<close>

theorem logout_without_session_revokes_everyone:
  assumes "av_verify E tok = Some p" "jti_of p = None"
  shows "fst (logout E tok s) = Inr () \<and> (\<forall>r \<in> set (sessions (snd (logout E tok s))). se_revoked r \<noteq> None)"
  using assms by (auto simp: logout_def revoke_def revoke_where_def tmany_def)

lemma logout_without_session_revokes_everyone_witness:
  "list_all (\<lambda>r. se_revoked r \<noteq> None) (sessions (snd (logout (sample_auth_env ''s2'') ''acc'' sample_auth_state))) \<and>
   se_revoked sample_session = None"
  using logout_without_session_revokes_everyone [of "sample_auth_env ''s2''" "''acc''" "AccessToken ''u1'' ''0xa''" sample_auth_state]
  by (simp add: sample_auth_env_def jti_of_def sample_session_def list_all_iff)

end
