(* ===== verification/JsNumber.thy ===== *)
theory JsNumber
  imports Prelude Complex_Main
begin

text \<open>
  JavaScript numbers where the program meets them as text or as fractions: IEEE 754 doubles as rationals
  rounded to 53 significant bits (with the gradual underflow and the overflow of the format), the grammar
  of \<open>Number(string)\<close>, and the conversion \<open>BigInt(Math.round(x * 1e9))\<close> of a configured amount. The sign of
  a zero is not kept: no operation of the program depends on it.
\<close>

section \<open>Doubles\<close>

datatype js_float = Finite rat | Infinite bool | NaN

text \<open>The exponent of a positive rational: \<open>2 powi ulog x \<le> x < 2 powi (ulog x + 1)\<close>.\<close>

definition ulog :: "rat \<Rightarrow> int" where
  "ulog x = (let (p, q) = quotient_of x; e = int (floorlog 2 (nat p)) - int (floorlog 2 (nat q))
             in if 2 powi e \<le> x then e else e - 1)"

definition round_half_even :: "rat \<Rightarrow> int" where
  "round_half_even x = (let f = \<lfloor>x\<rfloor>; d = x - of_int f
                        in if 1 / 2 < d \<or> d = 1 / 2 \<and> odd f then f + 1 else f)"

definition round_at :: "rat \<Rightarrow> rat" where
  "round_at x = (let e = max (ulog x - 52) (- 1074) in of_int (round_half_even (x / 2 powi e)) * 2 powi e)"

definition to_double :: "rat \<Rightarrow> js_float" where
  "to_double x = (if x = 0 then Finite 0
     else let v = round_at \<bar>x\<bar> in if 2 ^ 1024 \<le> v then Infinite (0 < x) else Finite (sgn x * v))"

lemma ulog_bounds:
  assumes "0 < x"
  shows "2 powi ulog x \<le> x" "x < 2 powi (ulog x + 1)"
proof -
  obtain p q where pq: "quotient_of x = (p, q)" by fastforce
  then have x: "x = of_int p / of_int q" and q: "0 < q" using quotient_of_div quotient_of_denom_pos by auto
  then have p: "0 < p" using assms by (auto simp: zero_less_divide_iff)
  define a where "a = floorlog 2 (nat p)"
  define b where "b = floorlog 2 (nat q)"
  have "2 ^ (a - 1) \<le> nat p \<and> nat p < 2 ^ a" "2 ^ (b - 1) \<le> nat q \<and> nat q < 2 ^ b" "0 < a" "0 < b"
    using floorlog_bounds [of "nat p" 2] floorlog_bounds [of "nat q" 2] p q
    by (auto simp: a_def b_def floorlog_eq_zero_iff simp flip: neq0_conv)
  then have "(2::int) ^ (a - 1) \<le> p" "p < 2 ^ a" "(2::int) ^ (b - 1) \<le> q" "q < 2 ^ b" and ab: "0 < a" "0 < b"
    using p q by (simp_all add: nat_less_iff le_nat_iff)
  then have P: "(2::rat) ^ (a - 1) \<le> of_int p" "of_int p < (2::rat) ^ a"
    and Q: "(2::rat) ^ (b - 1) \<le> of_int q" "of_int q < (2::rat) ^ b"
    by (metis of_int_le_iff of_int_less_iff of_int_numeral of_int_power)+
  have pw: "(2::rat) powi (int a - int b) = 2 ^ a / 2 ^ b" for a b
    by (simp add: power_int_diff power_int_of_nat)
  have up: "x < 2 powi (int a - int b + 1)"
  proof -
    have "x < 2 ^ a / of_int q" using P(2) q by (simp add: x divide_strict_right_mono)
    also have "\<dots> \<le> 2 ^ a / 2 ^ (b - 1)" using Q(1) q by (intro divide_left_mono) auto
    also have "\<dots> = 2 powi (int a - int (b - 1))" by (simp add: pw)
    finally show ?thesis using ab by (simp add: of_nat_diff algebra_simps)
  qed
  have lo: "2 powi (int a - int b - 1) \<le> x"
  proof -
    have "2 powi (int a - int b - 1) = (2::rat) powi (int (a - 1) - int b)" using ab by (simp add: of_nat_diff algebra_simps)
    also have "\<dots> = 2 ^ (a - 1) / 2 ^ b" by (rule pw)
    also have "\<dots> \<le> of_int p / 2 ^ b" using P(1) by (simp add: divide_right_mono)
    also have "\<dots> \<le> of_int p / of_int q" using Q p q by (intro divide_left_mono) auto
    finally show ?thesis by (simp add: x)
  qed
  have u: "ulog x = (if 2 powi (int a - int b) \<le> x then int a - int b else int a - int b - 1)"
    by (simp add: ulog_def pq a_def b_def)
  show "2 powi ulog x \<le> x" using lo by (auto simp: u)
  show "x < 2 powi (ulog x + 1)" using up by (auto simp: u)
qed

lemma round_half_even_error: "\<bar>of_int (round_half_even x) - x\<bar> \<le> 1 / 2"
proof -
  define d where "d = x - of_int \<lfloor>x\<rfloor>"
  have "0 \<le> d" "d < 1" unfolding d_def by linarith+
  moreover have "of_int (round_half_even x) - x = (if 1 / 2 < d \<or> d = 1 / 2 \<and> odd \<lfloor>x\<rfloor> then 1 - d else - d)"
    by (simp add: round_half_even_def Let_def d_def)
  ultimately show ?thesis by (auto simp: abs_if)
qed

text \<open>A double is within one part in \<open>2 ^ 53\<close> of the rational it stands for, above the subnormal range.\<close>

lemma round_at_error:
  assumes "0 < x" "2 powi - 1022 \<le> x"
  shows "\<bar>round_at x - x\<bar> \<le> x / 2 ^ 53"
proof -
  define e where "e = max (ulog x - 52) (- 1074)"
  have "\<not> ulog x + 1 \<le> - 1022"
    using power_int_increasing [of "ulog x + 1" "- 1022" "2 :: rat"] assms(2) ulog_bounds(2) [OF assms(1)] by fastforce
  then have e: "e = ulog x - 52" by (simp add: e_def)
  have pos: "0 < (2::rat) powi e" by simp
  have "round_at x - x = (of_int (round_half_even (x / 2 powi e)) - x / 2 powi e) * 2 powi e"
    using pos by (simp add: round_at_def e_def [symmetric] field_simps)
  then have "\<bar>round_at x - x\<bar> = \<bar>of_int (round_half_even (x / 2 powi e)) - x / 2 powi e\<bar> * 2 powi e"
    using pos by (simp add: abs_mult)
  also have "\<dots> \<le> 1 / 2 * 2 powi e" using round_half_even_error pos by (intro mult_right_mono) auto
  also have "\<dots> = 2 powi ulog x / 2 ^ 53"
    by (simp add: e power_int_diff)
  also have "\<dots> \<le> x / 2 ^ 53" using ulog_bounds(1) [OF assms(1)] by (simp add: divide_right_mono)
  finally show ?thesis .
qed

text \<open>Whole numbers below \<open>2 ^ 53\<close> are doubles.\<close>

lemma round_half_even_of_int [simp]: "round_half_even (of_int n) = n"
  by (simp add: round_half_even_def)

lemma round_at_whole:
  assumes "0 < n" "n < 2 ^ 53"
  shows "round_at (of_int n) = of_int n"
proof -
  define e where "e = max (ulog (of_int n) - 52) (- 1074)"
  have "2 powi ulog (of_int n) \<le> (of_int n :: rat)" using assms(1) by (intro ulog_bounds) simp
  also have "\<dots> < of_int (2 ^ 53)" using assms(2) unfolding of_int_less_iff .
  also have "\<dots> = 2 powi 53" by simp
  finally have "\<not> 53 \<le> ulog (of_int n)" using power_int_increasing [of 53 "ulog (of_int n)" "2 :: rat"] by fastforce
  then have e: "e \<le> 0" by (simp add: e_def)
  then have "(2::rat) powi e = 1 / of_int (2 ^ nat (- e))" by (simp add: power_int_def field_simps)
  then have "of_int n / 2 powi e = (of_int (n * 2 ^ nat (- e)) :: rat)" by simp
  then show ?thesis
    unfolding round_at_def Let_def e_def [symmetric] round_half_even_of_int
    using \<open>of_int n / 2 powi e = _\<close> by (metis nonzero_eq_divide_eq power_int_eq_0_iff round_half_even_of_int zero_neq_numeral)
qed

lemma two_powers: "(2::rat) ^ 53 \<le> 2 ^ 1024"
  by (rule power_increasing) auto

lemma to_double_whole [simp]:
  assumes "\<bar>n\<bar> < 2 ^ 53"
  shows "to_double (of_int n) = Finite (of_int n)"
proof (cases "n = 0")
  case False
  then have "round_at (of_int \<bar>n\<bar>) = of_int \<bar>n\<bar>" using assms by (intro round_at_whole) auto
  moreover have "of_int \<bar>n\<bar> < (of_int (2 ^ 53) :: rat)" using assms unfolding of_int_less_iff .
  then have "\<not> 2 ^ 1024 \<le> (of_int \<bar>n\<bar> :: rat)" using two_powers by (simp del: of_int_abs)
  ultimately show ?thesis using False by (simp add: to_double_def Let_def sgn_if)
qed (simp add: to_double_def)

section \<open>Amounts\<close>

text \<open>\<open>x * 1e9\<close>, \<open>Math.round\<close> and \<open>BigInt\<close>, which throws a \<open>RangeError\<close> on what is not finite.\<close>

definition times_1e9 :: "js_float \<Rightarrow> js_float" where
  "times_1e9 x = (case x of Finite a \<Rightarrow> to_double (a * 10 ^ 9) | _ \<Rightarrow> x)"

definition js_round :: "js_float \<Rightarrow> js_float" where
  "js_round x = (case x of Finite a \<Rightarrow> Finite (of_int \<lfloor>a + 1 / 2\<rfloor>) | _ \<Rightarrow> x)"

text \<open>A whole number, as \<open>Number.isInteger\<close> tells it; \<open>BigInt(x)\<close> of it.\<close>

definition whole :: "js_float \<Rightarrow> int option" where
  "whole x = (case x of Finite a \<Rightarrow> if of_int \<lfloor>a\<rfloor> = a then Some \<lfloor>a\<rfloor> else None | _ \<Rightarrow> None)"

definition billionths :: "js_float \<Rightarrow> int option" where
  "billionths x = whole (js_round (times_1e9 x))"

lemma billionths_cases:
  "billionths (Finite a) = (case to_double (a * 10 ^ 9) of Finite b \<Rightarrow> Some \<lfloor>b + 1 / 2\<rfloor> | _ \<Rightarrow> None)"
  "billionths (Infinite b) = None" "billionths NaN = None"
  by (auto simp: billionths_def whole_def js_round_def times_1e9_def split: js_float.split)

text \<open>An amount with at most nine decimals survives: two roundings of one part in \<open>2 ^ 53\<close> cannot move a whole
  number of billionths below \<open>2 ^ 50\<close> by half a unit.\<close>

lemma nearD: "\<bar>a - b\<bar> \<le> e \<Longrightarrow> a \<le> b + e" "\<bar>a - b\<bar> \<le> e \<Longrightarrow> b - e \<le> a" for a b e :: rat
  by (simp_all add: abs_le_iff)

lemma to_double_near:
  assumes "0 < x" "1 / 10 ^ 10 \<le> x" "x \<le> 2 ^ 60"
  obtains d where "to_double x = Finite d" "\<bar>d - x\<bar> \<le> x / 2 ^ 53"
proof -
  have "(2::rat) powi - 1022 \<le> 1 / 10 ^ 10"
    using power_int_increasing [of "- 1022" "- 34" "2 :: rat"] by (simp add: power_int_minus)
  then have near: "\<bar>round_at x - x\<bar> \<le> x / 2 ^ 53" using assms by (intro round_at_error) auto
  have "round_at x - x \<le> x / 2 ^ 53" using near by (rule order_trans [OF abs_ge_self])
  then have "round_at x < 2 ^ 62" using assms(3) by simp
  also have "\<dots> \<le> (2::rat) ^ 1024" by (rule power_increasing) auto
  finally have "to_double x = Finite (round_at x)" using assms(1) by (simp add: to_double_def Let_def not_le)
  then show ?thesis using near that by blast
qed

lemma billionths_exact:
  assumes "0 \<le> n" "n \<le> 2 ^ 50"
  shows "billionths (to_double (of_int n / 10 ^ 9)) = Some n"
proof (cases "n = 0")
  case True
  then show ?thesis by (simp add: to_double_def billionths_cases floor_eq_iff)
next
  case False
  define N where "N = (of_int n :: rat)"
  have "of_int 1 \<le> N" "N \<le> of_int (2 ^ 50)" using False assms unfolding N_def of_int_le_iff by auto
  then have N: "1 \<le> N" "N \<le> 2 ^ 50" by simp_all
  have "0 < N / 10 ^ 9" "1 / 10 ^ 10 \<le> N / 10 ^ 9" "N / 10 ^ 9 \<le> 2 ^ 60" using N by simp_all
  then obtain d where d: "to_double (N / 10 ^ 9) = Finite d" "\<bar>d - N / 10 ^ 9\<bar> \<le> N / 10 ^ 9 / 2 ^ 53"
    by (rule to_double_near)
  have y: "\<bar>d * 10 ^ 9 - N\<bar> \<le> N / 2 ^ 53" using d(2) by (simp add: abs_le_iff field_simps)
  define z where "z = d * 10 ^ 9"
  have z: "z \<le> N + N / 2 ^ 53" "N - N / 2 ^ 53 \<le> z" using nearD [OF y] by (simp_all only: z_def)
  then have "0 < z" "1 / 10 ^ 10 \<le> z" "z \<le> 2 ^ 60" using N by simp_all
  then obtain r where r: "to_double z = Finite r" "\<bar>r - z\<bar> \<le> z / 2 ^ 53" by (rule to_double_near)
  have "r < N + 1 / 2" "N - 1 / 2 < r" using nearD [OF r(2)] z N by simp_all
  then have "\<lfloor>r + 1 / 2\<rfloor> = n" by (simp add: floor_eq_iff N_def)
  then show ?thesis using d(1) r(1) by (simp add: billionths_cases N_def z_def)
qed

section \<open>\<open>Number(string)\<close>\<close>

text \<open>\<open>StrUnsignedDecimalLiteral\<close>: digits with an optional fraction and exponent, or \<open>Infinity\<close>. \<open>None\<close> is what
  the grammar does not generate.\<close>

definition digit :: "char \<Rightarrow> bool" where
  "digit c = (digit_val c \<noteq> None)"

definition fraction_part :: "string \<Rightarrow> string \<times> string" where
  "fraction_part s = (case s of [] \<Rightarrow> ([], [])
     | c # cs \<Rightarrow> if c = CHR ''.'' then (takeWhile digit cs, dropWhile digit cs) else ([], s))"

definition exponent_part :: "string \<Rightarrow> int option" where
  "exponent_part s = (case s of [] \<Rightarrow> Some 0
     | c # cs \<Rightarrow> if c \<notin> set ''eE'' then None
         else (case cs of [] \<Rightarrow> None
           | d # ds \<Rightarrow> if d = CHR ''-'' then map_option uminus (bigint_unsigned ds)
                     else if d = CHR ''+'' then bigint_unsigned ds else bigint_unsigned cs))"

definition decimal_literal :: "string \<Rightarrow> rat option" where
  "decimal_literal s =
     (let whole = takeWhile digit s; (frac, rest) = fraction_part (dropWhile digit s)
      in if whole @ frac = [] then None
         else (case (digits_val 0 (whole @ frac), exponent_part rest) of
             (Some m, Some e) \<Rightarrow> Some (of_nat m * 10 powi (e - int (length frac)))
           | _ \<Rightarrow> None))"

definition unsigned_number :: "string \<Rightarrow> js_float" where
  "unsigned_number s = (if s = ''Infinity'' then Infinite True
     else (case decimal_literal s of None \<Rightarrow> NaN | Some x \<Rightarrow> to_double x))"

definition negated :: "js_float \<Rightarrow> js_float" where
  "negated x = (case x of Finite a \<Rightarrow> Finite (- a) | Infinite b \<Rightarrow> Infinite (\<not> b) | NaN \<Rightarrow> NaN)"

definition number_of_string :: "string \<Rightarrow> js_float" where
  "number_of_string s =
     (let t = js_trim s
      in if t = [] then Finite 0
         else if 2 < length t \<and> t ! 0 = CHR ''0'' \<and> t ! 1 \<in> set ''xXoObB''
           then (case radix_digits (if t ! 1 \<in> set ''xX'' then 16 else if t ! 1 \<in> set ''oO'' then 8 else 2)
                   0 (drop 2 t) of None \<Rightarrow> NaN | Some n \<Rightarrow> to_double (of_nat n))
         else if hd t = CHR ''-'' then negated (unsigned_number (tl t))
         else if hd t = CHR ''+'' then unsigned_number (tl t)
         else unsigned_number t)"

end
