(* ===== verification/MarketViews.thy ===== *)
theory MarketViews
  imports Settlement ProcessorState
begin

text \<open>
  What the public API serves: \<open>src/src/markets/market.serializer.ts\<close>, \<open>markets.service.ts\<close>,
  \<open>src/src/positions/positions.service.ts\<close>, \<open>src/src/trades/trades.service.ts\<close>,
  \<open>src/src/common/utils/decimal.ts\<close> and the pagination of \<open>common/dto/pagination.dto.ts\<close>. A date in a view is
  kept as its milliseconds (the source prints the ISO string); viem's \<open>formatUnits\<close> is a parameter, as
  is the order of rows the database is asked for by a column nobody models (\<open>createdAt\<close>, \<open>updatedAt\<close>).
\<close>

section \<open>Decimals\<close>

definition toStr :: "int \<Rightarrow> string" where
  "toStr v = dec v"

text \<open>\<open>Decimal.prototype.toString\<close>: exponent notation from \<open>1e21\<close> on.\<close>

definition strip_zeros :: "string \<Rightarrow> string" where
  "strip_zeros s = rev (dropWhile (\<lambda>c. c = CHR ''0'') (rev s))"

definition decimal_toString :: "int \<Rightarrow> string" where
  "decimal_toString v =
     (if \<bar>v\<bar> < 10 ^ 21 then dec v
      else (let ds = dec \<bar>v\<bar>; rest = strip_zeros (tl ds)
            in (if v < 0 then ''-'' else []) @ [hd ds] @ (if rest = [] then [] else CHR ''.'' # rest) @
               ''e+'' @ dec (int (length ds) - 1)))"

definition toHuman :: "(int \<Rightarrow> int \<Rightarrow> string) \<Rightarrow> int \<Rightarrow> int \<Rightarrow> string option" where
  "toHuman formatUnits v decimals = Some (formatUnits v decimals)"

definition wadToProbability :: "(int \<Rightarrow> int \<Rightarrow> string) \<Rightarrow> int \<Rightarrow> string option" where
  "wadToProbability formatUnits v = toHuman formatUnits v 18"

section \<open>Markets\<close>

record outcome_view =
  ov_index :: int
  ov_label :: string
  ov_priceWad :: string
  ov_probability :: "string option"
  ov_shares :: string

record resolution_view =
  rv_phase :: resolution_phase
  rv_proposedOutcome :: "int option"
  rv_proposer :: "string option"
  rv_bonded :: bool
  rv_bond :: string
  rv_disputeDeadline :: "int option"
  rv_disputable :: bool
  rv_finalizable :: bool
  rv_disputer :: "string option"
  rv_counterOutcome :: "int option"
  rv_disputerBond :: string
  rv_arbitrationDeadline :: "int option"
  rv_route :: "resolution_route option"
  rv_settledOutcome :: "int option"
  rv_reward :: string
  rv_forfeited :: string
  rv_loser :: "string option"
  rv_settledAt :: "int option"

record market_view =
  mv_id :: string
  mv_address :: string
  mv_marketId :: string
  mv_title :: string
  mv_description :: string
  mv_imageUrl :: "string option"
  mv_category :: "string option"
  mv_status :: market_status
  mv_tradingOpen :: bool
  mv_resolutionRules :: string
  mv_startTime :: int
  mv_notOpenYet :: bool
  mv_closeTime :: int
  mv_winningOutcomeId :: "int option"
  mv_collateral :: string
  mv_collateralDecimals :: int
  mv_alpha :: string
  mv_sStar :: string
  mv_seed :: string
  mv_pot :: string
  mv_potHuman :: "string option"
  mv_surplus :: "string option"
  mv_outcomeCount :: int
  mv_outcomes :: "outcome_view list"
  mv_resolution :: "resolution_view option"

definition isTradingOpen :: "int \<Rightarrow> market \<Rightarrow> bool" where
  "isTradingOpen now m \<longleftrightarrow> m_status m = TRADING \<and> m_startTime m \<le> now \<and> now < m_closeTime m"

definition isNotOpenYet :: "int \<Rightarrow> market \<Rightarrow> bool" where
  "isNotOpenYet now m \<longleftrightarrow> m_status m = TRADING \<and> now < m_startTime m"

definition isAwaitingProposal :: "int \<Rightarrow> market \<Rightarrow> proposal option \<Rightarrow> bool" where
  "isAwaitingProposal now m r \<longleftrightarrow> m_status m = TRADING \<and> m_closeTime m \<le> now \<and>
     (case r of None \<Rightarrow> True | Some p \<Rightarrow> r_phase p = NONE)"

definition outcomeView :: "(int \<Rightarrow> int \<Rightarrow> string) \<Rightarrow> outcome \<Rightarrow> outcome_view" where
  "outcomeView formatUnits o1 = \<lparr>ov_index = o_index o1, ov_label = o_label o1, ov_priceWad = toStr (o_price o1),
     ov_probability = wadToProbability formatUnits (o_price o1), ov_shares = toStr (o_shares o1)\<rparr>"

definition resolutionView :: "int \<Rightarrow> proposal option \<Rightarrow> resolution_view option" where
  "resolutionView now x = (case x of None \<Rightarrow> None | Some r \<Rightarrow>
     (let deadline = (case r_deadline r of None \<Rightarrow> 0 | Some d \<Rightarrow> d)
      in Some \<lparr>rv_phase = r_phase r, rv_proposedOutcome = r_proposed r, rv_proposer = r_proposer r,
           rv_bonded = r_bonded r, rv_bond = toStr (r_bond r), rv_disputeDeadline = r_deadline r,
           rv_disputable = (r_phase r = PROPOSED \<and> now \<le> deadline),
           rv_finalizable = (r_phase r = PROPOSED \<and> deadline < now),
           rv_disputer = r_disputer r, rv_counterOutcome = r_counter r, rv_disputerBond = toStr (r_disputerBond r),
           rv_arbitrationDeadline = r_arbDeadline r, rv_route = r_route r, rv_settledOutcome = r_settled r,
           rv_reward = toStr (r_reward r), rv_forfeited = toStr (r_forfeited r), rv_loser = r_loser r,
           rv_settledAt = r_settledAt r\<rparr>))"

definition byIndex :: "outcome \<Rightarrow> outcome \<Rightarrow> int" where
  "byIndex a b = o_index a - o_index b"

definition marketView ::
  "(int \<Rightarrow> int \<Rightarrow> string) \<Rightarrow> int \<Rightarrow> int \<Rightarrow> market \<Rightarrow> outcome list \<Rightarrow> proposal option \<Rightarrow> market_view" where
  "marketView formatUnits decimals now m outs r =
     \<lparr>mv_id = m_id m, mv_address = m_address m, mv_marketId = dec (m_marketId m), mv_title = m_title m,
      mv_description = m_description m, mv_imageUrl = m_imageUrl m, mv_category = m_categoryKey m,
      mv_status = m_status m, mv_tradingOpen = isTradingOpen now m, mv_resolutionRules = m_rules m,
      mv_startTime = m_startTime m, mv_notOpenYet = isNotOpenYet now m, mv_closeTime = m_closeTime m,
      mv_winningOutcomeId = m_winning m, mv_collateral = m_collateral m, mv_collateralDecimals = decimals,
      mv_alpha = toStr (m_alpha m), mv_sStar = toStr (m_sStar m), mv_seed = toStr (m_seed m),
      mv_pot = decimal_toString (m_pot m), mv_potHuman = toHuman formatUnits (m_pot m) decimals,
      mv_surplus = map_option toStr (m_surplus m), mv_outcomeCount = m_outcomeCount m,
      mv_outcomes = map (outcomeView formatUnits) (js_sort byIndex outs), mv_resolution = resolutionView now r\<rparr>"

text \<open>The rows \<open>include\<close> joins to a market.\<close>

definition outcomesOf :: "'a db_scheme \<Rightarrow> market \<Rightarrow> outcome list" where
  "outcomesOf s m = filter (\<lambda>x. o_ref x = m_id m) (outcomes s)"

definition resolutionOf :: "'a db_scheme \<Rightarrow> market \<Rightarrow> proposal option" where
  "resolutionOf s m = List.find (\<lambda>r. r_ref r = Some (m_id m)) (proposals s)"

definition viewOf :: "(int \<Rightarrow> int \<Rightarrow> string) \<Rightarrow> int \<Rightarrow> int \<Rightarrow> 'a db_scheme \<Rightarrow> market \<Rightarrow> market_view" where
  "viewOf formatUnits decimals now s m = marketView formatUnits decimals now m (outcomesOf s m) (resolutionOf s m)"

section \<open>Reading markets\<close>

datatype market_sort = ByCloseTime | ByPot | ByCreatedAt

record list_dto =
  ld_status :: "market_status option"
  ld_category :: "string option"
  ld_search :: "string option"
  ld_openOnly :: bool
  ld_sort :: market_sort
  ld_descending :: bool
  ld_limit :: nat
  ld_offset :: nat

definition orderBy :: "(market \<Rightarrow> int) \<Rightarrow> market_sort \<Rightarrow> market \<Rightarrow> int" where
  "orderBy createdAt sorting m = (case sorting of ByCloseTime \<Rightarrow> m_closeTime m | ByPot \<Rightarrow> m_pot m | ByCreatedAt \<Rightarrow> createdAt m)"

fun contains_ci :: "string \<Rightarrow> string \<Rightarrow> bool" where
  "contains_ci needle hay = text_includes (lower needle) (lower hay)"

text \<open>An absent or empty filter is falsy.\<close>

definition listed :: "int \<Rightarrow> list_dto \<Rightarrow> market \<Rightarrow> bool" where
  "listed now q m \<longleftrightarrow>
     (if ld_openOnly q then m_status m = TRADING \<and> now < m_closeTime m
      else (case ld_status q of None \<Rightarrow> True | Some st \<Rightarrow> m_status m = st)) \<and>
     (case truthy (ld_category q) of None \<Rightarrow> True | Some c \<Rightarrow> m_categoryKey m = Some c) \<and>
     (case truthy (ld_search q) of None \<Rightarrow> True | Some x \<Rightarrow> contains_ci x (m_title m))"

record 'a paginated =
  pg_items :: "'a list"
  pg_total :: nat
  pg_limit :: nat
  pg_offset :: nat

definition page :: "nat \<Rightarrow> nat \<Rightarrow> ('a \<Rightarrow> int) \<Rightarrow> bool \<Rightarrow> 'a list \<Rightarrow> 'a list" where
  "page offset limit key desc rows =
     take limit (drop offset (js_sort (\<lambda>a b. if desc then key b - key a else key a - key b) rows))"

definition paginate :: "'a list \<Rightarrow> nat \<Rightarrow> nat \<Rightarrow> nat \<Rightarrow> 'a paginated" where
  "paginate items n limit offset = \<lparr>pg_items = items, pg_total = n, pg_limit = limit, pg_offset = offset\<rparr>"

definition listMarkets ::
  "(int \<Rightarrow> int \<Rightarrow> string) \<Rightarrow> int \<Rightarrow> int \<Rightarrow> (market \<Rightarrow> int) \<Rightarrow> list_dto \<Rightarrow> 'a db_scheme \<Rightarrow> market_view paginated" where
  "listMarkets formatUnits decimals now createdAt q s =
     (let rows = filter (listed now q) (markets s)
      in paginate (map (viewOf formatUnits decimals now s)
             (page (ld_offset q) (ld_limit q) (orderBy createdAt (ld_sort q)) (ld_descending q) rows))
           (length rows) (ld_limit q) (ld_offset q))"

definition getById :: "(int \<Rightarrow> int \<Rightarrow> string) \<Rightarrow> int \<Rightarrow> int \<Rightarrow> string \<Rightarrow> 'a db_scheme \<Rightarrow> market_view option" where
  "getById formatUnits decimals now ident s = map_option (viewOf formatUnits decimals now s) (tfind m_id ident (markets s))"

definition getByChainId ::
  "(int \<Rightarrow> int \<Rightarrow> string) \<Rightarrow> int \<Rightarrow> int \<Rightarrow> string \<Rightarrow> int \<Rightarrow> 'a db_scheme \<Rightarrow> market_view option" where
  "getByChainId formatUnits decimals now address marketId s =
     map_option (viewOf formatUnits decimals now s) (tfind market_key (lower address, marketId) (markets s))"

section \<open>Positions\<close>

datatype valuation = Worth string | NotDerivable | Throws

definition markToMarket :: "market \<Rightarrow> position \<Rightarrow> outcome option \<Rightarrow> valuation" where
  "markToMarket m p out = (case decimal_bigint (p_shares p) of
     None \<Rightarrow> Throws
   | Some shares \<Rightarrow>
      if shares = 0 then Worth ''0''
      else if m_status m = RESOLVED then Worth (if Some (p_outcome p) = m_winning m then dec shares else ''0'')
      else if m_status m = INVALID then Worth (toStr (p_cost p))
      else (case out of
          None \<Rightarrow> NotDerivable
        | Some x \<Rightarrow> (case decimal_bigint (o_price x) of
            None \<Rightarrow> Throws
          | Some price \<Rightarrow> Worth (dec (bigint_div (shares * price) (10 ^ 18))))))"

record position_view =
  pv_marketRef :: string
  pv_marketTitle :: string
  pv_marketStatus :: market_status
  pv_marketAddress :: string
  pv_marketOnChainId :: string
  pv_collateral :: string
  pv_account :: string
  pv_outcomeIndex :: int
  pv_outcomeLabel :: string
  pv_shares :: string
  pv_costBasis :: string
  pv_realizedPnl :: string
  pv_redeemed :: bool
  pv_currentPriceWad :: "string option"
  pv_winning :: "int option"
  pv_markToMarket :: valuation

definition positionView :: "'a db_scheme \<Rightarrow> position \<Rightarrow> position_view option" where
  "positionView s p = (case tfind m_id (p_ref p) (markets s) of None \<Rightarrow> None | Some m \<Rightarrow>
     (let out = List.find (\<lambda>x. o_index x = p_outcome p) (outcomesOf s m)
      in Some \<lparr>pv_marketRef = p_ref p, pv_marketTitle = m_title m, pv_marketStatus = m_status m,
           pv_marketAddress = m_address m, pv_marketOnChainId = dec (m_marketId m), pv_collateral = m_collateral m,
           pv_account = p_account p, pv_outcomeIndex = p_outcome p,
           pv_outcomeLabel = (case out of None \<Rightarrow> [] | Some x \<Rightarrow> o_label x),
           pv_shares = toStr (p_shares p), pv_costBasis = toStr (p_cost p), pv_realizedPnl = toStr (p_pnl p),
           pv_redeemed = p_redeemed p, pv_currentPriceWad = map_option (\<lambda>x. toStr (o_price x)) out,
           pv_winning = m_winning m, pv_markToMarket = markToMarket m p out\<rparr>))"

text \<open>\<open>normalizeAddress\<close> throws on what viem's \<open>isAddress\<close>, a parameter, refuses.\<close>

definition normalizeAll :: "(string \<Rightarrow> bool) \<Rightarrow> string list \<Rightarrow> string list option" where
  "normalizeAll isAddress xs = (if list_all isAddress xs then Some (remdups (map lower xs)) else None)"

definition forAccounts :: "(string \<Rightarrow> bool) \<Rightarrow> string list \<Rightarrow> 'a db_scheme \<Rightarrow> position list option" where
  "forAccounts isAddress raw s = (case normalizeAll isAddress raw of
     None \<Rightarrow> None
   | Some accounts \<Rightarrow> Some (filter (\<lambda>p. p_account p \<in> set accounts \<and> 0 < p_shares p) (positions s)))"

definition forMarketAccount :: "(string \<Rightarrow> bool) \<Rightarrow> string \<Rightarrow> string \<Rightarrow> 'a db_scheme \<Rightarrow> position list option" where
  "forMarketAccount isAddress ref raw s = (if \<not> isAddress raw then None
     else Some (js_sort (\<lambda>a b. p_outcome a - p_outcome b)
            (filter (\<lambda>p. p_ref p = ref \<and> p_account p = lower raw) (positions s))))"

text \<open>\<open>rows.map((r) => this.serialize(r))\<close>: one row that throws fails the request.\<close>

fun serializeAll :: "'a db_scheme \<Rightarrow> position list \<Rightarrow> position_view list option" where
  "serializeAll s [] = Some []"
| "serializeAll s (p # ps) = (case positionView s p of
     None \<Rightarrow> None
   | Some v \<Rightarrow> if pv_markToMarket v = Throws then None else map_option ((#) v) (serializeAll s ps))"

section \<open>Trades\<close>

record trade_view =
  tv_marketRef :: string
  tv_side :: trade_side
  tv_account :: string
  tv_outcomeIndex :: int
  tv_shares :: string
  tv_amount :: string
  tv_spreadWad :: string
  tv_priceWad :: string
  tv_txHash :: string
  tv_blockNumber :: string
  tv_timestamp :: int

definition tradeView :: "trade \<Rightarrow> trade_view" where
  "tradeView t = \<lparr>tv_marketRef = t_ref t, tv_side = t_side t, tv_account = t_account t, tv_outcomeIndex = t_outcome t,
     tv_shares = toStr (t_shares t), tv_amount = toStr (t_amount t), tv_spreadWad = toStr (t_spread t),
     tv_priceWad = toStr (t_price t), tv_txHash = t_tx t, tv_blockNumber = dec (t_block t), tv_timestamp = t_time t\<rparr>"

definition listTrades :: "(trade \<Rightarrow> bool) \<Rightarrow> nat \<Rightarrow> nat \<Rightarrow> 'a db_scheme \<Rightarrow> trade_view paginated" where
  "listTrades P limit offset s = (let rows = filter P (trades s)
     in paginate (map tradeView (page offset limit t_time True rows)) (length rows) limit offset)"

definition listByMarket :: "string \<Rightarrow> nat \<Rightarrow> nat \<Rightarrow> 'a db_scheme \<Rightarrow> trade_view paginated" where
  "listByMarket ref = listTrades (\<lambda>t. t_ref t = ref)"

definition listByAccount ::
  "(string \<Rightarrow> bool) \<Rightarrow> string \<Rightarrow> nat \<Rightarrow> nat \<Rightarrow> 'a db_scheme \<Rightarrow> trade_view paginated option" where
  "listByAccount isAddress raw limit offset s =
     (if isAddress raw then Some (listTrades (\<lambda>t. t_account t = lower raw) limit offset s) else None)"

definition recentTrades :: "nat \<Rightarrow> nat \<Rightarrow> 'a db_scheme \<Rightarrow> trade_view paginated" where
  "recentTrades = listTrades (\<lambda>_. True)"

section \<open>What the views promise\<close>

interpretation index_order: comparator byIndex
  by unfold_locales (auto simp: byIndex_def)

lemma market_window: "isTradingOpen now m \<Longrightarrow> \<not> isNotOpenYet now m \<and> \<not> isAwaitingProposal now m r"
  by (auto simp: isTradingOpen_def isNotOpenYet_def isAwaitingProposal_def)

lemma outcomes_in_order: "sorted_wrt (\<lambda>a b. ov_index a \<le> ov_index b) (mv_outcomes (marketView fmt decimals now m outs r))"
  using index_order.sorted_js_sort [of outs]
  by (simp add: marketView_def sorted_wrt_map outcomeView_def byIndex_def)

lemma page_length: "length (page offset limit key desc rows) \<le> limit"
  by (simp add: page_def)

lemma serializeAll_throws:
  assumes "p \<in> set ps" "(case positionView s p of None \<Rightarrow> True | Some v \<Rightarrow> pv_markToMarket v = Throws)"
  shows "serializeAll s ps = None"
  using assms by (induction ps) (auto split: option.splits)

lemma large_throws: "10 ^ 21 \<le> p_shares p \<Longrightarrow> markToMarket m p out = Throws"
  by (simp add: markToMarket_def decimal_bigint_def)

section \<open>Properties\<close>

text \<open>C28. What a position is worth: below the size where the stored decimal prints in exponent notation, a
  resolved market pays its winning shares one for one and its losing ones nothing, a voided one the cost
  basis, and an open one between nothing and the shares themselves; at that size and above, the value
  cannot be read and the whole portfolio of every account that asks with it fails.\<close>

theorem position_is_worth_its_claim:
  assumes "0 \<le> p_shares p"
  shows "(p_shares p < 10 ^ 21 \<longrightarrow>
      (m_status m = RESOLVED \<longrightarrow>
         markToMarket m p out = Worth (dec (if Some (p_outcome p) = m_winning m then p_shares p else 0))) \<and>
      (m_status m = INVALID \<and> p_shares p \<noteq> 0 \<longrightarrow> markToMarket m p out = Worth (dec (p_cost p))) \<and>
      (m_status m = TRADING \<and> out = Some x \<and> 0 \<le> o_price x \<and> o_price x \<le> 10 ^ 18 \<longrightarrow>
         (\<exists>v. markToMarket m p out = Worth (dec v) \<and> 0 \<le> v \<and> v \<le> p_shares p))) \<and>
    (10 ^ 21 \<le> p_shares p \<longrightarrow> markToMarket m p out = Throws \<and>
       (\<forall>s ps. p \<in> set ps \<longrightarrow> serializeAll s ps = None))"
proof (intro conjI impI allI)
  assume small: "p_shares p < 10 ^ 21"
  then have sh: "decimal_bigint (p_shares p) = Some (p_shares p)" using assms by (simp add: decimal_bigint_def)
  have z: "dec 0 = ''0''" by code_simp
  show "markToMarket m p out = Worth (dec (if Some (p_outcome p) = m_winning m then p_shares p else 0))"
    if "m_status m = RESOLVED" using that sh z by (simp add: markToMarket_def)
  show "markToMarket m p out = Worth (dec (p_cost p))" if "m_status m = INVALID \<and> p_shares p \<noteq> 0"
    using that sh by (simp add: markToMarket_def toStr_def)
  show "\<exists>v. markToMarket m p out = Worth (dec v) \<and> 0 \<le> v \<and> v \<le> p_shares p"
    if open_: "m_status m = TRADING \<and> out = Some x \<and> 0 \<le> o_price x \<and> o_price x \<le> 10 ^ 18"
  proof (cases "p_shares p = 0")
    case True
    then show ?thesis using sh z by (intro exI [of _ 0]) (simp add: markToMarket_def)
  next
    case False
    let ?v = "p_shares p * o_price x div 10 ^ 18"
    have "p_shares p * o_price x \<le> p_shares p * 10 ^ 18" using assms open_ by (intro mult_left_mono) auto
    then have "?v \<le> p_shares p * 10 ^ 18 div 10 ^ 18" by (intro zdiv_mono1) simp_all
    then have v: "0 \<le> ?v" "?v \<le> p_shares p" using assms open_ by (simp_all add: pos_imp_zdiv_nonneg_iff)
    have "decimal_bigint (o_price x) = Some (o_price x)" using open_ by (simp add: decimal_bigint_def)
    then have "markToMarket m p out = Worth (dec ?v)"
      using False sh open_ assms by (simp add: markToMarket_def)
    then show ?thesis using v by blast
  qed
next
  assume large: "10 ^ 21 \<le> p_shares p"
  then show "markToMarket m p out = Throws" by (rule large_throws)
  show "serializeAll s ps = None" if "p \<in> set ps" for s :: "'a db_scheme" and ps
    using that large by (intro serializeAll_throws [of p]) (auto simp: positionView_def Let_def large_throws split: option.splits)
qed

definition sample_holding :: "int \<Rightarrow> position" where
  "sample_holding n = \<lparr>p_ref = ''m'', p_account = ''0xa'', p_outcome = 1, p_shares = n, p_cost = 5, p_pnl = 0, p_redeemed = False\<rparr>"

lemma position_is_worth_its_claim_witness:
  "\<forall>m. markToMarket (m\<lparr>m_status := INVALID\<rparr>) (sample_holding 7) None = Worth (dec 5) \<and>
     markToMarket m (sample_holding (10 ^ 21)) None = Throws"
proof (intro allI conjI)
  fix m :: market
  have s: "p_shares (sample_holding n) = n" "p_cost (sample_holding n) = 5" for n by (simp_all add: sample_holding_def)
  show "markToMarket (m\<lparr>m_status := INVALID\<rparr>) (sample_holding 7) None = Worth (dec 5)"
    using conjunct1 [OF position_is_worth_its_claim [of "sample_holding 7" "m\<lparr>m_status := INVALID\<rparr>" None undefined]] s
    by simp
  show "markToMarket m (sample_holding (10 ^ 21)) None = Throws"
    by (rule conjunct1 [OF mp [OF conjunct2 [OF position_is_worth_its_claim [of _ m None undefined]]]]) (simp_all add: s)
qed

end
