(* ===== verification/AdminViews.thy ===== *)
theory AdminViews
  imports MarketViews MetadataHash
begin

text \<open>
  The operator's side: \<open>src/src/admin/admin.service.ts\<close> (drafts, categories, the operations queue),
  \<open>src/src/admin/admin-access.service.ts\<close> with \<open>roles.ts\<close> (authorization read from the chain and cached), and
  \<open>src/src/unlink/unlink-identity.service.ts\<close>. The chain's \<open>hasRole\<close>, the Keccak hash of a draft and the
  clock are parameters.
\<close>

section \<open>The operations queue\<close>

record admin_market_row =
  mr_id :: "string option"
  mr_title :: string
  mr_address :: string
  mr_marketId :: string
  mr_closeTime :: "int option"
  mr_resolver :: "string option"
  mr_outcomeCount :: "int option"
  mr_pot :: "string option"

definition marketRow :: "market \<Rightarrow> admin_market_row" where
  "marketRow m = \<lparr>mr_id = Some (m_id m), mr_title = m_title m, mr_address = m_address m, mr_marketId = dec (m_marketId m),
     mr_closeTime = Some (m_closeTime m), mr_resolver = Some (m_resolver m), mr_outcomeCount = Some (m_outcomeCount m),
     mr_pot = Some (toStr (m_pot m))\<rparr>"

record queue_row =
  qr_market :: admin_market_row
  qr_phase :: resolution_phase
  qr_proposer :: "string option"
  qr_proposed :: "int option"
  qr_bonded :: bool
  qr_bond :: string
  qr_disputer :: "string option"
  qr_counter :: "int option"
  qr_disputerBond :: string
  qr_deadline :: "int option"
  qr_arbDeadline :: "int option"

record operations_queue =
  oq_awaiting :: "admin_market_row list"
  oq_disputed :: "queue_row list"
  oq_finalizable :: "queue_row list"
  oq_counts :: "nat \<times> nat \<times> nat"

definition queueRow :: "'a db_scheme \<Rightarrow> proposal \<Rightarrow> queue_row" where
  "queueRow s r = \<lparr>qr_market = (case (case r_ref r of None \<Rightarrow> None | Some ref \<Rightarrow> tfind m_id ref (markets s)) of
       Some m \<Rightarrow> marketRow m
     | None \<Rightarrow> \<lparr>mr_id = None, mr_title = ''(market not yet indexed)'', mr_address = r_address r,
                mr_marketId = dec (r_marketId r), mr_closeTime = None, mr_resolver = None, mr_outcomeCount = None,
                mr_pot = None\<rparr>),
     qr_phase = r_phase r, qr_proposer = r_proposer r,
     qr_proposed = r_proposed r, qr_bonded = r_bonded r, qr_bond = toStr (r_bond r), qr_disputer = r_disputer r,
     qr_counter = r_counter r, qr_disputerBond = toStr (r_disputerBond r), qr_deadline = r_deadline r,
     qr_arbDeadline = r_arbDeadline r\<rparr>"

definition awaits :: "int \<Rightarrow> 'a db_scheme \<Rightarrow> market \<Rightarrow> bool" where
  "awaits now s m \<longleftrightarrow> m_status m = TRADING \<and> m_closeTime m < now \<and>
     (case resolutionOf s m of None \<Rightarrow> True | Some r \<Rightarrow> r_phase r = NONE)"

text \<open>\<open>orderBy: { disputeDeadline: 'asc' }\<close> puts a row without a deadline last.\<close>

definition byDeadlineNullsLast :: "proposal \<Rightarrow> proposal \<Rightarrow> int" where
  "byDeadlineNullsLast a b = (case (r_deadline a, r_deadline b) of
     (Some x, Some y) \<Rightarrow> x - y | (Some _, None) \<Rightarrow> -1 | (None, Some _) \<Rightarrow> 1 | (None, None) \<Rightarrow> 0)"

definition liveProposals :: "'a db_scheme \<Rightarrow> proposal list" where
  "liveProposals s = take 200 (js_sort byDeadlineNullsLast
     (filter (\<lambda>r. r_phase r = PROPOSED \<or> r_phase r = DISPUTED) (proposals s)))"

definition windowPassed :: "int \<Rightarrow> proposal \<Rightarrow> bool" where
  "windowPassed now r \<longleftrightarrow> (case r_deadline r of None \<Rightarrow> 0 | Some d \<Rightarrow> d) < now"

definition operationsQueue :: "int \<Rightarrow> 'a db_scheme \<Rightarrow> operations_queue" where
  "operationsQueue now s =
     (let awaiting = take 100 (js_sort (\<lambda>a b. m_closeTime a - m_closeTime b) (filter (awaits now s) (markets s)));
          live = liveProposals s;
          disputed = map (queueRow s) (filter (\<lambda>r. r_phase r = DISPUTED) live);
          finalizable = map (queueRow s) (filter (\<lambda>r. r_phase r = PROPOSED \<and> windowPassed now r) live)
      in \<lparr>oq_awaiting = map marketRow awaiting, oq_disputed = disputed, oq_finalizable = finalizable,
          oq_counts = (length awaiting, length disputed, length finalizable)\<rparr>)"

section \<open>Drafts and categories\<close>

record draft_dto =
  dd_title :: string
  dd_description :: "string option"
  dd_rules :: string
  dd_imageUrl :: "string option"
  dd_labels :: "string list"
  dd_categoryKey :: "string option"

definition draftMetadata :: "draft_dto \<Rightarrow> metadata" where
  "draftMetadata d = \<lparr>md_title = dd_title d, md_description = (case dd_description d of None \<Rightarrow> [] | Some x \<Rightarrow> x),
     md_rules = dd_rules d, md_imageUrl = dd_imageUrl d, md_labels = dd_labels d, md_categoryKey = dd_categoryKey d\<rparr>"

definition createDraft ::
  "(string \<Rightarrow> string) \<Rightarrow> draft_dto \<Rightarrow> string \<Rightarrow> 'a db_scheme \<Rightarrow> string \<times> 'a db_scheme" where
  "createDraft keccak d createdBy s =
     (let c = draftMetadata d; h = metadataHashOf keccak c
      in (h, s\<lparr>drafts := tupsert d_hash h
           \<lparr>d_hash = h, d_title = md_title c, d_description = md_description c, d_rules = md_rules c,
            d_imageUrl = md_imageUrl c, d_labels = md_labels c, d_categoryKey = md_categoryKey c,
            d_createdBy = lower createdBy, d_ref = None\<rparr> id (drafts s)\<rparr>))"

definition adminUpsertCategory :: "string \<Rightarrow> string \<Rightarrow> bool option \<Rightarrow> 'a db_scheme \<Rightarrow> 'a db_scheme" where
  "adminUpsertCategory key label enabled s = s\<lparr>categories := tupsert c_key key
     \<lparr>c_key = key, c_label = label, c_enabled = (case enabled of None \<Rightarrow> True | Some b \<Rightarrow> b)\<rparr>
     (\<lambda>c. c\<lparr>c_label := label, c_enabled := (case enabled of None \<Rightarrow> c_enabled c | Some b \<Rightarrow> b)\<rparr>) (categories s)\<rparr>"

text \<open>The lists of the operator's page and of the markets page. A draft's place in the table is its creation time;
  \<open>collate\<close> is the database's order of texts.\<close>

record draft_summary =
  ds_hash :: string
  ds_title :: string
  ds_labels :: "string list"
  ds_categoryKey :: "string option"
  ds_adopted :: bool
  ds_ref :: "string option"

definition listDrafts :: "nat \<Rightarrow> 'a db_scheme \<Rightarrow> draft_summary list" where
  "listDrafts limit s = map (\<lambda>d. \<lparr>ds_hash = d_hash d, ds_title = d_title d, ds_labels = d_labels d,
     ds_categoryKey = d_categoryKey d, ds_adopted = (d_ref d \<noteq> None), ds_ref = d_ref d\<rparr>) (take limit (rev (drafts s)))"

definition listAllCategories :: "(string \<Rightarrow> string \<Rightarrow> int) \<Rightarrow> 'a db_scheme \<Rightarrow> category list" where
  "listAllCategories collate s = js_sort (\<lambda>a b. collate (c_key a) (c_key b)) (categories s)"

definition listCategories :: "(string \<Rightarrow> string \<Rightarrow> int) \<Rightarrow> 'a db_scheme \<Rightarrow> category list" where
  "listCategories collate s = js_sort (\<lambda>a b. collate (c_label a) (c_label b)) (filter c_enabled (categories s))"

text \<open>A category is offered to markets exactly while it is enabled; the operator sees every one.\<close>

lemma offered_categories: "set (listCategories collate s) = {c \<in> set (listAllCategories collate s). c_enabled c}"
  by (simp add: listCategories_def listAllCategories_def)

section \<open>Roles\<close>

datatype role = DEFAULT_ADMIN | MARKET_CREATOR | RESOLVER | ARBITRATOR | BLOCKLIST | PAUSER | FEE_MANAGER | CURATOR

datatype contract_group = Engines | Factory | Resolvers | Blocklist | All

definition ROLE_SOURCE :: "role \<Rightarrow> contract_group" where
  "ROLE_SOURCE r = (case r of DEFAULT_ADMIN \<Rightarrow> All | MARKET_CREATOR \<Rightarrow> Engines | PAUSER \<Rightarrow> Engines
     | FEE_MANAGER \<Rightarrow> Engines | RESOLVER \<Rightarrow> Resolvers | ARBITRATOR \<Rightarrow> Resolvers
     | BLOCKLIST \<Rightarrow> Blocklist | CURATOR \<Rightarrow> Factory)"

record protocol_addresses =
  ad_lsLmsr :: "string option"
  ad_factory :: "string option"
  ad_trustedResolver :: "string option"
  ad_optimisticResolver :: "string option"
  ad_blocklist :: "string option"

definition contractsFor :: "protocol_addresses \<Rightarrow> contract_group \<Rightarrow> string list" where
  "contractsFor a g =
     (let engines = [ad_lsLmsr a]; resolvers = [ad_optimisticResolver a, ad_trustedResolver a];
          fac = [ad_factory a]; blocklist = [ad_blocklist a]
      in List.map_filter id (case g of Engines \<Rightarrow> engines | Resolvers \<Rightarrow> resolvers | Factory \<Rightarrow> fac
           | Blocklist \<Rightarrow> blocklist | All \<Rightarrow> engines @ resolvers @ fac @ blocklist))"

text \<open>\<open>chain.hasRole\<close>: \<open>None\<close> is a read that throws.\<close>

type_synonym role_oracle = "string \<Rightarrow> role \<Rightarrow> string \<Rightarrow> bool option"

definition grants :: "role_oracle \<Rightarrow> role \<Rightarrow> string \<Rightarrow> string \<Rightarrow> bool" where
  "grants chain r acct contract = (case chain contract r acct of
     None \<Rightarrow> False
   | Some b \<Rightarrow> b \<or> r \<noteq> DEFAULT_ADMIN \<and> chain contract DEFAULT_ADMIN acct = Some True)"

fun anyGrants :: "role_oracle \<Rightarrow> role \<Rightarrow> string \<Rightarrow> string list \<Rightarrow> bool" where
  "anyGrants chain r acct [] = False"
| "anyGrants chain r acct (c # cs) = (if grants chain r acct c then True else anyGrants chain r acct cs)"

text \<open>The cache of verdicts: the role and account, the verdict and when it expires.\<close>

record role_entry =
  re_key :: "role \<times> string"
  re_granted :: bool
  re_expires :: int

definition CACHE_TTL_SECONDS :: int where
  "CACHE_TTL_SECONDS = 30"

definition cachedRole :: "int \<Rightarrow> role \<times> string \<Rightarrow> role_entry list \<Rightarrow> bool option" where
  "cachedRole now k verdicts = (case tfind re_key k verdicts of
     None \<Rightarrow> None | Some e \<Rightarrow> if now < re_expires e then Some (re_granted e) else None)"

record access_env =
  xe_now :: int
  xe_ready :: bool
  xe_chain :: role_oracle
  xe_devAllowlist :: "string list"

definition hasRole ::
  "protocol_addresses \<Rightarrow> access_env \<Rightarrow> string \<Rightarrow> role \<Rightarrow> role_entry list \<Rightarrow> bool \<times> role_entry list" where
  "hasRole a E address r verdicts =
     (let acct = lower address
      in if \<not> xe_ready E then (acct \<in> set (xe_devAllowlist E), verdicts)
         else (case cachedRole (xe_now E) (r, acct) verdicts of
             Some b \<Rightarrow> (b, verdicts)
           | None \<Rightarrow>
               (let granted = anyGrants (xe_chain E) r acct (contractsFor a (ROLE_SOURCE r));
                    e = \<lparr>re_key = (r, acct), re_granted = granted, re_expires = xe_now E + CACHE_TTL_SECONDS * 1000\<rparr>
                in (granted, tupsert re_key (r, acct) e (\<lambda>_. e) verdicts))))"

fun hasAnyRole ::
  "protocol_addresses \<Rightarrow> access_env \<Rightarrow> string \<Rightarrow> role list \<Rightarrow> role_entry list \<Rightarrow> bool \<times> role_entry list" where
  "hasAnyRole a E address [] verdicts = (False, verdicts)"
| "hasAnyRole a E address (r # rs) verdicts =
     (case hasRole a E address r verdicts of (b, cache1) \<Rightarrow>
        if b then (True, cache1) else hasAnyRole a E address rs cache1)"

section \<open>Shielded identities\<close>

record identity =
  id_user :: string
  id_unlink :: "string option"

datatype bind_error = BoundToDifferent | BoundToOther | NoSuchUser

definition bind_identity :: "string \<Rightarrow> string \<Rightarrow> (identity list, bind_error, unit) proc" where
  "bind_identity userId address = (\<lambda>s. case tfind id_user userId s of
     None \<Rightarrow> (Inl NoSuchUser, s)
   | Some u \<Rightarrow>
       if truthy (id_unlink u) \<noteq> None \<and> id_unlink u \<noteq> Some address then (Inl BoundToDifferent, s)
       else if id_unlink u = Some address then (Inr (), s)
       else if \<exists>v \<in> set s. id_unlink v = Some address then (Inl BoundToOther, s)
       else (Inr (), tupdate id_user userId (\<lambda>v. v\<lparr>id_unlink := Some address\<rparr>) s))"

definition owns :: "string \<Rightarrow> string \<Rightarrow> identity list \<Rightarrow> bool" where
  "owns userId address s \<longleftrightarrow> address \<noteq> [] \<and> (case tfind id_user userId s of
     None \<Rightarrow> False | Some u \<Rightarrow> truthy (id_unlink u) \<noteq> None \<and> id_unlink u = Some address)"

interpretation role_cache: unique_store re_key "tfind re_key" "tupdate re_key" "tupsert re_key"
  by (rule list_table_store)

interpretation identity_rows: unique_store id_user "tfind id_user" "tupdate id_user" "tupsert id_user"
  by (rule list_table_store)

section \<open>Agreement of the readers\<close>

lemma finalizable_views:
  assumes "r_deadline p = Some d"
  shows "isDue now p \<longleftrightarrow> r_phase p = PROPOSED \<and> windowPassed now p"
    and "\<exists>v. resolutionView now (Some p) = Some v \<and> (rv_finalizable v \<longleftrightarrow> isDue now p) \<and>
      (r_phase p = PROPOSED \<longrightarrow> (rv_disputable v \<longleftrightarrow> \<not> rv_finalizable v))"
  using assms by (auto simp: isDue_def windowPassed_def resolutionView_def Let_def)

lemma liveProposals_all:
  assumes "length (filter (\<lambda>r. r_phase r = PROPOSED \<or> r_phase r = DISPUTED) (proposals s)) \<le> 200"
  shows "set (liveProposals s) = {r \<in> set (proposals s). r_phase r = PROPOSED \<or> r_phase r = DISPUTED}"
  using assms by (simp add: liveProposals_def)

section \<open>Verdicts on roles\<close>

lemma anyGrants_iff: "anyGrants chain r acct cs \<longleftrightarrow> (\<exists>c \<in> set cs. grants chain r acct c)"
  by (induction cs) auto

text \<open>The chain as time passes, and a cache that only holds verdicts it gave, none of them in the future.\<close>

definition honest :: "protocol_addresses \<Rightarrow> (int \<Rightarrow> role_oracle) \<Rightarrow> int \<Rightarrow> role_entry list \<Rightarrow> bool" where
  "honest a chain_at now verdicts \<longleftrightarrow> (\<forall>e \<in> set verdicts. re_expires e - CACHE_TTL_SECONDS * 1000 \<le> now \<and>
     (\<forall>r acct. re_key e = (r, acct) \<longrightarrow>
       re_granted e = anyGrants (chain_at (re_expires e - CACHE_TTL_SECONDS * 1000)) r acct (contractsFor a (ROLE_SOURCE r))))"

lemma honest_later: "honest a chain_at t verdicts \<Longrightarrow> t \<le> now \<Longrightarrow> honest a chain_at now verdicts"
  by (force simp: honest_def)

lemma hasRole_honest:
  assumes "honest a chain_at (xe_now E) verdicts" "xe_chain E = chain_at (xe_now E)"
  shows "honest a chain_at (xe_now E) (snd (hasRole a E address r verdicts))"
proof -
  define e where "e = \<lparr>re_key = (r, lower address),
    re_granted = anyGrants (xe_chain E) r (lower address) (contractsFor a (ROLE_SOURCE r)),
    re_expires = xe_now E + CACHE_TTL_SECONDS * 1000\<rparr>"
  have "snd (hasRole a E address r verdicts) = verdicts \<or>
      snd (hasRole a E address r verdicts) = tupsert re_key (r, lower address) e (\<lambda>_. e) verdicts"
    by (auto simp: hasRole_def Let_def e_def split: option.split)
  moreover have "honest a chain_at (xe_now E) (tupsert re_key (r, lower address) e (\<lambda>_. e) verdicts)"
    using assms unfolding honest_def by (auto simp: e_def dest!: set_tupsert)
  ultimately show ?thesis using assms(1) by auto
qed

lemma hasAnyRole_honest:
  assumes "honest a chain_at (xe_now E) verdicts" "xe_chain E = chain_at (xe_now E)"
  shows "honest a chain_at (xe_now E) (snd (hasAnyRole a E address rs verdicts))"
  using assms
proof (induction rs arbitrary: verdicts)
  case (Cons r rs)
  then show ?case using hasRole_honest [OF Cons.prems, of address r] by (auto split: prod.split)
qed simp

inductive role_history ::
  "protocol_addresses \<Rightarrow> (int \<Rightarrow> role_oracle) \<Rightarrow> int \<Rightarrow> role_entry list \<Rightarrow> bool" for a chain_at where
  cold: "role_history a chain_at t []"
| asked: "role_history a chain_at t verdicts \<Longrightarrow> t \<le> xe_now E \<Longrightarrow> xe_chain E = chain_at (xe_now E) \<Longrightarrow>
    role_history a chain_at (xe_now E) (snd (hasAnyRole a E address rs verdicts))"

lemma role_history_honest: "role_history a chain_at t verdicts \<Longrightarrow> honest a chain_at t verdicts"
proof (induction rule: role_history.induct)
  case (asked t verdicts E address rs)
  have "honest a chain_at (xe_now E) verdicts" by (rule honest_later [OF asked.IH asked.hyps(2)])
  then show ?case using asked.hyps(3) by (rule hasAnyRole_honest)
qed (simp add: honest_def)

lemma granted_by:
  "anyGrants chain r acct cs \<Longrightarrow>
   \<exists>c \<in> set cs. chain c r acct = Some True \<or> chain c DEFAULT_ADMIN acct = Some True"
proof -
  assume "anyGrants chain r acct cs"
  then obtain c where c: "c \<in> set cs" "grants chain r acct c" unfolding anyGrants_iff by blast
  then have "chain c r acct = Some True \<or> chain c DEFAULT_ADMIN acct = Some True"
    by (auto simp: grants_def split: option.splits)
  with c(1) show ?thesis by blast
qed

section \<open>Properties\<close>

text \<open>Everyone agrees on what can be settled: for a proposal with a deadline, the market page calls it
  finalizable, the operations queue lists it and the settlement keeper considers it due at the same
  moment, which is the moment it stops being disputable.\<close>

theorem readers_agree_on_finalizable:
  assumes "p \<in> set (proposals s)" "r_deadline p = Some d"
    and "length (filter (\<lambda>r. r_phase r = PROPOSED \<or> r_phase r = DISPUTED) (proposals s)) \<le> 200"
  shows "\<exists>v. resolutionView now (Some p) = Some v \<and> (rv_finalizable v \<longleftrightarrow> isDue now p) \<and>
    (isDue now p \<longrightarrow> queueRow s p \<in> set (oq_finalizable (operationsQueue now s))) \<and>
    (r_phase p = PROPOSED \<longrightarrow> (rv_disputable v \<longleftrightarrow> \<not> rv_finalizable v))"
proof -
  obtain v where v: "resolutionView now (Some p) = Some v" "rv_finalizable v \<longleftrightarrow> isDue now p"
    "r_phase p = PROPOSED \<longrightarrow> (rv_disputable v \<longleftrightarrow> \<not> rv_finalizable v)"
    using finalizable_views(2) [OF assms(2)] by blast
  have "queueRow s p \<in> set (oq_finalizable (operationsQueue now s))" if "isDue now p"
  proof -
    have pr: "r_phase p = PROPOSED" "windowPassed now p" using that finalizable_views(1) [OF assms(2)] by auto
    then have "p \<in> set (liveProposals s)" using assms(1) unfolding liveProposals_all [OF assms(3)] by simp
    then show ?thesis using pr by (simp add: operationsQueue_def Let_def)
  qed
  then show ?thesis using v by blast
qed

definition sample_proposals_db :: db where
  "sample_proposals_db = \<lparr>markets = [], outcomes = [], trades = [], positions = [], pricePoints = [], drafts = [],
     categories = [], proposals = [sample_due_proposal 50], bans = [], poolLeaves = [], cursors = []\<rparr>"

lemma readers_agree_on_finalizable_witness:
  "\<exists>v. resolutionView 60 (Some (sample_due_proposal 50)) = Some v \<and> rv_finalizable v \<and> \<not> rv_disputable v"
proof -
  have ok: "sample_due_proposal 50 \<in> set (proposals sample_proposals_db)" "r_deadline (sample_due_proposal 50) = Some 50"
    "length (filter (\<lambda>r. r_phase r = PROPOSED \<or> r_phase r = DISPUTED) (proposals sample_proposals_db)) \<le> 200"
    by (simp_all add: sample_proposals_db_def sample_due_proposal_def)
  have "isDue 60 (sample_due_proposal 50)" "r_phase (sample_due_proposal 50) = PROPOSED"
    by (simp_all add: isDue_def sample_due_proposal_def)
  then show ?thesis using readers_agree_on_finalizable [OF ok, of 60] by auto
qed

lemma hasRole_recent:
  assumes "honest a chain_at t0 verdicts" "t0 \<le> xe_now E" "xe_ready E" "xe_chain E = chain_at (xe_now E)"
    and "fst (hasRole a E address r verdicts)"
  shows "\<exists>t c. xe_now E - 30000 < t \<and> t \<le> xe_now E \<and> c \<in> set (contractsFor a (ROLE_SOURCE r)) \<and>
    (chain_at t c r (lower address) = Some True \<or> chain_at t c DEFAULT_ADMIN (lower address) = Some True)"
proof (cases "cachedRole (xe_now E) (r, lower address) verdicts")
  case None
  then have "anyGrants (chain_at (xe_now E)) r (lower address) (contractsFor a (ROLE_SOURCE r))"
    using assms(3-5) by (simp add: hasRole_def Let_def)
  from granted_by [OF this] show ?thesis by (intro exI [of _ "xe_now E"]) auto
next
  case (Some b)
  then have b: b using assms(3,5) by (simp add: hasRole_def Let_def)
  obtain e where f: "tfind re_key (r, lower address) verdicts = Some e" and e: "xe_now E < re_expires e" "re_granted e"
    using Some b by (auto simp: cachedRole_def split: option.splits if_splits)
  let ?t = "re_expires e - CACHE_TTL_SECONDS * 1000"
  have "e \<in> set verdicts" "re_key e = (r, lower address)" using tfind_SomeD [OF f] by auto
  then have "?t \<le> t0" and g: "anyGrants (chain_at ?t) r (lower address) (contractsFor a (ROLE_SOURCE r))"
    using assms(1) e(2) unfolding honest_def by auto
  then have "?t \<le> xe_now E" "xe_now E - 30000 < ?t" using assms(2) e(1) by (simp_all add: CACHE_TTL_SECONDS_def)
  then show ?thesis using granted_by [OF g] by blast
qed

lemma hasAnyRole_recent:
  assumes "honest a chain_at t0 verdicts" "t0 \<le> xe_now E" "xe_ready E" "xe_chain E = chain_at (xe_now E)"
    and "fst (hasAnyRole a E address rs verdicts)"
  shows "\<exists>r \<in> set rs. \<exists>t c. xe_now E - 30000 < t \<and> t \<le> xe_now E \<and> c \<in> set (contractsFor a (ROLE_SOURCE r)) \<and>
    (chain_at t c r (lower address) = Some True \<or> chain_at t c DEFAULT_ADMIN (lower address) = Some True)"
  using assms(1,2,5)
proof (induction rs arbitrary: t0 verdicts)
  case (Cons r rs)
  show ?case
  proof (cases "fst (hasRole a E address r verdicts)")
    case True
    from hasRole_recent [OF Cons.prems(1,2) assms(3,4) this] show ?thesis by auto
  next
    case False
    then have "fst (hasAnyRole a E address rs (snd (hasRole a E address r verdicts)))"
      using Cons.prems(3) by (simp split: prod.splits)
    moreover have "honest a chain_at (xe_now E) (snd (hasRole a E address r verdicts))"
      by (rule hasRole_honest [OF honest_later [OF Cons.prems(1,2)] assms(4)])
    ultimately show ?thesis using Cons.IH [of "xe_now E"] by auto
  qed
qed simp

definition sample_addresses :: protocol_addresses where
  "sample_addresses = \<lparr>ad_lsLmsr = Some ''0xe'', ad_factory = None, ad_trustedResolver = None,
     ad_optimisticResolver = None, ad_blocklist = None\<rparr>"

text \<open>A shielded address has one owner: binding keeps addresses distinct, never moves a user to another
  address, and is idempotent, so reading an address's balances is authorized for at most one user.\<close>

theorem shielded_address_has_one_owner:
  assumes "bind_identity userId address s = (out, t)" "distinct (map id_user s)"
    and "\<And>u v x. u \<in> set s \<Longrightarrow> v \<in> set s \<Longrightarrow> id_unlink u = Some x \<Longrightarrow> id_unlink v = Some x \<Longrightarrow> u = v"
  shows "(out = Inr () \<and> address \<noteq> [] \<longrightarrow> owns userId address t \<and> bind_identity userId address t = (Inr (), t)) \<and>
    (\<forall>u x. owns u x s \<longrightarrow> owns u x t) \<and>
    (\<forall>u v x. owns u x t \<and> owns v x t \<longrightarrow> u = v)"
proof -
  have one: "u = v" if "owns u x w" "owns v x w"
    "\<And>p q y. p \<in> set w \<Longrightarrow> q \<in> set w \<Longrightarrow> id_unlink p = Some y \<Longrightarrow> id_unlink q = Some y \<Longrightarrow> id_user p = id_user q" for u v x w
    using that tfind_SomeD unfolding owns_def by (fastforce split: option.splits)
  consider "t = s" "out \<noteq> Inr ()" | (same) u where "t = s" "out = Inr ()" "tfind id_user userId s = Some u" "id_unlink u = Some address"
    | (bound) u where "t = tupdate id_user userId (\<lambda>v. v\<lparr>id_unlink := Some address\<rparr>) s" "out = Inr ()"
      "tfind id_user userId s = Some u" "truthy (id_unlink u) = None \<or> id_unlink u = Some address"
      "\<forall>v \<in> set s. id_unlink v \<noteq> Some address"
    using assms(1) by (auto simp: bind_identity_def split: option.splits if_splits)
  then show ?thesis
  proof cases
    case 1
    then show ?thesis using one [of _ _ s] assms(3) by blast
  next
    case same
    then have "address \<noteq> [] \<longrightarrow> owns userId address s" by (simp add: owns_def truthy_def)
    moreover have "bind_identity userId address s = (Inr (), s)" using same by (simp add: bind_identity_def)
    ultimately show ?thesis using same one [of _ _ s] assms(3) by blast
  next
    case bound
    have f: "tfind id_user k t = (if k = userId then Some (u\<lparr>id_unlink := Some address\<rparr>) else tfind id_user k s)" for k
      using bound by (simp add: tfind_tupdate)
    have uniq: "id_user p = id_user q" if "p \<in> set t" "q \<in> set t" "id_unlink p = Some y" "id_unlink q = Some y" for p q y
      using that assms(3) bound(5) unfolding bound(1) tupdate_def by (auto split: if_splits)
    have "owns v x t" if "owns v x s" for v x
      using that bound(3-5) tfind_SomeD [OF bound(3)] by (auto simp: owns_def f split: option.splits)
    moreover have "address \<noteq> [] \<longrightarrow> owns userId address t" by (simp add: owns_def f truthy_def)
    moreover have "bind_identity userId address t = (Inr (), t)" by (simp add: bind_identity_def f)
    ultimately show ?thesis using one [of _ _ t] uniq by blast
  qed
qed

lemma shielded_address_has_one_owner_witness:
  "\<exists>t. bind_identity ''u'' ''x'' [\<lparr>id_user = ''u'', id_unlink = None\<rparr>] = (Inr (), t) \<and> owns ''u'' ''x'' t"
proof -
  have "bind_identity ''u'' ''x'' [\<lparr>id_user = ''u'', id_unlink = None\<rparr>] = (Inr (), [\<lparr>id_user = ''u'', id_unlink = Some ''x''\<rparr>])"
    by (simp add: bind_identity_def truthy_def tupdate_def)
  from shielded_address_has_one_owner [OF this] this show ?thesis by auto
qed

end
