(* ===== verification/Config.thy ===== *)
theory Config
  imports JsNumber AuthProps AdminViews PoolServiceProps Indexer
begin

text \<open>
  The configuration: \<open>src/src/config/env.validation.ts\<close>, the schema of the environment with its defaults and
  the guards across variables, and \<open>app-config.service.ts\<close>, which turns the validated environment into the
  configuration records of the components. Zod's \<open>url()\<close> (the constructor of \<open>URL\<close>) and the host of a URL
  are parameters. A default is kept as the text that parses to it.
\<close>

section \<open>The schema\<close>

datatype rule = OneOf "string list" | MinText nat | Url | UrlOrEmpty | Boolish | Csv | AddressOrEmpty | KeyOrEmpty
  | WholeIn int "int option" | Positive

datatype preset = Required | Preset string | Optional

datatype setting = Text string | Flag bool | Whole int | Decimal js_float | Items "string list" | Unset

type_synonym env = "string \<Rightarrow> setting"

definition hex :: "char \<Rightarrow> bool" where
  "hex c = (radix_val 16 c \<noteq> None)"

text \<open>\<open>/^0x[a-fA-F0-9]{40}$/\<close> and \<open>/^(0x)?[0-9a-fA-F]{64}$/\<close>.\<close>

definition address_shape :: "string \<Rightarrow> bool" where
  "address_shape s = (take 2 s = ''0x'' \<and> length s = 42 \<and> list_all hex (drop 2 s))"

definition key_shape :: "string \<Rightarrow> bool" where
  "key_shape s = (let t = (if take 2 s = ''0x'' then drop 2 s else s) in length t = 64 \<and> list_all hex t)"

fun split_comma :: "string \<Rightarrow> string list" where
  "split_comma [] = [[]]"
| "split_comma (c # cs) = (if c = CHR '','' then [] # split_comma cs
     else (case split_comma cs of [] \<Rightarrow> [[c]] | x # xs \<Rightarrow> (c # x) # xs))"

definition csv :: "string \<Rightarrow> string list" where
  "csv s = filter (\<lambda>x. x \<noteq> []) (map js_trim (split_comma s))"

text \<open>\<open>z.number().positive()\<close> lets \<open>Infinity\<close> through; \<open>int()\<close> does not.\<close>

definition positive :: "js_float \<Rightarrow> bool" where
  "positive x = (case x of Finite a \<Rightarrow> 0 < a | Infinite b \<Rightarrow> b | NaN \<Rightarrow> False)"

fun readRule :: "(string \<Rightarrow> bool) \<Rightarrow> rule \<Rightarrow> string \<Rightarrow> setting option" where
  "readRule url (OneOf xs) s = (if s \<in> set xs then Some (Text s) else None)"
| "readRule url (MinText n) s = (if n \<le> length s then Some (Text s) else None)"
| "readRule url Url s = (if url s then Some (Text s) else None)"
| "readRule url UrlOrEmpty s = (if url s \<or> s = [] then Some (Text s) else None)"
| "readRule url Boolish s = (if s \<in> {''true'', ''false'', ''1'', ''0''} then Some (Flag (s \<in> {''true'', ''1''})) else None)"
| "readRule url Csv s = Some (Items (csv s))"
| "readRule url AddressOrEmpty s = (if address_shape s \<or> s = [] then Some (Text s) else None)"
| "readRule url KeyOrEmpty s = (if key_shape s \<or> s = [] then Some (Text s) else None)"
| "readRule url (WholeIn lo hi) s = (case whole (number_of_string s) of None \<Rightarrow> None
     | Some n \<Rightarrow> if lo \<le> n \<and> (case hi of None \<Rightarrow> True | Some h \<Rightarrow> n \<le> h) then Some (Whole n) else None)"
| "readRule url Positive s = (if positive (number_of_string s) then Some (Decimal (number_of_string s)) else None)"

definition readVar :: "(string \<Rightarrow> bool) \<Rightarrow> string option \<Rightarrow> rule \<Rightarrow> preset \<Rightarrow> setting option" where
  "readVar url v r d = (case v of Some s \<Rightarrow> readRule url r s
     | None \<Rightarrow> (case d of Required \<Rightarrow> None | Preset s \<Rightarrow> readRule url r s | Optional \<Rightarrow> Some Unset))"

definition envSchema :: "(string \<times> rule \<times> preset) list" where
  "envSchema = [
     (''NODE_ENV'', OneOf [''development'', ''test'', ''production''], Preset ''development''),
     (''PORT'', WholeIn 1 None, Preset ''3000''),
     (''CORS_ORIGINS'', Csv, Preset ''http://localhost:5173''),
     (''APP_URL'', Url, Preset ''http://localhost:3000''),
     (''LOG_LEVEL'', OneOf [''fatal'', ''error'', ''warn'', ''info'', ''debug'', ''trace''], Preset ''info''),
     (''DATABASE_URL'', MinText 1, Required),
     (''REDIS_HOST'', MinText 0, Preset ''localhost''),
     (''REDIS_PORT'', WholeIn 1 None, Preset ''6379''),
     (''REDIS_PASSWORD'', MinText 0, Preset ''''),
     (''REDIS_DB'', WholeIn 0 None, Preset ''0''),
     (''AUTH_CHAIN_ID'', WholeIn 1 None, Preset ''10143''),
     (''AUTH_SIWE_STATEMENT'', MinText 0, Preset ''Sign in to Synthatic Prediction Market.''),
     (''JWT_ACCESS_SECRET'', MinText 16, Required),
     (''JWT_REFRESH_SECRET'', MinText 16, Required),
     (''JWT_ACCESS_TTL'', MinText 0, Preset ''900s''),
     (''JWT_REFRESH_TTL'', MinText 0, Preset ''30d''),
     (''AUTH_NONCE_TTL_SECONDS'', WholeIn 1 None, Preset ''300''),
     (''CHAIN_ID'', WholeIn 1 None, Preset ''10143''),
     (''RPC_HTTP_URL'', UrlOrEmpty, Preset ''''),
     (''RPC_WS_URL'', UrlOrEmpty, Preset ''''),
     (''INDEXER_ENABLED'', Boolish, Preset ''false''),
     (''INDEXER_START_BLOCK'', WholeIn 0 None, Preset ''0''),
     (''INDEXER_BATCH_BLOCKS'', WholeIn 1 None, Preset ''2000''),
     (''INDEXER_CONFIRMATIONS'', WholeIn 0 None, Preset ''2''),
     (''INDEXER_POLL_INTERVAL_MS'', WholeIn 1 None, Preset ''1000''),
     (''LS_LMSR_MARKET_ADDRESS'', AddressOrEmpty, Preset ''''),
     (''MARKET_FACTORY_ADDRESS'', AddressOrEmpty, Preset ''''),
     (''TRUSTED_RESOLVER_ADDRESS'', AddressOrEmpty, Preset ''''),
     (''OPTIMISTIC_RESOLVER_ADDRESS'', AddressOrEmpty, Preset ''''),
     (''RESOLVER_MULTISIG_ADDRESS'', AddressOrEmpty, Preset ''''),
     (''TRADING_BLOCKLIST_ADDRESS'', AddressOrEmpty, Preset ''''),
     (''USDC_ADDRESS'', AddressOrEmpty, Preset ''''),
     (''COLLATERAL_DECIMALS'', WholeIn 0 (Some 18), Preset ''6''),
     (''UNLINK_ENABLED'', Boolish, Preset ''false''),
     (''UNLINK_ENVIRONMENT'', MinText 1, Preset ''monad-testnet''),
     (''UNLINK_ENGINE_URL'', UrlOrEmpty, Preset ''''),
     (''UNLINK_API_KEY'', MinText 0, Preset ''''),
     (''UNLINK_APP_ID'', MinText 0, Preset ''''),
     (''UNLINK_TOKEN_TTL_SECONDS'', WholeIn 1 (Some 900), Preset ''900''),
     (''RELAY_ENABLED'', Boolish, Preset ''false''),
     (''NUMERA_FORWARDER_ADDRESS'', AddressOrEmpty, Preset ''''),
     (''RESOLUTION_FORWARDER_ADDRESS'', AddressOrEmpty, Preset ''''),
     (''RELAYER_PRIVATE_KEY'', KeyOrEmpty, Preset ''''),
     (''RELAY_MAX_GAS'', WholeIn 1 (Some 3000000), Preset ''700000''),
     (''RELAY_MAX_FEE_GWEI'', Positive, Preset ''200''),
     (''RELAY_ACCOUNT_LIMIT'', WholeIn 1 None, Preset ''20''),
     (''RELAY_ACCOUNT_WINDOW_SECONDS'', WholeIn 1 None, Preset ''60''),
     (''RELAY_DAILY_CAP_MON'', Positive, Preset ''50''),
     (''RELAY_MIN_BALANCE_MON'', Positive, Preset ''2''),
     (''PERMIT2_ADDRESS'', AddressOrEmpty, Preset ''0x000000000022D473030F116dDEE9F6B43aC78BA3''),
     (''POOL_ENTRYPOINT_ADDRESS'', AddressOrEmpty, Preset ''''),
     (''PRIVACY_POOL_ADDRESS'', AddressOrEmpty, Preset ''''),
     (''POOL_START_BLOCK'', WholeIn 0 None, Optional),
     (''SETTLEMENT_ENABLED'', Boolish, Preset ''true''),
     (''SETTLEMENT_POLL_INTERVAL_MS'', WholeIn 1 None, Preset ''20000''),
     (''ADMIN_DEV_ADDRESSES'', Csv, Preset ''''),
     (''THROTTLE_TTL_SECONDS'', WholeIn 1 None, Preset ''60''),
     (''THROTTLE_LIMIT'', WholeIn 1 None, Preset ''120'')]"

section \<open>\<open>validateEnv\<close>\<close>

datatype config_error = Invalid "string list" | IndexerNeedsRpc | UnlinkNeeds "string list" | EnvironmentAndEngineUrl
  | RelayNeeds "string list" | DevAddressesInProduction

fun textOf :: "setting \<Rightarrow> string" where
  "textOf (Text s) = s"
| "textOf _ = []"

fun flagOf :: "setting \<Rightarrow> bool" where
  "flagOf (Flag b) = b"
| "flagOf _ = False"

fun wholeOf :: "setting \<Rightarrow> int" where
  "wholeOf (Whole n) = n"
| "wholeOf _ = 0"

fun decimalOf :: "setting \<Rightarrow> js_float" where
  "decimalOf (Decimal x) = x"
| "decimalOf _ = NaN"

fun itemsOf :: "setting \<Rightarrow> string list" where
  "itemsOf (Items xs) = xs"
| "itemsOf _ = []"

text \<open>\<open>envSchema.safeParse\<close>: every variable is read, and every unreadable one is reported.\<close>

definition unreadable :: "(string \<Rightarrow> bool) \<Rightarrow> (string \<rightharpoonup> string) \<Rightarrow> string list" where
  "unreadable url vars = map fst (filter (\<lambda>(k, r, d). readVar url (vars k) r d = None) envSchema)"

definition parsedEnv :: "(string \<Rightarrow> bool) \<Rightarrow> (string \<rightharpoonup> string) \<Rightarrow> env" where
  "parsedEnv url vars k = (case map_of envSchema k of None \<Rightarrow> Unset
     | Some (r, d) \<Rightarrow> (case readVar url (vars k) r d of None \<Rightarrow> Unset | Some v \<Rightarrow> v))"

definition missing :: "env \<Rightarrow> string list \<Rightarrow> string list" where
  "missing E ks = filter (\<lambda>k. textOf (E k) = []) ks"

definition UNLINK_VARIABLES :: "string list" where
  "UNLINK_VARIABLES = [''UNLINK_API_KEY'', ''UNLINK_APP_ID'']"

definition RELAY_VARIABLES :: "string list" where
  "RELAY_VARIABLES = [''NUMERA_FORWARDER_ADDRESS'', ''RELAYER_PRIVATE_KEY'', ''RPC_HTTP_URL'', ''LS_LMSR_MARKET_ADDRESS'']"

definition guards :: "env \<Rightarrow> config_error option" where
  "guards E =
     (if flagOf (E ''INDEXER_ENABLED'') \<and> textOf (E ''RPC_HTTP_URL'') = [] then Some IndexerNeedsRpc
      else if flagOf (E ''UNLINK_ENABLED'') \<and> missing E UNLINK_VARIABLES \<noteq> []
        then Some (UnlinkNeeds (missing E UNLINK_VARIABLES))
      else if textOf (E ''UNLINK_ENGINE_URL'') \<noteq> [] \<and> textOf (E ''UNLINK_ENVIRONMENT'') \<noteq> ''monad-testnet''
        then Some EnvironmentAndEngineUrl
      else if flagOf (E ''RELAY_ENABLED'') \<and> missing E RELAY_VARIABLES \<noteq> []
        then Some (RelayNeeds (missing E RELAY_VARIABLES))
      else if textOf (E ''NODE_ENV'') = ''production'' \<and> itemsOf (E ''ADMIN_DEV_ADDRESSES'') \<noteq> []
        then Some DevAddressesInProduction
      else None)"

definition validateEnv :: "(string \<Rightarrow> bool) \<Rightarrow> (string \<rightharpoonup> string) \<Rightarrow> config_error + env" where
  "validateEnv url vars =
     (if unreadable url vars \<noteq> [] then Inl (Invalid (unreadable url vars))
      else (case guards (parsedEnv url vars) of Some e \<Rightarrow> Inl e | None \<Rightarrow> Inr (parsedEnv url vars)))"

section \<open>\<open>AppConfigService\<close>\<close>

definition normalizeAddr :: "string \<Rightarrow> string option" where
  "normalizeAddr value = (if value = [] \<or> lower value = ''0x'' @ replicate 40 (CHR ''0'') then None else Some (lower value))"

text \<open>\<open>x || undefined\<close> of a string.\<close>

definition nonempty :: "string \<Rightarrow> string option" where
  "nonempty s = (if s = [] then None else Some s)"

definition isProduction :: "env \<Rightarrow> bool" where
  "isProduction E = (textOf (E ''NODE_ENV'') = ''production'')"

definition isTest :: "env \<Rightarrow> bool" where
  "isTest E = (textOf (E ''NODE_ENV'') = ''test'')"

record app_config =
  ap_nodeEnv :: string
  ap_port :: int
  ap_corsOrigins :: "string list"
  ap_url :: string
  ap_logLevel :: string

definition appConfig :: "env \<Rightarrow> app_config" where
  "appConfig E = \<lparr>ap_nodeEnv = textOf (E ''NODE_ENV''), ap_port = wholeOf (E ''PORT''),
     ap_corsOrigins = itemsOf (E ''CORS_ORIGINS''), ap_url = textOf (E ''APP_URL''), ap_logLevel = textOf (E ''LOG_LEVEL'')\<rparr>"

record redis_config =
  rd_host :: string
  rd_port :: int
  rd_password :: "string option"
  rd_db :: int

definition redisConfig :: "env \<Rightarrow> redis_config" where
  "redisConfig E = \<lparr>rd_host = textOf (E ''REDIS_HOST''), rd_port = wholeOf (E ''REDIS_PORT''),
     rd_password = nonempty (textOf (E ''REDIS_PASSWORD'')), rd_db = wholeOf (E ''REDIS_DB'')\<rparr>"

text \<open>The domain of a sign-in message is the host of \<open>APP_URL\<close>.\<close>

definition authConfig :: "(string \<Rightarrow> string) \<Rightarrow> env \<Rightarrow> auth_config" where
  "authConfig host E = \<lparr>ac_domain = host (textOf (E ''APP_URL'')), ac_chainId = wholeOf (E ''AUTH_CHAIN_ID''),
     ac_nonceTtl = wholeOf (E ''AUTH_NONCE_TTL_SECONDS''), ac_accessTtl = textOf (E ''JWT_ACCESS_TTL''),
     ac_refreshTtl = textOf (E ''JWT_REFRESH_TTL'')\<rparr>"

text \<open>The access and the refresh secret.\<close>

definition jwtSecrets :: "env \<Rightarrow> string \<times> string" where
  "jwtSecrets E = (textOf (E ''JWT_ACCESS_SECRET''), textOf (E ''JWT_REFRESH_SECRET''))"

record node_config =
  nc_chainId :: int
  nc_httpUrl :: string
  nc_wsUrl :: string
  nc_indexerEnabled :: bool
  nc_pollMs :: int
  nc_decimals :: int

definition nodeConfig :: "env \<Rightarrow> node_config" where
  "nodeConfig E = \<lparr>nc_chainId = wholeOf (E ''CHAIN_ID''), nc_httpUrl = textOf (E ''RPC_HTTP_URL''),
     nc_wsUrl = textOf (E ''RPC_WS_URL''), nc_indexerEnabled = flagOf (E ''INDEXER_ENABLED''),
     nc_pollMs = wholeOf (E ''INDEXER_POLL_INTERVAL_MS''), nc_decimals = wholeOf (E ''COLLATERAL_DECIMALS'')\<rparr>"

definition chainConfig :: "env \<Rightarrow> chain_config" where
  "chainConfig E = \<lparr>cf_lsLmsr = normalizeAddr (textOf (E ''LS_LMSR_MARKET_ADDRESS'')),
     cf_resolver = normalizeAddr (textOf (E ''OPTIMISTIC_RESOLVER_ADDRESS'')),
     cf_blocklist = normalizeAddr (textOf (E ''TRADING_BLOCKLIST_ADDRESS'')),
     cf_startBlock = wholeOf (E ''INDEXER_START_BLOCK''), cf_confirmations = wholeOf (E ''INDEXER_CONFIRMATIONS''),
     cf_batchBlocks = wholeOf (E ''INDEXER_BATCH_BLOCKS'')\<rparr>"

definition protocolAddresses :: "env \<Rightarrow> protocol_addresses" where
  "protocolAddresses E = \<lparr>ad_lsLmsr = normalizeAddr (textOf (E ''LS_LMSR_MARKET_ADDRESS'')),
     ad_factory = normalizeAddr (textOf (E ''MARKET_FACTORY_ADDRESS'')),
     ad_trustedResolver = normalizeAddr (textOf (E ''TRUSTED_RESOLVER_ADDRESS'')),
     ad_optimisticResolver = normalizeAddr (textOf (E ''OPTIMISTIC_RESOLVER_ADDRESS'')),
     ad_blocklist = normalizeAddr (textOf (E ''TRADING_BLOCKLIST_ADDRESS''))\<rparr>"

record unlink_config =
  uc_enabled :: bool
  uc_environment :: "string option"
  uc_engineUrl :: "string option"
  uc_apiKey :: string
  uc_appId :: string
  uc_tokenTtl :: int

definition unlinkConfig :: "env \<Rightarrow> unlink_config" where
  "unlinkConfig E =
     (let engineUrl = textOf (E ''UNLINK_ENGINE_URL'')
      in \<lparr>uc_enabled = flagOf (E ''UNLINK_ENABLED''),
          uc_environment = (if engineUrl \<noteq> [] then None else Some (textOf (E ''UNLINK_ENVIRONMENT''))),
          uc_engineUrl = nonempty engineUrl, uc_apiKey = textOf (E ''UNLINK_API_KEY''),
          uc_appId = textOf (E ''UNLINK_APP_ID''), uc_tokenTtl = wholeOf (E ''UNLINK_TOKEN_TTL_SECONDS'')\<rparr>)"

definition relayKey :: "string \<Rightarrow> string option" where
  "relayKey key = (if key = [] then None else Some (if take 2 key = ''0x'' then key else ''0x'' @ key))"

text \<open>The relay's settings, with the addresses and the node its boot checks read from the chain's. \<open>None\<close>: a
  conversion to \<open>BigInt\<close> throws.\<close>

definition relayConfig :: "env \<Rightarrow> relay_config option" where
  "relayConfig E = (case (billionths (decimalOf (E ''RELAY_MAX_FEE_GWEI'')), billionths (decimalOf (E ''RELAY_DAILY_CAP_MON'')),
       billionths (decimalOf (E ''RELAY_MIN_BALANCE_MON''))) of
     (Some fee, Some cap, Some minimum) \<Rightarrow> Some
       \<lparr>rc_enabled = flagOf (E ''RELAY_ENABLED''), rc_privateKey = relayKey (textOf (E ''RELAYER_PRIVATE_KEY'')),
        rc_forwarder = normalizeAddr (textOf (E ''NUMERA_FORWARDER_ADDRESS'')),
        rc_resolutionForwarder = normalizeAddr (textOf (E ''RESOLUTION_FORWARDER_ADDRESS'')),
        rc_httpUrl = nonempty (textOf (E ''RPC_HTTP_URL'')), rc_permit2 = normalizeAddr (textOf (E ''PERMIT2_ADDRESS'')),
        rc_lsLmsr = cf_lsLmsr (chainConfig E), rc_optimisticResolver = cf_resolver (chainConfig E),
        rc_maxGas = wholeOf (E ''RELAY_MAX_GAS''), rc_maxFee = fee, rc_accountLimit = wholeOf (E ''RELAY_ACCOUNT_LIMIT''),
        rc_accountWindow = wholeOf (E ''RELAY_ACCOUNT_WINDOW_SECONDS''), rc_dailyCap = cap * 1000000000,
        rc_minBalance = minimum * 1000000000\<rparr>
   | _ \<Rightarrow> None)"

definition poolStartBlock :: "env \<Rightarrow> int" where
  "poolStartBlock E = (case E ''POOL_START_BLOCK'' of Unset \<Rightarrow> cf_startBlock (chainConfig E) | v \<Rightarrow> wholeOf v)"

definition poolConfig :: "env \<Rightarrow> pool_config" where
  "poolConfig E = \<lparr>pc_startBlock = poolStartBlock E, pc_confirmations = cf_confirmations (chainConfig E),
     pc_batchBlocks = cf_batchBlocks (chainConfig E)\<rparr>"

definition poolServiceConfig :: "env \<Rightarrow> pool_service_config" where
  "poolServiceConfig E = \<lparr>ps_entrypoint = normalizeAddr (textOf (E ''POOL_ENTRYPOINT_ADDRESS'')),
     ps_privacyPool = normalizeAddr (textOf (E ''PRIVACY_POOL_ADDRESS'')), ps_asset = normalizeAddr (textOf (E ''USDC_ADDRESS'')),
     ps_chainId = wholeOf (E ''CHAIN_ID'')\<rparr>"

definition poolConfigured :: "env \<Rightarrow> bool" where
  "poolConfigured E = (ps_entrypoint (poolServiceConfig E) \<noteq> None \<and> ps_privacyPool (poolServiceConfig E) \<noteq> None)"

record keeper_config =
  kc_enabled :: bool
  kc_pollMs :: int

definition settlementConfig :: "env \<Rightarrow> keeper_config" where
  "settlementConfig E = \<lparr>kc_enabled = flagOf (E ''SETTLEMENT_ENABLED''), kc_pollMs = wholeOf (E ''SETTLEMENT_POLL_INTERVAL_MS'')\<rparr>"

definition devAddresses :: "env \<Rightarrow> string list" where
  "devAddresses E = map lower (itemsOf (E ''ADMIN_DEV_ADDRESSES''))"

record throttle_config =
  th_ttl :: int
  th_limit :: int

definition throttleConfig :: "env \<Rightarrow> throttle_config" where
  "throttleConfig E = \<lparr>th_ttl = wholeOf (E ''THROTTLE_TTL_SECONDS''), th_limit = wholeOf (E ''THROTTLE_LIMIT'')\<rparr>"

text \<open>What \<open>main.ts\<close> passes as the CORS origin: \<open>None\<close> is \<open>true\<close>, any origin.\<close>

definition corsOrigin :: "env \<Rightarrow> string list option" where
  "corsOrigin E = (if ''*'' \<in> set (ap_corsOrigins (appConfig E)) then None else Some (ap_corsOrigins (appConfig E)))"

section \<open>The schema, variable by variable\<close>

lemma validated:
  assumes "validateEnv url vars = Inr E"
  shows "unreadable url vars = []" "guards E = None" "E = parsedEnv url vars"
  using assms by (auto simp: validateEnv_def split: if_splits option.splits)

lemma distinct_schema: "distinct (map fst envSchema)"
  by (simp add: envSchema_def)

lemma validated_at:
  assumes "validateEnv url vars = Inr E" "map_of envSchema k = Some (r, d)"
  shows "readVar url (vars k) r d = Some (E k)"
proof -
  have "(k, r, d) \<in> set envSchema" using assms(2) by (rule map_of_SomeD)
  then have "readVar url (vars k) r d \<noteq> None"
    using validated(1) [OF assms(1)] by (auto simp: unreadable_def filter_empty_conv)
  then show ?thesis using validated(3) [OF assms(1)] assms(2) by (auto simp: parsedEnv_def)
qed

end
