(* ===== verification/ConfigProps.thy ===== *)
theory ConfigProps
  imports Config RelayCap
begin

text \<open>
  What a validated environment guarantees: settings of the types the code reads them at, the bounds the
  components' theorems assume, amounts of gas money converted without loss, a relay that has everything it
  needs, and no way around the on-chain roles in production.
\<close>

section \<open>Types\<close>

text \<open>What a rule promises about the setting it yields.\<close>

fun fits_rule :: "(string \<Rightarrow> bool) \<Rightarrow> rule \<Rightarrow> setting \<Rightarrow> bool" where
  "fits_rule url (OneOf xs) (Text s) = (s \<in> set xs)"
| "fits_rule url (MinText n) (Text s) = (n \<le> length s)"
| "fits_rule url Url (Text s) = url s"
| "fits_rule url UrlOrEmpty (Text s) = (s = [] \<or> url s)"
| "fits_rule url Boolish (Flag b) = True"
| "fits_rule url Csv (Items xs) = list_all (\<lambda>x. x \<noteq> [] \<and> CHR '','' \<notin> set x) xs"
| "fits_rule url AddressOrEmpty (Text s) = (s = [] \<or> address_shape s)"
| "fits_rule url KeyOrEmpty (Text s) = (s = [] \<or> key_shape s)"
| "fits_rule url (WholeIn lo hi) (Whole n) = (lo \<le> n \<and> (\<forall>h. hi = Some h \<longrightarrow> n \<le> h))"
| "fits_rule url Positive (Decimal x) = positive x"
| "fits_rule url r v = False"

lemma set_js_trim: "set (js_trim s) \<subseteq> set s"
proof -
  have "set (js_trim s) \<subseteq> set (dropWhile js_space s)"
    using set_dropWhileD by (fastforce simp: js_trim_def)
  then show ?thesis using set_dropWhileD by fastforce
qed

lemma split_comma_parts: "x \<in> set (split_comma s) \<Longrightarrow> CHR '','' \<notin> set x"
proof (induction s arbitrary: x)
  case (Cons c cs)
  then show ?case by (cases "split_comma cs") (auto split: if_splits)
qed simp

lemma readRule_fits: "readRule url r s = Some v \<Longrightarrow> fits_rule url r v"
  using set_js_trim split_comma_parts
  by (cases r) (fastforce simp: csv_def list_all_iff split: if_splits option.splits)+

section \<open>Settings of a validated environment\<close>

lemma read_at:
  assumes "validateEnv url vars = Inr E" "map_of envSchema k = Some (r, Preset d)"
  shows "readRule url r (case vars k of None \<Rightarrow> d | Some s \<Rightarrow> s) = Some (E k)"
  using validated_at [OF assms] by (auto simp: readVar_def split: option.splits)

lemma whole_at:
  assumes "validateEnv url vars = Inr E" "map_of envSchema k = Some (WholeIn lo hi, Preset d)"
  shows "lo \<le> wholeOf (E k)" "hi = Some h \<Longrightarrow> wholeOf (E k) \<le> h"
  using readRule_fits [OF read_at [OF assms]] by (cases "E k"; simp)+

lemma key_at:
  assumes "validateEnv url vars = Inr E" "map_of envSchema k = Some (KeyOrEmpty, Preset d)"
  shows "textOf (E k) = [] \<or> key_shape (textOf (E k))"
  using readRule_fits [OF read_at [OF assms]] by (cases "E k") simp_all

lemma address_at:
  assumes "validateEnv url vars = Inr E" "map_of envSchema k = Some (AddressOrEmpty, Preset d)"
  shows "textOf (E k) = [] \<or> address_shape (textOf (E k))"
  using readRule_fits [OF read_at [OF assms]] by (cases "E k") simp_all

lemma decimal_at:
  assumes "validateEnv url vars = Inr E" "map_of envSchema k = Some (Positive, Preset d)"
  shows "E k = Decimal (number_of_string (case vars k of None \<Rightarrow> d | Some s \<Rightarrow> s))" "positive (decimalOf (E k))"
proof -
  note read = read_at [OF assms]
  show "E k = Decimal (number_of_string (case vars k of None \<Rightarrow> d | Some s \<Rightarrow> s))"
    using read by (simp only: readRule.simps) (auto split: if_splits)
  show "positive (decimalOf (E k))" using readRule_fits [OF read] by (cases "E k") simp_all
qed

lemma schema_at:
  "map_of envSchema ''INDEXER_START_BLOCK'' = Some (WholeIn 0 None, Preset ''0'')"
  "map_of envSchema ''INDEXER_BATCH_BLOCKS'' = Some (WholeIn 1 None, Preset ''2000'')"
  "map_of envSchema ''INDEXER_CONFIRMATIONS'' = Some (WholeIn 0 None, Preset ''2'')"
  "map_of envSchema ''POOL_START_BLOCK'' = Some (WholeIn 0 None, Optional)"
  "map_of envSchema ''RELAY_MAX_GAS'' = Some (WholeIn 1 (Some 3000000), Preset ''700000'')"
  "map_of envSchema ''RELAY_ACCOUNT_LIMIT'' = Some (WholeIn 1 None, Preset ''20'')"
  "map_of envSchema ''RELAY_ACCOUNT_WINDOW_SECONDS'' = Some (WholeIn 1 None, Preset ''60'')"
  "map_of envSchema ''RELAY_MAX_FEE_GWEI'' = Some (Positive, Preset ''200'')"
  "map_of envSchema ''RELAY_DAILY_CAP_MON'' = Some (Positive, Preset ''50'')"
  "map_of envSchema ''RELAY_MIN_BALANCE_MON'' = Some (Positive, Preset ''2'')"
  "map_of envSchema ''RELAYER_PRIVATE_KEY'' = Some (KeyOrEmpty, Preset [])"
  "map_of envSchema ''NUMERA_FORWARDER_ADDRESS'' = Some (AddressOrEmpty, Preset [])"
  "map_of envSchema ''LS_LMSR_MARKET_ADDRESS'' = Some (AddressOrEmpty, Preset [])"
  by (simp_all add: envSchema_def)

section \<open>Amounts\<close>

lemma decimal_literal_head:
  assumes "decimal_literal s = Some x"
  shows "s \<noteq> []" "digit (hd s) \<or> hd s = CHR ''.''" "\<not> (2 < length s \<and> s ! 0 = CHR ''0'' \<and> s ! 1 \<in> set ''xXoObB'')"
proof -
  have head: "s \<noteq> [] \<and> (digit (hd s) \<or> hd s = CHR ''.'')"
    using assms by (cases s) (auto simp: decimal_literal_def fraction_part_def split: if_splits)
  then show "s \<noteq> []" "digit (hd s) \<or> hd s = CHR ''.''" by auto
  show "\<not> (2 < length s \<and> s ! 0 = CHR ''0'' \<and> s ! 1 \<in> set ''xXoObB'')"
  proof
    assume radix: "2 < length s \<and> s ! 0 = CHR ''0'' \<and> s ! 1 \<in> set ''xXoObB''"
    then obtain c cs where s: "s = CHR ''0'' # c # cs" "c \<in> set ''xXoObB''"
      by (cases s; cases "tl s") auto
    then have "digit (CHR ''0'')" "\<not> digit c" "c \<noteq> CHR ''.''" "c \<notin> set ''eE''"
      by (auto simp: digit_def digit_val_def)
    then have "decimal_literal s = None"
      by (simp add: decimal_literal_def s(1) fraction_part_def exponent_part_def split: option.split)
    then show False using assms by simp
  qed
qed

lemma number_of_decimal:
  assumes "decimal_literal (js_trim s) = Some x"
  shows "number_of_string s = to_double x"
proof -
  note head = decimal_literal_head [OF assms]
  have "hd (js_trim s) \<noteq> CHR ''-''" "hd (js_trim s) \<noteq> CHR ''+''" "js_trim s \<noteq> ''Infinity''"
    using head(2) by (auto simp: digit_def digit_val_def)
  then show ?thesis using head(1,3) assms by (auto simp: number_of_string_def Let_def unsigned_number_def)
qed

lemma amount_at:
  assumes "validateEnv url vars = Inr E" "map_of envSchema k = Some (Positive, Preset d)"
    and "decimal_literal (js_trim (case vars k of None \<Rightarrow> d | Some s \<Rightarrow> s)) = Some (of_int n / 10 ^ 9)" "0 \<le> n" "n \<le> 2 ^ 50"
  shows "billionths (decimalOf (E k)) = Some n"
  using decimal_at(1) [OF assms(1,2)] number_of_decimal [OF assms(3)] billionths_exact [OF assms(4,5)] by simp

lemma round_at_nonneg: "0 \<le> x \<Longrightarrow> 0 \<le> round_at x"
  by (simp add: round_at_def Let_def round_half_even_def)

lemma billionths_nonneg:
  assumes "positive x" "billionths x = Some n"
  shows "0 \<le> n"
proof (cases x)
  case (Finite a)
  then obtain b where b: "to_double (a * 10 ^ 9) = Finite b" "n = \<lfloor>b + 1 / 2\<rfloor>"
    using assms(2) by (auto simp: billionths_cases split: js_float.splits)
  have "0 < a * 10 ^ 9" using assms(1) Finite by (simp add: positive_def)
  then have "0 \<le> b" using b(1) round_at_nonneg [of "a * 10 ^ 9"] by (auto simp: to_double_def Let_def split: if_splits)
  then show ?thesis using b(2) by simp
qed (use assms in \<open>auto simp: billionths_cases\<close>)

section \<open>A sample environment\<close>

lemma takeWhile_digits:
  assumes "digits_val a s = Some n"
  shows "takeWhile digit s = s" "dropWhile digit s = []"
proof -
  have "\<forall>c \<in> set s. digit c"
    using assms by (induction s arbitrary: a) (auto simp: digit_def split: option.splits)
  then show "takeWhile digit s = s" "dropWhile digit s = []" by (simp_all add: takeWhile_eq_all_conv)
qed

lemma js_trim_digits:
  assumes "digits_val a s = Some n"
  shows "js_trim s = s"
proof -
  have "\<forall>c \<in> set s. \<not> js_space c"
    using assms digit_not_space by (induction s arbitrary: a) (auto split: option.splits)
  then show ?thesis by (simp add: js_trim_def dropWhile_none)
qed

lemma number_of_digits:
  assumes "digits_val 0 s = Some n" "s \<noteq> []" "n < 2 ^ 53"
  shows "number_of_string s = Finite (of_nat n)"
proof -
  have "decimal_literal (js_trim s) = Some (of_int (int n))"
    using assms(1,2)
    by (simp add: takeWhile_digits [OF assms(1)] js_trim_digits [OF assms(1)] decimal_literal_def fraction_part_def
        exponent_part_def Let_def)
  then have "number_of_string s = to_double (of_int (int n))" by (rule number_of_decimal)
  also have "\<dots> = Finite (of_int (int n))" using assms(3) by (intro to_double_whole) simp
  finally show ?thesis by simp
qed

lemma positive_amount:
  assumes "decimal_literal (js_trim s) = Some (of_int n / 10 ^ 9)" "0 < n" "n \<le> 2 ^ 50"
  shows "positive (number_of_string s)"
proof -
  define x where "x = (of_int n / 10 ^ 9 :: rat)"
  have "of_int 1 \<le> (of_int n :: rat)" "of_int n \<le> (of_int (2 ^ 50) :: rat)" using assms(2,3) unfolding of_int_le_iff by auto
  then have x: "0 < x" "1 / 10 ^ 10 \<le> x" "x \<le> 2 ^ 60" by (simp_all add: x_def)
  from x obtain d where d: "to_double x = Finite d" "\<bar>d - x\<bar> \<le> x / 2 ^ 53" by (rule to_double_near)
  have "0 < d" using nearD(2) [OF d(2)] x(1) by simp
  then show ?thesis using number_of_decimal [OF assms(1)] d(1) by (simp add: positive_def x_def)
qed

definition sample_vars :: "string \<rightharpoonup> string" where
  "sample_vars = [''NODE_ENV'' \<mapsto> ''production'', ''DATABASE_URL'' \<mapsto> ''postgresql://db'',
     ''JWT_ACCESS_SECRET'' \<mapsto> ''0123456789abcdef'', ''JWT_REFRESH_SECRET'' \<mapsto> ''fedcba9876543210'',
     ''RPC_HTTP_URL'' \<mapsto> ''https://node'', ''RELAY_ENABLED'' \<mapsto> ''true'',
     ''NUMERA_FORWARDER_ADDRESS'' \<mapsto> ''0xAAAAAAAAAAAAAAAAAAAAAAAAAAAAAAAAAAAAAAAA'',
     ''LS_LMSR_MARKET_ADDRESS'' \<mapsto> ''0xbbbbbbbbbbbbbbbbbbbbbbbbbbbbbbbbbbbbbbbb'',
     ''RELAYER_PRIVATE_KEY'' \<mapsto> replicate 64 (CHR ''1''),
     ''RELAY_MAX_FEE_GWEI'' \<mapsto> ''250'', ''RELAY_DAILY_CAP_MON'' \<mapsto> ''20.5'', ''RELAY_MIN_BALANCE_MON'' \<mapsto> ''.25'']"

lemma sample_amounts:
  "decimal_literal (js_trim ''250'') = Some (of_int 250000000000 / 10 ^ 9)"
  "decimal_literal (js_trim ''20.5'') = Some (of_int 20500000000 / 10 ^ 9)"
  "decimal_literal (js_trim ''.25'') = Some (of_int 250000000 / 10 ^ 9)"
  by (simp_all add: decimal_literal_def fraction_part_def exponent_part_def digit_def digit_val_def js_trim_def js_space_def
      power_int_def power2_eq_square)

lemma sample_positive: "positive (number_of_string ''250'')" "positive (number_of_string ''20.5'')"
  "positive (number_of_string ''.25'')"
  by (rule positive_amount [OF sample_amounts(1)], simp, simp)
    (rule positive_amount [OF sample_amounts(2)], simp, simp,
     rule positive_amount [OF sample_amounts(3)], simp, simp)

lemma positive_whole: "positive (Finite a) \<longleftrightarrow> 0 < a"
  by (simp add: positive_def)

lemma sample_key: "key_shape (replicate 64 (CHR ''1''))"
  by code_simp

lemma sample_readable: "unreadable (\<lambda>s. s \<noteq> []) sample_vars = []"
  by (simp add: unreadable_def envSchema_def sample_vars_def readVar_def sample_positive number_of_digits whole_def
      digit_val_def address_shape_def sample_key positive_whole hex_def radix_val_def)

lemma sample_settings:
  "parsedEnv (\<lambda>s. s \<noteq> []) sample_vars ''NODE_ENV'' = Text ''production''"
  "parsedEnv (\<lambda>s. s \<noteq> []) sample_vars ''INDEXER_ENABLED'' = Flag False"
  "parsedEnv (\<lambda>s. s \<noteq> []) sample_vars ''UNLINK_ENABLED'' = Flag False"
  "parsedEnv (\<lambda>s. s \<noteq> []) sample_vars ''UNLINK_ENGINE_URL'' = Text []"
  "parsedEnv (\<lambda>s. s \<noteq> []) sample_vars ''RELAY_ENABLED'' = Flag True"
  "parsedEnv (\<lambda>s. s \<noteq> []) sample_vars ''NUMERA_FORWARDER_ADDRESS'' = Text ''0xAAAAAAAAAAAAAAAAAAAAAAAAAAAAAAAAAAAAAAAA''"
  "parsedEnv (\<lambda>s. s \<noteq> []) sample_vars ''RELAYER_PRIVATE_KEY'' = Text (replicate 64 (CHR ''1''))"
  "parsedEnv (\<lambda>s. s \<noteq> []) sample_vars ''RPC_HTTP_URL'' = Text ''https://node''"
  "parsedEnv (\<lambda>s. s \<noteq> []) sample_vars ''LS_LMSR_MARKET_ADDRESS'' = Text ''0xbbbbbbbbbbbbbbbbbbbbbbbbbbbbbbbbbbbbbbbb''"
  "parsedEnv (\<lambda>s. s \<noteq> []) sample_vars ''ADMIN_DEV_ADDRESSES'' = Items []"
  "parsedEnv (\<lambda>s. s \<noteq> []) sample_vars ''RELAY_MAX_FEE_GWEI'' = Decimal (number_of_string ''250'')"
  "parsedEnv (\<lambda>s. s \<noteq> []) sample_vars ''RELAY_DAILY_CAP_MON'' = Decimal (number_of_string ''20.5'')"
  "parsedEnv (\<lambda>s. s \<noteq> []) sample_vars ''RELAY_MIN_BALANCE_MON'' = Decimal (number_of_string ''.25'')"
  by (simp_all add: parsedEnv_def envSchema_def sample_vars_def readVar_def sample_positive sample_key address_shape_def
      hex_def radix_val_def csv_def js_trim_def)

lemma sample_validated: "validateEnv (\<lambda>s. s \<noteq> []) sample_vars = Inr (parsedEnv (\<lambda>s. s \<noteq> []) sample_vars)"
  by (simp add: validateEnv_def sample_readable guards_def sample_settings missing_def RELAY_VARIABLES_def)

lemma sample_relay:
  "\<exists>C. relayConfig (parsedEnv (\<lambda>s. s \<noteq> []) sample_vars) = Some C \<and> rc_enabled C \<and> rc_maxFee C = 250000000000"
proof -
  have "billionths (number_of_string ''250'') = Some 250000000000" "billionths (number_of_string ''20.5'') = Some 20500000000"
    "billionths (number_of_string ''.25'') = Some 250000000"
    unfolding sample_amounts [THEN number_of_decimal] by (rule billionths_exact; simp)+
  then show ?thesis by (simp add: relayConfig_def sample_settings)
qed


section \<open>Properties\<close>

text \<open>The rules as equivalences, and the schema read off at once.\<close>

lemma fits_iff:
  "fits_rule url (OneOf xs) v \<longleftrightarrow> (\<exists>s. v = Text s \<and> s \<in> set xs)"
  "fits_rule url (MinText n) v \<longleftrightarrow> (\<exists>s. v = Text s \<and> n \<le> length s)"
  "fits_rule url Url v \<longleftrightarrow> (\<exists>s. v = Text s \<and> url s)"
  "fits_rule url UrlOrEmpty v \<longleftrightarrow> (\<exists>s. v = Text s \<and> (s = [] \<or> url s))"
  "fits_rule url Boolish v \<longleftrightarrow> (\<exists>b. v = Flag b)"
  "fits_rule url Csv v \<longleftrightarrow> (\<exists>xs. v = Items xs \<and> list_all (\<lambda>x. x \<noteq> [] \<and> CHR '','' \<notin> set x) xs)"
  "fits_rule url AddressOrEmpty v \<longleftrightarrow> (\<exists>s. v = Text s \<and> (s = [] \<or> address_shape s))"
  "fits_rule url KeyOrEmpty v \<longleftrightarrow> (\<exists>s. v = Text s \<and> (s = [] \<or> key_shape s))"
  "fits_rule url (WholeIn lo None) v \<longleftrightarrow> (\<exists>n. v = Whole n \<and> lo \<le> n)"
  "fits_rule url (WholeIn lo (Some hi)) v \<longleftrightarrow> (\<exists>n. v = Whole n \<and> lo \<le> n \<and> n \<le> hi)"
  "fits_rule url Positive v \<longleftrightarrow> (\<exists>x. v = Decimal x \<and> positive x)"
  by (cases v; simp)+

lemma validated_fits:
  assumes "validateEnv url vars = Inr E"
  shows "list_all (\<lambda>(k, r, d). fits_rule url r (E k) \<or> d = Optional \<and> E k = Unset) envSchema"
  unfolding list_all_iff
proof clarify
  fix k r d
  assume "(k, r, d) \<in> set envSchema" and absent: "\<not> (d = Optional \<and> E k = Unset)"
  then have "map_of envSchema k = Some (r, d)" using distinct_schema by simp
  from validated_at [OF assms this] absent show "fits_rule url r (E k)"
    by (auto simp: readVar_def intro: readRule_fits split: option.splits preset.splits)
qed

lemmas validated_settings = validated_fits [unfolded envSchema_def, simplified]

lemma fits_text:
  "fits_rule url (OneOf xs) v \<Longrightarrow> textOf v \<in> set xs"
  "fits_rule url (MinText n) v \<Longrightarrow> n \<le> length (textOf v)"
  "fits_rule url Url v \<Longrightarrow> url (textOf v)"
  "fits_rule url KeyOrEmpty v \<Longrightarrow> textOf v = [] \<or> key_shape (textOf v)"
  "fits_rule url Csv v \<Longrightarrow> \<exists>xs. v = Items xs \<and> [] \<notin> set xs"
  by (auto simp: fits_iff list_all_iff)

text \<open>C22. A process that got past \<open>validateEnv\<close> runs with settings of the right kind and size: a known mode and log
  level, a database URL, two secrets of at least sixteen characters, ports, intervals, windows and limits that are
  positive whole numbers, offsets that are not negative, at most eighteen decimals, tokens of at most fifteen minutes,
  at most 3,000,000 gas for a relayed call, positive amounts of gas money, addresses and a relayer key that are
  well-formed or absent, URLs, flags and lists. And it is complete: an indexer that is on has a node, a privacy vendor
  that is on has its two credentials and not both an environment and an engine URL, a relay that is on has a
  forwarder, a key, a node and an engine, and in production there is no local list of administrators.\<close>

theorem validated_environment_is_typed:
  assumes "validateEnv url vars = Inr E"
  shows "textOf (E ''NODE_ENV'') \<in> {''development'', ''test'', ''production''} \<and>
    textOf (E ''LOG_LEVEL'') \<in> {''fatal'', ''error'', ''warn'', ''info'', ''debug'', ''trace''} \<and>
    textOf (E ''DATABASE_URL'') \<noteq> [] \<and> textOf (E ''UNLINK_ENVIRONMENT'') \<noteq> [] \<and>
    16 \<le> length (textOf (E ''JWT_ACCESS_SECRET'')) \<and> 16 \<le> length (textOf (E ''JWT_REFRESH_SECRET'')) \<and>
    list_all (\<lambda>k. \<exists>n. E k = Whole n \<and> 1 \<le> n)
      [''PORT'', ''REDIS_PORT'', ''AUTH_CHAIN_ID'', ''AUTH_NONCE_TTL_SECONDS'', ''CHAIN_ID'', ''INDEXER_BATCH_BLOCKS'',
       ''INDEXER_POLL_INTERVAL_MS'', ''RELAY_ACCOUNT_LIMIT'', ''RELAY_ACCOUNT_WINDOW_SECONDS'',
       ''SETTLEMENT_POLL_INTERVAL_MS'', ''THROTTLE_TTL_SECONDS'', ''THROTTLE_LIMIT''] \<and>
    list_all (\<lambda>k. \<exists>n. E k = Whole n \<and> 0 \<le> n) [''REDIS_DB'', ''INDEXER_START_BLOCK'', ''INDEXER_CONFIRMATIONS''] \<and>
    (E ''POOL_START_BLOCK'' = Unset \<or> (\<exists>n. E ''POOL_START_BLOCK'' = Whole n \<and> 0 \<le> n)) \<and>
    (\<exists>n. E ''COLLATERAL_DECIMALS'' = Whole n \<and> 0 \<le> n \<and> n \<le> 18) \<and>
    (\<exists>n. E ''UNLINK_TOKEN_TTL_SECONDS'' = Whole n \<and> 1 \<le> n \<and> n \<le> 900) \<and>
    (\<exists>n. E ''RELAY_MAX_GAS'' = Whole n \<and> 1 \<le> n \<and> n \<le> 3000000) \<and>
    list_all (\<lambda>k. \<exists>x. E k = Decimal x \<and> positive x) [''RELAY_MAX_FEE_GWEI'', ''RELAY_DAILY_CAP_MON'', ''RELAY_MIN_BALANCE_MON''] \<and>
    list_all (\<lambda>k. \<exists>s. E k = Text s \<and> (s = [] \<or> address_shape s))
      [''LS_LMSR_MARKET_ADDRESS'', ''MARKET_FACTORY_ADDRESS'', ''TRUSTED_RESOLVER_ADDRESS'', ''OPTIMISTIC_RESOLVER_ADDRESS'',
       ''RESOLVER_MULTISIG_ADDRESS'', ''TRADING_BLOCKLIST_ADDRESS'', ''USDC_ADDRESS'', ''NUMERA_FORWARDER_ADDRESS'',
       ''RESOLUTION_FORWARDER_ADDRESS'', ''PERMIT2_ADDRESS'', ''POOL_ENTRYPOINT_ADDRESS'', ''PRIVACY_POOL_ADDRESS''] \<and>
    (textOf (E ''RELAYER_PRIVATE_KEY'') = [] \<or> key_shape (textOf (E ''RELAYER_PRIVATE_KEY''))) \<and>
    url (textOf (E ''APP_URL'')) \<and>
    list_all (\<lambda>k. \<exists>s. E k = Text s \<and> (s = [] \<or> url s)) [''RPC_HTTP_URL'', ''RPC_WS_URL'', ''UNLINK_ENGINE_URL''] \<and>
    list_all (\<lambda>k. \<exists>b. E k = Flag b) [''INDEXER_ENABLED'', ''UNLINK_ENABLED'', ''RELAY_ENABLED'', ''SETTLEMENT_ENABLED''] \<and>
    list_all (\<lambda>k. \<exists>xs. E k = Items xs \<and> [] \<notin> set xs) [''CORS_ORIGINS'', ''ADMIN_DEV_ADDRESSES''] \<and>
    (E ''INDEXER_ENABLED'' = Flag True \<longrightarrow> textOf (E ''RPC_HTTP_URL'') \<noteq> []) \<and>
    (E ''UNLINK_ENABLED'' = Flag True \<longrightarrow> textOf (E ''UNLINK_API_KEY'') \<noteq> [] \<and> textOf (E ''UNLINK_APP_ID'') \<noteq> []) \<and>
    (textOf (E ''UNLINK_ENGINE_URL'') \<noteq> [] \<longrightarrow> textOf (E ''UNLINK_ENVIRONMENT'') = ''monad-testnet'') \<and>
    (E ''RELAY_ENABLED'' = Flag True \<longrightarrow>
       textOf (E ''NUMERA_FORWARDER_ADDRESS'') \<noteq> [] \<and> textOf (E ''RELAYER_PRIVATE_KEY'') \<noteq> [] \<and>
       textOf (E ''RPC_HTTP_URL'') \<noteq> [] \<and> textOf (E ''LS_LMSR_MARKET_ADDRESS'') \<noteq> []) \<and>
    (textOf (E ''NODE_ENV'') = ''production'' \<longrightarrow> itemsOf (E ''ADMIN_DEV_ADDRESSES'') = [])"
proof -
  note settings = validated_settings [OF assms]
  have guarded: "flagOf (E ''INDEXER_ENABLED'') \<longrightarrow> textOf (E ''RPC_HTTP_URL'') \<noteq> []"
    "flagOf (E ''UNLINK_ENABLED'') \<longrightarrow> missing E UNLINK_VARIABLES = []"
    "textOf (E ''UNLINK_ENGINE_URL'') \<noteq> [] \<longrightarrow> textOf (E ''UNLINK_ENVIRONMENT'') = ''monad-testnet''"
    "flagOf (E ''RELAY_ENABLED'') \<longrightarrow> missing E RELAY_VARIABLES = []"
    "textOf (E ''NODE_ENV'') = ''production'' \<longrightarrow> itemsOf (E ''ADMIN_DEV_ADDRESSES'') = []"
    using validated(2) [OF assms] by (auto simp: guards_def split: if_splits)
  have kept: "missing E ks = [] \<longleftrightarrow> list_all (\<lambda>k. textOf (E k) \<noteq> []) ks" for ks
    by (simp add: missing_def filter_empty_conv list_all_iff)
  have texts: "textOf (E ''NODE_ENV'') \<in> set [''development'', ''test'', ''production'']"
    "textOf (E ''LOG_LEVEL'') \<in> set [''fatal'', ''error'', ''warn'', ''info'', ''debug'', ''trace'']"
    "1 \<le> length (textOf (E ''DATABASE_URL''))" "1 \<le> length (textOf (E ''UNLINK_ENVIRONMENT''))"
    "16 \<le> length (textOf (E ''JWT_ACCESS_SECRET''))" "16 \<le> length (textOf (E ''JWT_REFRESH_SECRET''))"
    "url (textOf (E ''APP_URL''))"
    "textOf (E ''RELAYER_PRIVATE_KEY'') = [] \<or> key_shape (textOf (E ''RELAYER_PRIVATE_KEY''))"
    by (rule fits_text [of url], simp add: settings)+
  have lists: "\<exists>xs. E ''CORS_ORIGINS'' = Items xs \<and> [] \<notin> set xs" "\<exists>xs. E ''ADMIN_DEV_ADDRESSES'' = Items xs \<and> [] \<notin> set xs"
    by (rule fits_text [of url], simp add: settings)+
  show ?thesis
  proof (intro conjI)
    show "textOf (E ''NODE_ENV'') \<in> {''development'', ''test'', ''production''}"
      "textOf (E ''LOG_LEVEL'') \<in> {''fatal'', ''error'', ''warn'', ''info'', ''debug'', ''trace''}"
      using texts(1,2) by (simp_all only: list.set)
    show "textOf (E ''DATABASE_URL'') \<noteq> []" "textOf (E ''UNLINK_ENVIRONMENT'') \<noteq> []" using texts(3,4) by auto
    show "list_all (\<lambda>k. \<exists>xs. E k = Items xs \<and> [] \<notin> set xs) [''CORS_ORIGINS'', ''ADMIN_DEV_ADDRESSES'']"
      using lists by simp
    show "E ''POOL_START_BLOCK'' = Unset \<or> (\<exists>n. E ''POOL_START_BLOCK'' = Whole n \<and> 0 \<le> n)"
      unfolding fits_iff(9) [of url, symmetric] using settings by blast
  qed (use texts guarded in \<open>simp_all add: settings kept UNLINK_VARIABLES_def RELAY_VARIABLES_def flip: fits_iff(4-11) [of url]\<close>)
qed

lemma validated_environment_is_typed_witness:
  "\<exists>E. validateEnv (\<lambda>s. s \<noteq> []) sample_vars = Inr E \<and> textOf (E ''NODE_ENV'') = ''production'' \<and>
     16 \<le> length (textOf (E ''JWT_ACCESS_SECRET'')) \<and> itemsOf (E ''ADMIN_DEV_ADDRESSES'') = [] \<and>
     E ''RELAY_ENABLED'' = Flag True \<and> textOf (E ''RPC_HTTP_URL'') \<noteq> []"
proof -
  let ?E = "parsedEnv (\<lambda>s. s \<noteq> []) sample_vars"
  have "textOf (?E ''NODE_ENV'') = ''production''" "?E ''RELAY_ENABLED'' = Flag True" by (simp_all add: sample_settings)
  then show ?thesis using validated_environment_is_typed [OF sample_validated] sample_validated by blast
qed

lemma pool_start_at:
  assumes "validateEnv url vars = Inr E"
  shows "0 \<le> poolStartBlock E"
proof (cases "vars ''POOL_START_BLOCK''")
  case None
  then have "E ''POOL_START_BLOCK'' = Unset" using validated_at [OF assms schema_at(4)] by (simp add: readVar_def)
  then show ?thesis using whole_at(1) [OF assms schema_at(1)] by (simp add: poolStartBlock_def chainConfig_def)
next
  case (Some s)
  then have "readRule url (WholeIn 0 None) s = Some (E ''POOL_START_BLOCK'')"
    using validated_at [OF assms schema_at(4)] by (simp add: readVar_def)
  then have "fits_rule url (WholeIn 0 None) (E ''POOL_START_BLOCK'')" by (rule readRule_fits)
  then show ?thesis by (cases "E ''POOL_START_BLOCK''") (simp_all add: poolStartBlock_def)
qed

lemma relay_config_cases:
  assumes "relayConfig E = Some C"
  obtains fee cap minimum where "billionths (decimalOf (E ''RELAY_MAX_FEE_GWEI'')) = Some fee"
    "billionths (decimalOf (E ''RELAY_DAILY_CAP_MON'')) = Some cap"
    "billionths (decimalOf (E ''RELAY_MIN_BALANCE_MON'')) = Some minimum"
    "rc_maxFee C = fee" "rc_dailyCap C = cap * 1000000000" "rc_minBalance C = minimum * 1000000000"
  using assms by (auto simp: relayConfig_def split: option.splits)

lemma relay_fields:
  assumes "relayConfig E = Some C"
  shows "rc_enabled C = flagOf (E ''RELAY_ENABLED'')" "rc_privateKey C = relayKey (textOf (E ''RELAYER_PRIVATE_KEY''))"
    and "rc_forwarder C = normalizeAddr (textOf (E ''NUMERA_FORWARDER_ADDRESS''))"
    and "rc_lsLmsr C = normalizeAddr (textOf (E ''LS_LMSR_MARKET_ADDRESS''))"
    and "rc_httpUrl C = nonempty (textOf (E ''RPC_HTTP_URL''))" "rc_maxGas C = wholeOf (E ''RELAY_MAX_GAS'')"
    and "rc_accountLimit C = wholeOf (E ''RELAY_ACCOUNT_LIMIT'')"
    and "rc_accountWindow C = wholeOf (E ''RELAY_ACCOUNT_WINDOW_SECONDS'')"
  using assms by (auto simp: relayConfig_def chainConfig_def split: option.splits)

lemma relayKey_shape:
  assumes "key_shape s"
  shows "\<exists>key. relayKey s = Some (''0x'' @ key) \<and> length key = 64 \<and> list_all hex key"
proof (cases "take 2 s = ''0x''")
  case True
  then have "s = ''0x'' @ drop 2 s" by (metis append_take_drop_id)
  then show ?thesis using assms True by (intro exI [of _ "drop 2 s"]) (auto simp: relayKey_def key_shape_def Let_def)
next
  case False
  then show ?thesis using assms by (auto simp: relayKey_def key_shape_def Let_def)
qed

lemma relay_limits:
  assumes "validateEnv url vars = Inr E" "relayConfig E = Some C"
  shows "1 \<le> rc_maxGas C" "rc_maxGas C \<le> 3000000" "1 \<le> rc_accountLimit C" "1 \<le> rc_accountWindow C"
    and "0 \<le> rc_maxFee C" "0 \<le> rc_dailyCap C" "0 \<le> rc_minBalance C"
proof -
  note f = relay_fields [OF assms(2)]
  show "1 \<le> rc_maxGas C" "rc_maxGas C \<le> 3000000" "1 \<le> rc_accountLimit C" "1 \<le> rc_accountWindow C"
    using f whole_at [OF assms(1) schema_at(5)] whole_at [OF assms(1) schema_at(6)] whole_at [OF assms(1) schema_at(7)] by auto
  from assms(2) show "0 \<le> rc_maxFee C" "0 \<le> rc_dailyCap C" "0 \<le> rc_minBalance C"
    by (rule relay_config_cases, use billionths_nonneg decimal_at(2) [OF assms(1) schema_at(8)]
        decimal_at(2) [OF assms(1) schema_at(9)] decimal_at(2) [OF assms(1) schema_at(10)] in simp)+
qed

lemma guarded_relay:
  assumes "validateEnv url vars = Inr E" "flagOf (E ''RELAY_ENABLED'')" "k \<in> set RELAY_VARIABLES"
  shows "textOf (E k) \<noteq> []"
proof -
  have "missing E RELAY_VARIABLES = []" using validated(2) [OF assms(1)] assms(2) by (auto simp: guards_def split: if_splits)
  then show ?thesis using assms(3) by (auto simp: missing_def filter_empty_conv)
qed

definition zero_text :: string where
  "zero_text = ''0x'' @ replicate 40 (CHR ''0'')"

lemma normalizeAddr_None: "s \<noteq> [] \<Longrightarrow> normalizeAddr s = None \<longleftrightarrow> lower s = zero_text"
  by (simp add: normalizeAddr_def zero_text_def)

lemma enabled_relay:
  assumes "validateEnv url vars = Inr E" "relayConfig E = Some C" "rc_enabled C"
  shows "\<exists>key u. rc_privateKey C = Some (''0x'' @ key) \<and> length key = 64 \<and> list_all hex key \<and> rc_httpUrl C = Some u"
    and "rc_forwarder C = None \<longleftrightarrow> lower (textOf (E ''NUMERA_FORWARDER_ADDRESS'')) = zero_text"
    and "rc_lsLmsr C = None \<longleftrightarrow> lower (textOf (E ''LS_LMSR_MARKET_ADDRESS'')) = zero_text"
proof -
  note f = relay_fields [OF assms(2)]
  have given: "textOf (E k) \<noteq> []" if "k \<in> set RELAY_VARIABLES" for k
    using guarded_relay [OF assms(1) _ that] assms(3) f(1) by simp
  then have "key_shape (textOf (E ''RELAYER_PRIVATE_KEY''))" "textOf (E ''RPC_HTTP_URL'') \<noteq> []"
    and *: "textOf (E ''NUMERA_FORWARDER_ADDRESS'') \<noteq> []" "textOf (E ''LS_LMSR_MARKET_ADDRESS'') \<noteq> []"
    using key_at [OF assms(1) schema_at(11)] by (simp_all add: RELAY_VARIABLES_def)
  then show "\<exists>key u. rc_privateKey C = Some (''0x'' @ key) \<and> length key = 64 \<and> list_all hex key \<and> rc_httpUrl C = Some u"
    using relayKey_shape f(2,5) by (auto simp: nonempty_def)
  show "rc_forwarder C = None \<longleftrightarrow> lower (textOf (E ''NUMERA_FORWARDER_ADDRESS'')) = zero_text"
    "rc_lsLmsr C = None \<longleftrightarrow> lower (textOf (E ''LS_LMSR_MARKET_ADDRESS'')) = zero_text"
    using f(3,4) normalizeAddr_None * by auto
qed

lemma sane_limits:
  assumes "rc_maxGas C \<le> 3000000" "1 \<le> rc_maxGas C" "0 \<le> rc_maxFee C" "rc_maxFee C \<le> 3 * 10 ^ 18"
  shows "sane_prices C"
proof -
  have "rc_maxGas C * rc_maxFee C \<le> 3000000 * (3 * 10 ^ 18)" using assms by (intro mult_mono) auto
  then show ?thesis using assms(3) by (simp add: sane_prices_def price_cap_def GWEI_def)
qed

text \<open>C23. A validated environment runs the components inside the hypotheses of their theorems: both indexers
  advance by at least one block and start at a block that exists; an enabled relay has a 32-byte key and a
  node, misses its forwarder or engine only when they were given as the zero address, sponsors at most
  3,000,000 gas a call, and for fee ceilings up to three billion gwei its spend is booked without rounding.\<close>

theorem validated_environment_meets_the_models:
  assumes "validateEnv url vars = Inr E"
  shows "1 \<le> cf_batchBlocks (chainConfig E) \<and> 0 \<le> cf_confirmations (chainConfig E) \<and> 0 \<le> cf_startBlock (chainConfig E) \<and>
    1 \<le> pc_batchBlocks (poolConfig E) \<and> 0 \<le> pc_confirmations (poolConfig E) \<and> 0 \<le> pc_startBlock (poolConfig E) \<and>
    (\<forall>C. relayConfig E = Some C \<longrightarrow> 1 \<le> rc_maxGas C \<and> rc_maxGas C \<le> 3000000 \<and> 0 \<le> rc_maxFee C \<and>
       0 \<le> rc_dailyCap C \<and> 1 \<le> rc_accountLimit C \<and> 1 \<le> rc_accountWindow C \<and>
       (rc_maxFee C \<le> 3 * 10 ^ 18 \<longrightarrow> sane_prices C) \<and>
       (rc_enabled C \<longrightarrow>
         (\<exists>key u. rc_privateKey C = Some (''0x'' @ key) \<and> length key = 64 \<and> list_all hex key \<and> rc_httpUrl C = Some u) \<and>
         (rc_forwarder C = None \<longleftrightarrow> lower (textOf (E ''NUMERA_FORWARDER_ADDRESS'')) = zero_text) \<and>
         (rc_lsLmsr C = None \<longleftrightarrow> lower (textOf (E ''LS_LMSR_MARKET_ADDRESS'')) = zero_text)))"
proof -
  have chain: "1 \<le> cf_batchBlocks (chainConfig E)" "0 \<le> cf_confirmations (chainConfig E)" "0 \<le> cf_startBlock (chainConfig E)"
    using whole_at(1) [OF assms schema_at(1)] whole_at(1) [OF assms schema_at(2)] whole_at(1) [OF assms schema_at(3)]
    by (simp_all add: chainConfig_def)
  moreover have "1 \<le> pc_batchBlocks (poolConfig E)" "0 \<le> pc_confirmations (poolConfig E)" "0 \<le> pc_startBlock (poolConfig E)"
    using chain pool_start_at [OF assms] by (simp_all add: poolConfig_def)
  ultimately show ?thesis
    using relay_limits [OF assms] sane_limits enabled_relay [OF assms] by (intro conjI allI impI) simp_all
qed

lemma validated_environment_meets_the_models_witness:
  "\<exists>E C key. validateEnv (\<lambda>s. s \<noteq> []) sample_vars = Inr E \<and> relayConfig E = Some C \<and> rc_enabled C \<and>
     rc_privateKey C = Some (''0x'' @ key) \<and> length key = 64 \<and> 1 \<le> cf_batchBlocks (chainConfig E) \<and> sane_prices C"
proof -
  obtain C where C: "relayConfig (parsedEnv (\<lambda>s. s \<noteq> []) sample_vars) = Some C" "rc_enabled C" "rc_maxFee C = 250000000000"
    using sample_relay by blast
  then show ?thesis using validated_environment_meets_the_models [OF sample_validated] sample_validated by auto
qed

text \<open>Amounts of gas money are read without loss: a fee ceiling in gwei and a cap and a floor in MON written
  with at most nine decimals and up to about a million (\<open>2 ^ 50\<close> billionths) reach the relay as exactly that
  many wei, although they pass through two roundings of a double.\<close>

theorem configured_amounts_are_exact:
  assumes "validateEnv url vars = Inr E"
    and "vars ''RELAY_MAX_FEE_GWEI'' = Some fee" "decimal_literal (js_trim fee) = Some (of_int f / 10 ^ 9)" "0 \<le> f" "f \<le> 2 ^ 50"
    and "vars ''RELAY_DAILY_CAP_MON'' = Some cap" "decimal_literal (js_trim cap) = Some (of_int c / 10 ^ 9)" "0 \<le> c" "c \<le> 2 ^ 50"
    and "vars ''RELAY_MIN_BALANCE_MON'' = Some low" "decimal_literal (js_trim low) = Some (of_int m / 10 ^ 9)" "0 \<le> m" "m \<le> 2 ^ 50"
  shows "\<exists>C. relayConfig E = Some C \<and> rc_maxFee C = f \<and> rc_dailyCap C = c * 10 ^ 9 \<and> rc_minBalance C = m * 10 ^ 9"
proof -
  have "billionths (decimalOf (E ''RELAY_MAX_FEE_GWEI'')) = Some f"
    using assms(2-5) by (intro amount_at [OF assms(1) schema_at(8)]) simp_all
  moreover have "billionths (decimalOf (E ''RELAY_DAILY_CAP_MON'')) = Some c"
    using assms(6-9) by (intro amount_at [OF assms(1) schema_at(9)]) simp_all
  moreover have "billionths (decimalOf (E ''RELAY_MIN_BALANCE_MON'')) = Some m"
    using assms(10-13) by (intro amount_at [OF assms(1) schema_at(10)]) simp_all
  ultimately show ?thesis by (simp add: relayConfig_def)
qed

lemma configured_amounts_are_exact_witness:
  "\<exists>E C. validateEnv (\<lambda>s. s \<noteq> []) sample_vars = Inr E \<and> relayConfig E = Some C \<and>
     rc_maxFee C = 250000000000 \<and> rc_dailyCap C = 20500000000000000000 \<and> rc_minBalance C = 250000000000000000"
proof -
  have v: "sample_vars ''RELAY_MAX_FEE_GWEI'' = Some ''250''" "sample_vars ''RELAY_DAILY_CAP_MON'' = Some ''20.5''"
    "sample_vars ''RELAY_MIN_BALANCE_MON'' = Some ''.25''" by (simp_all add: sample_vars_def)
  show ?thesis
    using configured_amounts_are_exact [OF sample_validated v(1) sample_amounts(1) _ _ v(2) sample_amounts(2) _ _ v(3)
        sample_amounts(3)] sample_validated by auto
qed



end
