(* ===== verification/PriceHistory.thy ===== *)
theory PriceHistory
  imports MarketViews
begin

text \<open>
  Price history: \<open>src/src/prices/prices.service.ts\<close> with \<open>dto/candles.dto.ts\<close> and \<open>dto/sparklines.dto.ts\<close>. The SQL of
  candles and sparklines is written out as the grouping it denotes; TimescaleDB's \<open>time_bucket\<close> is a parameter
  (width and time in milliseconds). \<open>first\<close> and \<open>last\<close> order the points of a group by time, which the primary
  key makes unique within a market and outcome.
\<close>

section \<open>Requests\<close>

datatype candle_interval = M1 | M5 | M15 | H1 | H4 | D1

definition INTERVAL_SQL :: "candle_interval \<Rightarrow> int" where
  "INTERVAL_SQL i = 60000 * (case i of M1 \<Rightarrow> 1 | M5 \<Rightarrow> 5 | M15 \<Rightarrow> 15 | H1 \<Rightarrow> 60 | H4 \<Rightarrow> 240 | D1 \<Rightarrow> 1440)"

record candles_dto =
  cd_interval :: candle_interval
  cd_outcome :: int
  cd_from :: "int option"
  cd_to :: "int option"
  cd_limit :: nat

definition default_candles :: candles_dto where
  "default_candles = \<lparr>cd_interval = M1, cd_outcome = 0, cd_from = None, cd_to = None, cd_limit = 500\<rparr>"

record sparklines_dto =
  sd_markets :: "string list"
  sd_outcome :: int
  sd_hours :: int

section \<open>Groups\<close>

text \<open>\<open>GROUP BY bucket ORDER BY bucket\<close>: the buckets in ascending order, and the points of one in order of time.\<close>

definition buckets :: "(int \<Rightarrow> int) \<Rightarrow> price_point list \<Rightarrow> int list" where
  "buckets f ps = sort (remdups (map (\<lambda>p. f (pp_time p)) ps))"

definition in_bucket :: "(int \<Rightarrow> int) \<Rightarrow> int \<Rightarrow> price_point list \<Rightarrow> price_point list" where
  "in_bucket f b ps = sort_key pp_time (filter (\<lambda>p. f (pp_time p) = b) ps)"

record raw_candle =
  rw_bucket :: int
  rw_open :: int
  rw_high :: int
  rw_low :: int
  rw_close :: int
  rw_volume :: int

definition candle_of :: "(int \<Rightarrow> int) \<Rightarrow> price_point list \<Rightarrow> int \<Rightarrow> raw_candle" where
  "candle_of f ps b = (let g = in_bucket f b ps
     in \<lparr>rw_bucket = b, rw_open = pp_price (hd g), rw_high = Max (set (map pp_price g)),
         rw_low = Min (set (map pp_price g)), rw_close = pp_price (last g),
         rw_volume = sum_list (map pp_volume g)\<rparr>)"

text \<open>The query: the window, the groups and \<open>LIMIT\<close>, which keeps the first groups of the order.\<close>

definition window :: "string \<Rightarrow> int \<Rightarrow> int \<Rightarrow> int \<Rightarrow> 'a db_scheme \<Rightarrow> price_point list" where
  "window ref outcome from to s =
     filter (\<lambda>p. pp_ref p = ref \<and> pp_outcome p = outcome \<and> from \<le> pp_time p \<and> pp_time p \<le> to) (pricePoints s)"

record candle =
  ca_time :: int
  ca_open :: string
  ca_high :: string
  ca_low :: string
  ca_close :: string
  ca_volume :: string

definition candleView :: "raw_candle \<Rightarrow> candle" where
  "candleView r = \<lparr>ca_time = rw_bucket r, ca_open = decimal_toString (rw_open r), ca_high = decimal_toString (rw_high r),
     ca_low = decimal_toString (rw_low r), ca_close = decimal_toString (rw_close r), ca_volume = decimal_toString (rw_volume r)\<rparr>"

definition window_end :: "int \<Rightarrow> candles_dto \<Rightarrow> int" where
  "window_end now dto = (case cd_to dto of Some t \<Rightarrow> t | None \<Rightarrow> now)"

definition window_start :: "int \<Rightarrow> candles_dto \<Rightarrow> int" where
  "window_start now dto = (case cd_from dto of Some t \<Rightarrow> t | None \<Rightarrow> window_end now dto - 24 * 3600 * 1000)"

definition candle_points :: "int \<Rightarrow> string \<Rightarrow> candles_dto \<Rightarrow> 'a db_scheme \<Rightarrow> price_point list" where
  "candle_points now ref dto s = window ref (cd_outcome dto) (window_start now dto) (window_end now dto) s"

definition candle_rows :: "(int \<Rightarrow> int \<Rightarrow> int) \<Rightarrow> int \<Rightarrow> string \<Rightarrow> candles_dto \<Rightarrow> 'a db_scheme \<Rightarrow> raw_candle list" where
  "candle_rows time_bucket now ref dto s =
     (let f = time_bucket (INTERVAL_SQL (cd_interval dto)); ps = candle_points now ref dto s
      in map (candle_of f ps) (take (cd_limit dto) (buckets f ps)))"

definition candles :: "(int \<Rightarrow> int \<Rightarrow> int) \<Rightarrow> int \<Rightarrow> string \<Rightarrow> candles_dto \<Rightarrow> 'a db_scheme \<Rightarrow> candle list" where
  "candles time_bucket now ref dto s = map candleView (candle_rows time_bucket now ref dto s)"

section \<open>Sparklines and latest prices\<close>

text \<open>\<open>Math.max(1, Math.round(hours * 60 / 40))\<close>, the quotient exact in halves.\<close>

definition bucketMinutes :: "int \<Rightarrow> int" where
  "bucketMinutes hours = max 1 ((hours * 60 * 2 + 40) div 80)"

definition spark_points :: "(int \<Rightarrow> int \<Rightarrow> int) \<Rightarrow> int \<Rightarrow> sparklines_dto \<Rightarrow> 'a db_scheme \<Rightarrow> string \<Rightarrow> string list" where
  "spark_points time_bucket now dto s ref =
     (let f = time_bucket (60000 * bucketMinutes (sd_hours dto));
          ps = filter (\<lambda>p. pp_ref p = ref \<and> pp_outcome p = sd_outcome dto \<and> now - sd_hours dto * 3600 * 1000 \<le> pp_time p)
                 (pricePoints s)
      in map (\<lambda>b. decimal_toString (pp_price (last (in_bucket f b ps)))) (buckets f ps))"

definition sparklines :: "(int \<Rightarrow> int \<Rightarrow> int) \<Rightarrow> int \<Rightarrow> sparklines_dto \<Rightarrow> 'a db_scheme \<Rightarrow> (string \<times> string list) list" where
  "sparklines time_bucket now dto s =
     filter (\<lambda>(ref, points). points \<noteq> []) (map (\<lambda>ref. (ref, spark_points time_bucket now dto s ref)) (sd_markets dto))"

definition latest :: "string \<Rightarrow> 'a db_scheme \<Rightarrow> (int \<times> string) list" where
  "latest ref s = map (\<lambda>x. (o_index x, decimal_toString (o_price x)))
     (js_sort byIndex (filter (\<lambda>x. o_ref x = ref) (outcomes s)))"

section \<open>Grouping loses nothing\<close>

lemma set_buckets: "set (buckets f ps) = (\<lambda>p. f (pp_time p)) ` set ps"
  by (simp add: buckets_def)

lemma strict_buckets: "sorted_wrt (<) (buckets f ps)"
  by (simp add: buckets_def strict_sorted_iff)

lemma in_bucket_props:
  "set (in_bucket f b ps) = {p \<in> set ps. f (pp_time p) = b}" "sorted (map pp_time (in_bucket f b ps))"
  by (auto simp: in_bucket_def)

lemma in_bucket_nonempty: "b \<in> set (buckets f ps) \<Longrightarrow> in_bucket f b ps \<noteq> []"
  using in_bucket_props(1) [of f b ps] by (auto simp: set_buckets)

lemma sum_groups:
  fixes val :: "price_point \<Rightarrow> int"
  assumes "distinct bs" "\<forall>p \<in> set ps. f (pp_time p) \<in> set bs"
  shows "sum_list (map (\<lambda>b. sum_list (map val (filter (\<lambda>p. f (pp_time p) = b) ps))) bs) = sum_list (map val ps)"
  using assms(2)
proof (induction ps)
  case (Cons p ps)
  have one: "sum_list (map (\<lambda>b. if f (pp_time p) = b then val p else 0) bs) = val p"
    using assms(1) Cons.prems by (simp add: sum_list_distinct_conv_sum_set)
  have "sum_list (map (\<lambda>b. sum_list (map val (filter (\<lambda>q. f (pp_time q) = b) (p # ps)))) bs) =
      sum_list (map (\<lambda>b. (if f (pp_time p) = b then val p else 0) + sum_list (map val (filter (\<lambda>q. f (pp_time q) = b) ps))) bs)"
    by (rule arg_cong [where f = sum_list], rule map_cong) auto
  then show ?case using Cons one by (simp add: sum_list_addf)
qed simp

lemma sum_in_bucket: "sum_list (map val (in_bucket f b ps)) = sum_list (map val (filter (\<lambda>p. f (pp_time p) = b) ps))"
  for val :: "price_point \<Rightarrow> int"
  by (simp add: in_bucket_def flip: sum_mset_sum_list)

lemma candle_volume:
  "sum_list (map (\<lambda>b. rw_volume (candle_of f ps b)) (buckets f ps)) = sum_list (map pp_volume ps)"
proof -
  have "distinct (buckets f ps)" "\<forall>p \<in> set ps. f (pp_time p) \<in> set (buckets f ps)"
    by (simp_all add: buckets_def)
  from sum_groups [OF this] show ?thesis by (simp add: candle_of_def Let_def sum_in_bucket)
qed

lemma candle_range:
  assumes "b \<in> set (buckets f ps)"
  shows "rw_low (candle_of f ps b) \<le> rw_open (candle_of f ps b)" "rw_open (candle_of f ps b) \<le> rw_high (candle_of f ps b)"
    and "rw_low (candle_of f ps b) \<le> rw_close (candle_of f ps b)" "rw_close (candle_of f ps b) \<le> rw_high (candle_of f ps b)"
    and "\<And>p. p \<in> set ps \<Longrightarrow> f (pp_time p) = b \<Longrightarrow>
      rw_low (candle_of f ps b) \<le> pp_price p \<and> pp_price p \<le> rw_high (candle_of f ps b)"
proof -
  note ne = in_bucket_nonempty [OF assms]
  show "rw_low (candle_of f ps b) \<le> rw_open (candle_of f ps b)" "rw_open (candle_of f ps b) \<le> rw_high (candle_of f ps b)"
    "rw_low (candle_of f ps b) \<le> rw_close (candle_of f ps b)" "rw_close (candle_of f ps b) \<le> rw_high (candle_of f ps b)"
    using ne hd_in_set [OF ne] last_in_set [OF ne] by (simp_all add: candle_of_def Let_def)
  show "rw_low (candle_of f ps b) \<le> pp_price p \<and> pp_price p \<le> rw_high (candle_of f ps b)"
    if "p \<in> set ps" "f (pp_time p) = b" for p
  proof -
    have "p \<in> set (in_bucket f b ps)" using that in_bucket_props(1) by simp
    then show ?thesis by (simp add: candle_of_def Let_def)
  qed
qed

lemma close_is_latest:
  assumes "p \<in> set ps" "f (pp_time p) = b" "\<And>q. q \<in> set ps \<Longrightarrow> q \<noteq> p \<Longrightarrow> pp_time q < pp_time p"
  shows "last (in_bucket f b ps) = p"
proof (rule ccontr)
  let ?g = "in_bucket f b ps"
  assume neq: "last ?g \<noteq> p"
  have p: "p \<in> set ?g" using assms(1,2) in_bucket_props(1) by simp
  then have "last ?g \<in> set ?g" by (intro last_in_set) auto
  then have "pp_time (last ?g) < pp_time p" using assms(3) neq in_bucket_props(1) [of f b ps] by auto
  moreover have "pp_time p \<le> pp_time (last ?g)"
  proof -
    obtain i where i: "i < length ?g" "?g ! i = p" using p by (auto simp: in_set_conv_nth)
    have "map pp_time ?g ! i \<le> map pp_time ?g ! (length ?g - 1)"
      using i(1) by (intro sorted_nth_mono [OF in_bucket_props(2)]) auto
    then show ?thesis using i last_conv_nth [of ?g] by fastforce
  qed
  ultimately show False by simp
qed

section \<open>Spacing\<close>

lemma spaced:
  fixes xs :: "int list"
  assumes "sorted_wrt (<) xs" "\<forall>x \<in> set xs. w dvd x - orig" "0 < w" "i \<le> j" "j < length xs"
  shows "xs ! i + int (j - i) * w \<le> xs ! j"
  using assms(4,5)
proof (induction j rule: dec_induct)
  case (step k)
  have "xs ! k < xs ! Suc k" using assms(1) step.prems by (simp add: sorted_wrt_nth_less)
  moreover have "w dvd xs ! Suc k - orig" "w dvd xs ! k - orig" using assms(2) step.prems by simp_all
  from dvd_diff [OF this] have "w dvd (xs ! Suc k - orig) - (xs ! k - orig)" .
  ultimately have "w \<le> xs ! Suc k - xs ! k" by (intro zdvd_imp_le) auto
  then show ?case using step.IH step.hyps step.prems by (simp add: Suc_diff_le algebra_simps)
qed simp

lemma bucket_dvd:
  fixes w :: int
  assumes "\<And>t. f t = t - (t - orig) mod w"
  shows "w dvd f t - orig"
proof -
  have "f t - orig = (t - orig) - (t - orig) mod w" by (simp add: assms)
  then show ?thesis by (simp only: dvd_minus_mod)
qed

section \<open>Properties\<close>

text \<open>Candles summarize the window: they are in strictly ascending order of time and at most as many as asked
  for; each runs from the price of its first point to that of its last, inside its low and its high, which
  bound every point of the bucket; and when the buckets fit the limit no volume of the window is lost.\<close>

theorem candles_summarize_the_window:
  assumes "ps = candle_points now ref dto s" "f = time_bucket (INTERVAL_SQL (cd_interval dto))"
    and "rows = candle_rows time_bucket now ref dto s"
  shows "sorted_wrt (<) (map rw_bucket rows) \<and> length rows \<le> cd_limit dto \<and>
    (\<forall>c \<in> set rows. rw_low c \<le> rw_open c \<and> rw_open c \<le> rw_high c \<and> rw_low c \<le> rw_close c \<and> rw_close c \<le> rw_high c \<and>
       (\<forall>p \<in> set ps. f (pp_time p) = rw_bucket c \<longrightarrow> rw_low c \<le> pp_price p \<and> pp_price p \<le> rw_high c)) \<and>
    (length (buckets f ps) \<le> cd_limit dto \<longrightarrow> sum_list (map rw_volume rows) = sum_list (map pp_volume ps) \<and>
       set (map rw_bucket rows) = (\<lambda>p. f (pp_time p)) ` set ps)"
proof -
  have rows: "rows = map (candle_of f ps) (take (cd_limit dto) (buckets f ps))"
    using assms by (simp add: candle_rows_def Let_def)
  have times: "map rw_bucket rows = take (cd_limit dto) (buckets f ps)"
    by (simp add: rows candle_of_def Let_def comp_def)
  have "sorted_wrt (<) (map rw_bucket rows)" using strict_buckets sorted_wrt_take unfolding times by blast
  moreover have "rw_low c \<le> rw_open c \<and> rw_open c \<le> rw_high c \<and> rw_low c \<le> rw_close c \<and> rw_close c \<le> rw_high c \<and>
       (\<forall>p \<in> set ps. f (pp_time p) = rw_bucket c \<longrightarrow> rw_low c \<le> pp_price p \<and> pp_price p \<le> rw_high c)"
    if c: "c \<in> set rows" for c
  proof -
    obtain b where b: "c = candle_of f ps b" "b \<in> set (buckets f ps)" using c unfolding rows by (auto dest: in_set_takeD)
    then have "rw_bucket c = b" by (simp add: candle_of_def Let_def)
    then show ?thesis using candle_range [OF b(2)] b(1) by auto
  qed
  moreover have "sum_list (map rw_volume rows) = sum_list (map pp_volume ps) \<and> set (map rw_bucket rows) = (\<lambda>p. f (pp_time p)) ` set ps"
    if "length (buckets f ps) \<le> cd_limit dto"
    using that candle_volume [of f ps] unfolding times by (simp add: rows comp_def set_buckets)
  ultimately show ?thesis by (auto simp: rows)
qed

definition day_bucket :: "int \<Rightarrow> int \<Rightarrow> int" where
  "day_bucket w t = t - (t - 0) mod w"

definition sample_point :: "int \<Rightarrow> int \<Rightarrow> int \<Rightarrow> price_point" where
  "sample_point t price vol = \<lparr>pp_ref = ''m'', pp_outcome = 0, pp_time = t, pp_price = price, pp_volume = vol\<rparr>"

definition sample_prices_db :: db where
  "sample_prices_db = \<lparr>markets = [], outcomes = [], trades = [], positions = [],
     pricePoints = [sample_point 60000 5 10, sample_point 61000 9 20, sample_point 125000 4 7], drafts = [],
     categories = [], proposals = [], bans = [], poolLeaves = [], cursors = []\<rparr>"

lemma sample_window: "candle_points 200000 ''m'' (default_candles\<lparr>cd_limit := n\<rparr>) sample_prices_db =
  [sample_point 60000 5 10, sample_point 61000 9 20, sample_point 125000 4 7]"
  by (simp add: candle_points_def window_start_def window_end_def window_def sample_prices_db_def sample_point_def
      default_candles_def)

lemma sample_buckets: "buckets (day_bucket (INTERVAL_SQL M1)) [sample_point 60000 5 10, sample_point 61000 9 20, sample_point 125000 4 7] =
  [60000, 120000]"
  by (simp add: buckets_def day_bucket_def INTERVAL_SQL_def sample_point_def)

lemma candles_summarize_the_window_witness:
  "\<exists>rows. rows = candle_rows day_bucket 200000 ''m'' default_candles sample_prices_db \<and>
     set (map rw_bucket rows) = {60000, 120000} \<and> sum_list (map rw_volume rows) = 37"
proof -
  let ?ps = "[sample_point 60000 5 10, sample_point 61000 9 20, sample_point 125000 4 7]"
  have ps: "?ps = candle_points 200000 ''m'' default_candles sample_prices_db"
    using sample_window [of 500] by (simp add: default_candles_def)
  have f: "day_bucket (INTERVAL_SQL M1) = day_bucket (INTERVAL_SQL (cd_interval default_candles))" by (simp add: default_candles_def)
  have "length (buckets (day_bucket (INTERVAL_SQL M1)) ?ps) \<le> cd_limit default_candles"
    by (simp add: sample_buckets default_candles_def)
  moreover have "(\<lambda>p. day_bucket (INTERVAL_SQL M1) (pp_time p)) ` set ?ps = {60000, 120000}" "sum_list (map pp_volume ?ps) = 37"
    by (auto simp: day_bucket_def INTERVAL_SQL_def sample_point_def)
  ultimately show ?thesis using candles_summarize_the_window [OF ps refl refl, of day_bucket] f [symmetric] by simp
qed

text \<open>A window with more buckets than the limit loses its newest ones: every candle served starts at least as
  many widths before the newest bucket as there are buckets over the limit. With the defaults (a day of
  one-minute candles, 500 of them) an active market's chart ends almost sixteen hours ago.\<close>

theorem long_windows_lose_the_newest:
  assumes "ps = candle_points now ref dto s" "w = INTERVAL_SQL (cd_interval dto)"
    and "\<And>t. time_bucket w t = t - (t - orig) mod w"
    and "cd_limit dto < length (buckets (time_bucket w) ps)" "c \<in> set (candle_rows time_bucket now ref dto s)"
  shows "rw_bucket c + int (length (buckets (time_bucket w) ps) - cd_limit dto) * w \<le> last (buckets (time_bucket w) ps)"
proof -
  let ?bs = "buckets (time_bucket w) ps"
  have "c \<in> set (map (candle_of (time_bucket w) ps) (take (cd_limit dto) ?bs))"
    using assms(1,2,5) by (simp add: candle_rows_def Let_def)
  then obtain i where i: "i < cd_limit dto" "i < length ?bs" "rw_bucket c = ?bs ! i"
    by (auto simp: candle_of_def Let_def in_set_conv_nth)
  have "0 < w" by (simp add: assms(2) INTERVAL_SQL_def split: candle_interval.split)
  moreover have "\<forall>x \<in> set ?bs. w dvd x - orig" using bucket_dvd [OF assms(3)] by (auto simp: set_buckets)
  ultimately have "?bs ! i + int (length ?bs - 1 - i) * w \<le> ?bs ! (length ?bs - 1)"
    using i(2) by (intro spaced [OF strict_buckets]) auto
  moreover have "int (length ?bs - cd_limit dto) * w \<le> int (length ?bs - 1 - i) * w"
    using i(1) \<open>0 < w\<close> by (intro mult_right_mono) auto
  moreover have "last ?bs = ?bs ! (length ?bs - 1)" using i(2) by (intro last_conv_nth) auto
  ultimately show ?thesis using i(3) by simp
qed

lemma long_windows_lose_the_newest_witness:
  "\<exists>c. c \<in> set (candle_rows day_bucket 200000 ''m'' (default_candles\<lparr>cd_limit := 1\<rparr>) sample_prices_db) \<and>
     rw_bucket c + 60000 \<le> 120000"
proof -
  let ?ps = "[sample_point 60000 5 10, sample_point 61000 9 20, sample_point 125000 4 7]"
  let ?dto = "default_candles\<lparr>cd_limit := 1\<rparr>"
  have w: "INTERVAL_SQL M1 = INTERVAL_SQL (cd_interval ?dto)" and w1: "cd_interval default_candles = M1" by (simp_all add: default_candles_def)
  obtain c where c: "c \<in> set (candle_rows day_bucket 200000 ''m'' ?dto sample_prices_db)"
    using that [of "candle_of (day_bucket (INTERVAL_SQL M1)) ?ps 60000"]
    by (simp add: candle_rows_def Let_def sample_window w1 sample_buckets)
  have "cd_limit ?dto < length (buckets (day_bucket (INTERVAL_SQL M1)) ?ps)" by (simp add: sample_buckets)
  from long_windows_lose_the_newest [OF sample_window [symmetric] w day_bucket_def this c]
  have "rw_bucket c + 60000 \<le> 120000" unfolding sample_buckets by (simp add: INTERVAL_SQL_def)
  then show ?thesis using c by blast
qed

lemma count_buckets:
  assumes "\<And>t. f t = t - (t - orig) mod w" "0 < w" "\<forall>p \<in> set ps. start \<le> pp_time p \<and> pp_time p \<le> now"
    "now - start \<le> int k * w"
  shows "length (buckets f ps) \<le> Suc k"
proof (rule ccontr)
  let ?bs = "buckets f ps"
  assume "\<not> length ?bs \<le> Suc k"
  then have len: "Suc k < length ?bs" by simp
  have "\<forall>x \<in> set ?bs. w dvd x - orig" using bucket_dvd [OF assms(1)] by (auto simp: set_buckets)
  then have "?bs ! 0 + int (Suc k - 0) * w \<le> ?bs ! Suc k"
    using len assms(2) by (intro spaced [OF strict_buckets]) auto
  have ends: "start - w < b \<and> b \<le> now" if b: "b \<in> set ?bs" for b
  proof -
    obtain p where "p \<in> set ps" "b = f (pp_time p)" using b by (auto simp: set_buckets)
    then show ?thesis using assms(1,2,3) pos_mod_bound [OF assms(2), of "pp_time p - orig"]
        pos_mod_sign [OF assms(2), of "pp_time p - orig"] by fastforce
  qed
  have "?bs ! 0 \<in> set ?bs" "?bs ! Suc k \<in> set ?bs" using len by (auto intro: nth_mem)
  then show False using \<open>?bs ! 0 + _ \<le> _\<close> ends [of "?bs ! 0"] ends [of "?bs ! Suc k"] assms(4) by (simp add: algebra_simps)
qed

lemma bucketMinutes_wide: "1 \<le> hours \<Longrightarrow> hours * 3600 * 1000 \<le> 40 * (60000 * bucketMinutes hours)"
  by (simp add: bucketMinutes_def)

text \<open>Sparklines are short and in the caller's order: the markets that have history, as they were asked for,
  each with at most 41 points as long as no point lies in the future.\<close>

theorem sparklines_are_short_and_in_order:
  assumes "1 \<le> sd_hours dto"
    and "\<And>w t. 0 < w \<Longrightarrow> time_bucket w t = t - (t - orig w) mod w"
    and "\<forall>p \<in> set (pricePoints s). pp_time p \<le> now"
  shows "map fst (sparklines time_bucket now dto s) =
      filter (\<lambda>ref. \<exists>p \<in> set (pricePoints s). pp_ref p = ref \<and> pp_outcome p = sd_outcome dto \<and>
        now - sd_hours dto * 3600 * 1000 \<le> pp_time p) (sd_markets dto) \<and>
    (\<forall>(ref, points) \<in> set (sparklines time_bucket now dto s). points \<noteq> [] \<and> length points \<le> 41)"
proof -
  define w where "w = 60000 * bucketMinutes (sd_hours dto)"
  define start where "start = now - sd_hours dto * 3600 * 1000"
  define ps where "ps = (\<lambda>ref. filter (\<lambda>p. pp_ref p = ref \<and> pp_outcome p = sd_outcome dto \<and> start \<le> pp_time p) (pricePoints s))"
  have w: "0 < w" "now - start \<le> int 40 * w" using bucketMinutes_wide [OF assms(1)] assms(1)
    by (auto simp: w_def start_def bucketMinutes_def)
  have len: "length (spark_points time_bucket now dto s ref) = length (buckets (time_bucket w) (ps ref))" for ref
    by (simp add: spark_points_def Let_def w_def ps_def start_def)
  have "length (buckets (time_bucket w) (ps ref)) \<le> Suc 40" for ref
    using assms(2) [OF w(1)] w assms(3) by (intro count_buckets [where orig = "orig w" and w = w and start = start and now = now]) (auto simp: ps_def)
  then have short: "length (spark_points time_bucket now dto s ref) \<le> 41" for ref using len by simp
  have empty: "spark_points time_bucket now dto s ref = [] \<longleftrightarrow> ps ref = []" for ref
    using len [of ref] by (simp add: buckets_def flip: length_0_conv) (simp add: buckets_def)
  have "ps ref \<noteq> [] \<longleftrightarrow> (\<exists>p \<in> set (pricePoints s). pp_ref p = ref \<and> pp_outcome p = sd_outcome dto \<and> start \<le> pp_time p)" for ref
    by (auto simp: ps_def filter_empty_conv)
  then show ?thesis using short empty
    by (auto simp: sparklines_def filter_map comp_def start_def)
qed

lemma sparklines_are_short_and_in_order_witness:
  "map fst (sparklines day_bucket 200000 \<lparr>sd_markets = [''x'', ''m''], sd_outcome = 0, sd_hours = 1\<rparr> sample_prices_db) = [''m'']"
proof -
  have "\<forall>p \<in> set (pricePoints sample_prices_db). pp_time p \<le> 200000"
    by (simp add: sample_prices_db_def sample_point_def)
  then show ?thesis
    using sparklines_are_short_and_in_order [of "\<lparr>sd_markets = [''x'', ''m''], sd_outcome = 0, sd_hours = 1\<rparr>" day_bucket "\<lambda>_. 0"
        sample_prices_db 200000]
    by (simp add: day_bucket_def) (simp add: sample_prices_db_def sample_point_def)
qed

end
