(* ===== verification/MarketCache.thy ===== *)
theory MarketCache
  imports MarketViews Json
begin

text \<open>
  The short-lived copies of the read API: the JSON cache of \<open>src/src/redis/redis.service.ts\<close> and its use in
  \<open>src/src/markets/markets.service.ts\<close> (\<open>list\<close> and \<open>getById\<close> with their keys and lifetimes, \<open>invalidate\<close>). A request
  that misses reads the tables and stores its answer in two steps, between which anything may happen; an
  expired key is absent. How a view is printed is a parameter. \<open>Engine\<close> has a single value, so the engine
  filter of a listing is left out.
\<close>

section \<open>The JSON cache\<close>

record cached_text =
  ce_raw :: string
  ce_expires :: "int option"

type_synonym text_cache = "string \<rightharpoonup> cached_text"

definition redisText :: "int \<Rightarrow> string \<Rightarrow> text_cache \<Rightarrow> string option" where
  "redisText now k c = (case c k of None \<Rightarrow> None
     | Some e \<Rightarrow> (case ce_expires e of None \<Rightarrow> Some (ce_raw e) | Some x \<Rightarrow> if x \<le> now then None else Some (ce_raw e)))"

text \<open>\<open>None\<close> is \<open>null\<close>: a miss, a text that does not parse, or the JSON \<open>null\<close>.\<close>

definition getJson :: "int \<Rightarrow> string \<Rightarrow> text_cache \<Rightarrow> json option" where
  "getJson now k c = (case redisText now k c of None \<Rightarrow> None
     | Some raw \<Rightarrow> (case json_parse raw of Some v \<Rightarrow> if v = JNull then None else Some v | None \<Rightarrow> None))"

definition setJson :: "int \<Rightarrow> string \<Rightarrow> json \<Rightarrow> int option \<Rightarrow> text_cache \<Rightarrow> text_cache" where
  "setJson now k v ttlSeconds c = c(k \<mapsto> \<lparr>ce_raw = stringify v,
     ce_expires = (case ttlSeconds of Some n \<Rightarrow> if 0 < n then Some (now + n * 1000) else None | None \<Rightarrow> None)\<rparr>)"

definition delKeys :: "string list \<Rightarrow> text_cache \<Rightarrow> text_cache" where
  "delKeys ks c = (\<lambda>k. if k \<in> set ks then None else c k)"

text \<open>\<open>delPattern\<close> with a pattern of literal text and a final \<open>*\<close>, the only kind in use.\<close>

definition delPattern :: "string \<Rightarrow> text_cache \<Rightarrow> text_cache" where
  "delPattern pre c = (\<lambda>k. if take (length pre) k = pre then None else c k)"

section \<open>Keys\<close>

datatype read_request = Detail string | Listing list_dto

definition LIST_TTL :: int where
  "LIST_TTL = 3"

definition DETAIL_TTL :: int where
  "DETAIL_TTL = 2"

definition ttl_of :: "read_request \<Rightarrow> int" where
  "ttl_of r = (case r of Detail _ \<Rightarrow> DETAIL_TTL | Listing _ \<Rightarrow> LIST_TTL)"

definition status_name :: "market_status \<Rightarrow> string" where
  "status_name st = (case st of TRADING \<Rightarrow> ''TRADING'' | RESOLVED \<Rightarrow> ''RESOLVED'' | INVALID \<Rightarrow> ''INVALID'')"

definition sort_name :: "market_sort \<Rightarrow> string" where
  "sort_name x = (case x of ByCloseTime \<Rightarrow> ''closeTime'' | ByPot \<Rightarrow> ''pot'' | ByCreatedAt \<Rightarrow> ''createdAt'')"

definition given :: "string \<Rightarrow> string option \<Rightarrow> (string \<times> json) list" where
  "given name x = (case x of None \<Rightarrow> [] | Some v \<Rightarrow> [(name, JStr v)])"

text \<open>\<open>JSON.stringify(dto)\<close>, which leaves out what is \<open>undefined\<close>.\<close>

definition dto_json :: "list_dto \<Rightarrow> json" where
  "dto_json d = JObj ([(''limit'', JNum (dec (int (ld_limit d)))), (''offset'', JNum (dec (int (ld_offset d))))] @
     given ''status'' (map_option status_name (ld_status d)) @ given ''category'' (ld_category d) @
     given ''search'' (ld_search d) @ (if ld_openOnly d then [(''openOnly'', JBool True)] else []) @
     [(''sort'', JStr (sort_name (ld_sort d))), (''order'', JStr (if ld_descending d then ''desc'' else ''asc''))])"

definition listKey :: "list_dto \<Rightarrow> string" where
  "listKey d = listPrefix @ stringify (dto_json d)"

definition cacheKey :: "read_request \<Rightarrow> string" where
  "cacheKey r = (case r of Detail i \<Rightarrow> detailKey i | Listing d \<Rightarrow> listKey d)"

definition invalidateCache :: "string \<Rightarrow> text_cache \<Rightarrow> text_cache" where
  "invalidateCache ref c = delPattern listPrefix (delKeys [detailKey ref] c)"

section \<open>Keys tell requests apart\<close>

lemma plain_dto: "plain (dto_json d)"
  using plain_number by (auto simp: dto_json_def given_def split: option.split)

lemma names_inj: "status_name a = status_name b \<Longrightarrow> a = b" "sort_name x = sort_name y \<Longrightarrow> x = y"
  by (cases a; cases b; simp add: status_name_def) (cases x; cases y; simp add: sort_name_def)

lemma dto_json_inj:
  assumes "dto_json d = dto_json e"
  shows "d = e"
  using assms names_inj
  by (cases d; cases e) (auto simp: dto_json_def given_def split: option.splits if_splits)

lemma cacheKey_inj: "cacheKey r = cacheKey q \<Longrightarrow> r = q"
  using stringify_inj [OF plain_dto plain_dto] dto_json_inj
  by (cases r; cases q) (auto simp: cacheKey_def detailKey_def listKey_def listPrefix_def)

section \<open>Requests over time\<close>

text \<open>What the tables answer to a request at a time: \<open>None\<close> is the 404.\<close>

definition tableAnswer ::
  "(market_view \<Rightarrow> json) \<Rightarrow> (market_view paginated \<Rightarrow> json) \<Rightarrow> (int \<Rightarrow> int \<Rightarrow> string) \<Rightarrow> int \<Rightarrow> (market \<Rightarrow> int) \<Rightarrow> (int \<Rightarrow> db) \<Rightarrow>
   int \<Rightarrow> read_request \<Rightarrow> json option" where
  "tableAnswer encode encodePage formatUnits decimals createdAt db_at t r = (case r of
     Detail i \<Rightarrow> map_option encode (getById formatUnits decimals t i (db_at t))
   | Listing d \<Rightarrow> Some (encodePage (listMarkets formatUnits decimals t createdAt d (db_at t))))"

record cache_world =
  cw_now :: int
  cw_cache :: text_cache
  cw_reads :: "(read_request \<times> json \<times> int) list"  \<comment> \<open>answers read and not yet stored, and when\<close>

definition store_read :: "read_request \<Rightarrow> json \<Rightarrow> int \<Rightarrow> cache_world \<Rightarrow> cache_world" where
  "store_read r v t w = w\<lparr>cw_cache := setJson (cw_now w) (cacheKey r) v (Some (ttl_of r)) (cw_cache w),
     cw_reads := remove1 (r, v, t) (cw_reads w)\<rparr>"

text \<open>One step, and the answer it serves. \<open>latency\<close> bounds how long a request takes from reading the tables to
  storing its answer. \<open>ttl_of\<close> is the lifetime \<open>wrap\<close> and \<open>setJson\<close> are called with.\<close>

inductive cache_step ::
  "(int \<Rightarrow> read_request \<Rightarrow> json option) \<Rightarrow> int \<Rightarrow> cache_world \<Rightarrow> (read_request \<times> json \<times> int) list \<Rightarrow> cache_world \<Rightarrow> bool"
  for answer latency where
  waits: "cw_now w \<le> t \<Longrightarrow> \<forall>(r, v, t0) \<in> set (cw_reads w). t \<le> t0 + latency \<Longrightarrow>
    cache_step answer latency w [] (w\<lparr>cw_now := t\<rparr>)"
| hits: "getJson (cw_now w) (cacheKey r) (cw_cache w) = Some v \<Longrightarrow>
    cache_step answer latency w [(r, v, cw_now w)] w"
| misses: "getJson (cw_now w) (cacheKey r) (cw_cache w) = None \<Longrightarrow> answer (cw_now w) r = Some v \<Longrightarrow>
    cache_step answer latency w [] (w\<lparr>cw_reads := (r, v, cw_now w) # cw_reads w\<rparr>)"
| stores: "(r, v, t) \<in> set (cw_reads w) \<Longrightarrow>
    cache_step answer latency w [(r, v, cw_now w)] (store_read r v t w)"
| drops: "cache_step answer latency w [] (w\<lparr>cw_cache := invalidateCache ref (cw_cache w)\<rparr>)"

inductive cache_run ::
  "(int \<Rightarrow> read_request \<Rightarrow> json option) \<Rightarrow> int \<Rightarrow> cache_world \<Rightarrow> (read_request \<times> json \<times> int) list \<Rightarrow> cache_world \<Rightarrow> bool"
  for answer latency w0 where
  starts: "cache_run answer latency w0 [] w0"
| goes_on: "cache_run answer latency w0 served w \<Longrightarrow> cache_step answer latency w now_served w' \<Longrightarrow>
    cache_run answer latency w0 (served @ now_served) w'"

text \<open>What holds of the copies: each is an answer of the tables, young enough, and for the requests \<open>R\<close> not older
  than \<open>T\<close>.\<close>

definition entry_young :: "(int \<Rightarrow> read_request \<Rightarrow> json option) \<Rightarrow> int \<Rightarrow> (read_request \<Rightarrow> bool) \<Rightarrow> int \<Rightarrow> int \<Rightarrow> string \<Rightarrow> cached_text \<Rightarrow> bool" where
  "entry_young answer latency R T now k e \<longleftrightarrow> (\<exists>r v t x. k = cacheKey r \<and> ce_raw e = stringify v \<and> answer t r = Some v \<and>
     t \<le> now \<and> ce_expires e = Some x \<and> x \<le> t + latency + ttl_of r * 1000 \<and> (R r \<longrightarrow> T \<le> t))"

definition read_young :: "(int \<Rightarrow> read_request \<Rightarrow> json option) \<Rightarrow> int \<Rightarrow> (read_request \<Rightarrow> bool) \<Rightarrow> int \<Rightarrow> int \<Rightarrow> read_request \<times> json \<times> int \<Rightarrow> bool" where
  "read_young answer latency R T now x \<longleftrightarrow> (case x of (r, v, t) \<Rightarrow>
     answer t r = Some v \<and> t \<le> now \<and> now \<le> t + latency \<and> (R r \<longrightarrow> T \<le> t))"

definition young :: "(int \<Rightarrow> read_request \<Rightarrow> json option) \<Rightarrow> int \<Rightarrow> (read_request \<Rightarrow> bool) \<Rightarrow> int \<Rightarrow> cache_world \<Rightarrow> bool" where
  "young answer latency R T w \<longleftrightarrow>
     (\<forall>k e. cw_cache w k = Some e \<longrightarrow> entry_young answer latency R T (cw_now w) k e) \<and>
     list_all (read_young answer latency R T (cw_now w)) (cw_reads w)"

lemma entry_young_later: "entry_young answer latency R T now k e \<Longrightarrow> now \<le> t \<Longrightarrow> entry_young answer latency R T t k e"
  unfolding entry_young_def by (elim exE conjE, intro exI conjI) auto

definition recent :: "(int \<Rightarrow> read_request \<Rightarrow> json option) \<Rightarrow> int \<Rightarrow> (read_request \<Rightarrow> bool) \<Rightarrow> int \<Rightarrow> read_request \<times> json \<times> int \<Rightarrow> bool" where
  "recent answer latency R T x \<longleftrightarrow> (case x of (r, v, now) \<Rightarrow>
     \<exists>t. answer t r = Some v \<and> t \<le> now \<and> now \<le> t + latency + ttl_of r * 1000 \<and> (R r \<longrightarrow> T \<le> t))"

lemma ttl_pos: "0 < ttl_of r"
  by (simp add: ttl_of_def LIST_TTL_def DETAIL_TTL_def split: read_request.split)

lemma cached_answer:
  assumes "young answer latency R T w" "getJson (cw_now w) (cacheKey r) (cw_cache w) = Some v"
    and "\<And>t q u. answer t q = Some u \<Longrightarrow> plain u"
  shows "recent answer latency R T (r, v, cw_now w)"
proof -
  obtain e where e: "cw_cache w (cacheKey r) = Some e" "json_parse (ce_raw e) = Some v"
    "\<And>x. ce_expires e = Some x \<Longrightarrow> cw_now w < x"
    using assms(2) by (auto simp: getJson_def redisText_def split: option.splits if_splits)
  obtain q u t x where q: "cacheKey r = cacheKey q" "ce_raw e = stringify u" "answer t q = Some u" "t \<le> cw_now w"
    "ce_expires e = Some x" "x \<le> t + latency + ttl_of q * 1000" "R q \<longrightarrow> T \<le> t"
    using assms(1) e(1) unfolding young_def entry_young_def by blast
  have "q = r" using q(1) cacheKey_inj by metis
  moreover have "u = v" using e(2) q(2) json_parse_stringify [OF assms(3) [OF q(3)]] by simp
  ultimately show ?thesis using q(3-7) e(3) [OF q(5)] by (auto simp: recent_def)
qed

lemma step_young:
  assumes "cache_step answer latency w served w'" "young answer latency R T w" "\<And>r. R r \<Longrightarrow> T \<le> cw_now w" "0 \<le> latency"
    and plain: "\<And>t q u. answer t q = Some u \<Longrightarrow> plain u"
  shows "young answer latency R T w' \<and> list_all (recent answer latency R T) served \<and> cw_now w \<le> cw_now w'"
  using assms(1)
proof cases
  case (waits t)
  then show ?thesis using assms(2) entry_young_later
    by (fastforce simp: young_def read_young_def list_all_iff)
next
  case (hits r v)
  then show ?thesis using cached_answer [OF assms(2) _ plain] assms(2) by simp
next
  case (misses r v)
  then show ?thesis using assms(2-4) by (simp add: young_def read_young_def)
next
  case (stores r v t)
  have read: "answer t r = Some v" "t \<le> cw_now w" "cw_now w \<le> t + latency" "R r \<longrightarrow> T \<le> t"
    using assms(2) stores(3) by (auto simp: young_def read_young_def list_all_iff)
  define e where "e = \<lparr>ce_raw = stringify v, ce_expires = Some (cw_now w + ttl_of r * 1000)\<rparr>"
  have e: "entry_young answer latency R T (cw_now w) (cacheKey r) e"
    using read unfolding entry_young_def e_def
    by (intro exI [of _ r] exI [of _ v] exI [of _ t] exI [of _ "cw_now w + ttl_of r * 1000"]) simp
  have w': "w' = w\<lparr>cw_cache := (cw_cache w)(cacheKey r \<mapsto> e), cw_reads := remove1 (r, v, t) (cw_reads w)\<rparr>"
    using ttl_pos [of r] by (simp add: stores(2) store_read_def setJson_def e_def)
  have "young answer latency R T w'"
    using assms(2) e by (auto simp: young_def w' list_all_iff dest: notin_set_remove1)
  moreover have "recent answer latency R T (r, v, cw_now w)" using read ttl_pos [of r] by (auto simp: recent_def)
  ultimately show ?thesis using stores by (simp add: store_read_def)
next
  case (drops ref)
  then show ?thesis using assms(2)
    by (auto simp: young_def invalidateCache_def delPattern_def delKeys_def split: if_splits)
qed

lemma run_young:
  assumes "cache_run answer latency w0 served w" "young answer latency R T w0" "\<And>r. R r \<Longrightarrow> T \<le> cw_now w0" "0 \<le> latency"
    and plain: "\<And>t q u. answer t q = Some u \<Longrightarrow> plain u"
  shows "young answer latency R T w \<and> list_all (recent answer latency R T) served \<and> cw_now w0 \<le> cw_now w"
  using assms(1)
proof induction
  case (goes_on served w now_served w')
  have "\<And>r. R r \<Longrightarrow> T \<le> cw_now w" using assms(3) goes_on.IH by fastforce
  then show ?case using step_young [OF goes_on.hyps(2) _ _ assms(4) plain] goes_on.IH by fastforce
qed (use assms in simp)

section \<open>Properties\<close>

text \<open>C33. A cached answer is bounded in age: whatever reads, stores and invalidations interleave, starting from an
  empty cache every market page and listing served is what the tables answered to that very request at some
  moment not longer ago than the lifetime of its copy (two and three seconds) and the time a request takes
  from reading the tables to storing its answer.\<close>

theorem served_answer_is_recent:
  assumes "cache_run (tableAnswer encode encodePage formatUnits decimals createdAt db_at) latency w0 served w"
    and "cw_cache w0 = Map.empty" "cw_reads w0 = []" "0 \<le> latency"
    and "\<And>v. plain (encode v)" "\<And>v. plain (encodePage v)"
    and "(r, v, now) \<in> set served"
  shows "\<exists>t. tableAnswer encode encodePage formatUnits decimals createdAt db_at t r = Some v \<and>
    t \<le> now \<and> now \<le> t + latency + ttl_of r * 1000"
proof -
  let ?answer = "tableAnswer encode encodePage formatUnits decimals createdAt db_at"
  have plain: "plain u" if "?answer t q = Some u" for t q u
    using that assms(5,6) by (auto simp: tableAnswer_def split: read_request.splits)
  have "young ?answer latency (\<lambda>_. False) 0 w0" using assms(2,3) by (simp add: young_def)
  from run_young [OF assms(1) this _ assms(4) plain] have "recent ?answer latency (\<lambda>_. False) 0 (r, v, now)"
    using assms(7) by (auto simp: list_all_iff)
  then show ?thesis by (auto simp: recent_def)
qed

definition sample_world :: cache_world where
  "sample_world = \<lparr>cw_now = 100, cw_cache = Map.empty, cw_reads = []\<rparr>"

definition sample_listing :: list_dto where
  "sample_listing = \<lparr>ld_status = None, ld_category = None, ld_search = None, ld_openOnly = False, ld_sort = ByCreatedAt,
     ld_descending = True, ld_limit = 25, ld_offset = 0\<rparr>"

definition no_markets :: db where
  "no_markets = \<lparr>markets = [], outcomes = [], trades = [], positions = [], pricePoints = [], drafts = [], categories = [],
     proposals = [], bans = [], poolLeaves = [], cursors = []\<rparr>"

lemma sample_cache_run:
  "\<exists>w. cache_run (tableAnswer (\<lambda>_. JArr []) (\<lambda>_. JArr []) (\<lambda>_ _. []) 6 m_closeTime (\<lambda>_. no_markets)) 10 sample_world
     [(Listing sample_listing, JArr [], 100)] w"
proof -
  let ?answer = "tableAnswer (\<lambda>_. JArr []) (\<lambda>_. JArr []) (\<lambda>_ _. []) 6 m_closeTime (\<lambda>_. no_markets)"
  let ?r = "Listing sample_listing"
  let ?w = "sample_world\<lparr>cw_reads := [(?r, JArr [], 100)]\<rparr>"
  have "cache_step ?answer 10 sample_world [] ?w"
    using cache_step.misses [of sample_world ?r ?answer "JArr []" 10]
    by (simp add: sample_world_def getJson_def redisText_def tableAnswer_def)
  then have "cache_run ?answer 10 sample_world ([] @ []) ?w" by (intro cache_run.goes_on [OF cache_run.starts])
  moreover have "cache_step ?answer 10 ?w [(?r, JArr [], 100)] (store_read ?r (JArr []) 100 ?w)"
    using cache_step.stores [of ?r "JArr []" 100 ?w ?answer 10] by (simp add: sample_world_def)
  ultimately have "cache_run ?answer 10 sample_world (([] @ []) @ [(?r, JArr [], 100)]) (store_read ?r (JArr []) 100 ?w)"
    by (rule cache_run.goes_on)
  then show ?thesis by auto
qed

lemma served_answer_is_recent_witness:
  "\<exists>t. tableAnswer (\<lambda>_. JArr []) (\<lambda>_. JArr []) (\<lambda>_ _. []) 6 m_closeTime (\<lambda>_. no_markets) t (Listing sample_listing) =
     Some (JArr []) \<and> t \<le> 100 \<and> 100 \<le> t + 3010"
proof -
  obtain w where run: "cache_run (tableAnswer (\<lambda>_. JArr []) (\<lambda>_. JArr []) (\<lambda>_ _. []) 6 m_closeTime (\<lambda>_. no_markets)) 10
      sample_world [(Listing sample_listing, JArr [], 100)] w" using sample_cache_run by blast
  have "cw_cache sample_world = Map.empty" "cw_reads sample_world = []" by (simp_all add: sample_world_def)
  from served_answer_is_recent [OF run this, of "Listing sample_listing" "JArr []" 100]
  show ?thesis by (simp add: ttl_of_def LIST_TTL_def)
qed

text \<open>An invalidation is seen: after the copies of a market's page and of every listing were dropped at a moment
  when no request had read and not yet stored one of them, nothing served for them is older than that
  moment.\<close>

theorem invalidation_is_seen:
  assumes "cache_run (tableAnswer encode encodePage formatUnits decimals createdAt db_at) latency
      (w0\<lparr>cw_cache := invalidateCache ref (cw_cache w0)\<rparr>) served w"
    and "young (tableAnswer encode encodePage formatUnits decimals createdAt db_at) latency (\<lambda>_. False) 0 w0"
    and "\<forall>(r, v, t) \<in> set (cw_reads w0). r \<noteq> Detail ref \<and> (\<forall>d. r \<noteq> Listing d)" "0 \<le> latency"
    and "\<And>v. plain (encode v)" "\<And>v. plain (encodePage v)"
    and "(r, v, now) \<in> set served" "r = Detail ref \<or> (\<exists>d. r = Listing d)"
  shows "\<exists>t. tableAnswer encode encodePage formatUnits decimals createdAt db_at t r = Some v \<and> cw_now w0 \<le> t \<and> t \<le> now"
proof -
  let ?answer = "tableAnswer encode encodePage formatUnits decimals createdAt db_at"
  let ?R = "\<lambda>r. r = Detail ref \<or> (\<exists>d. r = Listing d)"
  let ?w = "w0\<lparr>cw_cache := invalidateCache ref (cw_cache w0)\<rparr>"
  have plain: "plain u" if "?answer t q = Some u" for t q u
    using that assms(5,6) by (auto simp: tableAnswer_def split: read_request.splits)
  have "entry_young ?answer latency ?R (cw_now w0) (cw_now w0) k e" if "invalidateCache ref (cw_cache w0) k = Some e" for k e
  proof -
    have "k \<noteq> detailKey ref" "take (length listPrefix) k \<noteq> listPrefix" "cw_cache w0 k = Some e"
      using that by (auto simp: invalidateCache_def delPattern_def delKeys_def split: if_splits)
    moreover have "\<not> ?R q" if "k = cacheKey q" for q
      using that calculation(1,2) by (auto simp: cacheKey_def listKey_def)
    ultimately show ?thesis using assms(2) unfolding young_def entry_young_def by metis
  qed
  moreover have "list_all (read_young ?answer latency ?R (cw_now w0) (cw_now w0)) (cw_reads w0)"
    using assms(2,3) by (fastforce simp: young_def read_young_def list_all_iff)
  ultimately have "young ?answer latency ?R (cw_now w0) ?w" by (simp add: young_def)
  from run_young [OF assms(1) this _ assms(4) plain] have "recent ?answer latency ?R (cw_now w0) (r, v, now)"
    using assms(7) by (auto simp: list_all_iff)
  then show ?thesis using assms(8) by (auto simp: recent_def)
qed

lemma invalidation_is_seen_witness:
  "\<exists>t. tableAnswer (\<lambda>_. JArr []) (\<lambda>_. JArr []) (\<lambda>_ _. []) 6 m_closeTime (\<lambda>_. no_markets) t (Listing sample_listing) =
     Some (JArr []) \<and> 100 \<le> t"
proof -
  let ?answer = "tableAnswer (\<lambda>_. JArr []) (\<lambda>_. JArr []) (\<lambda>_ _. []) 6 m_closeTime (\<lambda>_. no_markets)"
  have same: "sample_world\<lparr>cw_cache := invalidateCache ''m'' (cw_cache sample_world)\<rparr> = sample_world"
    by (simp add: sample_world_def invalidateCache_def delPattern_def delKeys_def fun_eq_iff)
  obtain w where run: "cache_run ?answer 10 (sample_world\<lparr>cw_cache := invalidateCache ''m'' (cw_cache sample_world)\<rparr>)
      [(Listing sample_listing, JArr [], 100)] w" using sample_cache_run same by auto
  have young: "young ?answer 10 (\<lambda>_. False) 0 sample_world" by (simp add: young_def sample_world_def)
  have idle: "\<forall>(r, v, t) \<in> set (cw_reads sample_world). r \<noteq> Detail ''m'' \<and> (\<forall>d. r \<noteq> Listing d)"
    by (simp add: sample_world_def)
  from invalidation_is_seen [OF run young idle, of "Listing sample_listing" "JArr []" 100]
  show ?thesis by (auto simp: sample_world_def)
qed

end
