(* ===== verification/Http.thy ===== *)
theory Http
  imports PoolServiceProps Auth AdminViews
begin

text \<open>
  The HTTP edge: \<open>src/src/common/filters/all-exceptions.filter.ts\<close>, the refusals of
  \<open>src/src/relay/relay.controller.ts\<close> and \<open>src/src/pool/pool.controller.ts\<close>, the access-token guard
  (\<open>src/src/auth/guards\<close>, \<open>strategies/jwt.strategy.ts\<close>) and the on-chain role guard with the routes of
  \<open>src/src/admin/admin.controller.ts\<close>. A request is kept as its bearer token; the copy of a refusal is a
  parameter. Guards run in the order the framework runs them: the global one, then the controller's.
\<close>

section \<open>Errors\<close>

text \<open>\<open>getResponse()\<close> of an \<open>HttpException\<close>: a text, or an object whose message and error may be absent.\<close>

datatype response_body = TextBody string | ObjectBody "string option" "string option"

datatype thrown =
    HttpException nat response_body string string  \<comment> \<open>status, response, message, name\<close>
  | PrismaKnown string
  | PrismaValidation
  | OtherError string

record error_body =
  eb_status :: nat
  eb_message :: string
  eb_error :: string

definition internal_error :: error_body where
  "internal_error = \<lparr>eb_status = 500, eb_message = ''Internal server error'', eb_error = ''InternalServerError''\<rparr>"

fun resolve :: "thrown \<Rightarrow> error_body" where
  "resolve (HttpException status (TextBody s) message name) = \<lparr>eb_status = status, eb_message = s, eb_error = name\<rparr>"
| "resolve (HttpException status (ObjectBody m e) message name) =
     \<lparr>eb_status = status, eb_message = (case m of Some x \<Rightarrow> x | None \<Rightarrow> message),
      eb_error = (case e of Some x \<Rightarrow> x | None \<Rightarrow> name)\<rparr>"
| "resolve (PrismaKnown code) =
     (if code = ''P2002'' then \<lparr>eb_status = 409, eb_message = ''Resource already exists'', eb_error = ''Conflict''\<rparr>
      else if code = ''P2025'' then \<lparr>eb_status = 404, eb_message = ''Resource not found'', eb_error = ''NotFound''\<rparr>
      else if code = ''P2003'' then \<lparr>eb_status = 400, eb_message = ''Related resource does not exist'', eb_error = ''BadRequest''\<rparr>
      else internal_error)"
| "resolve PrismaValidation = \<lparr>eb_status = 400, eb_message = ''Invalid query'', eb_error = ''BadRequest''\<rparr>"
| "resolve (OtherError _) = internal_error"

definition serviceUnavailable :: "string \<Rightarrow> thrown" where
  "serviceUnavailable m = HttpException 503 (ObjectBody (Some m) (Some ''Service Unavailable'')) m ''ServiceUnavailableException''"

definition badRequest :: "string \<Rightarrow> thrown" where
  "badRequest m = HttpException 400 (ObjectBody (Some m) (Some ''Bad Request'')) m ''BadRequestException''"

definition unauthorized :: "string \<Rightarrow> thrown" where
  "unauthorized m = HttpException 401 (ObjectBody (Some m) (Some ''Unauthorized'')) m ''UnauthorizedException''"

definition forbidden :: "string \<Rightarrow> thrown" where
  "forbidden m = HttpException 403 (ObjectBody (Some m) (Some ''Forbidden'')) m ''ForbiddenException''"

text \<open>The status of a route that answers 200.\<close>

definition status_of :: "('e \<Rightarrow> thrown) \<Rightarrow> 'e + 'a \<Rightarrow> nat" where
  "status_of f q = (case q of Inl e \<Rightarrow> eb_status (resolve (f e)) | Inr _ \<Rightarrow> 200)"

section \<open>The relay and the pool\<close>

definition relayThrown :: "(relay_error \<Rightarrow> string) \<Rightarrow> relay_error \<Rightarrow> thrown" where
  "relayThrown say e = (case e of
     RelayRejected code _ \<Rightarrow>
       if code = Unavailable \<or> code = RateLimited then serviceUnavailable (say e) else badRequest (say e)
   | _ \<Rightarrow> OtherError (say e))"

definition relaySubmitted :: "(relay_error \<Rightarrow> string) \<Rightarrow> relay_error + string \<Rightarrow> nat" where
  "relaySubmitted say = status_of (relayThrown say)"

text \<open>\<open>PoolController.attempt\<close>: a relay error that nobody turned into a \<open>PoolRejected\<close> is rethrown as it is.\<close>

definition poolThrown :: "(pool_error \<Rightarrow> string) \<Rightarrow> pool_error \<Rightarrow> thrown" where
  "poolThrown say e = (case e of
     PoolRejected kind \<Rightarrow>
       if kind = PoolUnavailable \<or> kind = PoolStale then serviceUnavailable (say e) else badRequest (say e)
   | _ \<Rightarrow> OtherError (say e))"

definition poolAttempt :: "(pool_error \<Rightarrow> string) \<Rightarrow> pool_error + string \<Rightarrow> nat" where
  "poolAttempt say = status_of (poolThrown say)"

text \<open>The routes: the status, and the state the request leaves.\<close>

definition postRelay :: "(relay_error \<Rightarrow> string) \<Rightarrow> relay_env \<Rightarrow> relay_config \<Rightarrow> relay_request \<Rightarrow> relay_state \<Rightarrow> nat \<times> relay_state" where
  "postRelay say E C body s = (case submit E C body s of (r, t) \<Rightarrow> (relaySubmitted say r, t))"

definition postPermit :: "(relay_error \<Rightarrow> string) \<Rightarrow> relay_env \<Rightarrow> relay_config \<Rightarrow> permit_request \<Rightarrow> relay_state \<Rightarrow> nat \<times> relay_state" where
  "postPermit say E C body s = (case submitPermit E C body s of (r, t) \<Rightarrow> (relaySubmitted say r, t))"

definition postResolution :: "(relay_error \<Rightarrow> string) \<Rightarrow> relay_env \<Rightarrow> relay_config \<Rightarrow> relay_request \<Rightarrow> relay_state \<Rightarrow> nat \<times> relay_state" where
  "postResolution say E C body s = (case submitResolution E C body s of (r, t) \<Rightarrow> (relaySubmitted say r, t))"

definition postWithdraw ::
  "(pool_error \<Rightarrow> string) \<Rightarrow> (int list \<Rightarrow> int) \<Rightarrow> pool_codec \<Rightarrow> pool_service_config \<Rightarrow> relay_config \<Rightarrow> pool_env \<Rightarrow> withdraw_dto \<Rightarrow>
   pool_state \<Rightarrow> relay_state \<Rightarrow> nat \<times> relay_state" where
  "postWithdraw say rootOf X P C E body mirror s =
     (case withdraw rootOf X P C E body mirror s of (r, t) \<Rightarrow> (poolAttempt say r, t))"

definition postShield ::
  "(pool_error \<Rightarrow> string) \<Rightarrow> pool_codec \<Rightarrow> pool_service_config \<Rightarrow> relay_config \<Rightarrow> pool_env \<Rightarrow> shield_dto \<Rightarrow> relay_state \<Rightarrow>
   nat \<times> relay_state" where
  "postShield say X P C E body s = (case shield X P C E body s of (r, t) \<Rightarrow> (poolAttempt say r, t))"

section \<open>Sessions and roles\<close>

record auth_user =
  au_userId :: string
  au_address :: string

text \<open>\<open>JwtStrategy.validate\<close> on a payload whose signature and expiry passport has checked.\<close>

definition jwtValidate :: "jwt_payload \<Rightarrow> thrown + auth_user" where
  "jwtValidate p = (case p of AccessToken sub addr \<Rightarrow> Inr \<lparr>au_userId = sub, au_address = addr\<rparr>
     | _ \<Rightarrow> Inl (unauthorized ''wrong token type''))"

text \<open>\<open>JwtAuthGuard\<close>: \<open>verify\<close> is passport-jwt with the access secret, \<open>None\<close> a token it refuses. A public route is
  let through without a user.\<close>

definition jwtGuard :: "(string \<Rightarrow> jwt_payload option) \<Rightarrow> bool \<Rightarrow> string option \<Rightarrow> thrown + auth_user option" where
  "jwtGuard verify public bearer =
     (if public then Inr None
      else (case bearer of None \<Rightarrow> Inl (unauthorized ''Unauthorized'')
        | Some token \<Rightarrow> (case verify token of None \<Rightarrow> Inl (unauthorized ''Unauthorized'')
           | Some p \<Rightarrow> (case jwtValidate p of Inl e \<Rightarrow> Inl e | Inr u \<Rightarrow> Inr (Some u)))))"

definition roleGuard ::
  "protocol_addresses \<Rightarrow> access_env \<Rightarrow> role list \<Rightarrow> auth_user option \<Rightarrow> role_entry list \<Rightarrow> (thrown + unit) \<times> role_entry list" where
  "roleGuard a E required user verdicts =
     (if required = [] then (Inr (), verdicts)
      else (case user of
          None \<Rightarrow> (Inl (forbidden ''authentication required''), verdicts)
        | Some u \<Rightarrow>
            if au_address u = [] then (Inl (forbidden ''authentication required''), verdicts)
            else (case hasAnyRole a E (au_address u) required verdicts of (allowed, rest) \<Rightarrow>
              (if allowed then Inr () else Inl (forbidden ''wallet does not hold any of the required on-chain roles''), rest))))"

datatype admin_route = Me | PostDraft | GetDrafts | PostCategory | GetCategories | Operations | Treasury | RelayGauge

definition requiredRoles :: "admin_route \<Rightarrow> role list" where
  "requiredRoles r = (case r of Me \<Rightarrow> [] | PostDraft \<Rightarrow> [MARKET_CREATOR, CURATOR] | GetDrafts \<Rightarrow> [MARKET_CREATOR, CURATOR]
     | PostCategory \<Rightarrow> [CURATOR] | GetCategories \<Rightarrow> [CURATOR] | Operations \<Rightarrow> [MARKET_CREATOR, CURATOR, RESOLVER]
     | Treasury \<Rightarrow> [FEE_MANAGER]
     | RelayGauge \<Rightarrow> [DEFAULT_ADMIN, MARKET_CREATOR, CURATOR, RESOLVER, FEE_MANAGER, PAUSER])"

text \<open>A request to the operator API up to its handler: the user it runs as, or the error it is answered with.\<close>

definition adminRequest ::
  "(string \<Rightarrow> jwt_payload option) \<Rightarrow> protocol_addresses \<Rightarrow> access_env \<Rightarrow> admin_route \<Rightarrow> string option \<Rightarrow> role_entry list \<Rightarrow>
   (thrown + auth_user option) \<times> role_entry list" where
  "adminRequest verify a E route bearer verdicts = (case jwtGuard verify False bearer of
     Inl e \<Rightarrow> (Inl e, verdicts)
   | Inr user \<Rightarrow> (case roleGuard a E (requiredRoles route) user verdicts of
        (Inl e, rest) \<Rightarrow> (Inl e, rest) | (Inr _, rest) \<Rightarrow> (Inr user, rest)))"

text \<open>\<open>rolesOf\<close>, whose reads run together but write entries of different roles, and \<open>GET /admin/me\<close>.\<close>

definition ALL_ROLES :: "role list" where
  "ALL_ROLES = [DEFAULT_ADMIN, MARKET_CREATOR, RESOLVER, ARBITRATOR, BLOCKLIST, PAUSER, FEE_MANAGER, CURATOR]"

fun rolesOf :: "protocol_addresses \<Rightarrow> access_env \<Rightarrow> string \<Rightarrow> role list \<Rightarrow> role_entry list \<Rightarrow> role list \<times> role_entry list" where
  "rolesOf a E address [] verdicts = ([], verdicts)"
| "rolesOf a E address (r # rs) verdicts =
     (case hasRole a E address r verdicts of (b, v1) \<Rightarrow>
       (case rolesOf a E address rs v1 of (held, v2) \<Rightarrow> (if b then r # held else held, v2)))"

record me_view =
  me_address :: string
  me_roles :: "role list"
  me_isOperator :: bool

definition adminMe :: "protocol_addresses \<Rightarrow> access_env \<Rightarrow> string \<Rightarrow> role_entry list \<Rightarrow> me_view" where
  "adminMe a E address verdicts = (let held = fst (rolesOf a E address ALL_ROLES verdicts)
     in \<lparr>me_address = address, me_roles = held, me_isOperator = held \<noteq> []\<rparr>)"

section \<open>What a status tells\<close>

lemma status_relay [simp]:
  "relaySubmitted say (Inr h) = 200"
  "relaySubmitted say (Inl (RelayRejected c x)) = (if c = Unavailable \<or> c = RateLimited then 503 else 400)"
  "relaySubmitted say (Inl SyntaxFailed) = 500" "relaySubmitted say (Inl TypeFailed) = 500"
  "relaySubmitted say (Inl NodeFailed) = 500" "relaySubmitted say (Inl RedisFailed) = 500"
  by (simp_all add: relaySubmitted_def status_of_def relayThrown_def serviceUnavailable_def badRequest_def internal_error_def)

text \<open>Whoever sends all or nothing is answered truthfully.\<close>

definition truthful :: "nat \<Rightarrow> relay_state \<Rightarrow> relay_state \<Rightarrow> bool" where
  "truthful status s t \<longleftrightarrow>
     (status = 200 \<longrightarrow> (\<exists>x. sent t = sent s @ [x])) \<and> (status \<in> {400, 503} \<longrightarrow> sent t = sent s) \<and>
     status \<in> {200, 400, 500, 503} \<and> (sent t = sent s \<or> (\<exists>x. sent t = sent s @ [x]))"

lemma truthful_cases:
  assumes "(sent t = sent s \<and> (\<exists>e. r = Inl e)) \<or> (\<exists>x. sent t = sent s @ [x] \<and> ((\<exists>h. r = Inr h) \<or> r = Inl RedisFailed))"
  shows "truthful (relaySubmitted say r) s t"
proof -
  have "relaySubmitted say (Inl e) \<noteq> 200 \<and> relaySubmitted say (Inl e) \<in> {200, 400, 500, 503}" for e by (cases e) auto
  then show ?thesis using assms by (auto simp: truthful_def)
qed

lemma submitResolutionAdmit_counters: "steps counters_only (submitResolutionAdmit E C payload)"
  unfolding submitResolutionAdmit_def
  by (intro counter_order.steps_intros counters_admit)

lemma forwarded_truthful:
  assumes "bindp admission (\<lambda>(request, fwd). simulateAndSend E C payload request fwd) s = (r, t)" "steps counters_only admission"
  shows "truthful (relaySubmitted say r) s t"
proof (cases "admission s")
  case (Pair q u)
  then have u: "sent u = sent s" using assms(2) counters_only_sent stepsD by metis
  show ?thesis
  proof (cases q)
    case (Inl e)
    then show ?thesis using assms(1) Pair u by (intro truthful_cases) (auto simp: bindp_def)
  next
    case (Inr p)
    then obtain req fwd where "simulateAndSend E C payload req fwd u = (r, t)"
      using assms(1) Pair by (cases p) (simp add: bindp_def)
    from simulateAndSend_effect [OF this] u show ?thesis by (intro truthful_cases) (auto simp: sends_def)
  qed
qed

lemma permit_truthful:
  assumes "submitPermit E C q s = (r, t)"
  shows "truthful (relaySubmitted say r) s t"
proof (cases "submitPermitAdmit E C q s")
  case (Pair a u)
  then have u: "sent u = sent s" using submitPermitAdmit_counters counters_only_sent stepsD by metis
  show ?thesis
  proof (cases a)
    case (Inl e)
    then show ?thesis using assms Pair u by (intro truthful_cases) (auto simp: submitPermit_def bindp_def)
  next
    case (Inr call)
    then have "permitSection E C (p_token q) call u = (r, t)" using assms Pair by (simp add: submitPermit_def bindp_def)
    from permitSection_effect [OF this] u show ?thesis
      by (intro truthful_cases) (auto simp: all_or_nothing_def sends_def)
  qed
qed

section \<open>Properties\<close>

text \<open>C29. The relay's answer tells what happened: on all three endpoints 200 means exactly one transaction was
  sent, a refusal (400, never retry, or 503, retry) means none was, and only a 500 leaves it open.\<close>

theorem relay_status_is_truthful:
  assumes "postRelay say E C p s = (status, t) \<or> postResolution say E C p s = (status, t) \<or> postPermit say E C q s = (status, t)"
  shows "truthful status s t"
  using assms
proof (elim disjE)
  assume "postRelay say E C p s = (status, t)"
  then obtain r where r: "submit E C p s = (r, t)" "status = relaySubmitted say r" by (auto simp: postRelay_def split: prod.splits)
  show ?thesis unfolding r(2) by (rule forwarded_truthful [OF r(1) [unfolded submit_def] submitAdmit_counters])
next
  assume "postResolution say E C p s = (status, t)"
  then obtain r where r: "submitResolution E C p s = (r, t)" "status = relaySubmitted say r"
    by (auto simp: postResolution_def split: prod.splits)
  show ?thesis unfolding r(2)
    by (rule forwarded_truthful [OF r(1) [unfolded submitResolution_def] submitResolutionAdmit_counters])
next
  assume "postPermit say E C q s = (status, t)"
  then obtain r where r: "submitPermit E C q s = (r, t)" "status = relaySubmitted say r"
    by (auto simp: postPermit_def split: prod.splits)
  show ?thesis unfolding r(2) by (rule permit_truthful [OF r(1)])
qed

lemma relay_status_is_truthful_witness:
  "\<exists>t x. postRelay (\<lambda>_. []) sample_relay_env sample_relay_config sample_relay_request sample_relay_state = (200, t) \<and> sent t = [x]"
proof -
  obtain t where run: "postRelay (\<lambda>_. []) sample_relay_env sample_relay_config sample_relay_request sample_relay_state = (200, t)"
    using sample_submitted by (auto simp: postRelay_def)
  have "truthful 200 sample_relay_state t" by (rule relay_status_is_truthful, rule disjI1, rule run)
  then show ?thesis using run by (auto simp: truthful_def sample_relay_state_def)
qed

text \<open>The pool's answer does not: whatever stops the relay from submitting a shielded return, an outage, the
  daily cap or a counter that fails after the transaction left, the caller gets a 400, which the API defines
  as "not ever" and words as "nothing was sent".\<close>

theorem pool_refuses_outages_for_good:
  assumes "ps_entrypoint P = Some entrypoint" "poolEnabled P E" "shieldData X (pe_now E) dto = Inr data"
    and "sendFromRelayer (pe_relay E) C entrypoint data s = (Inl e, t)"
  shows "postShield say X P C E dto s = (400, t)"
  using assms by (simp add: postShield_def shield_def relayp_def poolAttempt_def status_of_def poolThrown_def badRequest_def)

definition sample_return :: shield_dto where
  "sample_return = \<lparr>sh_owner = ''0xa'', sh_value = dec 5, sh_precommitment = dec 1, sh_deadline = dec 9, sh_signature = ''0x'',
     sh_permit = None\<rparr>"

definition no_counter_env :: relay_env where
  "no_counter_env = sample_relay_env\<lparr>n_redis := (\<lambda>c. c \<noteq> IncrBy)\<rparr>"

lemma pool_refuses_outages_for_good_witness:
  "\<exists>t x. postShield (\<lambda>_. []) sample_pool_codec sample_pool_service sample_relay_config (sample_pool_env\<lparr>pe_relay := no_counter_env\<rparr>)
     sample_return sample_relay_state = (400, t) \<and> sent t = [x]"
proof -
  let ?E = "sample_pool_env\<lparr>pe_relay := no_counter_env\<rparr>"
  have checks: "ps_entrypoint sample_pool_service = Some ''0xe''" "poolEnabled sample_pool_service ?E"
    "shieldData sample_pool_codec (pe_now ?E) sample_return = Inr ''deposit''"
    by (simp_all add: sample_pool_service_def poolEnabled_def sample_pool_env_def shieldData_def sample_return_def
        bigint_of_string_dec sample_pool_codec_def)
  define tx where "tx = \<lparr>x_to = ''0xe'', x_call = RawCall ''deposit'', x_gas = 1760000, x_fee = 100000000000,
    x_priority = 1000000000\<rparr>"
  note defs = sendFromRelayer_def sendAdmit_def sendSection_def simulate_def broadcast_def gasFor_def bigintMin_def
    sendTransaction_def recordSpend_def redisp_def enforceDailyCap_def spentTodayWei_def isEnabled_def redis_get_def
    redis_incrby_def redis_expire_def redis_live_def tupsert_def tupdate_def GWEI_def js_number_def no_counter_env_def
    sample_relay_env_def sample_relay_config_def sample_relay_state_def
  have "sendFromRelayer no_counter_env sample_relay_config ''0xe'' ''deposit'' sample_relay_state =
      (Inl RedisFailed, sample_relay_state\<lparr>sent := [tx]\<rparr>)"
    by (simp add: defs tx_def)
  then have run: "sendFromRelayer (pe_relay ?E) sample_relay_config ''0xe'' ''deposit'' sample_relay_state =
      (Inl RedisFailed, sample_relay_state\<lparr>sent := [tx]\<rparr>)" by simp
  have x: "sent (sample_relay_state\<lparr>sent := [tx]\<rparr>) = [tx]" by simp
  from pool_refuses_outages_for_good [OF checks run] x show ?thesis by blast
qed

lemma hasAnyRole_unready:
  "\<not> xe_ready E \<Longrightarrow> fst (hasAnyRole a E address rs verdicts) \<longleftrightarrow> rs \<noteq> [] \<and> lower address \<in> set (xe_devAllowlist E)"
  by (induction rs) (auto simp: hasRole_def Let_def)

text \<open>C30. Nothing of the operator API runs without a grant: on every route but the caller's own roles, a request that
  reaches its handler carried a valid access token (no refresh token passes for one). With a chain configured its
  address had been granted one of the route's roles, or \<open>DEFAULT_ADMIN\<close>, by a contract of the configuration that the
  role is read from, now or less than thirty seconds ago. Without one, which leaves no contract to ask, its address
  stands in the development list of the environment, whatever the route's roles.\<close>

theorem admin_requests_need_a_role:
  assumes "adminRequest verify a E route bearer verdicts = (Inr user, rest)" "route \<noteq> Me"
    and "role_history a chain_at t0 verdicts" "t0 \<le> xe_now E" "xe_chain E = chain_at (xe_now E)"
  shows "\<exists>token sub addr. bearer = Some token \<and> verify token = Some (AccessToken sub addr) \<and>
    user = Some \<lparr>au_userId = sub, au_address = addr\<rparr> \<and>
    (if xe_ready E then \<exists>r t c. r \<in> set (requiredRoles route) \<and>
       xe_now E - 30000 < t \<and> t \<le> xe_now E \<and> c \<in> set (contractsFor a (ROLE_SOURCE r)) \<and>
       (chain_at t c r (lower addr) = Some True \<or> chain_at t c DEFAULT_ADMIN (lower addr) = Some True)
     else lower addr \<in> set (xe_devAllowlist E))"
proof -
  have needs: "requiredRoles route \<noteq> []" using assms(2) by (cases route) (simp_all add: requiredRoles_def)
  obtain w where w: "jwtGuard verify False bearer = Inr w"
    using assms(1) by (cases "jwtGuard verify False bearer") (simp_all add: adminRequest_def)
  then have guard: "roleGuard a E (requiredRoles route) w verdicts = (Inr (), rest)" and user: "user = w"
    using assms(1) by (auto simp: adminRequest_def split: prod.splits sum.splits)
  obtain u where u: "w = Some u" using guard needs by (cases w) (simp_all add: roleGuard_def)
  have any: "fst (hasAnyRole a E (au_address u) (requiredRoles route) verdicts)"
    using guard needs u by (cases "hasAnyRole a E (au_address u) (requiredRoles route) verdicts")
      (simp add: roleGuard_def split: if_splits)
  have g: "jwtGuard verify False bearer = Inr (Some u)" "user = Some u" using w user u by simp_all
  obtain token p where p: "bearer = Some token" "verify token = Some p" "jwtValidate p = Inr u"
    using g(1) by (auto simp: jwtGuard_def split: option.splits sum.splits)
  then obtain sub addr where "p = AccessToken sub addr" "u = \<lparr>au_userId = sub, au_address = addr\<rparr>"
    by (auto simp: jwtValidate_def split: jwt_payload.splits)
  moreover have "if xe_ready E then \<exists>r t c. r \<in> set (requiredRoles route) \<and>
       xe_now E - 30000 < t \<and> t \<le> xe_now E \<and> c \<in> set (contractsFor a (ROLE_SOURCE r)) \<and>
       (chain_at t c r (lower (au_address u)) = Some True \<or> chain_at t c DEFAULT_ADMIN (lower (au_address u)) = Some True)
     else lower (au_address u) \<in> set (xe_devAllowlist E)"
    using hasAnyRole_recent [OF role_history_honest [OF assms(3)] assms(4) _ assms(5) any] hasAnyRole_unready [of E] any
    by (cases "xe_ready E") auto
  ultimately show ?thesis using p g(2) by auto
qed

lemma admin_requests_need_a_role_witness:
  "\<exists>user rest r. adminRequest (\<lambda>_. Some (AccessToken ''u1'' ''0xA'')) sample_addresses
       \<lparr>xe_now = 100, xe_ready = True, xe_chain = (\<lambda>c r x. Some (r = MARKET_CREATOR)), xe_devAllowlist = []\<rparr> Operations
       (Some ''token'') [] = (Inr user, rest) \<and> user = Some \<lparr>au_userId = ''u1'', au_address = ''0xA''\<rparr> \<and>
     r \<in> set (requiredRoles Operations)"
proof -
  let ?chain = "\<lambda>(c::string) r (x::string). Some (r = MARKET_CREATOR)"
  let ?E = "\<lparr>xe_now = 100, xe_ready = True, xe_chain = ?chain, xe_devAllowlist = []\<rparr>"
  let ?verify = "\<lambda>_::string. Some (AccessToken ''u1'' ''0xA'')"
  have "fst (hasRole sample_addresses ?E ''0xA'' MARKET_CREATOR [])"
    by (simp add: hasRole_def Let_def cachedRole_def ROLE_SOURCE_def contractsFor_def sample_addresses_def
        List.map_filter_simps grants_def)
  then obtain rest where "hasRole sample_addresses ?E ''0xA'' MARKET_CREATOR [] = (True, rest)"
    by (cases "hasRole sample_addresses ?E ''0xA'' MARKET_CREATOR []") simp
  then have "adminRequest ?verify sample_addresses ?E Operations (Some ''token'') [] =
      (Inr (Some \<lparr>au_userId = ''u1'', au_address = ''0xA''\<rparr>), rest)"
    by (simp add: adminRequest_def jwtGuard_def jwtValidate_def roleGuard_def requiredRoles_def)
  then obtain user rest where run: "adminRequest ?verify sample_addresses ?E Operations (Some ''token'') [] = (Inr user, rest)"
    by blast
  have env: "0 \<le> xe_now ?E" "xe_chain ?E = (\<lambda>_::int. ?chain) (xe_now ?E)" by simp_all
  from admin_requests_need_a_role [OF run _ role_history.cold [of _ _ 0] env] run show ?thesis by (fastforce split: if_splits)
qed

end
