(* ===== verification/Unlink.thy ===== *)
theory Unlink
  imports Http Config Json
begin

text \<open>
  The trust boundary with the shielded-trading vendor: \<open>src/src/unlink/registration-payload.ts\<close>,
  \<open>unlink.service.ts\<close>, \<open>unlink.controller.ts\<close> and the two database statements of
  \<open>unlink-identity.service.ts\<close>, which concurrent requests interleave. The vendor's engine is a
  parameter. A request runs as a user the session guard let through.
\<close>

section \<open>The registration payload\<close>

record wire_payload =
  wp_address :: string
  wp_spendingPublicKey :: "string \<times> string"
  wp_viewingPrivateKey :: string
  wp_nullifyingKey :: string

definition isDigit :: "char \<Rightarrow> bool" where
  "isDigit c \<longleftrightarrow> digit_val c \<noteq> None"

definition isLowerHex :: "char \<Rightarrow> bool" where
  "isLowerHex c \<longleftrightarrow> isDigit c \<or> c \<in> set ''abcdef''"

definition textWhere :: "(string \<Rightarrow> bool) \<Rightarrow> json option \<Rightarrow> string option" where
  "textWhere ok v = (case v of Some (JStr s) \<Rightarrow> if ok s then Some s else None | _ \<Rightarrow> None)"

definition decimalString :: "string \<Rightarrow> bool" where
  "decimalString s \<longleftrightarrow> 1 \<le> length s \<and> length s \<le> 80 \<and> list_all isDigit s"

definition bareHex :: "nat \<Rightarrow> string \<Rightarrow> bool" where
  "bareHex bytes s \<longleftrightarrow> length s = bytes * 2 \<and> s \<noteq> [] \<and> list_all isLowerHex s"

definition wireAddress :: "string \<Rightarrow> bool" where
  "wireAddress s \<longleftrightarrow> 8 \<le> length s \<and> length s \<le> 200"

definition decimalPair :: "json option \<Rightarrow> (string \<times> string) option" where
  "decimalPair v = (case v of
     Some (JArr [x, y]) \<Rightarrow>
       (case (textWhere decimalString (Some x), textWhere decimalString (Some y)) of
          (Some a, Some b) \<Rightarrow> Some (a, b) | _ \<Rightarrow> None)
   | _ \<Rightarrow> None)"

definition WIRE_KEYS :: "string list" where
  "WIRE_KEYS = [''address'', ''spendingPublicKey'', ''viewingPrivateKey'', ''nullifyingKey'']"

text \<open>The strict schema: an object with these keys and no other (an object holds a key once). \<open>None\<close> is a
  \<open>ZodError\<close>.\<close>

definition parseRegistrationPayload :: "json \<Rightarrow> wire_payload option" where
  "parseRegistrationPayload input = (case input of
     JObj kvs \<Rightarrow>
       (let field = map_of kvs
        in case (textWhere wireAddress (field ''address''), decimalPair (field ''spendingPublicKey''),
                 textWhere (bareHex 32) (field ''viewingPrivateKey''), textWhere decimalString (field ''nullifyingKey'')) of
             (Some a, Some p, Some v, Some n) \<Rightarrow>
               if list_all (\<lambda>kv. fst kv \<in> set WIRE_KEYS) kvs
               then Some \<lparr>wp_address = a, wp_spendingPublicKey = p, wp_viewingPrivateKey = v, wp_nullifyingKey = n\<rparr>
               else None
           | _ \<Rightarrow> None)
   | _ \<Rightarrow> None)"

text \<open>What the vendor is sent.\<close>

definition wireFields :: "wire_payload \<Rightarrow> (string \<times> json) list" where
  "wireFields w = [(''address'', JStr (wp_address w)),
     (''spendingPublicKey'', JArr [JStr (fst (wp_spendingPublicKey w)), JStr (snd (wp_spendingPublicKey w))]),
     (''viewingPrivateKey'', JStr (wp_viewingPrivateKey w)), (''nullifyingKey'', JStr (wp_nullifyingKey w))]"

section \<open>The engine and the service\<close>

text \<open>An answer of the vendor's SDK: \<open>Inl\<close> is an error with its code, if it has one.\<close>

record unlink_engine =
  ue_register :: "wire_payload \<Rightarrow> string option + string \<times> int"
  ue_issue :: "string \<Rightarrow> int \<Rightarrow> string option + string \<times> int"

definition conflict :: "string \<Rightarrow> thrown" where
  "conflict m = HttpException 409 (ObjectBody (Some m) (Some ''Conflict'')) m ''ConflictException''"

definition unlinkDisabled :: thrown where
  "unlinkDisabled = serviceUnavailable ''Private trading is not configured on this deployment (Unlink is disabled).''"

definition vendorError :: "string option \<Rightarrow> thrown" where
  "vendorError code = OtherError (case code of None \<Rightarrow> [] | Some c \<Rightarrow> c)"

text \<open>\<open>say\<close> is the copy of a malformed payload: the paths of the issues.\<close>

definition registerKeys :: "(json \<Rightarrow> string) \<Rightarrow> unlink_config \<Rightarrow> unlink_engine \<Rightarrow> json \<Rightarrow> thrown + string \<times> int" where
  "registerKeys say C N payload =
     (if \<not> uc_enabled C then Inl unlinkDisabled
      else (case parseRegistrationPayload payload of
          None \<Rightarrow> Inl (badRequest (''Malformed Unlink registration payload: '' @ say payload))
        | Some w \<Rightarrow> (case ue_register N w of
            Inr r \<Rightarrow> Inr r
          | Inl code \<Rightarrow>
              if code = Some ''ALREADY_EXISTS''
              then Inl (conflict ''This shielded identity is registered to a different Unlink project and cannot be used here.'')
              else Inl (vendorError code))))"

definition issueAuthorizationToken :: "unlink_config \<Rightarrow> unlink_engine \<Rightarrow> string \<Rightarrow> thrown + string \<times> int" where
  "issueAuthorizationToken C N address =
     (if \<not> uc_enabled C then Inl unlinkDisabled
      else (case ue_issue N address (uc_tokenTtl C) of Inr r \<Rightarrow> Inr r | Inl code \<Rightarrow> Inl (vendorError code)))"

text \<open>The vendor's environment, and what the wallet screen is told of it: without a privacy layer the answer is
  ordinary, not a fault.\<close>

record vendor_info =
  vi_chainId :: int
  vi_pool :: string
  vi_permit2 :: string
  vi_execution :: bool

record environment_view =
  ev_environment :: "string option"
  ev_chainId :: int
  ev_pool :: string
  ev_permit2 :: string
  ev_execution :: bool

definition vendorEnvironment :: "unlink_config \<Rightarrow> string option + vendor_info \<Rightarrow> thrown + vendor_info" where
  "vendorEnvironment C answer = (if \<not> uc_enabled C then Inl unlinkDisabled
     else (case answer of Inr i \<Rightarrow> Inr i | Inl code \<Rightarrow> Inl (vendorError code)))"

definition getEnvironment :: "unlink_config \<Rightarrow> string option + vendor_info \<Rightarrow> thrown + environment_view option" where
  "getEnvironment C answer = (if \<not> uc_enabled C then Inr None
     else (case vendorEnvironment C answer of Inl e \<Rightarrow> Inl e
       | Inr i \<Rightarrow> Inr (Some \<lparr>ev_environment = uc_environment C, ev_chainId = vi_chainId i, ev_pool = vi_pool i,
           ev_permit2 = vi_permit2 i, ev_execution = vi_execution i\<rparr>)))"

text \<open>A deployment on an engine of its own names no environment to bind to.\<close>

lemma custom_engine_has_no_name:
  assumes "getEnvironment (unlinkConfig E) answer = Inr (Some v)" "textOf (E ''UNLINK_ENGINE_URL'') \<noteq> []"
  shows "ev_environment v = None"
  using assms by (auto simp: getEnvironment_def unlinkConfig_def split: if_splits sum.splits)

section \<open>The two statements of a binding\<close>

datatype bind_read = Refused bind_error | AlreadyBound | MayWrite

definition bindRead :: "string \<Rightarrow> string \<Rightarrow> identity list \<Rightarrow> bind_read" where
  "bindRead userId address s =
     (let current = (case tfind id_user userId s of None \<Rightarrow> None | Some u \<Rightarrow> id_unlink u)
      in if truthy current \<noteq> None \<and> current \<noteq> Some address then Refused BoundToDifferent
         else if current = Some address then AlreadyBound
         else MayWrite)"

text \<open>The update, under the unique index of the column.\<close>

definition bindWrite :: "string \<Rightarrow> string \<Rightarrow> (identity list, bind_error, unit) proc" where
  "bindWrite userId address = (\<lambda>s. case tfind id_user userId s of
     None \<Rightarrow> (Inl NoSuchUser, s)
   | Some u \<Rightarrow>
       if \<exists>v \<in> set s. id_unlink v = Some address \<and> id_user v \<noteq> userId then (Inl BoundToOther, s)
       else (Inr (), tupdate id_user userId (\<lambda>v. v\<lparr>id_unlink := Some address\<rparr>) s))"

definition bindThrown :: "bind_error \<Rightarrow> thrown" where
  "bindThrown e = (case e of
     BoundToDifferent \<Rightarrow> conflict (''This account is already bound to a different Unlink address. ''
       @ ''That usually means a different passkey was used, or the app configuration changed.'')
   | BoundToOther \<Rightarrow> conflict ''That Unlink address is already bound to another account.''
   | NoSuchUser \<Rightarrow> PrismaKnown ''P2025'')"

section \<open>The routes\<close>

text \<open>\<open>RegisterUnlinkDto\<close>: \<open>@IsObject()\<close>.\<close>

definition registerBody :: "json \<Rightarrow> bool" where
  "registerBody payload = (case payload of JObj _ \<Rightarrow> True | _ \<Rightarrow> False)"

text \<open>\<open>POST /unlink/register\<close> when no other request runs in between: the statuses of its two awaits.\<close>

definition postRegister ::
  "(json \<Rightarrow> string) \<Rightarrow> unlink_config \<Rightarrow> unlink_engine \<Rightarrow> json \<Rightarrow> string \<Rightarrow> (identity list, thrown, string) proc" where
  "postRegister say C N payload userId = (\<lambda>s. case (if registerBody payload then registerKeys say C N payload
                else Inl (badRequest ''payload must be an object'')) of
     Inl e \<Rightarrow> (Inl e, s)
   | Inr (address, _) \<Rightarrow> (case bind_identity userId address s of
        (Inl e, t) \<Rightarrow> (Inl (bindThrown e), t) | (Inr _, t) \<Rightarrow> (Inr address, t)))"

text \<open>\<open>AuthorizationTokenDto\<close>.\<close>

definition BECH32_CHARS :: "char set" where
  "BECH32_CHARS = set ''023456789acdefghjklmnpqrstuvwxyz''"

definition tokenAddress :: "string \<Rightarrow> bool" where
  "tokenAddress s \<longleftrightarrow> length s \<le> 200 \<and> take 7 s = ''unlink1'' \<and> 6 \<le> length (drop 7 s) \<and> length (drop 7 s) \<le> 120 \<and>
     list_all (\<lambda>c. c \<in> BECH32_CHARS) (drop 7 s)"

definition postAuthorizationToken ::
  "unlink_config \<Rightarrow> unlink_engine \<Rightarrow> string \<Rightarrow> string \<Rightarrow> identity list \<Rightarrow> thrown + string \<times> int" where
  "postAuthorizationToken C N address userId s =
     (if \<not> tokenAddress address then Inl (badRequest ''unlinkAddress must be a bech32m unlink1... address'')
      else if \<not> owns userId address s then Inl (forbidden ''This session does not own that Unlink address.'')
      else issueAuthorizationToken C N address)"

section \<open>Interleaved requests\<close>

datatype call_phase = Posted json | ToBind string | ToWrite string | Answered "thrown + string"

record unlink_call =
  cl_user :: string
  cl_phase :: call_phase

text \<open>The accounts, the registrations under way, and two records of the past: what the engine answered to whom,
  and which tokens were handed out.\<close>

record unlink_world =
  un_accounts :: "identity list"
  un_calls :: "unlink_call list"
  un_registered :: "(string \<times> string) list"
  un_tokens :: "(string \<times> string) list"

definition enter :: "nat \<Rightarrow> call_phase \<Rightarrow> unlink_world \<Rightarrow> unlink_world" where
  "enter i p w = w\<lparr>un_calls := (un_calls w)[i := (un_calls w ! i)\<lparr>cl_phase := p\<rparr>]\<rparr>"

definition engineAnswer :: "string \<Rightarrow> nat \<Rightarrow> thrown + string \<times> int \<Rightarrow> unlink_world \<Rightarrow> unlink_world" where
  "engineAnswer u i r w = (case r of
     Inl e \<Rightarrow> enter i (Answered (Inl e)) w
   | Inr (a, _) \<Rightarrow> (enter i (ToBind a) w)\<lparr>un_registered := un_registered w @ [(u, a)]\<rparr>)"

definition readAnswer :: "string \<Rightarrow> string \<Rightarrow> nat \<Rightarrow> unlink_world \<Rightarrow> unlink_world" where
  "readAnswer u a i w = (case bindRead u a (un_accounts w) of
     Refused e \<Rightarrow> enter i (Answered (Inl (bindThrown e))) w
   | AlreadyBound \<Rightarrow> enter i (Answered (Inr a)) w
   | MayWrite \<Rightarrow> enter i (ToWrite a) w)"

definition writeAnswer :: "string \<Rightarrow> string \<Rightarrow> nat \<Rightarrow> unlink_world \<Rightarrow> unlink_world" where
  "writeAnswer u a i w = (case bindWrite u a (un_accounts w) of
     (Inl e, t) \<Rightarrow> (enter i (Answered (Inl (bindThrown e))) w)\<lparr>un_accounts := t\<rparr>
   | (Inr _, t) \<Rightarrow> (enter i (Answered (Inr a)) w)\<lparr>un_accounts := t\<rparr>)"

text \<open>One await of one request. The engine may answer differently every time.\<close>

inductive unlink_step :: "(json \<Rightarrow> string) \<Rightarrow> unlink_config \<Rightarrow> unlink_world \<Rightarrow> unlink_world \<Rightarrow> bool" for say C where
  posts: "registerBody body \<Longrightarrow> unlink_step say C w (w\<lparr>un_calls := un_calls w @ [\<lparr>cl_user = u, cl_phase = Posted body\<rparr>]\<rparr>)"
| answers: "i < length (un_calls w) \<Longrightarrow> cl_phase (un_calls w ! i) = Posted body \<Longrightarrow>
    unlink_step say C w (engineAnswer (cl_user (un_calls w ! i)) i (registerKeys say C N body) w)"
| reads: "i < length (un_calls w) \<Longrightarrow> cl_phase (un_calls w ! i) = ToBind a \<Longrightarrow>
    unlink_step say C w (readAnswer (cl_user (un_calls w ! i)) a i w)"
| writes: "i < length (un_calls w) \<Longrightarrow> cl_phase (un_calls w ! i) = ToWrite a \<Longrightarrow>
    unlink_step say C w (writeAnswer (cl_user (un_calls w ! i)) a i w)"
| mints: "postAuthorizationToken C N a u (un_accounts w) = Inr r \<Longrightarrow>
    unlink_step say C w (w\<lparr>un_tokens := un_tokens w @ [(u, a)]\<rparr>)"

inductive unlink_reach ::
  "(json \<Rightarrow> string) \<Rightarrow> unlink_config \<Rightarrow> identity list \<Rightarrow> unlink_world \<Rightarrow> bool" for say C accounts where
  fresh: "unlink_reach say C accounts \<lparr>un_accounts = accounts, un_calls = [], un_registered = [], un_tokens = []\<rparr>"
| later: "unlink_reach say C accounts w \<Longrightarrow> unlink_step say C w v \<Longrightarrow> unlink_reach say C accounts v"

section \<open>What is forwarded is what was read\<close>

lemma textWhere_Some: "textWhere ok v = Some s \<longleftrightarrow> v = Some (JStr s) \<and> ok s"
  by (auto simp: textWhere_def split: option.splits json.splits)

lemma decimalPair_Some:
  "decimalPair v = Some p \<longleftrightarrow> v = Some (JArr [JStr (fst p), JStr (snd p)]) \<and> decimalString (fst p) \<and> decimalString (snd p)"
proof
  assume "decimalPair v = Some p"
  then show "v = Some (JArr [JStr (fst p), JStr (snd p)]) \<and> decimalString (fst p) \<and> decimalString (snd p)"
    by (auto simp: decimalPair_def textWhere_Some split: option.splits json.splits list.splits)
qed (simp add: decimalPair_def textWhere_def)

definition wellFormedWire :: "wire_payload \<Rightarrow> bool" where
  "wellFormedWire w \<longleftrightarrow> wireAddress (wp_address w) \<and> decimalString (fst (wp_spendingPublicKey w)) \<and>
     decimalString (snd (wp_spendingPublicKey w)) \<and> bareHex 32 (wp_viewingPrivateKey w) \<and> decimalString (wp_nullifyingKey w)"

lemma parse_fields:
  "parseRegistrationPayload (JObj kvs) = Some w \<longleftrightarrow>
     textWhere wireAddress (map_of kvs ''address'') = Some (wp_address w) \<and>
     decimalPair (map_of kvs ''spendingPublicKey'') = Some (wp_spendingPublicKey w) \<and>
     textWhere (bareHex 32) (map_of kvs ''viewingPrivateKey'') = Some (wp_viewingPrivateKey w) \<and>
     textWhere decimalString (map_of kvs ''nullifyingKey'') = Some (wp_nullifyingKey w) \<and>
     list_all (\<lambda>kv. fst kv \<in> set WIRE_KEYS) kvs"
  unfolding parseRegistrationPayload_def Let_def json.case
  by (cases w, cases "textWhere wireAddress (map_of kvs ''address'')"; cases "decimalPair (map_of kvs ''spendingPublicKey'')";
      cases "textWhere (bareHex 32) (map_of kvs ''viewingPrivateKey'')"; cases "textWhere decimalString (map_of kvs ''nullifyingKey'')")
    (simp_all del: not_None_eq)

lemma wireFields_held:
  "(\<forall>kv \<in> set (wireFields w). map_of kvs (fst kv) = Some (snd kv)) \<longleftrightarrow>
     map_of kvs ''address'' = Some (JStr (wp_address w)) \<and>
     map_of kvs ''spendingPublicKey'' = Some (JArr [JStr (fst (wp_spendingPublicKey w)), JStr (snd (wp_spendingPublicKey w))]) \<and>
     map_of kvs ''viewingPrivateKey'' = Some (JStr (wp_viewingPrivateKey w)) \<and>
     map_of kvs ''nullifyingKey'' = Some (JStr (wp_nullifyingKey w))"
  by (simp only: wireFields_def list.set ball_simps fst_conv snd_conv simp_thms)

lemma parseRegistrationPayload_Some:
  "parseRegistrationPayload (JObj kvs) = Some w \<longleftrightarrow> wellFormedWire w \<and> fst ` set kvs \<subseteq> set WIRE_KEYS \<and>
     (\<forall>kv \<in> set (wireFields w). map_of kvs (fst kv) = Some (snd kv))"
  unfolding parse_fields wireFields_held textWhere_Some decimalPair_Some wellFormedWire_def list_all_iff by blast

lemma fst_wireFields: "map fst (wireFields w) = WIRE_KEYS"
  by (simp add: wireFields_def WIRE_KEYS_def)

lemma distinct_wireFields: "distinct (map fst (wireFields w))"
  by (simp add: fst_wireFields WIRE_KEYS_def)

text \<open>The registration payload is read whole: what the strict schema accepts is an object with exactly the four
  fields it then forwards, each of its promised form, in whatever order they were written; and every payload of
  that form is accepted.\<close>

theorem registration_payload_is_read_whole:
  assumes "distinct (map fst kvs)"
  shows "parseRegistrationPayload (JObj kvs) = Some w \<longleftrightarrow> wellFormedWire w \<and> set kvs = set (wireFields w)"
proof -
  have keys: "fst ` set (wireFields w) = set WIRE_KEYS" using fst_wireFields [of w] by (metis list.set_map)
  have "kv \<in> set (wireFields w)" if kv: "kv \<in> set kvs" and sub: "fst ` set kvs \<subseteq> set WIRE_KEYS" "set (wireFields w) \<subseteq> set kvs" for kv
  proof -
    have "fst kv \<in> fst ` set (wireFields w)" using kv sub(1) keys by auto
    then obtain v where v: "(fst kv, v) \<in> set (wireFields w)" by auto
    then have "v = snd kv" using eq_key_imp_eq_value [OF assms, of "fst kv" v "snd kv"] kv sub(2) by auto
    then show ?thesis using v by simp
  qed
  then have "fst ` set kvs \<subseteq> set WIRE_KEYS \<and> (\<forall>kv \<in> set (wireFields w). kv \<in> set kvs) \<longleftrightarrow> set kvs = set (wireFields w)"
    using keys by blast
  moreover have "map_of kvs (fst kv) = Some (snd kv) \<longleftrightarrow> kv \<in> set kvs" for kv
    using map_of_eq_Some_iff [OF assms] by simp
  ultimately show ?thesis unfolding parseRegistrationPayload_Some by simp
qed

definition sample_wire :: wire_payload where
  "sample_wire = \<lparr>wp_address = ''unlink1qqqqqq'', wp_spendingPublicKey = (''12'', ''7''),
     wp_viewingPrivateKey = replicate 64 CHR ''a'', wp_nullifyingKey = ''42''\<rparr>"

lemma sample_wire_form: "wellFormedWire sample_wire"
  by code_simp

theorem registration_payload_is_read_whole_witness:
  "parseRegistrationPayload (JObj (rev (wireFields sample_wire))) = Some sample_wire"
proof -
  have d: "distinct (map fst (rev (wireFields sample_wire)))"
    using distinct_wireFields [of sample_wire] by (simp only: rev_map [symmetric] distinct_rev)
  show ?thesis using registration_payload_is_read_whole [OF d, of sample_wire] sample_wire_form by simp
qed

section \<open>Who may read which balances\<close>

text \<open>The two statements of a binding, run one after the other, are the method.\<close>

lemma bind_identity_statements:
  assumes "distinct (map id_user s)"
  shows "bind_identity userId address s = (case bindRead userId address s of
     Refused e \<Rightarrow> (Inl e, s) | AlreadyBound \<Rightarrow> (Inr (), s) | MayWrite \<Rightarrow> bindWrite userId address s)"
proof (cases "tfind id_user userId s")
  case None
  then show ?thesis by (simp add: bind_identity_def bindRead_def bindWrite_def truthy_def)
next
  case (Some u)
  have "(\<exists>v \<in> set s. id_unlink v = Some address \<and> id_user v \<noteq> userId) \<longleftrightarrow> (\<exists>v \<in> set s. id_unlink v = Some address)"
    if "id_unlink u \<noteq> Some address"
    using that tfind_distinct [OF assms] Some by fastforce
  then show ?thesis using Some by (auto simp: bind_identity_def bindRead_def bindWrite_def Let_def)
qed

text \<open>A column under a unique index.\<close>

definition oneOwner :: "identity list \<Rightarrow> bool" where
  "oneOwner s \<longleftrightarrow> distinct (map id_user s) \<and> (\<forall>u \<in> set s. \<forall>v \<in> set s. id_unlink u \<noteq> None \<longrightarrow> id_unlink u = id_unlink v \<longrightarrow> u = v)"

lemma owns_row: "owns u a s \<Longrightarrow> \<exists>r \<in> set s. id_user r = u \<and> id_unlink r = Some a"
  by (auto simp: owns_def dest!: tfind_SomeD split: option.splits)

lemma bindWrite_cases:
  assumes "bindWrite userId address s = (out, t)"
  obtains e where "out = Inl e" "t = s"
  | "out = Inr ()" "t = tupdate id_user userId (\<lambda>v. v\<lparr>id_unlink := Some address\<rparr>) s"
      "\<forall>v \<in> set s. id_unlink v = Some address \<longrightarrow> id_user v = userId"
  using assms by (auto simp: bindWrite_def split: option.splits if_splits)

lemma bindWrite_oneOwner:
  assumes "bindWrite userId address s = (out, t)" "oneOwner s"
  shows "oneOwner t"
  using assms(1)
proof (cases rule: bindWrite_cases)
  case 2
  have "distinct (map id_user t)" using assms(2) unfolding 2(2) oneOwner_def by (simp add: keys_tupdate)
  moreover have "u = v" if "u \<in> set t" "v \<in> set t" "id_unlink u \<noteq> None" "id_unlink u = id_unlink v" for u v
  proof -
    have uniq: "x = y" if "x \<in> set s" "y \<in> set s" "id_user x = id_user y" for x y
      using assms(2) that tfind_distinct unfolding oneOwner_def by (metis option.inject)
    show ?thesis using that 2(3) assms(2) uniq unfolding 2(2) oneOwner_def tupdate_def by (auto split: if_splits)
  qed
  ultimately show ?thesis unfolding oneOwner_def by blast
qed (use assms(2) in simp)

definition unlink_inv :: "identity list \<Rightarrow> unlink_world \<Rightarrow> bool" where
  "unlink_inv accounts w \<longleftrightarrow> oneOwner (un_accounts w) \<and>
     (\<forall>r \<in> set (un_accounts w). \<forall>a. id_unlink r = Some a \<longrightarrow> r \<in> set accounts \<or> (id_user r, a) \<in> set (un_registered w)) \<and>
     (\<forall>c \<in> set (un_calls w). \<forall>a. cl_phase c = ToBind a \<or> cl_phase c = ToWrite a \<longrightarrow> (cl_user c, a) \<in> set (un_registered w)) \<and>
     (\<forall>u a. (u, a) \<in> set (un_tokens w) \<longrightarrow> (\<exists>r \<in> set accounts. id_user r = u \<and> id_unlink r = Some a) \<or> (u, a) \<in> set (un_registered w))"

lemma un_enter [simp]:
  "un_accounts (enter i p w) = un_accounts w" "un_registered (enter i p w) = un_registered w" "un_tokens (enter i p w) = un_tokens w"
  by (simp_all add: enter_def)

lemma set_enter:
  "i < length (un_calls w) \<Longrightarrow> c \<in> set (un_calls (enter i p w)) \<Longrightarrow>
     c \<in> set (un_calls w) \<or> cl_user c = cl_user (un_calls w ! i) \<and> cl_phase c = p"
  by (auto simp: enter_def dest!: set_update_subset_insert [THEN subsetD])

text \<open>Every row an account may hold and every token follow from the engine's answers.\<close>

lemma unlink_inv_enter:
  assumes "unlink_inv accounts w" "i < length (un_calls w)"
    and "\<And>a. p = ToBind a \<or> p = ToWrite a \<Longrightarrow> (cl_user (un_calls w ! i), a) \<in> set (un_registered w)"
  shows "unlink_inv accounts (enter i p w)"
  using assms unfolding unlink_inv_def by (auto dest!: set_enter [OF assms(2)])

lemma unlink_inv_answered: "unlink_inv accounts w \<Longrightarrow> i < length (un_calls w) \<Longrightarrow> unlink_inv accounts (enter i (Answered q) w)"
  by (rule unlink_inv_enter) auto

lemma unlink_inv_step:
  assumes "unlink_step say C w v" "unlink_inv accounts w"
  shows "unlink_inv accounts v"
  using assms(1)
proof (cases rule: unlink_step.cases)
  case (posts body u)
  then show ?thesis using assms(2) by (auto simp: unlink_inv_def)
next
  case (answers i body N)
  let ?u = "cl_user (un_calls w ! i)"
  show ?thesis
  proof (cases "registerKeys say C N body")
    case (Inl e)
    then show ?thesis using answers assms(2) by (simp add: engineAnswer_def unlink_inv_answered)
  next
    case (Inr r)
    obtain a k where r: "r = (a, k)" by (cases r)
    have "unlink_inv accounts (w\<lparr>un_registered := un_registered w @ [(?u, a)]\<rparr>)"
      using assms(2) unfolding unlink_inv_def by auto
    from unlink_inv_enter [OF this, of i "ToBind a"]
    have "unlink_inv accounts ((enter i (ToBind a) w)\<lparr>un_registered := un_registered w @ [(?u, a)]\<rparr>)"
      using answers(2) by (cases w) (simp add: enter_def)
    then show ?thesis using answers(1) Inr r by (simp add: engineAnswer_def)
  qed
next
  case (reads i a)
  have "(cl_user (un_calls w ! i), a) \<in> set (un_registered w)"
    using reads(2,3) assms(2) unfolding unlink_inv_def by (metis nth_mem)
  then show ?thesis using reads assms(2) unlink_inv_enter [OF assms(2) reads(2), of "ToWrite a"]
    by (auto simp: readAnswer_def unlink_inv_answered split: bind_read.split)
next
  case (writes i a)
  let ?u = "cl_user (un_calls w ! i)"
  have reg: "(?u, a) \<in> set (un_registered w)" using writes(2,3) assms(2) unfolding unlink_inv_def by (metis nth_mem)
  obtain out t where b: "bindWrite ?u a (un_accounts w) = (out, t)" by (cases "bindWrite ?u a (un_accounts w)")
  have "unlink_inv accounts (w\<lparr>un_accounts := t\<rparr>)"
    using b
  proof (cases rule: bindWrite_cases)
    case 1
    then show ?thesis using assms(2) by simp
  next
    case 2
    have "oneOwner t" using bindWrite_oneOwner [OF b] assms(2) by (simp add: unlink_inv_def)
    moreover have "r \<in> set accounts \<or> (id_user r, x) \<in> set (un_registered w)" if "r \<in> set t" "id_unlink r = Some x" for r x
      using that reg assms(2) unfolding 2(2) unlink_inv_def tupdate_def by (auto split: if_splits)
    ultimately show ?thesis using assms(2) unfolding unlink_inv_def by simp
  qed
  from unlink_inv_answered [OF this, of i]
  have ent: "unlink_inv accounts ((enter i (Answered q) w)\<lparr>un_accounts := t\<rparr>)" for q
    using writes(2) by (cases w) (simp add: enter_def)
  have "v = (enter i (Answered (case out of Inl e \<Rightarrow> Inl (bindThrown e) | Inr _ \<Rightarrow> Inr a)) w)\<lparr>un_accounts := t\<rparr>"
    using writes(1) b by (simp add: writeAnswer_def split: sum.split)
  then show ?thesis using ent by simp
next
  case (mints N a u r)
  then have "owns u a (un_accounts w)" by (auto simp: postAuthorizationToken_def split: if_splits)
  then obtain row where "row \<in> set (un_accounts w)" "id_user row = u" "id_unlink row = Some a" using owns_row by blast
  then have "(\<exists>row \<in> set accounts. id_user row = u \<and> id_unlink row = Some a) \<or> (u, a) \<in> set (un_registered w)"
    using assms(2) unfolding unlink_inv_def by blast
  then show ?thesis using mints(1) assms(2) unfolding unlink_inv_def by auto
qed

lemma unlink_inv_reach:
  assumes "unlink_reach say C accounts w" "oneOwner accounts"
  shows "unlink_inv accounts w"
  using assms(1)
proof induction
  case fresh
  then show ?case using assms(2) by (auto simp: unlink_inv_def)
next
  case (later w v)
  then show ?case using unlink_inv_step by blast
qed

text \<open>C32. Reading an address's balances needs a registration of one's own: however registrations and token requests
  interleave, and whatever the vendor answers, a token is only minted for an address that the account held to begin
  with or that the engine answered to a registration of that account, and at every moment an address has at most
  one owner.\<close>

theorem tokens_follow_registrations:
  assumes "unlink_reach say C accounts w" "oneOwner accounts"
  shows "(\<forall>u a. (u, a) \<in> set (un_tokens w) \<longrightarrow>
      (\<exists>r \<in> set accounts. id_user r = u \<and> id_unlink r = Some a) \<or> (u, a) \<in> set (un_registered w)) \<and>
    (\<forall>u v a. owns u a (un_accounts w) \<and> owns v a (un_accounts w) \<longrightarrow> u = v)"
proof -
  have inv: "unlink_inv accounts w" by (rule unlink_inv_reach [OF assms])
  have "u = v" if "owns u a (un_accounts w)" "owns v a (un_accounts w)" for u v a
    using owns_row [OF that(1)] owns_row [OF that(2)] inv unfolding unlink_inv_def oneOwner_def by force
  then show ?thesis using inv unfolding unlink_inv_def by blast
qed

definition sample_unlink :: unlink_config where
  "sample_unlink = \<lparr>uc_enabled = True, uc_environment = Some ''monad-testnet'', uc_engineUrl = None, uc_apiKey = ''k'',
     uc_appId = ''app'', uc_tokenTtl = 900\<rparr>"

definition sample_engine :: unlink_engine where
  "sample_engine = \<lparr>ue_register = (\<lambda>w. Inr (wp_address w, 0)), ue_issue = (\<lambda>a ttl. Inr (''token'', ttl))\<rparr>"

definition other_wire :: wire_payload where
  "other_wire = sample_wire\<lparr>wp_address := ''unlink1pppppp''\<rparr>"

lemma sample_registered:
  "registerKeys say sample_unlink sample_engine (JObj (wireFields sample_wire)) = Inr (''unlink1qqqqqq'', 0)"
  "registerKeys say sample_unlink sample_engine (JObj (wireFields other_wire)) = Inr (''unlink1pppppp'', 0)"
proof -
  have "wellFormedWire other_wire" by code_simp
  have p: "parseRegistrationPayload (JObj (wireFields w)) = Some w" if "wellFormedWire w" for w
    using that map_of_is_SomeI [OF distinct_wireFields [of w]] fst_wireFields [of w]
    unfolding parseRegistrationPayload_Some by (metis list.set_map order_refl prod.collapse)
  show "registerKeys say sample_unlink sample_engine (JObj (wireFields sample_wire)) = Inr (''unlink1qqqqqq'', 0)"
    using p [OF sample_wire_form] by (simp add: registerKeys_def sample_unlink_def sample_engine_def sample_wire_def)
  show "registerKeys say sample_unlink sample_engine (JObj (wireFields other_wire)) = Inr (''unlink1pppppp'', 0)"
    using p [OF \<open>wellFormedWire other_wire\<close>]
    by (simp add: registerKeys_def sample_unlink_def sample_engine_def other_wire_def)
qed

definition sample_accounts :: "identity list" where
  "sample_accounts = [\<lparr>id_user = ''ann'', id_unlink = None\<rparr>, \<lparr>id_user = ''bob'', id_unlink = None\<rparr>]"

lemma sample_accounts_ok: "oneOwner sample_accounts"
  by (simp add: oneOwner_def sample_accounts_def)

theorem tokens_follow_registrations_witness:
  "\<exists>w. unlink_reach stringify sample_unlink sample_accounts w \<and> un_tokens w = [(''ann'', ''unlink1qqqqqq'')] \<and>
    (''ann'', ''unlink1qqqqqq'') \<in> set (un_registered w) \<and> \<not> owns ''bob'' ''unlink1qqqqqq'' (un_accounts w)"
proof -
  let ?a = "''unlink1qqqqqq''"
  let ?bound = "[\<lparr>id_user = ''ann'', id_unlink = Some ?a\<rparr>, \<lparr>id_user = ''bob'', id_unlink = None\<rparr>]"
  define W where "W = (\<lambda>s f reg tok. \<lparr>un_accounts = s, un_calls = [\<lparr>cl_user = ''ann'', cl_phase = f\<rparr>],
    un_registered = reg, un_tokens = tok\<rparr>)"
  let ?r = "unlink_reach stringify sample_unlink sample_accounts"
  note step = unlink_reach.later [of stringify sample_unlink sample_accounts]
  note defs = W_def enter_def engineAnswer_def readAnswer_def writeAnswer_def sample_registered sample_accounts_def
    bindRead_def bindWrite_def truthy_def tupdate_def
  have "?r (W sample_accounts (Posted (JObj (wireFields sample_wire))) [] [])"
    using step [OF unlink_reach.fresh posts [of "JObj (wireFields sample_wire)" stringify sample_unlink _ "''ann''"]]
    by (simp add: W_def registerBody_def)
  from step [OF this answers [of 0 _ _ stringify sample_unlink sample_engine]] have "?r (W sample_accounts (ToBind ?a) [(''ann'', ?a)] [])"
    by (simp add: defs)
  from step [OF this reads [of 0 _ ?a stringify sample_unlink]] have "?r (W sample_accounts (ToWrite ?a) [(''ann'', ?a)] [])"
    by (simp add: defs)
  from step [OF this writes [of 0 _ ?a stringify sample_unlink]] have "?r (W ?bound (Answered (Inr ?a)) [(''ann'', ?a)] [])"
    by (simp add: defs)
  moreover have "postAuthorizationToken sample_unlink sample_engine ?a ''ann'' ?bound = Inr (''token'', 900)"
    by code_simp
  ultimately have "?r (W ?bound (Answered (Inr ?a)) [(''ann'', ?a)] [(''ann'', ?a)])"
    using step [OF _ mints [of sample_unlink sample_engine ?a "''ann''" "W ?bound (Answered (Inr ?a)) [(''ann'', ?a)] []" _ stringify]]
    by (simp add: W_def)
  moreover from tokens_follow_registrations [OF this sample_accounts_ok]
  have "\<not> owns ''bob'' ?a ?bound" by (auto simp: W_def owns_def truthy_def)
  ultimately show ?thesis by (intro exI [of _ "W ?bound (Answered (Inr ?a)) [(''ann'', ?a)] [(''ann'', ?a)]"]) (simp add: W_def)
qed

text \<open>Two registrations of one account at once rebind it: the account reads as unbound to both, both are answered
  200, and the later write wins. The first address, which the engine registered and the caller was told is bound, is
  then refused a token, and registering it again is a conflict.\<close>

theorem racing_registrations_rebind:
  assumes "registerKeys say C N p = Inr (a, i)" "registerKeys say C N q = Inr (b, j)" "registerBody p" "registerBody q"
    and "a \<noteq> b" "b \<noteq> []" "tfind id_user u accounts = Some row" "id_unlink row = None" "oneOwner accounts"
    and "\<forall>r \<in> set accounts. id_unlink r \<noteq> Some a \<and> id_unlink r \<noteq> Some b"
  shows "\<exists>w. unlink_reach say C accounts w \<and>
    un_calls w = [\<lparr>cl_user = u, cl_phase = Answered (Inr a)\<rparr>, \<lparr>cl_user = u, cl_phase = Answered (Inr b)\<rparr>] \<and>
    \<not> owns u a (un_accounts w) \<and> owns u b (un_accounts w) \<and>
    postRegister say C N p u (un_accounts w) = (Inl (bindThrown BoundToDifferent), un_accounts w)"
proof -
  define W where "W = (\<lambda>s f g reg. \<lparr>un_accounts = s, un_calls = [\<lparr>cl_user = u, cl_phase = f\<rparr>, \<lparr>cl_user = u, cl_phase = g\<rparr>],
    un_registered = reg, un_tokens = []\<rparr>)"
  define bound where "bound = (\<lambda>x s. tupdate id_user u (\<lambda>v. v\<lparr>id_unlink := Some x\<rparr>) (s :: identity list))"
  have f: "tfind id_user u (bound x s) = map_option (\<lambda>v. v\<lparr>id_unlink := Some x\<rparr>) (tfind id_user u s)" for x s
    unfolding bound_def by (simp add: tfind_tupdate)
  have wr: "bindWrite u a accounts = (Inr (), bound a accounts)" "bindWrite u b (bound a accounts) = (Inr (), bound b (bound a accounts))"
  proof -
    show "bindWrite u a accounts = (Inr (), bound a accounts)"
      using assms(7,10) by (simp add: bindWrite_def bound_def)
    have "id_unlink r \<noteq> Some b \<or> id_user r = u" if "r \<in> set (bound a accounts)" for r
      using that assms(5,10) set_tupdate [of r id_user u] unfolding bound_def by fastforce
    then have "bindWrite u b (bound a accounts) = (Inr (), tupdate id_user u (\<lambda>v. v\<lparr>id_unlink := Some b\<rparr>) (bound a accounts))"
      using assms(7) by (auto simp: bindWrite_def f)
    then show "bindWrite u b (bound a accounts) = (Inr (), bound b (bound a accounts))" by (simp add: bound_def)
  qed
  have rd: "bindRead u a accounts = MayWrite" "bindRead u b accounts = MayWrite"
    using assms(7,8) by (simp_all add: bindRead_def truthy_def)
  note step = unlink_reach.later [of say C accounts]
  note defs = W_def enter_def engineAnswer_def readAnswer_def writeAnswer_def assms(1,2) wr rd
  have "unlink_reach say C accounts (W accounts (Posted p) (Posted q) [])"
    using step [OF step [OF unlink_reach.fresh posts [OF assms(3), of say C _ u]] posts [OF assms(4), of say C _ u]] by (simp add: W_def)
  from step [OF this answers [of 0 _ p say C N]] have "unlink_reach say C accounts (W accounts (ToBind a) (Posted q) [(u, a)])"
    by (simp add: defs)
  from step [OF this answers [of 1 _ q say C N]] have "unlink_reach say C accounts (W accounts (ToBind a) (ToBind b) [(u, a), (u, b)])"
    by (simp add: defs)
  from step [OF this reads [of 0 _ a say C]] have "unlink_reach say C accounts (W accounts (ToWrite a) (ToBind b) [(u, a), (u, b)])"
    by (simp add: defs)
  from step [OF this reads [of 1 _ b say C]] have "unlink_reach say C accounts (W accounts (ToWrite a) (ToWrite b) [(u, a), (u, b)])"
    by (simp add: defs)
  from step [OF this writes [of 0 _ a say C]]
  have "unlink_reach say C accounts (W (bound a accounts) (Answered (Inr a)) (ToWrite b) [(u, a), (u, b)])" by (simp add: defs)
  from step [OF this writes [of 1 _ b say C]]
  have "unlink_reach say C accounts (W (bound b (bound a accounts)) (Answered (Inr a)) (Answered (Inr b)) [(u, a), (u, b)])"
    by (simp add: defs)
  moreover have "\<not> owns u a (bound b (bound a accounts))" "owns u b (bound b (bound a accounts))"
    "postRegister say C N p u (bound b (bound a accounts)) = (Inl (bindThrown BoundToDifferent), bound b (bound a accounts))"
    using assms(1,3,5,6,7) by (auto simp: owns_def f truthy_def postRegister_def bind_identity_def)
  ultimately show ?thesis
    by (intro exI [of _ "W (bound b (bound a accounts)) (Answered (Inr a)) (Answered (Inr b)) [(u, a), (u, b)]"]) (simp add: W_def)
qed

theorem racing_registrations_rebind_witness:
  "\<exists>w. unlink_reach stringify sample_unlink sample_accounts w \<and> owns ''ann'' ''unlink1pppppp'' (un_accounts w) \<and>
    \<not> owns ''ann'' ''unlink1qqqqqq'' (un_accounts w)"
proof -
  have "tfind id_user ''ann'' sample_accounts = Some \<lparr>id_user = ''ann'', id_unlink = None\<rparr>"
    "\<forall>r \<in> set sample_accounts. id_unlink r \<noteq> Some ''unlink1qqqqqq'' \<and> id_unlink r \<noteq> Some ''unlink1pppppp''"
    by (simp_all add: sample_accounts_def)
  from racing_registrations_rebind [OF sample_registered(1,2) _ _ _ _ this(1) _ sample_accounts_ok this(2), of stringify]
  show ?thesis by (auto simp: registerBody_def)
qed

end
