(* ===== verification/ChainClient.thy ===== *)
theory ChainClient
  imports MarketViews Config
begin

text \<open>
  The chain client \<open>src/src/chain/chain.service.ts\<close>: whether it is configured, the memo of block times, and
  the reads the API shows live, \<open>resolutionTerms\<close> of \<open>markets.service.ts\<close> and \<open>treasury\<close> of
  \<open>admin.service.ts\<close>. The contracts' answers are parameters; \<open>None\<close> is a call that failed after its retries.
\<close>

section \<open>Block times\<close>

text \<open>\<open>blockTsCache\<close>, keyed by the decimal block number.\<close>

type_synonym time_memo = "(string \<times> int) list"

definition tsLookup :: "int \<Rightarrow> time_memo \<Rightarrow> int option" where
  "tsLookup block memo = map_of memo (dec block)"

text \<open>\<open>Map.set\<close> keeps the place of a key that is there.\<close>

definition mapSet :: "'k \<Rightarrow> 'v \<Rightarrow> ('k \<times> 'v) list \<Rightarrow> ('k \<times> 'v) list" where
  "mapSet k v xs = (if k \<in> fst ` set xs then map (\<lambda>kv. if fst kv = k then (k, v) else kv) xs else xs @ [(k, v)])"

definition tsStore :: "int \<Rightarrow> int \<Rightarrow> time_memo \<Rightarrow> time_memo" where
  "tsStore block ts memo = mapSet (dec block) ts (if 5000 < length memo then [] else memo)"

text \<open>A call that runs alone. Without a node \<open>require\<close> throws, but only when the memo misses.\<close>

definition getBlockTimestamp :: "bool \<Rightarrow> (int \<Rightarrow> int option) \<Rightarrow> int \<Rightarrow> time_memo \<Rightarrow> int option \<times> time_memo" where
  "getBlockTimestamp ready node block memo = (case tsLookup block memo of
     Some t \<Rightarrow> (Some t, memo)
   | None \<Rightarrow>
       if \<not> ready then (None, memo)
       else (case node block of None \<Rightarrow> (None, memo) | Some t \<Rightarrow> (Some (js_number t), tsStore block (js_number t) memo)))"

text \<open>Calls interleave between the lookup and the store. \<open>answered\<close> is the log of the node's answers, and
  \<open>told\<close> of what callers were given.\<close>

record memo_world =
  mw_memo :: time_memo
  mw_waiting :: "int list"
  mw_answered :: "(int \<times> int) list"
  mw_told :: "(int \<times> int) list"

inductive memo_step :: "memo_world \<Rightarrow> memo_world \<Rightarrow> bool" where
  hit: "tsLookup block (mw_memo w) = Some t \<Longrightarrow> memo_step w (w\<lparr>mw_told := mw_told w @ [(block, t)]\<rparr>)"
| miss: "tsLookup block (mw_memo w) = None \<Longrightarrow> memo_step w (w\<lparr>mw_waiting := block # mw_waiting w\<rparr>)"
| failed: "block \<in> set (mw_waiting w) \<Longrightarrow> memo_step w (w\<lparr>mw_waiting := remove1 block (mw_waiting w)\<rparr>)"
| stored: "block \<in> set (mw_waiting w) \<Longrightarrow> memo_step w (w\<lparr>mw_waiting := remove1 block (mw_waiting w),
    mw_memo := tsStore block (js_number t) (mw_memo w), mw_answered := mw_answered w @ [(block, t)],
    mw_told := mw_told w @ [(block, js_number t)]\<rparr>)"

inductive memo_reach :: "memo_world \<Rightarrow> bool" where
  cold: "memo_reach \<lparr>mw_memo = [], mw_waiting = [], mw_answered = [], mw_told = []\<rparr>"
| more: "memo_reach w \<Longrightarrow> memo_step w v \<Longrightarrow> memo_reach v"

lemma length_mapSet: "length (mapSet k v xs) \<le> length xs + 1"
  by (simp add: mapSet_def)

lemma set_mapSet: "(x, y) \<in> set (mapSet k v xs) \<Longrightarrow> (x, y) \<in> set xs \<or> x = k \<and> y = v"
  by (auto simp: mapSet_def split: if_splits)

lemma set_tsStore: "(k, v) \<in> set (tsStore block ts memo) \<Longrightarrow> (k, v) \<in> set memo \<or> k = dec block \<and> v = ts"
  by (auto simp: tsStore_def dest!: set_mapSet split: if_splits)

lemma length_tsStore: "length memo \<le> 5001 \<Longrightarrow> length (tsStore block ts memo) \<le> 5001"
  using length_mapSet [of "dec block" ts memo] by (auto simp: tsStore_def mapSet_def)

definition memo_inv :: "memo_world \<Rightarrow> bool" where
  "memo_inv w \<longleftrightarrow> length (mw_memo w) \<le> 5001 \<and>
     (\<forall>k v. (k, v) \<in> set (mw_memo w) \<longrightarrow> (\<exists>b t. k = dec b \<and> v = js_number t \<and> (b, t) \<in> set (mw_answered w))) \<and>
     (\<forall>b v. (b, v) \<in> set (mw_told w) \<longrightarrow> (\<exists>t. v = js_number t \<and> (b, t) \<in> set (mw_answered w)))"

section \<open>Resolution terms\<close>

record resolver_node =
  rn_bond :: "int option"
  rn_reward :: "string \<Rightarrow> int \<Rightarrow> int option"
  rn_fee :: "int option"
  rn_window :: "int option"
  rn_pool :: "int option"

record resolution_terms =
  te_bond :: int
  te_reward :: int
  te_fee :: int
  te_window :: int
  te_pool :: int

text \<open>Five reads together: one that fails fails them all.\<close>

definition readResolutionTerms :: "(string \<Rightarrow> resolver_node) \<Rightarrow> string \<Rightarrow> string \<Rightarrow> int \<Rightarrow> resolution_terms option" where
  "readResolutionTerms node resolver market marketId =
     (let n = node resolver
      in case (rn_bond n, rn_reward n market marketId, rn_fee n, rn_window n, rn_pool n) of
        (Some b, Some r, Some f, Some w, Some p) \<Rightarrow>
          Some \<lparr>te_bond = b, te_reward = r, te_fee = f, te_window = js_number w, te_pool = p\<rparr>
      | _ \<Rightarrow> None)"

record terms_view =
  tv_resolver :: string
  tv_bond :: string
  tv_bondHuman :: "string option"
  tv_fee :: string
  tv_feeHuman :: "string option"
  tv_reward :: string
  tv_rewardHuman :: "string option"
  tv_window :: int
  tv_pool :: string
  tv_poolHuman :: "string option"

text \<open>\<open>None\<close> is the 404; \<open>Some None\<close> is \<open>{ available: false }\<close>.\<close>

definition resolutionTerms ::
  "(int \<Rightarrow> int \<Rightarrow> string) \<Rightarrow> int \<Rightarrow> bool \<Rightarrow> string option \<Rightarrow> (string \<Rightarrow> resolver_node) \<Rightarrow> string \<Rightarrow> 'a db_scheme \<Rightarrow>
   terms_view option option" where
  "resolutionTerms formatUnits decimals ready optimisticResolver node ident s =
     (case tfind m_id ident (markets s) of
        None \<Rightarrow> None
      | Some m \<Rightarrow>
          (case truthy optimisticResolver of
             None \<Rightarrow> Some None
           | Some resolver \<Rightarrow>
               if \<not> ready then Some None
               else (case readResolutionTerms node resolver (m_address m) (m_marketId m) of
                   None \<Rightarrow> Some None
                 | Some t \<Rightarrow> Some (Some
                     \<lparr>tv_resolver = resolver,
                      tv_bond = dec (te_bond t), tv_bondHuman = toHuman formatUnits (te_bond t) decimals,
                      tv_fee = dec (te_fee t), tv_feeHuman = toHuman formatUnits (te_fee t) decimals,
                      tv_reward = dec (te_reward t), tv_rewardHuman = toHuman formatUnits (te_reward t) decimals,
                      tv_window = te_window t,
                      tv_pool = dec (te_pool t), tv_poolHuman = toHuman formatUnits (te_pool t) decimals\<rparr>))))"

section \<open>Treasury\<close>

record engine_row =
  er_name :: string
  er_address :: string
  er_feeRecipient :: "string option"
  er_paused :: "bool option"
  er_failed :: bool

record treasury_view =
  ty_available :: bool
  ty_collateral :: "string option"
  ty_decimals :: int
  ty_engines :: "engine_row list"

definition engineList :: "string option \<Rightarrow> (string \<times> string) list" where
  "engineList lsLmsr = (case truthy lsLmsr of None \<Rightarrow> [] | Some a \<Rightarrow> [(''LS_LMSR'', a)])"

definition treasuryRow :: "(string \<Rightarrow> string option) \<Rightarrow> (string \<Rightarrow> bool option) \<Rightarrow> string \<times> string \<Rightarrow> engine_row" where
  "treasuryRow readFeeRecipient readPaused e = (case readFeeRecipient (snd e) of
     Some r \<Rightarrow> \<lparr>er_name = fst e, er_address = snd e, er_feeRecipient = Some r, er_paused = readPaused (snd e), er_failed = False\<rparr>
   | None \<Rightarrow> \<lparr>er_name = fst e, er_address = snd e, er_feeRecipient = None, er_paused = None, er_failed = True\<rparr>)"

definition treasury ::
  "bool \<Rightarrow> string option \<Rightarrow> string option \<Rightarrow> int \<Rightarrow> (string \<Rightarrow> string option) \<Rightarrow> (string \<Rightarrow> bool option) \<Rightarrow> treasury_view" where
  "treasury ready usdc lsLmsr decimals readFeeRecipient readPaused =
     (if \<not> ready \<or> truthy usdc = None
      then \<lparr>ty_available = False, ty_collateral = usdc, ty_decimals = decimals,
            ty_engines = map (\<lambda>e. \<lparr>er_name = fst e, er_address = snd e, er_feeRecipient = None, er_paused = None,
              er_failed = False\<rparr>) (engineList lsLmsr)\<rparr>
      else \<lparr>ty_available = True, ty_collateral = usdc, ty_decimals = decimals,
            ty_engines = map (treasuryRow readFeeRecipient readPaused) (engineList lsLmsr)\<rparr>)"

section \<open>The memo is the node's\<close>

lemma memo_inv_step: "memo_step w v \<Longrightarrow> memo_inv w \<Longrightarrow> memo_inv v"
proof (induction rule: memo_step.induct)
  case (hit block w t)
  then have "(dec block, t) \<in> set (mw_memo w)" by (simp add: tsLookup_def map_of_SomeD)
  then obtain b u where "dec block = dec b" "t = js_number u" "(b, u) \<in> set (mw_answered w)"
    using hit.prems unfolding memo_inv_def by blast
  moreover from this have "block = b" by simp
  ultimately show ?case using hit.prems unfolding memo_inv_def by auto
next
  case (stored block w t)
  have "\<exists>b u. k = dec b \<and> v = js_number u \<and> (b, u) \<in> set (mw_answered w @ [(block, t)])"
    if "(k, v) \<in> set (tsStore block (js_number t) (mw_memo w))" for k v
    using set_tsStore [OF that] stored.prems unfolding memo_inv_def by (metis Un_iff list.set_intros(1) set_append)
  moreover have "\<exists>u. v = js_number u \<and> (b, u) \<in> set (mw_answered w @ [(block, t)])"
    if "(b, v) \<in> set (mw_told w @ [(block, js_number t)])" for b v
  proof (cases "(b, v) \<in> set (mw_told w)")
    case True
    then show ?thesis using stored.prems unfolding memo_inv_def by (metis Un_iff set_append)
  qed (use that in auto)
  ultimately show ?case using stored.prems length_tsStore unfolding memo_inv_def by simp
qed (auto simp: memo_inv_def)

lemma memo_inv_reach: "memo_reach w \<Longrightarrow> memo_inv w"
proof (induction rule: memo_reach.induct)
  case cold
  then show ?case by (simp add: memo_inv_def)
qed (rule memo_inv_step)

text \<open>The memo of block times never lies and never grows past 5001 entries: however lookups, answers of the
  node and failures interleave, every time a caller is given is one the node answered for that block, as a
  JavaScript number; so while the node does not change its mind about a block, a remembered time is the block's.\<close>

theorem block_times_are_the_nodes:
  assumes "memo_reach w"
  shows "length (mw_memo w) \<le> 5001 \<and>
    (\<forall>b v. (b, v) \<in> set (mw_told w) \<longrightarrow> (\<exists>t. v = js_number t \<and> (b, t) \<in> set (mw_answered w)))"
  using memo_inv_reach [OF assms] unfolding memo_inv_def by blast

theorem block_times_are_the_nodes_witness:
  "\<exists>w. memo_reach w \<and> mw_memo w = [(''7'', 1700000000)] \<and> mw_told w = [(7, 1700000000), (7, 1700000000)] \<and>
    mw_answered w = [(7, 1700000000)] \<and> length (mw_memo w) \<le> 5001"
proof -
  have d: "dec 7 = ''7''" by code_simp
  let ?w = "\<lambda>memo waiting a told. \<lparr>mw_memo = memo, mw_waiting = waiting, mw_answered = a, mw_told = told\<rparr>"
  have "memo_reach (?w [] [7] [] [])"
    using memo_reach.more [OF memo_reach.cold miss [of 7]] by (simp add: tsLookup_def)
  from memo_reach.more [OF this stored [of 7 _ 1700000000]]
  have "memo_reach (?w [(''7'', 1700000000)] [] [(7, 1700000000)] [(7, 1700000000)])"
    by (simp add: tsStore_def mapSet_def d)
  from memo_reach.more [OF this hit [of 7 _ 1700000000]]
  have "memo_reach (?w [(''7'', 1700000000)] [] [(7, 1700000000)] [(7, 1700000000), (7, 1700000000)])"
    by (simp add: tsLookup_def d)
  with block_times_are_the_nodes [OF this] show ?thesis by (intro exI [of _ "?w [(''7'', 1700000000)] [] [(7, 1700000000)] [(7, 1700000000), (7, 1700000000)]"]) simp
qed

text \<open>A call that runs alone answers what the node answers, whatever is remembered, as long as the memo is the
  node's; once remembered, a time needs no node.\<close>

lemma getBlockTimestamp_node:
  assumes "\<And>b v. tsLookup b memo = Some v \<Longrightarrow> node b = Some t0 \<Longrightarrow> b = block \<Longrightarrow> v = js_number t0"
    and "node block = Some t0" "ready"
  shows "fst (getBlockTimestamp ready node block memo) = Some (js_number t0)"
  using assms by (auto simp: getBlockTimestamp_def split: option.split)

text \<open>A market page never breaks on the resolver: the only refusal is a market that is not there, and terms are
  shown only when all five reads answered, with the amounts the resolver gave.\<close>

theorem terms_degrade_never_fail:
  "(resolutionTerms formatUnits decimals ready resolver node ident s = None \<longleftrightarrow> tfind m_id ident (markets s) = None) \<and>
   (resolutionTerms formatUnits decimals ready resolver node ident s = Some (Some v) \<longrightarrow>
     (\<exists>m r t. tfind m_id ident (markets s) = Some m \<and> truthy resolver = Some r \<and> ready \<and>
        readResolutionTerms node r (m_address m) (m_marketId m) = Some t \<and>
        tv_bond v = dec (te_bond t) \<and> tv_fee v = dec (te_fee t) \<and> tv_reward v = dec (te_reward t) \<and> tv_pool v = dec (te_pool t)))"
  by (auto simp: resolutionTerms_def split: option.splits if_splits)

end
