(* ===== verification/Health.thy ===== *)
theory Health
  imports IndexerProps Http
begin

text \<open>
  The probes of \<open>src/src/health/health.controller.ts\<close>: readiness, as the exception filter passes it on, and the
  indexer's lag, which is read against the cursor the indexer saves; and which requests \<open>src/src/app.module.ts\<close>
  logs. Whether Postgres and Redis answer, and the node's head, are parameters.
\<close>

section \<open>Readiness\<close>

record readiness =
  rd_ok :: bool
  rd_database :: bool
  rd_redis :: bool

definition checkDb :: "bool \<Rightarrow> bool" where
  "checkDb answered = answered"

text \<open>The reply to \<open>PING\<close>; \<open>None\<close> when it throws.\<close>

definition checkRedis :: "string option \<Rightarrow> bool" where
  "checkRedis pong \<longleftrightarrow> pong = Some ''PONG''"

text \<open>A \<open>ServiceUnavailableException\<close> made of an object: it has neither \<open>message\<close> nor \<open>error\<close>.\<close>

definition ready :: "bool \<Rightarrow> string option \<Rightarrow> thrown + readiness" where
  "ready database pong =
     (let db = checkDb database; redis = checkRedis pong
      in if db \<and> redis then Inr \<lparr>rd_ok = True, rd_database = db, rd_redis = redis\<rparr>
         else Inl (HttpException 503 (ObjectBody None None) ''Service Unavailable Exception'' ''ServiceUnavailableException''))"

section \<open>The indexer's lag\<close>

datatype lag_status = Unknown | Live | Lagging | Stalled

record indexer_health =
  ih_status :: lag_status
  ih_lastBlock :: "int option"
  ih_headBlock :: "int option"
  ih_lag :: "int option"

definition lagStatus :: "int option \<Rightarrow> lag_status" where
  "lagStatus lag = (case lag of None \<Rightarrow> Unknown
     | Some n \<Rightarrow> if n \<le> 50 then Live else if n \<le> 1000 then Lagging else Stalled)"

text \<open>The head is \<open>null\<close> when no node is configured or the read fails.\<close>

definition indexerHealth :: "bool \<Rightarrow> rpc \<Rightarrow> 'a db_scheme \<Rightarrow> indexer_health" where
  "indexerHealth configured R s =
     (let lastBlock = map_option (\<lambda>c. js_number (k_last c)) (tfind k_stream CURSOR_STREAM (cursors s));
          headBlock = (if configured then map_option js_number (rpc_head R) else None);
          lag = (case (lastBlock, headBlock) of (Some b, Some h) \<Rightarrow> Some (js_number (h - b)) | _ \<Rightarrow> None)
      in \<lparr>ih_status = lagStatus lag, ih_lastBlock = lastBlock, ih_headBlock = headBlock, ih_lag = lag\<rparr>)"

section \<open>Request logs\<close>

definition startsWith :: "string \<Rightarrow> string \<Rightarrow> bool" where
  "startsWith prefix s \<longleftrightarrow> take (length prefix) s = prefix"

definition autoLogged :: "bool \<Rightarrow> string option \<Rightarrow> bool" where
  "autoLogged isTest url \<longleftrightarrow> \<not> isTest \<and> \<not> startsWith ''/api/relay'' (case url of None \<Rightarrow> [] | Some u \<Rightarrow> u)"

lemma shielded_requests_are_logged: "\<not> autoLogged t (Some (''/api/relay'' @ p))" "autoLogged False (Some (''/api/pool'' @ p))"
  by (simp_all add: autoLogged_def startsWith_def)

section \<open>What the probes tell\<close>

lemma safeHeadOf_lag: "0 \<le> cf_confirmations C \<Longrightarrow> 0 \<le> head \<Longrightarrow> head - safeHeadOf C head = min (cf_confirmations C) head"
  by (simp add: safeHeadOf_def)

lemma tick_saves:
  assumes "tick C R E s = (Inr b, t)" "rpc_head R = Some head" "nextFromBlock C s \<le> safeHeadOf C head"
  shows "\<exists>to u. t = saveCursor to u"
  using assms by (auto simp: tick_def Let_def bindp_Inr seqp_def split: option.splits)

lemma saved_row: "\<exists>c. tfind k_stream CURSOR_STREAM (cursors (saveCursor to u)) = Some c"
  using cursor_rows.lookup_upsert [of "\<lparr>k_stream = CURSOR_STREAM, k_last = to\<rparr>" CURSOR_STREAM
      "\<lambda>c. c\<lparr>k_last := to\<rparr>" CURSOR_STREAM "cursors u"]
  by (simp add: saveCursor_def)

lemma lag_of_row:
  assumes "tfind k_stream CURSOR_STREAM (cursors s) = Some c" "rpc_head R = Some head"
    and "0 \<le> head" "head \<le> 2 ^ 53" "0 \<le> k_last c" "k_last c \<le> 2 ^ 53"
  shows "ih_lag (indexerHealth True R s) = Some (head - k_last c)"
    "ih_status (indexerHealth True R s) = lagStatus (Some (head - k_last c))"
  using assms by (simp_all add: indexerHealth_def Let_def)

text \<open>The indexer probe follows the tick: right after a tick that found final blocks and resolved, the reported lag is
  the distance from the node's head to the last block committed. If the tick said it has caught up, that is the
  confirmation depth (or the whole chain, if shorter), so the probe reads live exactly when the depth is at most 50;
  if it did not, the lag is larger than the depth.\<close>

theorem health_follows_the_tick:
  assumes "1 \<le> cf_batchBlocks C" "0 \<le> cf_confirmations C" "rpc_head R = Some head" "0 \<le> head" "head \<le> 2 ^ 53"
    and "0 \<le> nextFromBlock C s" "nextFromBlock C s \<le> safeHeadOf C head" "tick C R E s = (Inr atHead, t)"
  shows "ih_lag (indexerHealth True R t) = Some (head - (nextFromBlock C t - 1)) \<and>
    (if atHead
     then ih_lag (indexerHealth True R t) = Some (min (cf_confirmations C) head) \<and>
       (ih_status (indexerHealth True R t) = Live \<longleftrightarrow> min (cf_confirmations C) head \<le> 50)
     else min (cf_confirmations C) head < head - (nextFromBlock C t - 1))"
proof -
  obtain to u where "t = saveCursor to u" using tick_saves [OF assms(8,3,7)] by blast
  then obtain c where c: "tfind k_stream CURSOR_STREAM (cursors t) = Some c" using saved_row by blast
  then have last: "k_last c = nextFromBlock C t - 1" by (simp add: nextFromBlock_def)
  have moved: "nextFromBlock C s < nextFromBlock C t" "nextFromBlock C t \<le> safeHeadOf C head + 1"
    "atHead = (nextFromBlock C t = safeHeadOf C head + 1)"
    using tick_cursor [OF assms(1,3,7), of E] assms(8) by auto
  have depth: "head - safeHeadOf C head = min (cf_confirmations C) head" by (rule safeHeadOf_lag [OF assms(2,4)])
  have "safeHeadOf C head \<le> head" using depth assms(2,4) by (simp add: min_def split: if_splits)
  then have "0 \<le> k_last c" "k_last c \<le> 2 ^ 53" using last moved assms(5,6) by linarith+
  note lag = lag_of_row [OF c assms(3-5) this]
  show ?thesis
  proof (cases atHead)
    case True
    then have "head - k_last c = min (cf_confirmations C) head" using last moved(3) depth by simp
    then show ?thesis using True lag last by (simp add: lagStatus_def)
  next
    case False
    then have "min (cf_confirmations C) head < head - (nextFromBlock C t - 1)" using moved(2,3) depth by linarith
    then show ?thesis using False lag last by simp
  qed
qed

lemma health_follows_the_tick_witness:
  "\<exists>t. tick sample_chain (serving (Some 10) [sample_raw] (\<lambda>b. 5)) sample_env sample_state = (Inr True, t) \<and>
    ih_lag (indexerHealth True (serving (Some 10) [sample_raw] (\<lambda>b. 5)) t) = Some 2 \<and>
    ih_status (indexerHealth True (serving (Some 10) [sample_raw] (\<lambda>b. 5)) t) = Live"
proof -
  let ?R = "serving (Some 10) [sample_raw] (\<lambda>b. 5)"
  obtain t where t: "tick sample_chain ?R sample_env sample_state = (Inr True, t)" using sample_tick by blast
  have "nextFromBlock sample_chain sample_state = 1"
    by (simp add: nextFromBlock_def sample_chain_def sample_state_def state_with_def)
  moreover have "1 \<le> cf_batchBlocks sample_chain" "0 \<le> cf_confirmations sample_chain" "rpc_head ?R = Some 10"
    "safeHeadOf sample_chain 10 = 8" "cf_confirmations sample_chain = 2"
    by (simp_all add: sample_chain_def serving_def safeHeadOf_def)
  ultimately show ?thesis
    using health_follows_the_tick [of sample_chain ?R 10 sample_state sample_env True t] t by auto
qed

text \<open>A node that lost the chain reads as live: when its head is below the block last committed (a reset network, a
  node far behind), every tick reports that it has caught up and does nothing, and the probe answers live with a
  negative lag, however long that lasts.\<close>

theorem lost_chain_reads_as_live:
  assumes "tfind k_stream CURSOR_STREAM (cursors s) = Some c" "rpc_head R = Some head" "head < k_last c"
    and "0 \<le> head" "k_last c \<le> 2 ^ 53" "0 \<le> cf_confirmations C"
  shows "tick C R E s = (Inr True, s) \<and> ih_status (indexerHealth True R s) = Live \<and>
    ih_lag (indexerHealth True R s) = Some (head - k_last c)"
proof -
  have "safeHeadOf C head \<le> head" using assms(4,6) by (simp add: safeHeadOf_def)
  then have "safeHeadOf C head < nextFromBlock C s" using assms(1,3) by (simp add: nextFromBlock_def)
  then have "tick C R E s = (Inr True, s)" using assms(2) by (simp add: tick_def Let_def)
  then show ?thesis using lag_of_row [OF assms(1,2)] assms(3-5) by (simp add: lagStatus_def)
qed

lemma lost_chain_reads_as_live_witness:
  "ih_status (indexerHealth True (serving (Some 10) [] (\<lambda>b. 5)) (saveCursor 900 sample_state)) = Live"
proof -
  have "tfind k_stream CURSOR_STREAM (cursors (saveCursor 900 sample_state)) = Some \<lparr>k_stream = CURSOR_STREAM, k_last = 900\<rparr>"
    by (simp add: saveCursor_def sample_state_def state_with_def tupsert_def)
  from lost_chain_reads_as_live [OF this, of "serving (Some 10) [] (\<lambda>b. 5)" 10 sample_chain sample_env]
  show ?thesis by (simp add: serving_def sample_chain_def)
qed

text \<open>Readiness is 200 exactly when both answer; what the body says about the one that does not is lost in the
  exception filter, which passes on a message and an error only.\<close>

theorem readiness_hides_the_cause:
  "(status_of id (ready db pong) = 200 \<longleftrightarrow> db \<and> pong = Some ''PONG'') \<and> status_of id (ready db pong) \<in> {200, 503} \<and>
   (\<exists>body. \<forall>db' pong' e. ready db' pong' = Inl e \<longrightarrow> resolve e = body)"
  by (auto simp: ready_def checkDb_def checkRedis_def status_of_def Let_def)

end
