(* ===== verification/Profiles.thy ===== *)
theory Profiles
  imports Http
begin

text \<open>
  Account profiles: \<open>src/src/users/users.service.ts\<close> with its routes and DTO. The rows extend the accounts of
  sign-in with the columns only profiles read. viem's \<open>isAddress\<close> and the URL check are parameters.
\<close>

record profile = user +
  u_avatarUrl :: "string option"
  u_createdAt :: int

text \<open>A field of a JSON body: absent, \<open>null\<close> (which \<open>@IsOptional()\<close> lets through) or a text.\<close>

datatype field = Absent | Null | Given string

record update_profile_dto =
  up_displayName :: field
  up_avatarUrl :: field

definition given :: "(string \<Rightarrow> bool) \<Rightarrow> field \<Rightarrow> bool" where
  "given ok f = (case f of Given s \<Rightarrow> ok s | _ \<Rightarrow> True)"

definition updateProfileDto :: "(string \<Rightarrow> bool) \<Rightarrow> update_profile_dto \<Rightarrow> bool" where
  "updateProfileDto isUrl d \<longleftrightarrow> given (\<lambda>s. length s \<le> 40) (up_displayName d) \<and>
     given (\<lambda>s. isUrl s \<and> length s \<le> 500) (up_avatarUrl d)"

text \<open>Prisma leaves a column alone when its value is \<open>undefined\<close>.\<close>

definition written :: "field \<Rightarrow> string option \<Rightarrow> string option" where
  "written f old = (case f of Absent \<Rightarrow> old | Null \<Rightarrow> None | Given s \<Rightarrow> Some s)"

record public_profile =
  pp_address :: string
  pp_displayName :: "string option"
  pp_avatarUrl :: "string option"
  pp_createdAt :: int

definition publicProfile :: "profile \<Rightarrow> public_profile" where
  "publicProfile u = \<lparr>pp_address = u_address u, pp_displayName = u_displayName u, pp_avatarUrl = u_avatarUrl u,
     pp_createdAt = u_createdAt u\<rparr>"

definition notFound :: "string \<Rightarrow> thrown" where
  "notFound m = HttpException 404 (ObjectBody (Some m) (Some ''Not Found'')) m ''NotFoundException''"

text \<open>The caller's own profile is the whole row.\<close>

definition userById :: "string \<Rightarrow> profile list \<Rightarrow> thrown + profile" where
  "userById userId s = (case tfind u_id userId s of None \<Rightarrow> Inl (notFound ''user not found'') | Some u \<Rightarrow> Inr u)"

definition updateProfile :: "string \<Rightarrow> update_profile_dto \<Rightarrow> (profile list, thrown, profile) proc" where
  "updateProfile userId d = (\<lambda>s. case tfind u_id userId s of
     None \<Rightarrow> (Inl (PrismaKnown ''P2025''), s)
   | Some u \<Rightarrow>
       (let f = (\<lambda>r. r\<lparr>u_displayName := written (up_displayName d) (u_displayName r),
                      u_avatarUrl := written (up_avatarUrl d) (u_avatarUrl r)\<rparr>)
        in (Inr (f u), tupdate u_id userId f s)))"

text \<open>\<open>PATCH /users/me\<close> behind its DTO.\<close>

definition patchMe :: "(string \<Rightarrow> bool) \<Rightarrow> string \<Rightarrow> update_profile_dto \<Rightarrow> (profile list, thrown, profile) proc" where
  "patchMe isUrl userId d = (\<lambda>s. if updateProfileDto isUrl d then updateProfile userId d s
     else (Inl (badRequest ''validation failed''), s))"

text \<open>A malformed address is a plain \<open>Error\<close> of \<open>normalizeAddress\<close>, not an \<open>HttpException\<close>.\<close>

definition getPublicByAddress :: "(string \<Rightarrow> bool) \<Rightarrow> string \<Rightarrow> profile list \<Rightarrow> thrown + public_profile" where
  "getPublicByAddress isAddress raw s =
     (if \<not> isAddress raw then Inl (OtherError (''invalid address: '' @ raw))
      else (case tfind u_address (lower raw) s of
          None \<Rightarrow> Inl (notFound ''user not found'') | Some u \<Rightarrow> Inr (publicProfile u)))"

section \<open>What an update can touch\<close>

interpretation profile_rows: unique_store u_id "tfind u_id" "tupdate u_id" "tupsert u_id"
  by (rule list_table_store)

lemma written_written [simp]: "written f (written f x) = written f x"
  by (cases f) (simp_all add: written_def)

text \<open>An update touches the caller's copy and nothing else: no other account, no address, no sign-in data; the
  new texts are within their bounds; a repeated update changes nothing more; and the public profile under the
  caller's address shows the result.\<close>

theorem profile_update_is_contained:
  assumes "patchMe isUrl userId d s = (Inr v, t)" "tfind u_id userId s = Some u"
  shows "map u_id t = map u_id s \<and> map u_address t = map u_address s \<and> map u_lastLogin t = map u_lastLogin s \<and>
    (\<forall>k. k \<noteq> userId \<longrightarrow> tfind u_id k t = tfind u_id k s) \<and>
    (\<forall>x. u_displayName v = Some x \<longrightarrow> u_displayName u = Some x \<or> length x \<le> 40) \<and>
    patchMe isUrl userId d t = (Inr v, t)"
proof -
  let ?f = "\<lambda>r. r\<lparr>u_displayName := written (up_displayName d) (u_displayName r),
                      u_avatarUrl := written (up_avatarUrl d) (u_avatarUrl r)\<rparr>"
  have ok: "updateProfileDto isUrl d" and v: "v = ?f u" and t: "t = tupdate u_id userId ?f s"
    using assms by (auto simp: patchMe_def updateProfile_def Let_def split: if_splits)
  have twice: "?f (?f r) = ?f r" for r :: profile
    by simp
  have frame: "map u_id t = map u_id s" "map u_address t = map u_address s" "map u_lastLogin t = map u_lastLogin s"
    by (simp_all add: t tupdate_def)
  have other: "tfind u_id k t = (if k = userId then Some v else tfind u_id k s)" for k
    using assms(2) by (simp add: t v tfind_tupdate)
  have "tupdate u_id userId ?f t = t" by (simp add: t tupdate_def twice)
  then have "patchMe isUrl userId d t = (Inr v, t)"
    using ok other [of userId] twice [of u] by (simp add: patchMe_def updateProfile_def v)
  moreover have "u_displayName u = Some x \<or> length x \<le> 40" if "u_displayName v = Some x" for x
    using that ok by (cases "up_displayName d") (auto simp: v written_def updateProfileDto_def given_def)
  ultimately show ?thesis using frame other by simp
qed

text \<open>A malformed address in the path is answered 500, not 400 or 404.\<close>

lemma malformed_address_is_500:
  "\<not> isAddress raw \<Longrightarrow> status_of id (getPublicByAddress isAddress raw s) = 500"
  by (simp add: getPublicByAddress_def status_of_def internal_error_def)

end
