(* ===== verification/Scripts.thy ===== *)
theory Scripts
  imports JsNumber MarketViews
begin

text \<open>
  What the operator scripts under \<open>src/scripts/\<close> share: the command line, JavaScript arithmetic on doubles, a
  wallet that sends one transaction at a time and waits for its receipt, and the database. Contracts and node
  are a parameter: what a read answers depends on the transactions sent before it. A script stops at its first
  exception, whatever it sent before.
\<close>

section \<open>The command line\<close>

text \<open>\<open>process.argv\<close>; \<open>argv[i + 1]\<close> past the end is \<open>undefined\<close>.\<close>

definition option_name :: "string \<Rightarrow> string" where
  "option_name name = ''--'' @ name"

definition flag :: "string list \<Rightarrow> string \<Rightarrow> string option" where
  "flag argv name = (let rest = dropWhile (\<lambda>a. a \<noteq> option_name name) argv
     in case rest of _ # v # _ \<Rightarrow> Some v | _ \<Rightarrow> None)"

definition has_flag :: "string list \<Rightarrow> string \<Rightarrow> bool" where
  "has_flag argv name \<longleftrightarrow> option_name name \<in> set argv"

text \<open>Steps that may throw, one after the other.\<close>

definition and_then :: "'e + 'a \<Rightarrow> ('a \<Rightarrow> 'e + 'b) \<Rightarrow> 'e + 'b" where
  "and_then r f = (case r of Inl e \<Rightarrow> Inl e | Inr x \<Rightarrow> f x)"

lemma and_then_Inr: "and_then r f = Inr y \<longleftrightarrow> (\<exists>x. r = Inr x \<and> f x = Inr y)"
  by (simp add: and_then_def split: sum.split)

section \<open>Arithmetic\<close>

text \<open>The operations on doubles; a zero is positive.\<close>

definition js_plus :: "js_float \<Rightarrow> js_float \<Rightarrow> js_float" where
  "js_plus x y = (case (x, y) of
     (Finite a, Finite b) \<Rightarrow> to_double (a + b)
   | (NaN, _) \<Rightarrow> NaN | (_, NaN) \<Rightarrow> NaN
   | (Infinite p, Infinite q) \<Rightarrow> if p = q then Infinite p else NaN
   | (Infinite p, Finite _) \<Rightarrow> Infinite p | (Finite _, Infinite q) \<Rightarrow> Infinite q)"

definition js_times :: "js_float \<Rightarrow> js_float \<Rightarrow> js_float" where
  "js_times x y = (case (x, y) of
     (Finite a, Finite b) \<Rightarrow> to_double (a * b)
   | (NaN, _) \<Rightarrow> NaN | (_, NaN) \<Rightarrow> NaN
   | (Infinite p, Infinite q) \<Rightarrow> Infinite (p = q)
   | (Infinite p, Finite b) \<Rightarrow> if b = 0 then NaN else Infinite (p = (0 < b))
   | (Finite a, Infinite q) \<Rightarrow> if a = 0 then NaN else Infinite (q = (0 < a)))"

definition js_divide :: "js_float \<Rightarrow> js_float \<Rightarrow> js_float" where
  "js_divide x y = (case (x, y) of
     (Finite a, Finite b) \<Rightarrow> if b = 0 then (if a = 0 then NaN else Infinite (0 < a)) else to_double (a / b)
   | (NaN, _) \<Rightarrow> NaN | (_, NaN) \<Rightarrow> NaN
   | (Infinite p, Infinite q) \<Rightarrow> NaN
   | (Infinite p, Finite b) \<Rightarrow> Infinite (p = (0 \<le> b)) | (Finite _, Infinite _) \<Rightarrow> Finite 0)"

definition js_ceil :: "js_float \<Rightarrow> js_float" where
  "js_ceil x = (case x of Finite a \<Rightarrow> Finite (of_int \<lceil>a\<rceil>) | _ \<Rightarrow> x)"

definition positive_finite :: "js_float \<Rightarrow> bool" where
  "positive_finite x \<longleftrightarrow> (case x of Finite a \<Rightarrow> 0 < a | _ \<Rightarrow> False)"

section \<open>Transactions\<close>

text \<open>The argument of \<open>createMarket\<close>. A script that does not know a field leaves it out.\<close>

record create_params =
  cp_collateral :: string
  cp_resolver :: string
  cp_startTime :: "int option"
  cp_closeTime :: int
  cp_outcomeCount :: nat
  cp_alpha :: int
  cp_sStar :: int
  cp_seedPerOutcome :: int
  cp_category :: string
  cp_metadataHash :: string
  cp_metadata :: "string option"

datatype chain_tx =
    Mint string string int                  \<comment> \<open>token, to, amount\<close>
  | Approve string string int               \<comment> \<open>token, spender, amount\<close>
  | CreateMarket string create_params       \<comment> \<open>engine\<close>
  | ResolveMarket string string int int     \<comment> \<open>resolver, market, id, outcome\<close>
  | InvalidateMarket string string int
  | GrantRole string string string          \<comment> \<open>contract, role, account\<close>
  | DepositTo string string int             \<comment> \<open>entry point, account, value\<close>
  | Transfer string int int int int         \<comment> \<open>to, value, gas, fee, tip\<close>

datatype script_error =
    Usage                 \<comment> \<open>an argument or a variable is missing or malformed\<close>
  | NoAddressBook
  | RangeError            \<comment> \<open>\<open>BigInt\<close> of a fraction, an infinity or \<open>NaN\<close>\<close>
  | TooPoor
  | NotAllowed            \<comment> \<open>the row or the account is not in the state the script needs\<close>
  | CallFailed            \<comment> \<open>the node refused a read, a transaction or a receipt\<close>
  | Reverted

record script_state = db +
  sent_txs :: "chain_tx list"

type_synonym 'a script = "(script_state, script_error, 'a) proc"

text \<open>\<open>sn_accepts\<close>: the node takes the transaction (its gas estimate does not revert). \<open>sn_receipt\<close> is the
  receipt of the last transaction: its success, or \<open>None\<close> when waiting fails.\<close>

record script_node =
  sn_accepts :: "chain_tx list \<Rightarrow> chain_tx \<Rightarrow> bool"
  sn_receipt :: "chain_tx list \<Rightarrow> bool option"

definition write_tx :: "script_node \<Rightarrow> chain_tx \<Rightarrow> unit script" where
  "write_tx N x = (\<lambda>s. if sn_accepts N (sent_txs s) x then (Inr (), s\<lparr>sent_txs := sent_txs s @ [x]\<rparr>)
     else (Inl CallFailed, s))"

definition wait_receipt :: "script_node \<Rightarrow> bool script" where
  "wait_receipt N = (\<lambda>s. case sn_receipt N (sent_txs s) of None \<Rightarrow> (Inl CallFailed, s) | Some ok \<Rightarrow> (Inr ok, s))"

text \<open>A read of the chain, as a function of what was sent.\<close>

definition read_chain :: "(chain_tx list \<Rightarrow> 'a option) \<Rightarrow> 'a script" where
  "read_chain f = (\<lambda>s. case f (sent_txs s) of None \<Rightarrow> (Inl CallFailed, s) | Some v \<Rightarrow> (Inr v, s))"

definition need :: "script_error \<Rightarrow> 'a option \<Rightarrow> 'a script" where
  "need e v = (case v of None \<Rightarrow> throw e | Some x \<Rightarrow> ret x)"

definition guardp :: "script_error \<Rightarrow> bool \<Rightarrow> unit script" where
  "guardp e b = (if b then ret () else throw e)"

definition from_sum :: "script_error + 'a \<Rightarrow> 'a script" where
  "from_sum r = (\<lambda>s. (r, s))"

text \<open>Send, wait, and stop unless the receipt says success.\<close>

definition send_checked :: "script_node \<Rightarrow> chain_tx \<Rightarrow> unit script" where
  "send_checked N x = seqp (write_tx N x) (bindp (wait_receipt N) (\<lambda>ok. guardp Reverted ok))"

text \<open>Send and wait, whatever the receipt says.\<close>

definition send_waited :: "script_node \<Rightarrow> chain_tx \<Rightarrow> unit script" where
  "send_waited N x = seqp (write_tx N x) (bindp (wait_receipt N) (\<lambda>_. ret ()))"

section \<open>Runs\<close>

lemma need_run [simp]:
  "need e (Some x) s = (Inr x, s)" "need e None s = (Inl e, s)"
  by (simp_all add: need_def)

lemma guardp_run [simp]: "guardp e b s = (if b then Inr () else Inl e, s)"
  by (simp add: guardp_def)

text \<open>A script's first steps, read as the case distinctions they are.\<close>

lemma script_steps:
  "bindp (need e v) f s = (case v of None \<Rightarrow> (Inl e, s) | Some x \<Rightarrow> f x s)"
  "seqp (guardp e b) m s = (if b then m s else (Inl e, s))"
  "bindp (read_chain g) f s = (case g (sent_txs s) of None \<Rightarrow> (Inl CallFailed, s) | Some x \<Rightarrow> f x s)"
  "bindp (from_sum q) f s = (case q of Inl e \<Rightarrow> (Inl e, s) | Inr x \<Rightarrow> f x s)"
  by (auto simp: bindp_def seqp_def read_chain_def from_sum_def split: option.split sum.split)

lemma guardp_Inr: "guardp e b s = (Inr u, t) \<longleftrightarrow> b \<and> t = s"
  by auto

lemma need_Inr: "need e v s = (Inr x, t) \<longleftrightarrow> v = Some x \<and> t = s"
  by (cases v) auto

lemma write_tx_Inr: "write_tx N x s = (Inr u, t) \<longleftrightarrow> sn_accepts N (sent_txs s) x \<and> t = s\<lparr>sent_txs := sent_txs s @ [x]\<rparr>"
  by (auto simp: write_tx_def)

lemma read_chain_Inr: "read_chain f s = (Inr v, t) \<longleftrightarrow> f (sent_txs s) = Some v \<and> t = s"
  by (auto simp: read_chain_def split: option.splits)

lemma send_checked_Inr:
  "send_checked N x s = (Inr u, t) \<longleftrightarrow> sn_accepts N (sent_txs s) x \<and> t = s\<lparr>sent_txs := sent_txs s @ [x]\<rparr> \<and>
     sn_receipt N (sent_txs s @ [x]) = Some True"
  by (auto simp: send_checked_def seqp_Inr bindp_Inr write_tx_Inr wait_receipt_def guardp_Inr split: option.splits if_splits)

lemma send_waited_Inr:
  "send_waited N x s = (Inr u, t) \<longleftrightarrow> sn_accepts N (sent_txs s) x \<and> t = s\<lparr>sent_txs := sent_txs s @ [x]\<rparr> \<and>
     sn_receipt N (sent_txs s @ [x]) \<noteq> None"
  by (auto simp: send_waited_def seqp_Inr bindp_Inr write_tx_Inr wait_receipt_def split: option.splits)

text \<open>Whatever happens, a send leaves the database as it was and adds at most its own transaction; what follows
  it runs only after a receipt that says success.\<close>

lemma send_checked_cases:
  assumes "send_checked N x s = (r, t)"
  obtains e where "r = Inl e" "t = s" | e where "r = Inl e" "t = s\<lparr>sent_txs := sent_txs s @ [x]\<rparr>"
  | "r = Inr ()" "t = s\<lparr>sent_txs := sent_txs s @ [x]\<rparr>" "sn_receipt N (sent_txs s @ [x]) = Some True"
  using assms by (auto simp: send_checked_def seqp_def bindp_def write_tx_def wait_receipt_def
    split: if_splits option.splits)

lemma send_then:
  assumes "seqp (send_checked N x) m s = (r, t)"
  obtains e where "r = Inl e" "t = s" | e where "r = Inl e" "t = s\<lparr>sent_txs := sent_txs s @ [x]\<rparr>"
  | "m (s\<lparr>sent_txs := sent_txs s @ [x]\<rparr>) = (r, t)" "sn_receipt N (sent_txs s @ [x]) = Some True"
proof -
  obtain q u where q: "send_checked N x s = (q, u)" by (cases "send_checked N x s")
  from q show thesis by (cases rule: send_checked_cases) (use that assms q in \<open>auto simp: seqp_def\<close>)
qed

text \<open>A node that takes everything.\<close>

definition willing_node :: script_node where
  "willing_node = \<lparr>sn_accepts = (\<lambda>_ _. True), sn_receipt = (\<lambda>_. Some True)\<rparr>"

lemma send_checked_willing [simp]: "send_checked willing_node x s = (Inr (), s\<lparr>sent_txs := sent_txs s @ [x]\<rparr>)"
  by (simp add: send_checked_Inr willing_node_def)

end
