(* ===== verification/Seeding.thy ===== *)
theory Seeding
  imports Scripts AdminViews CreationProps
begin

text \<open>
  The market-creating scripts: \<open>src/scripts/seed-testnet-markets.ts\<close> and \<open>src/scripts/create-short-market.ts\<close>.
  The catalogue of markets is an argument, as are \<open>Math.log\<close> and \<open>Math.sqrt\<close> (which the language leaves to the
  implementation), Keccak, viem's \<open>stringToHex\<close> and the derivation of an account from its key.
\<close>

section \<open>Environment\<close>

record address_book =
  ab_usdc :: string
  ab_usdcIsTestToken :: bool
  ab_trustedResolver :: string
  ab_lsLmsrMarket :: string

record seed_env =
  sv_key :: "string option"
  sv_argv :: "string list"
  sv_book :: "address_book option"
  sv_now :: int                               \<comment> \<open>\<open>Math.floor(Date.now() / 1000)\<close>\<close>
  sv_account :: "string \<Rightarrow> string option"      \<comment> \<open>\<open>privateKeyToAccount\<close>; \<open>None\<close> where it throws\<close>
  sv_balance :: "string \<Rightarrow> string \<Rightarrow> chain_tx list \<Rightarrow> int option"
  sv_allowance :: "string \<Rightarrow> string \<Rightarrow> string \<Rightarrow> chain_tx list \<Rightarrow> int option"
  sv_marketCount :: "string \<Rightarrow> chain_tx list \<Rightarrow> int option"
  sv_keccak :: "string \<Rightarrow> string"
  sv_bytes32 :: "string \<Rightarrow> string"
  sv_log :: "js_float \<Rightarrow> js_float"
  sv_sqrt :: "js_float \<Rightarrow> js_float"

record seed_market =
  sm_title :: string
  sm_description :: string
  sm_rules :: string
  sm_labels :: "string list"
  sm_closesInHours :: js_float
  sm_opensInHours :: "js_float option"
  sm_seed :: "js_float option"

section \<open>Curve and cost\<close>

definition USDC :: int where
  "USDC = 1000000"

definition S_STAR :: int where
  "S_STAR = 2000 * 10 ^ 18"

definition count_of :: "nat \<Rightarrow> js_float" where
  "count_of n = to_double (of_nat n)"

definition alphaFor :: "(js_float \<Rightarrow> js_float) \<Rightarrow> nat \<Rightarrow> int option" where
  "alphaFor ln_of n = (if n = 2 then Some 25000000000000000
     else whole (js_round (js_times (js_divide (to_double (35 / 1000)) (js_times (count_of n) (ln_of (count_of n)))) (to_double (10 ^ 18)))))"

definition seedCost :: "(js_float \<Rightarrow> js_float) \<Rightarrow> (js_float \<Rightarrow> js_float) \<Rightarrow> js_float \<Rightarrow> nat \<Rightarrow> int option" where
  "seedCost ln_of root_of seedPerOutcome outcomeCount =
     (let n = count_of outcomeCount;
          alpha = (if outcomeCount = 2 then to_double (25 / 1000)
                   else js_divide (to_double (35 / 1000)) (js_times n (ln_of n)));
          s = js_times n seedPerOutcome;
          b = js_times alpha (js_plus s (root_of (js_times s (Finite 2000))));
          total = js_plus seedPerOutcome (js_times b (ln_of n))
      in map_option (\<lambda>c. c * USDC) (whole (js_ceil (js_times total (to_double (105 / 100))))))"

definition seedOf :: "seed_market \<Rightarrow> js_float" where
  "seedOf m = (case sm_seed m of Some x \<Rightarrow> x | None \<Rightarrow> Finite 500)"

fun totalSubsidy :: "seed_env \<Rightarrow> seed_market list \<Rightarrow> int \<Rightarrow> int option" where
  "totalSubsidy E [] acc = Some acc"
| "totalSubsidy E (m # ms) acc = (case seedCost (sv_log E) (sv_sqrt E) (seedOf m) (length (sm_labels m)) of
     None \<Rightarrow> None | Some c \<Rightarrow> totalSubsidy E ms (acc + c))"

section \<open>Which markets\<close>

definition upper :: "string \<Rightarrow> string" where
  "upper s = map (\<lambda>c. let n = of_char c :: nat in if 97 \<le> n \<and> n \<le> 122 then char_of (n - 32) else c) s"

text \<open>Every market of the catalogue is on the one engine; any other name is an error.\<close>

definition byEngine :: "string option \<Rightarrow> seed_market list \<Rightarrow> script_error + seed_market list" where
  "byEngine wanted ms = (case wanted of None \<Rightarrow> Inr ms | Some e \<Rightarrow> if upper e = ''LS_LMSR'' then Inr ms else Inl Usage)"

definition limited :: "string option \<Rightarrow> seed_market list \<Rightarrow> script_error + seed_market list" where
  "limited limit ms = (case limit of None \<Rightarrow> Inr ms
     | Some t \<Rightarrow> (case whole (number_of_string t) of
         Some n \<Rightarrow> if n < 1 then Inl Usage else Inr (take (nat n) ms) | None \<Rightarrow> Inl Usage))"

definition closingIn :: "string option \<Rightarrow> seed_market list \<Rightarrow> script_error + seed_market list" where
  "closingIn hours ms = (case hours of None \<Rightarrow> Inr ms
     | Some t \<Rightarrow> if positive_finite (number_of_string t)
         then Inr (map (\<lambda>m. m\<lparr>sm_closesInHours := number_of_string t\<rparr>) ms) else Inl Usage)"

definition openingIn :: "string option \<Rightarrow> seed_market list \<Rightarrow> script_error + seed_market list" where
  "openingIn hours ms = (case hours of None \<Rightarrow> Inr ms
     | Some t \<Rightarrow> if positive_finite (number_of_string t) \<or> number_of_string t = Finite 0
         then Inr (map (\<lambda>m. m\<lparr>sm_opensInHours := Some (number_of_string t)\<rparr>) ms) else Inl Usage)"

definition label_char :: "char \<Rightarrow> bool" where
  "label_char c = (let n = of_char c :: nat in 48 \<le> n \<and> n \<le> 57 \<or> 65 \<le> n \<and> n \<le> 90 \<or> 97 \<le> n \<and> n \<le> 122 \<or>
     c = CHR ''_'' \<or> c = CHR '' '' \<or> c = CHR ''-'')"

definition labelled :: "string option \<Rightarrow> seed_market list \<Rightarrow> script_error + seed_market list" where
  "labelled label ms = (case label of None \<Rightarrow> Inr ms
     | Some t \<Rightarrow> if 1 \<le> length t \<and> length t \<le> 32 \<and> list_all label_char t
         then Inr (map (\<lambda>m. m\<lparr>sm_title := sm_title m @ '' ['' @ t @ '']''\<rparr>) ms) else Inl Usage)"

definition selectMarkets :: "string list \<Rightarrow> seed_market list \<Rightarrow> script_error + seed_market list" where
  "selectMarkets argv catalogue =
     (let opt = (\<lambda>name. truthy (flag argv name))
      in and_then (byEngine (opt ''engine'') catalogue) (\<lambda>a.
         and_then (limited (opt ''limit'') a) (\<lambda>b.
         and_then (closingIn (opt ''closes-in'') b) (\<lambda>c.
         and_then (openingIn (opt ''opens-in'') c) (\<lambda>d.
         labelled (opt ''label'') d)))))"

section \<open>Seeding\<close>

definition seedCopy :: "seed_market \<Rightarrow> metadata" where
  "seedCopy m = \<lparr>md_title = sm_title m, md_description = sm_description m, md_rules = sm_rules m,
     md_imageUrl = None, md_labels = sm_labels m, md_categoryKey = Some ''SPORTS''\<rparr>"

definition seedHash :: "seed_env \<Rightarrow> seed_market \<Rightarrow> string" where
  "seedHash E m = metadataHashOf (sv_keccak E) (seedCopy m)"

text \<open>The draft as it is stored; the update of the \<open>upsert\<close> is empty.\<close>

definition storeDraft :: "string \<Rightarrow> metadata \<Rightarrow> string \<Rightarrow> 'a db_scheme \<Rightarrow> 'a db_scheme" where
  "storeDraft h c createdBy s = s\<lparr>drafts := tupsert d_hash h
     \<lparr>d_hash = h, d_title = md_title c, d_description = md_description c, d_rules = md_rules c,
      d_imageUrl = md_imageUrl c, d_labels = md_labels c, d_categoryKey = md_categoryKey c,
      d_createdBy = lower createdBy, d_ref = None\<rparr> id (drafts s)\<rparr>"

definition adopted :: "string \<Rightarrow> 'a db_scheme \<Rightarrow> bool" where
  "adopted h s \<longleftrightarrow> (case tfind d_hash h (drafts s) of None \<Rightarrow> False | Some d \<Rightarrow> truthy (d_ref d) \<noteq> None)"

text \<open>\<open>BigInt(now + Math.round(hours * 3600))\<close>.\<close>

definition secondsFrom :: "int \<Rightarrow> js_float \<Rightarrow> js_float \<Rightarrow> int option" where
  "secondsFrom now x unit = whole (js_plus (to_double (of_int now)) (js_round (js_times x unit)))"

definition startTimeOf :: "seed_env \<Rightarrow> seed_market \<Rightarrow> int option" where
  "startTimeOf E m = (case sm_opensInHours m of None \<Rightarrow> Some 0
     | Some h \<Rightarrow> if h = Finite 0 \<or> h = NaN then Some 0 else secondsFrom (sv_now E) h (Finite 3600))"

definition createParams :: "seed_env \<Rightarrow> address_book \<Rightarrow> seed_market \<Rightarrow> create_params option" where
  "createParams E book m =
     (case (secondsFrom (sv_now E) (sm_closesInHours m) (Finite 3600), startTimeOf E m,
            alphaFor (sv_log E) (length (sm_labels m)), whole (seedOf m)) of
        (Some closeTime, Some startTime, Some alpha, Some seed) \<Rightarrow>
          Some \<lparr>cp_collateral = ab_usdc book, cp_resolver = ab_trustedResolver book, cp_startTime = Some startTime,
            cp_closeTime = closeTime, cp_outcomeCount = length (sm_labels m), cp_alpha = alpha, cp_sStar = S_STAR,
            cp_seedPerOutcome = seed * USDC, cp_category = sv_bytes32 E ''SPORTS'', cp_metadataHash = seedHash E m,
            cp_metadata = Some (canonicalize (seedCopy m))\<rparr>
      | _ \<Rightarrow> None)"

text \<open>One market: whether it was created.\<close>

definition seedOne :: "seed_env \<Rightarrow> script_node \<Rightarrow> address_book \<Rightarrow> string \<Rightarrow> seed_market \<Rightarrow> bool script" where
  "seedOne E N book acct m =
     bindp (gets (adopted (seedHash E m))) (\<lambda>there.
       if there then ret False
       else seqp (modp (storeDraft (seedHash E m) (seedCopy m) acct))
           (bindp (need RangeError (createParams E book m)) (\<lambda>p.
            seqp (send_checked N (CreateMarket (ab_lsLmsrMarket book) p)) (ret True))))"

fun seedAll :: "seed_env \<Rightarrow> script_node \<Rightarrow> address_book \<Rightarrow> string \<Rightarrow> seed_market list \<Rightarrow> (nat \<times> nat) script" where
  "seedAll E N book acct [] = ret (0, 0)"
| "seedAll E N book acct (m # ms) =
     bindp (seedOne E N book acct m) (\<lambda>new.
     bindp (seedAll E N book acct ms) (\<lambda>(created, skipped).
     ret (if new then (created + 1, skipped) else (created, skipped + 1))))"

definition topUp :: "script_node \<Rightarrow> address_book \<Rightarrow> string \<Rightarrow> int \<Rightarrow> int \<Rightarrow> int script" where
  "topUp N book acct needed balance =
     (if balance < needed \<and> ab_usdcIsTestToken book
      then seqp (send_waited N (Mint (ab_usdc book) acct (needed - balance))) (ret needed)
      else ret balance)"

definition seedMain :: "seed_env \<Rightarrow> script_node \<Rightarrow> seed_market list \<Rightarrow> (nat \<times> nat) script" where
  "seedMain E N catalogue =
     bindp (need Usage (truthy (sv_key E))) (\<lambda>pk.
     bindp (need NoAddressBook (sv_book E)) (\<lambda>book.
     bindp (from_sum (selectMarkets (sv_argv E) catalogue)) (\<lambda>ms.
     bindp (need Usage (sv_account E pk)) (\<lambda>acct.
     seqp (guardp Usage (ms \<noteq> []))
    (bindp (need RangeError (totalSubsidy E ms 0)) (\<lambda>total.
     bindp (read_chain (sv_balance E (ab_usdc book) acct)) (\<lambda>balance.
     bindp (topUp N book acct total balance) (\<lambda>funded.
     seqp (guardp TooPoor (total \<le> funded))
    (seqp (whenp (0 < total) (send_waited N (Approve (ab_usdc book) (ab_lsLmsrMarket book) total)))
     (seedAll E N book acct ms))))))))))"

section \<open>A short market\<close>

definition SEED_PER_OUTCOME :: int where
  "SEED_PER_OUTCOME = 200"

fun split_commas :: "string \<Rightarrow> string list" where
  "split_commas [] = [[]]"
| "split_commas (c # cs) = (if c = CHR '','' then [] # split_commas cs
     else (case split_commas cs of [] \<Rightarrow> [[c]] | w # ws \<Rightarrow> (c # w) # ws))"

text \<open>The copy a flag does not give is an argument: the default title spells the minutes out.\<close>

record short_copy =
  sy_title :: "js_float \<Rightarrow> string"
  sy_description :: string
  sy_rules :: string

definition minutesOf :: "string list \<Rightarrow> js_float option" where
  "minutesOf argv = (let x = (case flag argv ''minutes'' of None \<Rightarrow> Finite 10 | Some t \<Rightarrow> number_of_string t)
     in case x of Finite a \<Rightarrow> if a < 2 then None else Some x | _ \<Rightarrow> None)"

definition given_or :: "string list \<Rightarrow> string \<Rightarrow> string \<Rightarrow> string" where
  "given_or argv name dflt = (case flag argv name of None \<Rightarrow> dflt | Some t \<Rightarrow> t)"

definition shortCopy :: "short_copy \<Rightarrow> string list \<Rightarrow> js_float \<Rightarrow> metadata" where
  "shortCopy Y argv minutes = \<lparr>md_title = given_or argv ''title'' (sy_title Y minutes),
     md_description = given_or argv ''description'' (sy_description Y), md_rules = given_or argv ''rules'' (sy_rules Y),
     md_imageUrl = None, md_labels = map js_trim (split_commas (given_or argv ''outcomes'' ''Yes,No'')),
     md_categoryKey = Some ''SPORTS''\<rparr>"

text \<open>The subsidy spelled as that script spells it.\<close>

definition shortSeedCost :: "(js_float \<Rightarrow> js_float) \<Rightarrow> (js_float \<Rightarrow> js_float) \<Rightarrow> int \<Rightarrow> nat \<Rightarrow> int option" where
  "shortSeedCost ln_of root_of seedPerOutcome outcomeCount =
     (let n = count_of outcomeCount; seed = to_double (of_int seedPerOutcome);
          alpha = (if outcomeCount = 2 then to_double (25 / 1000)
                   else js_divide (to_double (35 / 1000)) (js_times n (ln_of n)));
          s = js_times n seed;
          b = js_times alpha (js_plus s (root_of (js_times s (Finite 2000))))
      in map_option (\<lambda>c. c * USDC) (whole (js_ceil (js_times (js_plus seed (js_times b (ln_of n))) (to_double (105 / 100))))))"

definition shortParams :: "seed_env \<Rightarrow> address_book \<Rightarrow> metadata \<Rightarrow> js_float \<Rightarrow> create_params option" where
  "shortParams E book c minutes =
     (case (secondsFrom (sv_now E) minutes (Finite 60), alphaFor (sv_log E) (length (md_labels c))) of
        (Some closeTime, Some alpha) \<Rightarrow>
          Some \<lparr>cp_collateral = ab_usdc book, cp_resolver = ab_trustedResolver book, cp_startTime = None,
            cp_closeTime = closeTime, cp_outcomeCount = length (md_labels c), cp_alpha = alpha, cp_sStar = S_STAR,
            cp_seedPerOutcome = SEED_PER_OUTCOME * USDC, cp_category = sv_bytes32 E ''SPORTS'',
            cp_metadataHash = metadataHashOf (sv_keccak E) c, cp_metadata = None\<rparr>
      | _ \<Rightarrow> None)"

definition shortTopUp :: "script_node \<Rightarrow> address_book \<Rightarrow> string \<Rightarrow> int \<Rightarrow> int \<Rightarrow> unit script" where
  "shortTopUp N book acct needed balance =
     (if balance < needed
      then (if ab_usdcIsTestToken book then send_waited N (Mint (ab_usdc book) acct (needed * 4)) else throw TooPoor)
      else ret ())"

text \<open>The poll for the indexed row: \<open>rows i\<close> is the table at the \<open>i\<close>-th look.\<close>

fun awaitRow :: "(nat \<Rightarrow> market list) \<Rightarrow> string \<times> int \<Rightarrow> nat \<Rightarrow> nat \<Rightarrow> string option" where
  "awaitRow rows key i 0 = None"
| "awaitRow rows key i (Suc n) = (case tfind market_key key (rows i) of
     Some m \<Rightarrow> Some (m_id m) | None \<Rightarrow> awaitRow rows key (i + 1) n)"

definition POLLS :: nat where
  "POLLS = 40"

definition zeroX :: "string \<Rightarrow> string" where
  "zeroX pk = (if take 2 pk = ''0x'' then pk else ''0x'' @ pk)"

text \<open>The id the script reports, and the row it found for it.\<close>

definition shortMain :: "seed_env \<Rightarrow> script_node \<Rightarrow> short_copy \<Rightarrow> (nat \<Rightarrow> market list) \<Rightarrow> (int \<times> string option) script" where
  "shortMain E N Y rows =
     bindp (need Usage (truthy (sv_key E))) (\<lambda>pk.
     bindp (need Usage (minutesOf (sv_argv E))) (\<lambda>minutes.
     bindp (need NoAddressBook (sv_book E)) (\<lambda>book.
     bindp (need Usage (sv_account E (zeroX pk))) (\<lambda>acct.
     let c = shortCopy Y (sv_argv E) minutes
     in bindp (need RangeError (shortSeedCost (sv_log E) (sv_sqrt E) SEED_PER_OUTCOME (length (md_labels c)))) (\<lambda>needed.
     bindp (read_chain (sv_balance E (ab_usdc book) acct)) (\<lambda>balance.
     seqp (shortTopUp N book acct needed balance)
    (bindp (read_chain (sv_allowance E (ab_usdc book) acct (ab_lsLmsrMarket book))) (\<lambda>allowance.
     seqp (whenp (allowance < needed) (send_waited N (Approve (ab_usdc book) (ab_lsLmsrMarket book) (2 ^ 256 - 1))))
    (seqp (modp (storeDraft (metadataHashOf (sv_keccak E) c) c acct))
    (bindp (need RangeError (shortParams E book c minutes)) (\<lambda>p.
     seqp (send_checked N (CreateMarket (ab_lsLmsrMarket book) p))
    (bindp (read_chain (sv_marketCount E (ab_lsLmsrMarket book))) (\<lambda>count.
     ret (count - 1, awaitRow rows (lower (ab_lsLmsrMarket book), count - 1) 0 POLLS))))))))))))))"

section \<open>Categories\<close>

text \<open>\<open>src/prisma/seed.ts\<close>: the catalogue, and an upsert that writes both columns, which is the operator's upsert
  with \<open>enabled\<close> given.\<close>

definition CATEGORIES :: "category list" where
  "CATEGORIES =
     [\<lparr>c_key = ''SPORTS'', c_label = ''Sports'', c_enabled = True\<rparr>,
      \<lparr>c_key = ''ESPORTS'', c_label = ''Esports'', c_enabled = False\<rparr>,
      \<lparr>c_key = ''POLITICS'', c_label = ''Politics'', c_enabled = False\<rparr>,
      \<lparr>c_key = ''CRYPTO'', c_label = ''Crypto'', c_enabled = False\<rparr>,
      \<lparr>c_key = ''ENTERTAINMENT'', c_label = ''Entertainment'', c_enabled = False\<rparr>]"

definition seedCategories :: "'a db_scheme \<Rightarrow> 'a db_scheme" where
  "seedCategories s = fold (\<lambda>c. adminUpsertCategory (c_key c) (c_label c) (Some (c_enabled c))) CATEGORIES s"

end
