(* ===== verification/SeedingProps.thy ===== *)
theory SeedingProps
  imports Seeding
begin

text \<open>
  What the market-creating scripts do to the chain and to the drafts, and what the indexer then makes of it:
  which markets a run creates, what a second run repeats, and the copy a seeded market is listed with.
\<close>

section \<open>Drafts\<close>

lemma tfind_storeDraft:
  "tfind d_hash k (drafts (storeDraft h c by s)) =
     (if k = h \<and> tfind d_hash h (drafts s) = None
      then Some \<lparr>d_hash = h, d_title = md_title c, d_description = md_description c, d_rules = md_rules c,
        d_imageUrl = md_imageUrl c, d_labels = md_labels c, d_categoryKey = md_categoryKey c,
        d_createdBy = lower by, d_ref = None\<rparr>
      else tfind d_hash k (drafts s))"
  by (auto simp: storeDraft_def tfind_tupsert split: option.split)

lemma adopted_storeDraft [simp]: "adopted k (storeDraft h c by s) \<longleftrightarrow> adopted k s"
  by (auto simp: adopted_def tfind_storeDraft truthy_def)

lemma adopted_cong: "drafts t = drafts s \<Longrightarrow> adopted h t \<longleftrightarrow> adopted h s"
  by (simp add: adopted_def)

text \<open>The seeder stores what the operator's API would store for the same copy.\<close>

lemma storeDraft_is_createDraft:
  assumes "draftMetadata d = seedCopy m"
  shows "createDraft (sv_keccak E) d by s = (seedHash E m, storeDraft (seedHash E m) (seedCopy m) by s)"
  using assms by (simp add: createDraft_def storeDraft_def seedHash_def Let_def)

section \<open>One market\<close>

definition creation_of :: "seed_env \<Rightarrow> address_book \<Rightarrow> seed_market \<Rightarrow> chain_tx" where
  "creation_of E book m = CreateMarket (ab_lsLmsrMarket book) (the (createParams E book m))"

lemma seedOne_skips: "adopted (seedHash E m) s \<Longrightarrow> seedOne E N book acct m s = (Inr False, s)"
  by (simp add: seedOne_def)

text \<open>A market that is not adopted: the draft is stored first, and at most its own transaction follows.\<close>

lemma seedOne_creates:
  assumes "seedOne E N book acct m s = (r, t)" "\<not> adopted (seedHash E m) s"
  obtains e where "r = Inl e" "drafts t = drafts (storeDraft (seedHash E m) (seedCopy m) acct s)"
      "sent_txs t = sent_txs s \<or> sent_txs t = sent_txs s @ [creation_of E book m]"
  | "r = Inr True" "drafts t = drafts (storeDraft (seedHash E m) (seedCopy m) acct s)"
      "sent_txs t = sent_txs s @ [creation_of E book m]"
proof -
  let ?s = "storeDraft (seedHash E m) (seedCopy m) acct s"
  have s: "sent_txs ?s = sent_txs s" by (simp add: storeDraft_def)
  show thesis
  proof (cases "createParams E book m")
    case None
    then have "r = Inl RangeError" "t = ?s" using assms by (auto simp: seedOne_def)
    then show thesis using that(1) s by simp
  next
    case (Some p)
    define x where "x = CreateMarket (ab_lsLmsrMarket book) p"
    have x: "x = creation_of E book m" by (simp add: x_def creation_of_def Some)
    obtain r' t' where c: "send_checked N x ?s = (r', t')" by (cases "send_checked N x ?s")
    have run: "seedOne E N book acct m s = (case r' of Inl e \<Rightarrow> (Inl e, t') | Inr _ \<Rightarrow> (Inr True, t'))"
      using assms(2) Some c by (auto simp: seedOne_def x_def seqp_def split: sum.split)
    from c show thesis
      by (cases rule: send_checked_cases) (use that run assms(1) s x in auto)
  qed
qed

lemma seedOne_adopted: "seedOne E N book acct m s = (r, t) \<Longrightarrow> adopted h t \<longleftrightarrow> adopted h s"
proof (cases "adopted (seedHash E m) s")
  case False
  assume "seedOne E N book acct m s = (r, t)"
  then show ?thesis
    by (rule seedOne_creates [OF _ False]) (simp_all add: adopted_cong [of t "storeDraft (seedHash E m) (seedCopy m) acct s"])
qed (simp add: seedOne_skips)

section \<open>A run\<close>

definition pending :: "seed_env \<Rightarrow> 'a db_scheme \<Rightarrow> seed_market list \<Rightarrow> seed_market list" where
  "pending E s ms = filter (\<lambda>m. \<not> adopted (seedHash E m) s) ms"

lemma pending_simps [simp]:
  "pending E s [] = []"
  "pending E s (m # ms) = (if adopted (seedHash E m) s then pending E s ms else m # pending E s ms)"
  by (simp_all add: pending_def)

lemma pending_cong: "(\<And>h. adopted h t \<longleftrightarrow> adopted h s) \<Longrightarrow> pending E t ms = pending E s ms"
  by (simp add: pending_def)

text \<open>A run sends the creations of a prefix of the pending markets, all of them if it ends well, and changes
  no adoption.\<close>

lemma seedAll_run:
  assumes "seedAll E N book acct ms s = (r, t)"
  shows "(\<forall>h. adopted h t \<longleftrightarrow> adopted h s) \<and>
    (\<exists>n \<le> length (pending E s ms). sent_txs t = sent_txs s @ map (creation_of E book) (take n (pending E s ms)) \<and>
      (\<forall>c k. r = Inr (c, k) \<longrightarrow> n = length (pending E s ms) \<and> c = n \<and> c + k = length ms))"
  using assms
proof (induction ms arbitrary: s r t)
  case (Cons m ms)
  obtain r1 t1 where one: "seedOne E N book acct m s = (r1, t1)" by (cases "seedOne E N book acct m s")
  obtain r2 t2 where rest: "seedAll E N book acct ms t1 = (r2, t2)" by (cases "seedAll E N book acct ms t1")
  have ad1: "adopted h t1 \<longleftrightarrow> adopted h s" for h by (rule seedOne_adopted [OF one])
  then have pend: "pending E t1 ms = pending E s ms" by (rule pending_cong)
  note IH = Cons.IH [OF rest]
  show ?case
  proof (cases "adopted (seedHash E m) s")
    case True
    then have "r1 = Inr False" "t1 = s" using one seedOne_skips [of E m s N book acct] by auto
    then have "t = t2" "r = (case r2 of Inl e \<Rightarrow> Inl e | Inr (c, k) \<Rightarrow> Inr (c, k + 1))"
      using Cons.prems one rest by (auto simp: bindp_def split: sum.splits prod.splits)
    then show ?thesis using IH True \<open>t1 = s\<close> by (auto split: sum.splits)
  next
    case False
    from one show ?thesis
    proof (cases rule: seedOne_creates [OF _ False, consumes 1])
      case (1 e)
      then have "t = t1" "r = Inl e" using Cons.prems one by (auto simp: bindp_def)
      then show ?thesis using 1(3) False ad1 by (auto intro: exI [of _ 0] exI [of _ 1])
    next
      case 2
      then have tr: "t = t2" "r = (case r2 of Inl e \<Rightarrow> Inl e | Inr (c, k) \<Rightarrow> Inr (c + 1, k))"
        using Cons.prems one rest by (auto simp: bindp_def split: sum.splits prod.splits)
      obtain n where n: "n \<le> length (pending E s ms)"
        "sent_txs t2 = sent_txs t1 @ map (creation_of E book) (take n (pending E s ms))"
        "\<forall>c k. r2 = Inr (c, k) \<longrightarrow> n = length (pending E s ms) \<and> c = n \<and> c + k = length ms"
        using IH unfolding pend by blast
      have "sent_txs t = sent_txs s @ map (creation_of E book) (take (Suc n) (pending E s (m # ms)))"
        using n(2) 2 tr False by simp
      then show ?thesis using n tr False IH ad1 by (intro conjI exI [of _ "Suc n"]) (auto split: sum.splits)
    qed
  qed
qed simp

text \<open>The hash is of the copy alone: the time of the run and its flags on times do not enter it.\<close>

lemma seedHash_cong: "sv_keccak F = sv_keccak E \<Longrightarrow> seedHash F m = seedHash E m"
  by (simp add: seedHash_def)

text \<open>Seeding resumes from what the indexer has adopted, not from what it has sent. A run creates, in order and
  once each, a prefix of the selected markets whose draft no market has adopted, all of them if it ends well. Adoption is the
  indexer's to record, so a second run over the drafts a first one left, whether that one failed half way or
  finished, creates every one of those markets again, those already on chain included.\<close>

theorem reseeding_before_indexing_duplicates:
  assumes "seedAll E N book acct ms s = (r, t)" "drafts u = drafts t" "sv_keccak F = sv_keccak E"
    and "seedAll F M book acct ms u = (Inr (created, skipped), v)"
  shows "(\<exists>n \<le> length (pending E s ms). sent_txs t = sent_txs s @ map (creation_of E book) (take n (pending E s ms))) \<and>
    sent_txs v = sent_txs u @ map (creation_of F book) (pending E s ms) \<and>
    created = length (pending E s ms) \<and> created + skipped = length ms"
proof -
  have "\<forall>h. adopted h u \<longleftrightarrow> adopted h s" using seedAll_run [OF assms(1)] adopted_cong [OF assms(2)] by blast
  then have pend: "pending F u ms = pending E s ms" by (simp add: pending_def seedHash_cong [OF assms(3)])
  show ?thesis using seedAll_run [OF assms(1)] seedAll_run [OF assms(4)] unfolding pend by auto
qed

definition sample_book :: address_book where
  "sample_book = \<lparr>ab_usdc = ''0x05'', ab_usdcIsTestToken = True, ab_trustedResolver = ''0xee'', ab_lsLmsrMarket = ''0xaa''\<rparr>"

definition sample_seed_env :: seed_env where
  "sample_seed_env = \<lparr>sv_key = Some ''k'', sv_argv = [], sv_book = Some sample_book, sv_now = 1700000000,
     sv_account = (\<lambda>_. Some ''0xAb''), sv_balance = (\<lambda>_ _ _. Some 0), sv_allowance = (\<lambda>_ _ _ _. Some 0),
     sv_marketCount = (\<lambda>_ _. Some 1), sv_keccak = id, sv_bytes32 = id, sv_log = (\<lambda>x. Finite 0), sv_sqrt = id\<rparr>"

definition sample_seed_market :: seed_market where
  "sample_seed_market = \<lparr>sm_title = ''T'', sm_description = ''D'', sm_rules = ''R'', sm_labels = [''Yes'', ''No''],
     sm_closesInHours = Finite 2, sm_opensInHours = None, sm_seed = None\<rparr>"

definition sample_script_state :: script_state where
  "sample_script_state = \<lparr>markets = [], outcomes = [], trades = [], positions = [], pricePoints = [], drafts = [], categories = [],
     proposals = [], bans = [], poolLeaves = [], cursors = [], sent_txs = []\<rparr>"

lemma sample_params:
  "createParams sample_seed_env sample_book sample_seed_market = Some \<lparr>cp_collateral = ''0x05'', cp_resolver = ''0xee'',
     cp_startTime = Some 0, cp_closeTime = 1700007200, cp_outcomeCount = 2, cp_alpha = 25000000000000000, cp_sStar = S_STAR,
     cp_seedPerOutcome = 500000000, cp_category = ''SPORTS'', cp_metadataHash = seedHash sample_seed_env sample_seed_market,
     cp_metadata = Some (canonicalize (seedCopy sample_seed_market))\<rparr>"
proof -
  have "to_double (7200 :: rat) = Finite 7200" using to_double_whole [of 7200] by simp
  moreover have "to_double (1700000000 :: rat) = Finite 1700000000" using to_double_whole [of 1700000000] by simp
  moreover have "to_double (1700007200 :: rat) = Finite 1700007200" using to_double_whole [of 1700007200] by simp
  moreover have "\<lfloor>14401 / 2 :: rat\<rfloor> = 7200" by (simp add: floor_eq_iff)
  ultimately have "secondsFrom 1700000000 (Finite 2) (Finite 3600) = Some 1700007200"
    by (simp add: secondsFrom_def js_times_def js_round_def js_plus_def whole_def)
  then show ?thesis
    by (simp add: createParams_def sample_seed_env_def sample_seed_market_def sample_book_def startTimeOf_def alphaFor_def
        seedOf_def whole_def USDC_def)
qed

lemma seedOne_willing:
  assumes "\<not> adopted (seedHash E m) s" "createParams E book m \<noteq> None"
  shows "seedOne E willing_node book acct m s = (Inr True,
    (storeDraft (seedHash E m) (seedCopy m) acct s)\<lparr>sent_txs := sent_txs s @ [creation_of E book m]\<rparr>)"
proof -
  obtain p where p: "createParams E book m = Some p" using assms(2) by blast
  let ?s = "storeDraft (seedHash E m) (seedCopy m) acct s"
  have "sent_txs ?s = sent_txs s" by (simp add: storeDraft_def)
  then have "send_checked willing_node (CreateMarket (ab_lsLmsrMarket book) p) ?s =
      (Inr (), ?s\<lparr>sent_txs := sent_txs s @ [creation_of E book m]\<rparr>)"
    using p by (simp add: send_checked_Inr willing_node_def creation_of_def)
  then show ?thesis using assms(1) p by (simp add: seedOne_def)
qed

lemma sample_seeding:
  assumes "\<not> adopted (seedHash sample_seed_env sample_seed_market) s"
  shows "seedAll sample_seed_env willing_node sample_book ''0xAb'' [sample_seed_market] s =
    (Inr (1, 0), (storeDraft (seedHash sample_seed_env sample_seed_market) (seedCopy sample_seed_market) ''0xAb'' s)
       \<lparr>sent_txs := sent_txs s @ [creation_of sample_seed_env sample_book sample_seed_market]\<rparr>)"
proof -
  note one = seedOne_willing [OF assms, of sample_book "''0xAb''"]
  show ?thesis using one sample_params by simp
qed

theorem reseeding_before_indexing_duplicates_witness:
  "\<exists>t v. seedAll sample_seed_env willing_node sample_book ''0xAb'' [sample_seed_market] sample_script_state = (Inr (1, 0), t) \<and>
     seedAll sample_seed_env willing_node sample_book ''0xAb'' [sample_seed_market] t = (Inr (1, 0), v) \<and>
     sent_txs v = [creation_of sample_seed_env sample_book sample_seed_market, creation_of sample_seed_env sample_book sample_seed_market]"
proof -
  let ?h = "seedHash sample_seed_env sample_seed_market"
  have no: "\<not> adopted ?h sample_script_state" by (simp add: adopted_def sample_script_state_def)
  define t where "t = (storeDraft ?h (seedCopy sample_seed_market) ''0xAb'' sample_script_state)
    \<lparr>sent_txs := sent_txs sample_script_state @ [creation_of sample_seed_env sample_book sample_seed_market]\<rparr>"
  have one: "seedAll sample_seed_env willing_node sample_book ''0xAb'' [sample_seed_market] sample_script_state = (Inr (1, 0), t)"
    unfolding t_def by (rule sample_seeding [OF no])
  have "\<not> adopted ?h t" using seedAll_run [OF one] no by simp
  from sample_seeding [OF this] obtain v where
    two: "seedAll sample_seed_env willing_node sample_book ''0xAb'' [sample_seed_market] t = (Inr (1, 0), v)" by blast
  have "pending sample_seed_env sample_script_state [sample_seed_market] = [sample_seed_market]" using no by simp
  with reseeding_before_indexing_duplicates [OF one refl refl two]
  have "sent_txs v = sent_txs t @ [creation_of sample_seed_env sample_book sample_seed_market]" by simp
  moreover have "sent_txs t = [creation_of sample_seed_env sample_book sample_seed_market]"
    by (simp add: t_def sample_script_state_def)
  ultimately have "sent_txs v = [creation_of sample_seed_env sample_book sample_seed_market,
      creation_of sample_seed_env sample_book sample_seed_market]" by simp
  with one two show ?thesis by blast
qed

section \<open>From the script to the listing\<close>

text \<open>C21. A seeded market is listed as it was written: when the indexer processes the creation that carries the hash
  the seeder committed to, the market's title, description, rules and outcome labels are the catalogue's, its
  draft becomes adopted, and from then on a run skips that market without touching anything.\<close>

theorem seeded_market_is_listed_and_skipped:
  assumes "seedOne E N book acct m s = (Inr True, t)" "tfind d_hash (seedHash E m) (drafts s) = None"
    and "drafts u = drafts t" "fresh_ids F" "coherent F u" "e_uuid F (minted u) \<noteq> []"
    and "a_metadataHash a = seedHash E m" "a_outcomeCount a = int (length (sm_labels m))" "sm_labels m \<noteq> []"
    and "unix_date (a_startTime a) = Some st" "unix_date (a_closeTime a) = Some ct"
    and "tfind market_key (lower (n_address l), a_marketId a) (markets u) = None"
  shows "\<exists>ref v mk. createMarket F l a u = (Inr ref, v) \<and> tfind m_id ref (markets v) = Some mk \<and>
    (m_title mk, m_description mk, m_rules mk, m_imageUrl mk) = (sm_title m, sm_description m, sm_rules m, None) \<and>
    (\<forall>i < length (sm_labels m). \<exists>o'. tfind outcome_key (ref, int i) (outcomes v) = Some o' \<and> o_label o' = sm_labels m ! i) \<and>
    (\<forall>w. drafts w = drafts v \<longrightarrow> seedOne E M book acct m w = (Inr False, w))"
proof -
  let ?h = "seedHash E m" and ?ref = "e_uuid F (minted u)"
  have "\<not> adopted ?h s" using assms(2) by (simp add: adopted_def)
  then have ds: "drafts t = drafts (storeDraft ?h (seedCopy m) acct s)" using assms(1) by (auto elim: seedOne_creates)
  obtain d where d: "tfind d_hash ?h (drafts u) = Some d" "d_title d = sm_title m" "d_description d = sm_description m"
    "d_rules d = sm_rules m" "d_imageUrl d = None" "d_labels d = sm_labels m" "d_ref d = None"
    unfolding assms(3) ds using assms(2) by (simp add: tfind_storeDraft seedCopy_def)
  have "0 < a_outcomeCount a" using assms(8,9) by simp
  from createMarket_run [OF this assms(10-12) refl refl, of F]
  obtain v where v: "createMarket F l a u = (Inr ?ref, v)"
    "markets v = markets u @ [market_row ?ref l a st ct (category_of F a) (Some d)]"
    "outcomes v = outcomes u @ outcome_rows_for ?ref (sm_labels m) (bigint_div WAD (a_outcomeCount a)) (a_seedPerOutcome a) (a_outcomeCount a)"
    "\<exists>r'. tfind d_hash ?h (drafts v) = Some r' \<and> d_ref r' = Some ?ref"
    using d assms(7) by auto
  let ?mk = "market_row ?ref l a st ct (category_of F a) (Some d)"
  have "tfind m_id ?ref (markets u) = None" using new_id [OF assms(4,5)] by (simp add: tfind_None_iff)
  then have row: "tfind m_id ?ref (markets v) = Some ?mk" using v(2) by (simp add: tfind_append market_row_def)
  have labels: "\<exists>o'. tfind outcome_key (?ref, int i) (outcomes v) = Some o' \<and> o_label o' = sm_labels m ! i"
    if "i < length (sm_labels m)" for i
    using tfind_outcome_rows_for [of "int i" "a_outcomeCount a"] new_id_no_outcome [OF assms(4,5), of "int i"] that v(3) assms(8)
    by (simp add: tfind_append)
  have "adopted ?h w" if "drafts w = drafts v" for w :: script_state
    using v(4) assms(6) that by (auto simp: adopted_def truthy_def)
  then have "\<forall>w. drafts w = drafts v \<longrightarrow> seedOne E M book acct m w = (Inr False, w)" using seedOne_skips by blast
  then show ?thesis using v(1) row labels d by (intro exI [of _ ?ref] exI [of _ v] exI [of _ ?mk]) (simp add: market_row_def)
qed

theorem seeded_market_is_listed_and_skipped_witness:
  "\<exists>t ref v mk. seedOne sample_seed_env willing_node sample_book ''0xAb'' sample_seed_market sample_script_state = (Inr True, t) \<and>
     createMarket sample_env (sample_log (MarketCreated sample_created))
       (sample_created\<lparr>a_metadataHash := seedHash sample_seed_env sample_seed_market\<rparr>) (empty_state\<lparr>drafts := drafts t\<rparr>) = (Inr ref, v) \<and>
     tfind m_id ref (markets v) = Some mk \<and> m_title mk = ''T'' \<and> m_rules mk = ''R'' \<and>
     seedOne sample_seed_env willing_node sample_book ''0xAb'' sample_seed_market (t\<lparr>drafts := drafts v\<rparr>) =
       (Inr False, t\<lparr>drafts := drafts v\<rparr>)"
proof -
  let ?h = "seedHash sample_seed_env sample_seed_market"
  let ?a = "sample_created\<lparr>a_metadataHash := ?h\<rparr>"
  have none: "tfind d_hash ?h (drafts sample_script_state) = None" by (simp add: sample_script_state_def)
  then have "\<not> adopted ?h sample_script_state" by (simp add: adopted_def)
  from seedOne_willing [OF this, of sample_book "''0xAb''"] sample_params
  obtain t where one: "seedOne sample_seed_env willing_node sample_book ''0xAb'' sample_seed_market sample_script_state = (Inr True, t)"
    by auto
  let ?u = "empty_state\<lparr>drafts := drafts t\<rparr>"
  have u: "coherent sample_env ?u" "e_uuid sample_env (minted ?u) \<noteq> []" "drafts ?u = drafts t"
    using empty_state_ok(1) [of sample_env] by (simp_all add: coherent_def sample_env_def)
  have a: "a_metadataHash ?a = ?h" "a_outcomeCount ?a = int (length (sm_labels sample_seed_market))"
    "sm_labels sample_seed_market \<noteq> []" "unix_date (a_startTime ?a) = Some 0" "unix_date (a_closeTime ?a) = Some 1000000"
    by (simp_all add: sample_created_def sample_seed_market_def unix_date_exact)
  have k: "tfind market_key (lower (n_address (sample_log (MarketCreated sample_created))), a_marketId ?a) (markets ?u) = None"
    by (simp add: empty_state_def)
  from seeded_market_is_listed_and_skipped [OF one none u(3) fresh_sample_env u(1,2) a k, of willing_node]
  obtain ref v mk where r: "createMarket sample_env (sample_log (MarketCreated sample_created)) ?a ?u = (Inr ref, v)"
    "tfind m_id ref (markets v) = Some mk" "(m_title mk, m_description mk, m_rules mk, m_imageUrl mk) =
      (sm_title sample_seed_market, sm_description sample_seed_market, sm_rules sample_seed_market, None)"
    "\<forall>w. drafts w = drafts v \<longrightarrow> seedOne sample_seed_env willing_node sample_book ''0xAb'' sample_seed_market w = (Inr False, w)"
    by blast
  have "seedOne sample_seed_env willing_node sample_book ''0xAb'' sample_seed_market (t\<lparr>drafts := drafts v\<rparr>) =
      (Inr False, t\<lparr>drafts := drafts v\<rparr>)" using r(4) by simp
  moreover have "m_title mk = ''T''" "m_rules mk = ''R''" using r(3) by (simp_all add: sample_seed_market_def)
  ultimately show ?thesis using one r(1,2) by blast
qed

section \<open>Boundaries\<close>

text \<open>What is not finite stays so through every operation of the formula, and \<open>BigInt\<close> refuses it.\<close>

definition finite_value :: "js_float \<Rightarrow> bool" where
  "finite_value x \<longleftrightarrow> (case x of Finite _ \<Rightarrow> True | _ \<Rightarrow> False)"

lemma not_finite:
  "\<not> finite_value x \<Longrightarrow> \<not> finite_value (js_times x y)" "\<not> finite_value x \<Longrightarrow> \<not> finite_value (js_times y x)"
  "\<not> finite_value x \<Longrightarrow> \<not> finite_value (js_plus x y)" "\<not> finite_value x \<Longrightarrow> \<not> finite_value (js_plus y x)"
  "\<not> finite_value x \<Longrightarrow> \<not> finite_value (js_round x)" "\<not> finite_value x \<Longrightarrow> \<not> finite_value (js_ceil x)"
  "\<not> finite_value x \<Longrightarrow> whole x = None"
  by (auto simp: finite_value_def js_times_def js_plus_def js_round_def js_ceil_def whole_def split: js_float.splits if_splits)

lemma alpha_of_one: "\<not> finite_value (js_divide (to_double (35 / 1000)) (js_times (count_of 1) (Finite 0)))"
proof -
  obtain c where c: "to_double (35 / 1000) = Finite c" "\<bar>c - 35 / 1000\<bar> \<le> 35 / 1000 / 2 ^ 53"
    by (rule to_double_near [of "35 / 1000"]) auto
  have "count_of 1 = Finite 1" using to_double_whole [of 1] by (simp add: count_of_def)
  then have "js_times (count_of 1) (Finite 0) = Finite 0" by (simp add: js_times_def to_double_def)
  then show ?thesis using c(1) by (simp add: js_divide_def finite_value_def)
qed

text \<open>A book of one outcome is refused before anything is written or sent: \<open>ln 1\<close> is zero, the curve divides by it,
  and both the cost and the slope are refused by \<open>BigInt\<close>.\<close>

lemma one_outcome_has_no_price:
  assumes "ln_of (count_of 1) = Finite 0"
  shows "alphaFor ln_of 1 = None" "seedCost ln_of root_of seed 1 = None" "shortSeedCost ln_of root_of n 1 = None"
  using alpha_of_one assms by (simp_all add: alphaFor_def seedCost_def shortSeedCost_def Let_def not_finite)

text \<open>The wait for the indexer is bounded: at most forty looks, and the row it reports is the first one found.\<close>

lemma awaitRow_Some:
  "awaitRow rows key i n = Some ref \<longleftrightarrow>
     (\<exists>j < n. (\<forall>k < j. tfind market_key key (rows (i + k)) = None) \<and> map_option m_id (tfind market_key key (rows (i + j))) = Some ref)"
proof (induction n arbitrary: i)
  case (Suc n)
  show ?case
  proof (cases "tfind market_key key (rows i)")
    case None
    have "(\<exists>j < Suc n. (\<forall>k < j. tfind market_key key (rows (i + k)) = None) \<and> map_option m_id (tfind market_key key (rows (i + j))) = Some ref) \<longleftrightarrow>
      (\<exists>j < n. (\<forall>k < j. tfind market_key key (rows (i + 1 + k)) = None) \<and> map_option m_id (tfind market_key key (rows (i + 1 + j))) = Some ref)"
      (is "?L \<longleftrightarrow> ?R")
    proof
      assume ?L
      then obtain j where j: "j < Suc n" "\<forall>k < j. tfind market_key key (rows (i + k)) = None"
        "map_option m_id (tfind market_key key (rows (i + j))) = Some ref" by blast
      then obtain j' where "j = Suc j'" using None by (cases j) auto
      then show ?R using j by (intro exI [of _ j']) auto
    next
      assume ?R
      then obtain j where "j < n" "\<forall>k < j. tfind market_key key (rows (i + 1 + k)) = None"
        "map_option m_id (tfind market_key key (rows (i + 1 + j))) = Some ref" by blast
      then show ?L using None by (intro exI [of _ "Suc j"]) (auto simp: less_Suc_eq_0_disj)
    qed
    then show ?thesis using None Suc.IH [of "i + 1"] by simp
  next
    case (Some m)
    then have "(\<forall>k < j. tfind market_key key (rows (i + k)) = None) \<longleftrightarrow> j = 0" for j
      by (metis add_0_right bot_nat_0.not_eq_extremum not_less_zero option.distinct(1))
    then show ?thesis using Some by simp
  qed
qed simp

section \<open>Categories\<close>

lemma category_lookup:
  "tfind c_key k (categories (adminUpsertCategory key label (Some b) s)) =
     (if k = key then Some (case tfind c_key key (categories s) of
          None \<Rightarrow> \<lparr>c_key = key, c_label = label, c_enabled = b\<rparr>
        | Some c \<Rightarrow> c\<lparr>c_label := label, c_enabled := b\<rparr>)
      else tfind c_key k (categories s))"
  by (auto simp: adminUpsertCategory_def tfind_tupsert dest: tfind_SomeD split: option.split)

lemma category_written:
  "tfind c_key (c_key c) (categories (adminUpsertCategory (c_key c) (c_label c) (Some (c_enabled c)) s)) = Some c"
  by (auto simp: category_lookup dest!: tfind_SomeD split: option.split)

text \<open>Seeding the categories leaves each of them as the catalogue has it, and every other category alone: a second
  run changes nothing, and it takes back an operator's switch.\<close>

theorem seeded_categories:
  "tfind c_key k (categories (seedCategories s)) =
     (case tfind c_key k CATEGORIES of None \<Rightarrow> tfind c_key k (categories s) | Some c \<Rightarrow> Some c)"
proof -
  have upsert: "tfind c_key k (categories (adminUpsertCategory (c_key c) (c_label c) (Some (c_enabled c)) u)) =
      (if k = c_key c then Some c else tfind c_key k (categories u))" for k c and u :: "'a db_scheme"
    using category_written [of c u] by (auto simp: category_lookup)
  have run: "distinct (map c_key cs) \<Longrightarrow> tfind c_key k (categories (fold (\<lambda>c. adminUpsertCategory (c_key c) (c_label c) (Some (c_enabled c))) cs u)) =
      (case tfind c_key k cs of None \<Rightarrow> tfind c_key k (categories u) | Some c \<Rightarrow> Some c)" for cs and u :: "'a db_scheme"
  proof (induction cs arbitrary: u)
    case (Cons c cs)
    have none: "tfind c_key (c_key c) cs = None" using Cons.prems by (simp add: tfind_None_iff)
    show ?case using Cons.prems none by (auto simp: Cons.IH upsert split: option.split)
  qed simp
  have "distinct (map c_key CATEGORIES)" by (simp add: CATEGORIES_def)
  from run [OF this] show ?thesis by (simp add: seedCategories_def)
qed

end
