(* ===== verification/OperatorTools.thy ===== *)
theory OperatorTools
  imports Scripts AdminViews Samples
begin

text \<open>
  The operator's other scripts: \<open>src/scripts/resolve-market.ts\<close>, \<open>grant-role.ts\<close>, \<open>fund-paymaster.ts\<close>,
  \<open>fund-tester.ts\<close> and \<open>paymaster-status.ts\<close>. Parameters: the address book, the account of a key, viem's
  \<open>parseEther\<close>, what the operator types, and the contracts' answers.
\<close>

section \<open>Settling a market by hand\<close>

record resolve_env =
  rv_argv :: "string list"
  rv_key :: "string option"
  rv_answer :: string
  rv_account :: "string \<Rightarrow> string option"
  rv_trustedResolver :: "string option"   \<comment> \<open>\<open>None\<close>: the address book cannot be read\<close>

record listed_market =
  li_id :: string
  li_status :: market_status
  li_closeTime :: int
  li_title :: string
  li_labels :: "(int \<times> string) list"

datatype resolve_result = Listing "listed_market list" | Aborted | Settled

definition outcomesByIndex :: "market \<Rightarrow> 'a db_scheme \<Rightarrow> outcome list" where
  "outcomesByIndex m s = js_sort (\<lambda>a b. o_index a - o_index b) (filter (\<lambda>r. o_ref r = m_id m) (outcomes s))"

definition marketList :: "'a db_scheme \<Rightarrow> listed_market list" where
  "marketList s = map (\<lambda>m. \<lparr>li_id = m_id m, li_status = m_status m, li_closeTime = m_closeTime m,
     li_title = (if m_title m = [] then ''(untitled)'' else m_title m),
     li_labels = map (\<lambda>r. (o_index r, if o_label r = [] then ''?'' else o_label r)) (outcomesByIndex m s)\<rparr>)
     (js_sort (\<lambda>a b. m_closeTime a - m_closeTime b) (markets s))"

text \<open>\<open>--invalid\<close>, or an index one of the market's outcomes has. \<open>Number(undefined)\<close> is \<open>NaN\<close>.\<close>

definition chosenOutcome :: "string list \<Rightarrow> market \<Rightarrow> 'a db_scheme \<Rightarrow> int option option" where
  "chosenOutcome argv m s =
     (if has_flag argv ''invalid'' then Some None
      else (case (case flag argv ''outcome'' of None \<Rightarrow> NaN | Some t \<Rightarrow> number_of_string t) of
          Finite x \<Rightarrow> (case List.find (\<lambda>r. of_int (o_index r) = x) (outcomesByIndex m s) of
              None \<Rightarrow> None | Some r \<Rightarrow> Some (Some (o_index r)))
        | _ \<Rightarrow> None))"

definition settlement_tx :: "string \<Rightarrow> market \<Rightarrow> int option \<Rightarrow> chain_tx" where
  "settlement_tx resolver m outcome = (case outcome of
     None \<Rightarrow> InvalidateMarket resolver (m_address m) (m_marketId m)
   | Some i \<Rightarrow> ResolveMarket resolver (m_address m) (m_marketId m) i)"

definition confirmed :: "string \<Rightarrow> bool" where
  "confirmed answer \<longleftrightarrow> lower (js_trim answer) = ''yes''"

definition resolveMain :: "resolve_env \<Rightarrow> script_node \<Rightarrow> resolve_result script" where
  "resolveMain R N =
     (if has_flag (rv_argv R) ''list'' then bindp (gets marketList) (\<lambda>ms. ret (Listing ms))
      else bindp (need Usage (truthy (flag (rv_argv R) ''market''))) (\<lambda>ref.
           bindp (need Usage (truthy (rv_key R))) (\<lambda>pk.
           bindp (gets (\<lambda>s. tfind m_id ref (markets s))) (\<lambda>row.
           bindp (need NotAllowed row) (\<lambda>m.
           seqp (guardp NotAllowed (m_status m = TRADING))
          (bindp (gets (chosenOutcome (rv_argv R) m)) (\<lambda>chosen.
           bindp (need Usage chosen) (\<lambda>outcome.
           if \<not> confirmed (rv_answer R) then ret Aborted
           else bindp (need Usage (rv_account R pk)) (\<lambda>acct.
                bindp (need NoAddressBook (rv_trustedResolver R)) (\<lambda>resolver.
                seqp (send_checked N (settlement_tx resolver m outcome)) (ret Settled)))))))))))"

section \<open>Granting a role\<close>

text \<open>A role's contracts, by their keys in the address book.\<close>

definition ROLE_TARGETS :: "string \<Rightarrow> string list option" where
  "ROLE_TARGETS name =
     (if name = ''RESOLVER'' then Some [''trustedResolver'']
      else if name \<in> {''MARKET_CREATOR'', ''PAUSER'', ''FEE_MANAGER''} then Some [''lmsrMarket'', ''parimutuelMarket'']
      else None)"

definition hex_char :: "char \<Rightarrow> bool" where
  "hex_char c = (let n = of_char c :: nat in 48 \<le> n \<and> n \<le> 57 \<or> 65 \<le> n \<and> n \<le> 70 \<or> 97 \<le> n \<and> n \<le> 102)"

definition zeroXAddress :: "string \<Rightarrow> bool" where
  "zeroXAddress s \<longleftrightarrow> take 2 s = ''0x'' \<and> length s = 42 \<and> list_all hex_char (drop 2 s)"

record grant_env =
  gv_args :: "string list"                       \<comment> \<open>\<open>process.argv.slice(2)\<close>\<close>
  gv_key :: "string option"
  gv_book :: "(string \<Rightarrow> string option) option"
  gv_account :: "string \<Rightarrow> string option"
  gv_roleHash :: "string \<Rightarrow> string"              \<comment> \<open>\<open>keccak256(toBytes(name))\<close>\<close>
  gv_hasRole :: "string \<Rightarrow> string \<Rightarrow> string \<Rightarrow> chain_tx list \<Rightarrow> bool option"

text \<open>A key the book does not have is the address \<open>undefined\<close>, which the read refuses.\<close>

fun grantAll :: "grant_env \<Rightarrow> script_node \<Rightarrow> (string \<Rightarrow> string option) \<Rightarrow> string \<Rightarrow> string \<Rightarrow> string list \<Rightarrow> unit script" where
  "grantAll G N book roleHash acct [] = ret ()"
| "grantAll G N book roleHash acct (key # keys) =
     bindp (need CallFailed (book key)) (\<lambda>address.
     bindp (read_chain (gv_hasRole G address roleHash acct)) (\<lambda>already.
     seqp (if already then ret () else send_checked N (GrantRole address roleHash acct))
          (grantAll G N book roleHash acct keys)))"

definition roleArgs :: "string list \<Rightarrow> (string \<times> string list \<times> string) option" where
  "roleArgs args = (case args of
     name # acct # _ \<Rightarrow> (case ROLE_TARGETS name of None \<Rightarrow> None
        | Some keys \<Rightarrow> if zeroXAddress acct then Some (name, keys, acct) else None)
   | _ \<Rightarrow> None)"

definition grantMain :: "grant_env \<Rightarrow> script_node \<Rightarrow> unit script" where
  "grantMain G N =
     bindp (need Usage (roleArgs (gv_args G))) (\<lambda>(name, keys, acct).
     bindp (need Usage (truthy (gv_key G))) (\<lambda>pk.
     bindp (need NoAddressBook (gv_book G)) (\<lambda>book.
     bindp (need Usage (gv_account G pk)) (\<lambda>signer.
     grantAll G N book (gv_roleHash G (name @ ''_ROLE'')) acct keys))))"

section \<open>The gas sponsor\<close>

definition GAS_PER_OP :: int where
  "GAS_PER_OP = 3910000"

definition DECLARED_GWEI :: int where
  "DECLARED_GWEI = 500"

definition required_deposit :: int where
  "required_deposit = GAS_PER_OP * DECLARED_GWEI * 1000000000"

datatype sponsor_status = Serves int | ShortBy int

definition paymasterStatus :: "int \<Rightarrow> sponsor_status" where
  "paymasterStatus deposit = (if required_deposit \<le> deposit then Serves (bigint_div deposit required_deposit)
     else ShortBy (required_deposit - deposit))"

definition ENTRY_POINT :: string where
  "ENTRY_POINT = ''0x0000000071727De22E5E9d8BAf0edAc6f37da032''"

text \<open>\<open>parseEther('1.955')\<close> and \<open>parseEther('1')\<close>.\<close>

definition REQUIRED_PER_OP :: int where
  "REQUIRED_PER_OP = 1955 * 10 ^ 15"

definition KEEP_FOR_OPERATOR :: int where
  "KEEP_FOR_OPERATOR = 10 ^ 18"

record fund_env =
  fv_args :: "string list"
  fv_key :: "string option"
  fv_parseEther :: "string \<Rightarrow> int option"
  fv_account :: "string \<Rightarrow> string option"
  fv_balance :: "string \<Rightarrow> chain_tx list \<Rightarrow> int option"
  fv_deposit :: "string \<Rightarrow> chain_tx list \<Rightarrow> int option"
  fv_paymaster :: string
  fv_fees :: "chain_tx list \<Rightarrow> (int \<times> int) option"   \<comment> \<open>max fee and tip per gas\<close>
  fv_simulates :: "string \<Rightarrow> int \<Rightarrow> chain_tx list \<Rightarrow> bool"

text \<open>Whether an operation can be paid for afterwards.\<close>

definition fundPaymaster :: "fund_env \<Rightarrow> script_node \<Rightarrow> bool script" where
  "fundPaymaster F N =
     bindp (need Usage (truthy (fv_key F))) (\<lambda>pk.
     bindp (need Usage (truthy (List.find (\<lambda>a. take 1 a \<noteq> ''-'') (fv_args F)))) (\<lambda>text.
     bindp (need Usage (fv_parseEther F text)) (\<lambda>amount.
     seqp (guardp Usage (0 < amount))
    (bindp (need Usage (fv_account F pk)) (\<lambda>acct.
     bindp (read_chain (fv_balance F acct)) (\<lambda>balance.
     bindp (read_chain (fv_deposit F (fv_paymaster F))) (\<lambda>prior.
     seqp (guardp TooPoor (amount + KEEP_FOR_OPERATOR \<le> balance))
    (seqp (send_checked N (DepositTo ENTRY_POINT (fv_paymaster F) amount))
    (bindp (read_chain (fv_deposit F (fv_paymaster F))) (\<lambda>deposit.
     ret (REQUIRED_PER_OP \<le> deposit)))))))))))"

section \<open>A tester's gas\<close>

definition TRANSFER_GAS :: int where
  "TRANSFER_GAS = 21000"

definition DEFAULT_AMOUNT :: string where
  "DEFAULT_AMOUNT = ''0.2''"

text \<open>The tester's balance afterwards.\<close>

definition fundTester :: "fund_env \<Rightarrow> script_node \<Rightarrow> int script" where
  "fundTester F N =
     (case fv_args F of
        [] \<Rightarrow> throw Usage
      | to # rest \<Rightarrow>
          seqp (guardp Usage (zeroXAddress to))
         (bindp (need Usage (truthy (fv_key F))) (\<lambda>pk.
          bindp (need Usage (fv_parseEther F (case rest of [] \<Rightarrow> DEFAULT_AMOUNT | a # _ \<Rightarrow> a))) (\<lambda>amount.
          bindp (need Usage (fv_account F pk)) (\<lambda>acct.
          bindp (read_chain (fv_fees F)) (\<lambda>(maxFee, tip).
          bindp (read_chain (fv_balance F acct)) (\<lambda>balance.
          seqp (guardp TooPoor (amount + TRANSFER_GAS * maxFee \<le> balance))
         (bindp (gets (\<lambda>s. fv_simulates F to amount (sent_txs s))) (\<lambda>ok.
          seqp (guardp NotAllowed ok)
         (seqp (send_checked N (Transfer to amount TRANSFER_GAS maxFee tip))
               (read_chain (fv_balance F to))))))))))))"

section \<open>Settling is deliberate\<close>

lemma chosenOutcome_Some:
  assumes "chosenOutcome argv m s = Some outcome"
  shows "case outcome of None \<Rightarrow> has_flag argv ''invalid''
    | Some i \<Rightarrow> \<exists>o' \<in> set (outcomes s). o_ref o' = m_id m \<and> o_index o' = i"
proof -
  have found: "r \<in> set (outcomes s) \<and> o_ref r = m_id m" if "List.find P (outcomesByIndex m s) = Some r" for P r
  proof -
    have "r \<in> set (outcomesByIndex m s)" using that by (auto simp: find_Some_iff)
    then show ?thesis by (simp add: outcomesByIndex_def)
  qed
  show ?thesis using assms found by (auto simp: chosenOutcome_def split: if_splits js_float.splits option.splits)
qed

text \<open>C31. Nothing is settled by accident: a run of the settlement script changes no row and sends at most one transaction, and it
  sends one only for a market that is still trading, after the operator typed yes, either voiding it on request
  or settling it on an outcome it has; and it reports a settlement only when the receipt says so.\<close>

theorem settlement_is_deliberate:
  assumes "resolveMain R N s = (r, t)"
  shows "t = s \<and> r \<noteq> Inr Settled \<or>
    (\<exists>m resolver outcome. m \<in> set (markets s) \<and> Some (m_id m) = flag (rv_argv R) ''market'' \<and> m_status m = TRADING \<and> lower (js_trim (rv_answer R)) = ''yes'' \<and>
       (case outcome of None \<Rightarrow> has_flag (rv_argv R) ''invalid'' | Some i \<Rightarrow> \<exists>o' \<in> set (outcomes s). o_ref o' = m_id m \<and> o_index o' = i) \<and>
       t = s\<lparr>sent_txs := sent_txs s @ [settlement_tx resolver m outcome]\<rparr> \<and>
       (r = Inr Settled \<longrightarrow> sn_receipt N (sent_txs t) = Some True))"
proof -
  have stop: ?thesis if "t = s" "r \<noteq> Inr Settled" using that by blast
  show ?thesis
  proof (cases "has_flag (rv_argv R) ''list''")
    case True
    then show ?thesis using assms by (intro stop) (auto simp: resolveMain_def)
  next
    case go: False
    show ?thesis
    proof (cases "\<exists>ref pk m outcome acct resolver. truthy (flag (rv_argv R) ''market'') = Some ref \<and> truthy (rv_key R) = Some pk \<and>
        tfind m_id ref (markets s) = Some m \<and> m_status m = TRADING \<and> chosenOutcome (rv_argv R) m s = Some outcome \<and>
        confirmed (rv_answer R) \<and> rv_account R pk = Some acct \<and> rv_trustedResolver R = Some resolver")
      case False
      then show ?thesis using assms go
        by (intro stop) (auto simp: resolveMain_def script_steps split: option.splits if_splits)
    next
      case True
      then obtain ref pk m outcome acct resolver where v: "truthy (flag (rv_argv R) ''market'') = Some ref" "truthy (rv_key R) = Some pk"
        "tfind m_id ref (markets s) = Some m" "m_status m = TRADING" "chosenOutcome (rv_argv R) m s = Some outcome"
        "confirmed (rv_answer R)" "rv_account R pk = Some acct" "rv_trustedResolver R = Some resolver" by blast
      have ref: "flag (rv_argv R) ''market'' = Some ref" using v(1) by (auto simp: truthy_def split: option.splits if_splits)
      have send: "seqp (send_checked N (settlement_tx resolver m outcome)) (ret Settled) s = (r, t)"
        using assms go v by (simp add: resolveMain_def script_steps)
      have sent: ?thesis if "t = s\<lparr>sent_txs := sent_txs s @ [settlement_tx resolver m outcome]\<rparr>"
        "r = Inr Settled \<longrightarrow> sn_receipt N (sent_txs t) = Some True"
        using that v ref tfind_SomeD [OF v(3)] chosenOutcome_Some [OF v(5)] v(6) [unfolded confirmed_def]
        by (intro disjI2 exI [of _ m] exI [of _ resolver] exI [of _ outcome]) simp
      from send show ?thesis
      proof (cases rule: send_then)
        case (1 e)
        then show ?thesis by (intro stop) simp_all
      next
        case (2 e)
        then show ?thesis by (intro sent) simp_all
      next
        case 3
        then have "t = s\<lparr>sent_txs := sent_txs s @ [settlement_tx resolver m outcome]\<rparr>" by simp
        then show ?thesis using 3(2) by (intro sent) simp_all
      qed
    qed
  qed
qed

definition sample_resolve :: resolve_env where
  "sample_resolve = \<lparr>rv_argv = [''node'', ''resolve'', ''--market'', ''m1'', ''--outcome'', ''1''], rv_key = Some ''k'',
     rv_answer = '' Yes'', rv_account = (\<lambda>_. Some ''0xab''), rv_trustedResolver = Some ''0xee''\<rparr>"

definition sample_script_db :: script_state where
  "sample_script_db = \<lparr>markets = [sample_market], outcomes = [sample_outcome 0 1, sample_outcome 1 1], trades = [],
     positions = [], pricePoints = [], drafts = [], categories = [], proposals = [], bans = [], poolLeaves = [],
     cursors = [], sent_txs = []\<rparr>"

theorem settlement_is_deliberate_witness:
  "\<exists>t. resolveMain sample_resolve willing_node sample_script_db = (Inr Settled, t) \<and>
     sent_txs t = [ResolveMarket ''0xee'' ''0xaa'' 7 1] \<and> lower (js_trim '' Yes'') = ''yes''"
proof -
  have m: "tfind m_id ''m1'' (markets sample_script_db) = Some sample_market" "m_status sample_market = TRADING"
    by (simp_all add: sample_script_db_def sample_market_def)
  have one: "number_of_string ''1'' = Finite 1" using to_double_whole [of 1] by code_simp
  have opts: "flag (rv_argv sample_resolve) ''market'' = Some ''m1''" "flag (rv_argv sample_resolve) ''outcome'' = Some ''1''"
    "\<not> has_flag (rv_argv sample_resolve) ''invalid''" "\<not> has_flag (rv_argv sample_resolve) ''list''" "confirmed '' Yes''"
    by code_simp+
  have "chosenOutcome (rv_argv sample_resolve) sample_market sample_script_db = Some (Some 1)"
    using opts one by (simp add: chosenOutcome_def outcomesByIndex_def sample_script_db_def sample_market_def sample_outcome_def)
  then have run: "resolveMain sample_resolve willing_node sample_script_db =
      (Inr Settled, sample_script_db\<lparr>sent_txs := [ResolveMarket ''0xee'' ''0xaa'' 7 1]\<rparr>)"
    using m opts by (simp add: resolveMain_def script_steps truthy_def sample_resolve_def settlement_tx_def)
      (simp add: sample_script_db_def sample_market_def)
  from settlement_is_deliberate [OF run] opts(5) [unfolded confirmed_def] run show ?thesis by auto
qed

section \<open>A granted role is recognized\<close>

lemma grantAll_run:
  assumes "grantAll G N book h acct keys s = (Inr (), t)" "key \<in> set keys"
  shows "set (sent_txs s) \<subseteq> set (sent_txs t) \<and>
    (\<exists>c. book key = Some c \<and> ((\<exists>ys. gv_hasRole G c h acct ys = Some True) \<or> GrantRole c h acct \<in> set (sent_txs t)))"
  using assms
proof (induction keys arbitrary: s key)
  case step: (Cons k keys)
  obtain c b where c: "book k = Some c" "gv_hasRole G c h acct (sent_txs s) = Some b"
    and rest: "seqp (if b then ret () else send_checked N (GrantRole c h acct)) (grantAll G N book h acct keys) s = (Inr (), t)"
    using step.prems(1) by (auto simp: script_steps split: option.splits)
  define u where "u = (if b then s else s\<lparr>sent_txs := sent_txs s @ [GrantRole c h acct]\<rparr>)"
  have u: "grantAll G N book h acct keys u = (Inr (), t)" "b \<or> GrantRole c h acct \<in> set (sent_txs u)"
    "set (sent_txs s) \<subseteq> set (sent_txs u)"
    using rest by (cases b; auto simp: u_def seqp_Inr send_checked_Inr)+
  have keeps: "set (sent_txs u) \<subseteq> set (sent_txs t)"
  proof (cases keys)
    case Nil
    then show ?thesis using u(1) by simp
  next
    case (Cons k' ks)
    then show ?thesis using step.IH [OF u(1), of k'] by simp
  qed
  then have "\<exists>c. book k = Some c \<and> ((\<exists>ys. gv_hasRole G c h acct ys = Some True) \<or> GrantRole c h acct \<in> set (sent_txs t))"
    using c u(2) by (cases b) auto
  then show ?case using step.IH [OF u(1)] step.prems(2) keeps u(3) by auto
qed simp

text \<open>The roles of \<open>src/src/admin/roles.ts\<close> by name.\<close>

definition roleName :: "role \<Rightarrow> string" where
  "roleName r = (case r of DEFAULT_ADMIN \<Rightarrow> ''DEFAULT_ADMIN'' | MARKET_CREATOR \<Rightarrow> ''MARKET_CREATOR'' | RESOLVER \<Rightarrow> ''RESOLVER''
     | ARBITRATOR \<Rightarrow> ''ARBITRATOR'' | BLOCKLIST \<Rightarrow> ''BLOCKLIST'' | PAUSER \<Rightarrow> ''PAUSER'' | FEE_MANAGER \<Rightarrow> ''FEE_MANAGER''
     | CURATOR \<Rightarrow> ''CURATOR'')"

text \<open>An operator the script granted a role is let in: after a run that ended well, if the contracts keep what they
  were told, the console's check of that role (with no older verdict in its cache) grants it, provided one of the
  script's contracts for the role is among those the server is configured to ask.\<close>

theorem granted_operator_is_let_in:
  assumes "grantMain G N s = (Inr (), t)" "gv_args G = roleName r # acct # rest" "gv_book G = Some book"
    and "ROLE_TARGETS (roleName r) = Some keys" "key \<in> set keys" "book key = Some c" "c \<in> set (contractsFor a (ROLE_SOURCE r))"
    and "(\<exists>ys. gv_hasRole G c (gv_roleHash G (roleName r @ ''_ROLE'')) acct ys = Some True) \<or>
      GrantRole c (gv_roleHash G (roleName r @ ''_ROLE'')) acct \<in> set (sent_txs t) \<Longrightarrow> xe_chain E c r (lower acct) = Some True"
    and "xe_ready E" "cachedRole (xe_now E) (r, lower acct) verdicts = None"
  shows "fst (hasRole a E acct r verdicts)"
proof -
  obtain pk signer where "truthy (gv_key G) = Some pk" "gv_account G pk = Some signer" and ok: "zeroXAddress acct"
    using assms(1-4) by (auto simp: grantMain_def script_steps roleArgs_def split: option.splits if_splits)
  then have "grantAll G N book (gv_roleHash G (roleName r @ ''_ROLE'')) acct keys s = (Inr (), t)"
    using assms(1-4) by (simp add: grantMain_def script_steps roleArgs_def)
  from grantAll_run [OF this assms(5)] have "xe_chain E c r (lower acct) = Some True" using assms(6,8) by auto
  then have "anyGrants (xe_chain E) r (lower acct) (contractsFor a (ROLE_SOURCE r))"
    using assms(7) unfolding anyGrants_iff grants_def by (intro bexI [of _ c]) auto
  then show ?thesis using assms(9,10) by (simp add: hasRole_def Let_def)
qed

definition sample_operator :: string where
  "sample_operator = ''0x'' @ replicate 40 CHR ''a''"

definition sample_grant :: grant_env where
  "sample_grant = \<lparr>gv_args = [''RESOLVER'', sample_operator], gv_key = Some ''k'',
     gv_book = Some (\<lambda>k. if k = ''trustedResolver'' then Some ''0xee'' else None), gv_account = (\<lambda>_. Some ''0xab''),
     gv_roleHash = id, gv_hasRole = (\<lambda>_ _ _ _. Some False)\<rparr>"

definition sample_console :: access_env where
  "sample_console = \<lparr>xe_now = 0, xe_ready = True, xe_chain = (\<lambda>c r acct. Some (c = ''0xee'' \<and> r = RESOLVER \<and> acct = sample_operator)),
     xe_devAllowlist = []\<rparr>"

theorem granted_operator_is_let_in_witness:
  "\<exists>t. grantMain sample_grant willing_node sample_script_db = (Inr (), t) \<and>
     sent_txs t = [GrantRole ''0xee'' ''RESOLVER_ROLE'' sample_operator] \<and>
     fst (hasRole \<lparr>ad_lsLmsr = None, ad_factory = None, ad_trustedResolver = Some ''0xee'', ad_optimisticResolver = None,
       ad_blocklist = None\<rparr> sample_console sample_operator RESOLVER [])"
proof -
  let ?a = "\<lparr>ad_lsLmsr = None, ad_factory = None, ad_trustedResolver = Some ''0xee'', ad_optimisticResolver = None, ad_blocklist = None\<rparr>"
  have op: "zeroXAddress sample_operator" "lower sample_operator = sample_operator" by code_simp+
  define t where "t = sample_script_db\<lparr>sent_txs := [GrantRole ''0xee'' ''RESOLVER_ROLE'' sample_operator]\<rparr>"
  have run: "grantMain sample_grant willing_node sample_script_db = (Inr (), t)"
    using op(1) by (simp add: grantMain_def script_steps sample_grant_def roleArgs_def ROLE_TARGETS_def truthy_def t_def)
      (simp add: sample_script_db_def)
  have "fst (hasRole ?a sample_console sample_operator RESOLVER [])"
    by (rule granted_operator_is_let_in [OF run, where r = RESOLVER and acct = sample_operator and rest = "[]" and
        book = "\<lambda>k. if k = ''trustedResolver'' then Some ''0xee'' else None" and keys = "[''trustedResolver'']" and
        key = "''trustedResolver''" and c = "''0xee''"])
      (simp_all add: sample_grant_def roleName_def ROLE_TARGETS_def contractsFor_def ROLE_SOURCE_def sample_console_def op(2)
        cachedRole_def List.map_filter_def)
  then show ?thesis using run by (auto simp: t_def)
qed

text \<open>The address book of the other scripts names the engine \<open>lsLmsrMarket\<close>; with it, the three engine roles
  cannot be granted, and \<open>CURATOR\<close>, which the usage text lists, has no contract.\<close>

lemma engine_roles_need_an_old_book:
  assumes "gv_args G = name # acct # rest" "name \<in> {''MARKET_CREATOR'', ''PAUSER'', ''FEE_MANAGER''}"
    and "gv_book G = Some book" "book ''lmsrMarket'' = None"
  shows "\<exists>e. grantMain G N s = (Inl e, s)"
  using assms
  by (auto simp: grantMain_def script_steps roleArgs_def ROLE_TARGETS_def split: option.split)

lemma curator_is_not_granted: "gv_args G = ''CURATOR'' # rest \<Longrightarrow> grantMain G N s = (Inl Usage, s)"
  by (cases rest) (simp_all add: grantMain_def script_steps roleArgs_def ROLE_TARGETS_def)

section \<open>Money\<close>

lemma tools_agree_on_the_requirement: "REQUIRED_PER_OP = required_deposit"
  by (simp add: REQUIRED_PER_OP_def required_deposit_def GAS_PER_OP_def DECLARED_GWEI_def)

lemma enough_serves: "required_deposit \<le> d \<longleftrightarrow> (\<exists>n. paymasterStatus d = Serves n)"
  by (simp add: paymasterStatus_def)

text \<open>The operator keeps one MON (before the gas of the deposit itself), a transfer of nothing is refused, and the
  sponsor is called able exactly when the status tool would call it so.\<close>

theorem paymaster_funding_keeps_the_reserve:
  assumes "fundPaymaster F N s = (r, t)"
  shows "t = s \<or> (\<exists>amount acct balance. 0 < amount \<and> fv_balance F acct (sent_txs s) = Some balance \<and> KEEP_FOR_OPERATOR \<le> balance - amount \<and>
      t = s\<lparr>sent_txs := sent_txs s @ [DepositTo ENTRY_POINT (fv_paymaster F) amount]\<rparr> \<and>
      (\<forall>able. r = Inr able \<longrightarrow> (\<exists>d. fv_deposit F (fv_paymaster F) (sent_txs t) = Some d \<and> (able \<longleftrightarrow> (\<exists>n. paymasterStatus d = Serves n)))))"
proof (cases "\<exists>pk shown amount acct balance prior. truthy (fv_key F) = Some pk \<and>
    truthy (List.find (\<lambda>a. take 1 a \<noteq> ''-'') (fv_args F)) = Some shown \<and> fv_parseEther F shown = Some amount \<and> 0 < amount \<and>
    fv_account F pk = Some acct \<and> fv_balance F acct (sent_txs s) = Some balance \<and> fv_deposit F (fv_paymaster F) (sent_txs s) = Some prior \<and>
    amount + KEEP_FOR_OPERATOR \<le> balance")
  case False
  then have "t = s" using assms by (auto simp: fundPaymaster_def script_steps split: option.splits if_splits)
  then show ?thesis by simp
next
  case True
  then obtain pk shown amount acct balance prior where v: "truthy (fv_key F) = Some pk"
    "truthy (List.find (\<lambda>a. take 1 a \<noteq> ''-'') (fv_args F)) = Some shown" "fv_parseEther F shown = Some amount" "0 < amount"
    "fv_account F pk = Some acct" "fv_balance F acct (sent_txs s) = Some balance" "fv_deposit F (fv_paymaster F) (sent_txs s) = Some prior"
    "amount + KEEP_FOR_OPERATOR \<le> balance" by blast
  let ?x = "DepositTo ENTRY_POINT (fv_paymaster F) amount"
  let ?m = "bindp (read_chain (fv_deposit F (fv_paymaster F))) (\<lambda>deposit. ret (REQUIRED_PER_OP \<le> deposit))"
  have send: "seqp (send_checked N ?x) ?m s = (r, t)"
    using assms v by (simp add: fundPaymaster_def script_steps)
  have sent: ?thesis if "t = s\<lparr>sent_txs := sent_txs s @ [?x]\<rparr>" "\<forall>able. r = Inr able \<longrightarrow>
      (\<exists>d. fv_deposit F (fv_paymaster F) (sent_txs t) = Some d \<and> (able \<longleftrightarrow> REQUIRED_PER_OP \<le> d))"
    using that v by (intro disjI2 exI [of _ amount] exI [of _ acct] exI [of _ balance])
      (simp add: enough_serves [symmetric] tools_agree_on_the_requirement)
  from send show ?thesis
  proof (cases rule: send_then)
    case (1 e)
    then show ?thesis by simp
  next
    case (2 e)
    then show ?thesis by (intro sent) simp_all
  next
    case 3
    then have "t = s\<lparr>sent_txs := sent_txs s @ [?x]\<rparr>" by (auto simp: script_steps split: option.splits)
    then show ?thesis using 3(1) by (intro sent) (auto simp: script_steps split: option.splits)
  qed
qed

text \<open>A tester is sent gas only when the deployer can reserve it and the transfer was seen to go through.\<close>

theorem tester_transfer_is_covered:
  assumes "fundTester F N s = (r, t)"
  shows "t = s \<or> (\<exists>to amount acct balance maxFee tip. zeroXAddress to \<and> fv_balance F acct (sent_txs s) = Some balance \<and>
      amount + 21000 * maxFee \<le> balance \<and> fv_simulates F to amount (sent_txs s) \<and>
      t = s\<lparr>sent_txs := sent_txs s @ [Transfer to amount 21000 maxFee tip]\<rparr>)"
proof (cases "fv_args F")
  case Nil
  then show ?thesis using assms by (simp add: fundTester_def)
next
  case args: (Cons to rest)
  let ?shown = "case rest of [] \<Rightarrow> DEFAULT_AMOUNT | a # _ \<Rightarrow> a"
  show ?thesis
  proof (cases "\<exists>pk amount acct fees balance. zeroXAddress to \<and> truthy (fv_key F) = Some pk \<and> fv_parseEther F ?shown = Some amount \<and>
      fv_account F pk = Some acct \<and> fv_fees F (sent_txs s) = Some fees \<and> fv_balance F acct (sent_txs s) = Some balance \<and>
      amount + TRANSFER_GAS * fst fees \<le> balance \<and> fv_simulates F to amount (sent_txs s)")
    case False
    then have "t = s" using assms args by (auto simp: fundTester_def script_steps split: option.splits if_splits)
    then show ?thesis by simp
  next
    case True
    then obtain pk amount acct maxFee tip balance where v: "zeroXAddress to" "truthy (fv_key F) = Some pk"
      "fv_parseEther F ?shown = Some amount" "fv_account F pk = Some acct" "fv_fees F (sent_txs s) = Some (maxFee, tip)"
      "fv_balance F acct (sent_txs s) = Some balance" "amount + TRANSFER_GAS * maxFee \<le> balance"
      "fv_simulates F to amount (sent_txs s)" by auto
    have "seqp (send_checked N (Transfer to amount TRANSFER_GAS maxFee tip)) (read_chain (fv_balance F to)) s = (r, t)"
      using assms args v by (simp add: fundTester_def script_steps)
    then consider "t = s" | "t = s\<lparr>sent_txs := sent_txs s @ [Transfer to amount TRANSFER_GAS maxFee tip]\<rparr>"
      by (cases rule: send_then) (auto simp: read_chain_def split: option.splits)
    then show ?thesis
    proof cases
      case 2
      then show ?thesis using v
        by (intro disjI2 exI [of _ to] exI [of _ amount] exI [of _ acct] exI [of _ balance] exI [of _ maxFee] exI [of _ tip])
          (simp add: TRANSFER_GAS_def)
    qed simp
  qed
qed

end
