(* ===== verification/PubSub.thy ===== *)
theory PubSub
  imports Effects
begin

text \<open>
  The publish-subscribe half of \<open>src/src/redis/redis.service.ts\<close>: \<open>subscribe\<close> and \<open>pSubscribe\<close>, which are the same
  code over two maps, the closures they return, and the dispatch of a message to the handlers. A \<open>Set\<close> is an
  object: the closures and the calls that wait hold the set they started with, so sets have addresses. The
  connection executes its commands in the order they were sent, any time later.
\<close>

section \<open>State\<close>

type_synonym handler = nat

datatype bus_cmd = Subscribe string nat handler | Unsubscribe string

record bus =
  bu_table :: "string \<rightharpoonup> nat"                       \<comment> \<open>\<open>handlers\<close>: a key's set\<close>
  bu_sets :: "nat \<Rightarrow> handler list"
  bu_next :: nat
  bu_cmds :: "bus_cmd list"                           \<comment> \<open>sent, not executed\<close>
  bu_conn :: "string list"                            \<comment> \<open>what the connection is subscribed to\<close>
  bu_waits :: "(string \<times> nat \<times> handler) list"         \<comment> \<open>calls whose SUBSCRIBE was answered\<close>
  bu_closures :: "(string \<times> handler \<times> nat) set"       \<comment> \<open>every closure handed out\<close>
  bu_live :: "(string \<times> handler \<times> nat) set"           \<comment> \<open>those not called yet\<close>

definition empty_bus :: bus where
  "empty_bus = \<lparr>bu_table = Map.empty, bu_sets = (\<lambda>_. []), bu_next = 0, bu_cmds = [], bu_conn = [], bu_waits = [],
     bu_closures = {}, bu_live = {}\<rparr>"

section \<open>Operations\<close>

text \<open>\<open>set.add(handler)\<close> and the closure that is returned.\<close>

definition add_handler :: "string \<Rightarrow> nat \<Rightarrow> handler \<Rightarrow> bus \<Rightarrow> bus" where
  "add_handler k a h b = b\<lparr>bu_sets := (bu_sets b)(a := set_add h (bu_sets b a)),
     bu_closures := insert (k, h, a) (bu_closures b), bu_live := insert (k, h, a) (bu_live b)\<rparr>"

text \<open>Up to the \<open>await\<close>: the first subscriber of a key waits for the connection, the others do not.\<close>

definition subscribe :: "string \<Rightarrow> handler \<Rightarrow> bus \<Rightarrow> bus" where
  "subscribe k h b = (case bu_table b k of
     None \<Rightarrow> b\<lparr>bu_table := (bu_table b)(k \<mapsto> bu_next b), bu_sets := (bu_sets b)(bu_next b := []),
       bu_next := bu_next b + 1, bu_cmds := bu_cmds b @ [Subscribe k (bu_next b) h]\<rparr>
   | Some a \<Rightarrow> add_handler k a h b)"

definition unsubscribe :: "string \<Rightarrow> handler \<Rightarrow> nat \<Rightarrow> bus \<Rightarrow> bus" where
  "unsubscribe k h a b =
     (let hs = removeAll h (bu_sets b a);
          c = b\<lparr>bu_sets := (bu_sets b)(a := hs), bu_live := bu_live b - {(k, h, a)}\<rparr>
      in if hs = [] then c\<lparr>bu_table := (bu_table b)(k := None), bu_cmds := bu_cmds b @ [Unsubscribe k]\<rparr> else c)"

text \<open>The handlers a message of a subscribed key is given to, in order.\<close>

definition received :: "bus \<Rightarrow> string \<Rightarrow> handler list" where
  "received b k = (if k \<in> set (bu_conn b) then (case bu_table b k of None \<Rightarrow> [] | Some a \<Rightarrow> bu_sets b a) else [])"

text \<open>The listener: a handler that throws is logged and does not keep the message from the next one.\<close>

definition dispatch :: "(handler \<Rightarrow> ('s, 'e, unit) proc) \<Rightarrow> handler list \<Rightarrow> ('s, 'e, unit) proc" where
  "dispatch call hs = forp (\<lambda>h. catchp (call h) (\<lambda>_. ret ())) hs"

lemma dispatch_runs_all:
  "dispatch call hs s = (Inr (), foldl (\<lambda>t h. snd (call h t)) s hs)"
proof (induction hs arbitrary: s)
  case (Cons h hs)
  have "catchp (call h) (\<lambda>_. ret ()) s = (Inr (), snd (call h s))"
    by (cases "call h s") (auto simp: catchp_def split: sum.split)
  then show ?case using Cons.IH by (simp add: dispatch_def)
qed (simp add: dispatch_def)

section \<open>Interleavings\<close>

text \<open>A call that has not returned yet, whether its command is on the way or answered.\<close>

definition awaiting :: "bus \<Rightarrow> string \<Rightarrow> nat \<Rightarrow> handler \<Rightarrow> bool" where
  "awaiting b k a h \<longleftrightarrow> (k, a, h) \<in> set (bu_waits b) \<or> Subscribe k a h \<in> set (bu_cmds b)"

text \<open>Orderly use: a handler is subscribed once to a key, a closure is called once, none of them empties a set another
  call is still waiting to join, and the connection refuses no subscription.\<close>

definition new_caller :: "string \<Rightarrow> handler \<Rightarrow> bus \<Rightarrow> bool" where
  "new_caller k h b \<longleftrightarrow> (\<forall>a. (k, h, a) \<notin> bu_live b \<and> \<not> awaiting b k a h)"

definition careful_release :: "string \<Rightarrow> handler \<Rightarrow> nat \<Rightarrow> bus \<Rightarrow> bool" where
  "careful_release k h a b \<longleftrightarrow> (k, h, a) \<in> bu_live b \<and>
     (removeAll h (bu_sets b a) \<noteq> [] \<or> (\<forall>k' h'. \<not> awaiting b k' a h'))"

inductive bus_step :: "bool \<Rightarrow> bus \<Rightarrow> bus \<Rightarrow> bool" for orderly where
  called: "\<not> orderly \<or> new_caller k h b \<Longrightarrow> bus_step orderly b (subscribe k h b)"
| answered: "bu_cmds b = Subscribe k a h # cs \<Longrightarrow>
    bus_step orderly b (b\<lparr>bu_cmds := cs, bu_conn := set_add k (bu_conn b), bu_waits := bu_waits b @ [(k, a, h)]\<rparr>)"
| refused: "\<not> orderly \<Longrightarrow> bu_cmds b = Subscribe k a h # cs \<Longrightarrow> bus_step orderly b (b\<lparr>bu_cmds := cs\<rparr>)"
| ended: "bu_cmds b = Unsubscribe k # cs \<Longrightarrow>
    bus_step orderly b (b\<lparr>bu_cmds := cs, bu_conn := removeAll k (bu_conn b)\<rparr>)"
| resumed: "(k, a, h) \<in> set (bu_waits b) \<Longrightarrow>
    bus_step orderly b (add_handler k a h (b\<lparr>bu_waits := remove1 (k, a, h) (bu_waits b)\<rparr>))"
| released: "(k, h, a) \<in> bu_closures b \<Longrightarrow> \<not> orderly \<or> careful_release k h a b \<Longrightarrow>
    bus_step orderly b (unsubscribe k h a b)"

inductive bus_reach :: "bool \<Rightarrow> bus \<Rightarrow> bool" for orderly where
  start: "bus_reach orderly empty_bus"
| more: "bus_reach orderly b \<Longrightarrow> bus_step orderly b c \<Longrightarrow> bus_reach orderly c"

section \<open>The invariant\<close>

fun drained :: "bus_cmd list \<Rightarrow> string list \<Rightarrow> string list" where
  "drained [] ks = ks"
| "drained (Subscribe k a h # cs) ks = drained cs (set_add k ks)"
| "drained (Unsubscribe k # cs) ks = drained cs (removeAll k ks)"

lemma drained_append: "drained (cs @ ds) ks = drained ds (drained cs ks)"
  by (induction cs ks rule: drained.induct) simp_all

text \<open>The calls that have not returned, and what the tables, sets and closures say of each other.\<close>

definition waiters :: "bus \<Rightarrow> (string \<times> nat \<times> handler) set" where
  "waiters b = set (bu_waits b) \<union> {(k, a, h). Subscribe k a h \<in> set (bu_cmds b)}"

definition linked :: "(string \<rightharpoonup> nat) \<Rightarrow> nat \<Rightarrow> (nat \<Rightarrow> handler set) \<Rightarrow> (string \<times> handler \<times> nat) set \<Rightarrow>
    (string \<times> nat \<times> handler) set \<Rightarrow> bool" where
  "linked T n S L W \<longleftrightarrow> (\<forall>k a. T k = Some a \<longrightarrow> a < n) \<and> (\<forall>k k' a. T k = Some a \<longrightarrow> T k' = Some a \<longrightarrow> k = k') \<and>
     (\<forall>k h a. (k, h, a) \<in> L \<longleftrightarrow> T k = Some a \<and> h \<in> S a) \<and> (\<forall>k a h. (k, a, h) \<in> W \<longrightarrow> T k = Some a)"

definition wires_ok :: "bus \<Rightarrow> bool" where
  "wires_ok b \<longleftrightarrow> (\<forall>k. k \<in> set (drained (bu_cmds b) (bu_conn b)) \<longleftrightarrow> bu_table b k \<noteq> None) \<and>
     distinct (bu_conn b) \<and> (\<forall>a. distinct (bu_sets b a))"

definition bus_ok :: "bus \<Rightarrow> bool" where
  "bus_ok b \<longleftrightarrow> linked (bu_table b) (bu_next b) (\<lambda>a. set (bu_sets b a)) (bu_live b) (waiters b) \<and> wires_ok b"

lemma linkedD:
  assumes "linked T n S L W"
  shows "T k = Some a \<Longrightarrow> a < n" "T k = Some a \<Longrightarrow> T k' = Some a \<Longrightarrow> k = k'"
    "(k, h, a) \<in> L \<longleftrightarrow> T k = Some a \<and> h \<in> S a" "(k, a, h) \<in> W \<Longrightarrow> T k = Some a"
  using assms unfolding linked_def by blast+

lemma linkedI:
  assumes "\<And>k a. T k = Some a \<Longrightarrow> a < n" "\<And>k k' a. T k = Some a \<Longrightarrow> T k' = Some a \<Longrightarrow> k = k'"
    and "\<And>k h a. (k, h, a) \<in> L \<longleftrightarrow> T k = Some a \<and> h \<in> S a" "\<And>k a h. (k, a, h) \<in> W \<Longrightarrow> T k = Some a"
  shows "linked T n S L W"
  using assms unfolding linked_def by blast

lemma linked_new_set:
  assumes "linked T n S L W" "T k = None"
  shows "linked (T(k \<mapsto> n)) (n + 1) (S(n := {})) L (insert (k, n, h) W)"
proof -
  note D = linkedD [OF assms(1)]
  have lt: "T k' \<noteq> Some n" for k' using D(1) [of k' n] by auto
  show ?thesis
  proof (rule linkedI)
    show "a < n + 1" if "(T(k \<mapsto> n)) k' = Some a" for k' a using that D(1) [of k' a] by (auto split: if_splits)
    show "k' = k''" if "(T(k \<mapsto> n)) k' = Some a" "(T(k \<mapsto> n)) k'' = Some a" for k' k'' a
      using that lt D(2) [of k' a k''] by (auto split: if_splits)
    show "(k', h', a) \<in> L \<longleftrightarrow> (T(k \<mapsto> n)) k' = Some a \<and> h' \<in> (S(n := {})) a" for k' h' a
      using assms(2) lt [of k'] D(3) [of k' h' a] by auto
    show "(T(k \<mapsto> n)) k' = Some a" if "(k', a, h') \<in> insert (k, n, h) W" for k' a h'
      using that assms(2) D(4) [of k' a h'] by auto
  qed
qed

lemma linked_add:
  assumes "linked T n S L W" "T k = Some a"
  shows "linked T n (S(a := insert h (S a))) (insert (k, h, a) L) W"
  using linkedD [OF assms(1)] assms(2) by (intro linkedI) (auto split: if_splits)

lemma linked_fewer: "linked T n S L W \<Longrightarrow> V \<subseteq> W \<Longrightarrow> linked T n S L V"
  unfolding linked_def by blast

lemma linked_remove:
  assumes "linked T n S L W" "(k, h, a) \<in> L"
  shows "linked T n (S(a := S a - {h})) (L - {(k, h, a)}) W"
  using linkedD [OF assms(1)] assms(2) by (intro linkedI) (auto split: if_splits)

lemma linked_drop:
  assumes "linked T n S L W" "T k = Some a" "S a = {}" "\<forall>k' h'. (k', a, h') \<notin> W"
  shows "linked (T(k := None)) n S L W"
proof (rule linkedI)
  note D = linkedD [OF assms(1)]
  show "a' < n" if "(T(k := None)) k' = Some a'" for k' a' using that D(1) [of k' a'] by (auto split: if_splits)
  show "k' = k''" if "(T(k := None)) k' = Some a'" "(T(k := None)) k'' = Some a'" for k' k'' a'
    using that D(2) [of k' a' k''] by (auto split: if_splits)
  show "(k', h', b) \<in> L \<longleftrightarrow> (T(k := None)) k' = Some b \<and> h' \<in> S b" for k' h' b
    using assms(2,3) D(3) [of k' h' b] by auto
  show "(T(k := None)) k' = Some b" if "(k', b, h') \<in> W" for k' b h'
    using that assms(2,4) D(4) [of k' b h'] by auto
qed

lemma bus_okD:
  assumes "bus_ok b"
  shows "linked (bu_table b) (bu_next b) (\<lambda>a. set (bu_sets b a)) (bu_live b) (waiters b)" "wires_ok b"
  using assms by (simp_all add: bus_ok_def)

lemma add_handler_ok:
  assumes "bus_ok b" "bu_table b k = Some a"
  shows "bus_ok (add_handler k a h b)"
proof -
  let ?c = "add_handler k a h b"
  have "waiters ?c = waiters b" "wires_ok ?c"
    using bus_okD(2) [OF assms(1)] by (auto simp: waiters_def add_handler_def wires_ok_def)
  moreover have "(\<lambda>x. set (bu_sets ?c x)) = (\<lambda>x. set (bu_sets b x))(a := insert h (set (bu_sets b a)))"
    by (simp add: add_handler_def fun_eq_iff)
  ultimately show ?thesis using linked_add [OF bus_okD(1) [OF assms(1)] assms(2), of h]
    by (simp add: bus_ok_def) (simp add: add_handler_def)
qed

lemma subscribe_ok:
  assumes "bus_ok b"
  shows "bus_ok (subscribe k h b)"
proof (cases "bu_table b k")
  case None
  let ?c = "subscribe k h b"
  have "waiters ?c = insert (k, bu_next b, h) (waiters b)" using None by (auto simp: waiters_def subscribe_def)
  moreover have "(\<lambda>a. set (bu_sets ?c a)) = (\<lambda>a. set (bu_sets b a))(bu_next b := {})"
    using None by (simp add: subscribe_def fun_eq_iff)
  moreover have "wires_ok ?c" using bus_okD(2) [OF assms] None by (auto simp: wires_ok_def subscribe_def drained_append)
  ultimately show ?thesis using linked_new_set [OF bus_okD(1) [OF assms] None, of h] None
    by (simp add: bus_ok_def) (simp add: subscribe_def)
qed (simp add: subscribe_def add_handler_ok assms)

lemma unsubscribe_ok:
  assumes "bus_ok b" "careful_release k h a b"
  shows "bus_ok (unsubscribe k h a b)"
proof -
  let ?hs = "removeAll h (bu_sets b a)" and ?c = "unsubscribe k h a b"
  have live: "(k, h, a) \<in> bu_live b" and quiet: "?hs \<noteq> [] \<or> (\<forall>k' h'. (k', a, h') \<notin> waiters b)"
    using assms(2) by (auto simp: careful_release_def waiters_def awaiting_def)
  have T: "bu_table b k = Some a" using live linkedD(3) [OF bus_okD(1) [OF assms(1)], of k h a] by simp
  have L: "linked (bu_table b) (bu_next b) ((\<lambda>x. set (bu_sets b x))(a := set ?hs)) (bu_live b - {(k, h, a)}) (waiters b)"
    using linked_remove [OF bus_okD(1) [OF assms(1)] live] by (simp add: set_removeAll)
  have sets: "(\<lambda>x. set (bu_sets ?c x)) = (\<lambda>x. set (bu_sets b x))(a := set ?hs)"
    by (simp add: unsubscribe_def Let_def fun_eq_iff) (metis Diff_eq_empty_iff set_empty set_removeAll)
  have rest: "waiters ?c = waiters b" "bu_next ?c = bu_next b" "bu_live ?c = bu_live b - {(k, h, a)}"
    by (auto simp: unsubscribe_def Let_def waiters_def)
  have wires: "wires_ok ?c"
    using bus_okD(2) [OF assms(1)] by (auto simp: wires_ok_def unsubscribe_def Let_def drained_append distinct_removeAll)
  show ?thesis
  proof (cases "?hs = []")
    case True
    then have "bu_table ?c = (bu_table b)(k := None)" by (simp add: unsubscribe_def Let_def)
    moreover have "linked ((bu_table b)(k := None)) (bu_next b) ((\<lambda>x. set (bu_sets b x))(a := set ?hs)) (bu_live b - {(k, h, a)}) (waiters b)"
      using quiet True by (intro linked_drop [OF L T]) auto
    ultimately show ?thesis using sets rest wires by (simp add: bus_ok_def)
  next
    case False
    then have "bu_table ?c = bu_table b" by (simp add: unsubscribe_def Let_def)
    then show ?thesis using L sets rest wires by (simp add: bus_ok_def)
  qed
qed

lemma bus_ok_step:
  assumes "bus_step True b c" "bus_ok b"
  shows "bus_ok c"
  using assms(1)
proof (cases rule: bus_step.cases)
  case (answered k a h cs)
  then have "waiters c = waiters b" "wires_ok c" using bus_okD(2) [OF assms(2)] by (auto simp: waiters_def wires_ok_def)
  then show ?thesis using bus_okD(1) [OF assms(2)] answered(1) by (simp add: bus_ok_def)
next
  case (ended k cs)
  then have "waiters c = waiters b" "wires_ok c" using bus_okD(2) [OF assms(2)]
    by (auto simp: waiters_def wires_ok_def distinct_removeAll)
  then show ?thesis using bus_okD(1) [OF assms(2)] ended(1) by (simp add: bus_ok_def)
next
  case (resumed k a h)
  let ?b = "b\<lparr>bu_waits := remove1 (k, a, h) (bu_waits b)\<rparr>"
  have "(k, a, h) \<in> waiters b" using resumed(2) by (simp add: waiters_def)
  then have "bu_table ?b k = Some a" using linkedD(4) [OF bus_okD(1) [OF assms(2)]] by simp
  moreover have "waiters ?b \<subseteq> waiters b" "wires_ok ?b"
    using bus_okD(2) [OF assms(2)] by (auto simp: waiters_def wires_ok_def dest: notin_set_remove1)
  then have "bus_ok ?b" using linked_fewer [OF bus_okD(1) [OF assms(2)]] by (simp add: bus_ok_def)
  ultimately show ?thesis using resumed(1) add_handler_ok by simp
qed (simp_all add: subscribe_ok unsubscribe_ok assms(2))

lemma bus_reach_ok: "bus_reach True b \<Longrightarrow> bus_ok b"
proof (induction rule: bus_reach.induct)
  case start
  show ?case by (simp add: bus_ok_def linked_def wires_ok_def waiters_def empty_bus_def)
next
  case (more b c)
  then show ?case using bus_ok_step by blast
qed

section \<open>What subscribers can rely on\<close>

text \<open>However subscriptions, releases and the connection's answers interleave, as long as use is orderly the handlers a key's messages
  reach are exactly those subscribed and not released, each once, whenever the connection has executed what it was sent.\<close>

theorem received_exact:
  assumes "bus_reach True b" "bu_cmds b = []"
  shows "set (received b k) = {h. \<exists>a. (k, h, a) \<in> bu_live b} \<and> distinct (received b k)"
proof -
  have ok: "bus_ok b" by (rule bus_reach_ok [OF assms(1)])
  have on: "k \<in> set (bu_conn b) \<longleftrightarrow> bu_table b k \<noteq> None" and once: "\<And>a. distinct (bu_sets b a)"
    using bus_okD(2) [OF ok] assms(2) by (simp_all add: wires_ok_def)
  note live = linkedD(3) [OF bus_okD(1) [OF ok], of k]
  show ?thesis
  proof (cases "bu_table b k")
    case None
    then show ?thesis using live on by (simp add: received_def)
  next
    case (Some a)
    then show ?thesis using live on once [of a] by (simp add: received_def)
  qed
qed

text \<open>Two ways out of it, each leaving a subscriber whose call resolved and whom no message reaches: another subscriber of the
  same key that comes and goes while the first waits for the connection; and a subscription the connection refused,
  after which the key's empty set stays in the map and every later subscriber joins it without a SUBSCRIBE.\<close>

definition overtaken :: "string \<Rightarrow> handler \<Rightarrow> handler \<Rightarrow> bus" where
  "overtaken k g h = add_handler k 0 h ((unsubscribe k g 0 (subscribe k g (subscribe k h empty_bus)))
     \<lparr>bu_cmds := [], bu_conn := [], bu_waits := []\<rparr>)"

definition after_refusal :: "string \<Rightarrow> handler \<Rightarrow> handler \<Rightarrow> bus" where
  "after_refusal k g h = subscribe k h ((subscribe k g empty_bus)\<lparr>bu_cmds := []\<rparr>)"

definition silent :: "bus \<Rightarrow> string \<Rightarrow> handler \<Rightarrow> bool" where
  "silent b k h \<longleftrightarrow> bu_cmds b = [] \<and> bu_waits b = [] \<and> (\<exists>a. (k, h, a) \<in> bu_live b) \<and> received b k = []"

lemmas reach_from = bus_reach.more [OF _ bus_step.called] bus_reach.more [OF _ bus_step.answered]
  bus_reach.more [OF _ bus_step.refused] bus_reach.more [OF _ bus_step.ended]
  bus_reach.more [OF _ bus_step.resumed] bus_reach.more [OF _ bus_step.released]

theorem careless_use_silences:
  assumes "g \<noteq> h"
  shows "bus_reach False (overtaken k g h) \<and> silent (overtaken k g h) k h \<and>
    bus_reach False (after_refusal k g h) \<and> silent (after_refusal k g h) k h"
proof (intro conjI)
  let ?b = "unsubscribe k g 0 (subscribe k g (subscribe k h empty_bus))"
  let ?c = "?b\<lparr>bu_cmds := [Unsubscribe k], bu_conn := [k], bu_waits := [(k, 0, h)]\<rparr>"
  have b: "bus_reach False ?b"
    by (intro reach_from(6) reach_from(1) bus_reach.start) (simp_all add: subscribe_def add_handler_def empty_bus_def)
  have cmds: "bu_cmds ?b = [Subscribe k 0 h, Unsubscribe k]" "bu_conn ?b = []" "bu_waits ?b = []"
    by (simp_all add: unsubscribe_def subscribe_def add_handler_def empty_bus_def set_add_def)
  have "bus_reach False ?c" using reach_from(2) [OF b cmds(1)] cmds by (simp add: set_add_def)
  from reach_from(4) [OF this, of k "[]"] have "bus_reach False (?c\<lparr>bu_cmds := [], bu_conn := []\<rparr>)" by simp
  from reach_from(5) [OF this, of k 0 h] show "bus_reach False (overtaken k g h)" by (simp add: overtaken_def)
  show "silent (overtaken k g h) k h" by (auto simp: silent_def overtaken_def received_def add_handler_def)
  have a: "bus_reach False (subscribe k g empty_bus)" "bu_cmds (subscribe k g empty_bus) = [Subscribe k 0 g]"
    by (intro reach_from(1) bus_reach.start) (simp_all add: subscribe_def empty_bus_def)
  show "bus_reach False (after_refusal k g h)"
    unfolding after_refusal_def using reach_from(3) [OF a(1) _ a(2)] by (intro reach_from(1)) simp_all
  show "silent (after_refusal k g h) k h"
    by (simp add: silent_def after_refusal_def subscribe_def add_handler_def received_def empty_bus_def)
qed

end
