(* ===== verification/LiveFeed.thy ===== *)
theory LiveFeed
  imports Integrity Realtime PubSub
begin

text \<open>
  From a batch to the sockets: what \<open>publish\<close> of the event processor writes on the wire, the gateway's two
  subscriptions on the bus (\<open>afterInit\<close> of \<open>src/src/realtime/realtime.gateway.ts\<close>), and what of a batch's news
  reaches which socket. Numbers on the wire are outcome indices and times, below 1e21, where a number prints
  as its digits.
\<close>

section \<open>Dates\<close>

text \<open>\<open>Date.prototype.toISOString\<close>, by the civil calendar: years of 400 form eras of 146097 days that start in March.\<close>

definition civil :: "int \<Rightarrow> int \<times> int \<times> int" where
  "civil days =
     (let z = days + 719468; doe = z mod 146097;
          yoe = (doe - doe div 1460 + doe div 36524 - doe div 146096) div 365;
          doy = doe - (365 * yoe + yoe div 4 - yoe div 100);
          mp = (5 * doy + 2) div 153;
          month = (if mp < 10 then mp + 3 else mp - 9);
          year = yoe + z div 146097 * 400
      in (if month \<le> 2 then year + 1 else year, month, doy - (153 * mp + 2) div 5 + 1))"

definition padded :: "nat \<Rightarrow> int \<Rightarrow> string" where
  "padded n i = (let t = dec i in replicate (n - length t) CHR ''0'' @ t)"

definition year_text :: "int \<Rightarrow> string" where
  "year_text y = (if 0 \<le> y \<and> y \<le> 9999 then padded 4 y else (if y < 0 then ''-'' else ''+'') @ padded 6 \<bar>y\<bar>)"

definition toISOString :: "int \<Rightarrow> string" where
  "toISOString ms =
     (let (y, m, d) = civil (ms div 86400000); t = ms mod 86400000
      in year_text y @ ''-'' @ padded 2 m @ ''-'' @ padded 2 d @ ''T'' @ padded 2 (t div 3600000) @ '':'' @
         padded 2 (t div 60000 mod 60) @ '':'' @ padded 2 (t div 1000 mod 60) @ ''.'' @ padded 3 (t mod 1000) @ ''Z'')"

section \<open>On the wire\<close>

definition json_int :: "int \<Rightarrow> json" where
  "json_int i = JNum (dec i)"

definition json_option :: "('a \<Rightarrow> json) \<Rightarrow> 'a option \<Rightarrow> json" where
  "json_option f x = (case x of None \<Rightarrow> JNull | Some v \<Rightarrow> f v)"

definition side_name :: "trade_side \<Rightarrow> string" where
  "side_name sd = (case sd of BUY \<Rightarrow> ''BUY'' | SELL \<Rightarrow> ''SELL'' | SHORT \<Rightarrow> ''SHORT'')"

definition phase_name :: "resolution_phase \<Rightarrow> string" where
  "phase_name p = (case p of NONE \<Rightarrow> ''NONE'' | PROPOSED \<Rightarrow> ''PROPOSED'' | DISPUTED \<Rightarrow> ''DISPUTED'' | SETTLED \<Rightarrow> ''SETTLED'')"

definition market_status_name :: "market_status \<Rightarrow> string" where
  "market_status_name st = (case st of TRADING \<Rightarrow> ''TRADING'' | RESOLVED \<Rightarrow> ''RESOLVED'' | INVALID \<Rightarrow> ''INVALID'')"

fun data_json :: "rt_data \<Rightarrow> json" where
  "data_json (DMarketCreated ref marketId address category closeTime) = JObj
     [(''marketRef'', JStr ref), (''engine'', JStr ''LS_LMSR''), (''marketId'', JStr marketId), (''address'', JStr address),
      (''categoryKey'', json_option JStr category), (''closeTime'', JStr (toISOString closeTime))]"
| "data_json (DTrade side acct outcomeIndex shares amount spread price tx time) = JObj
     [(''side'', JStr (side_name side)), (''account'', JStr acct), (''outcomeIndex'', json_int outcomeIndex),
      (''shares'', JStr shares), (''amount'', JStr amount), (''spreadWad'', JStr spread), (''priceWad'', JStr price),
      (''txHash'', JStr tx), (''timestamp'', JStr (toISOString time))]"
| "data_json (DStatus st winning) = JObj ((''status'', JStr (market_status_name st)) #
     (case winning of None \<Rightarrow> [] | Some i \<Rightarrow> [(''winningOutcomeId'', json_int i)]))"
| "data_json (DResolution ph deadline) = JObj
     [(''phase'', JStr (phase_name ph)), (''disputeDeadline'', json_option (\<lambda>t. JStr (toISOString t)) deadline)]"
| "data_json (DPrice prices) = JObj [(''prices'', JArr (map JStr prices))]"

text \<open>The envelope; an \<open>undefined\<close> reference is left out.\<close>

definition message_json :: "rt_message \<Rightarrow> json" where
  "message_json x = JObj ((''event'', JStr (event_name (g_event x))) #
     (case g_ref x of None \<Rightarrow> [] | Some ref \<Rightarrow> [(''marketRef'', JStr ref)]) @
     [(''data'', data_json (g_data x)), (''ts'', json_int (g_ts x))])"

lemma plain_json_int [simp]: "plain (json_int i)"
  by (simp only: json_int_def plain_dec)

lemma plain_data: "plain (data_json d)"
  by (cases d) (auto simp: json_option_def list_all_iff split: option.split)

lemma payload_read_back: "relay_payload (stringify (message_json x)) = message_json x"
proof -
  have "plain (message_json x)" by (auto simp: message_json_def plain_data split: option.split)
  then show ?thesis by (simp add: relay_payload_def json_parse_stringify)
qed

section \<open>The gateway on the bus\<close>

definition MARKET_CHANNEL_PATTERN :: string where
  "MARKET_CHANNEL_PATTERN = ''rt:market:*''"

definition GLOBAL_CHANNEL_PATTERN :: string where
  "GLOBAL_CHANNEL_PATTERN = ''rt:global:*''"

text \<open>A pattern of literal text and perhaps a final star, the only kind in use.\<close>

definition pattern_matches :: "string \<Rightarrow> string \<Rightarrow> bool" where
  "pattern_matches p ch \<longleftrightarrow> (if p \<noteq> [] \<and> last p = CHR ''*'' then take (length p - 1) ch = butlast p else ch = p)"

text \<open>The handler \<open>afterInit\<close> makes; the bus is that of \<open>pSubscribe\<close>, so its keys are patterns. The gateway is up once both
  subscriptions have resolved and the connection has nothing left to execute.\<close>

definition BRIDGE :: handler where
  "BRIDGE = 0"

definition gateway_up :: "bus \<Rightarrow> bool" where
  "gateway_up b \<longleftrightarrow> bus_reach True b \<and> bu_cmds b = [] \<and>
     {k. \<exists>a. (k, BRIDGE, a) \<in> bu_live b} = {MARKET_CHANNEL_PATTERN, GLOBAL_CHANNEL_PATTERN}"

text \<open>A message: one call for every handler of every matching pattern.\<close>

definition emitted :: "rooms \<Rightarrow> bus \<Rightarrow> string \<Rightarrow> string \<Rightarrow> (nat \<times> string \<times> json) list" where
  "emitted rs b ch msg = concat (map (\<lambda>p. concat (map (\<lambda>h. if h = BRIDGE then gateway_relay rs ch msg else []) (received b p)))
     (filter (\<lambda>p. pattern_matches p ch) (bu_conn b)))"

text \<open>A first subscription that nothing interleaves with, and the two of \<open>afterInit\<close> one after the other.\<close>

definition completed :: "string \<Rightarrow> handler \<Rightarrow> bus \<Rightarrow> bus" where
  "completed k h b = add_handler k (bu_next b) h ((subscribe k h b)\<lparr>bu_cmds := [], bu_conn := set_add k (bu_conn b)\<rparr>)"

definition afterInit :: bus where
  "afterInit = completed GLOBAL_CHANNEL_PATTERN BRIDGE (completed MARKET_CHANNEL_PATTERN BRIDGE empty_bus)"

lemma completed_reach:
  assumes "bus_reach True b" "bu_cmds b = []" "bu_waits b = []" "bu_table b k = None" "\<forall>a. (k, h, a) \<notin> bu_live b"
  shows "bus_reach True (completed k h b)"
proof -
  have "new_caller k h b" using assms(2,3,5) by (simp add: new_caller_def awaiting_def)
  then have one: "bus_reach True (subscribe k h b)" by (intro reach_from(1) assms(1)) simp
  have cmds: "bu_cmds (subscribe k h b) = [Subscribe k (bu_next b) h]" "bu_conn (subscribe k h b) = bu_conn b"
    "bu_waits (subscribe k h b) = []" using assms(2-4) by (simp_all add: subscribe_def)
  have "(subscribe k h b)\<lparr>bu_cmds := [], bu_conn := set_add k (bu_conn b), bu_waits := []\<rparr> =
      (subscribe k h b)\<lparr>bu_cmds := [], bu_conn := set_add k (bu_conn b)\<rparr>"
    using cmds(3) by (cases "subscribe k h b") simp
  with reach_from(5) [OF reach_from(2) [OF one cmds(1)], of k "bu_next b" h] cmds show ?thesis
    by (simp add: completed_def)
qed

lemma gateway_up_afterInit: "gateway_up afterInit"
proof -
  have "bus_reach True (completed MARKET_CHANNEL_PATTERN BRIDGE empty_bus)"
    by (intro completed_reach bus_reach.start) (simp_all add: empty_bus_def)
  then have "bus_reach True afterInit" unfolding afterInit_def
    by (rule completed_reach)
      (simp_all add: completed_def subscribe_def add_handler_def empty_bus_def MARKET_CHANNEL_PATTERN_def GLOBAL_CHANNEL_PATTERN_def)
  then show ?thesis
    by (auto simp: gateway_up_def afterInit_def completed_def subscribe_def add_handler_def empty_bus_def
        MARKET_CHANNEL_PATTERN_def GLOBAL_CHANNEL_PATTERN_def)
qed

section \<open>One call for a message\<close>

lemma concat_only:
  assumes "distinct xs" "x \<in> set xs" "\<forall>y \<in> set xs. y \<noteq> x \<longrightarrow> f y = []"
  shows "concat (map f xs) = f x"
  using assms
proof (induction xs)
  case (Cons y ys)
  have none: "concat (map f zs) = []" if "\<forall>z \<in> set zs. f z = []" for zs using that by auto
  show ?case
  proof (cases "y = x")
    case True
    then have "\<forall>z \<in> set ys. f z = []" using Cons.prems by auto
    then show ?thesis using True none by simp
  next
    case False
    then show ?thesis using Cons by auto
  qed
qed simp

lemma concat_none: "x \<notin> set xs \<Longrightarrow> concat (map (\<lambda>h. if h = x then ys else []) xs) = []"
  by (induction xs) auto

lemma pattern_of_channel:
  "pattern_matches MARKET_CHANNEL_PATTERN (marketChannel ref e)" "\<not> pattern_matches GLOBAL_CHANNEL_PATTERN (marketChannel ref e)"
  "pattern_matches GLOBAL_CHANNEL_PATTERN (globalChannel e)" "\<not> pattern_matches MARKET_CHANNEL_PATTERN (globalChannel e)"
  by (simp_all add: pattern_matches_def MARKET_CHANNEL_PATTERN_def GLOBAL_CHANNEL_PATTERN_def marketChannel_def globalChannel_def)

lemma emitted_once:
  assumes "gateway_up b" "p \<in> {MARKET_CHANNEL_PATTERN, GLOBAL_CHANNEL_PATTERN}" "pattern_matches p ch"
    and "\<forall>q \<in> {MARKET_CHANNEL_PATTERN, GLOBAL_CHANNEL_PATTERN}. q \<noteq> p \<longrightarrow> \<not> pattern_matches q ch"
  shows "emitted rs b ch msg = gateway_relay rs ch msg"
proof -
  let ?f = "\<lambda>h. if h = BRIDGE then gateway_relay rs ch msg else []"
  have reach: "bus_reach True b" "bu_cmds b = []" using assms(1) by (simp_all add: gateway_up_def)
  have up: "{k. \<exists>a. (k, BRIDGE, a) \<in> bu_live b} = {MARKET_CHANNEL_PATTERN, GLOBAL_CHANNEL_PATTERN}"
    using assms(1) by (simp add: gateway_up_def)
  have served: "BRIDGE \<in> set (received b q) \<longleftrightarrow> q \<in> {MARKET_CHANNEL_PATTERN, GLOBAL_CHANNEL_PATTERN}" for q
    using received_exact [OF reach, of q] unfolding up [symmetric] by simp
  have "distinct (received b p)" using received_exact [OF reach] by blast
  then have one: "concat (map ?f (received b p)) = gateway_relay rs ch msg"
    using concat_only [of "received b p" BRIDGE ?f] served [of p] assms(2) by simp
  have none: "concat (map ?f (received b q)) = []" if "q \<notin> {MARKET_CHANNEL_PATTERN, GLOBAL_CHANNEL_PATTERN}" for q
    using served [of q] that by (intro concat_none) simp
  let ?ps = "filter (\<lambda>q. pattern_matches q ch) (bu_conn b)"
  have "BRIDGE \<in> set (received b p)" using served [of p] assms(2) by blast
  then have "p \<in> set (bu_conn b)" unfolding received_def by (cases "p \<in> set (bu_conn b)") simp_all
  then have p: "p \<in> set ?ps" using assms(3) by simp
  have d: "distinct ?ps" using bus_okD(2) [OF bus_reach_ok [OF reach(1)]] by (simp add: wires_ok_def)
  have rest: "\<forall>q \<in> set ?ps. q \<noteq> p \<longrightarrow> concat (map ?f (received b q)) = []"
  proof (intro ballI impI)
    fix q assume "q \<in> set ?ps" "q \<noteq> p"
    then have "q \<notin> {MARKET_CHANNEL_PATTERN, GLOBAL_CHANNEL_PATTERN}" using assms(4) by (metis (mono_tags) mem_Collect_eq set_filter)
    then show "concat (map ?f (received b q)) = []" by (rule none)
  qed
  show ?thesis unfolding emitted_def by (rule trans [OF concat_only [OF d p rest] one])
qed

definition room_of :: "rt_message \<Rightarrow> string" where
  "room_of x = (case g_ref x of None \<Rightarrow> GLOBAL_ROOM | Some ref \<Rightarrow> marketRoom ref)"

definition addressed :: "rt_message \<Rightarrow> bool" where
  "addressed x \<longleftrightarrow> (case g_ref x of None \<Rightarrow> g_channel x = globalChannel (g_event x)
     | Some ref \<Rightarrow> isUuid ref \<and> g_channel x = marketChannel ref (g_event x))"

lemma emitted_to_the_room:
  assumes "gateway_up b" "addressed x"
  shows "emitted rs b (g_channel x) (stringify (message_json x)) =
    map (\<lambda>(c, _). (c, event_name (g_event x), message_json x)) (filter (\<lambda>(_, room). room = room_of x) rs)"
proof -
  have "emitted rs b (g_channel x) (stringify (message_json x)) = gateway_relay rs (g_channel x) (stringify (message_json x)) \<and>
      parseChannel (g_channel x) = Some (room_of x, event_name (g_event x))"
  proof (cases "g_ref x")
    case None
    then have ch: "g_channel x = globalChannel (g_event x)" using assms(2) by (simp add: addressed_def)
    then show ?thesis using emitted_once [OF assms(1), of GLOBAL_CHANNEL_PATTERN "g_channel x"] pattern_of_channel None
      by (auto simp: room_of_def parse_global_channel)
  next
    case (Some ref)
    then have ch: "g_channel x = marketChannel ref (g_event x)" "isUuid ref" using assms(2) by (simp_all add: addressed_def)
    then show ?thesis using emitted_once [OF assms(1), of MARKET_CHANNEL_PATTERN "g_channel x"] pattern_of_channel Some
      by (auto simp: room_of_def parse_market_channel isUuid_no_colon)
  qed
  then show ?thesis by (auto simp: gateway_relay_def payload_read_back split_def)
qed

section \<open>What a batch publishes\<close>

text \<open>From a state with the messages \<open>ps\<close> out: every id in use is a UUID, and every later message is on the channel of its
  own event and market.\<close>

definition fed :: "rt_message list \<Rightarrow> ep_state \<Rightarrow> bool" where
  "fed ps s \<longleftrightarrow> (\<forall>m \<in> set (markets s). isUuid (m_id m)) \<and> (\<forall>k ref. refCache s k = Some ref \<longrightarrow> isUuid ref) \<and>
     (\<forall>ref \<in> set (touched s). isUuid ref) \<and> (\<exists>ms. published s = ps @ ms \<and> (\<forall>x \<in> set ms. addressed x))"

definition wire :: "ep_state \<Rightarrow> _" where
  "wire s = (map m_id (markets s), refCache s, touched s, published s)"

lemma fed_wire: "wire t = wire s \<Longrightarrow> fed ps s \<Longrightarrow> fed ps t"
proof -
  assume w: "wire t = wire s" and f: "fed ps s"
  have "m_id ` set (markets t) = m_id ` set (markets s)" using w by (metis (mono_tags) Pair_inject set_map wire_def)
  then have "\<forall>m \<in> set (markets t). isUuid (m_id m)" using f by (force simp: fed_def)
  then show ?thesis using w f by (simp add: fed_def wire_def)
qed

lemma fed_frame: "steps (\<lambda>s t. wire t = wire s) m \<Longrightarrow> keeps (fed ps) m"
  using fed_wire by (blast intro: keeps_frame)

lemma wire_tables:
  "steps (\<lambda>s t. wire t = wire s) (cache_del k)" "steps (\<lambda>s t. wire t = wire s) (invalidate ref)"
  "steps (\<lambda>s t. wire t = wire s) (upsertCategory c)" "steps (\<lambda>s t. wire t = wire s) (updateOutcome ref i g)"
  "steps (\<lambda>s t. wire t = wire s) (recordPoint ref i p v ts)" "steps (\<lambda>s t. wire t = wire s) (adoptDraft h ref dr)"
  "steps (\<lambda>s t. wire t = wire s) (insertTrade l ref acc sd i sh am sp pr)"
  "steps (\<lambda>s t. wire t = wire s) (sellPosition pk os oc sh am)" "steps (\<lambda>s t. wire t = wire s) (buyPosition pk sh am)"
  "steps (\<lambda>s t. wire t = wire s) (modp (\<lambda>s. s\<lparr>positions := positions_of s\<rparr>))"
  "steps (\<lambda>s t. wire t = wire s) (modp (\<lambda>s. s\<lparr>proposals := proposals_of s\<rparr>))"
  by (simp_all add: steps_def wire_def helper_defs ledger_defs recordPoint_def adoptDraft_def Let_def whenp_def split: option.splits)

lemma wire_updateMarket:
  assumes "\<And>m. m_id (f m) = m_id m"
  shows "steps (\<lambda>s t. wire t = wire s) (updateMarket ref f)"
  using assms by (auto simp: steps_def updateMarket_def wire_def tupdate_def split: option.splits)

lemma wire_updatePosition: "steps (\<lambda>s t. wire t = wire s) (updatePosition ref acc i sd sh am)"
  unfolding updatePosition_def Let_def
  by (intro frame_order.steps_intros wire_tables) (auto intro!: wire_tables frame_order.steps_throw split: option.splits)

lemma wire_writeCopy: "steps (\<lambda>s t. wire t = wire s) (writeCopy ref md)"
proof -
  have "steps (\<lambda>s t. wire t = wire s) (updateMarket ref (\<lambda>m. m\<lparr>m_title := md_title md,
      m_description := md_description md, m_rules := md_rules md, m_imageUrl := md_imageUrl md,
      m_categoryKey := md_categoryKey md\<rparr>))"
    by (rule wire_updateMarket) simp
  then show ?thesis by (auto simp: steps_def writeCopy_def)
qed

lemma wire_writeLabels: "steps (\<lambda>s t. wire t = wire s) (writeLabels ref labels)"
  unfolding writeLabels_def by (rule frame_order.steps_allp) (auto intro!: wire_tables)

lemma fed_publishMarket: "isUuid ref \<Longrightarrow> keeps (fed ps) (publishMarket ref ev d)"
  by (auto simp: steps_def publishMarket_def publish_def fed_def addressed_def)

lemma fed_publishGlobal: "keeps (fed ps) (publish (globalChannel ev) ev d None)"
  by (auto simp: steps_def publish_def fed_def addressed_def)

lemma fed_touch: "isUuid ref \<Longrightarrow> keeps (fed ps) (touch ref)"
  by (auto simp: steps_def touch_def fed_def)

lemma fed_publishTrade: "isUuid ref \<Longrightarrow> keeps (fed ps) (publishTrade ref l sd i a)"
  unfolding publishTrade_def by (rule fed_publishMarket)

lemma fed_pots: "keeps (fed ps) (updateMarket ref (\<lambda>m. m\<lparr>m_pot := g m\<rparr>))"
  by (rule fed_frame, rule wire_updateMarket) simp

lemmas fed_parts = fed_publishMarket fed_publishGlobal fed_touch fed_publishTrade fed_pots
  wire_tables [THEN fed_frame] wire_updatePosition [THEN fed_frame] wire_writeCopy [THEN fed_frame] wire_writeLabels [THEN fed_frame]

text \<open>A handler that looks its market up and works on it; the reference it gets is a UUID.\<close>

lemma fed_marketRef:
  assumes "fed ps s" "marketRef a i s = (Inr r, t)"
  shows "fed ps t \<and> (case r of None \<Rightarrow> True | Some ref \<Rightarrow> isUuid ref)"
proof -
  have found: "isUuid (m_id m)" if "tfind market_key k (markets s) = Some m" for k m
    using assms(1) tfind_SomeD [OF that] by (auto simp: fed_def)
  have cached: "isUuid ref" if "refCache s k = Some ref" for k ref using assms(1) that by (auto simp: fed_def)
  have new: "fed ps (s\<lparr>refCache := (refCache s)(k \<mapsto> m_id m)\<rparr>)" if "tfind market_key q (markets s) = Some m" for k q m
    using assms(1) found [OF that] by (auto simp: fed_def)
  show ?thesis
    using assms found cached new by (auto simp: marketRef_def Let_def split: option.splits if_splits)
qed

lemma fed_marketRef_bind:
  assumes "keeps (fed ps) (f None)" "\<And>ref. isUuid ref \<Longrightarrow> keeps (fed ps) (f (Some ref))"
  shows "keeps (fed ps) (bindp (marketRef a i) f)"
proof (rule stepsI, rule impI)
  fix s r t
  assume run: "bindp (marketRef a i) f s = (r, t)" and I: "fed ps s"
  obtain o' u where u: "marketRef a i s = (Inr o', u)" using marketRef_run [of a i s] by auto
  then have c: "fed ps u" "case o' of None \<Rightarrow> True | Some ref \<Rightarrow> isUuid ref" using fed_marketRef [OF I u] by auto
  show "fed ps t"
    using run u c stepsD [OF assms(1)] stepsD [OF assms(2)] by (cases o') auto
qed

lemma fed_onTrade: "keeps (fed ps) (onTrade l sd a)"
  unfolding onTrade_def Let_def seqs.simps
  by (rule fed_marketRef_bind) (simp_all only: option.case, (intro keeps_order.steps_intros fed_parts; assumption)+)

lemma fed_onShort: "keeps (fed ps) (onShort l a)"
  unfolding onShort_def Let_def seqs.simps shortLeg_def
  by (rule fed_marketRef_bind) (simp_all only: option.case, (intro keeps_order.steps_intros fed_parts; assumption)+)

lemma fed_payouts:
  "keeps (fed ps) (onResolved l i w owed surplus)" "keeps (fed ps) (onInvalidated l i surplus)"
  "keeps (fed ps) (onRedeem l i acc am)" "keeps (fed ps) (onSeedRedeemed l i am)"
proof -
  have status: "keeps (fed ps) (updateMarket ref f)" if "\<And>m. m_id (f m) = m_id m" for ref f
    using that by (intro fed_frame wire_updateMarket)
  show "keeps (fed ps) (onResolved l i w owed surplus)" "keeps (fed ps) (onInvalidated l i surplus)"
    unfolding onResolved_def onInvalidated_def seqs.simps
    by (rule fed_marketRef_bind; simp only: option.case;
        intro keeps_order.steps_seqp keeps_order.steps_ret status fed_parts; simp)+
  show "keeps (fed ps) (onRedeem l i acc am)" "keeps (fed ps) (onSeedRedeemed l i am)"
    unfolding onRedeem_def onSeedRedeemed_def seqs.simps
    by (rule fed_marketRef_bind; simp only: option.case;
        intro keeps_order.steps_if keeps_order.steps_seqp keeps_order.steps_ret fed_parts)+
qed

lemma fed_onMetadataPublished: "keeps (fed ps) (onMetadataPublished E l i h m)"
  unfolding onMetadataPublished_def
  by (rule fed_marketRef_bind; simp only: option.case;
      intro keeps_order.steps_option keeps_order.steps_seqp keeps_order.steps_bindp keeps_order.steps_gets
        keeps_order.steps_ret keeps_order.steps_whenp fed_parts)

text \<open>The \<open>uuid()\<close> default draws UUIDs.\<close>

definition uuids :: "env \<Rightarrow> bool" where
  "uuids E \<longleftrightarrow> (\<forall>n. isUuid (e_uuid E n))"

lemma fed_upsert_bind:
  assumes "uuids E" "\<And>ref. isUuid ref \<Longrightarrow> keeps (fed ps) (f ref)"
  shows "keeps (fed ps) (bindp (upsertMarket E l a price c d) f)"
proof (rule stepsI, rule impI)
  fix s r t
  assume run: "bindp (upsertMarket E l a price c d) f s = (r, t)" and I: "fed ps s"
  obtain x u where u: "upsertMarket E l a price c d s = (x, u)" by fastforce
  have found: "isUuid (m_id m)" if "tfind market_key k (markets s) = Some m" for k m
    using I tfind_SomeD [OF that] by (auto simp: fed_def)
  have "fed ps u \<and> (\<forall>ref. x = Inr ref \<longrightarrow> isUuid ref)"
    using u I found assms(1) by (auto simp: upsertMarket_def Let_def fed_def uuids_def market_row_def split: option.splits)
  then show "fed ps t" using run u stepsD [OF assms(2)] by (cases x) auto
qed

lemma fed_createMarket:
  assumes "uuids E"
  shows "keeps (fed ps) (createMarket E l a)"
proof -
  have cached: "keeps (fed ps) (modp (\<lambda>s. s\<lparr>refCache := (refCache s)(k \<mapsto> ref)\<rparr>))" if "isUuid ref" for k ref
    using that by (auto simp: steps_def fed_def)
  show ?thesis
    unfolding createMarket_def Let_def
    by (intro keeps_order.steps_seqp keeps_order.steps_option keeps_order.steps_if keeps_order.steps_throw
        keeps_order.steps_ret keeps_order.steps_bindp [of _ "gets f" for f] keeps_order.steps_gets
        fed_upsert_bind assms cached fed_parts; assumption)
qed

lemma fed_announce:
  assumes "case ref of None \<Rightarrow> True | Some r \<Rightarrow> isUuid r"
  shows "keeps (fed ps) (announceResolution ref k)"
  using assms unfolding announceResolution_def
  by (cases ref) (simp_all only: option.case, (intro keeps_order.steps_intros fed_parts; assumption)+)

lemma fed_resolution_bind:
  assumes "\<And>address marketId ref. (case ref of None \<Rightarrow> True | Some r \<Rightarrow> isUuid r) \<Longrightarrow> keeps (fed ps) (f (address, marketId, ref))"
  shows "keeps (fed ps) (bindp (resolutionKey m i) f)"
proof (rule stepsI, rule impI)
  fix s r t
  assume run: "bindp (resolutionKey m i) f s = (r, t)" and I: "fed ps s"
  let ?ref = "map_option m_id (tfind market_key (lower m, i) (markets s))"
  have "case ?ref of None \<Rightarrow> True | Some x \<Rightarrow> isUuid x"
    using I by (auto simp: fed_def split: option.split dest!: tfind_SomeD)
  from stepsD [OF assms [OF this]] run I show "fed ps t" by (auto simp: resolutionKey_def)
qed

lemma fed_updateProposal: "keeps (fed ps) (updateProposal k f)"
  unfolding updateProposal_def by (rule fed_parts)

lemma fed_applyResolver: "keeps (fed ps) (applyResolver l ev)"
  by (cases ev; simp only: applyResolver.simps keeps_order.steps_ret onProposed_def onDisputed_def onFinalized_def
      onArbitrated_def onSlashed_def onResolutionCleared_def Let_def)
    (rule fed_resolution_bind; simp only: prod.case;
     intro keeps_order.steps_option keeps_order.steps_throw keeps_order.steps_seqp fed_updateProposal fed_parts fed_announce; assumption)+

lemma fed_applyBlocklist: "keeps (fed ps) (applyBlocklist l ev)"
proof -
  have "steps (\<lambda>s t. wire t = wire s) (applyBlocklist l ev)"
    by (rule stepsI, drule stepsD [OF blocklist_applyBlocklist]) (simp add: blocklist_frame_def market_frame_def wire_def)
  then show ?thesis by (rule fed_frame)
qed

lemma fed_applyLog:
  assumes "uuids E"
  shows "keeps (fed ps) (applyLog E l)"
proof (cases "n_kind l")
  case LS_LMSR
  have "keeps (fed ps) (applyEngine E l (n_event l))"
    by (cases "n_event l"; simp only: applyEngine.simps)
      (intro keeps_order.steps_bindp keeps_order.steps_ret fed_createMarket assms fed_onTrade
        fed_onShort fed_payouts fed_onMetadataPublished)+
  with LS_LMSR show ?thesis by (simp add: applyLog_def)
qed (simp_all add: applyLog_def fed_applyResolver fed_applyBlocklist)

lemma fed_refreshPrices:
  assumes "isUuid ref"
  shows "keeps (fed ps) (refreshPrices E logs ref)"
  unfolding refreshPrices_def applyPrices_def
  by (intro keeps_order.steps_intros fed_parts assms) (auto intro: fed_parts assms)

lemma fed_processBatch:
  assumes "uuids E"
  shows "keeps (fed ps) (processBatch E logs)"
proof -
  have "keeps (fed ps) (bindp (gets touched) (\<lambda>refs. forp (refreshPrices E logs) refs))"
  proof (rule stepsI, rule impI)
    fix s r t
    assume run: "bindp (gets touched) (\<lambda>refs. forp (refreshPrices E logs) refs) s = (r, t)" and I: "fed ps s"
    have "keeps (fed ps) (forp (refreshPrices E logs) (touched s))"
      using I by (intro keeps_order.steps_forp fed_refreshPrices) (simp add: fed_def)
    from stepsD [OF this] run I show "fed ps t" by auto
  qed
  moreover have "keeps (fed ps) (modp (\<lambda>s. s\<lparr>touched := []\<rparr>))" by (simp add: steps_def fed_def)
  ultimately show ?thesis unfolding processBatch_def
    by (intro keeps_order.steps_seqp keeps_order.steps_forp fed_applyLog assms)
qed

text \<open>C34. A batch's news reaches the people watching, and nobody else: whatever a batch publishes, whether it completes or
  is broken off, every socket in the room of the message's own market (or in the global room, for a creation)
  gets it exactly once, under the event's name and as the very object that was published.\<close>

theorem batch_news_reaches_its_room:
  assumes "processBatch E logs s = (r, t)" "uuids E" "gateway_up b"
    and "\<forall>m \<in> set (markets s). isUuid (m_id m)" "\<forall>k ref. refCache s k = Some ref \<longrightarrow> isUuid ref"
  shows "\<exists>ms. published t = published s @ ms \<and> (\<forall>x \<in> set ms.
    emitted rs b (g_channel x) (stringify (message_json x)) =
      map (\<lambda>(c, _). (c, event_name (g_event x), message_json x)) (filter (\<lambda>(_, room). room = room_of x) rs))"
proof -
  let ?s = "s\<lparr>touched := []\<rparr>"
  have "fed (published s) ?s" using assms(4,5) by (simp add: fed_def)
  moreover have "processBatch E logs ?s = processBatch E logs s" by (simp add: processBatch_def)
  ultimately have "fed (published s) t" using stepsD [OF fed_processBatch [OF assms(2)]] assms(1) by metis
  then show ?thesis using emitted_to_the_room [OF assms(3)] by (auto simp: fed_def)
qed

definition listed_state :: ep_state where
  "listed_state = (state_with [])\<lparr>markets := [sample_market\<lparr>m_id := sample_ref\<rparr>]\<rparr>"

definition drawing_env :: env where
  "drawing_env = \<lparr>e_keccak = id, e_hexToString = (\<lambda>_. None), e_uuid = (\<lambda>_. sample_ref), e_prices = (\<lambda>_ _. None), e_chainReady = False\<rparr>"

definition voided_news :: rt_message where
  "voided_news = \<lparr>g_channel = marketChannel sample_ref EvMarketStatus, g_event = EvMarketStatus, g_ref = Some sample_ref,
     g_data = DStatus INVALID None, g_ts = 0\<rparr>"

lemma batch_news_reaches_its_room_witness:
  "\<exists>t. processBatch drawing_env [sample_log (MarketInvalidated 7 0)] listed_state = (Inr (), t) \<and> published t = [voided_news] \<and>
     emitted [(3, marketRoom sample_ref), (4, GLOBAL_ROOM)] afterInit (marketChannel sample_ref EvMarketStatus) (stringify (message_json voided_news)) =
       [(3, ''market_status'', message_json voided_news)]"
proof -
  have "\<exists>t. processBatch drawing_env [sample_log (MarketInvalidated 7 0)] listed_state = (Inr (), t) \<and> published t = [voided_news]"
    by (simp add: processBatch_def applyLog_def onInvalidated_def marketRef_def listed_state_def sample_defs Let_def market_key_def
        updateMarket_def invalidate_def publishMarket_def publish_def voided_news_def)
  then obtain t where t: "processBatch drawing_env [sample_log (MarketInvalidated 7 0)] listed_state = (Inr (), t)"
    "published t = [voided_news]" by blast
  have "uuids drawing_env" "\<forall>m \<in> set (markets listed_state). isUuid (m_id m)" "published listed_state = []"
    "\<forall>k ref. refCache listed_state k = Some ref \<longrightarrow> isUuid ref"
    by (simp_all add: uuids_def drawing_env_def listed_state_def state_with_def sample_ref_uuid)
  with batch_news_reaches_its_room [OF t(1) _ gateway_up_afterInit, of "[(3, marketRoom sample_ref), (4, GLOBAL_ROOM)]"] t(2)
  have "emitted [(3, marketRoom sample_ref), (4, GLOBAL_ROOM)] afterInit (g_channel voided_news) (stringify (message_json voided_news)) =
      [(3, event_name (g_event voided_news), message_json voided_news)]"
    using marketRoom_not_global [of sample_ref] by (auto simp: room_of_def voided_news_def simp del: marketRoom_not_global)
  then show ?thesis using t by (simp add: voided_news_def)
qed

end
