(* ===== verification/PoolClient.thy ===== *)
theory PoolClient
  imports PoolServiceProps "HOL-Library.Monad_Syntax"
begin

text \<open>
  The pool's client, as \<open>src/scripts/pool-integration.mjs\<close> drives it and \<open>src/scripts/claim-e2e.mjs\<close>
  repeats it: the notes derived from one root secret, the trees rebuilt from the served leaves, the body of
  a withdrawal, the poll for a leaf and the recovery walk. The hashes, \<open>@zk-kit/lean-imt\<close>, \<open>snarkjs\<close> and
  viem's encodings are not under \<open>src/\<close>: they are the parameters \<open>pool_hashes\<close> and \<open>pool_tools\<close>.
\<close>

section \<open>Notes\<close>

record pool_hashes =
  ph_keccak :: "string \<Rightarrow> int"  \<comment> \<open>\<open>BigInt(keccak256(toBytes(..)))\<close>\<close>
  ph_one :: "int \<Rightarrow> int"
  ph_two :: "int \<Rightarrow> int \<Rightarrow> int"
  ph_three :: "int \<Rightarrow> int \<Rightarrow> int \<Rightarrow> int"

record pool_note =
  n_nullifier :: int
  n_secret :: int

definition FIELD :: int where
  "FIELD = 21888242871839275222246405745257275088548364400416034343698204186575808495617"

definition masters :: "pool_hashes \<Rightarrow> string \<Rightarrow> pool_note" where
  "masters H seed = \<lparr>n_nullifier = ph_keccak H (seed @ '':numera:pool:nullifier:v1'') mod FIELD,
     n_secret = ph_keccak H (seed @ '':numera:pool:secret:v1'') mod FIELD\<rparr>"

definition depositNote :: "pool_hashes \<Rightarrow> pool_note \<Rightarrow> nat \<Rightarrow> pool_note" where
  "depositNote H m i = \<lparr>n_nullifier = ph_two H (n_nullifier m) (int i), n_secret = ph_two H (n_secret m) (int i)\<rparr>"

definition changeNote :: "pool_hashes \<Rightarrow> pool_note \<Rightarrow> nat \<Rightarrow> nat \<Rightarrow> pool_note" where
  "changeNote H m i j = \<lparr>n_nullifier = ph_three H (n_nullifier m) (int i) (int j),
     n_secret = ph_three H (n_secret m) (int i) (int j)\<rparr>"

definition precommitmentOf :: "pool_hashes \<Rightarrow> pool_note \<Rightarrow> int" where
  "precommitmentOf H n = ph_two H (n_nullifier n) (n_secret n)"

definition noteCommitment :: "pool_hashes \<Rightarrow> pool_note \<Rightarrow> int \<Rightarrow> int \<Rightarrow> int" where
  "noteCommitment H n value label = ph_three H value label (precommitmentOf H n)"

text \<open>A client's own deposit, found in leaves that say nothing about who owns what.\<close>

definition ownLeaf :: "pool_hashes \<Rightarrow> pool_note \<Rightarrow> leaf_view list \<Rightarrow> leaf_view option" where
  "ownLeaf H n = List.find (\<lambda>l. lv_kind l = DEPOSIT \<and> lv_precommitment l = Some (dec (precommitmentOf H n)))"

section \<open>Spending\<close>

record merkle_path =
  mp_index :: int
  mp_siblings :: "int list"

record circuit_input =
  ci_withdrawnValue :: int
  ci_stateRoot :: int
  ci_stateTreeDepth :: nat
  ci_aspRoot :: int
  ci_aspTreeDepth :: nat
  ci_context :: int
  ci_label :: int
  ci_existingValue :: int
  ci_existing :: pool_note
  ci_new :: pool_note
  ci_stateSiblings :: "int list"
  ci_stateIndex :: int
  ci_aspSiblings :: "int list"
  ci_aspIndex :: int

text \<open>What \<open>fullProve\<close> answers: points in projective coordinates, and the public signals.\<close>

record snark =
  sk_a :: "string \<times> string \<times> string"
  sk_b :: "(string \<times> string) \<times> (string \<times> string) \<times> (string \<times> string)"
  sk_c :: "string \<times> string \<times> string"
  sk_signals :: "string list"

record pool_tools =
  pt_root :: "int list \<Rightarrow> int"
  pt_indexOf :: "int list \<Rightarrow> int \<Rightarrow> int"
  pt_path :: "int list \<Rightarrow> int \<Rightarrow> merkle_path option"
  pt_prove :: "circuit_input \<Rightarrow> snark option"
  pt_address :: "string \<Rightarrow> string"
  pt_context :: "string \<Rightarrow> string \<Rightarrow> int \<Rightarrow> int"

record client_trees =
  ct_state :: "int list"
  ct_asp :: "int list"
  ct_aspIndex :: int

text \<open>The loop over the served leaves. \<open>BigInt\<close> of a label that is null or malformed throws: \<open>None\<close>.\<close>

fun rebuildTrees :: "string \<Rightarrow> leaf_view list \<Rightarrow> client_trees \<Rightarrow> client_trees option" where
  "rebuildTrees mine [] T = Some T"
| "rebuildTrees mine (l # ls) T = (case bigint_of_string (lv_commitment l) of
     None \<Rightarrow> None
   | Some c \<Rightarrow>
      (let U = T\<lparr>ct_state := ct_state T @ [c]\<rparr> in
       if lv_kind l = DEPOSIT
       then (case lv_label l of None \<Rightarrow> None
         | Some x \<Rightarrow> (case bigint_of_string x of None \<Rightarrow> None
           | Some label \<Rightarrow> rebuildTrees mine ls
               (U\<lparr>ct_aspIndex := (if lv_commitment l = mine then int (length (ct_asp U)) else ct_aspIndex U),
                  ct_asp := ct_asp U @ [label]\<rparr>)))
       else rebuildTrees mine ls U))"

definition no_trees :: client_trees where
  "no_trees = \<lparr>ct_state = [], ct_asp = [], ct_aspIndex = -1\<rparr>"

definition MAX_DEPTH :: nat where
  "MAX_DEPTH = 32"

text \<open>\<open>Array(n)\<close> of a negative length throws.\<close>

definition pad_path :: "int list \<Rightarrow> int list option" where
  "pad_path s = (if MAX_DEPTH < length s then None else Some (s @ replicate (MAX_DEPTH - length s) 0))"

text \<open>The coordinates of the second point are swapped for the contract.\<close>

definition solidityProof :: "snark \<Rightarrow> pool_proof" where
  "solidityProof k = (case (sk_a k, sk_b k, sk_c k) of ((a0, a1, _), ((b00, b01), (b10, b11), _), (c0, c1, _)) \<Rightarrow>
     \<lparr>pf_pA = [a0, a1], pf_pB = [[b01, b00], [b11, b10]], pf_pC = [c0, c1], pf_signals = sk_signals k\<rparr>)"

definition withdrawalContext :: "pool_tools \<Rightarrow> string \<Rightarrow> string \<Rightarrow> int \<Rightarrow> int" where
  "withdrawalContext T entrypoint data scope = pt_context T entrypoint data scope mod FIELD"

text \<open>The body of \<open>POST /api/pool/withdraw\<close> for the note at a leaf of the view; \<open>None\<close> where the script throws.\<close>

definition withdrawalFrom ::
  "pool_hashes \<Rightarrow> pool_tools \<Rightarrow> pool_note \<Rightarrow> string \<Rightarrow> int \<Rightarrow> int \<Rightarrow> string \<Rightarrow> string \<Rightarrow> leaf_view list \<Rightarrow> leaf_view \<Rightarrow> withdraw_dto option" where
  "withdrawalFrom H T keys recipient value withdrawn entrypoint scope_text leaves mine =
     (let own = depositNote H keys 0; change = changeNote H keys 0 1; data = pt_address T recipient in do {
       R \<leftarrow> rebuildTrees (lv_commitment mine) leaves no_trees;
       scope \<leftarrow> bigint_of_string scope_text;
       commitment \<leftarrow> bigint_of_string (lv_commitment mine);
       sp \<leftarrow> pt_path T (ct_state R) (pt_indexOf T (ct_state R) commitment);
       ap \<leftarrow> pt_path T (ct_asp R) (ct_aspIndex R);
       label \<leftarrow> Option.bind (lv_label mine) bigint_of_string;
       stateSiblings \<leftarrow> pad_path (mp_siblings sp);
       aspSiblings \<leftarrow> pad_path (mp_siblings ap);
       k \<leftarrow> pt_prove T
         \<lparr>ci_withdrawnValue = withdrawn, ci_stateRoot = pt_root T (ct_state R), ci_stateTreeDepth = length (mp_siblings sp),
          ci_aspRoot = pt_root T (ct_asp R), ci_aspTreeDepth = length (mp_siblings ap),
          ci_context = withdrawalContext T entrypoint data scope, ci_label = label, ci_existingValue = value,
          ci_existing = own, ci_new = change, ci_stateSiblings = stateSiblings, ci_stateIndex = mp_index sp,
          ci_aspSiblings = aspSiblings, ci_aspIndex = mp_index ap\<rparr>;
       Some \<lparr>wd_processooor = entrypoint, wd_data = data, wd_proof = solidityProof k\<rparr> })"

text \<open>From the view read first and the view read after the deposit.\<close>

definition withdrawalBody ::
  "pool_hashes \<Rightarrow> pool_tools \<Rightarrow> pool_note \<Rightarrow> string \<Rightarrow> int \<Rightarrow> int \<Rightarrow> pool_view \<Rightarrow> pool_view \<Rightarrow> withdraw_dto option" where
  "withdrawalBody H T keys recipient value withdrawn first_view view =
     Option.bind (ownLeaf H (depositNote H keys 0) (pv_leaves view))
       (withdrawalFrom H T keys recipient value withdrawn (pv_entrypoint first_view) (pv_scope first_view) (pv_leaves view))"

text \<open>\<open>waitForLeaves\<close>: at most sixty answers of the state endpoint are looked at. An error's body has no
  \<open>synced\<close>, so the poll goes on; a request that fails ends it, as does the sixtieth answer.\<close>

datatype polled = Unreachable | ErrorBody | StateBody pool_view

fun pollLeaves :: "(nat \<Rightarrow> polled) \<Rightarrow> nat \<Rightarrow> nat list \<Rightarrow> pool_view option" where
  "pollLeaves answer wanted [] = None"
| "pollLeaves answer wanted (n # ns) = (case answer n of
     Unreachable \<Rightarrow> None
   | ErrorBody \<Rightarrow> pollLeaves answer wanted ns
   | StateBody v \<Rightarrow> if pv_synced v \<and> wanted \<le> length (pv_leaves v) then Some v else pollLeaves answer wanted ns)"

definition waitForLeaves :: "(nat \<Rightarrow> polled) \<Rightarrow> nat \<Rightarrow> pool_view option" where
  "waitForLeaves answer wanted = pollLeaves answer wanted [0..<60]"

section \<open>The recovery walk\<close>

text \<open>\<open>new Map(..)\<close> over the change leaves: a later leaf replaces an earlier one of the same key.\<close>

definition spentBy :: "leaf_view list \<Rightarrow> string option \<Rightarrow> leaf_view option" where
  "spentBy leaves = foldl (\<lambda>m l. m(lv_spent l \<mapsto> l)) (\<lambda>_. None) (filter (\<lambda>l. lv_kind l = CHANGE) leaves)"

text \<open>The inner loop has no bound of its own: \<open>None\<close> would be a walk that does not return.\<close>

partial_function (option) walkSpends ::
  "pool_hashes \<Rightarrow> pool_note \<Rightarrow> (string option \<Rightarrow> leaf_view option) \<Rightarrow> nat \<Rightarrow> nat \<Rightarrow> pool_note \<Rightarrow> int \<Rightarrow> (pool_error + int) option" where
  "walkSpends H m spent i j current held =
     (case spent (Some (dec (ph_one H (n_nullifier current)))) of
        None \<Rightarrow> Some (Inr held)
      | Some spend \<Rightarrow> (case bigint_of_string (lv_value spend) of
          None \<Rightarrow> Some (Inl BadNumber)
        | Some v \<Rightarrow> walkSpends H m spent i (Suc j) (changeNote H m i j) (held - v)))"

definition recoverNote ::
  "pool_hashes \<Rightarrow> pool_note \<Rightarrow> leaf_view list \<Rightarrow> nat \<Rightarrow> (pool_error + int list) option" where
  "recoverNote H m leaves i = (case ownLeaf H (depositNote H m i) leaves of
     None \<Rightarrow> Some (Inr [])
   | Some leaf \<Rightarrow> (case bigint_of_string (lv_value leaf) of
       None \<Rightarrow> Some (Inl BadNumber)
     | Some v \<Rightarrow> (case walkSpends H m (spentBy leaves) i 1 (depositNote H m i) v of
         None \<Rightarrow> None
       | Some (Inl e) \<Rightarrow> Some (Inl e)
       | Some (Inr held) \<Rightarrow> Some (Inr (if 0 < held then [held] else [])))))"

fun recoverNotes ::
  "pool_hashes \<Rightarrow> pool_note \<Rightarrow> leaf_view list \<Rightarrow> nat list \<Rightarrow> (pool_error + int list) option" where
  "recoverNotes H m leaves [] = Some (Inr [])"
| "recoverNotes H m leaves (i # is) = (case recoverNote H m leaves i of
     None \<Rightarrow> None
   | Some (Inl e) \<Rightarrow> Some (Inl e)
   | Some (Inr xs) \<Rightarrow> (case recoverNotes H m leaves is of
       None \<Rightarrow> None
     | Some (Inl e) \<Rightarrow> Some (Inl e)
     | Some (Inr ys) \<Rightarrow> Some (Inr (xs @ ys))))"

definition recoveredTotal :: "pool_hashes \<Rightarrow> string \<Rightarrow> leaf_view list \<Rightarrow> (pool_error + int) option" where
  "recoveredTotal H seed leaves = map_option (map_sum id sum_list) (recoverNotes H (masters H seed) leaves [0..<4])"

end
