(* ===== verification/PoolClientProps.thy ===== *)
theory PoolClientProps
  imports PoolClient
begin

text \<open>
  The client against the mirror: a proof built from a served view is accepted while fewer than thirty-two
  further deposits were indexed, and the balance of a root secret is rebuilt from the served leaves alone.
\<close>

section \<open>The mirror only grows\<close>

lemma poolTick_grows:
  assumes "poolTick C R s = (r, t)" "1 \<le> pc_batchBlocks C"
  shows "poolNextFromBlock C s \<le> poolNextFromBlock C t \<and> (caughtUp s \<longrightarrow> caughtUp t)"
proof -
  have cursor: "poolNextFromBlock C (u\<lparr>caughtUp := b\<rparr>) = poolNextFromBlock C u" for u :: pool_state and b
    by (simp add: poolNextFromBlock_def)
  have kept: "caughtUp (commitPage rows to s) = caughtUp s" for rows to by (simp add: commitPage_def)
  show ?thesis
    using assms by (auto simp: poolTick_def Let_def pool_cursor_saved cursor kept split: option.splits if_splits)
qed

lemma pool_ticks_grows:
  assumes "pool_ticks C hist s t" "1 \<le> pc_batchBlocks C"
  shows "poolNextFromBlock C s \<le> poolNextFromBlock C t \<and> (caughtUp s \<longrightarrow> caughtUp t)"
  using assms
proof (induction rule: pool_ticks.induct)
  case (tick t R r u)
  then show ?case using poolTick_grows [OF tick.hyps(3) tick.prems] by auto
qed simp

lemma chainLeaves_none: "\<forall>l \<in> set hist. t < pl_block l \<Longrightarrow> chainLeaves hist f t = []"
  by (auto simp: chainLeaves_def List.map_filter_def filter_empty_conv)

lemma chainLeaves_Cons:
  "chainLeaves (l # hist) f t =
     (if f \<le> pl_block l \<and> pl_block l \<le> t then (case toLeaf l of None \<Rightarrow> [] | Some a \<Rightarrow> [a]) else []) @ chainLeaves hist f t"
  by (simp add: chainLeaves_def List.map_filter_simps split: option.splits)

lemma chainLeaves_extends:
  assumes "in_chain_order hist" "m \<le> n"
  shows "\<exists>more. chainLeaves hist f n = chainLeaves hist f m @ more"
  using assms(1)
proof (induction hist)
  case (Cons l hist)
  then obtain more where more: "chainLeaves hist f n = chainLeaves hist f m @ more" by (auto simp: in_chain_order_def)
  show ?case
  proof (cases "pl_block l \<le> m")
    case True
    then show ?thesis using more assms(2) by (simp add: chainLeaves_Cons)
  next
    case False
    then have "\<forall>k \<in> set (l # hist). m < pl_block k" using Cons.prems by (auto simp: in_chain_order_def)
    then show ?thesis using chainLeaves_none by simp
  qed
qed (simp add: chainLeaves_def List.map_filter_simps)

lemma mirror_grows:
  assumes "pool_ticks C hist s t" "pool_keyed hist" "in_chain_order hist" "1 \<le> pc_batchBlocks C" "mirrors C hist s"
  shows "\<exists>more. leavesInOrder t = leavesInOrder s @ more"
proof -
  have "mirrors C hist t" by (rule pool_ticks_mirrors [OF assms(1,2,4,5)])
  then show ?thesis
    using chainLeaves_extends [OF assms(3), of "poolNextFromBlock C s - 1" "poolNextFromBlock C t - 1"]
      pool_ticks_grows [OF assms(1,4)]
    by (simp add: leavesInOrder_chain [OF assms(2,3) assms(5)] leavesInOrder_chain [OF assms(2,3) \<open>mirrors C hist t\<close>])
qed

lemma mirrors_empty: "poolLeaves s = [] \<Longrightarrow> cursors s = [] \<Longrightarrow> mirrors C hist s"
  by (simp add: mirrors_def poolNextFromBlock_def chainLeaves_def List.map_filter_def)

section \<open>The client's trees are the backend's\<close>

lemma leafView_simps [simp]:
  "lv_kind (leafView i l) = l_kind l" "lv_commitment (leafView i l) = l_commitment l"
  "lv_label (leafView i l) = l_label l" "lv_value (leafView i l) = l_value l"
  "lv_precommitment (leafView i l) = l_precommitment l" "lv_spent (leafView i l) = l_spent l"
  by (simp_all add: leafView_def)

lemma leafRow_simps [simp]:
  "lf_kind (leafRow l) = l_kind l" "lf_commitment (leafRow l) = l_commitment l" "lf_label (leafRow l) = l_label l"
  by (simp_all add: leafRow_def)

definition chain_rows :: "pool_leaf list \<Rightarrow> bool" where
  "chain_rows rows \<longleftrightarrow> (\<forall>r \<in> set rows. \<exists>l. toLeaf l = Some r)"

lemma chain_rows_chainLeaves: "chain_rows (chainLeaves hist f t)"
  by (auto simp: chain_rows_def set_chainLeaves)

lemma chain_row_cases:
  assumes "chain_rows (r # rows)"
  obtains (deposit) c x v p where "l_kind r = DEPOSIT" "l_commitment r = dec c" "l_label r = Some (dec x)"
      "l_value r = dec v" "l_precommitment r = Some (dec p)" "chain_rows rows"
    | (change) c v k where "l_kind r = CHANGE" "l_commitment r = dec c" "l_label r = None"
      "l_value r = dec v" "l_spent r = Some (dec k)" "chain_rows rows"
proof -
  obtain l where l: "toLeaf l = Some r" and rows: "chain_rows rows" using assms by (auto simp: chain_rows_def)
  show thesis
  proof (cases "pl_event l")
    case (Deposited c x v p)
    then show thesis using l rows by (intro deposit [of c x v p]) (auto simp: toLeaf_def)
  next
    case (Withdrawn c v k)
    then show thesis using l rows by (intro change [of c v k]) (auto simp: toLeaf_def)
  next
    case (PoolOther x)
    then show thesis using l by (simp add: toLeaf_def)
  qed
qed

definition labelsOf :: "pool_leaf list \<Rightarrow> int list" where
  "labelsOf rows = List.map_filter (\<lambda>r. map_option (\<lambda>x. the (bigint_of_string x)) (l_label r)) rows"

lemma labelsOf_simps:
  "labelsOf [] = []"
  "labelsOf (r # rows) = (case l_label r of None \<Rightarrow> [] | Some x \<Rightarrow> [the (bigint_of_string x)]) @ labelsOf rows"
  by (auto simp: labelsOf_def List.map_filter_simps split: option.splits)

lemma labelsOf_append: "labelsOf (xs @ ys) = labelsOf xs @ labelsOf ys"
  by (induction xs) (simp_all add: labelsOf_simps)

lemma backend_labels: "chain_rows rows \<Longrightarrow> buildAspTree (map leafRow rows) = Some (labelsOf rows)"
proof (induction rows)
  case (Cons r rows)
  show ?case using Cons.prems
    by (cases rule: chain_row_cases) (simp_all add: Cons.IH labelsOf_simps)
qed (simp add: labelsOf_simps)

lemma length_labelsOf: "chain_rows rows \<Longrightarrow> length (labelsOf rows) = length (filter (\<lambda>l. l_kind l = DEPOSIT) rows)"
proof (induction rows)
  case (Cons r rows)
  show ?case using Cons.prems
    by (cases rule: chain_row_cases) (simp_all add: Cons.IH labelsOf_simps)
qed (simp add: labelsOf_simps)

lemma rebuilt_trees:
  assumes "chain_rows rows"
  shows "\<exists>R. rebuildTrees mine (map (\<lambda>(i, l). leafView i l) (enumerate n rows)) T = Some R \<and>
    ct_asp R = ct_asp T @ labelsOf rows \<and> ct_state R = ct_state T @ map (\<lambda>r. the (bigint_of_string (l_commitment r))) rows"
  using assms
proof (induction rows arbitrary: n T)
  case (Cons r rows)
  show ?case using Cons.prems
  proof (cases rule: chain_row_cases)
    case (deposit c x v p)
    then show ?thesis
      using Cons.IH [of "Suc n" "T\<lparr>ct_state := ct_state T @ [c],
          ct_aspIndex := (if dec c = mine then int (length (ct_asp T)) else ct_aspIndex T), ct_asp := ct_asp T @ [x]\<rparr>"]
      by (auto simp: labelsOf_simps Let_def split: if_splits)
  next
    case (change c v k)
    then show ?thesis
      using Cons.IH [of "Suc n" "T\<lparr>ct_state := ct_state T @ [c]\<rparr>"]
      by (simp add: labelsOf_simps Let_def)
  qed
qed (simp add: labelsOf_simps)

section \<open>What the backend serves\<close>

lemma poolState_view:
  assumes "poolState rootOf P E cached s = Inr view" "pv_enabled view"
  shows "pv_leaves view = map (\<lambda>(i, l). leafView i l) (enumerate 0 (leavesInOrder s))"
    and "pv_synced view = caughtUp s" and "ps_entrypoint P = Some (pv_entrypoint view)"
  using assms by (auto simp: poolState_def poolEnabled_def Let_def split: if_splits option.splits)

text \<open>What the client relies on of \<open>snarkjs\<close>: the coordinates and signals are decimal strings, and the
  sixth public signal is the association root the proof was made for.\<close>

definition honest_prover :: "pool_tools \<Rightarrow> bool" where
  "honest_prover T \<longleftrightarrow> (\<forall>inp k. pt_prove T inp = Some k \<longrightarrow>
     (\<exists>a0 a1 b00 b01 b10 b11 c0 c1 az bz cz sg. sk_a k = (dec a0, dec a1, az) \<and>
        sk_b k = ((dec b00, dec b01), (dec b10, dec b11), bz) \<and> sk_c k = (dec c0, dec c1, cz) \<and>
        sk_signals k = map dec sg \<and> length sg = 8 \<and> sg ! PUB_SIGNAL_aspRoot = ci_aspRoot inp))"

lemma bigints_dec [simp]: "bigints (map dec xs) = Some xs"
  by (induction xs) simp_all

lemma honest_body:
  assumes "honest_prover T" "pt_prove T inp = Some k"
  shows "\<exists>sg proof. bigints (pf_signals (solidityProof k)) = Some sg \<and> PUB_SIGNAL_aspRoot < length sg \<and>
    sg ! PUB_SIGNAL_aspRoot = ci_aspRoot inp \<and> bigProof (solidityProof k) sg = Some proof"
proof -
  obtain a0 a1 b00 b01 b10 b11 c0 c1 az bz cz sg where k: "sk_a k = (dec a0, dec a1, az)"
    "sk_b k = ((dec b00, dec b01), (dec b10, dec b11), bz)" "sk_c k = (dec c0, dec c1, cz)"
    "sk_signals k = map dec sg" "length sg = 8" "sg ! PUB_SIGNAL_aspRoot = ci_aspRoot inp"
    using assms unfolding honest_prover_def by (elim allE [of _ inp] allE [of _ k] impE exE conjE)
  have "bigProof (solidityProof k) sg = Some \<lparr>bp_pA = (a0, a1), bp_pB = ((b01, b00), (b11, b10)), bp_pC = (c0, c1), bp_signals = sg\<rparr>"
    by (simp add: k solidityProof_def bigProof_def bigint_pair_def)
  then show ?thesis using k by (simp add: solidityProof_def PUB_SIGNAL_aspRoot_def)
qed

lemma withdrawalBody_made:
  assumes "withdrawalBody H T keys recipient value withdrawn first_view view = Some dto"
  shows "\<exists>mine R inp k. ownLeaf H (depositNote H keys 0) (pv_leaves view) = Some mine \<and>
    rebuildTrees (lv_commitment mine) (pv_leaves view) no_trees = Some R \<and> ci_aspRoot inp = pt_root T (ct_asp R) \<and>
    pt_prove T inp = Some k \<and> wd_proof dto = solidityProof k \<and> wd_processooor dto = pv_entrypoint first_view"
  using assms unfolding withdrawalBody_def withdrawalFrom_def Let_def
  by (auto simp: bind_eq_Some_conv) (metis circuit_input.select_convs(4))

section \<open>A sample pool\<close>

definition client_hashes :: pool_hashes where
  "client_hashes = \<lparr>ph_keccak = int \<circ> length, ph_one = id, ph_two = (+), ph_three = (\<lambda>a b c. 1000 * a + 10 * b + c)\<rparr>"

definition client_tools :: pool_tools where
  "client_tools = \<lparr>pt_root = sum_list, pt_indexOf = (\<lambda>_ _. 0), pt_path = (\<lambda>_ _. Some \<lparr>mp_index = 0, mp_siblings = [0]\<rparr>),
     pt_prove = (\<lambda>inp. Some \<lparr>sk_a = (dec 1, dec 2, dec 1), sk_b = ((dec 3, dec 4), (dec 5, dec 6), (dec 1, dec 0)),
       sk_c = (dec 7, dec 8, dec 1),
       sk_signals = map dec [1, 2, ci_withdrawnValue inp, ci_stateRoot inp, 1, ci_aspRoot inp, 1, ci_context inp]\<rparr>),
     pt_address = id, pt_context = (\<lambda>_ _ scope. scope)\<rparr>"

text \<open>A deposit of 5 under the keys of the empty secret, a spend of 2 from it, and a stranger's deposit.\<close>

definition client_hist :: "pool_log list" where
  "client_hist =
     [\<lparr>pl_event = Deposited 11 21 5 47, pl_block = 6, pl_tx = ''0xA'', pl_index = 0\<rparr>,
      \<lparr>pl_event = Withdrawn 12 2 25, pl_block = 7, pl_tx = ''0xB'', pl_index = 0\<rparr>,
      \<lparr>pl_event = Deposited 13 22 9 99, pl_block = 8, pl_tx = ''0xC'', pl_index = 0\<rparr>]"

definition client_rpc :: pool_rpc where
  "client_rpc = \<lparr>pr_head = Some 10,
     pr_logs = (\<lambda>f t. Some (filter (\<lambda>l. f \<le> pl_block l \<and> pl_block l \<le> t) client_hist)), pr_commits = True\<rparr>"

definition client_mirror :: pool_state where
  "client_mirror = (commitPage (poolRows client_hist) 9 empty_pool)\<lparr>caughtUp := True\<rparr>"

lemma client_hist_ok: "pool_serves client_rpc client_hist" "pool_keyed client_hist" "in_chain_order client_hist"
proof -
  show "pool_serves client_rpc client_hist" by (auto simp: pool_serves_def client_rpc_def)
  have "lower ''0xA'' = ''0xa''" "lower ''0xB'' = ''0xb''" "lower ''0xC'' = ''0xc''" by code_simp+
  then show "pool_keyed client_hist" by (simp add: pool_keyed_def client_hist_def)
  show "in_chain_order client_hist" by (simp add: in_chain_order_def client_hist_def)
qed

lemma client_run:
  "pool_ticks sample_pool_config client_hist empty_pool client_mirror"
  "poolNextFromBlock sample_pool_config client_mirror = 10"
proof -
  obtain r t where t: "poolTick sample_pool_config client_rpc empty_pool = (r, t)" by fastforce
  have "poolNextFromBlock sample_pool_config empty_pool = 5"
    by (simp add: poolNextFromBlock_def empty_pool_def sample_pool_config_def)
  then have "t = client_mirror"
    using t by (simp add: poolTick_def client_rpc_def sample_pool_config_def poolSafeHead_def client_hist_def
        client_mirror_def Let_def)
  then show "pool_ticks sample_pool_config client_hist empty_pool client_mirror"
    using pool_ticks.tick [OF pool_ticks.start client_hist_ok(1)] t by blast
  show "poolNextFromBlock sample_pool_config client_mirror = 10"
    using pool_cursor_saved [of sample_pool_config "poolRows client_hist" 9 empty_pool]
    by (simp add: client_mirror_def poolNextFromBlock_def)
qed

lemma sample_start: "pc_startBlock sample_pool_config = 5"
  by (simp add: sample_pool_config_def)

lemma empty_pool_tables: "poolLeaves empty_pool = []" "cursors empty_pool = []"
  by (simp_all add: empty_pool_def)

lemma client_leaves: "leavesInOrder client_mirror = List.map_filter toLeaf client_hist"
proof -
  have "mirrors sample_pool_config client_hist client_mirror"
    by (rule pool_ticks_mirrors [OF client_run(1) client_hist_ok(2) sample_pool_ok(4) mirrors_empty [OF empty_pool_tables]])
  from leavesInOrder_chain [OF client_hist_ok(2,3) this] show ?thesis
    by (simp add: client_run(2) sample_start chainLeaves_def client_hist_def)
qed

lemma client_view:
  "\<exists>view. poolState sum_list sample_pool_service sample_pool_env None client_mirror = Inr view \<and> pv_enabled view \<and>
     pv_synced view \<and> pv_leaves view = map (\<lambda>(i, l). leafView i l) (enumerate 0 (List.map_filter toLeaf client_hist)) \<and>
     pv_scope view = dec 1"
proof -
  have "caughtUp client_mirror" by (simp add: client_mirror_def)
  moreover have "buildAspTree (map leafRow (leavesInOrder client_mirror)) = Some [21, 22]"
    by (simp add: client_leaves client_hist_def List.map_filter_simps toLeaf_def)
  ultimately show ?thesis
    by (simp add: poolState_def poolEnabled_def sample_pool_service_def sample_pool_env_def client_leaves readScope_def Let_def)
qed

section \<open>Accepted proofs\<close>

lemma nth_in_drop: "k \<le> n \<Longrightarrow> n < length xs \<Longrightarrow> xs ! n \<in> set (drop k xs)"
  using nth_mem [of "n - k" "drop k xs"] by simp

lemma recent_root:
  assumes "buildAspTree leaves = Some (labels @ added)" "labels \<noteq> []" "length added < d"
  shows "\<exists>known. aspRootHistory rootOf leaves d = Some known \<and> rootOf labels \<in> set known"
proof -
  let ?all = "map (\<lambda>n. rootOf (take (Suc n) (labels @ added))) [0..<length (labels @ added)]"
  let ?n = "length labels - 1"
  have n: "?n < length (labels @ added)" using assms(2) by (cases labels) simp_all
  have len: "Suc ?n = length labels" using assms(2) by (cases labels) simp_all
  have "?all ! ?n = rootOf (take (Suc ?n) (labels @ added))" using n by (simp only: nth_map_upt length_map length_upt diff_zero add_0_left)
  then have "?all ! ?n = rootOf labels" unfolding len by simp
  moreover have "?all ! ?n \<in> set (drop (length ?all - d) ?all)"
    using n assms(3) by (intro nth_in_drop) simp_all
  ultimately have "rootOf labels \<in> set (slice_last d ?all)"
    using assms(3) by (simp add: slice_last_def)
  then show ?thesis using assms(1) by (simp add: aspRootHistory_def asp_roots_prefixes)
qed

lemma accepted_when_recent:
  assumes "buildAspTree (map leafRow (leavesInOrder u)) = Some (labels @ added)" "labels \<noteq> []" "length added < 32"
    and "caughtUp u" "poolEnabled P E" "ps_entrypoint P = Some entry" "lower (wd_processooor dto) = lower entry"
    and "bigints (pf_signals (wd_proof dto)) = Some sg" "PUB_SIGNAL_aspRoot < length sg"
    and "sg ! PUB_SIGNAL_aspRoot = rootOf labels" "bigProof (wd_proof dto) sg = Some proof"
  shows "withdrawChecks rootOf P E dto u = Inr (entry, rootOf labels, proof)"
proof -
  obtain known where "aspRootHistory rootOf (map leafRow (leavesInOrder u)) 32 = Some known" "rootOf labels \<in> set known"
    using recent_root [OF assms(1-3)] by blast
  then show ?thesis using assms(4-11) by (simp add: withdrawChecks_def)
qed

lemma enumerate_views: "l \<in> set (map (\<lambda>(i, l). leafView i l) (enumerate n rows)) \<Longrightarrow> \<exists>i. \<exists>r \<in> set rows. l = leafView i r"
proof -
  assume "l \<in> set (map (\<lambda>(i, l). leafView i l) (enumerate n rows))"
  then obtain i r where ir: "(i, r) \<in> set (enumerate n rows)" "l = leafView i r" by auto
  have "snd (i, r) \<in> snd ` set (enumerate n rows)" using ir(1) by (rule imageI)
  then have "r \<in> set (map snd (enumerate n rows))" by (simp only: set_map snd_conv)
  then show ?thesis using ir(2) by auto
qed

lemma own_label:
  assumes "ownLeaf H n (map (\<lambda>(i, l). leafView i l) (enumerate 0 rows)) = Some mine" "chain_rows rows"
  shows "labelsOf rows \<noteq> []"
proof -
  have "mine \<in> set (map (\<lambda>(i, l). leafView i l) (enumerate 0 rows))" "lv_kind mine = DEPOSIT"
    using assms(1) by (auto simp: ownLeaf_def find_Some_iff)
  then obtain i r where r: "r \<in> set rows" "mine = leafView i r" using enumerate_views by blast
  then have "0 < length (filter (\<lambda>l. l_kind l = DEPOSIT) rows)"
    using \<open>lv_kind mine = DEPOSIT\<close> by (auto simp: filter_empty_conv)
  then show ?thesis using length_labelsOf [OF assms(2)] by auto
qed

text \<open>C9. A withdrawal made from a served view is accepted: the client rebuilds the association set from the
  leaves it was served, and the body it posts passes every check of \<open>withdraw\<close> under the root of that set,
  whatever ticks the leaf indexer made meanwhile, as long as fewer than thirty-two further deposits were indexed.\<close>

theorem served_proof_is_accepted:
  assumes "pool_ticks C hist s t" "pool_ticks C hist t u" "pool_keyed hist" "in_chain_order hist" "1 \<le> pc_batchBlocks C"
    and "poolLeaves s = []" "cursors s = []"
    and "poolState (pt_root T) P E cached t = Inr view" "pv_enabled view" "pv_synced view"
    and "pv_entrypoint first_view = pv_entrypoint view" "honest_prover T"
    and "withdrawalBody H T keys recipient value withdrawn first_view view = Some dto"
    and "poolEnabled P F"
    and "length (filter (\<lambda>l. l_kind l = DEPOSIT) (leavesInOrder u)) < length (filter (\<lambda>l. l_kind l = DEPOSIT) (leavesInOrder t)) + 32"
  shows "\<exists>labels pf. buildAspTree (map leafRow (leavesInOrder t)) = Some labels \<and>
    withdrawChecks (pt_root T) P F dto u = Inr (pv_entrypoint view, pt_root T labels, pf)"
proof -
  have mt: "mirrors C hist t" by (rule pool_ticks_mirrors [OF assms(1,3,5) mirrors_empty [OF assms(6,7)]])
  then have mu: "mirrors C hist u" by (rule pool_ticks_mirrors [OF assms(2,3,5)])
  have rows: "chain_rows (leavesInOrder t)" "chain_rows (leavesInOrder u)"
    using leavesInOrder_chain [OF assms(3,4)] mt mu chain_rows_chainLeaves by simp_all
  obtain later where later: "leavesInOrder u = leavesInOrder t @ later"
    using mirror_grows [OF assms(2-5) mt] by blast
  let ?labels = "labelsOf (leavesInOrder t)"
  have tu: "buildAspTree (map leafRow (leavesInOrder u)) = Some (?labels @ labelsOf later)"
    using backend_labels [OF rows(2)] by (simp add: later labelsOf_append)
  have few: "length (labelsOf later) < 32"
    using length_labelsOf [OF rows(1)] length_labelsOf [OF rows(2)] assms(15) by (simp add: later labelsOf_append)
  note view = poolState_view [OF assms(8,9)]
  obtain mine R inp k where body: "ownLeaf H (depositNote H keys 0) (pv_leaves view) = Some mine"
    "rebuildTrees (lv_commitment mine) (pv_leaves view) no_trees = Some R" "ci_aspRoot inp = pt_root T (ct_asp R)"
    "pt_prove T inp = Some k" "wd_proof dto = solidityProof k" "wd_processooor dto = pv_entrypoint first_view"
    using withdrawalBody_made [OF assms(13)] by blast
  have R: "ct_asp R = ?labels"
    using rebuilt_trees [OF rows(1), of "lv_commitment mine" 0 no_trees] body(2) view(1) by (auto simp: no_trees_def)
  obtain sg pf where ok: "bigints (pf_signals (wd_proof dto)) = Some sg" "PUB_SIGNAL_aspRoot < length sg"
    "sg ! PUB_SIGNAL_aspRoot = pt_root T ?labels" "bigProof (wd_proof dto) sg = Some pf"
    using honest_body [OF assms(12) body(4)] body(3,5) R by auto
  have "caughtUp u" using pool_ticks_grows [OF assms(2,5)] view(2) assms(10) by simp
  then have "withdrawChecks (pt_root T) P F dto u = Inr (pv_entrypoint view, pt_root T ?labels, pf)"
    using own_label [OF body(1) [unfolded view(1)] rows(1)] assms(11)
    by (intro accepted_when_recent [where rootOf = "pt_root T", OF tu _ few _ assms(14) view(3) _ ok]) (simp_all add: body(6))
  then show ?thesis using backend_labels [OF rows(1)] by blast
qed

lemma served_proof_is_accepted_witness:
  "\<exists>view dto pf. poolState sum_list sample_pool_service sample_pool_env None client_mirror = Inr view \<and>
     withdrawalBody client_hashes client_tools (masters client_hashes []) ''0xm'' 5 2 view view = Some dto \<and>
     withdrawChecks sum_list sample_pool_service sample_pool_env dto client_mirror = Inr (pv_entrypoint view, 43, pf)"
proof -
  obtain view where view: "poolState sum_list sample_pool_service sample_pool_env None client_mirror = Inr view"
    "pv_enabled view" "pv_synced view"
    "pv_leaves view = map (\<lambda>(i, l). leafView i l) (enumerate 0 (List.map_filter toLeaf client_hist))" "pv_scope view = dec 1"
    using client_view by blast
  have tools: "pt_root client_tools = sum_list" by (simp add: client_tools_def)
  have honest: "honest_prover client_tools"
    unfolding honest_prover_def client_tools_def
    by (auto simp: PUB_SIGNAL_aspRoot_def
        intro!: exI [of _ "[1, 2, ci_withdrawnValue inp, ci_stateRoot inp, 1, ci_aspRoot inp, 1, ci_context inp]" for inp])
  have enabled: "poolEnabled sample_pool_service sample_pool_env"
    by (simp add: poolEnabled_def sample_pool_service_def sample_pool_env_def)
  have "\<exists>dto. withdrawalBody client_hashes client_tools (masters client_hashes []) ''0xm'' 5 2 view view = Some dto"
    by (simp add: withdrawalBody_def withdrawalFrom_def view client_hist_def List.map_filter_simps toLeaf_def ownLeaf_def leafView_def
        masters_def client_hashes_def depositNote_def precommitmentOf_def FIELD_def no_trees_def client_tools_def
        pad_path_def MAX_DEPTH_def Let_def)
  then obtain dto where dto: "withdrawalBody client_hashes client_tools (masters client_hashes []) ''0xm'' 5 2 view view = Some dto" by blast
  have labels: "buildAspTree (map leafRow (leavesInOrder client_mirror)) = Some [21, 22]"
    by (simp add: client_leaves client_hist_def List.map_filter_simps toLeaf_def)
  have "\<exists>labels pf. buildAspTree (map leafRow (leavesInOrder client_mirror)) = Some labels \<and>
      withdrawChecks (pt_root client_tools) sample_pool_service sample_pool_env dto client_mirror =
        Inr (pv_entrypoint view, pt_root client_tools labels, pf)"
    by (rule served_proof_is_accepted [OF client_run(1) pool_ticks.start client_hist_ok(2,3) sample_pool_ok(4)
          empty_pool_tables view(1) [folded tools] view(2,3) refl honest dto enabled]) simp
  then show ?thesis using view(1) dto labels by (auto simp: tools)
qed

section \<open>The recovery walk\<close>

text \<open>The notes of one deposit: the deposit's own, then the change of each spend.\<close>

definition noteAt :: "pool_hashes \<Rightarrow> pool_note \<Rightarrow> nat \<Rightarrow> nat \<Rightarrow> pool_note" where
  "noteAt H m i k = (if k = 0 then depositNote H m i else changeNote H m i k)"

definition nullifierHash :: "pool_hashes \<Rightarrow> pool_note \<Rightarrow> nat \<Rightarrow> nat \<Rightarrow> int" where
  "nullifierHash H m i k = ph_one H (n_nullifier (noteAt H m i k))"

lemma noteAt_Suc: "noteAt H m i (Suc n) = changeNote H m i (Suc n)"
  by (simp add: noteAt_def)

lemma walkSpends_ends:
  "spent (Some (dec (nullifierHash H m i n))) = None \<Longrightarrow> walkSpends H m spent i (Suc n) (noteAt H m i n) held = Some (Inr held)"
  by (simp add: walkSpends.simps nullifierHash_def)

lemma walkSpends_step:
  assumes "spent (Some (dec (nullifierHash H m i n))) = Some l"
  shows "walkSpends H m spent i (Suc n) (noteAt H m i n) held = (case bigint_of_string (lv_value l) of
    None \<Rightarrow> Some (Inl BadNumber) | Some v \<Rightarrow> walkSpends H m spent i (Suc (Suc n)) (noteAt H m i (Suc n)) (held - v))"
  using assms unfolding noteAt_Suc by (subst walkSpends.simps) (simp add: nullifierHash_def)

lemma walkSpends_total:
  assumes "\<forall>k < length ws. \<exists>l. spent (Some (dec (nullifierHash H m i (n + k)))) = Some l \<and> bigint_of_string (lv_value l) = Some (ws ! k)"
    and "spent (Some (dec (nullifierHash H m i (n + length ws)))) = None"
  shows "walkSpends H m spent i (Suc n) (noteAt H m i n) held = Some (Inr (held - sum_list ws))"
  using assms
proof (induction ws arbitrary: n held)
  case Nil
  then show ?case by (simp add: walkSpends_ends)
next
  case (Cons w ws)
  obtain l where l: "spent (Some (dec (nullifierHash H m i n))) = Some l" "bigint_of_string (lv_value l) = Some w"
    using Cons.prems(1) [rule_format, of 0] by auto
  have "\<forall>k < length ws. \<exists>l. spent (Some (dec (nullifierHash H m i (Suc n + k)))) = Some l \<and> bigint_of_string (lv_value l) = Some (ws ! k)"
    using Cons.prems(1) [rule_format, of "Suc k" for k] by simp
  then have "walkSpends H m spent i (Suc (Suc n)) (noteAt H m i (Suc n)) (held - w) = Some (Inr (held - w - sum_list ws))"
    using Cons.prems(2) by (intro Cons.IH) simp_all
  then show ?case by (simp add: walkSpends_step [of spent H m i n, OF l(1)] l(2))
qed

text \<open>The walk has no bound of its own; it returns whatever leaves it is given, because a note's nullifier hash
  is met once and each step uses up one spent key.\<close>

lemma walkSpends_returns:
  assumes "finite {k. spent k \<noteq> None}" "inj_on (nullifierHash H m i) {..card {k. spent k \<noteq> None}}"
    and "\<forall>k < n. spent (Some (dec (nullifierHash H m i k))) \<noteq> None"
  shows "\<exists>r. walkSpends H m spent i (Suc n) (noteAt H m i n) held = Some r"
proof -
  let ?D = "{k. spent k \<noteq> None}"
  let ?key = "\<lambda>k. Some (dec (nullifierHash H m i k))"
  have inj: "inj_on ?key {..card ?D}"
    using assms(2) by (simp add: inj_on_def)
  have few: "n' \<le> card ?D" if "\<forall>k < n'. spent (?key k) \<noteq> None" "n' \<le> Suc (card ?D)" for n'
  proof -
    have "?key ` {..<n'} \<subseteq> ?D" using that(1) by auto
    then have "card (?key ` {..<n'}) \<le> card ?D" by (rule card_mono [OF assms(1)])
    moreover have "inj_on ?key {..<n'}" using that(2) by (intro inj_on_subset [OF inj]) auto
    ultimately show ?thesis by (simp add: card_image)
  qed
  have small: "n' \<le> card ?D" if n: "\<forall>k < n'. spent (?key k) \<noteq> None" for n'
  proof (rule ccontr)
    assume "\<not> n' \<le> card ?D"
    then have "\<forall>k < Suc (card ?D). spent (?key k) \<noteq> None" using n by auto
    then show False using few [of "Suc (card ?D)"] by simp
  qed
  show ?thesis
    using assms(3)
  proof (induction "card ?D - n" arbitrary: n held rule: less_induct)
    case less
    show ?case
    proof (cases "spent (?key n)")
      case None
      then show ?thesis by (simp add: walkSpends_ends)
    next
      case (Some l)
      then have next_n: "\<forall>k < Suc n. spent (?key k) \<noteq> None" using less.prems less_Suc_eq by auto
      then have "Suc n \<le> card ?D" by (rule small)
      then have "\<exists>r. walkSpends H m spent i (Suc (Suc n)) (noteAt H m i (Suc n)) h = Some r" for h
        by (intro less.hyps next_n) simp
      then show ?thesis by (simp add: walkSpends_step [of spent H m i n, OF Some] split: option.split)
    qed
  qed
qed

section \<open>The leaves of a wallet\<close>

lemma foldl_upd_eq:
  "foldl (\<lambda>m l. m(f l \<mapsto> l)) m xs k = (case List.find (\<lambda>l. f l = k) (rev xs) of None \<Rightarrow> m k | Some l \<Rightarrow> Some l)"
  by (induction xs rule: rev_induct) auto

lemma find_hit: "List.find P xs = Some x \<Longrightarrow> P x \<and> x \<in> set xs"
  by (auto simp: find_Some_iff)

lemma spentBy_Some: "spentBy leaves k = Some l \<Longrightarrow> l \<in> set leaves \<and> lv_kind l = CHANGE \<and> lv_spent l = k"
  unfolding spentBy_def foldl_upd_eq by (auto split: option.splits dest!: find_hit)

lemma spentBy_None: "spentBy leaves k = None \<longleftrightarrow> (\<forall>l \<in> set leaves. lv_kind l = CHANGE \<longrightarrow> lv_spent l \<noteq> k)"
  unfolding spentBy_def foldl_upd_eq by (auto simp: find_None_iff split: option.splits dest!: find_hit)

lemma ownLeaf_Some:
  "ownLeaf H n leaves = Some l \<Longrightarrow> l \<in> set leaves \<and> lv_kind l = DEPOSIT \<and> lv_precommitment l = Some (dec (precommitmentOf H n))"
  unfolding ownLeaf_def by (auto dest!: find_hit)

lemma ownLeaf_None:
  "ownLeaf H n leaves = None \<longleftrightarrow>
     (\<forall>l \<in> set leaves. lv_kind l = DEPOSIT \<longrightarrow> lv_precommitment l \<noteq> Some (dec (precommitmentOf H n)))"
  unfolding ownLeaf_def by (auto simp: find_None_iff)

text \<open>The whole recovery returns on any leaves a server may send, when the nullifier hashes of one deposit's notes do not
  repeat before the leaves are used up.\<close>

theorem recovery_returns:
  assumes "\<forall>i < 4. inj_on (nullifierHash H (masters H secret) i) {..length leaves}"
  shows "\<exists>r. recoveredTotal H secret leaves = Some r"
proof -
  let ?m = "masters H secret"
  let ?D = "{k. spentBy leaves k \<noteq> None}"
  have keys: "?D \<subseteq> lv_spent ` set leaves" using spentBy_Some by force
  then have fin: "finite ?D" using finite_subset by blast
  have "card ?D \<le> card (lv_spent ` set leaves)" using keys by (intro card_mono) simp_all
  also have "\<dots> \<le> length leaves" using card_image_le [of "set leaves" lv_spent] card_length [of leaves] by simp
  finally have few: "card ?D \<le> length leaves" .
  have walk: "\<exists>r. walkSpends H ?m (spentBy leaves) i (Suc 0) (noteAt H ?m i 0) held = Some r" if i: "i < 4" for i held
  proof (rule walkSpends_returns [OF fin])
    show "inj_on (nullifierHash H ?m i) {..card ?D}"
      by (rule inj_on_subset [OF assms [rule_format, OF i]]) (use few in auto)
    show "\<forall>k < 0. spentBy leaves (Some (dec (nullifierHash H ?m i k))) \<noteq> None" by simp
  qed
  have note_returns: "\<exists>r. recoverNote H ?m leaves i = Some r" if i: "i < 4" for i
  proof (cases "Option.bind (ownLeaf H (depositNote H ?m i) leaves) (\<lambda>l. bigint_of_string (lv_value l))")
    case None
    then show ?thesis by (auto simp: recoverNote_def bind_eq_None_conv split: option.split)
  next
    case (Some v)
    then obtain leaf where leaf: "ownLeaf H (depositNote H ?m i) leaves = Some leaf" "bigint_of_string (lv_value leaf) = Some v"
      by (auto simp: bind_eq_Some_conv)
    obtain r where "walkSpends H ?m (spentBy leaves) i 1 (depositNote H ?m i) v = Some r"
      using walk [OF i, of v] by (auto simp: noteAt_def)
    then show ?thesis using leaf by (cases r) (simp_all add: recoverNote_def)
  qed
  have "\<exists>r. recoverNotes H ?m leaves js = Some r" if "set js \<subseteq> {..<4}" for js
    using that
  proof (induction js)
    case (Cons i js)
    then obtain q r where "recoverNote H ?m leaves i = Some q" "recoverNotes H ?m leaves js = Some r"
      using note_returns by fastforce
    then show ?case by (cases q; cases r) auto
  qed simp
  from this [of "[0..<4]"] show ?thesis by (auto simp: recoveredTotal_def atLeast0LessThan)
qed

text \<open>The pool's events of a wallet: a deposit once per index, and its spends in a chain, each nullifier once.
  The contract accepts a precommitment and a nullifier hash only once.\<close>

definition holds_note :: "pool_hashes \<Rightarrow> pool_note \<Rightarrow> pool_event set \<Rightarrow> nat \<Rightarrow> int \<Rightarrow> int list \<Rightarrow> bool" where
  "holds_note H m evs i v ws \<longleftrightarrow>
     (\<exists>c x. Deposited c x v (precommitmentOf H (depositNote H m i)) \<in> evs) \<and>
     (\<forall>c x w. Deposited c x w (precommitmentOf H (depositNote H m i)) \<in> evs \<longrightarrow> w = v) \<and>
     (\<forall>k < length ws. \<exists>c. Withdrawn c (ws ! k) (nullifierHash H m i k) \<in> evs) \<and>
     (\<forall>k < length ws. \<forall>c w. Withdrawn c w (nullifierHash H m i k) \<in> evs \<longrightarrow> w = ws ! k) \<and>
     (\<forall>c w. Withdrawn c w (nullifierHash H m i (length ws)) \<notin> evs)"

definition wallet_on_chain :: "pool_hashes \<Rightarrow> pool_note \<Rightarrow> (nat \<Rightarrow> (int \<times> int list) option) \<Rightarrow> pool_event set \<Rightarrow> bool" where
  "wallet_on_chain H m W evs \<longleftrightarrow> (\<forall>i < 4. case W i of
     None \<Rightarrow> (\<forall>c x w. Deposited c x w (precommitmentOf H (depositNote H m i)) \<notin> evs)
   | Some (v, ws) \<Rightarrow> holds_note H m evs i v ws)"

definition note_balance :: "(int \<times> int list) option \<Rightarrow> int" where
  "note_balance w = (case w of None \<Rightarrow> 0 | Some (v, ws) \<Rightarrow> max 0 (v - sum_list ws))"

definition events_within :: "pool_log list \<Rightarrow> int \<Rightarrow> int \<Rightarrow> pool_event set" where
  "events_within hist f t = pl_event ` {l \<in> set hist. f \<le> pl_block l \<and> pl_block l \<le> t}"

text \<open>Served leaves and chain events, one for one.\<close>

definition serves_events :: "leaf_view list \<Rightarrow> pool_event set \<Rightarrow> bool" where
  "serves_events leaves evs \<longleftrightarrow>
     (\<forall>l \<in> set leaves. (\<exists>c x v p. Deposited c x v p \<in> evs \<and> lv_kind l = DEPOSIT \<and> lv_value l = dec v \<and> lv_precommitment l = Some (dec p)) \<or>
        (\<exists>c v k. Withdrawn c v k \<in> evs \<and> lv_kind l = CHANGE \<and> lv_value l = dec v \<and> lv_spent l = Some (dec k))) \<and>
     (\<forall>c x v p. Deposited c x v p \<in> evs \<longrightarrow> (\<exists>l \<in> set leaves. lv_kind l = DEPOSIT \<and> lv_precommitment l = Some (dec p))) \<and>
     (\<forall>c v k. Withdrawn c v k \<in> evs \<longrightarrow> (\<exists>l \<in> set leaves. lv_kind l = CHANGE \<and> lv_spent l = Some (dec k)))"

lemma serves_deposit:
  assumes "serves_events leaves evs" "l \<in> set leaves" "lv_kind l = DEPOSIT" "lv_precommitment l = Some (dec p)"
  shows "\<exists>c x v. Deposited c x v p \<in> evs \<and> lv_value l = dec v"
  using assms unfolding serves_events_def by fastforce

lemma serves_change:
  assumes "serves_events leaves evs" "l \<in> set leaves" "lv_kind l = CHANGE" "lv_spent l = Some (dec k)"
  shows "\<exists>c v. Withdrawn c v k \<in> evs \<and> lv_value l = dec v"
  using assms unfolding serves_events_def by fastforce

lemma recoverNote_held:
  assumes "serves_events leaves evs" "holds_note H m evs i v ws"
  shows "recoverNote H m leaves i = Some (Inr (if 0 < v - sum_list ws then [v - sum_list ws] else []))"
proof -
  let ?p = "precommitmentOf H (depositNote H m i)"
  obtain leaf where leaf: "ownLeaf H (depositNote H m i) leaves = Some leaf"
    using assms ownLeaf_None [of H "depositNote H m i" leaves] unfolding holds_note_def serves_events_def
    by (metis not_None_eq)
  obtain c x w where "Deposited c x w ?p \<in> evs" "lv_value leaf = dec w"
    using serves_deposit [OF assms(1)] ownLeaf_Some [OF leaf] by blast
  then have worth: "bigint_of_string (lv_value leaf) = Some v" using assms(2) by (auto simp: holds_note_def)
  have spends: "\<exists>l. spentBy leaves (Some (dec (nullifierHash H m i k))) = Some l \<and> bigint_of_string (lv_value l) = Some (ws ! k)"
    if k: "k < length ws" for k
  proof -
    obtain l where l: "spentBy leaves (Some (dec (nullifierHash H m i k))) = Some l"
      using assms k spentBy_None [of leaves "Some (dec (nullifierHash H m i k))"] unfolding holds_note_def serves_events_def
      by (metis not_None_eq)
    obtain c w where "Withdrawn c w (nullifierHash H m i k) \<in> evs" "lv_value l = dec w"
      using serves_change [OF assms(1)] spentBy_Some [OF l] by blast
    then have "bigint_of_string (lv_value l) = Some (ws ! k)" using assms(2) k by (auto simp: holds_note_def)
    with l show ?thesis by blast
  qed
  have "spentBy leaves (Some (dec (nullifierHash H m i (length ws)))) = None"
    unfolding spentBy_None using serves_change [OF assms(1)] assms(2) unfolding holds_note_def by meson
  then have "walkSpends H m (spentBy leaves) i (Suc 0) (noteAt H m i 0) v = Some (Inr (v - sum_list ws))"
    using spends by (intro walkSpends_total) simp_all
  then show ?thesis using leaf worth by (simp add: recoverNote_def noteAt_def)
qed

lemma recoverNote_none:
  assumes "serves_events leaves evs" "\<forall>c x w. Deposited c x w (precommitmentOf H (depositNote H m i)) \<notin> evs"
  shows "recoverNote H m leaves i = Some (Inr [])"
proof -
  have "ownLeaf H (depositNote H m i) leaves = None"
    unfolding ownLeaf_None using serves_deposit [OF assms(1)] assms(2) by blast
  then show ?thesis by (simp add: recoverNote_def)
qed

lemma recoverNotes_wallet:
  assumes "serves_events leaves evs" "wallet_on_chain H m W evs" "set js \<subseteq> {..<4}"
  shows "\<exists>owned. recoverNotes H m leaves js = Some (Inr owned) \<and> sum_list owned = sum_list (map (\<lambda>i. note_balance (W i)) js)"
  using assms(3)
proof (induction js)
  case (Cons i js)
  then obtain owned where rest: "recoverNotes H m leaves js = Some (Inr owned)"
    "sum_list owned = sum_list (map (\<lambda>i. note_balance (W i)) js)" by auto
  have "i < 4" using Cons.prems by simp
  then have "\<exists>xs. recoverNote H m leaves i = Some (Inr xs) \<and> sum_list xs = note_balance (W i)"
    using assms(2) recoverNote_held [OF assms(1)] recoverNote_none [OF assms(1)]
    by (cases "W i") (fastforce simp: wallet_on_chain_def note_balance_def)+
  then show ?case using rest by auto
qed simp

lemma served_leaves:
  "serves_events (map (\<lambda>(i, l). leafView i l) (enumerate 0 (chainLeaves hist f t))) (events_within hist f t)"
proof -
  let ?rows = "chainLeaves hist f t"
  let ?views = "map (\<lambda>(i, l). leafView i l) (enumerate 0 ?rows)"
  have view: "\<exists>i. \<exists>r \<in> set ?rows. l = leafView i r" if "l \<in> set ?views" for l using that by (rule enumerate_views)
  have served: "\<exists>i. leafView i r \<in> set ?views" if r: "r \<in> set ?rows" for r
  proof -
    have "r \<in> set (map snd (enumerate 0 ?rows))" using r by simp
    then obtain x where x: "x \<in> set (enumerate 0 ?rows)" "r = snd x" unfolding set_map by blast
    have "leafView (fst x) r = (case x of (i, l) \<Rightarrow> leafView i l)" using x(2) by (simp add: case_prod_beta)
    then show ?thesis using x(1) unfolding set_map by (metis image_eqI)
  qed
  have row: "\<exists>e \<in> events_within hist f t. \<exists>l. pl_event l = e \<and> toLeaf l = Some r" if "r \<in> set ?rows" for r
    using that by (auto simp: set_chainLeaves events_within_def)
  have event: "\<exists>l. pl_event l = e \<and> (\<forall>r. toLeaf l = Some r \<longrightarrow> r \<in> set ?rows)" if "e \<in> events_within hist f t" for e
    using that by (auto simp: set_chainLeaves events_within_def)
  show ?thesis
    unfolding serves_events_def
  proof (intro conjI ballI allI impI)
    fix l
    assume "l \<in> set ?views"
    then obtain i r where r: "r \<in> set ?rows" "l = leafView i r" using view by blast
    then obtain k where k: "pl_event k \<in> events_within hist f t" "toLeaf k = Some r" using row by blast
    show "(\<exists>c x v p. Deposited c x v p \<in> events_within hist f t \<and> lv_kind l = DEPOSIT \<and> lv_value l = dec v \<and> lv_precommitment l = Some (dec p)) \<or>
        (\<exists>c v k. Withdrawn c v k \<in> events_within hist f t \<and> lv_kind l = CHANGE \<and> lv_value l = dec v \<and> lv_spent l = Some (dec k))"
      using k r(2) by (cases "pl_event k") (auto simp: toLeaf_def)
  next
    fix c x v p
    assume "Deposited c x v p \<in> events_within hist f t"
    then obtain k where k: "pl_event k = Deposited c x v p" "\<And>r. toLeaf k = Some r \<Longrightarrow> r \<in> set ?rows" using event by blast
    then obtain r where "r \<in> set ?rows" "l_kind r = DEPOSIT" "l_precommitment r = Some (dec p)" by (auto simp: toLeaf_def)
    moreover from this(1) obtain i where "leafView i r \<in> set ?views" using served by blast
    ultimately show "\<exists>l \<in> set ?views. lv_kind l = DEPOSIT \<and> lv_precommitment l = Some (dec p)"
      by (intro bexI [of _ "leafView i r"]) simp_all
  next
    fix c v n
    assume "Withdrawn c v n \<in> events_within hist f t"
    then obtain k where k: "pl_event k = Withdrawn c v n" "\<And>r. toLeaf k = Some r \<Longrightarrow> r \<in> set ?rows" using event by blast
    then obtain r where "r \<in> set ?rows" "l_kind r = CHANGE" "l_spent r = Some (dec n)" by (auto simp: toLeaf_def)
    moreover from this(1) obtain i where "leafView i r \<in> set ?views" using served by blast
    ultimately show "\<exists>l \<in> set ?views. lv_kind l = CHANGE \<and> lv_spent l = Some (dec n)"
      by (intro bexI [of _ "leafView i r"]) simp_all
  qed
qed

text \<open>C10. A balance lives in the root secret and the public leaves alone: after any ticks of the leaf indexer,
  the recovery walk over the served view returns, and what it finds is what the wallet's first four deposits
  put in less what was spent from each, as the pool's events up to the cursor say.\<close>

theorem balance_is_recoverable:
  assumes "pool_ticks C hist s t" "pool_keyed hist" "in_chain_order hist" "1 \<le> pc_batchBlocks C"
    and "poolLeaves s = []" "cursors s = []"
    and "poolState rootOf P E cached t = Inr view" "pv_enabled view"
    and "wallet_on_chain H (masters H secret) W (events_within hist (pc_startBlock C) (poolNextFromBlock C t - 1))"
  shows "recoveredTotal H secret (pv_leaves view) = Some (Inr (\<Sum>i<4. note_balance (W i)))"
proof -
  have "mirrors C hist t" by (rule pool_ticks_mirrors [OF assms(1,2,4) mirrors_empty [OF assms(5,6)]])
  then have "leavesInOrder t = chainLeaves hist (pc_startBlock C) (poolNextFromBlock C t - 1)"
    by (rule leavesInOrder_chain [OF assms(2,3)])
  then have "serves_events (pv_leaves view) (events_within hist (pc_startBlock C) (poolNextFromBlock C t - 1))"
    using poolState_view(1) [OF assms(7,8)] served_leaves by simp
  then obtain owned where "recoverNotes H (masters H secret) (pv_leaves view) [0..<4] = Some (Inr owned)"
    "sum_list owned = sum_list (map (\<lambda>i. note_balance (W i)) [0..<4])"
    using recoverNotes_wallet [OF _ assms(9), of "pv_leaves view" "[0..<4]"] by (auto simp: atLeast0LessThan)
  then show ?thesis by (simp add: recoveredTotal_def interv_sum_list_conv_sum_set_nat atLeast0LessThan)
qed

lemma balance_is_recoverable_witness:
  "\<exists>view. poolState sum_list sample_pool_service sample_pool_env None client_mirror = Inr view \<and>
     recoveredTotal client_hashes [] (pv_leaves view) = Some (Inr 3)"
proof -
  obtain view where view: "poolState sum_list sample_pool_service sample_pool_env None client_mirror = Inr view" "pv_enabled view"
    using client_view by blast
  let ?W = "\<lambda>i::nat. if i = 0 then Some (5, [2]) else None"
  have "events_within client_hist 5 9 = set (map pl_event (filter (\<lambda>l. 5 \<le> pl_block l \<and> pl_block l \<le> 9) client_hist))"
    by (auto simp: events_within_def)
  then have events: "events_within client_hist 5 9 = {Deposited 11 21 5 47, Withdrawn 12 2 25, Deposited 13 22 9 99}"
    by (simp add: client_hist_def)
  have "wallet_on_chain client_hashes (masters client_hashes []) ?W
      (events_within client_hist (pc_startBlock sample_pool_config) (poolNextFromBlock sample_pool_config client_mirror - 1))"
    by (auto simp: wallet_on_chain_def holds_note_def events client_run(2) sample_start
        masters_def client_hashes_def FIELD_def precommitmentOf_def depositNote_def nullifierHash_def noteAt_def changeNote_def)
  from balance_is_recoverable [OF client_run(1) client_hist_ok(2,3) sample_pool_ok(4) empty_pool_tables view this]
  show ?thesis using view(1) by (simp add: note_balance_def lessThan_nat_numeral numeral_eq_Suc)
qed

end
