(* ===== verification/Probes.thy ===== *)
theory Probes
  imports PoolClientProps Config
begin

text \<open>
  What the remaining end-to-end probes sign and post, from \<open>src/scripts/claim-e2e.mjs\<close> and the return leg of
  \<open>src/scripts/pool-integration.mjs\<close>: permits and their split signatures, forwarded requests and the endpoint they
  go to, the shielded return, the claim button's condition, and the dispute window a probe shortens and gives back.
  Signatures and key derivation are viem's and \<open>@noble/hashes\<close>': they are parameters.
\<close>

section \<open>Signatures\<close>

record signer =
  sg_permit :: "string \<Rightarrow> string \<Rightarrow> int \<Rightarrow> int \<Rightarrow> int \<Rightarrow> string"  \<comment> \<open>owner, spender, value, nonce, deadline\<close>
  sg_forward :: "string \<Rightarrow> string \<Rightarrow> string \<Rightarrow> string \<Rightarrow> int \<Rightarrow> int \<Rightarrow> int \<Rightarrow> int \<Rightarrow> string \<Rightarrow> string"
    \<comment> \<open>domain, forwarder, from, to, value, gas, nonce, deadline, data\<close>
  sg_shield :: "string \<Rightarrow> int \<Rightarrow> int \<Rightarrow> int \<Rightarrow> int \<Rightarrow> string"  \<comment> \<open>owner, value, precommitment, nonce, deadline\<close>

text \<open>\<open>s.slice(a, b)\<close> for positions from the front.\<close>

definition slice :: "nat \<Rightarrow> nat \<Rightarrow> string \<Rightarrow> string" where
  "slice a b s = drop a (take b s)"

definition split_v :: "string \<Rightarrow> js_float" where
  "split_v raw = number_of_string (''0x'' @ slice 130 132 raw)"

definition split_r :: "string \<Rightarrow> string" where
  "split_r raw = ''0x'' @ slice 2 66 raw"

definition split_s :: "string \<Rightarrow> string" where
  "split_s raw = ''0x'' @ slice 66 130 raw"

definition unix_now :: "int \<Rightarrow> int" where
  "unix_now ms = ms div 1000"

text \<open>A \<open>v\<close> that is not a number is serialised as null: no permit the backend would read.\<close>

definition permitFor :: "signer \<Rightarrow> int \<Rightarrow> string \<Rightarrow> string \<Rightarrow> int \<Rightarrow> int \<Rightarrow> permit option" where
  "permitFor K ms owner spender amount nonce =
     (let deadline = unix_now ms + 900; raw = sg_permit K owner spender amount nonce deadline
      in map_option (\<lambda>v. \<lparr>p_owner = owner, p_value = dec amount, p_deadline = dec deadline, p_v = v,
           p_r = split_r raw, p_s = split_s raw\<rparr>) (whole (split_v raw)))"

section \<open>Forwarded requests\<close>

definition relayBody ::
  "signer \<Rightarrow> int \<Rightarrow> string \<Rightarrow> string \<Rightarrow> string \<Rightarrow> string \<Rightarrow> int \<Rightarrow> string \<Rightarrow> int \<Rightarrow> permit option \<Rightarrow> string \<times> relay_request" where
  "relayBody K ms domain forwarder from to gas data nonce p =
     (let deadline = unix_now ms + 900
      in (if domain = ''Numera Forwarder'' then ''/api/relay'' else ''/api/relay/resolution'',
          \<lparr>rq_request = \<lparr>q_from = from, q_to = to, q_value = dec 0, q_gas = dec gas, q_deadline = deadline, q_data = data,
             q_signature = sg_forward K domain forwarder from to 0 gas nonce deadline data\<rparr>, rq_permit = p\<rparr>))"

text \<open>\<open>execution/keys.ts\<close>: one key per market from one root secret.\<close>

definition marketAccountKey :: "(string \<Rightarrow> string \<Rightarrow> string \<Rightarrow> nat \<Rightarrow> string) \<Rightarrow> string \<Rightarrow> string \<Rightarrow> string" where
  "marketAccountKey hkdf seed ref =
     hkdf seed ''numera:market-account:v1'' (''numera:market-account:v1:'' @ ref) 32"

section \<open>The shielded return\<close>

definition shieldBody :: "pool_hashes \<Rightarrow> signer \<Rightarrow> pool_note \<Rightarrow> int \<Rightarrow> string \<Rightarrow> string \<Rightarrow> int \<Rightarrow> int \<Rightarrow> int \<Rightarrow> shield_dto option" where
  "shieldBody H K keys ms owner entrypoint amount shieldNonce permitNonce =
     (let precommitment = precommitmentOf H (depositNote H keys 1);
          deadline = unix_now ms + 1800;
          raw = sg_permit K owner entrypoint amount permitNonce deadline
      in map_option (\<lambda>v. \<lparr>sh_owner = owner, sh_value = dec amount, sh_precommitment = dec precommitment, sh_deadline = dec deadline,
           sh_signature = sg_shield K owner amount precommitment shieldNonce deadline,
           sh_permit = Some (dec deadline, v, split_r raw, split_s raw)\<rparr>) (whole (split_v raw)))"

section \<open>The dispute window\<close>

text \<open>What became of a transaction: not sent, reverted, mined, or mined with its receipt never seen.\<close>

datatype sending = NotSent | Reverted | Mined | Unseen

definition took_effect :: "sending \<Rightarrow> bool" where
  "took_effect x \<longleftrightarrow> x = Mined \<or> x = Unseen"

record window_state =
  ws_window :: int
  ws_restore :: "int option"

definition SHORT_WINDOW :: int where
  "SHORT_WINDOW = 60"

text \<open>The head of \<open>main\<close>: \<open>restoreWindow\<close> is set once \<open>tx\<close> has returned. The flag says whether the run goes on.\<close>

definition shortenWindow :: "sending \<Rightarrow> window_state \<Rightarrow> bool \<times> window_state" where
  "shortenWindow x s =
     (let t = (if took_effect x then s\<lparr>ws_window := SHORT_WINDOW\<rparr> else s)
      in if x = Mined then (True, t\<lparr>ws_restore := Some (ws_window s)\<rparr>) else (False, t))"

text \<open>The five attempts of the \<open>finally\<close> block: a restore that returned still has to be read back. The flag says
  whether an attempt was seen to succeed.\<close>

fun restoreAttempts :: "int \<Rightarrow> (sending \<times> bool) list \<Rightarrow> window_state \<Rightarrow> bool \<times> window_state" where
  "restoreAttempts w [] s = (False, s)"
| "restoreAttempts w ((x, readBack) # rest) s =
     (let t = (if took_effect x then s\<lparr>ws_window := w\<rparr> else s)
      in if x = Mined \<and> readBack then (True, t) else restoreAttempts w rest t)"

text \<open>The whole run: the exit code, with the number of failed checks of the body.\<close>

definition claimRun :: "sending \<Rightarrow> nat \<Rightarrow> (sending \<times> bool) list \<Rightarrow> int \<Rightarrow> int \<times> window_state" where
  "claimRun x failed tries w0 = (case shortenWindow x \<lparr>ws_window = w0, ws_restore = None\<rparr> of (goes_on, t) \<Rightarrow>
     (let code = (if goes_on \<and> failed = 0 then 0 else 1) in
      case ws_restore t of
        None \<Rightarrow> (code, t)
      | Some w \<Rightarrow> (case restoreAttempts w (take 5 tries) t of (seen, u) \<Rightarrow> (if seen then code else 1, u))))"

section \<open>What the probes rely on\<close>

lemma split_lengths: "length raw = 132 \<Longrightarrow> length (split_r raw) = 66 \<and> length (split_s raw) = 66"
  by (simp add: split_r_def split_s_def slice_def)

text \<open>A probe's request comes back from the relay's parser as it was signed, and passes the checks that cost nothing
  exactly when its target, gas and selector are the endpoint's.\<close>

theorem probe_request_is_read_back:
  assumes "relayBody K ms domain forwarder from to gas data nonce p = (path, payload)" "\<forall>q. p = Some q \<longrightarrow> p_owner q = from"
  shows "\<exists>request. toContractRequest payload = Some request \<and> cr_from request = from \<and> cr_to request = to \<and>
    cr_value request = 0 \<and> cr_gas request = gas \<and> cr_data request = data \<and>
    cr_signature request = sg_forward K domain forwarder from to 0 gas nonce (cr_deadline request) data \<and>
    (shape_ok C target sels payload request \<longleftrightarrow>
       lower to = lower target \<and> gas \<le> rc_maxGas C \<and> 10 \<le> length data \<and> lower (take 10 data) \<in> set sels)"
proof -
  have payload: "payload = snd (relayBody K ms domain forwarder from to gas data nonce p)" using assms(1) by simp
  show ?thesis
    using assms(2) unfolding payload
    by (auto simp: relayBody_def toContractRequest_def shape_ok_def Let_def split: option.splits)
qed

text \<open>A return of a positive amount is encoded as it was signed, for half an hour.\<close>

theorem probe_return_is_encoded:
  assumes "shieldBody H K keys ms owner entrypoint amount sn pn = Some dto" "amount \<noteq> 0" "now < ms + 1799001"
    and "raw = sg_permit K owner entrypoint amount pn (unix_now ms + 1800)"
  shows "\<exists>v. whole (split_v raw) = Some v \<and>
    shieldData X now dto = Inr (enc_depositWithPermit X owner amount (precommitmentOf H (depositNote H keys 1))
      (unix_now ms + 1800) (sh_signature dto) (unix_now ms + 1800) v (split_r raw) (split_s raw))"
proof -
  define d where "d = unix_now ms + 1800"
  have "\<not> d * 1000 < now" using assms(3) unfolding d_def unix_now_def by presburger
  then show ?thesis
    using assms(1,2,4) unfolding shieldBody_def Let_def d_def [symmetric] by (auto simp: shieldData_def)
qed

lemma restoreAttempts_window:
  "restoreAttempts w xs s = (seen, t) \<Longrightarrow> seen \<Longrightarrow> ws_window t = w"
proof (induction xs arbitrary: s)
  case (Cons x xs)
  obtain y rb where x: "x = (y, rb)" by (cases x)
  show ?case
  proof (cases "y = Mined \<and> rb")
    case True
    then show ?thesis using Cons.prems x by (auto simp: took_effect_def)
  next
    case False
    then show ?thesis using Cons.prems x by (auto simp: Let_def intro: Cons.IH)
  qed
qed simp

text \<open>A run that exits with success left the window as it found it.\<close>

theorem successful_probe_restores_the_window:
  assumes "claimRun x failed tries w0 = (0, t)"
  shows "ws_window t = w0"
proof (cases "x = Mined")
  case True
  let ?s = "\<lparr>ws_window = SHORT_WINDOW, ws_restore = Some w0\<rparr>"
  obtain seen u where run: "restoreAttempts w0 (take 5 tries) ?s = (seen, u)" by fastforce
  then have "seen \<and> u = t" using assms True by (auto simp: claimRun_def shortenWindow_def took_effect_def Let_def split: if_splits)
  then show ?thesis using restoreAttempts_window [OF run] by simp
next
  case False
  then show ?thesis using assms by (auto simp: claimRun_def shortenWindow_def Let_def split: if_splits)
qed

text \<open>The window is not safe against a lost receipt: when the shortening is mined and its receipt is not seen, the
  script leaves without an attempt to give the window back, whatever the attempts would have done.\<close>

theorem lost_receipt_leaves_the_window_short:
  "claimRun Unseen failed tries w0 = (1, \<lparr>ws_window = SHORT_WINDOW, ws_restore = None\<rparr>)"
  by (simp add: claimRun_def shortenWindow_def took_effect_def)

end
