(* ===== verification/Daemons.thy ===== *)
theory Daemons
  imports PoolProps Indexer Settlement
begin

text \<open>
  The background loops: the leaf indexer's (\<open>src/src/pool/pool-indexer.service.ts\<close>), the settlement keeper's
  (\<open>src/src/relay/settlement.service.ts\<close>) and the main indexer's (\<open>Indexer\<close>). What they share is the locale
  \<open>lone_worker\<close>: a pass in flight or an armed timer, one of the two and once, until the service is stopped.
\<close>

section \<open>One worker at a time\<close>

locale lone_worker =
  fixes step :: "'s \<Rightarrow> 's \<Rightarrow> bool" and running :: "'s \<Rightarrow> nat" and armed :: "'s \<Rightarrow> bool" and halted :: "'s \<Rightarrow> bool"
    and wf_worker :: "'s \<Rightarrow> bool"
  assumes wf_step: "step s t \<Longrightarrow> wf_worker s \<Longrightarrow> wf_worker t"
    and token_step: "step s t \<Longrightarrow> wf_worker s \<Longrightarrow>
      running t + of_bool (armed t) \<le> running s + of_bool (armed s) \<and>
      (halted t \<or> running t + of_bool (armed t) = running s + of_bool (armed s))"
    and halted_step: "step s t \<Longrightarrow> wf_worker s \<Longrightarrow> halted s \<Longrightarrow> halted t"
begin

lemma worker_reach:
  assumes "step\<^sup>*\<^sup>* s t" "wf_worker s" "running s + of_bool (armed s) = 1"
  shows "wf_worker t \<and> running t + of_bool (armed t) \<le> 1"
  using assms
proof (induction rule: rtranclp_induct)
  case (step t u)
  then show ?case using wf_step token_step [of t u] by fastforce
qed simp

lemma alone:
  assumes "step\<^sup>*\<^sup>* s t" "wf_worker s" "running s + of_bool (armed s) = 1"
  shows "running t \<le> 1 \<and> (0 < running t \<longrightarrow> \<not> armed t)"
  using worker_reach [OF assms] by (cases "armed t") auto

lemma never_stalls:
  assumes "step\<^sup>*\<^sup>* s t" "wf_worker s" "running s + of_bool (armed s) = 1"
  shows "halted t \<or> armed t \<or> 0 < running t"
proof -
  have "halted t \<or> running t + of_bool (armed t) = 1"
    using assms(1)
  proof (induction rule: rtranclp_induct)
    case (step t u)
    have "wf_worker t" using worker_reach [OF step.hyps(1) assms(2,3)] by simp
    then show ?case using step token_step halted_step by metis
  qed (simp add: assms(3))
  then show ?thesis by (cases "armed t") auto
qed

end

section \<open>The main indexer\<close>

definition loop_wf :: "loop_state \<Rightarrow> bool" where
  "loop_wf s \<longleftrightarrow> lp_inFlight s = of_bool (lp_running s) \<and> (lp_running s \<longrightarrow> lp_timer s = None)"

interpretation main_loop: lone_worker "loop_step poll" lp_inFlight "\<lambda>s. lp_timer s \<noteq> None" lp_stopped loop_wf for poll
proof
  fix s t
  assume st: "loop_step poll s t" and wf: "loop_wf s"
  show "lp_stopped s \<Longrightarrow> lp_stopped t" using st by (cases rule: loop_stepE) (auto simp: loop_defs)
  show "loop_wf t" using st wf by (cases rule: loop_stepE) (auto simp: loop_wf_def loop_defs split: if_splits)
  show "lp_inFlight t + of_bool (lp_timer t \<noteq> None) \<le> lp_inFlight s + of_bool (lp_timer s \<noteq> None) \<and>
      (lp_stopped t \<or> lp_inFlight t + of_bool (lp_timer t \<noteq> None) = lp_inFlight s + of_bool (lp_timer s \<noteq> None))"
    using st wf by (cases rule: loop_stepE) (auto simp: loop_wf_def loop_defs split: if_splits)
qed

section \<open>The leaf indexer\<close>

definition CATCHUP_DELAY_MS :: nat where
  "CATCHUP_DELAY_MS = 150"

text \<open>The service with its mirror, and for each tick in flight the block it read as its first.\<close>

record pool_daemon =
  pd_pool :: pool_state
  pd_running :: bool
  pd_stopped :: bool
  pd_timer :: "nat option"
  pd_ticks :: "int list"

text \<open>\<open>tick\<close> from the point where the cursor has been read, which may be long before it commits.\<close>

definition poolTickFrom :: "pool_config \<Rightarrow> pool_rpc \<Rightarrow> int \<Rightarrow> (pool_state, pool_tick_error, bool) proc" where
  "poolTickFrom C R start = (\<lambda>s.
     case pr_head R of None \<Rightarrow> (Inl PoolRpcFailed, s)
     | Some head \<Rightarrow>
         (let safeHead = poolSafeHead C head
          in if safeHead < start then (Inr True, s\<lparr>caughtUp := True\<rparr>)
             else (let to = (if start + pc_batchBlocks C - 1 < safeHead
                             then start + pc_batchBlocks C - 1 else safeHead)
                   in case pr_logs R start to of None \<Rightarrow> (Inl PoolRpcFailed, s)
                      | Some logs \<Rightarrow>
                          if \<not> pr_commits R then (Inl TransactionFailed, s)
                          else (let t = commitPage (poolRows logs) to s; fin = (safeHead \<le> to)
                                in (Inr fin, if fin then t\<lparr>caughtUp := True\<rparr> else t)))))"

definition poolSchedule :: "nat \<Rightarrow> pool_daemon \<Rightarrow> pool_daemon" where
  "poolSchedule delay d = (if pd_stopped d then d else d\<lparr>pd_timer := Some delay\<rparr>)"

definition poolLoopEnter :: "pool_config \<Rightarrow> pool_daemon \<Rightarrow> pool_daemon" where
  "poolLoopEnter C d = (if pd_running d \<or> pd_stopped d then d
     else d\<lparr>pd_running := True, pd_ticks := pd_ticks d @ [poolNextFromBlock C (pd_pool d)]\<rparr>)"

definition poolLoopEnds :: "nat \<Rightarrow> pool_tick_error + bool \<Rightarrow> pool_daemon \<Rightarrow> pool_daemon" where
  "poolLoopEnds poll r d = poolSchedule (case r of Inl _ \<Rightarrow> poll | Inr fin \<Rightarrow> if fin then poll else CATCHUP_DELAY_MS)
     (d\<lparr>pd_running := False\<rparr>)"

definition poolInit :: "bool \<Rightarrow> bool \<Rightarrow> bool \<Rightarrow> pool_config \<Rightarrow> pool_daemon \<Rightarrow> pool_daemon" where
  "poolInit enabled indexerEnabled ready C d = (if \<not> enabled then d else if \<not> indexerEnabled then d
     else if \<not> ready then d else poolLoopEnter C d)"

definition poolDestroy :: "pool_daemon \<Rightarrow> pool_daemon" where
  "poolDestroy d = d\<lparr>pd_stopped := True, pd_timer := None\<rparr>"

inductive pool_daemon_step :: "pool_config \<Rightarrow> nat \<Rightarrow> pool_log list \<Rightarrow> pool_daemon \<Rightarrow> pool_daemon \<Rightarrow> bool"
  for C poll hist where
  fires: "pd_timer d = Some n \<Longrightarrow> pool_daemon_step C poll hist d (poolLoopEnter C (d\<lparr>pd_timer := None\<rparr>))"
| ends: "i < length (pd_ticks d) \<Longrightarrow> pool_serves R hist \<Longrightarrow> poolTickFrom C R (pd_ticks d ! i) (pd_pool d) = (r, u) \<Longrightarrow>
    pool_daemon_step C poll hist d
      (poolLoopEnds poll r (d\<lparr>pd_pool := u, pd_ticks := take i (pd_ticks d) @ drop (Suc i) (pd_ticks d)\<rparr>))"
| destroyed: "pool_daemon_step C poll hist d (poolDestroy d)"

inductive_cases pool_daemon_stepE: "pool_daemon_step C poll hist d e"

lemmas pool_daemon_defs = poolSchedule_def poolLoopEnter_def poolLoopEnds_def poolDestroy_def

definition booted :: "pool_config \<Rightarrow> pool_state \<Rightarrow> pool_daemon" where
  "booted C s = poolInit True True True C
     \<lparr>pd_pool = s, pd_running = False, pd_stopped = False, pd_timer = None, pd_ticks = []\<rparr>"

text \<open>What a tick in flight has read is what the cursor still is.\<close>

definition daemon_wf :: "pool_config \<Rightarrow> pool_daemon \<Rightarrow> bool" where
  "daemon_wf C d \<longleftrightarrow> length (pd_ticks d) = of_bool (pd_running d) \<and> (pd_running d \<longrightarrow> pd_timer d = None) \<and>
     (\<forall>start \<in> set (pd_ticks d). start = poolNextFromBlock C (pd_pool d))"

lemma daemon_wf_one:
  assumes "daemon_wf C d" "i < length (pd_ticks d)"
  shows "pd_ticks d = [poolNextFromBlock C (pd_pool d)]" "i = 0" "pd_timer d = None"
  using assms by (cases "pd_ticks d"; auto simp: daemon_wf_def of_bool_def split: if_splits)+

lemma poolTick_from: "poolTick C R s = poolTickFrom C R (poolNextFromBlock C s) s"
  by (cases "pr_head R") (simp_all add: poolTick_def poolTickFrom_def Let_def)

lemma daemon_step_cases:
  assumes "pool_daemon_step C poll hist d e" "daemon_wf C d"
  shows "daemon_wf C e \<and>
    length (pd_ticks e) + of_bool (pd_timer e \<noteq> None) \<le> length (pd_ticks d) + of_bool (pd_timer d \<noteq> None) \<and>
    (pd_stopped e \<or> length (pd_ticks e) + of_bool (pd_timer e \<noteq> None) = length (pd_ticks d) + of_bool (pd_timer d \<noteq> None)) \<and>
    (pd_stopped d \<longrightarrow> pd_stopped e) \<and>
    (pd_pool e = pd_pool d \<or> (\<exists>R r. pool_serves R hist \<and> poolTick C R (pd_pool d) = (r, pd_pool e)))"
  using assms(1)
proof (cases rule: pool_daemon_stepE [consumes 1, case_names fires ends destroyed])
  case (fires n)
  then have idle: "\<not> pd_running d" "pd_ticks d = []" using assms(2) by (auto simp: daemon_wf_def)
  show ?thesis
    unfolding fires(1) using fires(2) idle assms(2) by (cases "pd_stopped d") (simp_all add: poolLoopEnter_def daemon_wf_def)
next
  case (ends i R r u)
  note one = daemon_wf_one [OF assms(2) ends(2)]
  have run: "poolTick C R (pd_pool d) = (r, u)" using ends(4) one by (simp add: poolTick_from)
  have "pd_pool e = u" unfolding ends(1) by (simp add: poolLoopEnds_def poolSchedule_def)
  then have pool: "\<exists>R r. pool_serves R hist \<and> poolTick C R (pd_pool d) = (r, pd_pool e)" using run ends(3) by blast
  have e: "pd_ticks e = []" "\<not> pd_running e" "pd_stopped e \<or> pd_timer e \<noteq> None" "pd_stopped e = pd_stopped d"
    unfolding ends(1) using one by (simp_all add: poolLoopEnds_def poolSchedule_def)
  then show ?thesis using pool one by (auto simp: daemon_wf_def)
next
  case destroyed
  then show ?thesis using assms(2) by (auto simp: poolDestroy_def daemon_wf_def)
qed

interpretation leaf_loop: lone_worker "pool_daemon_step C poll hist" "\<lambda>d. length (pd_ticks d)"
  "\<lambda>d. pd_timer d \<noteq> None" pd_stopped "daemon_wf C" for C poll hist
  by unfold_locales (use daemon_step_cases in blast)+

lemma booted_wf:
  "daemon_wf C (booted C s)" "length (pd_ticks (booted C s)) + of_bool (pd_timer (booted C s) \<noteq> None) = 1" "pd_pool (booted C s) = s"
  by (simp_all add: booted_def poolInit_def poolLoopEnter_def daemon_wf_def)

text \<open>C11. The leaf indexer never overlaps itself: whatever timers, slow nodes, failures and shutdowns do, at most one tick
  is in flight, the cursor it read is the cursor it commits over, it never stalls unless stopped, and its mirror is what ticks run one after the
  other make it, so the leaves it serves are the pool's, in the order of the chain.\<close>

theorem leaf_indexer_runs_alone:
  assumes "(pool_daemon_step C poll hist)\<^sup>*\<^sup>* (booted C s) d" "pool_keyed hist" "in_chain_order hist" "1 \<le> pc_batchBlocks C"
    and "poolLeaves s = []" "cursors s = []"
  shows "length (pd_ticks d) \<le> 1 \<and> (pd_stopped d \<or> pd_timer d \<noteq> None \<or> 0 < length (pd_ticks d)) \<and>
    (\<forall>start \<in> set (pd_ticks d). pd_timer d = None \<and> start = poolNextFromBlock C (pd_pool d)) \<and>
    leavesInOrder (pd_pool d) = chainLeaves hist (pc_startBlock C) (poolNextFromBlock C (pd_pool d) - 1)"
proof -
  have wf: "daemon_wf C d" using leaf_loop.worker_reach [OF assms(1) booted_wf(1,2)] by simp
  have lone: "length (pd_ticks d) \<le> 1 \<and> (0 < length (pd_ticks d) \<longrightarrow> \<not> pd_timer d \<noteq> None)"
    by (rule leaf_loop.alone [OF assms(1) booted_wf(1,2)])
  have live: "pd_stopped d \<or> pd_timer d \<noteq> None \<or> 0 < length (pd_ticks d)"
    by (rule leaf_loop.never_stalls [OF assms(1) booted_wf(1,2)])
  have "daemon_wf C d \<and> pool_ticks C hist s (pd_pool d)"
    using assms(1)
  proof (induction rule: rtranclp_induct)
    case base
    then show ?case using booted_wf by (simp add: pool_ticks.start)
  next
    case (step d e)
    then show ?case using daemon_step_cases [OF step.hyps(2)] pool_ticks.tick by metis
  qed
  moreover have "mirrors C hist s"
    using assms(5,6) by (simp add: mirrors_def poolNextFromBlock_def chainLeaves_def List.map_filter_def)
  ultimately have "mirrors C hist (pd_pool d)" using pool_ticks_mirrors assms(2,4) by blast
  then show ?thesis
    using leavesInOrder_chain [OF assms(2,3)] lone live wf by (auto simp: daemon_wf_def)
qed

lemma leaf_indexer_runs_alone_witness:
  "\<exists>d. (pool_daemon_step sample_pool_config 1000 sample_pool_hist)\<^sup>*\<^sup>* (booted sample_pool_config empty_pool) d \<and>
     length (leavesInOrder (pd_pool d)) = 2"
proof -
  let ?d = "booted sample_pool_config empty_pool"
  obtain r u where tick: "poolTickFrom sample_pool_config sample_pool_rpc 5 empty_pool = (r, u)" by fastforce
  have start: "poolNextFromBlock sample_pool_config empty_pool = 5"
    by (simp add: poolNextFromBlock_def empty_pool_def sample_pool_config_def)
  have u: "u = commitPage (poolRows sample_pool_hist) 9 empty_pool\<lparr>caughtUp := True\<rparr>"
    using tick by (simp add: poolTickFrom_def sample_pool_rpc_def sample_pool_config_def poolSafeHead_def sample_pool_hist_def Let_def)
  have ticks: "pd_ticks ?d = [5]" by (simp add: booted_def poolInit_def poolLoopEnter_def start)
  then have "pool_daemon_step sample_pool_config 1000 sample_pool_hist ?d
      (poolLoopEnds 1000 r (?d\<lparr>pd_pool := u, pd_ticks := take 0 (pd_ticks ?d) @ drop (Suc 0) (pd_ticks ?d)\<rparr>))"
    using tick booted_wf(3) by (intro pool_daemon_step.ends [OF _ sample_pool_ok(1)]) simp_all
  then obtain d where d: "pool_daemon_step sample_pool_config 1000 sample_pool_hist ?d d" "pd_pool d = u"
    by (auto simp: poolLoopEnds_def poolSchedule_def)
  then have reach: "(pool_daemon_step sample_pool_config 1000 sample_pool_hist)\<^sup>*\<^sup>* ?d d" by blast
  have "poolNextFromBlock sample_pool_config u = 10"
    using pool_cursor_saved [of sample_pool_config "poolRows sample_pool_hist" 9 empty_pool]
    by (simp add: poolNextFromBlock_def u)
  moreover have "pc_startBlock sample_pool_config = 5" by (simp add: sample_pool_config_def)
  moreover have "poolLeaves empty_pool = []" "cursors empty_pool = []" by (simp_all add: empty_pool_def)
  ultimately have "length (leavesInOrder (pd_pool d)) = length (chainLeaves sample_pool_hist 5 9)"
    using leaf_indexer_runs_alone [OF reach sample_pool_ok(2-4)] d(2) by simp
  then show ?thesis
    using reach by (auto simp: chainLeaves_def sample_pool_hist_def List.map_filter_simps toLeaf_def)
qed

section \<open>The settlement keeper\<close>

record settle_daemon =
  sd_books :: settlement
  sd_stopped :: bool
  sd_timer :: "nat option"
  sd_passes :: nat

definition settleSchedule :: "nat \<Rightarrow> settle_daemon \<Rightarrow> settle_daemon" where
  "settleSchedule delay d = (if sd_stopped d then d else d\<lparr>sd_timer := Some delay\<rparr>)"

definition settleInit :: "bool \<Rightarrow> nat \<Rightarrow> settle_daemon \<Rightarrow> settle_daemon" where
  "settleInit enabled poll d = (if \<not> enabled then d else settleSchedule poll d)"

definition settleDestroy :: "settle_daemon \<Rightarrow> settle_daemon" where
  "settleDestroy d = d\<lparr>sd_stopped := True, sd_timer := None\<rparr>"

definition settlePassEnds :: "nat \<Rightarrow> settlement \<Rightarrow> settle_daemon \<Rightarrow> settle_daemon" where
  "settlePassEnds poll books d = settleSchedule poll (d\<lparr>sd_books := books, sd_passes := sd_passes d - 1\<rparr>)"

text \<open>A pass that throws has changed the books up to the throw; either way the next one is scheduled.\<close>

inductive settle_step :: "nat \<Rightarrow> settle_daemon \<Rightarrow> settle_daemon \<Rightarrow> bool" for poll where
  fires: "sd_timer d = Some n \<Longrightarrow> settle_step poll d (d\<lparr>sd_timer := None, sd_passes := sd_passes d + 1\<rparr>)"
| ends: "0 < sd_passes d \<Longrightarrow> settle_step poll d (settlePassEnds poll (settleTick C encode queried now A ps (sd_books d)) d)"
| destroyed: "settle_step poll d (settleDestroy d)"

inductive_cases settle_stepE: "settle_step poll d e"

definition settle_wf :: "settle_daemon \<Rightarrow> bool" where
  "settle_wf d \<longleftrightarrow> sd_passes d + of_bool (sd_timer d \<noteq> None) \<le> 1"

interpretation settle_loop: lone_worker "settle_step poll" sd_passes "\<lambda>d. sd_timer d \<noteq> None" sd_stopped settle_wf for poll
proof
  fix d e
  assume st: "settle_step poll d e" and wf: "settle_wf d"
  show "sd_stopped d \<Longrightarrow> sd_stopped e"
    using st by (cases rule: settle_stepE) (auto simp: settlePassEnds_def settleSchedule_def settleDestroy_def)
  show "settle_wf e" using st wf
    by (cases rule: settle_stepE) (auto simp: settle_wf_def settlePassEnds_def settleSchedule_def settleDestroy_def split: if_splits)
  show "sd_passes e + of_bool (sd_timer e \<noteq> None) \<le> sd_passes d + of_bool (sd_timer d \<noteq> None) \<and>
      (sd_stopped e \<or> sd_passes e + of_bool (sd_timer e \<noteq> None) = sd_passes d + of_bool (sd_timer d \<noteq> None))"
    using st wf
    by (cases rule: settle_stepE) (auto simp: settle_wf_def settlePassEnds_def settleSchedule_def settleDestroy_def split: if_splits)
qed

text \<open>Two settlement passes never run at once, so no proposal is finalized by two of them, and the keeper goes on
  until it is stopped.\<close>

theorem settlement_passes_run_alone:
  assumes "(settle_step poll)\<^sup>*\<^sup>* (settleInit True poll \<lparr>sd_books = b, sd_stopped = False, sd_timer = None, sd_passes = 0\<rparr>) d"
  shows "sd_passes d \<le> 1 \<and> (0 < sd_passes d \<longrightarrow> sd_timer d = None) \<and> (sd_stopped d \<or> sd_timer d \<noteq> None \<or> 0 < sd_passes d)"
proof -
  let ?s = "settleInit True poll \<lparr>sd_books = b, sd_stopped = False, sd_timer = None, sd_passes = 0\<rparr>"
  have start: "settle_wf ?s" "sd_passes ?s + of_bool (sd_timer ?s \<noteq> None) = 1"
    by (simp_all add: settleInit_def settleSchedule_def settle_wf_def)
  show ?thesis using settle_loop.alone [OF assms start] settle_loop.never_stalls [OF assms start] by simp
qed

end
