(* ===== verification/AuthHttp.thy ===== *)
theory AuthHttp
  imports Http AuthProps
begin

text \<open>
  The sign-in routes, \<open>src/src/auth/auth.controller.ts\<close> with the bodies of \<open>dto/auth.dto.ts\<close>: what the validation pipe
  lets through, what the error filter makes of a refusal, and what an answer tells about the sessions. All four
  routes are public.
\<close>

section \<open>Bodies\<close>

definition hex_digits :: "string \<Rightarrow> bool" where
  "hex_digits s \<longleftrightarrow> s \<noteq> [] \<and> list_all (\<lambda>c. radix_val 16 c \<noteq> None) s"

definition nonceBody :: "auth_env \<Rightarrow> string \<Rightarrow> bool" where
  "nonceBody E address \<longleftrightarrow> av_address E address"

definition verifyBody :: "string \<Rightarrow> string \<Rightarrow> bool" where
  "verifyBody message signature \<longleftrightarrow> 1 \<le> length message \<and> length message \<le> 4000 \<and>
     take 2 signature = ''0x'' \<and> hex_digits (drop 2 signature) \<and> length signature \<le> 2000"

definition refreshBody :: "string \<Rightarrow> bool" where
  "refreshBody token \<longleftrightarrow> 1 \<le> length token \<and> length token \<le> 4000"

section \<open>Routes\<close>

definition authThrown :: "auth_error \<Rightarrow> thrown" where
  "authThrown e = (case e of Unauthorized m \<Rightarrow> unauthorized m | BadAddress \<Rightarrow> OtherError ''invalid address''
     | UniqueViolation \<Rightarrow> PrismaKnown ''P2002'' | MissingRow \<Rightarrow> PrismaKnown ''P2025'')"

text \<open>A body the pipe refuses is a 400 before the handler runs.\<close>

definition authRoute :: "bool \<Rightarrow> 'a auth \<Rightarrow> auth_state \<Rightarrow> nat \<times> auth_state" where
  "authRoute valid handler s = (if \<not> valid then (400, s)
     else (case handler s of (r, t) \<Rightarrow> (status_of authThrown r, t)))"

definition postNonce :: "auth_env \<Rightarrow> auth_config \<Rightarrow> string \<Rightarrow> auth_state \<Rightarrow> nat \<times> auth_state" where
  "postNonce E C address = authRoute (nonceBody E address) (requestNonce E C address)"

definition postVerify :: "auth_env \<Rightarrow> auth_config \<Rightarrow> request_meta \<Rightarrow> string \<Rightarrow> string \<Rightarrow> auth_state \<Rightarrow> nat \<times> auth_state" where
  "postVerify E C meta message signature = authRoute (verifyBody message signature) (verifyLogin E C message signature meta)"

definition postRefresh :: "auth_env \<Rightarrow> auth_config \<Rightarrow> request_meta \<Rightarrow> string \<Rightarrow> auth_state \<Rightarrow> nat \<times> auth_state" where
  "postRefresh E C meta token = authRoute (refreshBody token) (refresh E C token meta)"

definition postLogout :: "auth_env \<Rightarrow> string \<Rightarrow> auth_state \<Rightarrow> nat \<times> auth_state" where
  "postLogout E token = authRoute (refreshBody token) (logout E token)"

section \<open>What an answer tells\<close>

lemma auth_status [simp]:
  "status_of authThrown (Inr x) = 200" "status_of authThrown (Inl (Unauthorized m)) = 401"
  "status_of authThrown (Inl BadAddress) = 500" "status_of authThrown (Inl UniqueViolation) = 409"
  "status_of authThrown (Inl MissingRow) = 404"
  by (simp_all add: status_of_def authThrown_def unauthorized_def internal_error_def)

lemma verifyRead_cases:
  "(\<exists>address. verifyRead E C message signature s = (Inr address, s)) \<or> (\<exists>m. verifyRead E C message signature s = (Inl (Unauthorized m), s))"
  by (simp add: verifyRead_def bindp_def gets_def throw_def ret_def split: siwe_result.split)

lemma issue_cases:
  "issue E C userId address meta s = (Inl UniqueViolation, s) \<or>
   (\<exists>tokens r. issue E C userId address meta s = (Inr tokens, s\<lparr>sessions := sessions s @ [r]\<rparr>) \<and> se_user r = userId \<and> se_revoked r = None)"
  by (auto simp: issue_def createSession_def Let_def seqp_def bindp_def ret_def)

text \<open>Signing in is answered truthfully: a refused body or signature (400, 401) changes nothing, the nonce included;
  200 means one new session that is not revoked; and there is no other answer but the conflict of a drawn id.\<close>

theorem sign_in_is_answered_truthfully:
  assumes "postVerify E C meta message signature s = (status, t)"
  shows "status \<in> {200, 400, 401, 409} \<and> (status \<in> {400, 401} \<longrightarrow> t = s) \<and>
    (status = 200 \<longrightarrow> (\<exists>r. sessions t = sessions s @ [r] \<and> se_revoked r = None))"
proof (cases "verifyBody message signature")
  case False
  then show ?thesis using assms by (simp add: postVerify_def authRoute_def)
next
  case True
  consider (no) m where "verifyRead E C message signature s = (Inl (Unauthorized m), s)"
    | (yes) address where "verifyRead E C message signature s = (Inr address, s)"
    using verifyRead_cases by blast
  then show ?thesis
  proof cases
    case no
    then show ?thesis using assms True by (auto simp: postVerify_def authRoute_def verifyLogin_def bindp_def)
  next
    case yes
    let ?u = "delNonce (nonceKey address) s"
    obtain isNew u v where up: "upsertUser E address ?u = (Inr (isNew, u), v)" "sessions v = sessions ?u"
      by (cases "tfind u_address address (users ?u)") (auto simp: upsertUser_def Let_def)
    have same: "sessions ?u = sessions s" by (simp add: delNonce_def)
    show ?thesis
      using issue_cases [of E C "u_id u" "u_address u" meta v] assms True yes up same
      by (auto simp: postVerify_def authRoute_def verifyLogin_def verifyWrite_def bindp_def seqp_def modp_def ret_def)
  qed
qed

text \<open>Nobody gets an internal error for asking: a body the pipe accepts names an address the service normalizes, and
  logging out answers 200 whatever the token.\<close>

theorem nonce_and_logout_never_fail:
  "fst (postNonce E C address s) \<in> {200, 400} \<and> fst (postLogout E token s) \<in> {200, 400}"
  by (auto simp: postNonce_def postLogout_def authRoute_def nonceBody_def requestNonce_def normalizeAddress_def Let_def
      logout_def revoke_def revoke_where_def seqp_def bindp_def modp_def ret_def split: option.split)

lemma rotateRead_cases:
  "(\<exists>p. rotateRead E token s = (Inr p, s)) \<or> rotateRead E token s = (Inl MissingRow, s) \<or>
   (\<exists>m. rotateRead E token s = (Inl (Unauthorized m), s)) \<or>
   (\<exists>m u. rotateRead E token s = (Inl (Unauthorized m), snd (revokeAllForUser E u s)))"
  by (auto simp: rotateRead_def bindp_def gets_def throw_def ret_def revokeAllForUser_def revoke_where_def seqp_def modp_def
      split: option.split jwt_payload.split)

lemma rotateWrite_errors: "rotateWrite E C meta p s = (Inl e, t) \<Longrightarrow> e = MissingRow \<or> e = UniqueViolation"
proof (cases p)
  case (Pair r u)
  assume run: "rotateWrite E C meta p s = (Inl e, t)"
  show ?thesis
  proof (cases "tfind se_id (se_id r) (sessions s) = None")
    case True
    then show ?thesis using run Pair by (simp add: rotateWrite_def seqp_def bindp_def)
  next
    case False
    let ?v = "s\<lparr>sessions := tupdate se_id (se_id r) (\<lambda>x. x\<lparr>se_revoked := Some (av_now E)\<rparr>) (sessions s)\<rparr>"
    show ?thesis
      using issue_cases [of E C "se_user r" "u_address u" meta ?v] run Pair False
      by (auto simp: rotateWrite_def seqp_def bindp_def ret_def)
  qed
qed

lemma revokeAll_rows:
  "map se_id (sessions (snd (revokeAllForUser E u s))) = map se_id (sessions s) \<and>
   (\<forall>r \<in> set (sessions (snd (revokeAllForUser E u s))). se_revoked r = None \<longrightarrow> r \<in> set (sessions s))"
  by (auto simp: revokeAllForUser_def revoke_where_def modp_def tmany_def)

text \<open>A refused refresh (400, 401) leaves no new session: the rows stay, at most revoked.\<close>

theorem refused_refresh_opens_nothing:
  assumes "postRefresh E C meta token s = (status, t)" "status \<in> {400, 401}"
  shows "map se_id (sessions t) = map se_id (sessions s) \<and>
    (\<forall>r \<in> set (sessions t). se_revoked r = None \<longrightarrow> r \<in> set (sessions s))"
proof (cases "refreshBody token")
  case False
  then show ?thesis using assms by (simp add: postRefresh_def authRoute_def)
next
  case True
  consider (ok) p where "rotateRead E token s = (Inr p, s)" | (missing) "rotateRead E token s = (Inl MissingRow, s)"
    | (refused) m where "rotateRead E token s = (Inl (Unauthorized m), s)"
    | (reuse) m u where "rotateRead E token s = (Inl (Unauthorized m), snd (revokeAllForUser E u s))"
    using rotateRead_cases by blast
  then show ?thesis
  proof cases
    case ok
    obtain q v where w: "rotateWrite E C meta p s = (q, v)" by fastforce
    then have "status \<in> {200, 404, 409}"
      using assms(1) True ok rotateWrite_errors [of E C meta p s]
      by (cases q) (auto simp: postRefresh_def authRoute_def refresh_def rotate_def bindp_def ret_def split: prod.splits)
    then show ?thesis using assms(2) by auto
  next
    case missing
    then show ?thesis using assms True by (auto simp: postRefresh_def authRoute_def refresh_def rotate_def bindp_def)
  next
    case refused
    then show ?thesis using assms True by (auto simp: postRefresh_def authRoute_def refresh_def rotate_def bindp_def)
  next
    case reuse
    then have "t = snd (revokeAllForUser E u s)"
      using assms True by (auto simp: postRefresh_def authRoute_def refresh_def rotate_def bindp_def)
    then show ?thesis using revokeAll_rows by simp
  qed
qed

end
