(* ===== verification/Routing.thy ===== *)
theory Routing
  imports Health AuthHttp Config
begin

text \<open>
  How a request finds its handler: the global prefix of \<open>src/src/main.ts\<close>, the routes declared by the controllers, the
  global guards of \<open>src/src/app.module.ts\<close> in their order (rate limit, then session), the role guard of the operator
  routes, and what is logged; with the Redis connections of \<open>src/src/redis/redis.module.ts\<close>. The rate limiter's
  storage is the package's: whether it admits a request is a parameter.
\<close>

section \<open>Routes\<close>

datatype http_method = GET | POST | PATCH

text \<open>A segment of a path pattern.\<close>

datatype segment = Lit string | Var

record route =
  ro_handler :: string
  ro_method :: http_method
  ro_path :: "segment list"
  ro_public :: bool
  ro_limit :: "int option"         \<comment> \<open>\<open>@Throttle\<close>: requests a minute\<close>
  ro_roles :: "role list"          \<comment> \<open>\<open>@RequiresRole\<close>\<close>

text \<open>The parts of a path, without the empty ones.\<close>

fun path_parts :: "string \<Rightarrow> string \<Rightarrow> string list" where
  "path_parts part [] = (if part = [] then [] else [rev part])"
| "path_parts part (c # cs) =
     (if c = CHR ''/'' then (if part = [] then [] else [rev part]) @ path_parts [] cs else path_parts (c # part) cs)"

definition segment_of :: "string \<Rightarrow> segment" where
  "segment_of s = (if take 1 s = '':'' then Var else Lit s)"

definition pattern :: "string \<Rightarrow> string \<Rightarrow> segment list" where
  "pattern controller path = map segment_of (path_parts [] controller @ path_parts [] path)"

definition open_route :: "http_method \<Rightarrow> string \<Rightarrow> string \<Rightarrow> string \<Rightarrow> route" where
  "open_route m controller path name =
     \<lparr>ro_handler = name, ro_method = m, ro_path = pattern controller path, ro_public = True, ro_limit = None, ro_roles = []\<rparr>"

definition at_most :: "int \<Rightarrow> route \<Rightarrow> route" where
  "at_most n r = r\<lparr>ro_limit := Some n\<rparr>"

definition session_route :: "http_method \<Rightarrow> string \<Rightarrow> string \<Rightarrow> string \<Rightarrow> role list \<Rightarrow> route" where
  "session_route m controller path name roles =
     \<lparr>ro_handler = name, ro_method = m, ro_path = pattern controller path, ro_public = False, ro_limit = None, ro_roles = roles\<rparr>"

definition authRoutes :: "route list" where
  "authRoutes =
     [at_most 20 (open_route POST ''auth'' ''nonce'' ''auth.nonce''),
      at_most 20 (open_route POST ''auth'' ''verify'' ''auth.verify''),
      open_route POST ''auth'' ''refresh'' ''auth.refresh'',
      open_route POST ''auth'' ''logout'' ''auth.logout'']"

definition usersRoutes :: "route list" where
  "usersRoutes =
     [session_route GET ''users'' ''me'' ''users.me'' [],
      session_route PATCH ''users'' ''me'' ''users.updateMe'' [],
      open_route GET ''users'' '':address'' ''users.byAddress'']"

definition marketsRoutes :: "route list" where
  "marketsRoutes =
     [open_route GET [] ''markets'' ''markets.list'',
      open_route GET [] ''categories'' ''markets.categories'',
      open_route GET [] ''markets/:id'' ''markets.detail'',
      open_route GET [] ''markets/:id/resolution/terms'' ''markets.terms'']"

definition tradesRoutes :: "route list" where
  "tradesRoutes =
     [open_route GET [] ''markets/:id/trades'' ''trades.byMarket'',
      open_route GET [] ''trades'' ''trades.list'']"

definition positionsRoutes :: "route list" where
  "positionsRoutes =
     [open_route POST [] ''positions/query'' ''positions.query'',
      open_route GET [] ''markets/:id/positions'' ''positions.byMarket'']"

definition pricesRoutes :: "route list" where
  "pricesRoutes =
     [open_route GET ''markets/:id/prices'' ''candles'' ''prices.candles'',
      open_route GET ''markets/:id/prices'' ''latest'' ''prices.latest'']"

definition sparklineRoutes :: "route list" where
  "sparklineRoutes = [open_route GET ''prices'' ''sparklines'' ''prices.sparklines'']"

definition adminRoutes :: "route list" where
  "adminRoutes =
     [session_route GET ''admin'' ''me'' ''admin.me'' (requiredRoles Me),
      session_route POST ''admin'' ''markets/drafts'' ''admin.createDraft'' (requiredRoles PostDraft),
      session_route GET ''admin'' ''markets/drafts'' ''admin.drafts'' (requiredRoles GetDrafts),
      session_route POST ''admin'' ''categories'' ''admin.upsertCategory'' (requiredRoles PostCategory),
      session_route GET ''admin'' ''categories'' ''admin.categories'' (requiredRoles GetCategories),
      session_route GET ''admin'' ''operations'' ''admin.operations'' (requiredRoles Operations),
      session_route GET ''admin'' ''treasury'' ''admin.treasury'' (requiredRoles Treasury),
      session_route GET ''admin'' ''relay'' ''admin.relay'' (requiredRoles RelayGauge)]"

definition unlinkRoutes :: "route list" where
  "unlinkRoutes =
     [open_route GET ''unlink'' ''environment'' ''unlink.environment'',
      session_route POST ''unlink'' ''register'' ''unlink.register'' [],
      session_route POST ''unlink'' ''authorization-token'' ''unlink.authorizationToken'' []]"

definition relayRoutes :: "route list" where
  "relayRoutes =
     [at_most 30 (open_route POST ''relay'' [] ''relay.submit''),
      at_most 10 (open_route POST ''relay'' ''permit'' ''relay.permit''),
      at_most 20 (open_route POST ''relay'' ''resolution'' ''relay.resolution''),
      open_route GET ''relay'' ''status'' ''relay.status'']"

definition poolRoutes :: "route list" where
  "poolRoutes =
     [open_route GET ''pool'' ''state'' ''pool.state'',
      at_most 20 (open_route POST ''pool'' ''withdraw'' ''pool.withdraw''),
      at_most 20 (open_route POST ''pool'' ''shield'' ''pool.shield'')]"

definition healthRoutes :: "route list" where
  "healthRoutes =
     [open_route GET ''health'' [] ''health.live'',
      open_route GET ''health'' ''ready'' ''health.ready'',
      open_route GET ''health'' ''indexer'' ''health.indexer'']"

text \<open>The controllers in the order the root module imports theirs.\<close>

definition controllers :: "route list list" where
  "controllers = [authRoutes, usersRoutes, marketsRoutes, tradesRoutes, positionsRoutes, pricesRoutes, sparklineRoutes,
     adminRoutes, unlinkRoutes, relayRoutes, poolRoutes, healthRoutes]"

text \<open>\<open>setGlobalPrefix('api', \<dots>)\<close> with its exceptions.\<close>

definition UNPREFIXED :: "segment list list" where
  "UNPREFIXED = [pattern [] ''health'', pattern [] ''health/ready'', pattern [] ''health/indexer'']"

definition mounted :: "route \<Rightarrow> route" where
  "mounted r = (if ro_path r \<in> set UNPREFIXED then r else r\<lparr>ro_path := Lit ''api'' # ro_path r\<rparr>)"

definition route_table :: "route list" where
  "route_table = map mounted (concat controllers)"

text \<open>The router takes the first route that matches. It is the Express router with its defaults, so the case of letters is
  immaterial in the fixed segments.\<close>

fun fits_path :: "segment list \<Rightarrow> string list \<Rightarrow> bool" where
  "fits_path [] [] = True"
| "fits_path (Lit s # ps) (x # xs) = (lower s = lower x \<and> fits_path ps xs)"
| "fits_path (Var # ps) (x # xs) = fits_path ps xs"
| "fits_path _ _ = False"

definition route_matches :: "http_method \<Rightarrow> string list \<Rightarrow> route \<Rightarrow> bool" where
  "route_matches m path r \<longleftrightarrow> ro_method r = m \<and> fits_path (ro_path r) path"

definition route_of :: "route list \<Rightarrow> http_method \<Rightarrow> string list \<Rightarrow> route option" where
  "route_of table m path = List.find (route_matches m path) table"

section \<open>The pipeline\<close>

definition notFoundRoute :: thrown where
  "notFoundRoute = HttpException 404 (ObjectBody (Some ''Cannot find the route'') (Some ''Not Found'')) ''Cannot find the route'' ''NotFoundException''"

definition tooManyRequests :: thrown where
  "tooManyRequests = HttpException 429 (TextBody ''ThrottlerException: Too Many Requests'')
     ''ThrottlerException: Too Many Requests'' ''ThrottlerException''"

text \<open>What the limiter is asked: the handler, the caller's address, the limit and the window in milliseconds.\<close>

type_synonym limiter = "string \<Rightarrow> string \<Rightarrow> int \<Rightarrow> int \<Rightarrow> bool"

definition rate_of :: "throttle_config \<Rightarrow> route \<Rightarrow> int \<times> int" where
  "rate_of T r = (case ro_limit r of Some n \<Rightarrow> (n, 60000) | None \<Rightarrow> (th_limit T, th_ttl T * 1000))"

definition throttleGuard :: "limiter \<Rightarrow> throttle_config \<Rightarrow> string \<Rightarrow> route \<Rightarrow> thrown + unit" where
  "throttleGuard admits T ip r =
     (case rate_of T r of (n, ms) \<Rightarrow> if admits (ro_handler r) ip n ms then Inr () else Inl tooManyRequests)"

record http_server =
  hs_admits :: limiter
  hs_throttle :: throttle_config
  hs_verify :: "string \<Rightarrow> jwt_payload option"
  hs_addresses :: protocol_addresses
  hs_access :: access_env

record http_request =
  hr_method :: http_method
  hr_path :: "string list"
  hr_ip :: string
  hr_bearer :: "string option"

text \<open>The handler a request reaches and the user it runs as, or the error it is answered with; and the verdicts the
  role guard leaves cached.\<close>

definition route_request :: "http_server \<Rightarrow> http_request \<Rightarrow> role_entry list \<Rightarrow> (thrown + string \<times> auth_user option) \<times> role_entry list" where
  "route_request S q verdicts = (case route_of route_table (hr_method q) (hr_path q) of
     None \<Rightarrow> (Inl notFoundRoute, verdicts)
   | Some r \<Rightarrow> (case throttleGuard (hs_admits S) (hs_throttle S) (hr_ip q) r of
       Inl e \<Rightarrow> (Inl e, verdicts)
     | Inr _ \<Rightarrow> (case jwtGuard (hs_verify S) (ro_public r) (hr_bearer q) of
         Inl e \<Rightarrow> (Inl e, verdicts)
       | Inr user \<Rightarrow> (case roleGuard (hs_addresses S) (hs_access S) (ro_roles r) user verdicts of
           (Inl e, rest) \<Rightarrow> (Inl e, rest)
         | (Inr _, rest) \<Rightarrow> (Inr (ro_handler r, user), rest)))))"

text \<open>The path as the request log sees it.\<close>

definition url_of :: "string list \<Rightarrow> string" where
  "url_of path = concat (map (\<lambda>p. CHR ''/'' # p) path)"

section \<open>Redis connections\<close>

record redis_options =
  ro_host :: string
  ro_port :: int
  ro_password :: "string option"
  ro_db :: int
  ro_maxRetriesPerRequest :: "nat option"
  ro_connectionName :: string

definition retryDelay :: "nat \<Rightarrow> nat" where
  "retryDelay tries = min (tries * 200) 2000"

definition makeClient :: "string \<times> int \<times> string option \<times> int \<Rightarrow> string \<Rightarrow> redis_options" where
  "makeClient cfg role = (case cfg of (host, port, password, db) \<Rightarrow>
     \<lparr>ro_host = host, ro_port = port, ro_password = password, ro_db = db, ro_maxRetriesPerRequest = None,
      ro_connectionName = ''pm-'' @ role\<rparr>)"

definition redisClients :: "string \<times> int \<times> string option \<times> int \<Rightarrow> redis_options list" where
  "redisClients cfg = map (makeClient cfg) [''client'', ''pub'', ''sub'']"

section \<open>The table\<close>

text \<open>Two patterns a request could fit both.\<close>

fun unifiable :: "segment list \<Rightarrow> segment list \<Rightarrow> bool" where
  "unifiable [] [] = True"
| "unifiable (Lit s # ps) (Lit t # qs) = (lower s = lower t \<and> unifiable ps qs)"
| "unifiable (_ # ps) (_ # qs) = unifiable ps qs"
| "unifiable _ _ = False"

lemma fits_unifiable: "fits_path p path \<Longrightarrow> fits_path q path \<Longrightarrow> unifiable p q"
proof (induction p path arbitrary: q rule: fits_path.induct)
  case 1
  then show ?case by (cases q) auto
next
  case (2 s ps x xs)
  then show ?case by (cases q rule: list.exhaust; cases "hd q") auto
next
  case (3 ps x xs)
  then show ?case by (cases q rule: list.exhaust; cases "hd q") auto
qed auto

text \<open>Routes clash when one request could fit both.\<close>

definition clash :: "route \<Rightarrow> route \<Rightarrow> bool" where
  "clash r q \<longleftrightarrow> ro_method r = ro_method q \<and> unifiable (ro_path r) (ro_path q)"

fun clashes :: "route list \<Rightarrow> (string \<times> string) list" where
  "clashes [] = []"
| "clashes (r # rs) = map (\<lambda>q. (ro_handler r, ro_handler q)) (filter (clash r) rs) @ clashes rs"

lemma only_clash: "clashes route_table = [(''users.me'', ''users.byAddress'')]"
  by code_simp

lemma clashes_nth: "i < j \<Longrightarrow> j < length rs \<Longrightarrow> clash (rs ! i) (rs ! j) \<Longrightarrow>
    (ro_handler (rs ! i), ro_handler (rs ! j)) \<in> set (clashes rs)"
proof (induction rs arbitrary: i j)
  case (Cons r rs)
  then show ?case
  proof (cases i)
    case 0
    then have "rs ! (j - 1) \<in> set rs" "(r # rs) ! j = rs ! (j - 1)" using Cons.prems by (auto simp: nth_Cons')
    then show ?thesis using 0 Cons.prems by auto
  next
    case (Suc k)
    then have "(ro_handler (rs ! k), ro_handler (rs ! (j - 1))) \<in> set (clashes rs)"
      using Cons.prems by (intro Cons.IH) (auto simp: nth_Cons')
    then show ?thesis using Suc Cons.prems by (auto simp: nth_Cons')
  qed
qed simp

text \<open>The handlers that only sign for, or act for, the user of a session; and those that spend the relayer's gas.\<close>

definition USER_HANDLERS :: "string list" where
  "USER_HANDLERS = [''users.me'', ''users.updateMe'', ''unlink.register'', ''unlink.authorizationToken'']"

definition SPONSORED_HANDLERS :: "string list" where
  "SPONSORED_HANDLERS = [''relay.submit'', ''relay.permit'', ''relay.resolution'', ''pool.withdraw'', ''pool.shield'']"

lemma table_facts:
  "list_all (\<lambda>r. ro_public r \<or> ro_handler r \<in> set USER_HANDLERS \<or> (take 2 (ro_path r) = [Lit ''api'', Lit ''admin''])) route_table"
  "list_all (\<lambda>r. take 2 (ro_path r) = [Lit ''api'', Lit ''admin''] \<longrightarrow> \<not> ro_public r \<and> (ro_roles r \<noteq> [] \<or> ro_handler r = ''admin.me'')) route_table"
  "list_all (\<lambda>r. ro_public r \<longrightarrow> ro_roles r = []) route_table"
  "list_all (\<lambda>r. ro_handler r \<in> set SPONSORED_HANDLERS \<longrightarrow> ro_public r \<and> ro_limit r \<noteq> None \<and> the (ro_limit r) \<le> 30 \<and> ro_method r = POST) route_table"
  "list_all (\<lambda>r. ro_handler r \<in> set USER_HANDLERS \<longrightarrow> \<not> ro_public r) route_table"
  "distinct (map ro_handler route_table)"
  by code_simp+

section \<open>Finding a handler\<close>

fun crosses :: "route list list \<Rightarrow> bool" where
  "crosses [] = False"
| "crosses (c # cs) = (list_ex (\<lambda>r. list_ex (clash r) (concat cs)) c \<or> crosses cs)"

lemma controllers_do_not_cross: "\<not> crosses (map (map mounted) controllers)"
  by code_simp

lemma crossing:
  assumes "\<not> crosses cs" "c \<in> set cs" "d \<in> set cs" "r \<in> set c" "q \<in> set d" "route_matches m path r" "route_matches m path q"
  shows "c = d"
  using assms
proof (induction cs)
  case (Cons e cs)
  have both: "clash r q" "clash q r"
    using Cons.prems(6,7) fits_unifiable unfolding route_matches_def clash_def by (metis, metis)
  have no: "\<not> clash x y" if "x \<in> set e" "f \<in> set cs" "y \<in> set f" for x y f
    using Cons.prems(1) that by (auto simp: list_ex_iff)
  show ?case
    using Cons both no by (metis crosses.simps(2) set_ConsD)
qed simp

text \<open>A route is looked up in the one controller that has a match, so the order of the controllers is immaterial.\<close>

lemma find_append: "List.find P (xs @ ys) = (case List.find P xs of None \<Rightarrow> List.find P ys | Some x \<Rightarrow> Some x)"
  by (induction xs) auto

lemma find_concat:
  assumes "\<And>c d r q. c \<in> set cs \<Longrightarrow> d \<in> set cs \<Longrightarrow> r \<in> set c \<Longrightarrow> q \<in> set d \<Longrightarrow> P r \<Longrightarrow> P q \<Longrightarrow> c = d"
    and "c \<in> set cs" "r \<in> set c" "P r"
  shows "List.find P (concat cs) = List.find P c"
  using assms
proof (induction cs)
  case (Cons e cs)
  show ?case
  proof (cases "List.find P e")
    case None
    then have "\<not> P x" if "x \<in> set e" for x using that by (simp add: find_None_iff)
    then have "c \<in> set cs" using Cons.prems by auto
    then have "List.find P (concat cs) = List.find P c"
      by (intro Cons.IH) (use Cons.prems in \<open>auto simp: Cons.prems(1)\<close>)
    then show ?thesis using None by (simp add: find_append)
  next
    case (Some x)
    then have "x \<in> set e" "P x" by (auto simp: find_Some_iff)
    then have "e = c" using Cons.prems(1) [of e c x r] Cons.prems by auto
    then show ?thesis using Some by (simp add: find_append)
  qed
qed simp

lemma route_table_alt: "route_table = concat (map (map mounted) controllers)"
  by (simp add: route_table_def map_concat)

lemma route_of_order:
  assumes "mset cs = mset controllers"
  shows "route_of (map mounted (concat cs)) m path = route_of route_table m path"
proof -
  define A where "A = map (map mounted) cs"
  define B where "B = map (map mounted) controllers"
  have AB: "set A = set B" using assms unfolding A_def B_def by (metis mset_eq_setD set_map)
  have tabs: "map mounted (concat cs) = concat A" "route_table = concat B"
    by (simp_all add: A_def B_def map_concat route_table_alt)
  have one: "c = d" if "c \<in> set B" "d \<in> set B" "r \<in> set c" "q \<in> set d" "route_matches m path r" "route_matches m path q" for c d r q
    using crossing [OF controllers_do_not_cross] that unfolding B_def by blast
  show ?thesis
  proof (cases "\<exists>c \<in> set B. \<exists>r \<in> set c. route_matches m path r")
    case True
    then obtain c r where cr: "c \<in> set B" "r \<in> set c" "route_matches m path r" by blast
    have "List.find (route_matches m path) (concat A) = List.find (route_matches m path) c"
      by (rule find_concat) (use one AB cr in blast)+
    moreover have "List.find (route_matches m path) (concat B) = List.find (route_matches m path) c"
      by (rule find_concat) (use one cr in blast)+
    ultimately show ?thesis by (simp add: route_of_def tabs)
  next
    case False
    then have "List.find (route_matches m path) (concat A) = None" "List.find (route_matches m path) (concat B) = None"
      using AB by (auto simp: find_None_iff)
    then show ?thesis by (simp add: route_of_def tabs)
  qed
qed

fun low_literal :: "segment \<Rightarrow> bool" where
  "low_literal (Lit s) = (lower s = s)"
| "low_literal Var = False"

lemma fits_prefix: "fits_path p path \<Longrightarrow> list_all low_literal (take n p) \<Longrightarrow> take n p = map Lit (map lower (take n path))"
  by (induction p path arbitrary: n rule: fits_path.induct) (auto simp: take_Cons split: nat.splits)

lemma literal_heads: "list_all (\<lambda>r. list_all low_literal (take 2 (ro_path r))) route_table"
  by code_simp

lemma fits_literals: "fits_path (map Lit xs) path \<longleftrightarrow> map lower path = map lower xs"
  by (induction xs arbitrary: path) (case_tac path; auto)+

text \<open>Every route can be reached: a request that fits a route is handled by it, whatever the order in which the
  modules bring their controllers, with the one exception of a profile looked up under the name \<open>me\<close>, in any case
  of letters.\<close>

theorem requests_find_their_handler:
  assumes "r \<in> set route_table" "route_matches m path r" "mset cs = mset controllers"
  shows "route_of (map mounted (concat cs)) m path = Some r \<or> map lower path = [''api'', ''users'', ''me'']"
proof -
  obtain q where q: "route_of route_table m path = Some q"
    using assms(1,2) by (cases "route_of route_table m path") (auto simp: route_of_def find_None_iff)
  then obtain i where i: "i < length route_table" "q = route_table ! i" "route_matches m path q" "\<And>k. k < i \<Longrightarrow> \<not> route_matches m path (route_table ! k)"
    by (auto simp: route_of_def find_Some_iff)
  obtain j where j: "j < length route_table" "r = route_table ! j" using assms(1) by (metis in_set_conv_nth)
  have "i \<le> j" using i(4) [of j] j assms(2) by (meson not_less)
  show ?thesis
  proof (cases "i = j")
    case True
    then show ?thesis using q i j route_of_order [OF assms(3)] by simp
  next
    case False
    then have "clash q r" using assms(2) i(3) fits_unifiable unfolding route_matches_def clash_def by metis
    then have "(ro_handler q, ro_handler r) \<in> set (clashes route_table)"
      using clashes_nth [of i j route_table] i j False \<open>i \<le> j\<close> by simp
    then have "ro_handler q = ''users.me''" by (simp add: only_clash)
    moreover have "list_all (\<lambda>r. ro_handler r = ''users.me'' \<longrightarrow> ro_path r = map Lit [''api'', ''users'', ''me'']) route_table"
      by code_simp
    ultimately have "fits_path (map Lit [''api'', ''users'', ''me'']) path"
      using i by (auto simp: list_all_iff route_matches_def simp del: list.map)
    moreover have "map lower [''api'', ''users'', ''me''] = [''api'', ''users'', ''me'']" by code_simp
    ultimately show ?thesis unfolding fits_literals by simp
  qed
qed

text \<open>Two requests at their routes, with the modules the other way round.\<close>

theorem requests_find_their_handler_witness:
  "map_option ro_handler (route_of (map mounted (concat (rev controllers))) GET [''api'', ''users'', ''0xab'']) = Some ''users.byAddress''"
proof -
  define r where "r = mounted (usersRoutes ! 2)"
  have "list_ex (\<lambda>x. x = r) route_table" "route_matches GET [''api'', ''users'', ''0xab''] r" "ro_handler r = ''users.byAddress''"
    unfolding r_def by code_simp+
  moreover from this have "r \<in> set route_table" by (simp add: list_ex_iff)
  moreover have "lower ''0xab'' \<noteq> ''me''" by code_simp
  ultimately show ?thesis using requests_find_their_handler [of r GET "[''api'', ''users'', ''0xab'']" "rev controllers"] by simp
qed

section \<open>Who gets through\<close>

lemma route_request_reaches:
  assumes "route_request S q verdicts = (Inr (h, user), rest)"
  obtains r where "r \<in> set route_table" "fits_path (ro_path r) (hr_path q)" "ro_handler r = h"
    "hs_admits S h (hr_ip q) (fst (rate_of (hs_throttle S) r)) (snd (rate_of (hs_throttle S) r))"
    "jwtGuard (hs_verify S) (ro_public r) (hr_bearer q) = Inr user"
    "roleGuard (hs_addresses S) (hs_access S) (ro_roles r) user verdicts = (Inr (), rest)"
proof -
  obtain r where r: "route_of route_table (hr_method q) (hr_path q) = Some r"
    using assms by (auto simp: route_request_def split: option.splits)
  then have "r \<in> set route_table" "fits_path (ro_path r) (hr_path q)" by (auto simp: route_of_def find_Some_iff route_matches_def)
  moreover have "throttleGuard (hs_admits S) (hs_throttle S) (hr_ip q) r = Inr ()"
    using assms r by (cases "throttleGuard (hs_admits S) (hs_throttle S) (hr_ip q) r") (auto simp: route_request_def)
  ultimately show thesis
    using assms r by (intro that [of r]) (auto simp: route_request_def throttleGuard_def split: sum.splits prod.splits if_splits)
qed

lemma jwtGuard_session:
  "jwtGuard verify False bearer = Inr user \<Longrightarrow> \<exists>token sub addr. bearer = Some token \<and> verify token = Some (AccessToken sub addr) \<and>
     user = Some \<lparr>au_userId = sub, au_address = addr\<rparr>"
  by (auto simp: jwtGuard_def jwtValidate_def split: option.splits sum.splits jwt_payload.splits)

lemma in_table: "list_all P route_table \<Longrightarrow> r \<in> set route_table \<Longrightarrow> P r"
  by (simp add: list_all_iff)

text \<open>C35. Whatever reaches a handler has been let through as its kind demands. What spends the relayer's gas was
  admitted under a limit of its own, at most thirty a minute, and runs without a user. What acts for a user carries an
  access token of that user. What is under \<open>/api/admin\<close> carries one too and, but for the console's own \<open>me\<close>, a
  wallet that the role guard found holding one of the route's roles. The case of the letters of the path is
  immaterial.\<close>

theorem handlers_are_guarded:
  assumes "route_request S q verdicts = (Inr (h, user), rest)"
  shows "(h \<in> set SPONSORED_HANDLERS \<longrightarrow> user = None \<and> (\<exists>n \<le> 30. hs_admits S h (hr_ip q) n 60000)) \<and>
    (h \<in> set USER_HANDLERS \<or> map lower (take 2 (hr_path q)) = [''api'', ''admin''] \<longrightarrow>
       (\<exists>token sub addr. hr_bearer q = Some token \<and> hs_verify S token = Some (AccessToken sub addr) \<and>
          user = Some \<lparr>au_userId = sub, au_address = addr\<rparr> \<and>
          (map lower (take 2 (hr_path q)) = [''api'', ''admin''] \<and> h \<noteq> ''admin.me'' \<longrightarrow>
             (\<exists>r \<in> set route_table. ro_handler r = h \<and> ro_roles r \<noteq> [] \<and>
                fst (hasAnyRole (hs_addresses S) (hs_access S) addr (ro_roles r) verdicts)))))"
proof -
  obtain r where r: "r \<in> set route_table" "fits_path (ro_path r) (hr_path q)" "ro_handler r = h"
    "hs_admits S h (hr_ip q) (fst (rate_of (hs_throttle S) r)) (snd (rate_of (hs_throttle S) r))"
    "jwtGuard (hs_verify S) (ro_public r) (hr_bearer q) = Inr user"
    "roleGuard (hs_addresses S) (hs_access S) (ro_roles r) user verdicts = (Inr (), rest)"
    using assms by (rule route_request_reaches)
  note facts = table_facts(1-5) [THEN in_table, OF r(1)]
  have head: "take 2 (ro_path r) = map Lit (map lower (take 2 (hr_path q)))"
    by (rule fits_prefix [OF r(2) in_table [OF literal_heads r(1)]])
  have sponsored: "user = None \<and> (\<exists>n \<le> 30. hs_admits S h (hr_ip q) n 60000)" if "h \<in> set SPONSORED_HANDLERS"
    using facts(4) that r by (auto simp: jwtGuard_def rate_of_def split: option.splits)
  have session: "\<exists>token sub addr. hr_bearer q = Some token \<and> hs_verify S token = Some (AccessToken sub addr) \<and>
      user = Some \<lparr>au_userId = sub, au_address = addr\<rparr>" if "\<not> ro_public r"
    using r(5) that by (intro jwtGuard_session) simp
  define under where "under \<longleftrightarrow> map lower (take 2 (hr_path q)) = [''api'', ''admin'']"
  have closed: "\<not> ro_public r" if "h \<in> set USER_HANDLERS \<or> under"
    using that facts(2,5) head r(3) by (auto simp: under_def)
  have roles: "fst (hasAnyRole (hs_addresses S) (hs_access S) addr (ro_roles r) verdicts)"
    if "user = Some \<lparr>au_userId = sub, au_address = addr\<rparr>" "ro_roles r \<noteq> []" for sub addr
    using r(6) that by (auto simp: roleGuard_def split: if_splits prod.splits)
  have named: "ro_roles r \<noteq> []" if under "h \<noteq> ''admin.me''"
    using that facts(2) head r(3) by (auto simp: under_def)
  show ?thesis unfolding under_def [symmetric] using sponsored session closed roles named r(1,3) by blast
qed

theorem handlers_are_guarded_witness:
  "\<exists>S r. route_request S \<lparr>hr_method = GET, hr_path = [''api'', ''admin'', ''treasury''], hr_ip = ''1.2.3.4'', hr_bearer = Some ''t''\<rparr> [] =
      (Inr (''admin.treasury'', Some \<lparr>au_userId = ''u'', au_address = ''0xa''\<rparr>), r) \<and>
    (\<exists>x \<in> set route_table. ro_handler x = ''admin.treasury'' \<and> ro_roles x \<noteq> [] \<and>
       fst (hasAnyRole (hs_addresses S) (hs_access S) ''0xa'' (ro_roles x) []))"
proof -
  define S where "S = \<lparr>hs_admits = (\<lambda>_ _ _ _. True), hs_throttle = \<lparr>th_ttl = 60, th_limit = 120\<rparr>,
    hs_verify = (\<lambda>_. Some (AccessToken ''u'' ''0xa'')),
    hs_addresses = \<lparr>ad_lsLmsr = Some ''0xee'', ad_factory = None, ad_trustedResolver = None, ad_optimisticResolver = None, ad_blocklist = None\<rparr>,
    hs_access = \<lparr>xe_now = 100, xe_ready = True, xe_chain = (\<lambda>c r x. Some (r = FEE_MANAGER)), xe_devAllowlist = []\<rparr>\<rparr>"
  define q where "q = \<lparr>hr_method = GET, hr_path = [''api'', ''admin'', ''treasury''], hr_ip = ''1.2.3.4'', hr_bearer = Some ''t''\<rparr>"
  have "fst (route_request S q []) = Inr (''admin.treasury'', Some \<lparr>au_userId = ''u'', au_address = ''0xa''\<rparr>)"
    unfolding S_def q_def by code_simp
  then obtain rest where run: "route_request S q [] = (Inr (''admin.treasury'', Some \<lparr>au_userId = ''u'', au_address = ''0xa''\<rparr>), rest)"
    by (metis prod.collapse)
  have "lower ''api'' = ''api''" "lower ''admin'' = ''admin''" by code_simp+
  with handlers_are_guarded [OF run] show ?thesis
    using run unfolding q_def by (intro exI [of _ S] exI [of _ rest]) simp
qed

lemma lower_length [simp]: "length (lower s) = length s"
  by (simp add: lower_def)

text \<open>The request log looks at the letters.\<close>

lemma relay_line:
  assumes "map lower (take 2 path) = [''api'', part]" "part \<in> {''relay'', ''pool''}"
  shows "startsWith ''/api/relay'' (url_of path) \<longleftrightarrow> take 2 path = [''api'', ''relay'']"
proof -
  have two: "length (take 2 path) = 2" using arg_cong [OF assms(1), of length] by simp
  then obtain x y rest where path: "path = x # y # rest" by (cases path; cases "tl path") auto
  then have xy: "lower x = ''api''" "lower y = part" using assms(1) by simp_all
  then have len: "length x = 3" "length y = length part" using lower_length by (metis length_Cons list.size(3) numeral_3_eq_3, metis)
  have url: "url_of path = CHR ''/'' # x @ CHR ''/'' # y @ url_of rest" by (simp add: path url_of_def)
  have head: "startsWith ''/api/relay'' (url_of path) \<longleftrightarrow> x = ''api'' \<and> take 5 (y @ url_of rest) = ''relay''"
    using len(1) by (auto simp: startsWith_def url length_Suc_conv numeral_eq_Suc)
  have "take 5 (y @ url_of rest) = ''relay'' \<longleftrightarrow> y = ''relay''"
  proof (cases "part = ''relay''")
    case True
    then show ?thesis using len(2) by simp
  next
    case False
    then have pool: "lower y = ''pool''" using assms(2) xy by auto
    then obtain c cs where c: "y = c # cs" "lower_char c = CHR ''p''" by (cases y) (auto simp: lower_def)
    have "lower_char CHR ''r'' = CHR ''r''" by code_simp
    then have "c \<noteq> CHR ''r''" using c(2) by auto
    then show ?thesis using c(1) by simp
  qed
  then show ?thesis using head path by auto
qed

text \<open>C36. The shielded endpoints take no notice of a session: whatever token a caller sends along with a request whose
  path begins with \<open>api/relay\<close> or \<open>api/pool\<close>, in any case of letters, the request is treated as if it carried none,
  runs without a user and reads no role. What the request log keeps is another matter. Outside the tests a request to
  these endpoints is logged, with the address it came from, unless its path begins with exactly \<open>/api/relay\<close>: a
  request to the pool is, and so is one to the relay whose letters are of another case.\<close>

theorem shielded_requests_are_anonymous:
  assumes "map lower (take 2 (hr_path q)) = [''api'', part]" "part \<in> {''relay'', ''pool''}"
  shows "route_request S (q\<lparr>hr_bearer := b\<rparr>) verdicts = route_request S q verdicts \<and>
    snd (route_request S q verdicts) = verdicts \<and> (fst (route_request S q verdicts) = Inr (h, user) \<longrightarrow> user = None) \<and>
    (autoLogged False (Some (url_of (hr_path q))) \<longleftrightarrow> take 2 (hr_path q) \<noteq> [''api'', ''relay''])"
proof -
  have logged: "autoLogged False (Some (url_of (hr_path q))) \<longleftrightarrow> take 2 (hr_path q) \<noteq> [''api'', ''relay'']"
    using relay_line [OF assms] by (simp add: autoLogged_def)
  have heads: "list_all (\<lambda>r. take 2 (ro_path r) \<in> {[Lit ''api'', Lit ''relay''], [Lit ''api'', Lit ''pool'']} \<longrightarrow>
      ro_public r \<and> ro_roles r = []) route_table"
    by code_simp
  show ?thesis
  proof (cases "route_of route_table (hr_method q) (hr_path q)")
    case None
    then show ?thesis using logged by (simp add: route_request_def)
  next
    case (Some r)
    then have r: "r \<in> set route_table" "fits_path (ro_path r) (hr_path q)" by (auto simp: route_of_def find_Some_iff route_matches_def)
    have "take 2 (ro_path r) = map Lit (map lower (take 2 (hr_path q)))"
      by (rule fits_prefix [OF r(2) in_table [OF literal_heads r(1)]])
    then have "ro_public r" "ro_roles r = []" using in_table [OF heads r(1)] assms by auto
    then show ?thesis using Some logged
      by (auto simp: route_request_def jwtGuard_def roleGuard_def split: sum.splits)
  qed
qed

text \<open>A withdrawal, and a trade sent to the relay in capitals: the first reaches its handler and the second too, and both are
  logged.\<close>

theorem shielded_requests_are_anonymous_witness:
  "\<forall>S verdicts. route_request S \<lparr>hr_method = POST, hr_path = [''API'', ''Relay''], hr_ip = ''1.2.3.4'', hr_bearer = Some ''t''\<rparr> verdicts =
      route_request S \<lparr>hr_method = POST, hr_path = [''API'', ''Relay''], hr_ip = ''1.2.3.4'', hr_bearer = None\<rparr> verdicts \<and>
    autoLogged False (Some (url_of [''API'', ''Relay''])) \<and>
    map_option ro_handler (route_of route_table POST [''API'', ''Relay'']) = Some ''relay.submit''"
proof (intro allI conjI)
  fix S verdicts
  let ?q = "\<lparr>hr_method = POST, hr_path = [''API'', ''Relay''], hr_ip = ''1.2.3.4'', hr_bearer = None\<rparr>"
  have "map lower [''API'', ''Relay''] = [''api'', ''relay'']" by code_simp
  then have shape: "map lower (take 2 (hr_path ?q)) = [''api'', ''relay'']" by simp
  note anonymous = shielded_requests_are_anonymous [of ?q "''relay''" S "Some ''t''" verdicts, OF shape]
  from anonymous show "route_request S \<lparr>hr_method = POST, hr_path = [''API'', ''Relay''], hr_ip = ''1.2.3.4'', hr_bearer = Some ''t''\<rparr> verdicts =
      route_request S ?q verdicts" by simp
  from anonymous show "autoLogged False (Some (url_of [''API'', ''Relay'']))" by simp
  show "map_option ro_handler (route_of route_table POST [''API'', ''Relay'']) = Some ''relay.submit''" by code_simp
qed

text \<open>Redis is tried again for ever, at most two seconds apart.\<close>

lemma retryDelay_bounds: "retryDelay n \<le> 2000" "retryDelay n \<le> retryDelay (n + 1)" "10 \<le> n \<Longrightarrow> retryDelay n = 2000"
  by (auto simp: retryDelay_def)

end
