(* ===== verification/ChainWiring.thy ===== *)
theory ChainWiring
  imports ChainClient Health Daemons ConfigProps
begin

text \<open>
  \<open>ChainService\<close> of \<open>src/src/chain/chain.service.ts\<close> as the other services see it: the two clients it opens at start,
  \<open>require\<close>, and every read on top of them. The node is a parameter: what it answers over a transport, \<open>None\<close> when
  a call fails after its retries. From these reads the parameters of the other components are built, the indexer's
  \<open>rpc\<close>, the processor's prices, the role oracle, the pool's roots and the live pages.
\<close>

section \<open>The clients\<close>

record transport =
  tr_url :: string
  tr_chainId :: int
  tr_retryCount :: nat
  tr_retryDelay :: nat
  tr_timeout :: nat
  tr_batchWait :: "nat option"

record chain_service =
  cs_client :: "transport option"
  cs_timestampClient :: "transport option"

definition chainInit :: "node_config \<Rightarrow> chain_service" where
  "chainInit N =
     (if nc_httpUrl N = [] then \<lparr>cs_client = None, cs_timestampClient = None\<rparr>
      else (let plain = \<lparr>tr_url = nc_httpUrl N, tr_chainId = nc_chainId N, tr_retryCount = 5, tr_retryDelay = 250,
              tr_timeout = 20000, tr_batchWait = None\<rparr>
            in \<lparr>cs_client = Some plain, cs_timestampClient = Some (plain\<lparr>tr_batchWait := Some 16\<rparr>)\<rparr>))"

definition isReady :: "chain_service \<Rightarrow> bool" where
  "isReady S \<longleftrightarrow> cs_client S \<noteq> None"

datatype chain_failure = NotConfigured | NodeFailed

definition requireClient :: "chain_service \<Rightarrow> chain_failure + transport" where
  "requireClient S = (case cs_client S of None \<Rightarrow> Inl NotConfigured | Some c \<Rightarrow> Inr c)"

section \<open>The reads\<close>

record chain_node =
  nd_head :: "transport \<Rightarrow> int option"
  nd_logs :: "transport \<Rightarrow> string \<Rightarrow> stream_kind \<Rightarrow> int \<Rightarrow> int \<Rightarrow> raw_log list option"
  nd_time :: "transport \<Rightarrow> int \<Rightarrow> int option"
  nd_prices :: "transport \<Rightarrow> string \<Rightarrow> int \<Rightarrow> int list option"
  nd_uint :: "transport \<Rightarrow> string \<Rightarrow> string \<Rightarrow> int option"
  nd_role :: "transport \<Rightarrow> string \<Rightarrow> role \<Rightarrow> string \<Rightarrow> bool option"
  nd_feeRecipient :: "transport \<Rightarrow> string \<Rightarrow> string option"
  nd_paused :: "transport \<Rightarrow> string \<Rightarrow> bool option"
  nd_resolver :: "transport \<Rightarrow> string \<Rightarrow> resolver_node"

definition over :: "chain_failure + transport \<Rightarrow> (transport \<Rightarrow> 'a option) \<Rightarrow> chain_failure + 'a" where
  "over c call = (case c of Inl e \<Rightarrow> Inl e
     | Inr t \<Rightarrow> (case call t of None \<Rightarrow> Inl NodeFailed | Some x \<Rightarrow> Inr x))"

definition getBlockNumber :: "chain_service \<Rightarrow> chain_node \<Rightarrow> chain_failure + int" where
  "getBlockNumber S n = over (requireClient S) (nd_head n)"

definition getLogs :: "chain_service \<Rightarrow> chain_node \<Rightarrow> string \<Rightarrow> stream_kind \<Rightarrow> int \<Rightarrow> int \<Rightarrow> chain_failure + raw_log list" where
  "getLogs S n address k fromBlock toBlock = over (requireClient S) (\<lambda>t. nd_logs n t address k fromBlock toBlock)"

text \<open>\<open>timestampClient ?? require()\<close>.\<close>

definition readBlockTime :: "chain_service \<Rightarrow> chain_node \<Rightarrow> int \<Rightarrow> chain_failure + int" where
  "readBlockTime S n block =
     over (case cs_timestampClient S of Some t \<Rightarrow> Inr t | None \<Rightarrow> requireClient S) (\<lambda>t. nd_time n t block)"

definition readPrices :: "chain_service \<Rightarrow> chain_node \<Rightarrow> string \<Rightarrow> int \<Rightarrow> chain_failure + int list" where
  "readPrices S n address marketId = over (requireClient S) (\<lambda>t. nd_prices n t address marketId)"

definition readUint :: "chain_service \<Rightarrow> chain_node \<Rightarrow> string \<Rightarrow> string \<Rightarrow> chain_failure + int" where
  "readUint S n address functionName = over (requireClient S) (\<lambda>t. nd_uint n t address functionName)"

definition readRole :: "chain_service \<Rightarrow> chain_node \<Rightarrow> string \<Rightarrow> role \<Rightarrow> string \<Rightarrow> chain_failure + bool" where
  "readRole S n contract r acct = over (requireClient S) (\<lambda>t. nd_role n t contract r acct)"

definition readFeeRecipient :: "chain_service \<Rightarrow> chain_node \<Rightarrow> string \<Rightarrow> chain_failure + string" where
  "readFeeRecipient S n contract = over (requireClient S) (\<lambda>t. nd_feeRecipient n t contract)"

definition readPaused :: "chain_service \<Rightarrow> chain_node \<Rightarrow> string \<Rightarrow> chain_failure + bool" where
  "readPaused S n contract = over (requireClient S) (\<lambda>t. nd_paused n t contract)"

definition readTerms :: "chain_service \<Rightarrow> chain_node \<Rightarrow> string \<Rightarrow> string \<Rightarrow> int \<Rightarrow> chain_failure + resolution_terms" where
  "readTerms S n resolver contract marketId =
     over (requireClient S) (\<lambda>t. readResolutionTerms (nd_resolver n t) resolver contract marketId)"

section \<open>What the services are given\<close>

definition answered_by :: "chain_failure + 'a \<Rightarrow> 'a option" where
  "answered_by r = (case r of Inl _ \<Rightarrow> None | Inr x \<Rightarrow> Some x)"

definition indexerRpc :: "chain_service \<Rightarrow> chain_node \<Rightarrow> rpc" where
  "indexerRpc S n = \<lparr>rpc_head = answered_by (getBlockNumber S n),
     rpc_logs = (\<lambda>address k fromBlock toBlock. answered_by (getLogs S n address k fromBlock toBlock)),
     rpc_time = (\<lambda>block. answered_by (readBlockTime S n block))\<rparr>"

definition processorChain :: "chain_service \<Rightarrow> chain_node \<Rightarrow> ProcessorState.env \<Rightarrow> ProcessorState.env" where
  "processorChain S n E = E\<lparr>e_chainReady := isReady S,
     e_prices := (\<lambda>address marketId. answered_by (readPrices S n address marketId))\<rparr>"

definition accessChain :: "chain_service \<Rightarrow> chain_node \<Rightarrow> access_env \<Rightarrow> access_env" where
  "accessChain S n A = A\<lparr>xe_ready := isReady S, xe_chain := (\<lambda>contract r acct. answered_by (readRole S n contract r acct))\<rparr>"

text \<open>\<open>readPool\<close> and \<open>readEntrypoint\<close> of the pool service.\<close>

definition poolChain :: "chain_service \<Rightarrow> chain_node \<Rightarrow> pool_service_config \<Rightarrow> pool_env \<Rightarrow> pool_env" where
  "poolChain S n P E = (let view_of = (\<lambda>address fn. case address of None \<Rightarrow> None | Some a \<Rightarrow> answered_by (readUint S n a fn)) in
     E\<lparr>pe_chainReady := isReady S, pe_scope := view_of (ps_privacyPool P) ''SCOPE'',
       pe_currentRoot := view_of (ps_privacyPool P) ''currentRoot'', pe_latestRoot := view_of (ps_entrypoint P) ''latestRoot''\<rparr>)"

text \<open>\<open>onModuleInit\<close> of the indexer: whether its loop is entered.\<close>

definition indexerStarts :: "chain_service \<Rightarrow> node_config \<Rightarrow> chain_config \<Rightarrow> bool" where
  "indexerStarts S N C \<longleftrightarrow> nc_indexerEnabled N \<and> isReady S \<and> streams C \<noteq> []"

section \<open>Without a node\<close>

lemma chainInit_ready [simp]: "isReady (chainInit N) \<longleftrightarrow> nc_httpUrl N \<noteq> []"
  by (simp add: isReady_def chainInit_def Let_def)

lemma chainInit_clients:
  "nc_httpUrl N = [] \<Longrightarrow> requireClient (chainInit N) = Inl NotConfigured"
  "nc_httpUrl N = [] \<Longrightarrow> cs_timestampClient (chainInit N) = None"
  by (simp_all add: chainInit_def requireClient_def)

lemmas chain_read_defs = getBlockNumber_def getLogs_def readBlockTime_def readPrices_def readUint_def readRole_def
  readFeeRecipient_def readPaused_def readTerms_def over_def answered_by_def

text \<open>A validated configuration without a node.\<close>

definition chainless :: "env \<Rightarrow> bool" where
  "chainless E \<longleftrightarrow> textOf (E ''RPC_HTTP_URL'') = []"

lemma chainless_flags:
  assumes "validateEnv url vars = Inr E" "chainless E"
  shows "\<not> nc_indexerEnabled (nodeConfig E)" "\<not> flagOf (E ''RELAY_ENABLED'')"
  using validated(2) [OF assms(1)] assms(2)
  by (auto simp: guards_def chainless_def nodeConfig_def missing_def RELAY_VARIABLES_def split: if_splits)

text \<open>C37. A validated configuration without a node is a backend that runs and serves what it has. With an environment
  that passed \<open>validateEnv\<close> and names no node, each of the nine reads of the chain is refused as not configured,
  whatever a node would have answered. Neither indexer starts and the relay is off; whether an address holds a role is
  answered from the development list of the environment alone, which is empty in production; a market's terms and the
  treasury read as not available; the health probe reads unknown; a batch leaves the prices alone and does not reject;
  the pool is off.\<close>

theorem chainless_backend_stays_up:
  assumes env: "validateEnv url vars = Inr E" "chainless E"
  defines "S \<equiv> chainInit (nodeConfig E)"
  shows "(\<forall>n c k f t b i fn r x z. getBlockNumber S n = Inl NotConfigured \<and> getLogs S n c k f t = Inl NotConfigured \<and>
      readBlockTime S n b = Inl NotConfigured \<and> readPrices S n c i = Inl NotConfigured \<and> readUint S n c fn = Inl NotConfigured \<and>
      readRole S n c r x = Inl NotConfigured \<and> readFeeRecipient S n c = Inl NotConfigured \<and>
      readPaused S n c = Inl NotConfigured \<and> readTerms S n z c i = Inl NotConfigured) \<and>
    (isProduction E \<longrightarrow> devAddresses E = []) \<and> \<not> indexerStarts S (nodeConfig E) C \<and>
    (\<forall>R. relayConfig E = Some R \<longrightarrow> \<not> rc_enabled R) \<and>
    (\<forall>pools. poolInit (poolConfigured E) (nc_indexerEnabled (nodeConfig E)) (isReady S) (poolConfig E) pools = pools) \<and>
    hasRole a (accessChain S n (A\<lparr>xe_devAllowlist := devAddresses E\<rparr>)) address r verdicts =
      (lower address \<in> set (devAddresses E), verdicts) \<and>
    resolutionTerms units decimals (isReady S) resolver nodes ident db =
      (if tfind m_id ident (markets db) = None then None else Some None) \<and>
    \<not> ty_available (treasury (isReady S) usdc lsLmsr decimals feeRecipient paused) \<and>
    ih_status (indexerHealth (isReady S) (indexerRpc S n) db) = Unknown \<and>
    refreshPrices (processorChain S n P) logs ref s = (Inr (), s) \<and>
    \<not> poolEnabled (poolServiceConfig E) (poolChain S n (poolServiceConfig E) Q)"
proof -
  have url: "nc_httpUrl (nodeConfig E) = []" using env(2) by (simp add: chainless_def nodeConfig_def)
  have off: "\<not> isReady S" using url by (simp add: S_def)
  have reads: "requireClient S = Inl NotConfigured" "cs_timestampClient S = None"
    using chainInit_clients [OF url] by (simp_all add: S_def)
  have "refreshPrices (processorChain S n P) logs ref s = (Inr (), s)"
    using off by (simp add: refreshPrices_def processorChain_def split: option.split)
  moreover have "resolutionTerms units decimals (isReady S) resolver nodes ident db =
      (if tfind m_id ident (markets db) = None then None else Some None)"
    using off by (auto simp: resolutionTerms_def split: option.split)
  moreover have "hasRole a (accessChain S n (A\<lparr>xe_devAllowlist := devAddresses E\<rparr>)) address r verdicts =
      (lower address \<in> set (devAddresses E), verdicts)"
    using off by (simp add: hasRole_def accessChain_def Let_def)
  moreover have no_dev: "isProduction E \<longrightarrow> devAddresses E = []"
    using validated(2) [OF env(1)] by (auto simp: guards_def isProduction_def devAddresses_def split: if_splits)
  moreover have "\<forall>R. relayConfig E = Some R \<longrightarrow> \<not> rc_enabled R"
    using chainless_flags(2) [OF env] relay_fields(1) by auto
  ultimately show ?thesis
    using off reads chainless_flags [OF env]
    by (simp add: chain_read_defs indexerStarts_def poolInit_def treasury_def indexerHealth_def lagStatus_def Let_def
      poolEnabled_def poolChain_def no_dev split: option.split)
qed

definition chainless_vars :: "string \<rightharpoonup> string" where
  "chainless_vars = [''NODE_ENV'' \<mapsto> ''production'', ''DATABASE_URL'' \<mapsto> ''postgresql://db'',
     ''JWT_ACCESS_SECRET'' \<mapsto> ''0123456789abcdef'', ''JWT_REFRESH_SECRET'' \<mapsto> ''fedcba9876543210'',
     ''RELAY_MAX_FEE_GWEI'' \<mapsto> ''250'', ''RELAY_DAILY_CAP_MON'' \<mapsto> ''20.5'', ''RELAY_MIN_BALANCE_MON'' \<mapsto> ''.25'']"

lemma chainless_readable: "unreadable (\<lambda>s. s \<noteq> []) chainless_vars = []"
  by (simp add: unreadable_def envSchema_def chainless_vars_def readVar_def sample_positive number_of_digits whole_def
      digit_val_def address_shape_def positive_whole hex_def radix_val_def)

lemma chainless_settings:
  "parsedEnv (\<lambda>s. s \<noteq> []) chainless_vars ''NODE_ENV'' = Text ''production''"
  "parsedEnv (\<lambda>s. s \<noteq> []) chainless_vars ''INDEXER_ENABLED'' = Flag False"
  "parsedEnv (\<lambda>s. s \<noteq> []) chainless_vars ''UNLINK_ENABLED'' = Flag False"
  "parsedEnv (\<lambda>s. s \<noteq> []) chainless_vars ''UNLINK_ENGINE_URL'' = Text []"
  "parsedEnv (\<lambda>s. s \<noteq> []) chainless_vars ''RELAY_ENABLED'' = Flag False"
  "parsedEnv (\<lambda>s. s \<noteq> []) chainless_vars ''RPC_HTTP_URL'' = Text []"
  "parsedEnv (\<lambda>s. s \<noteq> []) chainless_vars ''ADMIN_DEV_ADDRESSES'' = Items []"
  by (simp_all add: parsedEnv_def envSchema_def chainless_vars_def readVar_def csv_def js_trim_def)

theorem chainless_backend_stays_up_witness:
  "\<exists>E. validateEnv (\<lambda>s. s \<noteq> []) chainless_vars = Inr E \<and> isProduction E \<and> devAddresses E = [] \<and>
    (\<forall>n c k f t. getLogs (chainInit (nodeConfig E)) n c k f t = Inl NotConfigured)"
proof -
  let ?E = "parsedEnv (\<lambda>s. s \<noteq> []) chainless_vars"
  have env: "validateEnv (\<lambda>s. s \<noteq> []) chainless_vars = Inr ?E"
    by (simp add: validateEnv_def chainless_readable guards_def chainless_settings)
  moreover have off: "chainless ?E" and production: "isProduction ?E"
    by (simp_all add: chainless_def chainless_settings isProduction_def)
  note up = chainless_backend_stays_up [OF env off]
  have "devAddresses ?E = []" using conjunct1 [OF conjunct2 [OF up]] production by blast
  moreover have "\<forall>n c k f t. getLogs (chainInit (nodeConfig ?E)) n c k f t = Inl NotConfigured" using conjunct1 [OF up] by blast
  ultimately show ?thesis using production by blast
qed

text \<open>With one, the heavy reads go over a transport that does not batch, block times over one that does.\<close>

lemma configured_transports:
  assumes "nc_httpUrl N \<noteq> []"
  shows "\<exists>plain batched. cs_client (chainInit N) = Some plain \<and> cs_timestampClient (chainInit N) = Some batched \<and>
    tr_url plain = nc_httpUrl N \<and> tr_batchWait plain = None \<and> batched = plain\<lparr>tr_batchWait := Some 16\<rparr> \<and>
    (\<forall>n a k f t. getLogs (chainInit N) n a k f t = over (Inr plain) (\<lambda>c. nd_logs n c a k f t)) \<and>
    (\<forall>n b. readBlockTime (chainInit N) n b = over (Inr batched) (\<lambda>c. nd_time n c b))"
  using assms by (simp add: chainInit_def Let_def getLogs_def requireClient_def readBlockTime_def)

end
