(* ===== verification/ProbeRun.thy ===== *)
theory ProbeRun
  imports Scripts
begin

text \<open>
  What \<open>src/scripts/e2e-operator.mjs\<close> and \<open>src/scripts/e2e-resolution.mjs\<close> are made of: transactions that are sent
  and waited for, reads of the deployed contracts, calls that are expected to revert, the clock, and the list of
  checks. The chain is a parameter. Every exchange with it is appended to a trace, and what it answers is a function
  of the whole trace, so the chain may answer the same question differently at any two moments.
\<close>

section \<open>Exchanges with the chain\<close>

datatype contract_call =
    CallApprove string int                    \<comment> \<open>spender, amount\<close>
  | CallMint string int                       \<comment> \<open>to, amount\<close>
  | CallTransfer string int
  | CallBuy int int int int                   \<comment> \<open>market id, outcome, shares, most it may cost\<close>
  | CallPropose string int int                \<comment> \<open>market contract, id, outcome\<close>
  | CallDispute string int int
  | CallFinalize string int
  | CallArbitrate string int int
  | CallQuorum string contract_call           \<comment> \<open>the multisig's \<open>propose\<close>: target, data\<close>

datatype contract_read =
    BalanceOf string
  | CollateralOf int | FeesOf int | CloseTimeOf int | IsSettled int
  | WinnerOf int                              \<comment> \<open>\<open>getMarket(id).winningOutcomeId\<close>\<close>
  | ReadBond | BondFor string int | ReadProposalFee | RewardFor string int | ReadDisputeWindow | ReadRewardPool
  | ReadProposal string int | IsBanned string

datatype probe_event =
    SendTx string string contract_call        \<comment> \<open>account, contract, data\<close>
  | SendMon string string int
  | AwaitReceipt
  | ReadContract string contract_read
  | TryCall string string contract_call       \<comment> \<open>\<open>eth_call\<close>: nothing is sent\<close>
  | ReadClock
  | Pause int

text \<open>The fields of \<open>getProposal\<close> the probes look at.\<close>

record onchain_proposal =
  op_disputeDeadline :: int
  op_phase :: int
  op_proposerBonded :: bool

text \<open>The chain's answer to the last event of a trace. \<open>None\<close> is an exception, but for \<open>pw_refusal\<close>, where \<open>Some m\<close>
  is an exception of any kind, with its \<open>shortMessage\<close> or its message.\<close>

record probe_world =
  pw_takes :: "probe_event list \<Rightarrow> bool"
  pw_receipt :: "probe_event list \<Rightarrow> bool option"
  pw_uint :: "probe_event list \<Rightarrow> int option"
  pw_flag :: "probe_event list \<Rightarrow> bool option"
  pw_proposal :: "probe_event list \<Rightarrow> onchain_proposal option"
  pw_refusal :: "probe_event list \<Rightarrow> string option"
  pw_clock :: "probe_event list \<Rightarrow> int"      \<comment> \<open>\<open>Date.now()\<close>\<close>

datatype probe_error =
    ExchangeFailed        \<comment> \<open>a transaction was not taken, or a receipt or a read did not come\<close>
  | TxReverted
  | BadDate               \<comment> \<open>\<open>toISOString\<close> of a date out of range\<close>
  | OutOfFuel             \<comment> \<open>still waiting: not an exception of the program\<close>

record probe_run =
  pr_trace :: "probe_event list"
  pr_checks :: "(string \<times> bool) list"

type_synonym 'a probe = "(probe_run, probe_error, 'a) proc"

section \<open>Steps\<close>

definition exchange :: "probe_event \<Rightarrow> (probe_event list \<Rightarrow> 'a option) \<Rightarrow> 'a probe" where
  "exchange ev answer = (\<lambda>s. let tr = pr_trace s @ [ev]; t = s\<lparr>pr_trace := tr\<rparr>
     in case answer tr of None \<Rightarrow> (Inl ExchangeFailed, t) | Some v \<Rightarrow> (Inr v, t))"

definition read_uint :: "probe_world \<Rightarrow> string \<Rightarrow> contract_read \<Rightarrow> int probe" where
  "read_uint W to q = exchange (ReadContract to q) (pw_uint W)"

definition read_flag :: "probe_world \<Rightarrow> string \<Rightarrow> contract_read \<Rightarrow> bool probe" where
  "read_flag W to q = exchange (ReadContract to q) (pw_flag W)"

definition read_proposal :: "probe_world \<Rightarrow> string \<Rightarrow> contract_read \<Rightarrow> onchain_proposal probe" where
  "read_proposal W to q = exchange (ReadContract to q) (pw_proposal W)"

definition read_clock :: "probe_world \<Rightarrow> int probe" where
  "read_clock W = exchange ReadClock (\<lambda>tr. Some (pw_clock W tr))"

definition pause :: "int \<Rightarrow> unit probe" where
  "pause ms = exchange (Pause ms) (\<lambda>_. Some ())"

definition taken :: "bool \<Rightarrow> unit option" where
  "taken b = (if b then Some () else None)"

definition await_receipt :: "probe_world \<Rightarrow> bool probe" where
  "await_receipt W = exchange AwaitReceipt (pw_receipt W)"

text \<open>\<open>send\<close>: a transaction, its receipt, and an exception unless that says success.\<close>

definition send_call :: "probe_world \<Rightarrow> string \<Rightarrow> string \<Rightarrow> contract_call \<Rightarrow> unit probe" where
  "send_call W acct to call =
     seqp (exchange (SendTx acct to call) (\<lambda>tr. taken (pw_takes W tr)))
       (bindp (await_receipt W) (\<lambda>ok. if ok then ret () else throw TxReverted))"

text \<open>The plain transfers of gas: the receipt is waited for and not looked at.\<close>

definition send_mon :: "probe_world \<Rightarrow> string \<Rightarrow> string \<Rightarrow> int \<Rightarrow> unit probe" where
  "send_mon W acct to amount =
     seqp (exchange (SendMon acct to amount) (\<lambda>tr. taken (pw_takes W tr)))
       (bindp (await_receipt W) (\<lambda>_. ret ()))"

text \<open>\<open>expectRevert\<close>: the message of whatever exception the call ends in, or \<open>None\<close> (the source's \<open>null\<close>) when it
  goes through.\<close>

definition expectRevert :: "probe_world \<Rightarrow> string \<Rightarrow> contract_call \<Rightarrow> string \<Rightarrow> string option probe" where
  "expectRevert W to call acct = exchange (TryCall acct to call) (\<lambda>tr. Some (pw_refusal W tr))"

text \<open>\<open>/word|revert/i.test(message)\<close>.\<close>

definition reverted_with :: "string \<Rightarrow> string option \<Rightarrow> bool" where
  "reverted_with word message = (case message of None \<Rightarrow> False
     | Some x \<Rightarrow> contains_ci word x \<or> contains_ci ''revert'' x)"

definition check_that :: "string \<Rightarrow> bool \<Rightarrow> unit probe" where
  "check_that name ok = modp (\<lambda>s. s\<lparr>pr_checks := pr_checks s @ [(name, ok)]\<rparr>)"

section \<open>Numbers\<close>

text \<open>\<open>Number(x)\<close> of a \<open>bigint\<close>.\<close>

definition number_of :: "int \<Rightarrow> js_float" where
  "number_of n = to_double (of_int n)"

definition js_minus :: "js_float \<Rightarrow> js_float \<Rightarrow> js_float" where
  "js_minus x y = js_plus x (negated y)"

definition js_abs :: "js_float \<Rightarrow> js_float" where
  "js_abs x = (case x of Finite a \<Rightarrow> Finite \<bar>a\<bar> | Infinite _ \<Rightarrow> Infinite True | NaN \<Rightarrow> NaN)"

definition js_less :: "js_float \<Rightarrow> js_float \<Rightarrow> bool" where
  "js_less x y = (case (x, y) of
     (Finite a, Finite b) \<Rightarrow> a < b
   | (Finite _, Infinite q) \<Rightarrow> q | (Infinite p, Finite _) \<Rightarrow> \<not> p | (Infinite p, Infinite q) \<Rightarrow> \<not> p \<and> q
   | _ \<Rightarrow> False)"

definition js_le :: "js_float \<Rightarrow> js_float \<Rightarrow> bool" where
  "js_le x y = (js_less x y \<or> x = y \<and> x \<noteq> NaN)"

text \<open>\<open>Math.floor(Date.now() / 1000)\<close>; the clock is a whole number of milliseconds, far below \<open>2 ^ 53\<close>, where the
  floor of the rounded quotient is the quotient of the division.\<close>

definition clock_seconds :: "probe_world \<Rightarrow> int probe" where
  "clock_seconds W = bindp (read_clock W) (\<lambda>ms. ret (ms div 1000))"

text \<open>\<open>new Date(seconds * 1000).toISOString()\<close> throws outside a hundred million days of the epoch.\<close>

definition printable_date :: "int \<Rightarrow> bool" where
  "printable_date seconds = js_le (js_abs (js_times (number_of seconds) (Finite 1000))) (Finite 8640000000000000)"

section \<open>Waiting for the close\<close>

fun waitForClose :: "probe_world \<Rightarrow> nat \<Rightarrow> int \<Rightarrow> unit probe" where
  "waitForClose W 0 close = throw OutOfFuel"
| "waitForClose W (Suc fuel) close = bindp (clock_seconds W) (\<lambda>now.
     if js_le (number_of now) (number_of close) then seqp (pause 5000) (waitForClose W fuel close) else ret ())"

text \<open>The line that announces the wait, and the wait.\<close>

definition awaitClose :: "probe_world \<Rightarrow> nat \<Rightarrow> int \<Rightarrow> unit probe" where
  "awaitClose W fuel close = (if printable_date close then waitForClose W fuel close else throw BadDate)"

section \<open>A script\<close>

text \<open>\<open>KEY.startsWith('0x') ? KEY : `0x${KEY}`\<close>.\<close>

definition prefixed_key :: "string \<Rightarrow> string" where
  "prefixed_key k = (if take 2 k = ''0x'' then k else ''0x'' @ k)"

record probe_env =
  pe_marketId :: "string option"              \<comment> \<open>\<open>process.env.MARKET_ID\<close>\<close>
  pe_privateKey :: "string option"

text \<open>What \<open>../contracts/deployments/10143.json\<close> holds.\<close>

record probe_book =
  pb_usdc :: string
  pb_lsLmsrMarket :: string
  pb_optimisticResolver :: string
  pb_resolverMultisig :: string
  pb_tradingBlocklist :: string

text \<open>The module's constants: the market and the account. \<open>None\<close> is an exception before \<open>main\<close>.\<close>

definition probe_setup :: "(string \<Rightarrow> string option) \<Rightarrow> probe_env \<Rightarrow> (int \<times> string) option" where
  "probe_setup accountOf env =
     (case (bigint_of_string (case pe_marketId env of None \<Rightarrow> ''0'' | Some x \<Rightarrow> x), pe_privateKey env) of
        (Some market, Some k) \<Rightarrow> map_option (\<lambda>a. (market, a)) (accountOf (prefixed_key k))
      | _ \<Rightarrow> None)"

definition failed_checks :: "probe_run \<Rightarrow> string list" where
  "failed_checks s = map fst (filter (\<lambda>(name, ok). \<not> ok) (pr_checks s))"

definition fresh_run :: probe_run where
  "fresh_run = \<lparr>pr_trace = [], pr_checks = []\<rparr>"

text \<open>The tail of \<open>main\<close> and the handler of its rejection: the exit code.\<close>

definition probe_exit :: "unit probe \<Rightarrow> int \<times> probe_run" where
  "probe_exit body = (case body fresh_run of
     (Inl _, s) \<Rightarrow> (1, s)
   | (Inr _, s) \<Rightarrow> (if failed_checks s \<noteq> [] then 1 else 0, s))"

section \<open>Runs\<close>

definition further :: "probe_event list \<Rightarrow> probe_run \<Rightarrow> probe_run" where
  "further evs s = s\<lparr>pr_trace := pr_trace s @ evs\<rparr>"

definition noted :: "string \<Rightarrow> bool \<Rightarrow> probe_run \<Rightarrow> probe_run" where
  "noted name ok s = s\<lparr>pr_checks := pr_checks s @ [(name, ok)]\<rparr>"

lemma trace_further [simp]: "pr_trace (further evs s) = pr_trace s @ evs"
  by (simp add: further_def)

lemma trace_noted [simp]: "pr_trace (noted name ok s) = pr_trace s"
  by (simp add: noted_def)

lemma checks_further [simp]: "pr_checks (further evs s) = pr_checks s"
  by (simp add: further_def)

lemma checks_noted [simp]: "pr_checks (noted name ok s) = pr_checks s @ [(name, ok)]"
  by (simp add: noted_def)

lemma further_further [simp]: "further b (further a s) = further (a @ b) s"
  by (simp add: further_def)

lemma exchange_Inr:
  "exchange ev f s = (Inr v, t) \<longleftrightarrow> f (pr_trace s @ [ev]) = Some v \<and> t = further [ev] s"
  by (auto simp: exchange_def Let_def further_def split: option.splits)

lemma taken_Some [simp]: "taken b = Some u \<longleftrightarrow> b"
  by (simp add: taken_def)

named_theorems probe_runs

lemma read_uint_Inr [probe_runs]:
  "read_uint W to q s = (Inr v, t) \<longleftrightarrow> pw_uint W (pr_trace s @ [ReadContract to q]) = Some v \<and> t = further [ReadContract to q] s"
  by (simp add: read_uint_def exchange_Inr)

lemma read_flag_Inr [probe_runs]:
  "read_flag W to q s = (Inr v, t) \<longleftrightarrow> pw_flag W (pr_trace s @ [ReadContract to q]) = Some v \<and> t = further [ReadContract to q] s"
  by (simp add: read_flag_def exchange_Inr)

lemma read_proposal_Inr [probe_runs]:
  "read_proposal W to q s = (Inr v, t) \<longleftrightarrow>
     pw_proposal W (pr_trace s @ [ReadContract to q]) = Some v \<and> t = further [ReadContract to q] s"
  by (simp add: read_proposal_def exchange_Inr)

lemma clock_Inr [probe_runs]:
  "clock_seconds W s = (Inr v, t) \<longleftrightarrow> v = pw_clock W (pr_trace s @ [ReadClock]) div 1000 \<and> t = further [ReadClock] s"
  by (auto simp: clock_seconds_def read_clock_def bindp_Inr exchange_Inr)

lemma pause_Inr [probe_runs]: "pause ms s = (Inr u, t) \<longleftrightarrow> t = further [Pause ms] s"
  by (simp add: pause_def exchange_Inr)

lemma expectRevert_Inr [probe_runs]:
  "expectRevert W to call acct s = (Inr v, t) \<longleftrightarrow>
     v = pw_refusal W (pr_trace s @ [TryCall acct to call]) \<and> t = further [TryCall acct to call] s"
  by (auto simp: expectRevert_def exchange_Inr)

lemma check_that_Inr [probe_runs]: "check_that name ok s = (Inr u, t) \<longleftrightarrow> t = noted name ok s"
  by (auto simp: check_that_def noted_def modp_def)

lemma send_call_Inr [probe_runs]:
  "send_call W a to c s = (Inr u, t) \<longleftrightarrow> pw_takes W (pr_trace s @ [SendTx a to c]) \<and>
     pw_receipt W (pr_trace s @ [SendTx a to c, AwaitReceipt]) = Some True \<and> t = further [SendTx a to c, AwaitReceipt] s"
  by (auto simp: send_call_def await_receipt_def seqp_Inr bindp_Inr exchange_Inr ret_def throw_def split: if_splits)

lemma send_mon_Inr [probe_runs]:
  "send_mon W a to x s = (Inr u, t) \<longleftrightarrow> pw_takes W (pr_trace s @ [SendMon a to x]) \<and>
     pw_receipt W (pr_trace s @ [SendMon a to x, AwaitReceipt]) \<noteq> None \<and> t = further [SendMon a to x, AwaitReceipt] s"
  by (auto simp: send_mon_def await_receipt_def seqp_Inr bindp_Inr exchange_Inr ret_def)

section \<open>What changes the chain\<close>

text \<open>The events the chain's state may depend on: what was sent, and the passing of time.\<close>

fun acts :: "probe_event list \<Rightarrow> probe_event list" where
  "acts [] = []"
| "acts (SendTx a to c # tr) = SendTx a to c # acts tr"
| "acts (SendMon a to x # tr) = SendMon a to x # acts tr"
| "acts (Pause ms # tr) = Pause ms # acts tr"
| "acts (_ # tr) = acts tr"

lemma acts_append [simp]: "acts (xs @ ys) = acts xs @ acts ys"
  by (induction xs rule: acts.induct) auto

text \<open>A chain nobody else uses: what it answers depends on the acts before the question.\<close>

record chain_views =
  cv_uint :: "probe_event list \<Rightarrow> string \<Rightarrow> contract_read \<Rightarrow> int"
  cv_flag :: "probe_event list \<Rightarrow> string \<Rightarrow> contract_read \<Rightarrow> bool"
  cv_proposal :: "probe_event list \<Rightarrow> string \<Rightarrow> contract_read \<Rightarrow> onchain_proposal"
  cv_refusal :: "probe_event list \<Rightarrow> string \<Rightarrow> string \<Rightarrow> contract_call \<Rightarrow> string option"

definition answers_from :: "probe_world \<Rightarrow> chain_views \<Rightarrow> bool" where
  "answers_from W C \<longleftrightarrow> (\<forall>tr to.
     (\<forall>q x. pw_uint W (tr @ [ReadContract to q]) = Some x \<longrightarrow> x = cv_uint C (acts tr) to q) \<and>
     (\<forall>q b. pw_flag W (tr @ [ReadContract to q]) = Some b \<longrightarrow> b = cv_flag C (acts tr) to q) \<and>
     (\<forall>q p. pw_proposal W (tr @ [ReadContract to q]) = Some p \<longrightarrow> p = cv_proposal C (acts tr) to q) \<and>
     (\<forall>a c. pw_refusal W (tr @ [TryCall a to c]) = cv_refusal C (acts tr) to a c))"

lemma answers_fromD [dest]:
  assumes "answers_from W C"
  shows "pw_uint W (tr @ [ReadContract to q]) = Some x \<Longrightarrow> x = cv_uint C (acts tr) to q"
    "pw_flag W (tr @ [ReadContract to q]) = Some b \<Longrightarrow> b = cv_flag C (acts tr) to q"
    "pw_proposal W (tr @ [ReadContract to q]) = Some p \<Longrightarrow> p = cv_proposal C (acts tr) to q"
    "pw_refusal W (tr @ [TryCall a to c]) = cv_refusal C (acts tr) to a c"
  using assms unfolding answers_from_def by blast+

text \<open>The world that answers from such a chain and takes every transaction.\<close>

definition world_of :: "chain_views \<Rightarrow> (probe_event list \<Rightarrow> int) \<Rightarrow> probe_world" where
  "world_of C ticking = \<lparr>pw_takes = (\<lambda>_. True), pw_receipt = (\<lambda>_. Some True),
     pw_uint = (\<lambda>tr. case last tr of ReadContract to q \<Rightarrow> Some (cv_uint C (acts (butlast tr)) to q) | _ \<Rightarrow> None),
     pw_flag = (\<lambda>tr. case last tr of ReadContract to q \<Rightarrow> Some (cv_flag C (acts (butlast tr)) to q) | _ \<Rightarrow> None),
     pw_proposal = (\<lambda>tr. case last tr of ReadContract to q \<Rightarrow> Some (cv_proposal C (acts (butlast tr)) to q) | _ \<Rightarrow> None),
     pw_refusal = (\<lambda>tr. case last tr of TryCall a to c \<Rightarrow> cv_refusal C (acts (butlast tr)) to a c | _ \<Rightarrow> None),
     pw_clock = ticking\<rparr>"

lemma world_of_answers [simp]: "answers_from (world_of C ticking) C"
  by (simp add: answers_from_def world_of_def)

section \<open>Numbers, compared\<close>

lemma number_of_exact [simp]: "\<bar>n\<bar> < 2 ^ 53 \<Longrightarrow> number_of n = Finite (of_int n)"
  by (simp add: number_of_def)

lemma js_le_Finite [simp]: "js_le (Finite a) (Finite b) \<longleftrightarrow> a \<le> b"
  by (auto simp: js_le_def js_less_def)

text \<open>A later second is not mistaken for an earlier one, however far the clock has run.\<close>

lemma to_double_large:
  assumes "2 ^ 53 \<le> x"
  shows "to_double x = Infinite True \<or> (\<exists>r \<ge> 2 ^ 53 - 1. to_double x = Finite r)"
proof -
  have "(2::rat) powi - 1022 \<le> 2 powi 0" by (rule power_int_increasing) auto
  also have "\<dots> \<le> x" using order_trans [OF _ assms, of 1] by simp
  finally have "\<bar>round_at x - x\<bar> \<le> x / 2 ^ 53" using assms by (intro round_at_error) auto
  then have near: "x - x / 2 ^ 53 \<le> round_at x" by (rule nearD)
  have "2 ^ 53 - 1 \<le> x - x / 2 ^ 53" using assms by simp
  then have "2 ^ 53 - 1 \<le> round_at x" using near by (rule order_trans)
  moreover have "0 < x" using assms by (rule less_le_trans [rotated]) simp
  ultimately show ?thesis by (auto simp: to_double_def Let_def)
qed

lemma number_of_past:
  assumes "\<bar>close\<bar> < 2 ^ 53 - 1" "close < n"
  shows "\<not> js_le (number_of n) (number_of close)"
proof (cases "n < 2 ^ 53")
  case True
  then show ?thesis using assms by simp
next
  case False
  then have "of_int (2 ^ 53) \<le> (of_int n :: rat)" unfolding of_int_le_iff by simp
  then have "number_of n = Infinite True \<or> (\<exists>r \<ge> 2 ^ 53 - 1. number_of n = Finite r)"
    unfolding number_of_def by (intro to_double_large) simp
  moreover have "of_int close < (of_int (2 ^ 53 - 1) :: rat)" using assms(1) unfolding of_int_less_iff by simp
  moreover have "number_of close = Finite (of_int close)" using assms(1) by simp
  ultimately show ?thesis by (auto simp: js_le_def js_less_def)
qed

lemma printable_dates: "0 \<le> seconds \<Longrightarrow> seconds \<le> 8640000000000 \<Longrightarrow> printable_date seconds"
proof -
  assume "0 \<le> seconds" "seconds \<le> 8640000000000"
  moreover then have "to_double (of_int (seconds * 1000)) = Finite (of_int (seconds * 1000))" by (intro to_double_whole) simp
  ultimately show ?thesis by (simp add: printable_date_def js_times_def js_abs_def)
qed

section \<open>The wait\<close>

definition waited :: "nat \<Rightarrow> probe_event list" where
  "waited n = concat (replicate n [ReadClock, Pause 5000]) @ [ReadClock]"

lemma waited_Suc: "waited (Suc n) = [ReadClock, Pause 5000] @ waited n"
  by (simp add: waited_def)

lemma acts_waited [simp]: "acts (waited n) = replicate n (Pause 5000)"
  by (induction n) (simp_all add: waited_def)

lemma waitForClose_Inr:
  "waitForClose W fuel close s = (Inr u, t) \<Longrightarrow> \<exists>n < fuel. t = further (waited n) s \<and>
     \<not> js_le (number_of (pw_clock W (pr_trace s @ waited n) div 1000)) (number_of close)"
proof (induction fuel arbitrary: s)
  case (Suc fuel)
  define now where "now = pw_clock W (pr_trace s @ [ReadClock]) div 1000"
  show ?case
  proof (cases "js_le (number_of now) (number_of close)")
    case True
    then have "waitForClose W fuel close (further [ReadClock, Pause 5000] s) = (Inr u, t)"
      using Suc.prems by (auto simp: bindp_Inr seqp_Inr probe_runs now_def)
    from Suc.IH [OF this] obtain n where n: "n < fuel" "t = further (waited (Suc n)) s"
      "\<not> js_le (number_of (pw_clock W (pr_trace s @ waited (Suc n)) div 1000)) (number_of close)"
      by (auto simp: waited_Suc)
    then have "Suc n < Suc fuel" by simp
    with n show ?thesis by blast
  next
    case False
    then show ?thesis using Suc.prems by (auto simp: bindp_Inr probe_runs now_def waited_def)
  qed
qed (simp add: throw_def)

text \<open>The wait ends: if the clock gains a second over every pause of five, no more pauses are made than there were
  seconds to the close, and the market has closed by the clock when the script goes on.\<close>

lemma waitForClose_ends:
  assumes close: "0 \<le> close" "close < 2 ^ 53 - 1" and epoch: "\<And>tr. 0 \<le> pw_clock W tr"
    and gains: "\<And>tr. pw_clock W (tr @ [ReadClock]) + 1000 \<le> pw_clock W (tr @ [ReadClock, Pause 5000, ReadClock])"
  shows "close < pw_clock W (pr_trace s @ [ReadClock]) div 1000 + int fuel \<Longrightarrow>
    \<exists>n \<le> fuel. waitForClose W (Suc fuel) close s = (Inr (), further (waited n) s) \<and>
      close < pw_clock W (pr_trace s @ waited n) div 1000"
proof (induction fuel arbitrary: s)
  case 0
  then have "waitForClose W (Suc 0) close s = (Inr (), further (waited 0) s)"
    using number_of_past close by (simp add: bindp_Inr probe_runs waited_def)
  then show ?case using 0 by (intro exI [of _ 0]) (simp add: waited_def)
next
  case (Suc fuel)
  define now where "now = pw_clock W (pr_trace s @ [ReadClock]) div 1000"
  have now: "0 \<le> now" using epoch by (simp add: now_def pos_imp_zdiv_nonneg_iff)
  show ?case
  proof (cases "now \<le> close")
    case False
    then have "waitForClose W (Suc (Suc fuel)) close s = (Inr (), further (waited 0) s)"
      using number_of_past close by (simp add: bindp_Inr probe_runs waited_def flip: now_def)
    then show ?thesis using False by (intro exI [of _ 0]) (simp add: waited_def now_def)
  next
    case True
    then have le: "js_le (number_of now) (number_of close)" using now close by simp
    define s' where "s' = further [ReadClock, Pause 5000] s"
    have "now + 1 \<le> pw_clock W (pr_trace s' @ [ReadClock]) div 1000"
      using gains [of "pr_trace s"] unfolding now_def s'_def by simp
    then have "close < pw_clock W (pr_trace s' @ [ReadClock]) div 1000 + int fuel" using Suc.prems unfolding now_def by simp
    from Suc.IH [OF this] obtain n where n: "n \<le> fuel"
      "waitForClose W (Suc fuel) close s' = (Inr (), further (waited n) s')" "close < pw_clock W (pr_trace s' @ waited n) div 1000"
      by blast
    have "waitForClose W (Suc (Suc fuel)) close s = (Inr (), further (waited (Suc n)) s)"
      using n(2) le by (subst waitForClose.simps) (simp add: bindp_Inr seqp_Inr probe_runs waited_Suc s'_def flip: now_def)
    then show ?thesis using n by (intro exI [of _ "Suc n"]) (simp add: waited_Suc s'_def)
  qed
qed

end
