(* ===== verification/ResolutionProbes.thy ===== *)
theory ResolutionProbes
  imports ProbeRun
begin

text \<open>
  The two live probes of the resolution layer: \<open>src/scripts/e2e-operator.mjs\<close>, the operator's bond-free path, and
  \<open>src/scripts/e2e-resolution.mjs\<close>, the contested one. Each \<open>main\<close> is cut where its comments cut it. The theorems
  say what a chain has shown when such a run exits with zero.
\<close>

section \<open>The operator's path\<close>

definition operatorTrade :: "probe_world \<Rightarrow> probe_book \<Rightarrow> int \<Rightarrow> string \<Rightarrow> unit probe" where
  "operatorTrade W B market operator =
     seqp (send_call W operator (pb_usdc B) (CallApprove (pb_lsLmsrMarket B) (2 ^ 255)))
       (send_call W operator (pb_lsLmsrMarket B) (CallBuy market 0 (100 * 1000000) (2 ^ 200)))"

text \<open>The bond is read for the log only.\<close>

definition operatorPropose :: "probe_world \<Rightarrow> probe_book \<Rightarrow> int \<Rightarrow> string \<Rightarrow> int probe" where
  "operatorPropose W B market operator =
     (let engine = pb_lsLmsrMarket B; resolver = pb_optimisticResolver B in
      bindp (read_uint W (pb_usdc B) (BalanceOf operator)) (\<lambda>before.
      bindp (read_uint W resolver (BondFor engine market)) (\<lambda>_.
      bindp (read_uint W resolver ReadRewardPool) (\<lambda>poolBefore.
      seqp (send_call W operator resolver (CallPropose engine market 0))
      (bindp (read_uint W (pb_usdc B) (BalanceOf operator)) (\<lambda>after_it.
      seqp (check_that ''the operator stakes nothing'' (before = after_it)) (ret poolBefore)))))))"

definition operatorWindow :: "probe_world \<Rightarrow> probe_book \<Rightarrow> int \<Rightarrow> unit probe" where
  "operatorWindow W B market =
     (let engine = pb_lsLmsrMarket B; resolver = pb_optimisticResolver B in
      bindp (read_proposal W resolver (ReadProposal engine market)) (\<lambda>p.
      seqp (check_that ''and is recorded as unbonded'' (op_proposerBonded p = False))
      (bindp (read_uint W resolver ReadDisputeWindow) (\<lambda>window.
       bindp (clock_seconds W) (\<lambda>now.
       let opened = js_minus (number_of (op_disputeDeadline p)) (number_of now) in
       seqp (check_that ''the same challenge window opens as for anyone else''
               (js_less (js_abs (js_minus opened (number_of window))) (Finite 120)))
       (bindp (read_flag W engine (IsSettled market)) (\<lambda>settled.
          check_that ''the market is NOT settled by the proposal alone'' (settled = False))))))))"

definition operatorFinal :: "probe_world \<Rightarrow> probe_book \<Rightarrow> int \<Rightarrow> string \<Rightarrow> int \<Rightarrow> unit probe" where
  "operatorFinal W B market operator poolBefore =
     (let engine = pb_lsLmsrMarket B; resolver = pb_optimisticResolver B in
      bindp (expectRevert W resolver (CallFinalize engine market) operator) (\<lambda>refused.
      seqp (check_that ''settlement is refused until the window has passed (negative)''
              (reverted_with ''DisputeWindowOpen'' refused))
      (bindp (read_uint W resolver ReadRewardPool) (\<lambda>poolAfter.
         check_that ''the reward pool is untouched by a bond-free proposal'' (poolBefore = poolAfter)))))"

definition operatorMain :: "probe_world \<Rightarrow> nat \<Rightarrow> probe_book \<Rightarrow> int \<Rightarrow> string \<Rightarrow> unit probe" where
  "operatorMain W fuel B market operator =
     seqp (operatorTrade W B market operator)
     (bindp (read_uint W (pb_lsLmsrMarket B) (CloseTimeOf market)) (\<lambda>closeTime.
      seqp (awaitClose W fuel closeTime)
      (bindp (operatorPropose W B market operator) (\<lambda>poolBefore.
       seqp (operatorWindow W B market) (operatorFinal W B market operator poolBefore)))))"

text \<open>The process: without the address book, the market or the account it ends before \<open>main\<close>.\<close>

definition operatorScript ::
  "probe_world \<Rightarrow> nat \<Rightarrow> (string \<Rightarrow> string option) \<Rightarrow> probe_book option \<Rightarrow> probe_env \<Rightarrow> int \<times> probe_run" where
  "operatorScript W fuel accountOf book env =
     (case (book, probe_setup accountOf env) of
        (Some B, Some (market, operator)) \<Rightarrow> probe_exit (operatorMain W fuel B market operator)
      | _ \<Rightarrow> (1, fresh_run))"

section \<open>The contested path\<close>

definition USDC_UNIT :: int where
  "USDC_UNIT = 1000000"

definition probeFund :: "probe_world \<Rightarrow> probe_book \<Rightarrow> string \<Rightarrow> string list \<Rightarrow> unit probe" where
  "probeFund W B deployer standIns =
     seqp (forp (\<lambda>a. send_mon W deployer a 500000000000000000) standIns)
     (seqp (send_call W deployer (pb_usdc B) (CallMint deployer (2000 * USDC_UNIT)))
       (forp (\<lambda>a. seqp (send_call W deployer (pb_usdc B) (CallTransfer a (500 * USDC_UNIT)))
                    (send_call W a (pb_usdc B) (CallApprove (pb_optimisticResolver B) (2 ^ 255)))) standIns))"

definition probeTrade :: "probe_world \<Rightarrow> probe_book \<Rightarrow> int \<Rightarrow> string \<Rightarrow> int probe" where
  "probeTrade W B market deployer =
     (let engine = pb_lsLmsrMarket B in
      seqp (send_call W deployer (pb_usdc B) (CallApprove engine (2 ^ 255)))
      (seqp (send_call W deployer engine (CallBuy market 0 (200 * USDC_UNIT) (2 ^ 200)))
      (seqp (send_call W deployer engine (CallBuy market 1 (150 * USDC_UNIT) (2 ^ 200)))
      (bindp (read_uint W engine (CollateralOf market)) (\<lambda>_.
       bindp (read_uint W engine (FeesOf market)) (\<lambda>fees.
       seqp (check_that ''the engine records fee revenue per market'' (0 < fees)) (ret fees)))))))"

definition probeEarly :: "probe_world \<Rightarrow> nat \<Rightarrow> probe_book \<Rightarrow> int \<Rightarrow> string \<Rightarrow> unit probe" where
  "probeEarly W fuel B market proposer =
     bindp (read_uint W (pb_lsLmsrMarket B) (CloseTimeOf market)) (\<lambda>closeTime.
     bindp (expectRevert W (pb_optimisticResolver B) (CallPropose (pb_lsLmsrMarket B) market 0) proposer) (\<lambda>early.
     seqp (check_that ''refuses a proposal before the market closes (negative)'' (reverted_with ''MarketNotClosed'' early))
       (awaitClose W fuel closeTime)))"

definition probeTerms :: "probe_world \<Rightarrow> probe_book \<Rightarrow> int \<Rightarrow> int \<Rightarrow> (int \<times> int \<times> int) probe" where
  "probeTerms W B market fees =
     (let resolver = pb_optimisticResolver B in
      bindp (read_uint W resolver ReadBond) (\<lambda>bond.
      bindp (read_uint W resolver ReadProposalFee) (\<lambda>fee.
      bindp (read_uint W resolver (RewardFor (pb_lsLmsrMarket B) market)) (\<lambda>reward.
      seqp (check_that ''the bond is flat, whatever the market holds'' (bond = 25000000))
      (seqp (check_that ''the reward is a share of what the market earned'' (reward = bigint_div (fees * 200) 10000))
        (ret (bond, fee, reward)))))))"

text \<open>The lie. The returned value is the proposer's balance once the bond is locked.\<close>

definition probeLie :: "probe_world \<Rightarrow> probe_book \<Rightarrow> int \<Rightarrow> string \<Rightarrow> int \<Rightarrow> int \<Rightarrow> int probe" where
  "probeLie W B market proposer bond fee =
     bindp (read_uint W (pb_usdc B) (BalanceOf proposer)) (\<lambda>proposerBefore.
     seqp (send_call W proposer (pb_optimisticResolver B) (CallPropose (pb_lsLmsrMarket B) market 0))
     (bindp (read_uint W (pb_usdc B) (BalanceOf proposer)) (\<lambda>proposerAfter.
      seqp (check_that ''the proposal locks the bond and takes the fee'' (proposerBefore - proposerAfter = bond + fee))
        (ret proposerAfter))))"

definition probeRefusals :: "probe_world \<Rightarrow> probe_book \<Rightarrow> int \<Rightarrow> string \<Rightarrow> string \<Rightarrow> unit probe" where
  "probeRefusals W B market disputer deployer =
     (let engine = pb_lsLmsrMarket B; resolver = pb_optimisticResolver B in
      bindp (expectRevert W resolver (CallPropose engine market 1) disputer) (\<lambda>second.
      seqp (check_that ''refuses a second proposal on the same market (negative)'' (second \<noteq> None))
      (bindp (expectRevert W resolver (CallDispute engine market 0) disputer) (\<lambda>same.
      seqp (check_that ''refuses a dispute that re-asserts the proposed outcome (negative)'' (same \<noteq> None))
      (bindp (expectRevert W resolver (CallFinalize engine market) deployer) (\<lambda>early2.
        check_that ''refuses to settle while the challenge window is open (negative)''
          (reverted_with ''DisputeWindowOpen'' early2)))))))"

definition probeDispute :: "probe_world \<Rightarrow> probe_book \<Rightarrow> int \<Rightarrow> string \<Rightarrow> int \<Rightarrow> int \<Rightarrow> int probe" where
  "probeDispute W B market disputer bond fee =
     (let engine = pb_lsLmsrMarket B; resolver = pb_optimisticResolver B in
      bindp (read_uint W (pb_usdc B) (BalanceOf disputer)) (\<lambda>disputerBefore.
      seqp (send_call W disputer resolver (CallDispute engine market 1))
      (bindp (read_uint W (pb_usdc B) (BalanceOf disputer)) (\<lambda>disputerAfterBond.
      seqp (check_that ''the dispute matches the proposer stake'' (disputerBefore - disputerAfterBond = bond + fee))
      (bindp (read_proposal W resolver (ReadProposal engine market)) (\<lambda>p.
      seqp (check_that ''the market is recorded as disputed'' (op_phase p = 2)) (ret disputerAfterBond)))))))"

definition probeRule :: "probe_world \<Rightarrow> probe_book \<Rightarrow> int \<Rightarrow> string \<Rightarrow> unit probe" where
  "probeRule W B market deployer =
     (let engine = pb_lsLmsrMarket B; resolver = pb_optimisticResolver B in
      seqp (send_call W deployer (pb_resolverMultisig B) (CallQuorum resolver (CallArbitrate engine market 1)))
      (bindp (read_flag W engine (IsSettled market)) (\<lambda>settled.
       bindp (read_uint W engine (WinnerOf market)) (\<lambda>winner.
       seqp (check_that ''the quorum settled the market on the engine'' (settled = True))
         (check_that ''to the outcome the disputer named'' (winner = 1))))))"

definition probePayouts :: "probe_world \<Rightarrow> probe_book \<Rightarrow> string \<Rightarrow> string \<Rightarrow> int \<Rightarrow> int \<Rightarrow> int \<Rightarrow> int \<Rightarrow> unit probe" where
  "probePayouts W B proposer disputer proposerAfter disputerAfterBond bond reward =
     bindp (read_uint W (pb_usdc B) (BalanceOf proposer)) (\<lambda>proposerFinal.
     bindp (read_uint W (pb_usdc B) (BalanceOf disputer)) (\<lambda>disputerFinal.
     seqp (check_that ''the liar forfeits the whole stake'' (proposerFinal = proposerAfter))
       (check_that ''the watcher takes the stake back plus the reward'' (disputerFinal = disputerAfterBond + bond + reward))))"

definition probeBan :: "probe_world \<Rightarrow> probe_book \<Rightarrow> int \<Rightarrow> string \<Rightarrow> string \<Rightarrow> unit probe" where
  "probeBan W B market proposer disputer =
     bindp (read_flag W (pb_tradingBlocklist B) (IsBanned proposer)) (\<lambda>bannedLiar.
     bindp (read_flag W (pb_tradingBlocklist B) (IsBanned disputer)) (\<lambda>bannedWatcher.
     seqp (check_that ''the liar is barred from trading'' (bannedLiar = True))
     (seqp (check_that ''the watcher is untouched (negative)'' (bannedWatcher = False))
     (bindp (expectRevert W (pb_lsLmsrMarket B) (CallBuy market 0 1000000 (2 ^ 200)) proposer) (\<lambda>banned.
       check_that ''the engine refuses a trade from the barred account'' (reverted_with ''AccountBanned'' banned))))))"

definition resolutionMain :: "probe_world \<Rightarrow> nat \<Rightarrow> probe_book \<Rightarrow> int \<Rightarrow> string \<Rightarrow> string \<Rightarrow> string \<Rightarrow> unit probe" where
  "resolutionMain W fuel B market deployer proposer disputer =
     seqp (probeFund W B deployer [proposer, disputer])
     (bindp (probeTrade W B market deployer) (\<lambda>fees.
      seqp (probeEarly W fuel B market proposer)
      (bindp (probeTerms W B market fees) (\<lambda>(bond, fee, reward).
       bindp (probeLie W B market proposer bond fee) (\<lambda>proposerAfter.
       seqp (probeRefusals W B market disputer deployer)
       (bindp (probeDispute W B market disputer bond fee) (\<lambda>disputerAfterBond.
        seqp (probeRule W B market deployer)
        (seqp (probePayouts W B proposer disputer proposerAfter disputerAfterBond bond reward)
          (probeBan W B market proposer disputer))))))))) "

text \<open>\<open>generatePrivateKey\<close> twice: the two accounts are arguments.\<close>

definition resolutionScript ::
  "probe_world \<Rightarrow> nat \<Rightarrow> (string \<Rightarrow> string option) \<Rightarrow> probe_book option \<Rightarrow> probe_env \<Rightarrow> string \<Rightarrow> string \<Rightarrow> int \<times> probe_run" where
  "resolutionScript W fuel accountOf book env proposer disputer =
     (case (book, probe_setup accountOf env) of
        (Some B, Some (market, deployer)) \<Rightarrow> probe_exit (resolutionMain W fuel B market deployer proposer disputer)
      | _ \<Rightarrow> (1, fresh_run))"

section \<open>Passing runs\<close>

definition passed :: "probe_run \<Rightarrow> bool" where
  "passed s \<longleftrightarrow> failed_checks s = []"

lemma passed_further [simp]: "passed (further evs s) = passed s"
  by (simp add: passed_def failed_checks_def further_def)

lemma passed_noted [simp]: "passed (noted name ok s) \<longleftrightarrow> ok \<and> passed s"
  by (auto simp: passed_def failed_checks_def noted_def)

lemma fresh_run_trace [simp]: "pr_trace fresh_run = []" "passed fresh_run"
  by (simp_all add: fresh_run_def passed_def failed_checks_def)

lemma probe_exit_0: "probe_exit body = (0, s) \<longleftrightarrow> body fresh_run = (Inr (), s) \<and> passed s"
  by (auto simp: probe_exit_def passed_def split: prod.splits sum.splits)

lemma awaitClose_Inr:
  "awaitClose W fuel close s = (Inr u, t) \<Longrightarrow> \<exists>n. t = further (waited n) s \<and>
     \<not> js_le (number_of (pw_clock W (pr_trace s @ waited n) div 1000)) (number_of close)"
  by (auto simp: awaitClose_def throw_def split: if_splits dest!: waitForClose_Inr)

lemma reverted_with_refusal: "reverted_with word r \<Longrightarrow> r \<noteq> None"
  by (cases r) (simp_all add: reverted_with_def)

text \<open>A step that returned, on a chain nobody else uses.\<close>

lemma answered:
  assumes "answers_from W C"
  shows "read_uint W to q s = (Inr v, t) \<Longrightarrow> v = cv_uint C (acts (pr_trace s)) to q \<and> t = further [ReadContract to q] s"
    and "read_flag W to q s = (Inr b, t) \<Longrightarrow> b = cv_flag C (acts (pr_trace s)) to q \<and> t = further [ReadContract to q] s"
    and "read_proposal W to q s = (Inr p, t) \<Longrightarrow> p = cv_proposal C (acts (pr_trace s)) to q \<and> t = further [ReadContract to q] s"
    and "expectRevert W to call a s = (Inr r, t) \<Longrightarrow> r = cv_refusal C (acts (pr_trace s)) to a call \<and> t = further [TryCall a to call] s"
  using assms by (auto simp: probe_runs)

lemma sent_step:
  "send_call W a to call s = (Inr u, t) \<Longrightarrow> t = further [SendTx a to call, AwaitReceipt] s"
  "send_mon W a to x s = (Inr u, t) \<Longrightarrow> t = further [SendMon a to x, AwaitReceipt] s"
  "awaitClose W fuel close s = (Inr u, t) \<Longrightarrow> \<exists>n. t = further (waited n) s"
  by (auto simp: probe_runs dest: awaitClose_Inr)

lemmas run_rules = seqp_Inr bindp_Inr Let_def check_that_Inr clock_Inr ret_def

section \<open>A chain to run them on\<close>

definition probe_sample_book :: probe_book where
  "probe_sample_book = \<lparr>pb_usdc = ''usdc'', pb_lsLmsrMarket = ''engine'', pb_optimisticResolver = ''resolver'',
     pb_resolverMultisig = ''multisig'', pb_tradingBlocklist = ''blocklist''\<rparr>"

fun count_sent :: "(contract_call \<Rightarrow> bool) \<Rightarrow> probe_event list \<Rightarrow> nat" where
  "count_sent f [] = 0"
| "count_sent f (SendTx _ _ c # evs) = (if f c then 1 else 0) + count_sent f evs"
| "count_sent f (_ # evs) = count_sent f evs"

fun is_proposal :: "contract_call \<Rightarrow> bool" where
  "is_proposal (CallPropose _ _ _) = True" | "is_proposal _ = False"

fun is_dispute :: "contract_call \<Rightarrow> bool" where
  "is_dispute (CallDispute _ _ _) = True" | "is_dispute _ = False"

fun is_ruling :: "contract_call \<Rightarrow> bool" where
  "is_ruling (CallQuorum _ _) = True" | "is_ruling _ = False"

text \<open>A bond of 25, a fee of 1, fees of 100; the market closes at second 1000. Only \<open>p\<close> and \<open>d\<close> are bonded.\<close>

definition probe_sample_chain :: chain_views where
  "probe_sample_chain = \<lparr>
     cv_uint = (\<lambda>evs to q. case q of
         BalanceOf a \<Rightarrow> 500000000 - (if a = ''p'' then 26000000 * int (count_sent is_proposal evs) else 0)
           + (if a = ''d'' then 27000000 * int (count_sent is_ruling evs) - 26000000 * int (count_sent is_dispute evs) else 0)
       | FeesOf _ \<Rightarrow> 100000000 | CloseTimeOf _ \<Rightarrow> 1000 | WinnerOf _ \<Rightarrow> 1 | ReadBond \<Rightarrow> 25000000
       | ReadProposalFee \<Rightarrow> 1000000 | RewardFor _ _ \<Rightarrow> 2000000 | ReadDisputeWindow \<Rightarrow> 21600 | _ \<Rightarrow> 0),
     cv_flag = (\<lambda>evs to q. case q of
         IsSettled _ \<Rightarrow> 0 < count_sent is_ruling evs | IsBanned a \<Rightarrow> a = ''p'' \<and> 0 < count_sent is_ruling evs | _ \<Rightarrow> False),
     cv_proposal = (\<lambda>evs to q. \<lparr>op_disputeDeadline = 22603, op_phase = 1 + int (count_sent is_dispute evs), op_proposerBonded = False\<rparr>),
     cv_refusal = (\<lambda>evs to a c. Some ''Execution reverted'')\<rparr>"

definition sample_clock :: "probe_event list \<Rightarrow> int" where
  "sample_clock tr = (if Pause 5000 \<in> set tr then 1003000 else 998000)"

definition probe_sample_env :: probe_env where
  "probe_sample_env = \<lparr>pe_marketId = Some ''7'', pe_privateKey = Some ''k''\<rparr>"

definition sample_operator_run :: "int \<times> probe_run" where
  "sample_operator_run = operatorScript (world_of probe_sample_chain sample_clock) 3 Some (Some probe_sample_book) probe_sample_env"

definition sample_resolution_run :: "int \<times> probe_run" where
  "sample_resolution_run = resolutionScript (world_of probe_sample_chain sample_clock) 3 Some (Some probe_sample_book) probe_sample_env ''p'' ''d''"

lemma sample_refusal [simp]: "reverted_with w (Some ''Execution reverted'')"
proof -
  have "contains_ci ''revert'' ''Execution reverted''" by code_simp
  then show ?thesis by (simp add: reverted_with_def)
qed

lemmas run_evals = proc_defs exchange_def read_uint_def read_flag_def read_proposal_def read_clock_def pause_def taken_def
  await_receipt_def send_call_def send_mon_def expectRevert_def check_that_def clock_seconds_def awaitClose_def printable_dates

lemma sample_setup: "probe_setup Some probe_sample_env = Some (7, ''0xk'')"
  by code_simp

lemma sample_difference: "js_minus (Finite 22603) (Finite 1003) = Finite 21600" "js_minus (Finite 21600) (Finite 21600) = Finite 0"
  using to_double_whole [of 21600] by (simp_all add: js_minus_def js_plus_def negated_def to_double_def [of 0])

lemma sample_operator_passes: "fst sample_operator_run = 0"
  by (simp add: sample_operator_run_def operatorScript_def sample_setup operatorMain_def probe_exit_def run_evals
    operatorTrade_def operatorPropose_def operatorWindow_def operatorFinal_def world_of_def probe_sample_chain_def probe_sample_book_def
    sample_clock_def fresh_run_def numeral_3_eq_3 Let_def failed_checks_def sample_difference js_abs_def js_less_def)

lemma sample_resolution_passes: "fst sample_resolution_run = 0"
  by (simp add: sample_resolution_run_def resolutionScript_def sample_setup resolutionMain_def probe_exit_def run_evals
    probeFund_def probeTrade_def probeEarly_def probeTerms_def probeLie_def probeRefusals_def probeDispute_def probeRule_def
    probePayouts_def probeBan_def world_of_def probe_sample_chain_def probe_sample_book_def USDC_UNIT_def
    sample_clock_def fresh_run_def numeral_3_eq_3 Let_def failed_checks_def)

section \<open>What a passing operator run shows\<close>

definition proposes :: "probe_book \<Rightarrow> int \<Rightarrow> string \<Rightarrow> probe_event" where
  "proposes B market a = SendTx a (pb_optimisticResolver B) (CallPropose (pb_lsLmsrMarket B) market 0)"

lemma operatorTrade_ran:
  "operatorTrade W B market a s = (Inr u, t) \<Longrightarrow> t = further
     [SendTx a (pb_usdc B) (CallApprove (pb_lsLmsrMarket B) (2 ^ 255)), AwaitReceipt,
      SendTx a (pb_lsLmsrMarket B) (CallBuy market 0 (100 * 1000000) (2 ^ 200)), AwaitReceipt] s"
  by (auto simp: operatorTrade_def run_rules dest!: sent_step)

lemma operatorPropose_ran:
  assumes "answers_from W C" "operatorPropose W B market a s = (Inr x, t)"
  shows "acts (pr_trace t) = acts (pr_trace s) @ [proposes B market a]"
    "passed t \<longleftrightarrow> passed s \<and> cv_uint C (acts (pr_trace s)) (pb_usdc B) (BalanceOf a) =
       cv_uint C (acts (pr_trace t)) (pb_usdc B) (BalanceOf a)"
    "x = cv_uint C (acts (pr_trace s)) (pb_optimisticResolver B) ReadRewardPool"
  using assms(2) by (auto simp: operatorPropose_def run_rules proposes_def dest!: sent_step answered [OF assms(1)])

lemma operatorWindow_ran:
  assumes "answers_from W C" "operatorWindow W B market s = (Inr u, t)"
  defines "p \<equiv> cv_proposal C (acts (pr_trace s)) (pb_optimisticResolver B) (ReadProposal (pb_lsLmsrMarket B) market)"
    and "window \<equiv> cv_uint C (acts (pr_trace s)) (pb_optimisticResolver B) ReadDisputeWindow"
  shows "acts (pr_trace t) = acts (pr_trace s)"
    "passed t \<Longrightarrow> passed s \<and> \<not> op_proposerBonded p \<and> \<not> cv_flag C (acts (pr_trace s)) (pb_lsLmsrMarket B) (IsSettled market) \<and>
       (\<exists>tr. js_less (js_abs (js_minus (js_minus (number_of (op_disputeDeadline p)) (number_of (pw_clock W tr div 1000)))
          (number_of window))) (Finite 120))"
  using assms(2) unfolding p_def window_def
  by (auto simp: operatorWindow_def run_rules dest!: sent_step answered [OF assms(1)])

lemma operatorFinal_ran:
  assumes "answers_from W C" "operatorFinal W B market a x s = (Inr u, t)"
  shows "acts (pr_trace t) = acts (pr_trace s)"
    "passed t \<longleftrightarrow> passed s \<and> reverted_with ''DisputeWindowOpen''
         (cv_refusal C (acts (pr_trace s)) (pb_optimisticResolver B) a (CallFinalize (pb_lsLmsrMarket B) market)) \<and>
       x = cv_uint C (acts (pr_trace s)) (pb_optimisticResolver B) ReadRewardPool"
  using assms(2) by (auto simp: operatorFinal_def run_rules dest!: sent_step answered [OF assms(1)])

text \<open>Differences of moderate seconds are exact.\<close>

lemma js_window_exact:
  assumes "\<bar>d\<bar> < 2 ^ 51" "\<bar>n\<bar> < 2 ^ 51" "\<bar>w\<bar> < 2 ^ 51"
  shows "js_less (js_abs (js_minus (js_minus (number_of d) (number_of n)) (number_of w))) (Finite 120) \<longleftrightarrow> \<bar>d - n - w\<bar> < 120"
proof -
  have "to_double (of_int (d - n)) = Finite (of_int (d - n))" "to_double (of_int (d - n - w)) = Finite (of_int (d - n - w))"
    using assms by (intro to_double_whole; simp)+
  then have "js_minus (js_minus (number_of d) (number_of n)) (number_of w) = Finite (of_int (d - n - w))"
    using assms by (simp add: js_minus_def negated_def js_plus_def)
  moreover have "\<bar>of_int (d - n - w)\<bar> < (120 :: rat) \<longleftrightarrow> \<bar>d - n - w\<bar> < 120"
    unfolding of_int_abs [symmetric] by (metis of_int_less_iff of_int_numeral)
  ultimately show ?thesis by (simp add: js_abs_def js_less_def del: of_int_diff)
qed

text \<open>A run of the operator probe that exits with zero has shown what the layer claims of an operator's proposal,
  on any chain nobody else uses meanwhile: of its three transactions the last one proposes, it moves none of the
  operator's collateral and none of the reward pool, it is recorded without a bond and with the challenge window
  everybody gets (to two minutes), the market is not settled by it, and an attempt to settle is refused.\<close>

theorem passing_operator_run_shows:
  assumes run: "operatorScript W fuel accountOf book env = (0, s)" and chain: "answers_from W C"
    and small: "\<And>tr to q. \<bar>op_disputeDeadline (cv_proposal C tr to q)\<bar> < 2 ^ 51" "\<And>tr to. \<bar>cv_uint C tr to ReadDisputeWindow\<bar> < 2 ^ 51"
      "\<And>tr. \<bar>pw_clock W tr div 1000\<bar> < 2 ^ 51"
  shows "\<exists>B market who n. book = Some B \<and> probe_setup accountOf env = Some (market, who) \<and>
    (let engine = pb_lsLmsrMarket B; resolver = pb_optimisticResolver B; after_it = acts (pr_trace s);
         before = [SendTx who (pb_usdc B) (CallApprove engine (2 ^ 255)),
           SendTx who engine (CallBuy market 0 100000000 (2 ^ 200))] @ replicate n (Pause 5000);
         p = cv_proposal C after_it resolver (ReadProposal engine market) in
     after_it = before @ [proposes B market who] \<and>
     cv_uint C after_it (pb_usdc B) (BalanceOf who) = cv_uint C before (pb_usdc B) (BalanceOf who) \<and>
     cv_uint C after_it resolver ReadRewardPool = cv_uint C before resolver ReadRewardPool \<and>
     \<not> op_proposerBonded p \<and> \<not> cv_flag C after_it engine (IsSettled market) \<and>
     (\<exists>tr. \<bar>op_disputeDeadline p - pw_clock W tr div 1000 - cv_uint C after_it resolver ReadDisputeWindow\<bar> < 120) \<and>
     reverted_with ''DisputeWindowOpen'' (cv_refusal C after_it resolver who (CallFinalize engine market)))"
proof -
  obtain B market who where ready: "book = Some B" "probe_setup accountOf env = Some (market, who)"
    and body: "operatorMain W fuel B market who fresh_run = (Inr (), s)" and ok: "passed s"
    using run by (auto simp: operatorScript_def probe_exit_0 split: option.splits)
  from body obtain close s1 s2 n x s3 s4 where steps: "operatorTrade W B market who fresh_run = (Inr (), s1)"
      "read_uint W (pb_lsLmsrMarket B) (CloseTimeOf market) s1 = (Inr close, s2)"
      "operatorPropose W B market who (further (waited n) s2) = (Inr x, s3)"
      "operatorWindow W B market s3 = (Inr (), s4)" "operatorFinal W B market who x s4 = (Inr (), s)"
    unfolding operatorMain_def seqp_Inr bindp_Inr by (auto dest!: sent_step)
  note s2 = answered(1) [OF chain steps(2)] and trade = operatorTrade_ran [OF steps(1)]
  note final = operatorFinal_ran [OF chain steps(5)] and window = operatorWindow_ran [OF chain steps(4)]
    and propose = operatorPropose_ran [OF chain steps(3)]
  have "passed s4" "passed s3" using ok final window by auto
  with ok final window propose small show ?thesis
    using ready by (intro exI [of _ B] exI [of _ market] exI [of _ who] exI [of _ n])
      (simp add: Let_def s2 trade js_window_exact)
qed

theorem passing_operator_run_shows_witness:
  "\<exists>n. acts (pr_trace (snd sample_operator_run)) =
     [SendTx ''0xk'' ''usdc'' (CallApprove ''engine'' (2 ^ 255)), SendTx ''0xk'' ''engine'' (CallBuy 7 0 100000000 (2 ^ 200))] @
       replicate n (Pause 5000) @ [proposes probe_sample_book 7 ''0xk'']"
proof -
  have "operatorScript (world_of probe_sample_chain sample_clock) 3 Some (Some probe_sample_book) probe_sample_env = (0, snd sample_operator_run)"
    using sample_operator_passes unfolding sample_operator_run_def by (metis prod.collapse)
  from passing_operator_run_shows [OF this world_of_answers] show ?thesis
    by (force simp: sample_setup probe_sample_chain_def world_of_def sample_clock_def probe_sample_book_def Let_def)
qed

section \<open>What a passing resolution run shows\<close>

definition funding_acts :: "probe_book \<Rightarrow> int \<Rightarrow> string \<Rightarrow> string \<Rightarrow> string \<Rightarrow> probe_event list" where
  "funding_acts B market deployer proposer disputer =
     [SendMon deployer proposer 500000000000000000, SendMon deployer disputer 500000000000000000,
      SendTx deployer (pb_usdc B) (CallMint deployer (2000 * USDC_UNIT)),
      SendTx deployer (pb_usdc B) (CallTransfer proposer (500 * USDC_UNIT)),
      SendTx proposer (pb_usdc B) (CallApprove (pb_optimisticResolver B) (2 ^ 255)),
      SendTx deployer (pb_usdc B) (CallTransfer disputer (500 * USDC_UNIT)),
      SendTx disputer (pb_usdc B) (CallApprove (pb_optimisticResolver B) (2 ^ 255)),
      SendTx deployer (pb_usdc B) (CallApprove (pb_lsLmsrMarket B) (2 ^ 255)),
      SendTx deployer (pb_lsLmsrMarket B) (CallBuy market 0 (200 * USDC_UNIT) (2 ^ 200)),
      SendTx deployer (pb_lsLmsrMarket B) (CallBuy market 1 (150 * USDC_UNIT) (2 ^ 200))]"

definition disputes :: "probe_book \<Rightarrow> int \<Rightarrow> string \<Rightarrow> probe_event" where
  "disputes B market a = SendTx a (pb_optimisticResolver B) (CallDispute (pb_lsLmsrMarket B) market 1)"

definition rules_on :: "probe_book \<Rightarrow> int \<Rightarrow> string \<Rightarrow> probe_event" where
  "rules_on B market a =
     SendTx a (pb_resolverMultisig B) (CallQuorum (pb_optimisticResolver B) (CallArbitrate (pb_lsLmsrMarket B) market 1))"

lemma probeTrade_ran:
  assumes chain: "answers_from W C" and fund: "probeFund W B deployer [proposer, disputer] fresh_run = (Inr (), s)"
    and run: "probeTrade W B market deployer s = (Inr fees, t)"
  shows "acts (pr_trace t) = funding_acts B market deployer proposer disputer" "passed t \<Longrightarrow> 0 < fees"
    "fees = cv_uint C (funding_acts B market deployer proposer disputer) (pb_lsLmsrMarket B) (FeesOf market)"
proof -
  have "acts (pr_trace s) = take 7 (funding_acts B market deployer proposer disputer)"
    using fund by (auto simp: probeFund_def run_rules funding_acts_def dest!: sent_step)
  then show "acts (pr_trace t) = funding_acts B market deployer proposer disputer" "passed t \<Longrightarrow> 0 < fees"
    "fees = cv_uint C (funding_acts B market deployer proposer disputer) (pb_lsLmsrMarket B) (FeesOf market)"
    using run by (auto simp: probeTrade_def run_rules funding_acts_def dest!: sent_step answered [OF chain])
qed

lemma probeEarly_ran:
  assumes chain: "answers_from W C" and run: "probeEarly W fuel B market proposer s = (Inr u, t)"
  shows "\<exists>n. acts (pr_trace t) = acts (pr_trace s) @ replicate n (Pause 5000)"
    "passed t \<Longrightarrow> passed s \<and> reverted_with ''MarketNotClosed''
       (cv_refusal C (acts (pr_trace s)) (pb_optimisticResolver B) proposer (CallPropose (pb_lsLmsrMarket B) market 0))"
  using run by (auto simp: probeEarly_def run_rules dest!: sent_step answered [OF chain])

lemma probeTerms_ran:
  assumes chain: "answers_from W C" and run: "probeTerms W B market fees s = (Inr (bond, fee, reward), t)"
  shows "acts (pr_trace t) = acts (pr_trace s)"
    "bond = cv_uint C (acts (pr_trace s)) (pb_optimisticResolver B) ReadBond"
    "fee = cv_uint C (acts (pr_trace s)) (pb_optimisticResolver B) ReadProposalFee"
    "reward = cv_uint C (acts (pr_trace s)) (pb_optimisticResolver B) (RewardFor (pb_lsLmsrMarket B) market)"
    "passed t \<longleftrightarrow> passed s \<and> bond = 25000000 \<and> reward = bigint_div (fees * 200) 10000"
  using run by (auto simp: probeTerms_def run_rules dest!: sent_step answered [OF chain])

lemma probeLie_ran:
  assumes chain: "answers_from W C" and run: "probeLie W B market proposer bond fee s = (Inr x, t)"
  shows "acts (pr_trace t) = acts (pr_trace s) @ [proposes B market proposer]"
    "x = cv_uint C (acts (pr_trace t)) (pb_usdc B) (BalanceOf proposer)"
    "passed t \<longleftrightarrow> passed s \<and> cv_uint C (acts (pr_trace s)) (pb_usdc B) (BalanceOf proposer) - x = bond + fee"
  using run by (auto simp: probeLie_def run_rules proposes_def dest!: sent_step answered [OF chain])

lemma probeRefusals_ran:
  assumes chain: "answers_from W C" and run: "probeRefusals W B market disputer deployer s = (Inr u, t)"
  shows "acts (pr_trace t) = acts (pr_trace s)"
    "passed t \<longleftrightarrow> passed s \<and>
       cv_refusal C (acts (pr_trace s)) (pb_optimisticResolver B) disputer (CallPropose (pb_lsLmsrMarket B) market 1) \<noteq> None \<and>
       cv_refusal C (acts (pr_trace s)) (pb_optimisticResolver B) disputer (CallDispute (pb_lsLmsrMarket B) market 0) \<noteq> None \<and>
       reverted_with ''DisputeWindowOpen''
         (cv_refusal C (acts (pr_trace s)) (pb_optimisticResolver B) deployer (CallFinalize (pb_lsLmsrMarket B) market))"
  using run by (auto simp: probeRefusals_def run_rules dest!: sent_step answered [OF chain])

lemma probeDispute_ran:
  assumes chain: "answers_from W C" and run: "probeDispute W B market disputer bond fee s = (Inr x, t)"
  shows "acts (pr_trace t) = acts (pr_trace s) @ [disputes B market disputer]"
    "x = cv_uint C (acts (pr_trace t)) (pb_usdc B) (BalanceOf disputer)"
    "passed t \<longleftrightarrow> passed s \<and> cv_uint C (acts (pr_trace s)) (pb_usdc B) (BalanceOf disputer) - x = bond + fee \<and>
       op_phase (cv_proposal C (acts (pr_trace t)) (pb_optimisticResolver B) (ReadProposal (pb_lsLmsrMarket B) market)) = 2"
  using run by (auto simp: probeDispute_def run_rules disputes_def dest!: sent_step answered [OF chain])

lemma probeRule_ran:
  assumes chain: "answers_from W C" and run: "probeRule W B market deployer s = (Inr u, t)"
  shows "acts (pr_trace t) = acts (pr_trace s) @ [rules_on B market deployer]"
    "passed t \<longleftrightarrow> passed s \<and> cv_flag C (acts (pr_trace t)) (pb_lsLmsrMarket B) (IsSettled market) \<and>
       cv_uint C (acts (pr_trace t)) (pb_lsLmsrMarket B) (WinnerOf market) = 1"
  using run by (auto simp: probeRule_def run_rules rules_on_def dest!: sent_step answered [OF chain])

lemma probePayouts_ran:
  assumes chain: "answers_from W C" and run: "probePayouts W B proposer disputer x y bond reward s = (Inr u, t)"
  shows "acts (pr_trace t) = acts (pr_trace s)"
    "passed t \<longleftrightarrow> passed s \<and> cv_uint C (acts (pr_trace s)) (pb_usdc B) (BalanceOf proposer) = x \<and>
       cv_uint C (acts (pr_trace s)) (pb_usdc B) (BalanceOf disputer) = y + bond + reward"
  using run by (auto simp: probePayouts_def run_rules dest!: sent_step answered [OF chain])

lemma probeBan_ran:
  assumes chain: "answers_from W C" and run: "probeBan W B market proposer disputer s = (Inr u, t)"
  shows "acts (pr_trace t) = acts (pr_trace s)"
    "passed t \<longleftrightarrow> passed s \<and> cv_flag C (acts (pr_trace s)) (pb_tradingBlocklist B) (IsBanned proposer) \<and>
       \<not> cv_flag C (acts (pr_trace s)) (pb_tradingBlocklist B) (IsBanned disputer) \<and>
       reverted_with ''AccountBanned'' (cv_refusal C (acts (pr_trace s)) (pb_lsLmsrMarket B) proposer (CallBuy market 0 1000000 (2 ^ 200)))"
  using run by (auto simp: probeBan_def run_rules dest!: sent_step answered [OF chain])

text \<open>C38. A run of the contested probe that exits with zero has shown the incentive the layer rests on, on any chain
  nobody else uses meanwhile. With the flat bond of 25 and a reward of two percent of the fees: the liar ends exactly
  bond and fee poorer, the watcher exactly reward less fee richer; the market stood disputed between the dispute and
  the ruling and is settled for the watcher's outcome after it; the liar is barred from trading and refused by the
  engine, the watcher is not barred; and a proposal before the close, a second proposal, a dispute that repeats the
  proposal and a settlement inside the window were each answered with an exception.\<close>

theorem passing_resolution_run_shows:
  assumes run: "resolutionScript W fuel accountOf book env proposer disputer = (0, s)" and chain: "answers_from W C"
  shows "\<exists>B market deployer n. book = Some B \<and> probe_setup accountOf env = Some (market, deployer) \<and>
    (let engine = pb_lsLmsrMarket B; resolver = pb_optimisticResolver B; usdc = pb_usdc B;
         traded = funding_acts B market deployer proposer disputer;
         closed = traded @ replicate n (Pause 5000);
         lied = closed @ [proposes B market proposer];
         disputed = lied @ [disputes B market disputer];
         ruled = disputed @ [rules_on B market deployer];
         fees = cv_uint C traded engine (FeesOf market);
         fee = cv_uint C closed resolver ReadProposalFee in
     acts (pr_trace s) = ruled \<and> 0 < fees \<and>
     cv_uint C ruled usdc (BalanceOf proposer) = cv_uint C closed usdc (BalanceOf proposer) - (25000000 + fee) \<and>
     cv_uint C ruled usdc (BalanceOf disputer) = cv_uint C lied usdc (BalanceOf disputer) + (fees div 50 - fee) \<and>
     op_phase (cv_proposal C disputed resolver (ReadProposal engine market)) = 2 \<and>
     cv_flag C ruled engine (IsSettled market) \<and> cv_uint C ruled engine (WinnerOf market) = 1 \<and>
     cv_flag C ruled (pb_tradingBlocklist B) (IsBanned proposer) \<and>
     \<not> cv_flag C ruled (pb_tradingBlocklist B) (IsBanned disputer) \<and>
     reverted_with ''AccountBanned'' (cv_refusal C ruled engine proposer (CallBuy market 0 1000000 (2 ^ 200))) \<and>
     cv_refusal C traded resolver proposer (CallPropose engine market 0) \<noteq> None \<and>
     cv_refusal C lied resolver disputer (CallPropose engine market 1) \<noteq> None \<and>
     cv_refusal C lied resolver disputer (CallDispute engine market 0) \<noteq> None \<and>
     cv_refusal C lied resolver deployer (CallFinalize engine market) \<noteq> None)"
proof -
  obtain B market deployer where ready: "book = Some B" "probe_setup accountOf env = Some (market, deployer)"
    and body: "resolutionMain W fuel B market deployer proposer disputer fresh_run = (Inr (), s)" and ok: "passed s"
    using run by (auto simp: resolutionScript_def probe_exit_0 split: option.splits)
  from body obtain s1 fees s2 s3 bond fee reward s4 x s5 s6 y s7 s8 s9 where
      steps: "probeFund W B deployer [proposer, disputer] fresh_run = (Inr (), s1)" "probeTrade W B market deployer s1 = (Inr fees, s2)"
        "probeEarly W fuel B market proposer s2 = (Inr (), s3)" "probeTerms W B market fees s3 = (Inr (bond, fee, reward), s4)"
        "probeLie W B market proposer bond fee s4 = (Inr x, s5)" "probeRefusals W B market disputer deployer s5 = (Inr (), s6)"
        "probeDispute W B market disputer bond fee s6 = (Inr y, s7)" "probeRule W B market deployer s7 = (Inr (), s8)"
        "probePayouts W B proposer disputer x y bond reward s8 = (Inr (), s9)" "probeBan W B market proposer disputer s9 = (Inr (), s)"
    unfolding resolutionMain_def by (auto simp: seqp_Inr bindp_Inr split: prod.splits)
  note trade = probeTrade_ran [OF chain steps(1,2)] and early = probeEarly_ran [OF chain steps(3)]
    and terms = probeTerms_ran [OF chain steps(4)] and lie = probeLie_ran [OF chain steps(5)]
    and refusals = probeRefusals_ran [OF chain steps(6)] and dispute = probeDispute_ran [OF chain steps(7)]
    and rule = probeRule_ran [OF chain steps(8)] and payouts = probePayouts_ran [OF chain steps(9)]
    and ban = probeBan_ran [OF chain steps(10)]
  have p: "passed s9" "passed s8" "passed s7" "passed s6" "passed s5" "passed s4" "passed s3" "passed s2"
    using ok ban payouts rule dispute refusals lie terms early by blast+
  have reward: "reward = fees div 50" using terms(5) trade(2) p by (simp add: bigint_div_nonneg)
  obtain n where n: "acts (pr_trace s3) = acts (pr_trace s2) @ replicate n (Pause 5000)" using early(1) by blast
  have early2: "cv_refusal C (acts (pr_trace s2)) (pb_optimisticResolver B) proposer (CallPropose (pb_lsLmsrMarket B) market 0) \<noteq> None"
    using early(2) p by (blast dest: reverted_with_refusal)
  have open_window: "cv_refusal C (acts (pr_trace s5)) (pb_optimisticResolver B) deployer (CallFinalize (pb_lsLmsrMarket B) market) \<noteq> None"
    using refusals(2) p by (blast dest: reverted_with_refusal)
  show ?thesis
    using ready ok p ban payouts rule dispute refusals lie terms trade early2 open_window
    by (intro exI [of _ B] exI [of _ market] exI [of _ deployer] exI [of _ n]) (simp add: Let_def n reward)
qed

theorem passing_resolution_run_shows_witness:
  "\<exists>n. acts (pr_trace (snd sample_resolution_run)) =
     funding_acts probe_sample_book 7 ''0xk'' ''p'' ''d'' @ replicate n (Pause 5000) @
       [proposes probe_sample_book 7 ''p'', disputes probe_sample_book 7 ''d'', rules_on probe_sample_book 7 ''0xk'']"
proof -
  have "resolutionScript (world_of probe_sample_chain sample_clock) 3 Some (Some probe_sample_book) probe_sample_env ''p'' ''d'' =
      (0, snd sample_resolution_run)"
    using sample_resolution_passes unfolding sample_resolution_run_def by (metis prod.collapse)
  from passing_resolution_run_shows [OF this world_of_answers] show ?thesis
    by (auto simp: Let_def sample_setup)
qed

section \<open>Waiting, and what a refusal proves\<close>

text \<open>The wait of both probes ends. On a clock that gains at least a second over every pause of five, a run that
  starts waiting \<open>k\<close> seconds before the close makes at most \<open>k + 1\<close> pauses, sends nothing meanwhile, and goes on only
  once the clock is past the close.\<close>

theorem probes_reach_the_close:
  assumes close: "0 \<le> close" "close \<le> 8640000000000" and epoch: "\<And>tr. 0 \<le> pw_clock W tr"
    and gains: "\<And>tr. pw_clock W (tr @ [ReadClock]) + 1000 \<le> pw_clock W (tr @ [ReadClock, Pause 5000, ReadClock])"
    and far: "close < pw_clock W (pr_trace s @ [ReadClock]) div 1000 + int fuel"
  shows "\<exists>n \<le> fuel. awaitClose W (Suc fuel) close s = (Inr (), further (waited n) s) \<and>
    acts (pr_trace (further (waited n) s)) = acts (pr_trace s) @ replicate n (Pause 5000) \<and>
    close < pw_clock W (pr_trace s @ waited n) div 1000"
  using waitForClose_ends [of close W s fuel] assms by (auto simp: awaitClose_def printable_dates)

definition ticking_clock :: "probe_event list \<Rightarrow> int" where
  "ticking_clock tr = 998000 + 5000 * int (length (filter (\<lambda>e. e = Pause 5000) tr))"

theorem probes_reach_the_close_witness:
  "\<exists>n \<le> 5. awaitClose (world_of probe_sample_chain ticking_clock) 6 1000 fresh_run = (Inr (), further (waited n) fresh_run)"
proof -
  have "\<exists>n \<le> 5. awaitClose (world_of probe_sample_chain ticking_clock) (Suc 5) 1000 fresh_run = (Inr (), further (waited n) fresh_run) \<and>
      acts (pr_trace (further (waited n) fresh_run)) = acts (pr_trace fresh_run) @ replicate n (Pause 5000) \<and>
      1000 < pw_clock (world_of probe_sample_chain ticking_clock) (pr_trace fresh_run @ waited n) div 1000"
    by (rule probes_reach_the_close) (simp_all add: world_of_def ticking_clock_def)
  then show ?thesis by auto
qed

text \<open>\<open>expectRevert\<close> answers with the message of any exception: where the check is only that there was one, a chain
  that would have taken the second proposal passes it while its node is unreachable.\<close>

theorem outage_reads_as_a_refusal:
  assumes "pw_refusal W (pr_trace s @ [TryCall disputer (pb_optimisticResolver B) (CallPropose (pb_lsLmsrMarket B) market 1)]) =
    Some ''HTTP request failed.''"
  shows "bindp (expectRevert W (pb_optimisticResolver B) (CallPropose (pb_lsLmsrMarket B) market 1) disputer)
      (\<lambda>second. check_that name (second \<noteq> None)) s =
    (Inr (), noted name True (further [TryCall disputer (pb_optimisticResolver B) (CallPropose (pb_lsLmsrMarket B) market 1)] s))"
  using assms by (simp add: expectRevert_def exchange_def bindp_def check_that_def modp_def noted_def further_def)

end
