(* ===== verification/StackRun.thy ===== *)
theory StackRun
  imports Probes Http
begin

text \<open>
  \<open>src/scripts/pool-integration.mjs\<close> as one program: the shielded pool through the running stack, driven the way the
  browser drives it. The stack, that is the backend behind its three routes and the chain behind its node, is a
  parameter: an unknown world that every exchange may change. The client's own work, notes, trees, bodies and the
  recovery walk, is that of \<open>PoolClient\<close> and \<open>Probes\<close>.
\<close>

section \<open>The stack\<close>

datatype stack_call =
    MintTo string string int          \<comment> \<open>token, account, amount\<close>
  | ApproveFor string string int      \<comment> \<open>token, spender, amount\<close>
  | DepositNote string int int        \<comment> \<open>entry point, value, precommitment\<close>

text \<open>\<open>None\<close> is an exception. A write route answers with its status and, in its body, perhaps a hash. A
  transaction that returns has a successful receipt; the answer is its hash.\<close>

record 'w stack =
  sw_state :: "'w \<Rightarrow> polled \<times> 'w"
  sw_withdraw :: "withdraw_dto \<Rightarrow> 'w \<Rightarrow> (nat \<times> string option) option \<times> 'w"
  sw_shield :: "shield_dto \<Rightarrow> 'w \<Rightarrow> (nat \<times> string option) option \<times> 'w"
  sw_tx :: "stack_call \<Rightarrow> 'w \<Rightarrow> string option \<times> 'w"
  sw_receipt :: "string \<Rightarrow> 'w \<Rightarrow> unit option \<times> 'w"
  sw_balance :: "string \<Rightarrow> string \<Rightarrow> 'w \<Rightarrow> int option \<times> 'w"    \<comment> \<open>token, account\<close>
  sw_gas :: "string \<Rightarrow> 'w \<Rightarrow> int option \<times> 'w"                \<comment> \<open>native balance\<close>
  sw_shieldNonce :: "string \<Rightarrow> 'w \<Rightarrow> int option \<times> 'w"
  sw_permitNonce :: "string \<Rightarrow> 'w \<Rightarrow> int option \<times> 'w"
  sw_clock :: "'w \<Rightarrow> int \<times> 'w"
  sw_sleep :: "'w \<Rightarrow> 'w"

datatype stack_error = Thrown | NeverReturns

text \<open>What was exchanged: the request and the stack's answer to it.\<close>

datatype stack_event =
    StateReply polled
  | WithdrawReply withdraw_dto "nat \<times> string option"
  | ShieldReply shield_dto "nat \<times> string option"
  | TxReply stack_call string
  | ReceiptReply string
  | BalanceReply string string int
  | GasReply string int
  | ShieldNonceReply string int
  | PermitNonceReply string int
  | ClockReply int

text \<open>A run: the stack as it stands, the results of the checks, and everything the stack has answered, in order. An
  exchange that throws leaves no answer.\<close>

record ('w, 'e) stack_run =
  sr_world :: 'w
  sr_checks :: "(string \<times> bool) list"
  sr_trace :: "'e list"

type_synonym ('w, 'e, 'a) stack_proc = "(('w, 'e) stack_run, stack_error, 'a) proc"

definition asks :: "('a \<Rightarrow> 'e) \<Rightarrow> ('w \<Rightarrow> 'a option \<times> 'w) \<Rightarrow> ('w, 'e, 'a) stack_proc" where
  "asks event f = (\<lambda>s. case f (sr_world s) of
     (None, w) \<Rightarrow> (Inl Thrown, s\<lparr>sr_world := w\<rparr>)
   | (Some x, w) \<Rightarrow> (Inr x, s\<lparr>sr_world := w, sr_trace := sr_trace s @ [event x]\<rparr>))"

definition certain :: "('w \<Rightarrow> 'a \<times> 'w) \<Rightarrow> 'w \<Rightarrow> 'a option \<times> 'w" where
  "certain f w = (case f w of (x, v) \<Rightarrow> (Some x, v))"

definition transact :: "'w stack \<Rightarrow> stack_call \<Rightarrow> ('w, stack_event, string) stack_proc" where
  "transact S c = asks (TxReply c) (sw_tx S c)"

definition given_value :: "'a option \<Rightarrow> ('w, 'e, 'a) stack_proc" where
  "given_value v = (case v of None \<Rightarrow> throw Thrown | Some x \<Rightarrow> ret x)"

definition stack_check :: "string \<Rightarrow> bool \<Rightarrow> ('w, 'e, unit) stack_proc" where
  "stack_check name ok = modp (\<lambda>s. s\<lparr>sr_checks := sr_checks s @ [(name, ok)]\<rparr>)"

text \<open>\<open>waitForLeaves\<close>: sixty looks, a second apart.\<close>

fun awaitLeaves :: "'w stack \<Rightarrow> nat \<Rightarrow> nat \<Rightarrow> ('w, stack_event, pool_view) stack_proc" where
  "awaitLeaves S 0 wanted = throw Thrown"
| "awaitLeaves S (Suc n) wanted = bindp (asks StateReply (certain (sw_state S))) (\<lambda>answer.
     let again = seqp (modp (\<lambda>s. s\<lparr>sr_world := sw_sleep S (sr_world s)\<rparr>)) (awaitLeaves S n wanted) in
     case answer of
       Unreachable \<Rightarrow> throw Thrown
     | ErrorBody \<Rightarrow> again
     | StateBody v \<Rightarrow> if pv_synced v \<and> wanted \<le> length (pv_leaves v) then ret v else again)"

section \<open>The parts of main\<close>

record client_env =
  ce_hashes :: pool_hashes
  ce_tools :: pool_tools
  ce_signer :: signer
  ce_keccakHex :: "string \<Rightarrow> string"
  ce_accountOf :: "string \<Rightarrow> string"      \<comment> \<open>\<open>privateKeyToAccount\<close>: the address\<close>
  ce_depositor :: string
  ce_pid :: string

definition UNIT :: int where
  "UNIT = 1000000"

text \<open>\<open>state.root === BigInt(stateRoot)\<close> for the tree of the served commitments; the root of an empty tree is
  \<open>undefined\<close>.\<close>

definition commitmentsOf :: "leaf_view list \<Rightarrow> int list option" where
  "commitmentsOf leaves = bigints (map lv_commitment leaves)"

definition rootAgrees :: "pool_tools \<Rightarrow> int list \<Rightarrow> string \<Rightarrow> bool option" where
  "rootAgrees T cs stateRoot = map_option (\<lambda>r. cs \<noteq> [] \<and> pt_root T cs = r) (bigint_of_string stateRoot)"

definition openState :: "client_env \<Rightarrow> 'w stack \<Rightarrow> ('w, stack_event, pool_view) stack_proc" where
  "openState E S = bindp (asks StateReply (certain (sw_state S))) (\<lambda>answer. case answer of
     Unreachable \<Rightarrow> throw Thrown
   | ErrorBody \<Rightarrow> seqp (stack_check ''the state endpoint answers'' False) (throw Thrown)
   | StateBody v \<Rightarrow>
       seqp (stack_check ''the state endpoint answers'' (pv_enabled v))
       (bindp (given_value (bigint_of_string (pv_scope v))) (\<lambda>_.
        bindp (given_value (commitmentsOf (pv_leaves v))) (\<lambda>cs.
        bindp (given_value (rootAgrees (ce_tools E) cs (pv_stateRoot v))) (\<lambda>agrees.
        seqp (stack_check ''the served tree rebuilds the chain's root'' (agrees \<or> pv_leaves v = [] \<and> pv_stateRoot v = ''0''))
          (ret v))))))"

definition fundDepositor :: "client_env \<Rightarrow> 'w stack \<Rightarrow> string \<Rightarrow> string \<Rightarrow> pool_note \<Rightarrow> int \<Rightarrow> ('w, stack_event, string) stack_proc" where
  "fundDepositor E S token entrypoint note1 amount =
     bindp (asks (BalanceReply token (ce_depositor E)) (sw_balance S token (ce_depositor E))) (\<lambda>held.
     seqp (whenp (held < amount) (bindp (transact S (MintTo token (ce_depositor E) (amount * 10))) (\<lambda>_. ret ())))
     (bindp (transact S (ApproveFor token entrypoint amount)) (\<lambda>_.
      transact S (DepositNote entrypoint amount (precommitmentOf (ce_hashes E) note1)))))"

text \<open>\<open>mine && commitmentOf(\<dots>) === mine.commitment\<close>: without a leaf the check fails and the program goes on, to throw
  where it first needs the leaf.\<close>

definition mintedAsComputed :: "client_env \<Rightarrow> pool_note \<Rightarrow> int \<Rightarrow> leaf_view option \<Rightarrow> bool option" where
  "mintedAsComputed E own amount mine = (case mine of
     None \<Rightarrow> Some False
   | Some l \<Rightarrow> map_option (\<lambda>label. dec (noteCommitment (ce_hashes E) own amount label) = lv_commitment l)
       (Option.bind (lv_label l) bigint_of_string))"

text \<open>\<open>mine.commitment\<close> is first read at a deposit leaf: without one, the missing leaf goes unnoticed in the loop.\<close>

definition ownCommitment :: "leaf_view option \<Rightarrow> leaf_view list \<Rightarrow> string option" where
  "ownCommitment mine leaves = (case mine of
     Some l \<Rightarrow> Some (lv_commitment l)
   | None \<Rightarrow> if \<exists>l \<in> set leaves. lv_kind l = DEPOSIT then None else Some [])"

definition checkMirror :: "client_env \<Rightarrow> pool_note \<Rightarrow> int \<Rightarrow> pool_view \<Rightarrow> pool_view \<Rightarrow> ('w, stack_event, unit) stack_proc" where
  "checkMirror E own amount first_view view =
     (let mine = ownLeaf (ce_hashes E) own (pv_leaves view) in
      seqp (stack_check ''the indexer mirrored the deposit'' (length (pv_leaves first_view) < length (pv_leaves view)))
      (seqp (stack_check ''a client can find its own note by precommitment alone'' (mine \<noteq> None))
      (bindp (given_value (mintedAsComputed E own amount mine)) (\<lambda>same.
       seqp (stack_check ''the note the chain minted is the one the client would compute'' same)
       (bindp (given_value (ownCommitment mine (pv_leaves view))) (\<lambda>c.
        bindp (given_value (rebuildTrees c (pv_leaves view) no_trees)) (\<lambda>R.
        bindp (given_value (rootAgrees (ce_tools E) (ct_state R) (pv_stateRoot view))) (\<lambda>agrees.
         stack_check ''the rebuilt tree still matches the chain after the deposit'' agrees))))))))"

text \<open>The two altered bodies.\<close>

definition forged :: "withdraw_dto \<Rightarrow> withdraw_dto" where
  "forged body = body\<lparr>wd_proof := (wd_proof body)\<lparr>pf_signals :=
     map (\<lambda>(i, x). if i = 5 then ''12345'' else x) (enumerate 0 (pf_signals (wd_proof body)))\<rparr>\<rparr>"

definition misrouted :: "string \<Rightarrow> withdraw_dto \<Rightarrow> withdraw_dto" where
  "misrouted acct body = body\<lparr>wd_processooor := acct\<rparr>"

definition redirected :: "shield_dto \<Rightarrow> shield_dto" where
  "redirected body = body\<lparr>sh_precommitment := ''999999''\<rparr>"

text \<open>\<open>if (body.hash) await waitForTransactionReceipt\<close>: an empty hash is falsy.\<close>

definition awaitHash :: "'w stack \<Rightarrow> string option \<Rightarrow> ('w, stack_event, unit) stack_proc" where
  "awaitHash S h = (case truthy h of None \<Rightarrow> ret () | Some x \<Rightarrow> asks (\<lambda>_. ReceiptReply x) (sw_receipt S x))"

definition refusals :: "'w stack \<Rightarrow> string \<Rightarrow> withdraw_dto \<Rightarrow> ('w, stack_event, unit) stack_proc" where
  "refusals S acct body =
     bindp (asks (WithdrawReply (forged body)) (sw_withdraw S (forged body))) (\<lambda>(status, _).
     seqp (stack_check ''an unrecognised association root is refused'' (400 \<le> status))
     (bindp (asks (WithdrawReply (misrouted acct body)) (sw_withdraw S (misrouted acct body))) (\<lambda>(status, _).
      stack_check ''a withdrawal processed by anything but the entrypoint is refused'' (400 \<le> status))))"

definition withdrawOnce :: "'w stack \<Rightarrow> string \<Rightarrow> string \<Rightarrow> withdraw_dto \<Rightarrow> int \<Rightarrow> ('w, stack_event, unit) stack_proc" where
  "withdrawOnce S token acct body withdrawn =
     bindp (asks (BalanceReply token acct) (sw_balance S token acct)) (\<lambda>before.
     bindp (asks (WithdrawReply body) (sw_withdraw S body)) (\<lambda>(status, h).
     seqp (stack_check ''the backend relayed a real proof'' (status = 200))
     (seqp (awaitHash S h)
     (bindp (asks (BalanceReply token acct) (sw_balance S token acct)) (\<lambda>held.
      seqp (stack_check ''the market account was funded out of the anonymity set'' (held - before = withdrawn))
      (bindp (asks (GasReply acct) (sw_gas S acct)) (\<lambda>gas.
       seqp (stack_check ''the market account holds no gas, and never did'' (gas = 0))
       (bindp (asks (WithdrawReply body) (sw_withdraw S body)) (\<lambda>(status, _).
        stack_check ''the same proof cannot be submitted twice'' (400 \<le> status))))))))))"

text \<open>A signature of the account library is 65 bytes, so the \<open>v\<close> read out of it is a number; of any other string the
  body is \<open>None\<close> and the run stops.\<close>

definition returnOnce :: "client_env \<Rightarrow> 'w stack \<Rightarrow> string \<Rightarrow> string \<Rightarrow> pool_note \<Rightarrow> string \<Rightarrow> int \<Rightarrow> ('w, stack_event, unit) stack_proc" where
  "returnOnce E S token entrypoint keys acct amount =
     bindp (asks ClockReply (certain (sw_clock S))) (\<lambda>ms.
     bindp (asks (ShieldNonceReply acct) (sw_shieldNonce S acct)) (\<lambda>sn.
     bindp (asks (PermitNonceReply acct) (sw_permitNonce S acct)) (\<lambda>pn.
     bindp (given_value (shieldBody (ce_hashes E) (ce_signer E) keys ms acct entrypoint amount sn pn)) (\<lambda>body.
     bindp (asks (ShieldReply (redirected body)) (sw_shield S (redirected body))) (\<lambda>(status, _).
     seqp (stack_check ''a tampered precommitment is refused'' (400 \<le> status))
     (bindp (asks (ShieldReply body) (sw_shield S body)) (\<lambda>(status, h).
      seqp (stack_check ''a gasless account returned its balance by signature'' (status = 200))
      (seqp (awaitHash S h)
      (bindp (asks (BalanceReply token acct) (sw_balance S token acct)) (\<lambda>held.
       stack_check ''the market account is empty again'' (held = 0)))))))))))"

definition recoverAll :: "client_env \<Rightarrow> 'w stack \<Rightarrow> string \<Rightarrow> nat \<Rightarrow> int \<Rightarrow> ('w, stack_event, unit) stack_proc" where
  "recoverAll E S seed wanted amount =
     bindp (awaitLeaves S 60 wanted) (\<lambda>last_view.
     case recoveredTotal (ce_hashes E) seed (pv_leaves last_view) of
       None \<Rightarrow> throw NeverReturns
     | Some (Inl _) \<Rightarrow> throw Thrown
     | Some (Inr recovered) \<Rightarrow> stack_check ''the whole balance is recoverable from the root secret alone'' (recovered = amount))"

definition rootSecret :: "client_env \<Rightarrow> pool_view \<Rightarrow> string" where
  "rootSecret E first_view = ce_keccakHex E (''numera-integration-'' @ ce_pid E @ ''-'' @ pv_stateRoot first_view)"

definition probeAccount :: "client_env \<Rightarrow> string \<Rightarrow> string" where
  "probeAccount E tx = ce_accountOf E (ce_keccakHex E (''numera-market-account-'' @ tx))"

text \<open>From the note in the mirror to the end; \<open>tx\<close> is the hash of the deposit.\<close>

definition spendAndReturn :: "client_env \<Rightarrow> 'w stack \<Rightarrow> pool_view \<Rightarrow> pool_view \<Rightarrow> string \<Rightarrow> ('w, stack_event, unit) stack_proc" where
  "spendAndReturn E S first_view view tx =
     (let seed = rootSecret E first_view; keys = masters (ce_hashes E) seed; amount = 10 * UNIT; withdrawn = 4 * UNIT;
          own = depositNote (ce_hashes E) keys 0; token = pv_asset first_view; acct = probeAccount E tx in
      seqp (checkMirror E own amount first_view view)
      (bindp (given_value (withdrawalBody (ce_hashes E) (ce_tools E) keys acct amount withdrawn first_view view)) (\<lambda>body.
       let signals = pf_signals (wd_proof body) in
       seqp (stack_check ''the nullifier hash matches the client formula''
              (1 < length signals \<and> signals ! 1 = dec (ph_one (ce_hashes E) (n_nullifier own))))
       (seqp (refusals S acct body)
       (seqp (withdrawOnce S token acct body withdrawn)
       (seqp (returnOnce E S token (pv_entrypoint first_view) keys acct withdrawn)
         (recoverAll E S seed (length (pv_leaves view) + 2) amount)))))))"

definition integrationMain :: "client_env \<Rightarrow> 'w stack \<Rightarrow> ('w, stack_event, unit) stack_proc" where
  "integrationMain E S =
     bindp (openState E S) (\<lambda>first_view.
     bindp (fundDepositor E S (pv_asset first_view) (pv_entrypoint first_view)
              (depositNote (ce_hashes E) (masters (ce_hashes E) (rootSecret E first_view)) 0) (10 * UNIT)) (\<lambda>tx.
     bindp (awaitLeaves S 60 (length (pv_leaves first_view) + 1)) (\<lambda>view.
       spendAndReturn E S first_view view tx)))"

text \<open>The exit code.\<close>

definition integrationScript :: "client_env \<Rightarrow> 'w stack \<Rightarrow> 'w \<Rightarrow> int \<times> ('w, stack_event) stack_run" where
  "integrationScript E S w = (case integrationMain E S \<lparr>sr_world = w, sr_checks = [], sr_trace = []\<rparr> of
     (Inl _, s) \<Rightarrow> (1, s)
   | (Inr _, s) \<Rightarrow> (if list_all snd (sr_checks s) then 0 else 1, s))"

section \<open>Runs\<close>

lemma given_value_Inr [simp]: "given_value v s = (Inr x, t) \<longleftrightarrow> v = Some x \<and> t = s"
  by (auto simp: given_value_def ret_def throw_def split: option.splits)

lemma stack_check_Inr: "stack_check name ok s = (Inr u, t) \<longleftrightarrow> t = s\<lparr>sr_checks := sr_checks s @ [(name, ok)]\<rparr>"
  by (auto simp: stack_check_def modp_def)

definition all_pass :: "('w, 'e) stack_run \<Rightarrow> bool" where
  "all_pass s \<longleftrightarrow> list_all snd (sr_checks s)"

lemma all_pass_check [simp]: "all_pass (s\<lparr>sr_checks := sr_checks s @ [(name, ok)]\<rparr>) \<longleftrightarrow> all_pass s \<and> ok"
  by (simp add: all_pass_def)

lemma all_pass_world [simp]: "all_pass (s\<lparr>sr_world := w\<rparr>) = all_pass s"
  by (simp add: all_pass_def)

text \<open>What a part of the program did: it was answered so, and the checks all passed if they did before and \<open>ok\<close> holds.\<close>

definition went :: "('w, 'e) stack_run \<Rightarrow> 'e list \<Rightarrow> bool \<Rightarrow> ('w, 'e) stack_run \<Rightarrow> bool" where
  "went s es ok t \<longleftrightarrow> sr_trace t = sr_trace s @ es \<and> (all_pass t \<longleftrightarrow> all_pass s \<and> ok)"

lemma went_append: "went s es ok t \<Longrightarrow> went t fs ok' u \<Longrightarrow> went s (es @ fs) (ok \<and> ok') u"
  by (auto simp: went_def)

lemma went_Cons: "went s [e] True t \<Longrightarrow> went t es True u \<Longrightarrow> went s (e # es) True u"
  by (simp add: went_def)

lemma went_world [simp]: "went (s\<lparr>sr_world := w\<rparr>) es ok t = went s es ok t"
  by (simp add: went_def)

lemma asks_went: "asks event f s = (Inr x, t) \<Longrightarrow> went s [event x] True t"
  by (auto simp: asks_def went_def all_pass_def split: prod.splits option.splits)

lemma stack_check_went: "stack_check name ok s = (Inr u, t) \<Longrightarrow> went s [] ok t"
  by (auto simp: stack_check_Inr went_def)

lemma whenp_Inr: "whenp b m s = (Inr u, t) \<longleftrightarrow> (if b then m s = (Inr u, t) else t = s)"
  by (auto simp: whenp_def ret_def)

text \<open>The receipt a hash was waited for.\<close>

definition mined :: "string option \<Rightarrow> stack_event list" where
  "mined h = (case truthy h of None \<Rightarrow> [] | Some x \<Rightarrow> [ReceiptReply x])"

lemma awaitHash_went: "awaitHash S h s = (Inr u, t) \<Longrightarrow> went s (mined h) True t"
  by (auto simp: awaitHash_def mined_def ret_def went_def dest!: asks_went split: option.splits)

text \<open>A loop of looks: any number that did not end it, each of them \<open>P\<close>, and the last.\<close>

definition looked :: "('e \<Rightarrow> bool) \<Rightarrow> 'e \<Rightarrow> 'e list \<Rightarrow> bool" where
  "looked P final es \<longleftrightarrow> (\<exists>looks. es = looks @ [final] \<and> list_all P looks)"

lemma looked_now [simp]: "looked P final [final]"
  by (simp add: looked_def)

lemma looked_later: "looked P final es \<Longrightarrow> P e \<Longrightarrow> looked P final (e # es)"
proof -
  assume "looked P final es" "P e"
  then obtain looks where "es = looks @ [final]" "list_all P looks" unfolding looked_def by blast
  with \<open>P e\<close> show ?thesis unfolding looked_def by (intro exI [of _ "e # looks"]) simp
qed

text \<open>The wait: the last look showed a synced view with as many leaves as were waited for.\<close>

definition waited_for :: "nat \<Rightarrow> pool_view \<Rightarrow> stack_event list \<Rightarrow> bool" where
  "waited_for wanted v es \<longleftrightarrow> looked (\<lambda>e. \<exists>a. e = StateReply a) (StateReply (StateBody v)) es \<and>
     pv_synced v \<and> wanted \<le> length (pv_leaves v)"

lemma waited_Cons: "waited_for wanted v es \<Longrightarrow> waited_for wanted v (StateReply a # es)"
  by (auto simp: waited_for_def intro: looked_later)

lemma awaitLeaves_went: "awaitLeaves S n wanted s = (Inr v, t) \<Longrightarrow> \<exists>es. went s es True t \<and> waited_for wanted v es"
proof (induction n arbitrary: s)
  case (Suc n)
  from Suc.prems obtain answer u where a: "asks StateReply (certain (sw_state S)) s = (Inr answer, u)"
    and rest: "(let again = seqp (modp (\<lambda>s. s\<lparr>sr_world := sw_sleep S (sr_world s)\<rparr>)) (awaitLeaves S n wanted) in
       case answer of Unreachable \<Rightarrow> throw Thrown | ErrorBody \<Rightarrow> again
       | StateBody v \<Rightarrow> if pv_synced v \<and> wanted \<le> length (pv_leaves v) then ret v else again) u = (Inr v, t)"
    by (auto simp: bindp_Inr)
  note first = asks_went [OF a]
  have again: ?case if later: "awaitLeaves S n wanted (u\<lparr>sr_world := sw_sleep S (sr_world u)\<rparr>) = (Inr v, t)"
  proof -
    obtain es where es: "went (u\<lparr>sr_world := sw_sleep S (sr_world u)\<rparr>) es True t" "waited_for wanted v es"
      using Suc.IH [OF later] by blast
    then have "went s (StateReply answer # es) True t" using went_Cons [OF first] by simp
    then show ?thesis using waited_Cons [OF es(2)] by blast
  qed
  have now: ?case if "answer = StateBody v" "t = u" "pv_synced v" "wanted \<le> length (pv_leaves v)"
    using first that by (intro exI [of _ "[StateReply (StateBody v)]"]) (auto simp: waited_for_def)
  show ?case using rest again now by (auto simp: Let_def throw_def ret_def split: polled.splits if_splits)
qed (simp add: throw_def)

lemma openState_ran:
  assumes "openState E S s = (Inr v, t)"
  shows "\<exists>cs agrees. commitmentsOf (pv_leaves v) = Some cs \<and> rootAgrees (ce_tools E) cs (pv_stateRoot v) = Some agrees \<and>
    went s [StateReply (StateBody v)] (pv_enabled v \<and> (agrees \<or> pv_leaves v = [] \<and> pv_stateRoot v = ''0'')) t"
proof -
  from assms obtain answer u where asked: "asks StateReply (certain (sw_state S)) s = (Inr answer, u)"
    and rest: "(case answer of Unreachable \<Rightarrow> throw Thrown
      | ErrorBody \<Rightarrow> seqp (stack_check ''the state endpoint answers'' False) (throw Thrown)
      | StateBody v \<Rightarrow>
          seqp (stack_check ''the state endpoint answers'' (pv_enabled v))
          (bindp (given_value (bigint_of_string (pv_scope v))) (\<lambda>_.
           bindp (given_value (commitmentsOf (pv_leaves v))) (\<lambda>cs.
           bindp (given_value (rootAgrees (ce_tools E) cs (pv_stateRoot v))) (\<lambda>agrees.
           seqp (stack_check ''the served tree rebuilds the chain's root'' (agrees \<or> pv_leaves v = [] \<and> pv_stateRoot v = ''0''))
             (ret v)))))) u = (Inr v, t)"
    unfolding openState_def by (auto simp: bindp_Inr)
  from rest obtain cs agrees s1 s2 where body: "answer = StateBody v" "commitmentsOf (pv_leaves v) = Some cs"
      "rootAgrees (ce_tools E) cs (pv_stateRoot v) = Some agrees"
      "stack_check ''the state endpoint answers'' (pv_enabled v) u = (Inr (), s1)"
      "stack_check ''the served tree rebuilds the chain's root'' (agrees \<or> pv_leaves v = [] \<and> pv_stateRoot v = ''0'') s1 = (Inr (), s2)"
      "t = s2"
    by (cases answer) (auto simp: bindp_Inr seqp_Inr ret_def throw_def)
  from went_append [OF went_append [OF asks_went [OF asked] stack_check_went [OF body(4)]] stack_check_went [OF body(5)]]
  have "went s [StateReply (StateBody v)] (pv_enabled v \<and> (agrees \<or> pv_leaves v = [] \<and> pv_stateRoot v = ''0'')) t"
    using body(1,6) by simp
  then show ?thesis using body(2,3) by blast
qed

text \<open>The parts of the run by what was exchanged in them. The deposit, from the depositor's balance to the hash \<open>tx\<close>.\<close>

definition deposited :: "client_env \<Rightarrow> string \<Rightarrow> string \<Rightarrow> pool_note \<Rightarrow> int \<Rightarrow> string \<Rightarrow> stack_event list \<Rightarrow> bool" where
  "deposited E token entrypoint note1 amount tx es \<longleftrightarrow> (\<exists>held minted approved.
     es = [BalanceReply token (ce_depositor E) held] @
       (if held < amount then [TxReply (MintTo token (ce_depositor E) (amount * 10)) minted] else []) @
       [TxReply (ApproveFor token entrypoint amount) approved,
        TxReply (DepositNote entrypoint amount (precommitmentOf (ce_hashes E) note1)) tx])"

lemma fundDepositor_ran:
  assumes "fundDepositor E S token entrypoint own amount s = (Inr tx, t)"
  shows "\<exists>es. went s es True t \<and> deposited E token entrypoint own amount tx es"
proof -
  from assms obtain held s1 s2 approved s3 where steps:
      "asks (BalanceReply token (ce_depositor E)) (sw_balance S token (ce_depositor E)) s = (Inr held, s1)"
      "whenp (held < amount) (bindp (transact S (MintTo token (ce_depositor E) (amount * 10))) (\<lambda>_. ret ())) s1 = (Inr (), s2)"
      "transact S (ApproveFor token entrypoint amount) s2 = (Inr approved, s3)"
      "transact S (DepositNote entrypoint amount (precommitmentOf (ce_hashes E) own)) s3 = (Inr tx, t)"
    unfolding fundDepositor_def by (auto simp: bindp_Inr seqp_Inr)
  obtain minted where "went s1 (if held < amount then [TxReply (MintTo token (ce_depositor E) (amount * 10)) minted] else []) True s2"
    using steps(2) by (auto simp: whenp_Inr bindp_Inr ret_def transact_def went_def dest!: asks_went split: if_splits)
  from went_append [OF went_append [OF went_append [OF asks_went [OF steps(1)] this]
      asks_went [OF steps(3) [unfolded transact_def]]] asks_went [OF steps(4) [unfolded transact_def]]]
  have "went s ([BalanceReply token (ce_depositor E) held] @
      (if held < amount then [TxReply (MintTo token (ce_depositor E) (amount * 10)) minted] else []) @
      [TxReply (ApproveFor token entrypoint amount) approved,
       TxReply (DepositNote entrypoint amount (precommitmentOf (ce_hashes E) own)) tx]) True t"
    by (simp only: append_assoc append_Cons append_Nil simp_thms)
  then show ?thesis unfolding deposited_def by blast
qed

lemma checkMirror_ran:
  assumes "checkMirror E own amount first_view view s = (Inr u, t)"
  shows "\<exists>ok. went s [] ok t \<and> (ok \<longrightarrow> (\<exists>mine label R. ownLeaf (ce_hashes E) own (pv_leaves view) = Some mine \<and>
    Option.bind (lv_label mine) bigint_of_string = Some label \<and>
    lv_commitment mine = dec (noteCommitment (ce_hashes E) own amount label) \<and>
    rebuildTrees (lv_commitment mine) (pv_leaves view) no_trees = Some R \<and> ct_state R \<noteq> [] \<and>
    bigint_of_string (pv_stateRoot view) = Some (pt_root (ce_tools E) (ct_state R))))"
proof -
  define found where "found = ownLeaf (ce_hashes E) own (pv_leaves view)"
  from assms obtain s1 s2 s3 same c R agrees where steps:
      "stack_check ''the indexer mirrored the deposit'' (length (pv_leaves first_view) < length (pv_leaves view)) s = (Inr (), s1)"
      "stack_check ''a client can find its own note by precommitment alone'' (found \<noteq> None) s1 = (Inr (), s2)"
      "mintedAsComputed E own amount found = Some same"
      "stack_check ''the note the chain minted is the one the client would compute'' same s2 = (Inr (), s3)"
      "ownCommitment found (pv_leaves view) = Some c" "rebuildTrees c (pv_leaves view) no_trees = Some R"
      "rootAgrees (ce_tools E) (ct_state R) (pv_stateRoot view) = Some agrees"
      "stack_check ''the rebuilt tree still matches the chain after the deposit'' agrees s3 = (Inr u, t)"
    unfolding checkMirror_def Let_def seqp_Inr bindp_Inr given_value_Inr found_def by blast
  from went_append [OF went_append [OF went_append [OF stack_check_went [OF steps(1)] stack_check_went [OF steps(2)]]
      stack_check_went [OF steps(4)]] stack_check_went [OF steps(8)]]
  have run: "went s [] (((length (pv_leaves first_view) < length (pv_leaves view) \<and> found \<noteq> None) \<and> same) \<and> agrees) t" by simp
  have facts: "\<exists>mine label R. found = Some mine \<and> Option.bind (lv_label mine) bigint_of_string = Some label \<and>
      lv_commitment mine = dec (noteCommitment (ce_hashes E) own amount label) \<and>
      rebuildTrees (lv_commitment mine) (pv_leaves view) no_trees = Some R \<and> ct_state R \<noteq> [] \<and>
      bigint_of_string (pv_stateRoot view) = Some (pt_root (ce_tools E) (ct_state R))"
    if "found \<noteq> None" same agrees
    using that steps(3,5,6,7) by (auto simp: mintedAsComputed_def ownCommitment_def rootAgrees_def)
  show ?thesis using run facts unfolding found_def by blast
qed

text \<open>The two altered bodies, each answered with an error.\<close>

definition both_refused :: "string \<Rightarrow> withdraw_dto \<Rightarrow> stack_event list \<Rightarrow> bool" where
  "both_refused acct body es \<longleftrightarrow> (\<exists>one two. es = [WithdrawReply (forged body) one, WithdrawReply (misrouted acct body) two] \<and>
     400 \<le> fst one \<and> 400 \<le> fst two)"

lemma refusals_ran:
  assumes "refusals S acct body s = (Inr u, t)"
  shows "\<exists>es ok. went s es ok t \<and> (ok \<longrightarrow> both_refused acct body es)"
proof -
  from assms obtain one s1 s2 two s3 where steps: "asks (WithdrawReply (forged body)) (sw_withdraw S (forged body)) s = (Inr one, s1)"
      "stack_check ''an unrecognised association root is refused'' (400 \<le> fst one) s1 = (Inr (), s2)"
      "asks (WithdrawReply (misrouted acct body)) (sw_withdraw S (misrouted acct body)) s2 = (Inr two, s3)"
      "stack_check ''a withdrawal processed by anything but the entrypoint is refused'' (400 \<le> fst two) s3 = (Inr u, t)"
    unfolding refusals_def by (auto simp: bindp_Inr seqp_Inr split: prod.splits)
  from went_append [OF went_append [OF went_append [OF asks_went [OF steps(1)] stack_check_went [OF steps(2)]]
      asks_went [OF steps(3)]] stack_check_went [OF steps(4)]]
  have "went s [WithdrawReply (forged body) one, WithdrawReply (misrouted acct body) two] (400 \<le> fst one \<and> 400 \<le> fst two) t"
    by (simp only: append_assoc append_Cons append_Nil append_Nil2 simp_thms conj_assoc)
  then show ?thesis unfolding both_refused_def by blast
qed

text \<open>The withdrawal: accepted between two balances that differ by its amount, and then refused.\<close>

definition withdrawn_once :: "string \<Rightarrow> string \<Rightarrow> withdraw_dto \<Rightarrow> int \<Rightarrow> stack_event list \<Rightarrow> bool" where
  "withdrawn_once token acct body amount es \<longleftrightarrow> (\<exists>before h replay.
     es = [BalanceReply token acct before, WithdrawReply body (200, h)] @ mined h @
       [BalanceReply token acct (before + amount), GasReply acct 0, WithdrawReply body replay] \<and> 400 \<le> fst replay)"

lemma withdrawOnce_ran:
  assumes "withdrawOnce S token acct body withdrawn s = (Inr u, t)"
  shows "\<exists>es ok. went s es ok t \<and> (ok \<longrightarrow> withdrawn_once token acct body withdrawn es)"
proof -
  from assms obtain b s1 st h s2 s3 s4 a s5 s6 gas s7 s8 replay s9 where steps:
      "asks (BalanceReply token acct) (sw_balance S token acct) s = (Inr b, s1)"
      "asks (WithdrawReply body) (sw_withdraw S body) s1 = (Inr (st, h), s2)"
      "stack_check ''the backend relayed a real proof'' (st = 200) s2 = (Inr (), s3)" "awaitHash S h s3 = (Inr (), s4)"
      "asks (BalanceReply token acct) (sw_balance S token acct) s4 = (Inr a, s5)"
      "stack_check ''the market account was funded out of the anonymity set'' (a - b = withdrawn) s5 = (Inr (), s6)"
      "asks (GasReply acct) (sw_gas S acct) s6 = (Inr gas, s7)"
      "stack_check ''the market account holds no gas, and never did'' (gas = 0) s7 = (Inr (), s8)"
      "asks (WithdrawReply body) (sw_withdraw S body) s8 = (Inr replay, s9)"
      "stack_check ''the same proof cannot be submitted twice'' (400 \<le> fst replay) s9 = (Inr u, t)"
    unfolding withdrawOnce_def by (auto simp: bindp_Inr seqp_Inr split: prod.splits)
  note facts = asks_went [OF steps(1)] asks_went [OF steps(2)] stack_check_went [OF steps(3)] awaitHash_went [OF steps(4)]
    asks_went [OF steps(5)] stack_check_went [OF steps(6)] asks_went [OF steps(7)] stack_check_went [OF steps(8)]
    asks_went [OF steps(9)] stack_check_went [OF steps(10)]
  have "went s ([BalanceReply token acct b, WithdrawReply body (st, h)] @ mined h @
      [BalanceReply token acct a, GasReply acct gas, WithdrawReply body replay])
      (st = 200 \<and> a = b + withdrawn \<and> gas = 0 \<and> 400 \<le> fst replay) t"
    using facts unfolding went_def by (auto simp: eq_diff_eq)
  then show ?thesis unfolding withdrawn_once_def by blast
qed

text \<open>The return: redirected it was refused, as signed it was accepted, and the account was empty.\<close>

definition returned_once :: "client_env \<Rightarrow> string \<Rightarrow> string \<Rightarrow> pool_note \<Rightarrow> string \<Rightarrow> int \<Rightarrow> stack_event list \<Rightarrow> bool" where
  "returned_once E token entrypoint keys acct amount es \<longleftrightarrow> (\<exists>ms sn pn body bad h.
     shieldBody (ce_hashes E) (ce_signer E) keys ms acct entrypoint amount sn pn = Some body \<and>
     es = [ClockReply ms, ShieldNonceReply acct sn, PermitNonceReply acct pn, ShieldReply (redirected body) bad,
       ShieldReply body (200, h)] @ mined h @ [BalanceReply token acct 0] \<and> 400 \<le> fst bad)"

lemma returnOnce_ran:
  assumes "returnOnce E S token entrypoint keys acct amount s = (Inr u, t)"
  shows "\<exists>es ok. went s es ok t \<and> (ok \<longrightarrow> returned_once E token entrypoint keys acct amount es)"
proof -
  from assms obtain ms s1 sn s2 pn s3 body bad s5 s6 st h s7 s8 s9 held s10 where steps:
      "asks ClockReply (certain (sw_clock S)) s = (Inr ms, s1)" "asks (ShieldNonceReply acct) (sw_shieldNonce S acct) s1 = (Inr sn, s2)"
      "asks (PermitNonceReply acct) (sw_permitNonce S acct) s2 = (Inr pn, s3)"
      "shieldBody (ce_hashes E) (ce_signer E) keys ms acct entrypoint amount sn pn = Some body"
      "asks (ShieldReply (redirected body)) (sw_shield S (redirected body)) s3 = (Inr bad, s5)"
      "stack_check ''a tampered precommitment is refused'' (400 \<le> fst bad) s5 = (Inr (), s6)"
      "asks (ShieldReply body) (sw_shield S body) s6 = (Inr (st, h), s7)"
      "stack_check ''a gasless account returned its balance by signature'' (st = 200) s7 = (Inr (), s8)"
      "awaitHash S h s8 = (Inr (), s9)" "asks (BalanceReply token acct) (sw_balance S token acct) s9 = (Inr held, s10)"
      "stack_check ''the market account is empty again'' (held = 0) s10 = (Inr u, t)"
    unfolding returnOnce_def by (auto simp: bindp_Inr seqp_Inr split: prod.splits)
  note facts = asks_went [OF steps(1)] asks_went [OF steps(2)] asks_went [OF steps(3)] asks_went [OF steps(5)]
    stack_check_went [OF steps(6)] asks_went [OF steps(7)] stack_check_went [OF steps(8)] awaitHash_went [OF steps(9)]
    asks_went [OF steps(10)] stack_check_went [OF steps(11)]
  have "went s ([ClockReply ms, ShieldNonceReply acct sn, PermitNonceReply acct pn, ShieldReply (redirected body) bad,
      ShieldReply body (st, h)] @ mined h @ [BalanceReply token acct held]) (400 \<le> fst bad \<and> st = 200 \<and> held = 0) t"
    using facts unfolding went_def by auto
  then show ?thesis using steps(4) unfolding returned_once_def by blast
qed

lemma recoverAll_ran:
  assumes "recoverAll E S seed wanted amount s = (Inr u, t)"
  shows "\<exists>v es ok. went s es ok t \<and> waited_for wanted v es \<and> (ok \<longrightarrow> recoveredTotal (ce_hashes E) seed (pv_leaves v) = Some (Inr amount))"
proof -
  from assms obtain v r where v: "awaitLeaves S 60 wanted s = (Inr v, r)"
    and rest: "(case recoveredTotal (ce_hashes E) seed (pv_leaves v) of None \<Rightarrow> throw NeverReturns
      | Some (Inl _) \<Rightarrow> throw Thrown
      | Some (Inr recovered) \<Rightarrow> stack_check ''the whole balance is recoverable from the root secret alone'' (recovered = amount)) r = (Inr u, t)"
    unfolding recoverAll_def by (auto simp: bindp_Inr)
  obtain x where x: "recoveredTotal (ce_hashes E) seed (pv_leaves v) = Some (Inr x)"
    using rest by (cases "recoveredTotal (ce_hashes E) seed (pv_leaves v)") (auto simp: throw_def split: sum.split_asm)
  then have "went r [] (x = amount) t" using rest by (auto dest: stack_check_went)
  moreover obtain es where "went s es True r" "waited_for wanted v es" using awaitLeaves_went [OF v] by blast
  ultimately show ?thesis using went_append x by fastforce
qed

section \<open>What a passing run shows\<close>

text \<open>C40. A run of the pool probe that exits with zero consists of exactly these exchanges with the stack, in this
  order. The state was served, enabled, with a tree of the chain's root (or an empty one); the depositor approved and
  deposited ten units, having minted if he held less; the state was polled until it showed one leaf more, and in that
  view the client found its note, computed as the chain minted it, and rebuilt the chain's root. Of the withdrawal it
  then built, whose first signal is its note's nullifier hash, the copy with another association root and the copy with another processor were refused. The account's
  balance was read, the withdrawal accepted and its transaction, if it was named, mined, and the balance then read was
  higher by exactly four units, the account's gas none; the same body sent again was refused. The return with another
  note was refused, the return as signed accepted and mined, and the balance read after it was zero. At last the state
  was polled until two leaves more were shown, from which, with the root secret alone, all ten units were recovered.\<close>

theorem passing_integration_run_shows:
  assumes "integrationScript E S w = (0, s)"
  shows "\<exists>(first_view :: pool_view) cs agrees view (last_view :: pool_view) tx mine label R body
      funding waiting refusing spending returning looking.
    (let H = ce_hashes E; seed = rootSecret E first_view; keys = masters H seed; own = depositNote H keys 0;
         token = pv_asset first_view; entrypoint = pv_entrypoint first_view; acct = probeAccount E tx in
     sr_trace s = [StateReply (StateBody first_view)] @ funding @ waiting @ refusing @ spending @ returning @ looking \<and>
     pv_enabled first_view \<and> commitmentsOf (pv_leaves first_view) = Some cs \<and>
     rootAgrees (ce_tools E) cs (pv_stateRoot first_view) = Some agrees \<and>
     (agrees \<or> pv_leaves first_view = [] \<and> pv_stateRoot first_view = ''0'') \<and>
     deposited E token entrypoint own (10 * UNIT) tx funding \<and>
     waited_for (length (pv_leaves first_view) + 1) view waiting \<and>
     ownLeaf H own (pv_leaves view) = Some mine \<and> Option.bind (lv_label mine) bigint_of_string = Some label \<and>
     lv_commitment mine = dec (noteCommitment H own (10 * UNIT) label) \<and>
     rebuildTrees (lv_commitment mine) (pv_leaves view) no_trees = Some R \<and> ct_state R \<noteq> [] \<and>
     bigint_of_string (pv_stateRoot view) = Some (pt_root (ce_tools E) (ct_state R)) \<and>
     withdrawalBody H (ce_tools E) keys acct (10 * UNIT) (4 * UNIT) first_view view = Some body \<and>
     1 < length (pf_signals (wd_proof body)) \<and> pf_signals (wd_proof body) ! 1 = dec (ph_one H (n_nullifier own)) \<and>
     both_refused acct body refusing \<and> withdrawn_once token acct body (4 * UNIT) spending \<and>
     returned_once E token entrypoint keys acct (4 * UNIT) returning \<and>
     waited_for (length (pv_leaves view) + 2) last_view looking \<and>
     recoveredTotal H seed (pv_leaves last_view) = Some (Inr (10 * UNIT)))"
proof -
  let ?s0 = "\<lparr>sr_world = w, sr_checks = [], sr_trace = []\<rparr>"
  have main: "integrationMain E S ?s0 = (Inr (), s)" and ok: "all_pass s"
    using assms by (auto simp: integrationScript_def all_pass_def split: prod.splits sum.splits if_splits)
  from main obtain first_view s1 tx s2 view s3 where steps: "openState E S ?s0 = (Inr first_view, s1)"
      "fundDepositor E S (pv_asset first_view) (pv_entrypoint first_view)
         (depositNote (ce_hashes E) (masters (ce_hashes E) (rootSecret E first_view)) 0) (10 * UNIT) s1 = (Inr tx, s2)"
      "awaitLeaves S 60 (length (pv_leaves first_view) + 1) s2 = (Inr view, s3)"
      "spendAndReturn E S first_view view tx s3 = (Inr (), s)"
    unfolding integrationMain_def bindp_Inr by blast
  define H where "H = ce_hashes E"
  define seed where "seed = rootSecret E first_view"
  define keys where "keys = masters H seed"
  define acct where "acct = probeAccount E tx"
  define own where "own = depositNote H keys 0"
  from steps(4) obtain s4 body s5 s6 s7 s8 where mirror_step: "checkMirror E own (10 * UNIT) first_view view s3 = (Inr (), s4)"
    and body: "withdrawalBody H (ce_tools E) keys acct (10 * UNIT) (4 * UNIT) first_view view = Some body"
    and note_step: "stack_check ''the nullifier hash matches the client formula''
          (1 < length (pf_signals (wd_proof body)) \<and> pf_signals (wd_proof body) ! 1 = dec (ph_one H (n_nullifier own))) s4 = (Inr (), s5)"
    and runs: "refusals S acct body s5 = (Inr (), s6)" "withdrawOnce S (pv_asset first_view) acct body (4 * UNIT) s6 = (Inr (), s7)"
        "returnOnce E S (pv_asset first_view) (pv_entrypoint first_view) keys acct (4 * UNIT) s7 = (Inr (), s8)"
        "recoverAll E S seed (length (pv_leaves view) + 2) (10 * UNIT) s8 = (Inr (), s)"
    unfolding spendAndReturn_def Let_def seqp_Inr bindp_Inr given_value_Inr seed_def keys_def own_def acct_def H_def by blast
  obtain cs agrees where opened: "commitmentsOf (pv_leaves first_view) = Some cs"
      "rootAgrees (ce_tools E) cs (pv_stateRoot first_view) = Some agrees"
      "went ?s0 [StateReply (StateBody first_view)]
         (pv_enabled first_view \<and> (agrees \<or> pv_leaves first_view = [] \<and> pv_stateRoot first_view = ''0'')) s1"
    using openState_ran [OF steps(1)] by blast
  obtain e1 where paid: "went s1 e1 True s2" "deposited E (pv_asset first_view) (pv_entrypoint first_view) own (10 * UNIT) tx e1"
    using fundDepositor_ran [OF steps(2)] unfolding own_def keys_def seed_def H_def by blast
  obtain e2 where waited: "went s2 e2 True s3" "waited_for (length (pv_leaves first_view) + 1) view e2"
    using awaitLeaves_went [OF steps(3)] by blast
  obtain o3 where mirror: "went s3 [] o3 s4" "o3 \<longrightarrow> (\<exists>mine label R. ownLeaf H own (pv_leaves view) = Some mine \<and>
      Option.bind (lv_label mine) bigint_of_string = Some label \<and> lv_commitment mine = dec (noteCommitment H own (10 * UNIT) label) \<and>
      rebuildTrees (lv_commitment mine) (pv_leaves view) no_trees = Some R \<and> ct_state R \<noteq> [] \<and>
      bigint_of_string (pv_stateRoot view) = Some (pt_root (ce_tools E) (ct_state R)))"
    using checkMirror_ran [OF mirror_step] unfolding H_def by blast
  note noted = stack_check_went [OF note_step]
  obtain e4 o4 where refused: "went s5 e4 o4 s6" "o4 \<longrightarrow> both_refused acct body e4" using refusals_ran [OF runs(1)] by blast
  obtain e5 o5 where spent: "went s6 e5 o5 s7" "o5 \<longrightarrow> withdrawn_once (pv_asset first_view) acct body (4 * UNIT) e5"
    using withdrawOnce_ran [OF runs(2)] by blast
  obtain e6 o6 where handed: "went s7 e6 o6 s8"
      "o6 \<longrightarrow> returned_once E (pv_asset first_view) (pv_entrypoint first_view) keys acct (4 * UNIT) e6"
    using returnOnce_ran [OF runs(3)] by blast
  obtain last_view e7 o7 where found: "went s8 e7 o7 s" "waited_for (length (pv_leaves view) + 2) last_view e7"
      "o7 \<longrightarrow> recoveredTotal H seed (pv_leaves last_view) = Some (Inr (10 * UNIT))"
    using recoverAll_ran [OF runs(4)] unfolding H_def by blast
  note chain = opened(3) paid(1) waited(1) mirror(1) noted refused(1) spent(1) handed(1) found(1)
  have passed: "pv_enabled first_view" "agrees \<or> pv_leaves first_view = [] \<and> pv_stateRoot first_view = ''0''" o3 o4 o5 o6 o7
      "1 < length (pf_signals (wd_proof body))" "pf_signals (wd_proof body) ! 1 = dec (ph_one H (n_nullifier own))"
    using chain ok unfolding went_def by simp_all
  have traced: "sr_trace s = [StateReply (StateBody first_view)] @ e1 @ e2 @ e4 @ e5 @ e6 @ e7"
    using chain unfolding went_def by simp
  obtain mine label R where note_facts: "ownLeaf H own (pv_leaves view) = Some mine"
      "Option.bind (lv_label mine) bigint_of_string = Some label" "lv_commitment mine = dec (noteCommitment H own (10 * UNIT) label)"
      "rebuildTrees (lv_commitment mine) (pv_leaves view) no_trees = Some R" "ct_state R \<noteq> []"
      "bigint_of_string (pv_stateRoot view) = Some (pt_root (ce_tools E) (ct_state R))"
    using mirror(2) passed(3) by blast
  note found_all = refused(2) [rule_format, OF passed(4)] spent(2) [rule_format, OF passed(5)] handed(2) [rule_format, OF passed(6)]
    found(2) found(3) [rule_format, OF passed(7)]
  show ?thesis
    unfolding Let_def
    apply (rule exI [of _ first_view], rule exI [of _ cs], rule exI [of _ agrees], rule exI [of _ view], rule exI [of _ last_view],
      rule exI [of _ tx], rule exI [of _ mine], rule exI [of _ label], rule exI [of _ R], rule exI [of _ body], rule exI [of _ e1],
      rule exI [of _ e2], rule exI [of _ e4], rule exI [of _ e5], rule exI [of _ e6], rule exI [of _ e7])
    apply (fold H_def acct_def)
    apply (fold seed_def)
    apply (fold keys_def)
    apply (fold own_def)
    apply (intro conjI)
    by (fact traced passed(1,2) opened(1,2) paid(2) waited(2) note_facts body passed(8,9) found_all)+
qed

text \<open>A stack that plays its part: its world is the number of the exchange.\<close>

definition probe_hashes :: pool_hashes where
  "probe_hashes = \<lparr>ph_keccak = (\<lambda>_. 0), ph_one = (\<lambda>x. x + 2), ph_two = (\<lambda>a b. a + 10 * b), ph_three = (\<lambda>a b c. a + 2 * b + 3 * c)\<rparr>"

definition probe_signature :: string where
  "probe_signature = replicate 130 (CHR ''0'') @ ''1b''"

definition probe_client :: client_env where
  "probe_client = \<lparr>ce_hashes = probe_hashes, ce_tools = client_tools,
     ce_signer = \<lparr>sg_permit = (\<lambda>_ _ _ _ _. probe_signature), sg_forward = (\<lambda>_ _ _ _ _ _ _ _ _. []), sg_shield = (\<lambda>_ _ _ _ _. [])\<rparr>,
     ce_keccakHex = id, ce_accountOf = id, ce_depositor = ''dep'', ce_pid = ''1''\<rparr>"

definition probe_leaf :: "leaf_kind \<Rightarrow> int \<Rightarrow> int \<Rightarrow> int option \<Rightarrow> int option \<Rightarrow> leaf_view" where
  "probe_leaf k c v pre spent = \<lparr>lv_index = 0, lv_kind = k, lv_commitment = dec c, lv_label = Some (dec 21), lv_value = dec v,
     lv_precommitment = map_option dec pre, lv_spent = map_option dec spent\<rparr>"

definition probe_view :: "int \<Rightarrow> leaf_view list \<Rightarrow> pool_view" where
  "probe_view r leaves = \<lparr>pv_enabled = True, pv_chainId = 1, pv_entrypoint = ''0xe'', pv_privacyPool = ''0xp'', pv_asset = ''0xu'',
     pv_scope = dec 1, pv_stateRoot = dec r, pv_onChainAspRoot = dec 0, pv_aspRoot = dec 0, pv_synced = True, pv_leaves = leaves\<rparr>"

definition probe_own :: leaf_view where
  "probe_own = probe_leaf DEPOSIT 10000042 10000000 (Some 0) None"

definition probe_last :: pool_view where
  "probe_last = probe_view 9 [probe_own, probe_leaf CHANGE 7 4000000 None (Some 2), probe_leaf DEPOSIT 8 4000000 (Some 110) None]"

definition probe_views :: "nat \<Rightarrow> pool_view" where
  "probe_views n = (if n = 0 then probe_view 0 [] else if n = 4 then probe_view 10000042 [probe_own] else probe_last)"

definition probe_stack :: "nat stack" where
  "probe_stack = \<lparr>sw_state = (\<lambda>n. (StateBody (probe_views n), Suc n)),
     sw_withdraw = (\<lambda>_ n. (Some (if n = 8 then 200 else 400, if n = 8 then Some ''0x1'' else None), Suc n)),
     sw_shield = (\<lambda>_ n. (Some (if n = 17 then 200 else 400, None), Suc n)),
     sw_tx = (\<lambda>_ n. (Some ''0xd'', Suc n)), sw_receipt = (\<lambda>_ n. (Some (), Suc n)),
     sw_balance = (\<lambda>_ _ n. (Some (if n = 1 then 10000000 else if n = 10 then 4000000 else 0), Suc n)),
     sw_gas = (\<lambda>_ n. (Some 0, Suc n)), sw_shieldNonce = (\<lambda>_ n. (Some 0, Suc n)), sw_permitNonce = (\<lambda>_ n. (Some 0, Suc n)),
     sw_clock = (\<lambda>n. (5000, Suc n)), sw_sleep = id\<rparr>"

lemma probe_split_v: "whole (split_v probe_signature) = Some 27"
proof -
  have "split_v probe_signature = to_double (of_nat 27)" by code_simp
  then show ?thesis using to_double_whole [of 27] by (simp add: whole_def)
qed

lemma probe_keys: "masters probe_hashes x = \<lparr>n_nullifier = 0, n_secret = 0\<rparr>"
  by (simp add: masters_def probe_hashes_def)

lemmas probe_defs = probe_client_def probe_hashes_def depositNote_def changeNote_def precommitmentOf_def noteCommitment_def
  probe_view_def probe_leaf_def probe_own_def

abbreviation zero_keys :: pool_note where
  "zero_keys \<equiv> \<lparr>n_nullifier = 0, n_secret = 0\<rparr>"

lemma probe_recovery: "recoveredTotal probe_hashes x (pv_leaves probe_last) = Some (Inr 10000000)"
proof -
  define ls where "ls = pv_leaves probe_last"
  have up: "[0..<4] = [0, 1, 2, 3 :: nat]" by (simp add: upt_rec)
  have spent: "spentBy ls (Some (dec 2)) = Some (probe_leaf CHANGE 7 4000000 None (Some 2))"
    "spentBy ls (Some (dec 5)) = None" "spentBy ls (Some (dec 12)) = None"
    by (simp_all add: ls_def spentBy_def probe_last_def probe_defs)
  have note_at: "depositNote probe_hashes zero_keys i = \<lparr>n_nullifier = 10 * int i, n_secret = 10 * int i\<rparr>" for i
    by (simp add: probe_defs)
  have own: "ownLeaf probe_hashes \<lparr>n_nullifier = y, n_secret = y\<rparr> ls = (if y = 0 then Some probe_own
      else if y = 10 then Some (probe_leaf DEPOSIT 8 4000000 (Some 110) None) else None)" for y
    by (simp add: ls_def ownLeaf_def probe_last_def probe_defs)
  have "recoverNote probe_hashes zero_keys ls 0 = Some (Inr [6000000])"
    by (simp add: recoverNote_def note_at own walkSpends.simps [where i = 0])
      (simp add: probe_defs spent [unfolded probe_leaf_def] walkSpends.simps)
  moreover have "recoverNote probe_hashes zero_keys ls 1 = Some (Inr [4000000])"
    by (simp add: recoverNote_def note_at own) (simp add: probe_defs spent walkSpends.simps)
  moreover have "recoverNote probe_hashes zero_keys ls 2 = Some (Inr [])" "recoverNote probe_hashes zero_keys ls 3 = Some (Inr [])"
    by (simp_all add: recoverNote_def note_at own)
  ultimately show ?thesis by (simp add: recoveredTotal_def probe_keys up del: One_nat_def flip: ls_def)
qed

lemma probe_body: "\<exists>body. withdrawalBody probe_hashes client_tools zero_keys acct 10000000 4000000
    (probe_views 0) (probe_views 4) = Some body \<and> 1 < length (pf_signals (wd_proof body)) \<and> pf_signals (wd_proof body) ! 1 = dec 2"
  by (simp add: withdrawalBody_def withdrawalFrom_def probe_views_def Let_def probe_defs ownLeaf_def no_trees_def client_tools_def pad_path_def
    MAX_DEPTH_def solidityProof_def)

lemma probe_shield_body: "\<exists>body. shieldBody probe_hashes (ce_signer probe_client) keys ms acct entrypoint amount sn pn = Some body"
  by (simp add: shieldBody_def Let_def probe_client_def probe_split_v)

text \<open>A part of the program that comes through, leaving every check passed and the stack at its \<open>n\<close>th exchange.\<close>

definition comes_through :: "(nat, 'e) stack_run \<Rightarrow> nat \<Rightarrow> (nat, 'e, 'a) stack_proc \<Rightarrow> 'a \<Rightarrow> (nat, 'e) stack_run \<Rightarrow> bool" where
  "comes_through s n p x t \<longleftrightarrow> p s = (Inr x, t) \<and> sr_world t = n \<and> all_pass t"

lemmas probe_steps = proc_defs asks_def certain_def given_value_def stack_check_def transact_def probe_stack_def awaitHash_def truthy_def

lemma probe_opens: "\<exists>t. comes_through \<lparr>sr_world = 0, sr_checks = [], sr_trace = []\<rparr> 1 (openState probe_client probe_stack) (probe_views 0) t"
proof -
  have zero: "dec 0 = ''0''" by code_simp
  then have "bigint_of_string ''0'' = Some 0" using bigint_of_string_dec [of 0] by simp
  then show ?thesis
    by (simp add: comes_through_def openState_def probe_steps probe_views_def probe_defs commitmentsOf_def rootAgrees_def all_pass_def
      zero)
qed

lemma probe_funds: "sr_world s = 1 \<Longrightarrow> all_pass s \<Longrightarrow>
  \<exists>t. comes_through s 4 (fundDepositor probe_client probe_stack token entrypoint own 10000000) ''0xd'' t"
  by (simp add: comes_through_def fundDepositor_def probe_steps all_pass_def)

lemma probe_waits: "sr_world s = 4 \<Longrightarrow> all_pass s \<Longrightarrow> \<exists>t. comes_through s 5 (awaitLeaves probe_stack 60 1) (probe_views 4) t"
  using awaitLeaves.simps(2) [of probe_stack 59 1]
  by (simp add: comes_through_def probe_steps probe_views_def probe_view_def all_pass_def)

lemma probe_mirror: "sr_world s = 5 \<Longrightarrow> all_pass s \<Longrightarrow>
  \<exists>t. comes_through s 5 (checkMirror probe_client (depositNote probe_hashes zero_keys 0) 10000000 (probe_views 0) (probe_views 4)) () t"
  by (simp add: comes_through_def checkMirror_def probe_steps probe_views_def probe_defs all_pass_def ownLeaf_def mintedAsComputed_def
    ownCommitment_def rootAgrees_def no_trees_def client_tools_def)

lemma probe_refuses: "sr_world s = 5 \<Longrightarrow> all_pass s \<Longrightarrow> \<exists>t. comes_through s 7 (refusals probe_stack acct body) () t"
  by (simp add: comes_through_def refusals_def probe_steps all_pass_def)

lemma probe_withdraws: "sr_world s = 7 \<Longrightarrow> all_pass s \<Longrightarrow>
  \<exists>t. comes_through s 13 (withdrawOnce probe_stack token acct body 4000000) () t"
  by (simp add: comes_through_def withdrawOnce_def probe_steps all_pass_def)

lemma probe_returns: "sr_world s = 13 \<Longrightarrow> all_pass s \<Longrightarrow>
  \<exists>t. comes_through s 19 (returnOnce probe_client probe_stack token entrypoint keys acct 4000000) () t"
proof -
  assume at: "sr_world s = 13" "all_pass s"
  obtain body where body: "shieldBody probe_hashes (ce_signer probe_client) keys 5000 acct entrypoint 4000000 0 0 = Some body"
    using probe_shield_body by blast
  have "ce_hashes probe_client = probe_hashes" by (simp add: probe_client_def)
  with at body show ?thesis
    by (simp add: comes_through_def returnOnce_def probe_steps all_pass_def)
qed

lemma probe_recovers: "sr_world s = 19 \<Longrightarrow> all_pass s \<Longrightarrow>
  \<exists>t. comes_through s 20 (recoverAll probe_client probe_stack seed 3 10000000) () t"
  using awaitLeaves.simps(2) [of probe_stack 59 3] probe_recovery [of seed]
  by (simp add: comes_through_def recoverAll_def probe_steps all_pass_def probe_views_def probe_last_def probe_view_def probe_client_def)

lemma probe_spends: "sr_world s = 5 \<Longrightarrow> all_pass s \<Longrightarrow>
  \<exists>t. comes_through s 20 (spendAndReturn probe_client probe_stack (probe_views 0) (probe_views 4) tx) () t"
proof -
  assume start: "sr_world s = 5" "all_pass s"
  have client: "ce_hashes probe_client = probe_hashes" "ce_tools probe_client = client_tools" by (simp_all add: probe_client_def)
  have units: "10 * UNIT = 10000000" "4 * UNIT = 4000000" by (simp_all add: UNIT_def)
  have own: "ph_one probe_hashes (n_nullifier (depositNote probe_hashes zero_keys 0)) = 2" by (simp add: probe_defs)
  have size: "length (pv_leaves (probe_views 4)) + 2 = 3" by (simp add: probe_views_def probe_view_def)
  let ?acct = "probeAccount probe_client tx"
  from probe_body [of ?acct] obtain body where body: "withdrawalBody probe_hashes client_tools zero_keys ?acct 10000000 4000000
      (probe_views 0) (probe_views 4) = Some body" "1 < length (pf_signals (wd_proof body))" "pf_signals (wd_proof body) ! 1 = dec 2"
    by blast
  from probe_mirror [OF start] obtain s1 where s1: "checkMirror probe_client (depositNote probe_hashes zero_keys 0) 10000000
      (probe_views 0) (probe_views 4) s = (Inr (), s1)" "sr_world s1 = 5" "all_pass s1"
    unfolding comes_through_def by blast
  let ?s2 = "s1\<lparr>sr_checks := sr_checks s1 @ [(''the nullifier hash matches the client formula'', True)]\<rparr>"
  have "sr_world ?s2 = 5" "all_pass ?s2" using s1 by simp_all
  from probe_refuses [OF this] obtain s3 where s3: "refusals probe_stack ?acct body ?s2 = (Inr (), s3)" "sr_world s3 = 7" "all_pass s3"
    unfolding comes_through_def by blast
  from probe_withdraws [OF s3(2,3)] obtain s4 where s4: "withdrawOnce probe_stack (pv_asset (probe_views 0)) ?acct body 4000000 s3 = (Inr (), s4)"
      "sr_world s4 = 13" "all_pass s4"
    unfolding comes_through_def by blast
  from probe_returns [OF s4(2,3)] obtain s5 where s5: "returnOnce probe_client probe_stack (pv_asset (probe_views 0))
      (pv_entrypoint (probe_views 0)) zero_keys ?acct 4000000 s4 = (Inr (), s5)" "sr_world s5 = 19" "all_pass s5"
    unfolding comes_through_def by blast
  from probe_recovers [OF s5(2,3)] obtain s6 where s6: "recoverAll probe_client probe_stack (rootSecret probe_client (probe_views 0)) 3
      10000000 s5 = (Inr (), s6)" "sr_world s6 = 20" "all_pass s6"
    unfolding comes_through_def by blast
  have step: "stack_check ''the nullifier hash matches the client formula'' True s1 = (Inr (), ?s2)" by (simp add: stack_check_Inr)
  show ?thesis
    using s6(2,3) unfolding comes_through_def spendAndReturn_def Let_def seqp_Inr bindp_Inr given_value_Inr client units own size probe_keys
    using body s1(1) s3(1) s4(1) s5(1) s6(1) step by auto
qed

lemma probe_stack_passes: "fst (integrationScript probe_client probe_stack 0) = 0"
proof -
  obtain s1 where s1: "openState probe_client probe_stack \<lparr>sr_world = 0, sr_checks = [], sr_trace = []\<rparr> = (Inr (probe_views 0), s1)"
      "sr_world s1 = 1" "all_pass s1"
    using probe_opens unfolding comes_through_def by blast
  let ?own = "depositNote (ce_hashes probe_client) (masters (ce_hashes probe_client) (rootSecret probe_client (probe_views 0))) 0"
  have units: "10 * UNIT = 10000000" by (simp add: UNIT_def)
  from probe_funds [OF s1(2,3)] obtain s2 where s2: "fundDepositor probe_client probe_stack (pv_asset (probe_views 0))
      (pv_entrypoint (probe_views 0)) ?own 10000000 s1 = (Inr ''0xd'', s2)" "sr_world s2 = 4" "all_pass s2"
    unfolding comes_through_def by blast
  have wanted: "length (pv_leaves (probe_views 0)) + 1 = 1" by (simp add: probe_views_def probe_view_def)
  from probe_waits [OF s2(2,3)] obtain s3 where s3: "awaitLeaves probe_stack 60 1 s2 = (Inr (probe_views 4), s3)"
      "sr_world s3 = 5" "all_pass s3"
    unfolding comes_through_def by blast
  from probe_spends [OF s3(2,3)] obtain s4 where s4: "spendAndReturn probe_client probe_stack (probe_views 0) (probe_views 4) ''0xd'' s3 =
      (Inr (), s4)" "all_pass s4"
    unfolding comes_through_def by blast
  have "integrationMain probe_client probe_stack \<lparr>sr_world = 0, sr_checks = [], sr_trace = []\<rparr> = (Inr (), s4)"
    unfolding integrationMain_def bindp_Inr units using s1(1) s2(1) s3(1) s4(1) wanted by auto
  then show ?thesis using s4(2) by (simp add: integrationScript_def all_pass_def)
qed

text \<open>So the hypothesis is met: the sample stack passes the probe, and its answers hold the withdrawal, between two
  balances that differ by four units, and its replay.\<close>

theorem passing_integration_run_shows_witness:
  "fst (integrationScript probe_client probe_stack 0) = 0 \<and>
   (\<exists>before_it after_it token acct before body h replay.
     sr_trace (snd (integrationScript probe_client probe_stack 0)) = before_it @
       ([BalanceReply token acct before, WithdrawReply body (200, h)] @ mined h @
        [BalanceReply token acct (before + 4000000), GasReply acct 0, WithdrawReply body replay]) @ after_it \<and> 400 \<le> fst replay)"
proof -
  have units: "4 * UNIT = 4000000" by (simp add: UNIT_def)
  have "integrationScript probe_client probe_stack 0 = (0, snd (integrationScript probe_client probe_stack 0))"
    by (rule prod_eqI) (simp_all add: probe_stack_passes)
  from passing_integration_run_shows [OF this] obtain head fund wait no_go spending home look token acct body where
      traced: "sr_trace (snd (integrationScript probe_client probe_stack 0)) =
        head @ fund @ wait @ no_go @ spending @ home @ (look :: stack_event list)"
      and spent: "withdrawn_once token acct body 4000000 spending"
    unfolding Let_def units by blast
  from spent obtain before h replay where once: "spending = [BalanceReply token acct before, WithdrawReply body (200, h)] @ mined h @
        [BalanceReply token acct (before + 4000000), GasReply acct 0, WithdrawReply body replay]" "400 \<le> fst replay"
    unfolding withdrawn_once_def by blast
  have "sr_trace (snd (integrationScript probe_client probe_stack 0)) =
      (head @ fund @ wait @ no_go) @ spending @ (home @ look)" using traced by simp
  then show ?thesis using probe_stack_passes once by blast
qed

section \<open>Against the backend\<close>

lemma bigints_nth: "bigints xs = Some ns \<Longrightarrow> length ns = length xs \<and> (\<forall>i < length xs. bigint_of_string (xs ! i) = Some (ns ! i))"
proof (induction xs arbitrary: ns)
  case (Cons x xs)
  then obtain n ms where "bigint_of_string x = Some n" "bigints xs = Some ms" "ns = n # ms" by (auto split: option.splits)
  then show ?case using Cons.IH by (auto simp: nth_Cons split: nat.splits)
qed simp

lemma forged_signal:
  assumes "bigints (pf_signals (wd_proof (forged body))) = Some signals" "PUB_SIGNAL_aspRoot < length signals"
  shows "signals ! PUB_SIGNAL_aspRoot = 12345"
proof -
  have "digit_char 1 = CHR ''1''" "digit_char 2 = CHR ''2''" "digit_char 3 = CHR ''3''" "digit_char 4 = CHR ''4''"
    "digit_char 5 = CHR ''5''" by code_simp+
  then have "dec 12345 = ''12345''" by (simp add: dec_def dec_nat.simps)
  then have parse: "bigint_of_string ''12345'' = Some 12345" using bigint_of_string_dec [of 12345] by simp
  have bound: "5 < length (pf_signals (wd_proof body))"
    using assms(2) bigints_nth [OF assms(1)] by (simp add: forged_def PUB_SIGNAL_aspRoot_def)
  then have "pf_signals (wd_proof (forged body)) ! 5 = ''12345''"
    by (simp add: forged_def nth_enumerate_eq)
  moreover have "5 < length (pf_signals (wd_proof (forged body)))" using bound by (simp add: forged_def)
  ultimately have "bigint_of_string ''12345'' = Some (signals ! 5)" using bigints_nth [OF assms(1)] by metis
  then show ?thesis using parse by (simp add: PUB_SIGNAL_aspRoot_def)
qed

lemma refused_withdrawal:
  assumes "withdrawChecks rootOf P E body mirror = Inl e"
  shows "\<exists>status. postWithdraw say rootOf X P C E body mirror s = (status, s) \<and> 400 \<le> status"
  using assms by (cases e) (auto simp: postWithdraw_def withdraw_def throw_def poolAttempt_def status_of_def poolThrown_def
    badRequest_def serviceUnavailable_def internal_error_def split: pool_kind.splits)

text \<open>The two refusals the probe asks for are the backend's own: whatever the body, a withdrawal whose association
  root was replaced, or whose processor is not the entry point, is replied with an error and nothing reaches the
  relayer, unless the forged root is one of the association roots of the mirror.\<close>

theorem altered_withdrawals_are_refused:
  assumes "ps_entrypoint P = Some entrypoint" "lower acct \<noteq> lower entrypoint"
    and "aspRootHistory rootOf (map leafRow (leavesInOrder mirror)) 32 = Some known" "12345 \<notin> set known"
  shows "(\<exists>status. postWithdraw say rootOf X P C E (forged body) mirror s = (status, s) \<and> 400 \<le> status) \<and>
    (\<exists>status. postWithdraw say rootOf X P C E (misrouted acct body) mirror s = (status, s) \<and> 400 \<le> status)"
proof -
  have "\<exists>e. withdrawChecks rootOf P E (forged body) mirror = Inl e"
    using assms forged_signal [of body] by (auto simp: withdrawChecks_def split: option.splits)
  moreover have "\<exists>e. withdrawChecks rootOf P E (misrouted acct body) mirror = Inl e"
    using assms by (auto simp: withdrawChecks_def misrouted_def)
  ultimately show ?thesis using refused_withdrawal by blast
qed

text \<open>At a withdrawal the sample backend relays.\<close>

theorem altered_withdrawals_are_refused_witness:
  "\<exists>t status status2.
     postWithdraw (\<lambda>_. []) sum_list sample_pool_codec sample_pool_service sample_relay_config sample_pool_env
       sample_withdrawal sample_mirror sample_relay_state = (200, t) \<and>
     postWithdraw (\<lambda>_. []) sum_list sample_pool_codec sample_pool_service sample_relay_config sample_pool_env
       (forged sample_withdrawal) sample_mirror sample_relay_state = (status, sample_relay_state) \<and> 400 \<le> status \<and>
     postWithdraw (\<lambda>_. []) sum_list sample_pool_codec sample_pool_service sample_relay_config sample_pool_env
       (misrouted ''0xm'' sample_withdrawal) sample_mirror sample_relay_state = (status2, sample_relay_state) \<and> 400 \<le> status2"
proof -
  have entry: "ps_entrypoint sample_pool_service = Some ''0xe''" by (simp add: sample_pool_service_def)
  have other: "lower ''0xm'' \<noteq> lower ''0xe''" by code_simp
  have "leavesInOrder sample_mirror = [sample_deposit_leaf]"
    by (simp add: leavesInOrder_def sample_mirror_def)
  then have known: "aspRootHistory sum_list (map leafRow (leavesInOrder sample_mirror)) 32 = Some [7]"
    by (simp add: aspRootHistory_def slice_last_def sample_deposit_leaf_def leafRow_def)
  have fresh: "12345 \<notin> set [7 :: int]" by simp
  obtain t where "withdraw sum_list sample_pool_codec sample_pool_service sample_relay_config sample_pool_env
      sample_withdrawal sample_mirror sample_relay_state = (Inr ''0xh'', t)" using sample_withdrawal_runs by blast
  then have "postWithdraw (\<lambda>_. []) sum_list sample_pool_codec sample_pool_service sample_relay_config sample_pool_env
      sample_withdrawal sample_mirror sample_relay_state = (200, t)"
    by (simp add: postWithdraw_def poolAttempt_def status_of_def)
  then show ?thesis
    using altered_withdrawals_are_refused [OF entry other known fresh, of "\<lambda>_. []" sample_pool_codec sample_relay_config
        sample_pool_env sample_withdrawal sample_relay_state] by blast
qed

end
