(* ===== verification/ClaimRun.thy ===== *)
theory ClaimRun
  imports StackRun Seeding
begin

text \<open>
  \<open>src/scripts/claim-e2e.mjs\<close> as one program: a market is created with a short book, a derived account is funded out
  of the shielded pool, bets, proposes the outcome and collects, all through the running backend, and the dispute
  window that was shortened for the run is given back whatever happened. The stack is a parameter, as in \<open>StackRun\<close>.
\<close>

section \<open>The stack\<close>

datatype claim_call =
    SetParameters string int int int int int int   \<comment> \<open>resolver; bond, fee, window, arbitration timeout, reward bps, reward cap\<close>
  | ClaimMint string string int
  | ClaimApprove string string int
  | ClaimCreate string create_params
  | ClaimDeposit string int int

datatype claim_read =
    WindowOf string | BondOf string | FeeOf string
  | TokenBalance string string | TokenNonce string string
  | ForwarderNonce string string
  | SharesHeld string int string int               \<comment> \<open>engine, market id, account, outcome\<close>
  | GasOf string

text \<open>\<open>None\<close> is an exception. A listing without \<open>items\<close> is the empty listing; a body without \<open>status\<close> is
  \<open>Some None\<close>; a portfolio whose body is not a list throws where it is searched.\<close>

record 'w claim_stack =
  cs_tx :: "claim_call \<Rightarrow> 'w \<Rightarrow> string option \<times> 'w"
  cs_read :: "claim_read \<Rightarrow> 'w \<Rightarrow> int option \<times> 'w"
  cs_receipt :: "string \<Rightarrow> 'w \<Rightarrow> unit option \<times> 'w"
  cs_clock :: "'w \<Rightarrow> int \<times> 'w"
  cs_sleep :: "int \<Rightarrow> 'w \<Rightarrow> 'w"
  cs_markets :: "'w \<Rightarrow> market_view list option \<times> 'w"
  cs_market :: "string \<Rightarrow> 'w \<Rightarrow> market_status option option \<times> 'w"
  cs_positions :: "string \<Rightarrow> 'w \<Rightarrow> position_view list option \<times> 'w"
  cs_state :: "'w \<Rightarrow> polled \<times> 'w"
  cs_withdraw :: "withdraw_dto \<Rightarrow> 'w \<Rightarrow> (nat \<times> string option) option \<times> 'w"
  cs_relay :: "string \<Rightarrow> relay_request \<Rightarrow> 'w \<Rightarrow> (nat \<times> string option) option \<times> 'w"   \<comment> \<open>path, body\<close>

record claim_book =
  cb_engine :: string
  cb_token :: string
  cb_optimisticResolver :: string
  cb_trustedResolver :: string
  cb_poolEntrypoint :: string
  cb_numeraForwarder :: string
  cb_resolutionForwarder :: string

record claim_env =
  cv_book :: claim_book
  cv_admin :: string
  cv_hashes :: pool_hashes
  cv_tools :: pool_tools
  cv_signer :: signer
  cv_keccakHex :: "string \<Rightarrow> string"
  cv_accountOf :: "string \<Rightarrow> string"                       \<comment> \<open>\<open>privateKeyToAccount\<close>: the address\<close>
  cv_hkdf :: "string \<Rightarrow> string \<Rightarrow> string \<Rightarrow> nat \<Rightarrow> string"
  cv_bytes32 :: "string \<Rightarrow> string"
  cv_buy :: "int \<Rightarrow> int \<Rightarrow> int \<Rightarrow> int \<Rightarrow> string"             \<comment> \<open>\<open>encodeFunctionData\<close>: id, outcome, shares, most it may cost\<close>
  cv_propose :: "string \<Rightarrow> int \<Rightarrow> int \<Rightarrow> string"
  cv_redeem :: "int \<Rightarrow> string"

text \<open>What was exchanged: the request and the stack's answer to it.\<close>

datatype claim_event =
    TxReplied claim_call string
  | ReadReplied claim_read int
  | MinedReply string
  | ClockReplied int
  | MarketsReplied "market_view list"
  | MarketReplied string "market_status option"
  | PositionsReplied string "position_view list"
  | PoolReplied polled
  | WithdrawReplied withdraw_dto "nat \<times> string option"
  | RelayReplied string relay_request "nat \<times> string option"

definition chainTx :: "'w claim_stack \<Rightarrow> claim_call \<Rightarrow> ('w, claim_event, string) stack_proc" where
  "chainTx S c = asks (TxReplied c) (cs_tx S c)"

definition chainRead :: "'w claim_stack \<Rightarrow> claim_read \<Rightarrow> ('w, claim_event, int) stack_proc" where
  "chainRead S r = asks (ReadReplied r) (cs_read S r)"

definition readClock :: "'w claim_stack \<Rightarrow> ('w, claim_event, int) stack_proc" where
  "readClock S = asks ClockReplied (certain (cs_clock S))"

definition nap :: "'w claim_stack \<Rightarrow> int \<Rightarrow> ('w, claim_event, unit) stack_proc" where
  "nap S ms = modp (\<lambda>s. s\<lparr>sr_world := cs_sleep S ms (sr_world s)\<rparr>)"

definition hashMined :: "'w claim_stack \<Rightarrow> string option \<Rightarrow> ('w, claim_event, unit) stack_proc" where
  "hashMined S h = (case truthy h of None \<Rightarrow> ret () | Some x \<Rightarrow> asks (\<lambda>_. MinedReply x) (cs_receipt S x))"

section \<open>Signing and posting\<close>

definition askPermit :: "claim_env \<Rightarrow> 'w claim_stack \<Rightarrow> string \<Rightarrow> string \<Rightarrow> int \<Rightarrow> ('w, claim_event, permit) stack_proc" where
  "askPermit E S owner spender amount =
     bindp (readClock S) (\<lambda>ms.
     bindp (chainRead S (TokenNonce (cb_token (cv_book E)) owner)) (\<lambda>nonce.
       given_value (permitFor (cv_signer E) ms owner spender amount nonce)))"

definition relayed ::
  "claim_env \<Rightarrow> 'w claim_stack \<Rightarrow> string \<Rightarrow> string \<Rightarrow> string \<Rightarrow> string \<Rightarrow> string \<Rightarrow> int \<Rightarrow> permit option \<Rightarrow> ('w, claim_event, nat \<times> string option) stack_proc" where
  "relayed E S acct to data forwarder domain gas p =
     bindp (chainRead S (ForwarderNonce forwarder acct)) (\<lambda>nonce.
     bindp (readClock S) (\<lambda>ms.
       case relayBody (cv_signer E) ms domain forwarder acct to gas data nonce p of
         (path, payload) \<Rightarrow> asks (RelayReplied path payload) (cs_relay S path payload)))"

definition tradeRelay :: "claim_env \<Rightarrow> 'w claim_stack \<Rightarrow> string \<Rightarrow> string \<Rightarrow> permit option \<Rightarrow> ('w, claim_event, nat \<times> string option) stack_proc" where
  "tradeRelay E S acct data p =
     relayed E S acct (cb_engine (cv_book E)) data (cb_numeraForwarder (cv_book E)) ''Numera Forwarder'' 900000 p"

section \<open>The loops\<close>

definition PROBE_TITLE :: string where
  "PROBE_TITLE = ''Claim end-to-end probe''"

text \<open>Sixty looks at the thirty newest markets; the first of that title is taken.\<close>

fun awaitProbeMarket :: "'w claim_stack \<Rightarrow> nat \<Rightarrow> ('w, claim_event, market_view) stack_proc" where
  "awaitProbeMarket S 0 = throw Thrown"
| "awaitProbeMarket S (Suc n) = bindp (asks MarketsReplied (cs_markets S)) (\<lambda>items.
     case List.find (\<lambda>m. mv_title m = PROBE_TITLE) items of
       Some m \<Rightarrow> ret m
     | None \<Rightarrow> seqp (nap S 2000) (awaitProbeMarket S n))"

definition claimLeaf :: "pool_hashes \<Rightarrow> pool_note \<Rightarrow> leaf_view list \<Rightarrow> leaf_view option" where
  "claimLeaf H own leaves = List.find (\<lambda>l. lv_precommitment l = Some (dec (precommitmentOf H own))) leaves"

text \<open>Ninety looks for a leaf of the note.\<close>

fun awaitMirrored :: "claim_env \<Rightarrow> 'w claim_stack \<Rightarrow> pool_note \<Rightarrow> nat \<Rightarrow> ('w, claim_event, pool_view) stack_proc" where
  "awaitMirrored E S own 0 = throw Thrown"
| "awaitMirrored E S own (Suc n) = bindp (asks PoolReplied (certain (cs_state S))) (\<lambda>answer.
     let again = seqp (nap S 1000) (awaitMirrored E S own n) in
     case answer of
       Unreachable \<Rightarrow> throw Thrown
     | ErrorBody \<Rightarrow> again
     | StateBody v \<Rightarrow> if pv_synced v \<and> claimLeaf (cv_hashes E) own (pv_leaves v) \<noteq> None then ret v else again)"

fun awaitSettled :: "'w claim_stack \<Rightarrow> string \<Rightarrow> nat \<Rightarrow> ('w, claim_event, bool) stack_proc" where
  "awaitSettled S ref 0 = ret False"
| "awaitSettled S ref (Suc n) = seqp (nap S 5000) (bindp (asks (MarketReplied ref) (cs_market S ref)) (\<lambda>status.
     if status = Some RESOLVED then ret True else awaitSettled S ref n))"

fun awaitPosition :: "'w claim_stack \<Rightarrow> string \<Rightarrow> string \<Rightarrow> nat \<Rightarrow> ('w, claim_event, position_view option) stack_proc" where
  "awaitPosition S acct ref 0 = ret None"
| "awaitPosition S acct ref (Suc n) = bindp (asks (PositionsReplied acct) (cs_positions S acct)) (\<lambda>body.
     case List.find (\<lambda>p. pv_marketRef p = ref) body of
       Some p \<Rightarrow> ret (Some p)
     | None \<Rightarrow> seqp (nap S 2000) (awaitPosition S acct ref n))"

fun awaitRedeemed :: "'w claim_stack \<Rightarrow> string \<Rightarrow> string \<Rightarrow> nat \<Rightarrow> ('w, claim_event, bool) stack_proc" where
  "awaitRedeemed S acct ref 0 = ret False"
| "awaitRedeemed S acct ref (Suc n) = seqp (nap S 2000) (bindp (asks (PositionsReplied acct) (cs_positions S acct)) (\<lambda>body.
     if \<exists>p \<in> set body. pv_marketRef p = ref \<and> pv_redeemed p then ret True else awaitRedeemed S acct ref n))"

section \<open>The parts of main\<close>

definition setWindow :: "claim_env \<Rightarrow> 'w claim_stack \<Rightarrow> int \<Rightarrow> int \<Rightarrow> int \<Rightarrow> ('w, claim_event, string) stack_proc" where
  "setWindow E S bond fee window =
     chainTx S (SetParameters (cb_optimisticResolver (cv_book E)) bond fee window 259200 200 50000000)"

definition readWindow :: "claim_env \<Rightarrow> 'w claim_stack \<Rightarrow> ('w, claim_event, int) stack_proc" where
  "readWindow E S = chainRead S (WindowOf (cb_optimisticResolver (cv_book E)))"

text \<open>Up to \<open>restoreWindow = originalWindow\<close>: the window, the bond and the fee the chain had.\<close>

definition claimHead :: "claim_env \<Rightarrow> 'w claim_stack \<Rightarrow> ('w, claim_event, int \<times> int \<times> int) stack_proc" where
  "claimHead E S =
     bindp (readWindow E S) (\<lambda>window.
     bindp (chainRead S (BondOf (cb_optimisticResolver (cv_book E)))) (\<lambda>bond.
     bindp (chainRead S (FeeOf (cb_optimisticResolver (cv_book E)))) (\<lambda>fee.
     bindp (setWindow E S bond fee SHORT_WINDOW) (\<lambda>_. ret (window, bond, fee)))))"

definition probeCopy :: metadata where
  "probeCopy = \<lparr>md_title = PROBE_TITLE, md_description = [], md_rules = ''Settled by the probe that created it.'',
     md_imageUrl = None, md_labels = [''Yes'', ''No''], md_categoryKey = None\<rparr>"

definition probeMarket :: "claim_env \<Rightarrow> int \<Rightarrow> create_params" where
  "probeMarket E closeTime =
     \<lparr>cp_collateral = cb_token (cv_book E), cp_resolver = cb_trustedResolver (cv_book E), cp_startTime = Some 0,
      cp_closeTime = closeTime, cp_outcomeCount = 2, cp_alpha = 25000000000000000, cp_sStar = 2000000000000000000000,
      cp_seedPerOutcome = 200 * UNIT, cp_category = cv_bytes32 E ''SPORTS'',
      cp_metadataHash = metadataHashOf (cv_keccakHex E) probeCopy, cp_metadata = Some (canonicalize probeCopy)\<rparr>"

text \<open>The market: the hash of its transaction and when it closes.\<close>

definition createProbe :: "claim_env \<Rightarrow> 'w claim_stack \<Rightarrow> ('w, claim_event, string \<times> int) stack_proc" where
  "createProbe E S =
     (let token = cb_token (cv_book E); engine = cb_engine (cv_book E) in
      bindp (readClock S) (\<lambda>ms.
      let closeTime = unix_now ms + 300 in
      bindp (chainRead S (TokenBalance token (cv_admin E))) (\<lambda>held.
      seqp (whenp (held < 1000 * UNIT) (bindp (chainTx S (ClaimMint token (cv_admin E) (5000 * UNIT))) (\<lambda>_. ret ())))
      (bindp (chainTx S (ClaimApprove token engine (5000 * UNIT))) (\<lambda>_.
       bindp (chainTx S (ClaimCreate engine (probeMarket E closeTime))) (\<lambda>hash.
       seqp (stack_check ''a market was created with a five-minute book'' True)
         (ret (hash, closeTime))))))))"

definition adoptProbe :: "'w claim_stack \<Rightarrow> ('w, claim_event, market_view) stack_proc" where
  "adoptProbe S = bindp (awaitProbeMarket S 60) (\<lambda>m.
     seqp (stack_check ''the indexer adopted the market and its on-chain metadata'' (mv_resolutionRules m \<noteq> [])) (ret m))"

definition claimRoot :: "claim_env \<Rightarrow> string \<Rightarrow> string" where
  "claimRoot E tx = cv_keccakHex E (''numera-claim-probe-'' @ tx)"

definition traderOf :: "claim_env \<Rightarrow> string \<Rightarrow> market_view \<Rightarrow> string" where
  "traderOf E tx m = cv_accountOf E (marketAccountKey (cv_hkdf E) (claimRoot E tx) (mv_id m))"

definition claimNote :: "claim_env \<Rightarrow> string \<Rightarrow> pool_note" where
  "claimNote E tx = depositNote (cv_hashes E) (masters (cv_hashes E) (claimRoot E tx)) 0"

definition claimWithdrawal :: "claim_env \<Rightarrow> string \<Rightarrow> string \<Rightarrow> int \<Rightarrow> pool_view \<Rightarrow> withdraw_dto option" where
  "claimWithdrawal E tx acct stake v =
     Option.bind (claimLeaf (cv_hashes E) (claimNote E tx) (pv_leaves v))
       (withdrawalFrom (cv_hashes E) (cv_tools E) (masters (cv_hashes E) (claimRoot E tx)) acct stake stake
          (pv_entrypoint v) (pv_scope v) (pv_leaves v))"

text \<open>The trader is funded out of the shielded pool; the status of the relayed withdrawal is not looked at.\<close>

definition fundTrader :: "claim_env \<Rightarrow> 'w claim_stack \<Rightarrow> string \<Rightarrow> string \<Rightarrow> int \<Rightarrow> ('w, claim_event, unit) stack_proc" where
  "fundTrader E S tx acct stake =
     (let token = cb_token (cv_book E); entry = cb_poolEntrypoint (cv_book E); own = claimNote E tx in
      bindp (chainRead S (GasOf acct)) (\<lambda>gas.
      seqp (stack_check ''the market account holds no gas, and never will'' (gas = 0))
      (bindp (chainTx S (ClaimApprove token entry stake)) (\<lambda>_.
       bindp (chainTx S (ClaimDeposit entry stake (precommitmentOf (cv_hashes E) own))) (\<lambda>_.
       seqp (stack_check ''collateral entered the shielded pool'' True)
       (bindp (awaitMirrored E S own 90) (\<lambda>v.
        bindp (given_value (claimWithdrawal E tx acct stake v)) (\<lambda>body.
        bindp (asks (WithdrawReplied body) (cs_withdraw S body)) (\<lambda>(status, h).
        seqp (hashMined S h)
        (bindp (chainRead S (TokenBalance token acct)) (\<lambda>held.
         stack_check ''the market account was funded privately'' (held = stake))))))))))))"

definition PROBE_SHARES :: int where
  "PROBE_SHARES = 30 * UNIT"

definition placeBet :: "claim_env \<Rightarrow> 'w claim_stack \<Rightarrow> market_view \<Rightarrow> string \<Rightarrow> ('w, claim_event, unit) stack_proc" where
  "placeBet E S m acct =
     (let engine = cb_engine (cv_book E) in
      bindp (given_value (bigint_of_string (mv_marketId m))) (\<lambda>i.
      bindp (askPermit E S acct engine (40 * UNIT)) (\<lambda>p.
      bindp (tradeRelay E S acct (cv_buy E i 0 PROBE_SHARES (40 * UNIT)) (Some p)) (\<lambda>(status, h).
      seqp (stack_check ''a gasless account placed a bet'' (status = 200))
      (seqp (hashMined S h)
      (bindp (chainRead S (SharesHeld engine i acct 0)) (\<lambda>held.
       stack_check ''the shares are held by the market account, not by anyone identifiable'' (held = PROBE_SHARES))))))))"

definition sleepUntilClose :: "'w claim_stack \<Rightarrow> int \<Rightarrow> ('w, claim_event, unit) stack_proc" where
  "sleepUntilClose S closeTime = bindp (readClock S) (\<lambda>ms.
     whenp (ms < closeTime * 1000) (nap S (closeTime * 1000 - ms + 3000)))"

definition proposeYes :: "claim_env \<Rightarrow> 'w claim_stack \<Rightarrow> market_view \<Rightarrow> string \<Rightarrow> int \<Rightarrow> ('w, claim_event, unit) stack_proc" where
  "proposeYes E S m acct due =
     (let resolver = cb_optimisticResolver (cv_book E) in
      bindp (given_value (bigint_of_string (mv_marketId m))) (\<lambda>i.
      bindp (askPermit E S acct resolver due) (\<lambda>p.
      bindp (relayed E S acct resolver (cv_propose E (cb_engine (cv_book E)) i 0) (cb_resolutionForwarder (cv_book E))
               ''Numera Resolution Forwarder'' 450000 (Some p)) (\<lambda>(status, h).
      seqp (stack_check ''the outcome was proposed from the same shielded account'' (status = 200))
        (hashMined S h)))))"

text \<open>\<open>isClaimable()\<close>, the condition that draws the button.\<close>

definition isClaimable :: "position_view \<Rightarrow> bool" where
  "isClaimable p \<longleftrightarrow> \<not> pv_redeemed p \<and>
     (pv_marketStatus p = INVALID \<or> pv_marketStatus p = RESOLVED \<and> pv_winning p = Some (pv_outcomeIndex p))"

definition collect :: "claim_env \<Rightarrow> 'w claim_stack \<Rightarrow> market_view \<Rightarrow> string \<Rightarrow> ('w, claim_event, unit) stack_proc" where
  "collect E S m acct =
     (let token = cb_token (cv_book E) in
      bindp (chainRead S (TokenBalance token acct)) (\<lambda>before.
      bindp (awaitPosition S acct (mv_id m) 30) (\<lambda>p.
      seqp (stack_check ''the app can see a winning, uncollected position'' (case p of None \<Rightarrow> False | Some x \<Rightarrow> \<not> pv_redeemed x))
      (seqp (stack_check ''the claim button would be drawn for it'' (case p of None \<Rightarrow> False | Some x \<Rightarrow> isClaimable x))
      (bindp (given_value (bigint_of_string (mv_marketId m))) (\<lambda>i.
       bindp (tradeRelay E S acct (cv_redeem E i) None) (\<lambda>(status, h).
       seqp (stack_check ''the claim was relayed'' (status = 200))
       (seqp (hashMined S h)
       (bindp (chainRead S (TokenBalance token acct)) (\<lambda>after.
        seqp (stack_check ''the winnings landed in the market account'' (after - before = PROBE_SHARES))
        (bindp (awaitRedeemed S acct (mv_id m) 30) (\<lambda>redeemed.
         stack_check ''the position now reads as collected, so the button retires'' redeemed))))))))))))"

text \<open>What follows the shortened window.\<close>

definition claimMain :: "claim_env \<Rightarrow> 'w claim_stack \<Rightarrow> int \<Rightarrow> int \<Rightarrow> ('w, claim_event, unit) stack_proc" where
  "claimMain E S bond fee =
     seqp (stack_check ''the dispute window was shortened for this run'' True)
     (bindp (createProbe E S) (\<lambda>(tx, closeTime).
      bindp (adoptProbe S) (\<lambda>m.
      let acct = traderOf E tx m in
      seqp (fundTrader E S tx acct (bond + fee + 60 * UNIT))
      (seqp (placeBet E S m acct)
      (seqp (sleepUntilClose S closeTime)
      (seqp (proposeYes E S m acct (bond + fee))
      (bindp (awaitSettled S (mv_id m) 40) (\<lambda>settled.
       seqp (stack_check ''nobody disputed, and the market settled itself'' settled)
         (collect E S m acct)))))))))"

text \<open>The \<open>finally\<close> block: five attempts to give the window back, with a bond and a fee written as literals.\<close>

fun giveBack :: "claim_env \<Rightarrow> 'w claim_stack \<Rightarrow> int \<Rightarrow> nat \<Rightarrow> ('w, claim_event, bool) stack_proc" where
  "giveBack E S window 0 = ret False"
| "giveBack E S window (Suc n) =
     catchp (bindp (setWindow E S 25000000 1000000 window) (\<lambda>_. bindp (readWindow E S) (\<lambda>_. ret True)))
       (\<lambda>_. seqp (nap S 3000) (giveBack E S window n))"

text \<open>\<open>main().catch(..).finally(..)\<close>: the exit code. An exception counts as a failed check.\<close>

definition claimScript :: "claim_env \<Rightarrow> 'w claim_stack \<Rightarrow> 'w \<Rightarrow> int \<times> ('w, claim_event) stack_run" where
  "claimScript E S w = (case claimHead E S \<lparr>sr_world = w, sr_checks = [], sr_trace = []\<rparr> of
     (Inl _, s) \<Rightarrow> (1, s)
   | (Inr (window, bond, fee), s) \<Rightarrow> (case claimMain E S bond fee s of (r, t) \<Rightarrow>
       (let code = (if (\<exists>u. r = Inr u) \<and> list_all snd (sr_checks t) then 0 else 1) in
        case giveBack E S window 5 t of (seen, u) \<Rightarrow> (if seen = Inr True then code else 1, u))))"

section \<open>What the parts exchanged\<close>

lemma nap_Inr [simp]: "nap S ms s = (Inr (), s\<lparr>sr_world := cs_sleep S ms (sr_world s)\<rparr>)"
  by (simp add: nap_def)

lemma chain_went:
  "chainTx S c s = (Inr h, t) \<Longrightarrow> went s [TxReplied c h] True t"
  "chainRead S r s = (Inr n, t) \<Longrightarrow> went s [ReadReplied r n] True t"
  "readClock S s = (Inr ms, t) \<Longrightarrow> went s [ClockReplied ms] True t"
  unfolding chainTx_def chainRead_def readClock_def by (rule asks_went, assumption)+

definition minedOf :: "string option \<Rightarrow> claim_event list" where
  "minedOf h = (case truthy h of None \<Rightarrow> [] | Some x \<Rightarrow> [MinedReply x])"

lemma hashMined_went: "hashMined S h s = (Inr u, t) \<Longrightarrow> went s (minedOf h) True t"
  by (auto simp: hashMined_def minedOf_def ret_def went_def dest!: asks_went split: option.splits)

text \<open>The permit: the clock and the token's nonce, and what was signed over them.\<close>

definition permit_asked :: "claim_env \<Rightarrow> string \<Rightarrow> string \<Rightarrow> int \<Rightarrow> permit \<Rightarrow> claim_event list \<Rightarrow> bool" where
  "permit_asked E owner spender amount p es \<longleftrightarrow> (\<exists>ms nonce.
     es = [ClockReplied ms, ReadReplied (TokenNonce (cb_token (cv_book E)) owner) nonce] \<and>
     permitFor (cv_signer E) ms owner spender amount nonce = Some p)"

lemma askPermit_ran:
  assumes "askPermit E S owner spender amount s = (Inr p, t)"
  shows "\<exists>es. went s es True t \<and> permit_asked E owner spender amount p es"
proof -
  from assms obtain ms s1 nonce where steps: "readClock S s = (Inr ms, s1)"
      "chainRead S (TokenNonce (cb_token (cv_book E)) owner) s1 = (Inr nonce, t)"
      "permitFor (cv_signer E) ms owner spender amount nonce = Some p"
    unfolding askPermit_def by (auto simp: bindp_Inr)
  have "went s [ClockReplied ms, ReadReplied (TokenNonce (cb_token (cv_book E)) owner) nonce] True t"
    using went_Cons [OF chain_went(3) [OF steps(1)] chain_went(2) [OF steps(2)]] .
  then show ?thesis using steps(3) unfolding permit_asked_def by blast
qed

text \<open>The request, signed over the forwarder's nonce and the clock read for it, and how its post was answered.\<close>

definition posted ::
  "claim_env \<Rightarrow> string \<Rightarrow> string \<Rightarrow> string \<Rightarrow> string \<Rightarrow> string \<Rightarrow> int \<Rightarrow> permit option \<Rightarrow> nat \<times> string option \<Rightarrow> claim_event list \<Rightarrow> bool" where
  "posted E acct to data forwarder domain gas p answer es \<longleftrightarrow> (\<exists>nonce ms path payload.
     relayBody (cv_signer E) ms domain forwarder acct to gas data nonce p = (path, payload) \<and>
     es = [ReadReplied (ForwarderNonce forwarder acct) nonce, ClockReplied ms, RelayReplied path payload answer])"

lemma relayed_ran:
  assumes "relayed E S acct to data forwarder domain gas p s = (Inr answer, t)"
  shows "\<exists>es. went s es True t \<and> posted E acct to data forwarder domain gas p answer es"
proof -
  let ?B = "\<lambda>ms nonce. relayBody (cv_signer E) ms domain forwarder acct to gas data nonce p"
  from assms obtain nonce s1 ms s2 where steps: "chainRead S (ForwarderNonce forwarder acct) s = (Inr nonce, s1)"
      "readClock S s1 = (Inr ms, s2)"
      "asks (RelayReplied (fst (?B ms nonce)) (snd (?B ms nonce))) (cs_relay S (fst (?B ms nonce)) (snd (?B ms nonce))) s2 = (Inr answer, t)"
    unfolding relayed_def bindp_Inr case_prod_unfold by blast
  have "went s [ReadReplied (ForwarderNonce forwarder acct) nonce, ClockReplied ms,
      RelayReplied (fst (?B ms nonce)) (snd (?B ms nonce)) answer] True t"
    using went_Cons [OF chain_went(2) [OF steps(1)] went_Cons [OF chain_went(3) [OF steps(2)] asks_went [OF steps(3)]]] .
  then show ?thesis unfolding posted_def by (metis prod.collapse)
qed

lemma tradeRelay_ran:
  assumes "tradeRelay E S acct data p s = (Inr answer, t)"
  shows "\<exists>es. went s es True t \<and>
    posted E acct (cb_engine (cv_book E)) data (cb_numeraForwarder (cv_book E)) ''Numera Forwarder'' 900000 p answer es"
  using relayed_ran [OF assms [unfolded tradeRelay_def]] .

text \<open>The window, the bond and the fee the chain had, and the short window that replaced it.\<close>

definition window_shortened :: "claim_env \<Rightarrow> int \<Rightarrow> int \<Rightarrow> int \<Rightarrow> claim_event list \<Rightarrow> bool" where
  "window_shortened E window bond fee es \<longleftrightarrow> (\<exists>h. let resolver = cb_optimisticResolver (cv_book E) in
     es = [ReadReplied (WindowOf resolver) window, ReadReplied (BondOf resolver) bond, ReadReplied (FeeOf resolver) fee,
       TxReplied (SetParameters resolver bond fee SHORT_WINDOW 259200 200 50000000) h])"

lemma claimHead_ran:
  assumes "claimHead E S s = (Inr (window, bond, fee), t)"
  shows "\<exists>es. went s es True t \<and> window_shortened E window bond fee es"
proof -
  let ?r = "cb_optimisticResolver (cv_book E)"
  from assms obtain s1 s2 s3 h where steps: "chainRead S (WindowOf ?r) s = (Inr window, s1)" "chainRead S (BondOf ?r) s1 = (Inr bond, s2)"
      "chainRead S (FeeOf ?r) s2 = (Inr fee, s3)" "chainTx S (SetParameters ?r bond fee SHORT_WINDOW 259200 200 50000000) s3 = (Inr h, t)"
    by (auto simp: claimHead_def readWindow_def setWindow_def bindp_Inr ret_def)
  from went_Cons [OF chain_went(2) [OF steps(1)] went_Cons [OF chain_went(2) [OF steps(2)] went_Cons [OF chain_went(2) [OF steps(3)]
      chain_went(1) [OF steps(4)]]]]
  show ?thesis unfolding window_shortened_def Let_def by blast
qed

text \<open>The market: created with the transaction \<open>tx\<close>, to close five minutes after the clock that was read.\<close>

definition probe_created :: "claim_env \<Rightarrow> string \<Rightarrow> int \<Rightarrow> claim_event list \<Rightarrow> bool" where
  "probe_created E tx closeTime es \<longleftrightarrow> (\<exists>ms held minted approved. closeTime = unix_now ms + 300 \<and>
     es = [ClockReplied ms, ReadReplied (TokenBalance (cb_token (cv_book E)) (cv_admin E)) held] @
       (if held < 1000 * UNIT then [TxReplied (ClaimMint (cb_token (cv_book E)) (cv_admin E) (5000 * UNIT)) minted] else []) @
       [TxReplied (ClaimApprove (cb_token (cv_book E)) (cb_engine (cv_book E)) (5000 * UNIT)) approved,
        TxReplied (ClaimCreate (cb_engine (cv_book E)) (probeMarket E closeTime)) tx])"

lemma createProbe_ran:
  assumes "createProbe E S s = (Inr (tx, closeTime), t)"
  shows "\<exists>es. went s es True t \<and> probe_created E tx closeTime es"
proof -
  let ?token = "cb_token (cv_book E)"
  let ?mint = "ClaimMint ?token (cv_admin E) (5000 * UNIT)"
  from assms obtain ms s1 held s2 s3 approved s4 s5 where steps: "readClock S s = (Inr ms, s1)"
      "chainRead S (TokenBalance ?token (cv_admin E)) s1 = (Inr held, s2)"
      "whenp (held < 1000 * UNIT) (bindp (chainTx S ?mint) (\<lambda>_. ret ())) s2 = (Inr (), s3)"
      "chainTx S (ClaimApprove ?token (cb_engine (cv_book E)) (5000 * UNIT)) s3 = (Inr approved, s4)"
      "chainTx S (ClaimCreate (cb_engine (cv_book E)) (probeMarket E closeTime)) s4 = (Inr tx, s5)"
      "stack_check ''a market was created with a five-minute book'' True s5 = (Inr (), t)" and closes: "closeTime = unix_now ms + 300"
    unfolding createProbe_def Let_def by (auto simp: bindp_Inr seqp_Inr ret_def)
  obtain minted where mint: "went s2 (if held < 1000 * UNIT then [TxReplied ?mint minted] else []) True s3"
    using steps(3) by (auto simp: whenp_Inr bindp_Inr ret_def went_def dest!: chain_went split: if_splits)
  note facts = chain_went(3) [OF steps(1)] chain_went(2) [OF steps(2)] mint chain_went(1) [OF steps(4)] chain_went(1) [OF steps(5)]
    stack_check_went [OF steps(6)]
  have "went s ([ClockReplied ms, ReadReplied (TokenBalance ?token (cv_admin E)) held] @
      (if held < 1000 * UNIT then [TxReplied ?mint minted] else []) @
      [TxReplied (ClaimApprove ?token (cb_engine (cv_book E)) (5000 * UNIT)) approved,
       TxReplied (ClaimCreate (cb_engine (cv_book E)) (probeMarket E closeTime)) tx]) True t"
    using facts unfolding went_def by (simp split del: if_split)
  then show ?thesis unfolding probe_created_def using closes by blast
qed

text \<open>The market taken: looks that showed none of that title, and then the first of the first listing that had one.\<close>

definition market_found :: "market_view \<Rightarrow> claim_event list \<Rightarrow> bool" where
  "market_found m es \<longleftrightarrow> (\<exists>items.
     looked (\<lambda>e. \<exists>earlier. e = MarketsReplied earlier \<and> (\<forall>x \<in> set earlier. mv_title x \<noteq> PROBE_TITLE)) (MarketsReplied items) es \<and>
     List.find (\<lambda>x. mv_title x = PROBE_TITLE) items = Some m)"

lemma awaitProbeMarket_ran: "awaitProbeMarket S n s = (Inr m, t) \<Longrightarrow> \<exists>es. went s es True t \<and> market_found m es"
proof (induction n arbitrary: s)
  case (Suc n)
  from Suc.prems obtain items u where a: "asks MarketsReplied (cs_markets S) s = (Inr items, u)"
    and rest: "(case List.find (\<lambda>m. mv_title m = PROBE_TITLE) items of Some m \<Rightarrow> ret m
      | None \<Rightarrow> seqp (nap S 2000) (awaitProbeMarket S n)) u = (Inr m, t)"
    by (auto simp: bindp_Inr)
  note asked = asks_went [OF a]
  show ?case
  proof (cases "List.find (\<lambda>m. mv_title m = PROBE_TITLE) items")
    case None
    then have "awaitProbeMarket S n (u\<lparr>sr_world := cs_sleep S 2000 (sr_world u)\<rparr>) = (Inr m, t)" using rest by (simp add: seqp_Inr)
    from Suc.IH [OF this] obtain es where "went u es True t" "market_found m es" by auto
    moreover have "\<forall>x \<in> set items. mv_title x \<noteq> PROBE_TITLE" using None by (simp add: find_None_iff)
    ultimately have "went s (MarketsReplied items # es) True t" "market_found m (MarketsReplied items # es)"
      using went_Cons [OF asked] by (auto simp: market_found_def intro: looked_later)
    then show ?thesis by blast
  next
    case (Some x)
    then have "x = m" "u = t" using rest by (simp_all add: ret_def)
    then show ?thesis using asked Some unfolding market_found_def by (intro exI [of _ "[MarketsReplied items]"] conjI exI [of _ items]) simp_all
  qed
qed (simp add: throw_def)

lemma adoptProbe_ran:
  assumes "adoptProbe S s = (Inr m, t)"
  shows "\<exists>es. went s es (mv_resolutionRules m \<noteq> []) t \<and> market_found m es"
proof -
  from assms obtain u where steps: "awaitProbeMarket S 60 s = (Inr m, u)"
      "stack_check ''the indexer adopted the market and its on-chain metadata'' (mv_resolutionRules m \<noteq> []) u = (Inr (), t)"
    by (auto simp: adoptProbe_def bindp_Inr seqp_Inr ret_def)
  obtain es where "went s es True u" "market_found m es" using awaitProbeMarket_ran [OF steps(1)] by blast
  then show ?thesis using went_append [OF _ stack_check_went [OF steps(2)]] by fastforce
qed

text \<open>The pool polled until a synced state held the note's leaf.\<close>

definition leaf_mirrored :: "claim_env \<Rightarrow> pool_note \<Rightarrow> pool_view \<Rightarrow> claim_event list \<Rightarrow> bool" where
  "leaf_mirrored E own v es \<longleftrightarrow> looked (\<lambda>e. \<exists>a. e = PoolReplied a) (PoolReplied (StateBody v)) es \<and>
     pv_synced v \<and> claimLeaf (cv_hashes E) own (pv_leaves v) \<noteq> None"

lemma awaitMirrored_ran: "awaitMirrored E S own n s = (Inr v, t) \<Longrightarrow> \<exists>es. went s es True t \<and> leaf_mirrored E own v es"
proof (induction n arbitrary: s)
  case (Suc n)
  from Suc.prems obtain answer u where a: "asks PoolReplied (certain (cs_state S)) s = (Inr answer, u)"
    and rest: "(let again = seqp (nap S 1000) (awaitMirrored E S own n) in case answer of
       Unreachable \<Rightarrow> throw Thrown | ErrorBody \<Rightarrow> again
     | StateBody v \<Rightarrow> if pv_synced v \<and> claimLeaf (cv_hashes E) own (pv_leaves v) \<noteq> None then ret v else again) u = (Inr v, t)"
    by (auto simp: bindp_Inr)
  note asked = asks_went [OF a]
  have again: ?case if later: "awaitMirrored E S own n (u\<lparr>sr_world := cs_sleep S 1000 (sr_world u)\<rparr>) = (Inr v, t)"
  proof -
    from Suc.IH [OF later] obtain es where "went u es True t" "leaf_mirrored E own v es" by auto
    then have "went s (PoolReplied answer # es) True t" "leaf_mirrored E own v (PoolReplied answer # es)"
      using went_Cons [OF asked] by (auto simp: leaf_mirrored_def intro: looked_later)
    then show ?thesis by blast
  qed
  show ?case
  proof (cases answer)
    case (StateBody x)
    have now: ?thesis if "x = v" "t = u" "pv_synced v" "claimLeaf (cv_hashes E) own (pv_leaves v) \<noteq> None"
      using asked that StateBody by (intro exI [of _ "[PoolReplied (StateBody v)]"]) (simp add: leaf_mirrored_def)
    show ?thesis using rest again now StateBody by (auto simp: Let_def ret_def seqp_Inr split: if_splits)
  qed (use rest again in \<open>auto simp: Let_def throw_def seqp_Inr\<close>)
qed (simp add: throw_def)

text \<open>The trader: without gas, then holding exactly the stake that went through the pool.\<close>

definition trader_funded :: "claim_env \<Rightarrow> string \<Rightarrow> string \<Rightarrow> int \<Rightarrow> claim_event list \<Rightarrow> bool" where
  "trader_funded E tx acct stake es \<longleftrightarrow> (\<exists>h1 h2 looks v body status h.
     es = [ReadReplied (GasOf acct) 0, TxReplied (ClaimApprove (cb_token (cv_book E)) (cb_poolEntrypoint (cv_book E)) stake) h1,
       TxReplied (ClaimDeposit (cb_poolEntrypoint (cv_book E)) stake (precommitmentOf (cv_hashes E) (claimNote E tx))) h2] @
       looks @ [WithdrawReplied body (status, h)] @ minedOf h @ [ReadReplied (TokenBalance (cb_token (cv_book E)) acct) stake] \<and>
     leaf_mirrored E (claimNote E tx) v looks \<and> claimWithdrawal E tx acct stake v = Some body)"

lemma fundTrader_ran:
  assumes "fundTrader E S tx acct stake s = (Inr u, t)"
  shows "\<exists>es ok. went s es ok t \<and> (ok \<longrightarrow> trader_funded E tx acct stake es)"
proof -
  let ?bk = "cv_book E"
  from assms obtain gas s1 s2 h1 s3 h2 s4 s5 v s6 body s7 status h s8 s9 held where steps:
      "chainRead S (GasOf acct) s = (Inr gas, s1)"
      "stack_check ''the market account holds no gas, and never will'' (gas = 0) s1 = (Inr (), s2)"
      "chainTx S (ClaimApprove (cb_token ?bk) (cb_poolEntrypoint ?bk) stake) s2 = (Inr h1, s3)"
      "chainTx S (ClaimDeposit (cb_poolEntrypoint ?bk) stake (precommitmentOf (cv_hashes E) (claimNote E tx))) s3 = (Inr h2, s4)"
      "stack_check ''collateral entered the shielded pool'' True s4 = (Inr (), s5)"
      "awaitMirrored E S (claimNote E tx) 90 s5 = (Inr v, s6)"
      "claimWithdrawal E tx acct stake v = Some body"
      "asks (WithdrawReplied body) (cs_withdraw S body) s6 = (Inr (status, h), s7)" "hashMined S h s7 = (Inr (), s8)"
      "chainRead S (TokenBalance (cb_token ?bk) acct) s8 = (Inr held, s9)"
      "stack_check ''the market account was funded privately'' (held = stake) s9 = (Inr u, t)"
    unfolding fundTrader_def Let_def bindp_Inr seqp_Inr given_value_Inr by (auto simp: seqp_Inr bindp_Inr split: prod.splits)
  obtain looks where looks: "went s5 looks True s6" "leaf_mirrored E (claimNote E tx) v looks" using awaitMirrored_ran [OF steps(6)] by blast
  note facts = chain_went(2) [OF steps(1)] stack_check_went [OF steps(2)] chain_went(1) [OF steps(3)] chain_went(1) [OF steps(4)]
    stack_check_went [OF steps(5)] looks(1) asks_went [OF steps(8)] hashMined_went [OF steps(9)] chain_went(2) [OF steps(10)]
    stack_check_went [OF steps(11)]
  have "went s ([ReadReplied (GasOf acct) gas, TxReplied (ClaimApprove (cb_token ?bk) (cb_poolEntrypoint ?bk) stake) h1,
       TxReplied (ClaimDeposit (cb_poolEntrypoint ?bk) stake (precommitmentOf (cv_hashes E) (claimNote E tx))) h2] @
       looks @ [WithdrawReplied body (status, h)] @ minedOf h @ [ReadReplied (TokenBalance (cb_token ?bk) acct) held])
      (gas = 0 \<and> held = stake) t"
    using facts unfolding went_def by auto
  then show ?thesis using looks(2) steps(7) unfolding trader_funded_def by blast
qed

text \<open>The bet: accepted by the relay, and then held by the account.\<close>

definition bet_placed :: "claim_env \<Rightarrow> int \<Rightarrow> string \<Rightarrow> claim_event list \<Rightarrow> bool" where
  "bet_placed E i acct es \<longleftrightarrow> (\<exists>p asked h posts. permit_asked E acct (cb_engine (cv_book E)) (40 * UNIT) p asked \<and>
     posted E acct (cb_engine (cv_book E)) (cv_buy E i 0 PROBE_SHARES (40 * UNIT)) (cb_numeraForwarder (cv_book E))
       ''Numera Forwarder'' 900000 (Some p) (200, h) posts \<and>
     es = asked @ posts @ minedOf h @ [ReadReplied (SharesHeld (cb_engine (cv_book E)) i acct 0) PROBE_SHARES])"

lemma placeBet_ran:
  assumes "placeBet E S m acct s = (Inr u, t)"
  shows "\<exists>i es ok. bigint_of_string (mv_marketId m) = Some i \<and> went s es ok t \<and> (ok \<longrightarrow> bet_placed E i acct es)"
proof -
  let ?held = "SharesHeld (cb_engine (cv_book E))"
  from assms obtain i p s1 status h s2 s3 s4 held s5 where steps: "bigint_of_string (mv_marketId m) = Some i"
      "askPermit E S acct (cb_engine (cv_book E)) (40 * UNIT) s = (Inr p, s1)"
      "tradeRelay E S acct (cv_buy E i 0 PROBE_SHARES (40 * UNIT)) (Some p) s1 = (Inr (status, h), s2)"
      "stack_check ''a gasless account placed a bet'' (status = 200) s2 = (Inr (), s3)" "hashMined S h s3 = (Inr (), s4)"
      "chainRead S (?held i acct 0) s4 = (Inr held, s5)"
      "stack_check ''the shares are held by the market account, not by anyone identifiable'' (held = PROBE_SHARES) s5 = (Inr u, t)"
    unfolding placeBet_def Let_def bindp_Inr seqp_Inr given_value_Inr by (auto simp: seqp_Inr bindp_Inr split: prod.splits)
  obtain asked where asked: "went s asked True s1" "permit_asked E acct (cb_engine (cv_book E)) (40 * UNIT) p asked"
    using askPermit_ran [OF steps(2)] by blast
  obtain posts where posts: "went s1 posts True s2" "posted E acct (cb_engine (cv_book E)) (cv_buy E i 0 PROBE_SHARES (40 * UNIT))
      (cb_numeraForwarder (cv_book E)) ''Numera Forwarder'' 900000 (Some p) (status, h) posts"
    using tradeRelay_ran [OF steps(3)] by blast
  note facts = asked(1) posts(1) stack_check_went [OF steps(4)] hashMined_went [OF steps(5)] chain_went(2) [OF steps(6)]
    stack_check_went [OF steps(7)]
  have "went s (asked @ posts @ minedOf h @ [ReadReplied (?held i acct 0) held]) (status = 200 \<and> held = PROBE_SHARES) t"
    using facts unfolding went_def by auto
  then show ?thesis using steps(1) asked(2) posts(2) unfolding bet_placed_def by blast
qed

definition outcome_proposed :: "claim_env \<Rightarrow> int \<Rightarrow> string \<Rightarrow> int \<Rightarrow> claim_event list \<Rightarrow> bool" where
  "outcome_proposed E i acct due es \<longleftrightarrow> (\<exists>p asked h posts.
     permit_asked E acct (cb_optimisticResolver (cv_book E)) due p asked \<and>
     posted E acct (cb_optimisticResolver (cv_book E)) (cv_propose E (cb_engine (cv_book E)) i 0) (cb_resolutionForwarder (cv_book E))
       ''Numera Resolution Forwarder'' 450000 (Some p) (200, h) posts \<and>
     es = asked @ posts @ minedOf h)"

lemma proposeYes_ran:
  assumes "proposeYes E S m acct due s = (Inr u, t)"
  shows "\<exists>i es ok. bigint_of_string (mv_marketId m) = Some i \<and> went s es ok t \<and> (ok \<longrightarrow> outcome_proposed E i acct due es)"
proof -
  let ?r = "cb_optimisticResolver (cv_book E)"
  from assms obtain i p s1 status h s2 s3 where steps: "bigint_of_string (mv_marketId m) = Some i"
      "askPermit E S acct ?r due s = (Inr p, s1)"
      "relayed E S acct ?r (cv_propose E (cb_engine (cv_book E)) i 0)
         (cb_resolutionForwarder (cv_book E)) ''Numera Resolution Forwarder'' 450000 (Some p) s1 = (Inr (status, h), s2)"
      "stack_check ''the outcome was proposed from the same shielded account'' (status = 200) s2 = (Inr (), s3)"
      "hashMined S h s3 = (Inr u, t)"
    unfolding proposeYes_def Let_def bindp_Inr seqp_Inr given_value_Inr by (auto simp: seqp_Inr bindp_Inr split: prod.splits)
  obtain asked where asked: "went s asked True s1" "permit_asked E acct ?r due p asked" using askPermit_ran [OF steps(2)] by blast
  obtain posts where posts: "went s1 posts True s2" "posted E acct ?r (cv_propose E (cb_engine (cv_book E)) i 0)
      (cb_resolutionForwarder (cv_book E)) ''Numera Resolution Forwarder'' 450000 (Some p) (status, h) posts"
    using relayed_ran [OF steps(3)] by blast
  have "went s (asked @ posts @ minedOf h) (status = 200) t"
    using asked(1) posts(1) stack_check_went [OF steps(4)] hashMined_went [OF steps(5)] unfolding went_def by auto
  then show ?thesis using steps(1) asked(2) posts(2) unfolding outcome_proposed_def by blast
qed

lemma sleepUntilClose_ran:
  assumes "sleepUntilClose S closeTime s = (Inr u, t)"
  shows "\<exists>ms. went s [ClockReplied ms] True t"
proof -
  from assms obtain ms u1 where steps: "readClock S s = (Inr ms, u1)" "t = u1 \<or> (\<exists>w. t = u1\<lparr>sr_world := w\<rparr>)"
    by (auto simp: sleepUntilClose_def bindp_Inr whenp_Inr split: if_splits)
  have "went s [ClockReplied ms] True t"
    using chain_went(3) [OF steps(1)] steps(2) by (auto simp: went_def)
  then show ?thesis by blast
qed

text \<open>The market looked at until it was served as resolved.\<close>

definition market_settled :: "string \<Rightarrow> claim_event list \<Rightarrow> bool" where
  "market_settled ref = looked (\<lambda>e. \<exists>status. e = MarketReplied ref status \<and> status \<noteq> Some RESOLVED) (MarketReplied ref (Some RESOLVED))"

lemma awaitSettled_ran: "awaitSettled S ref n s = (Inr b, t) \<Longrightarrow> \<exists>es. went s es True t \<and> (b \<longrightarrow> market_settled ref es)"
proof (induction n arbitrary: s)
  case 0
  then show ?case by (intro exI [of _ "[]"]) (simp add: ret_def went_def)
next
  case (Suc n)
  from Suc.prems obtain status u where a: "asks (MarketReplied ref) (cs_market S ref) (s\<lparr>sr_world := cs_sleep S 5000 (sr_world s)\<rparr>) =
      (Inr status, u)"
    and rest: "(if status = Some RESOLVED then ret True else awaitSettled S ref n) u = (Inr b, t)"
    by (auto simp: bindp_Inr seqp_Inr)
  have asked: "went s [MarketReplied ref status] True u" using asks_went [OF a] by simp
  show ?case
  proof (cases "status = Some RESOLVED")
    case True
    then show ?thesis using asked rest by (intro exI [of _ "[MarketReplied ref status]"]) (simp add: ret_def market_settled_def)
  next
    case False
    then obtain es where "went u es True t" "b \<longrightarrow> market_settled ref es" using rest Suc.IH by auto
    then have "went s (MarketReplied ref status # es) True t" "b \<longrightarrow> market_settled ref (MarketReplied ref status # es)"
      using went_Cons [OF asked] False by (auto simp: market_settled_def intro: looked_later)
    then show ?thesis by blast
  qed
qed

text \<open>The positions looked at until one of the market was listed: the first of it is \<open>p\<close>.\<close>

definition position_shown :: "string \<Rightarrow> string \<Rightarrow> position_view \<Rightarrow> claim_event list \<Rightarrow> bool" where
  "position_shown acct ref p es \<longleftrightarrow> (\<exists>body. List.find (\<lambda>x. pv_marketRef x = ref) body = Some p \<and>
     looked (\<lambda>e. \<exists>earlier. e = PositionsReplied acct earlier \<and> (\<forall>x \<in> set earlier. pv_marketRef x \<noteq> ref)) (PositionsReplied acct body) es)"

lemma position_shown_later:
  assumes "position_shown acct ref p es" "\<forall>x \<in> set body. pv_marketRef x \<noteq> ref"
  shows "position_shown acct ref p (PositionsReplied acct body # es)"
proof -
  from assms(1) obtain final where final: "List.find (\<lambda>x. pv_marketRef x = ref) final = Some p"
      "looked (\<lambda>e. \<exists>earlier. e = PositionsReplied acct earlier \<and> (\<forall>x \<in> set earlier. pv_marketRef x \<noteq> ref)) (PositionsReplied acct final) es"
    unfolding position_shown_def by blast
  have "looked (\<lambda>e. \<exists>earlier. e = PositionsReplied acct earlier \<and> (\<forall>x \<in> set earlier. pv_marketRef x \<noteq> ref)) (PositionsReplied acct final)
      (PositionsReplied acct body # es)"
    by (rule looked_later [OF final(2)]) (use assms(2) in simp)
  then show ?thesis unfolding position_shown_def using final(1) by (intro exI [of _ final] conjI)
qed

lemma awaitPosition_ran:
  "awaitPosition S acct ref n s = (Inr p, t) \<Longrightarrow> \<exists>es. went s es True t \<and> (\<forall>x. p = Some x \<longrightarrow> position_shown acct ref x es)"
proof (induction n arbitrary: s)
  case 0
  then show ?case by (intro exI [of _ "[]"]) (simp add: ret_def went_def)
next
  case (Suc n)
  from Suc.prems obtain body u where a: "asks (PositionsReplied acct) (cs_positions S acct) s = (Inr body, u)"
    and rest: "(case List.find (\<lambda>p. pv_marketRef p = ref) body of Some p \<Rightarrow> ret (Some p)
      | None \<Rightarrow> seqp (nap S 2000) (awaitPosition S acct ref n)) u = (Inr p, t)"
    by (auto simp: bindp_Inr)
  note asked = asks_went [OF a]
  show ?case
  proof (cases "List.find (\<lambda>p. pv_marketRef p = ref) body")
    case None
    then have "awaitPosition S acct ref n (u\<lparr>sr_world := cs_sleep S 2000 (sr_world u)\<rparr>) = (Inr p, t)" using rest by (simp add: seqp_Inr)
    from Suc.IH [OF this] obtain es where es: "went u es True t" "\<forall>x. p = Some x \<longrightarrow> position_shown acct ref x es" by auto
    have "\<forall>x \<in> set body. pv_marketRef x \<noteq> ref" using None by (simp add: find_None_iff)
    then have "\<forall>x. p = Some x \<longrightarrow> position_shown acct ref x (PositionsReplied acct body # es)"
      using es(2) position_shown_later by blast
    then show ?thesis using went_Cons [OF asked es(1)] by blast
  next
    case (Some x)
    then have now: "p = Some x" "u = t" using rest by (simp_all add: ret_def)
    have "position_shown acct ref x [PositionsReplied acct body]" unfolding position_shown_def using Some by (intro exI [of _ body] conjI looked_now)
    then show ?thesis using asked now by (intro exI [of _ "[PositionsReplied acct body]"]) simp
  qed
qed

text \<open>The positions looked at until the market's was listed as redeemed.\<close>

definition redeemed_in :: "string \<Rightarrow> position_view list \<Rightarrow> bool" where
  "redeemed_in ref body \<longleftrightarrow> (\<exists>p \<in> set body. pv_marketRef p = ref \<and> pv_redeemed p)"

definition redemption_shown :: "string \<Rightarrow> string \<Rightarrow> claim_event list \<Rightarrow> bool" where
  "redemption_shown acct ref es \<longleftrightarrow> (\<exists>body. redeemed_in ref body \<and>
     looked (\<lambda>e. \<exists>earlier. e = PositionsReplied acct earlier \<and> \<not> redeemed_in ref earlier) (PositionsReplied acct body) es)"

lemma redemption_shown_later:
  assumes "redemption_shown acct ref es" "\<not> redeemed_in ref body"
  shows "redemption_shown acct ref (PositionsReplied acct body # es)"
proof -
  from assms(1) obtain final where final: "redeemed_in ref final"
      "looked (\<lambda>e. \<exists>earlier. e = PositionsReplied acct earlier \<and> \<not> redeemed_in ref earlier) (PositionsReplied acct final) es"
    unfolding redemption_shown_def by blast
  have "looked (\<lambda>e. \<exists>earlier. e = PositionsReplied acct earlier \<and> \<not> redeemed_in ref earlier) (PositionsReplied acct final)
      (PositionsReplied acct body # es)"
    by (rule looked_later [OF final(2)]) (use assms(2) in simp)
  then show ?thesis unfolding redemption_shown_def using final(1) by (intro exI [of _ final] conjI)
qed

lemma awaitRedeemed_ran:
  "awaitRedeemed S acct ref n s = (Inr b, t) \<Longrightarrow> \<exists>es. went s es True t \<and> (b \<longrightarrow> redemption_shown acct ref es)"
proof (induction n arbitrary: s)
  case 0
  then show ?case by (intro exI [of _ "[]"]) (simp add: ret_def went_def)
next
  case (Suc n)
  from Suc.prems obtain body u where a: "asks (PositionsReplied acct) (cs_positions S acct)
      (s\<lparr>sr_world := cs_sleep S 2000 (sr_world s)\<rparr>) = (Inr body, u)"
    and rest: "(if redeemed_in ref body then ret True else awaitRedeemed S acct ref n) u = (Inr b, t)"
    by (auto simp: bindp_Inr seqp_Inr redeemed_in_def)
  have asked: "went s [PositionsReplied acct body] True u" using asks_went [OF a] by simp
  show ?case
  proof (cases "redeemed_in ref body")
    case True
    then have "redemption_shown acct ref [PositionsReplied acct body]" unfolding redemption_shown_def by (intro exI [of _ body] conjI looked_now)
    then show ?thesis using asked rest True by (intro exI [of _ "[PositionsReplied acct body]"]) (simp add: ret_def)
  next
    case False
    then obtain es where es: "went u es True t" "b \<longrightarrow> redemption_shown acct ref es" using rest Suc.IH by auto
    then have "b \<longrightarrow> redemption_shown acct ref (PositionsReplied acct body # es)"
      using redemption_shown_later False by blast
    then show ?thesis using went_Cons [OF asked es(1)] by blast
  qed
qed

text \<open>The winnings: the balance, the position as it stood before it was collected, the \<open>redeem\<close> accepted by the relay
  and mined, the balance higher by exactly the shares, and the position as it stood afterwards.\<close>

definition winnings_collected :: "claim_env \<Rightarrow> string \<Rightarrow> int \<Rightarrow> string \<Rightarrow> claim_event list \<Rightarrow> bool" where
  "winnings_collected E ref i acct es \<longleftrightarrow> (\<exists>before shown p posts h retired.
     position_shown acct ref p shown \<and> isClaimable p \<and>
     posted E acct (cb_engine (cv_book E)) (cv_redeem E i) (cb_numeraForwarder (cv_book E)) ''Numera Forwarder'' 900000 None (200, h) posts \<and>
     redemption_shown acct ref retired \<and>
     es = [ReadReplied (TokenBalance (cb_token (cv_book E)) acct) before] @ shown @ posts @ minedOf h @
       [ReadReplied (TokenBalance (cb_token (cv_book E)) acct) (before + PROBE_SHARES)] @ retired)"

lemma collect_ran:
  assumes "collect E S m acct s = (Inr u, t)"
  shows "\<exists>i es ok. bigint_of_string (mv_marketId m) = Some i \<and> went s es ok t \<and> (ok \<longrightarrow> winnings_collected E (mv_id m) i acct es)"
proof -
  let ?bal = "TokenBalance (cb_token (cv_book E)) acct"
  from assms obtain b s1 p s2 s3 s4 i status h s5 s6 s7 a s8 s9 redeemed s10 where steps: "chainRead S ?bal s = (Inr b, s1)"
      "awaitPosition S acct (mv_id m) 30 s1 = (Inr p, s2)"
      "stack_check ''the app can see a winning, uncollected position'' (case p of None \<Rightarrow> False | Some x \<Rightarrow> \<not> pv_redeemed x) s2 = (Inr (), s3)"
      "stack_check ''the claim button would be drawn for it'' (case p of None \<Rightarrow> False | Some x \<Rightarrow> isClaimable x) s3 = (Inr (), s4)"
      "bigint_of_string (mv_marketId m) = Some i" "tradeRelay E S acct (cv_redeem E i) None s4 = (Inr (status, h), s5)"
      "stack_check ''the claim was relayed'' (status = 200) s5 = (Inr (), s6)" "hashMined S h s6 = (Inr (), s7)"
      "chainRead S ?bal s7 = (Inr a, s8)" "stack_check ''the winnings landed in the market account'' (a - b = PROBE_SHARES) s8 = (Inr (), s9)"
      "awaitRedeemed S acct (mv_id m) 30 s9 = (Inr redeemed, s10)"
      "stack_check ''the position now reads as collected, so the button retires'' redeemed s10 = (Inr u, t)"
    unfolding collect_def Let_def bindp_Inr seqp_Inr given_value_Inr by (auto simp: seqp_Inr bindp_Inr split: prod.splits)
  obtain shown where shown: "went s1 shown True s2" "\<forall>x. p = Some x \<longrightarrow> position_shown acct (mv_id m) x shown"
    using awaitPosition_ran [OF steps(2)] by blast
  obtain posts where posts: "went s4 posts True s5" "posted E acct (cb_engine (cv_book E)) (cv_redeem E i) (cb_numeraForwarder (cv_book E))
      ''Numera Forwarder'' 900000 None (status, h) posts" using tradeRelay_ran [OF steps(6)] by blast
  obtain retired where retired: "went s9 retired True s10" "redeemed \<longrightarrow> redemption_shown acct (mv_id m) retired"
    using awaitRedeemed_ran [OF steps(11)] by blast
  note facts = chain_went(2) [OF steps(1)] shown(1) stack_check_went [OF steps(3)] stack_check_went [OF steps(4)] posts(1)
    stack_check_went [OF steps(7)] hashMined_went [OF steps(8)] chain_went(2) [OF steps(9)] stack_check_went [OF steps(10)]
    retired(1) stack_check_went [OF steps(12)]
  define ok where "ok \<longleftrightarrow> (case p of None \<Rightarrow> False | Some x \<Rightarrow> \<not> pv_redeemed x) \<and> (case p of None \<Rightarrow> False | Some x \<Rightarrow> isClaimable x) \<and>
    status = 200 \<and> a - b = PROBE_SHARES \<and> redeemed"
  have "went s ([ReadReplied ?bal b] @ shown @ posts @ minedOf h @ [ReadReplied ?bal a] @ retired) ok t"
    using facts unfolding went_def ok_def by simp
  moreover have "winnings_collected E (mv_id m) i acct ([ReadReplied ?bal b] @ shown @ posts @ minedOf h @ [ReadReplied ?bal a] @ retired)"
    if ok
  proof -
    from that obtain x where x: "p = Some x" "isClaimable x" and rest: "status = 200" "a = b + PROBE_SHARES" redeemed
      unfolding ok_def by (cases p) auto
    show ?thesis
      unfolding winnings_collected_def rest(2)
      by (rule exI [of _ b], rule exI [of _ shown], rule exI [of _ x], rule exI [of _ posts], rule exI [of _ h], rule exI [of _ retired],
          intro conjI)
        (fact shown(2) [rule_format, OF x(1)] x(2) posts(2) [unfolded rest(1)] retired(2) [rule_format, OF rest(3)] refl)+
  qed
  ultimately show ?thesis using steps(5) by blast
qed

text \<open>The window given back: the transactions of attempts that failed later, then the one that went through, and the
  window read.\<close>

definition window_returned :: "claim_env \<Rightarrow> int \<Rightarrow> claim_event list \<Rightarrow> bool" where
  "window_returned E window es \<longleftrightarrow> (\<exists>earlier h now. let resolver = cb_optimisticResolver (cv_book E);
       call = SetParameters resolver 25000000 1000000 window 259200 200 50000000 in
     es = earlier @ [TxReplied call h, ReadReplied (WindowOf resolver) now] \<and> list_all (\<lambda>e. \<exists>x. e = TxReplied call x) earlier)"

lemma giveBack_ran: "giveBack E S window n s = (Inr True, t) \<Longrightarrow> \<exists>es. sr_trace t = sr_trace s @ es \<and> window_returned E window es"
proof (induction n arbitrary: s)
  case (Suc n)
  let ?r = "cb_optimisticResolver (cv_book E)"
  let ?call = "SetParameters ?r 25000000 1000000 window 259200 200 50000000"
  obtain a v where first: "chainTx S ?call s = (a, v)" by fastforce
  have again: ?case if later: "giveBack E S window n (q\<lparr>sr_world := cs_sleep S 3000 (sr_world q)\<rparr>) = (Inr True, t)"
    and before: "sr_trace q = sr_trace s @ tried" "list_all (\<lambda>e. \<exists>x. e = TxReplied ?call x) tried" for q tried
  proof -
    from Suc.IH [OF later] obtain es where es: "sr_trace t = sr_trace q @ es" "window_returned E window es" by auto
    from es(2) obtain earlier h now where "es = earlier @ [TxReplied ?call h, ReadReplied (WindowOf ?r) now]"
        "list_all (\<lambda>e. \<exists>x. e = TxReplied ?call x) earlier" unfolding window_returned_def Let_def by blast
    then have "window_returned E window (tried @ es)"
      using before(2) unfolding window_returned_def Let_def
      by (intro exI [of _ "tried @ earlier"] exI [of _ h] exI [of _ now]) simp
    then show ?thesis using es(1) before(1) by (intro exI [of _ "tried @ es"]) simp
  qed
  show ?case
  proof (cases a)
    case (Inl e)
    then have "sr_trace v = sr_trace s @ []" using first by (auto simp: chainTx_def asks_def split: prod.splits option.splits)
    moreover have "giveBack E S window n (v\<lparr>sr_world := cs_sleep S 3000 (sr_world v)\<rparr>) = (Inr True, t)"
      using Suc.prems first Inl by (simp add: catchp_def setWindow_def bindp_def seqp_def nap_def modp_def)
    ultimately show ?thesis using again by simp
  next
    case (Inr h)
    then have sent: "sr_trace v = sr_trace s @ [TxReplied ?call h]" using first chain_went(1) unfolding went_def by blast
    obtain b q where second: "chainRead S (WindowOf ?r) v = (b, q)" by fastforce
    show ?thesis
    proof (cases b)
      case (Inl e)
      then have "sr_trace q = sr_trace s @ [TxReplied ?call h]"
        using second sent by (auto simp: chainRead_def asks_def split: prod.splits option.splits)
      moreover have "giveBack E S window n (q\<lparr>sr_world := cs_sleep S 3000 (sr_world q)\<rparr>) = (Inr True, t)"
        using Suc.prems first second Inr Inl by (simp add: catchp_def setWindow_def readWindow_def bindp_def seqp_def nap_def modp_def)
      ultimately show ?thesis using again by simp
    next
      case now: (Inr now)
      then have "sr_trace q = sr_trace v @ [ReadReplied (WindowOf ?r) now]" using second chain_went(2) unfolding went_def by blast
      moreover have "q = t"
        using Suc.prems first second Inr now by (simp add: catchp_def setWindow_def readWindow_def bindp_def ret_def)
      ultimately show ?thesis using sent
        by (intro exI [of _ "[TxReplied ?call h, ReadReplied (WindowOf ?r) now]"]) (simp add: window_returned_def Let_def)
    qed
  qed
qed (simp add: ret_def)

section \<open>What a passing run shows\<close>

lemma claimMain_ran:
  assumes "claimMain E S bond fee s = (Inr u, t)" "all_pass t"
  shows "\<exists>tx closeTime m i ms creating finding funding betting proposing settling collecting.
    sr_trace t = sr_trace s @ creating @ finding @ funding @ betting @ [ClockReplied ms] @ proposing @ settling @ collecting \<and>
    probe_created E tx closeTime creating \<and> market_found m finding \<and> mv_resolutionRules m \<noteq> [] \<and>
    bigint_of_string (mv_marketId m) = Some i \<and> trader_funded E tx (traderOf E tx m) (bond + fee + 60 * UNIT) funding \<and>
    bet_placed E i (traderOf E tx m) betting \<and> outcome_proposed E i (traderOf E tx m) (bond + fee) proposing \<and>
    market_settled (mv_id m) settling \<and> winnings_collected E (mv_id m) i (traderOf E tx m) collecting"
proof -
  from assms(1) obtain s1 tx closeTime s2 m s3 s4 s5 s6 s7 settled s8 s9 where steps:
      "stack_check ''the dispute window was shortened for this run'' True s = (Inr (), s1)"
      "createProbe E S s1 = (Inr (tx, closeTime), s2)" "adoptProbe S s2 = (Inr m, s3)"
      "fundTrader E S tx (traderOf E tx m) (bond + fee + 60 * UNIT) s3 = (Inr (), s4)"
      "placeBet E S m (traderOf E tx m) s4 = (Inr (), s5)" "sleepUntilClose S closeTime s5 = (Inr (), s6)"
      "proposeYes E S m (traderOf E tx m) (bond + fee) s6 = (Inr (), s7)" "awaitSettled S (mv_id m) 40 s7 = (Inr settled, s8)"
      "stack_check ''nobody disputed, and the market settled itself'' settled s8 = (Inr (), s9)"
      "collect E S m (traderOf E tx m) s9 = (Inr u, t)"
    unfolding claimMain_def Let_def by (auto simp: seqp_Inr bindp_Inr split: prod.splits)
  obtain e1 where e1: "went s1 e1 True s2" "probe_created E tx closeTime e1" using createProbe_ran [OF steps(2)] by blast
  obtain e2 where e2: "went s2 e2 (mv_resolutionRules m \<noteq> []) s3" "market_found m e2" using adoptProbe_ran [OF steps(3)] by blast
  obtain e3 o3 where e3: "went s3 e3 o3 s4" "o3 \<longrightarrow> trader_funded E tx (traderOf E tx m) (bond + fee + 60 * UNIT) e3"
    using fundTrader_ran [OF steps(4)] by blast
  obtain i e4 o4 where e4: "bigint_of_string (mv_marketId m) = Some i" "went s4 e4 o4 s5" "o4 \<longrightarrow> bet_placed E i (traderOf E tx m) e4"
    using placeBet_ran [OF steps(5)] by blast
  obtain ms where e5: "went s5 [ClockReplied ms] True s6" using sleepUntilClose_ran [OF steps(6)] by blast
  obtain e6 o6 where e6: "went s6 e6 o6 s7" "o6 \<longrightarrow> outcome_proposed E i (traderOf E tx m) (bond + fee) e6"
    using proposeYes_ran [OF steps(7)] e4(1) by (metis option.inject)
  obtain e7 where e7: "went s7 e7 True s8" "settled \<longrightarrow> market_settled (mv_id m) e7" using awaitSettled_ran [OF steps(8)] by blast
  obtain e8 o8 where e8: "went s9 e8 o8 t" "o8 \<longrightarrow> winnings_collected E (mv_id m) i (traderOf E tx m) e8"
    using collect_ran [OF steps(10)] e4(1) by (metis option.inject)
  note chain = stack_check_went [OF steps(1)] e1(1) e2(1) e3(1) e4(2) e5 e6(1) e7(1) stack_check_went [OF steps(9)] e8(1)
  have passed: "mv_resolutionRules m \<noteq> []" o3 o4 o6 settled o8
    using chain assms(2) unfolding went_def by simp_all
  have traced: "sr_trace t = sr_trace s @ e1 @ e2 @ e3 @ e4 @ [ClockReplied ms] @ e6 @ e7 @ e8"
    using chain unfolding went_def by simp
  note facts = e3(2) [rule_format, OF passed(2)] e4(3) [rule_format, OF passed(3)] e6(2) [rule_format, OF passed(4)]
    e7(2) [rule_format, OF passed(5)] e8(2) [rule_format, OF passed(6)]
  show ?thesis
    by (rule exI [of _ tx], rule exI [of _ closeTime], rule exI [of _ m], rule exI [of _ i], rule exI [of _ ms], rule exI [of _ e1],
        rule exI [of _ e2], rule exI [of _ e3], rule exI [of _ e4], rule exI [of _ e6], rule exI [of _ e7], rule exI [of _ e8], intro conjI)
      (fact traced e1(2) e2(2) passed(1) e4(1) facts)+
qed

text \<open>C39. A run of the claim probe that exits with zero consists of exactly these exchanges with the stack, in this
  order. The dispute window, the bond and the fee were read and the window was shortened; a market was created to close
  in five minutes, and a market of its title, with rules, was served. An account derived for that market had no gas;
  bond, fee and sixty units were deposited in the pool for it, its withdrawal was answered, and it then held exactly
  that much. Its bet, signed with the permit and the nonces just read, was accepted by the trade relay, and it held the
  thirty shares. Its proposal was accepted by the resolution relay, and the market was looked at until it was served as
  resolved. Then its balance was read, its position was served as collectable, the \<open>redeem\<close> was accepted by the trade
  relay and mined if it was named, the balance read after it was higher by exactly the shares, and the positions were
  looked at until that one was served as redeemed. Last of all, a transaction that sets the window the chain had at the
  start went through, and the window was read.\<close>

theorem passing_claim_run_shows:
  assumes "claimScript E S w = (0, s)"
  shows "\<exists>window bond fee tx closeTime m i ms shortening creating finding funding betting proposing settling collecting returning.
    (let acct = traderOf E tx m in
     sr_trace s = shortening @ creating @ finding @ funding @ betting @ [ClockReplied ms] @ proposing @ settling @ collecting @ returning \<and>
     window_shortened E window bond fee shortening \<and> probe_created E tx closeTime creating \<and>
     market_found m finding \<and> mv_resolutionRules m \<noteq> [] \<and> bigint_of_string (mv_marketId m) = Some i \<and>
     trader_funded E tx acct (bond + fee + 60 * UNIT) funding \<and> bet_placed E i acct betting \<and>
     outcome_proposed E i acct (bond + fee) proposing \<and> market_settled (mv_id m) settling \<and>
     winnings_collected E (mv_id m) i acct collecting \<and> window_returned E window returning)"
proof -
  let ?s0 = "\<lparr>sr_world = w, sr_checks = [], sr_trace = []\<rparr>"
  from assms obtain window bond fee s1 where head: "claimHead E S ?s0 = (Inr (window, bond, fee), s1)"
    by (auto simp: claimScript_def split: prod.splits sum.splits)
  obtain r t where main: "claimMain E S bond fee s1 = (r, t)" by fastforce
  obtain seen u where given: "giveBack E S window 5 t = (seen, u)" by fastforce
  have parts: "seen = Inr True" "u = s" "r = Inr ()" "all_pass t"
    using assms head main given by (auto simp: claimScript_def all_pass_def Let_def split: if_splits)
  obtain e0 where e0: "went ?s0 e0 True s1" "window_shortened E window bond fee e0" using claimHead_ran [OF head] by blast
  obtain e9 where e9: "sr_trace s = sr_trace t @ e9" "window_returned E window e9"
    using giveBack_ran [OF given [unfolded parts(1,2)]] by blast
  obtain tx closeTime m i ms e1 e2 e3 e4 e6 e7 e8 where run:
      "sr_trace t = sr_trace s1 @ e1 @ e2 @ e3 @ e4 @ [ClockReplied ms] @ e6 @ e7 @ e8"
      "probe_created E tx closeTime e1" "market_found m e2" "mv_resolutionRules m \<noteq> []"
      "bigint_of_string (mv_marketId m) = Some i" "trader_funded E tx (traderOf E tx m) (bond + fee + 60 * UNIT) e3"
      "bet_placed E i (traderOf E tx m) e4" "outcome_proposed E i (traderOf E tx m) (bond + fee) e6"
      "market_settled (mv_id m) e7" "winnings_collected E (mv_id m) i (traderOf E tx m) e8"
    using claimMain_ran [OF main [unfolded parts(3)] parts(4)] by (elim exE conjE) (rule that; assumption)
  have traced: "sr_trace s = e0 @ e1 @ e2 @ e3 @ e4 @ [ClockReplied ms] @ e6 @ e7 @ e8 @ e9"
    using e0(1) e9(1) run(1) unfolding went_def by simp
  show ?thesis
    unfolding Let_def
    by (rule exI [of _ window], rule exI [of _ bond], rule exI [of _ fee], rule exI [of _ tx], rule exI [of _ closeTime],
        rule exI [of _ m], rule exI [of _ i], rule exI [of _ ms], rule exI [of _ e0], rule exI [of _ e1], rule exI [of _ e2],
        rule exI [of _ e3], rule exI [of _ e4], rule exI [of _ e6], rule exI [of _ e7], rule exI [of _ e8], rule exI [of _ e9], intro conjI)
      (fact traced e0(2) run e9(2))+
qed

text \<open>A stack that plays its part: its world is the number of the exchange.\<close>

definition claim_client :: claim_env where
  "claim_client = \<lparr>cv_book = \<lparr>cb_engine = ''0xg'', cb_token = ''0xu'', cb_optimisticResolver = ''0xo'', cb_trustedResolver = ''0xt'',
       cb_poolEntrypoint = ''0xe'', cb_numeraForwarder = ''0xf'', cb_resolutionForwarder = ''0xr''\<rparr>,
     cv_admin = ''0xa'', cv_hashes = probe_hashes, cv_tools = client_tools, cv_signer = ce_signer probe_client, cv_keccakHex = id,
     cv_accountOf = id, cv_hkdf = (\<lambda>_ _ _ _. ''0xk''), cv_bytes32 = id, cv_buy = (\<lambda>_ _ _ _. ''buy''),
     cv_propose = (\<lambda>_ _ _. ''propose''), cv_redeem = (\<lambda>_. ''redeem'')\<rparr>"

definition claim_market :: market_view where
  "claim_market = \<lparr>mv_id = ''r'', mv_address = ''0xg'', mv_marketId = dec 3, mv_title = PROBE_TITLE, mv_description = [],
     mv_imageUrl = None, mv_category = None, mv_status = TRADING, mv_tradingOpen = True, mv_resolutionRules = ''R'', mv_startTime = 0,
     mv_notOpenYet = False, mv_closeTime = 305, mv_winningOutcomeId = None, mv_collateral = ''0xu'', mv_collateralDecimals = 6,
     mv_alpha = [], mv_sStar = [], mv_seed = [], mv_pot = [], mv_potHuman = None, mv_surplus = None, mv_outcomeCount = 2,
     mv_outcomes = [], mv_resolution = None\<rparr>"

definition claim_position :: "bool \<Rightarrow> position_view" where
  "claim_position redeemed = \<lparr>pv_marketRef = ''r'', pv_marketTitle = PROBE_TITLE, pv_marketStatus = RESOLVED, pv_marketAddress = ''0xg'',
     pv_marketOnChainId = dec 3, pv_collateral = ''0xu'', pv_account = ''0xk'', pv_outcomeIndex = 0, pv_outcomeLabel = ''Yes'',
     pv_shares = dec 30, pv_costBasis = dec 20, pv_realizedPnl = dec 0, pv_redeemed = redeemed, pv_currentPriceWad = None,
     pv_winning = Some 0, pv_markToMarket = NotDerivable\<rparr>"

definition claim_sample :: "nat claim_stack" where
  "claim_sample = \<lparr>cs_tx = (\<lambda>_ n. (Some ''0xc'', Suc n)),
     cs_read = (\<lambda>_ n. (Some (if n = 5 then 1000 * UNIT else if n = 14 then 60 * UNIT else if n = 20 \<or> n = 33 then 30 * UNIT else 0), Suc n)),
     cs_receipt = (\<lambda>_ n. (Some (), Suc n)), cs_clock = (\<lambda>n. (5000, Suc n)), cs_sleep = (\<lambda>_ n. n),
     cs_markets = (\<lambda>n. (Some [claim_market], Suc n)), cs_market = (\<lambda>_ n. (Some (Some RESOLVED), Suc n)),
     cs_positions = (\<lambda>_ n. (Some [claim_position (n \<noteq> 29)], Suc n)),
     cs_state = (\<lambda>n. (StateBody (probe_views 4), Suc n)), cs_withdraw = (\<lambda>_ n. (Some (200, None), Suc n)),
     cs_relay = (\<lambda>_ _ n. (Some (200, None), Suc n))\<rparr>"

lemma claim_permit: "\<exists>p. permitFor (cv_signer claim_client) ms owner spender amount nonce = Some p"
  by (simp add: permitFor_def Let_def claim_client_def probe_client_def probe_split_v)

lemma claim_body: "\<exists>body. claimWithdrawal claim_client tx acct stake (probe_views 4) = Some body"
  by (simp add: claimWithdrawal_def claimLeaf_def claimNote_def claim_client_def withdrawalFrom_def probe_views_def Let_def probe_defs
    probe_keys [unfolded probe_hashes_def] no_trees_def client_tools_def pad_path_def MAX_DEPTH_def)

lemmas claim_steps = comes_through_def proc_defs asks_def certain_def given_value_def stack_check_def claim_sample_def hashMined_def
  truthy_def nap_def chainTx_def chainRead_def readClock_def

lemma claim_starts: "\<exists>t. comes_through \<lparr>sr_world = 0, sr_checks = [], sr_trace = []\<rparr> 4 (claimHead claim_client claim_sample) (0, 0, 0) t"
  by (simp add: claim_steps claimHead_def readWindow_def setWindow_def all_pass_def)

lemma claim_creates: "sr_world s = 4 \<Longrightarrow> all_pass s \<Longrightarrow> \<exists>t. comes_through s 8 (createProbe claim_client claim_sample) (''0xc'', 305) t"
  by (simp add: claim_steps createProbe_def all_pass_def unix_now_def Let_def)

lemma claim_adopts: "sr_world s = 8 \<Longrightarrow> all_pass s \<Longrightarrow> \<exists>t. comes_through s 9 (adoptProbe claim_sample) claim_market t"
  using awaitProbeMarket.simps(2) [of claim_sample 59]
  by (simp add: claim_steps adoptProbe_def all_pass_def claim_market_def)

lemma claim_settles: "sr_world s = 27 \<Longrightarrow> all_pass s \<Longrightarrow> \<exists>t. comes_through s 28 (awaitSettled claim_sample ref 40) True t"
  using awaitSettled.simps(2) [of claim_sample ref 39] by (simp add: claim_steps all_pass_def)

lemma claim_restores: "sr_world s = 35 \<Longrightarrow> all_pass s \<Longrightarrow> \<exists>t. comes_through s 37 (giveBack claim_client claim_sample 0 5) True t"
  using giveBack.simps(2) [of claim_client claim_sample 0 4] by (simp add: claim_steps setWindow_def readWindow_def all_pass_def)

lemma claim_funds: "sr_world s = 9 \<Longrightarrow> all_pass s \<Longrightarrow>
  \<exists>t. comes_through s 15 (fundTrader claim_client claim_sample tx acct (60 * UNIT)) () t"
proof -
  assume start: "sr_world s = 9" "all_pass s"
  obtain body where body: "claimWithdrawal claim_client tx acct (60 * UNIT) (probe_views 4) = Some body" using claim_body by blast
  have "claimLeaf (cv_hashes claim_client) (claimNote claim_client tx) (pv_leaves (probe_views 4)) \<noteq> None" "pv_synced (probe_views 4)"
    using body by (auto simp: claimWithdrawal_def bind_eq_Some_conv probe_views_def probe_view_def)
  then show ?thesis
    using start body awaitMirrored.simps(2) [of claim_client claim_sample "claimNote claim_client tx" 89]
    by (simp add: claim_steps fundTrader_def Let_def all_pass_def)
qed

lemma claim_bets: "sr_world s = 15 \<Longrightarrow> all_pass s \<Longrightarrow> \<exists>t. comes_through s 21 (placeBet claim_client claim_sample claim_market acct) () t"
proof -
  assume start: "sr_world s = 15" "all_pass s"
  obtain p where "permitFor (cv_signer claim_client) 5000 acct (cb_engine (cv_book claim_client)) (40 * UNIT) 0 = Some p"
    using claim_permit by blast
  then show ?thesis
    using start by (simp add: claim_steps placeBet_def askPermit_def tradeRelay_def relayed_def relayBody_def Let_def all_pass_def
      claim_market_def PROBE_SHARES_def)
qed

lemma claim_sleeps: "sr_world s = 21 \<Longrightarrow> all_pass s \<Longrightarrow> \<exists>t. comes_through s 22 (sleepUntilClose claim_sample 305) () t"
  by (simp add: claim_steps sleepUntilClose_def all_pass_def)

lemma claim_proposes: "sr_world s = 22 \<Longrightarrow> all_pass s \<Longrightarrow>
  \<exists>t. comes_through s 27 (proposeYes claim_client claim_sample claim_market acct 0) () t"
proof -
  assume start: "sr_world s = 22" "all_pass s"
  obtain p where "permitFor (cv_signer claim_client) 5000 acct (cb_optimisticResolver (cv_book claim_client)) 0 0 = Some p"
    using claim_permit by blast
  then show ?thesis
    using start by (simp add: claim_steps proposeYes_def askPermit_def relayed_def relayBody_def Let_def all_pass_def claim_market_def)
qed

lemma claim_collects: "sr_world s = 28 \<Longrightarrow> all_pass s \<Longrightarrow>
  \<exists>t. comes_through s 35 (collect claim_client claim_sample claim_market acct) () t"
  using awaitPosition.simps(2) [of claim_sample acct "mv_id claim_market" 29]
    awaitRedeemed.simps(2) [of claim_sample acct "mv_id claim_market" 29]
  by (simp add: claim_steps collect_def tradeRelay_def relayed_def relayBody_def Let_def all_pass_def claim_market_def
    claim_position_def isClaimable_def PROBE_SHARES_def UNIT_def)

lemma claim_sample_passes: "fst (claimScript claim_client claim_sample 0) = 0"
proof -
  obtain s1 where s1: "claimHead claim_client claim_sample \<lparr>sr_world = 0, sr_checks = [], sr_trace = []\<rparr> = (Inr (0, 0, 0), s1)" "sr_world s1 = 4" "all_pass s1"
    using claim_starts unfolding comes_through_def by blast
  let ?s2 = "s1\<lparr>sr_checks := sr_checks s1 @ [(''the dispute window was shortened for this run'', True)]\<rparr>"
  have s2: "sr_world ?s2 = 4" "all_pass ?s2" using s1 by simp_all
  have acct: "traderOf claim_client ''0xc'' claim_market = ''0xk''"
    by (simp add: traderOf_def claim_client_def marketAccountKey_def)
  from claim_creates [OF s2] obtain s3 where s3: "createProbe claim_client claim_sample ?s2 = (Inr (''0xc'', 305), s3)" "sr_world s3 = 8" "all_pass s3"
    unfolding comes_through_def by blast
  from claim_adopts [OF s3(2,3)] obtain s4 where s4: "adoptProbe claim_sample s3 = (Inr claim_market, s4)" "sr_world s4 = 9" "all_pass s4"
    unfolding comes_through_def by blast
  from claim_funds [OF s4(2,3)] obtain s5 where s5: "fundTrader claim_client claim_sample ''0xc'' ''0xk'' (60 * UNIT) s4 = (Inr (), s5)"
      "sr_world s5 = 15" "all_pass s5" unfolding comes_through_def by blast
  from claim_bets [OF s5(2,3)] obtain s6 where s6: "placeBet claim_client claim_sample claim_market ''0xk'' s5 = (Inr (), s6)"
      "sr_world s6 = 21" "all_pass s6" unfolding comes_through_def by blast
  from claim_sleeps [OF s6(2,3)] obtain s7 where s7: "sleepUntilClose claim_sample 305 s6 = (Inr (), s7)" "sr_world s7 = 22" "all_pass s7"
    unfolding comes_through_def by blast
  from claim_proposes [OF s7(2,3)] obtain s8 where s8: "proposeYes claim_client claim_sample claim_market ''0xk'' 0 s7 = (Inr (), s8)"
      "sr_world s8 = 27" "all_pass s8" unfolding comes_through_def by blast
  from claim_settles [OF s8(2,3)] obtain s9 where s9: "awaitSettled claim_sample (mv_id claim_market) 40 s8 = (Inr True, s9)"
      "sr_world s9 = 28" "all_pass s9" unfolding comes_through_def by blast
  let ?s10 = "s9\<lparr>sr_checks := sr_checks s9 @ [(''nobody disputed, and the market settled itself'', True)]\<rparr>"
  have s10: "sr_world ?s10 = 28" "all_pass ?s10" using s9 by simp_all
  from claim_collects [OF s10] obtain s11 where s11: "collect claim_client claim_sample claim_market ''0xk'' ?s10 = (Inr (), s11)"
      "sr_world s11 = 35" "all_pass s11" unfolding comes_through_def by blast
  from claim_restores [OF s11(2,3)] obtain s12 where s12: "giveBack claim_client claim_sample 0 5 s11 = (Inr True, s12)"
    unfolding comes_through_def by blast
  have "claimMain claim_client claim_sample 0 0 s1 = (Inr (), s11)"
    by (simp add: claimMain_def Let_def acct s3(1) s4(1) s5(1) s6(1) s7(1) s8(1) s9(1) stack_check_def s11(1))
  then show ?thesis using s1(1) s12 s11(3) by (simp add: claimScript_def all_pass_def)
qed

text \<open>So the hypothesis is met: the sample stack passes the probe, and its answers end with the winnings collected and
  the window it had, none, given back.\<close>

theorem passing_claim_run_shows_witness:
  "fst (claimScript claim_client claim_sample 0) = 0 \<and>
   (\<exists>before_it collecting returning m i tx. sr_trace (snd (claimScript claim_client claim_sample 0)) = before_it @ collecting @ returning \<and>
     mv_resolutionRules m \<noteq> [] \<and> winnings_collected claim_client (mv_id m) i (traderOf claim_client tx m) collecting \<and>
     (\<exists>window. window_returned claim_client window returning))"
proof -
  have "claimScript claim_client claim_sample 0 = (0, snd (claimScript claim_client claim_sample 0))"
    by (rule prod_eqI) (simp_all add: claim_sample_passes)
  from passing_claim_run_shows [OF this] obtain window tx m i ms e0 e1 e2 e3 e4 e6 e7 e8 e9 where
      traced: "sr_trace (snd (claimScript claim_client claim_sample 0)) =
        e0 @ e1 @ e2 @ e3 @ e4 @ [ClockReplied ms] @ e6 @ e7 @ e8 @ e9"
      and facts: "mv_resolutionRules m \<noteq> []" "winnings_collected claim_client (mv_id m) i (traderOf claim_client tx m) e8"
        "window_returned claim_client window e9"
    unfolding Let_def by blast
  have "sr_trace (snd (claimScript claim_client claim_sample 0)) = (e0 @ e1 @ e2 @ e3 @ e4 @ [ClockReplied ms] @ e6 @ e7) @ e8 @ e9"
    using traced by simp
  then show ?thesis using claim_sample_passes facts by blast
qed

text \<open>The market is recognised by its title alone: one that an earlier run left among the newest thirty is taken at the
  first look, before the indexer has had a moment to adopt the one just created, and the account, the bet and the
  proposal are then made for it.\<close>

theorem earlier_probe_market_is_adopted:
  assumes "cs_markets S (sr_world s) = (Some items, v)" "old \<in> set items" "mv_title old = PROBE_TITLE"
  shows "\<exists>m \<in> set items. awaitProbeMarket S 60 s = (Inr m, s\<lparr>sr_world := v, sr_trace := sr_trace s @ [MarketsReplied items]\<rparr>)"
proof -
  obtain m where m: "List.find (\<lambda>x. mv_title x = PROBE_TITLE) items = Some m"
    using assms(2,3) by (cases "List.find (\<lambda>x. mv_title x = PROBE_TITLE) items") (auto simp: find_None_iff)
  have "asks MarketsReplied (cs_markets S) s = (Inr items, s\<lparr>sr_world := v, sr_trace := sr_trace s @ [MarketsReplied items]\<rparr>)"
    using assms(1) by (simp add: asks_def)
  then have "awaitProbeMarket S 60 s = (Inr m, s\<lparr>sr_world := v, sr_trace := sr_trace s @ [MarketsReplied items]\<rparr>)"
    using m awaitProbeMarket.simps(2) [of S 59] by simp
  then show ?thesis using m by (auto simp: find_Some_iff)
qed

text \<open>The copy the probe publishes is read back by the indexer, so the market it adopts has rules.\<close>

theorem probe_copy_is_adopted:
  "parseCanonical (cv_keccakHex E) (the (cp_metadata (probeMarket E closeTime))) (cp_metadataHash (probeMarket E closeTime)) = Some probeCopy \<and>
   md_rules probeCopy \<noteq> [] \<and> md_title probeCopy = PROBE_TITLE"
proof -
  have "json_parse (canonicalize probeCopy) = Some (canonical_json probeCopy)"
    by (simp add: canonicalize_def json_parse_stringify)
  then show ?thesis
    by (simp add: probeMarket_def parseCanonical_def canonical_json_def probeCopy_def metadata_of_pairs_def js_str_def
        string_or_null_def json_nullable_def)
qed

end
