(* ===== verification/SeedCatalogue.thy ===== *)
theory SeedCatalogue
  imports SeedingProps
begin

text \<open>
  The markets of \<open>src/scripts/seed-testnet-markets.ts\<close> themselves: that each is one the seeder can create, that each
  is committed to separately, that a label makes a batch of its own, and what an overridden closing time does to the
  one market that opens later.
\<close>

section \<open>The catalogue\<close>

text \<open>Two titles hold an em dash, the one character above 255: it is the argument.\<close>

definition MARKETS :: "string \<Rightarrow> seed_market list" where
  \<open>MARKETS dash =
    [\<lparr>sm_title = ''Argentina vs France '' @ dash @ '' who wins?'',
       sm_description = ''Resolves to the winner at full time, including extra time and penalties. Void if abandoned.'',
       sm_rules = ''Settles to the winner of the match, per the official competition match report. Extra time and penalties '' @
         ''count: a knockout tie always has a winner. If the match is abandoned, postponed beyond the close time, or '' @
         ''awarded without being played, the market is voided.'',
       sm_labels = [''Argentina'', ''France''], sm_closesInHours = Finite 72, sm_opensInHours = None, sm_seed = Some (Finite 500)\<rparr>,
     \<lparr>sm_title = ''Manchester City vs Arsenal'',
       sm_description = ''Match result at full time (90 minutes plus stoppage). Draw is a valid outcome.'',
       sm_rules = ''Settles on the score after 90 minutes plus stoppage time, per the official Premier League match report. Extra '' @
         ''time and penalties do not count. A level score settles Draw. If the match is abandoned or postponed beyond '' @
         ''the close time, the market is voided.'',
       sm_labels = [''Man City'', ''Draw'', ''Arsenal''], sm_closesInHours = Finite 48, sm_opensInHours = None, sm_seed = Some (Finite 500)\<rparr>,
     \<lparr>sm_title = ''Will Arsenal win the Premier League title?'',
       sm_description = ''Resolves YES if Arsenal finish first in the final league table.'',
       sm_rules = ''Settles YES if Arsenal are first in the final Premier League table for the season, as published by the '' @
         ''Premier League once every fixture has been played. Points deductions applied before that publication count. '' @
         ''Any other finishing position settles NO. If the season is abandoned without a published final table, the '' @
         ''market is voided.'',
       sm_labels = [''Yes'', ''No''], sm_closesInHours = Finite 240, sm_opensInHours = None, sm_seed = Some (Finite 1000)\<rparr>,
     \<lparr>sm_title = ''Will Real Madrid beat Barcelona?'',
       sm_description = ''Resolves YES if Real Madrid win in 90 minutes plus stoppage. A draw resolves NO.'',
       sm_rules = ''Settles YES only if Real Madrid lead after 90 minutes plus stoppage time, per the official match report. A '' @
         ''draw settles NO, as does a Barcelona win. Extra time and penalties do not count. If the match is abandoned or '' @
         ''postponed beyond the close time, the market is voided.'',
       sm_labels = [''Yes'', ''No''], sm_closesInHours = Finite (3 / 2), sm_opensInHours = None, sm_seed = Some (Finite 500)\<rparr>,
     \<lparr>sm_title = ''Golden Boot '' @ dash @ '' top scorer'',
       sm_description = ''Resolves to the player with the most goals at the end of the competition. Buy or sell any outcome at any time '' @
         ''before the book closes.'',
       sm_rules = ''Settles to the listed player with the most goals at the end of the competition, per the official top-scorer '' @
         ''standings. Own goals do not count. If the award is shared and more than one listed player is tied at the top, '' @
         ''or the top scorer is not among the listed outcomes, the market is voided.'',
       sm_labels = [''Haaland'', ''Mbapp'' @ [CHR 0xE9], ''Kane'', ''Salah''], sm_closesInHours = Finite 120, sm_opensInHours = None, sm_seed = Some (Finite 800)\<rparr>,
     \<lparr>sm_title = ''Which team scores first?'',
       sm_description = ''Resolves to the team scoring the opening goal. "No goal" resolves a 0-0 draw.'',
       sm_rules = ''Settles to the team credited with the opening goal in the official match report. An own goal counts for the '' @
         ''team it is credited to. A goalless match settles 'No goal'. If the match is abandoned before a goal is '' @
         ''scored, the market is voided.'',
       sm_labels = [''Argentina'', ''France'', ''No goal''], sm_closesInHours = Finite 2, sm_opensInHours = None, sm_seed = Some (Finite 500)\<rparr>,
     \<lparr>sm_title = ''Will the transfer window close without a record fee?'',
       sm_description = ''Opens later today. Resolves NO if any completed transfer exceeds the standing record fee before the window '' @
         ''shuts.'',
       sm_rules = ''Settles YES if no completed permanent transfer during this window exceeds the standing world-record fee, as '' @
         ''reported by the selling club or the receiving league. Loan deals and add-on clauses that have not been '' @
         ''triggered are excluded. Settles NO otherwise.'',
       sm_labels = [''Yes'', ''No''], sm_closesInHours = Finite 24, sm_opensInHours = Some (Finite 1), sm_seed = Some (Finite 500)\<rparr>]\<close>

section \<open>What it holds\<close>

text \<open>Every market can be created: two to four different outcomes, copy that is not empty, a positive subsidy and a book
  that is open for some time.\<close>

definition bookable :: "seed_market \<Rightarrow> bool" where
  "bookable m \<longleftrightarrow> 2 \<le> length (sm_labels m) \<and> length (sm_labels m) \<le> 4 \<and> distinct (sm_labels m) \<and> sm_title m \<noteq> [] \<and> sm_rules m \<noteq> [] \<and>
     (case (sm_closesInHours m, seedOf m) of
        (Finite closes, Finite seed) \<Rightarrow> 0 < seed \<and>
          (case sm_opensInHours m of None \<Rightarrow> 0 < closes | Some (Finite opens) \<Rightarrow> 0 \<le> opens \<and> opens < closes | _ \<Rightarrow> False)
      | _ \<Rightarrow> False)"

theorem catalogue_is_seedable: "list_all bookable (MARKETS dash)"
  by (simp add: MARKETS_def bookable_def seedOf_def)

lemma catalogue_titles: "distinct (map sm_title (MARKETS dash))" "list_all (\<lambda>m. last (sm_title m) \<noteq> CHR '']'') (MARKETS dash)"
  by (simp_all add: MARKETS_def)

text \<open>Each market has its own commitment, so long as the hash does not collide on the copies.\<close>

lemma titles_give_hashes:
  assumes "distinct (map sm_title ms)" "inj_on (sv_keccak E) ((canonicalize \<circ> seedCopy) ` set ms)"
  shows "distinct (map (seedHash E) ms)"
proof -
  have "inj_on sm_title (set ms)" using assms(1) by (simp add: distinct_map)
  then have "inj_on (canonicalize \<circ> seedCopy) (set ms)"
    by (auto simp: inj_on_def canonicalize_injective seedCopy_def)
  then have "inj_on (sv_keccak E \<circ> (canonicalize \<circ> seedCopy)) (set ms)" using assms(2) by (rule comp_inj_on)
  moreover have "seedHash E = sv_keccak E \<circ> (canonicalize \<circ> seedCopy)"
    by (rule ext) (simp add: seedHash_def metadataHashOf_def)
  ultimately show ?thesis using assms(1) by (simp add: distinct_map)
qed

lemma labelled_Some: "labelled (Some t) ms = Inr ns \<Longrightarrow> ns = map (\<lambda>m. m\<lparr>sm_title := sm_title m @ '' ['' @ t @ '']''\<rparr>) ms"
  by (simp add: labelled_def split: if_splits)

text \<open>A label is what makes seeding again possible: every market of a labelled batch has a commitment of its own, no
  market of the unlabelled catalogue has it, and so to a run over a database that has adopted nothing but the catalogue
  the whole batch is still to be created.\<close>

theorem label_makes_a_new_batch:
  assumes "labelled (Some t) (MARKETS dash) = Inr ms" "\<forall>h. adopted h s \<longrightarrow> h \<in> seedHash E ` set (MARKETS dash)"
    and "inj_on (sv_keccak E) ((canonicalize \<circ> seedCopy) ` (set (MARKETS dash) \<union> set ms))"
  shows "distinct (map (seedHash E) ms) \<and> pending E s ms = ms \<and> length ms = 7"
proof -
  let ?tag = "\<lambda>m :: seed_market. m\<lparr>sm_title := sm_title m @ '' ['' @ t @ '']''\<rparr>"
  have ms: "ms = map ?tag (MARKETS dash)" by (rule labelled_Some [OF assms(1)])
  have "map sm_title ms = map (\<lambda>x. x @ '' ['' @ t @ '']'') (map sm_title (MARKETS dash))" by (simp add: ms)
  moreover have "inj_on (\<lambda>x. x @ '' ['' @ t @ '']'') A" for A by (simp add: inj_on_def)
  ultimately have "distinct (map sm_title ms)" using catalogue_titles(1) by (simp only: distinct_map)
  moreover have "inj_on (sv_keccak E) ((canonicalize \<circ> seedCopy) ` set ms)" using assms(3) by (rule inj_on_subset) auto
  ultimately have own: "distinct (map (seedHash E) ms)" by (rule titles_give_hashes)
  have "\<not> adopted (seedHash E m) s" if "m \<in> set ms" for m
  proof
    assume "adopted (seedHash E m) s"
    then obtain n where n: "n \<in> set (MARKETS dash)" "seedHash E m = seedHash E n" using assms(2) by auto
    then have "canonicalize (seedCopy m) = canonicalize (seedCopy n)"
      using inj_onD [OF assms(3), of "(canonicalize \<circ> seedCopy) m" "(canonicalize \<circ> seedCopy) n"] that
      by (simp add: seedHash_def metadataHashOf_def)
    then have "sm_title m = sm_title n" by (simp add: canonicalize_injective seedCopy_def)
    moreover have "last (sm_title m) = CHR '']''" using that by (auto simp: ms)
    moreover have "last (sm_title n) \<noteq> CHR '']''" using catalogue_titles(2) n(1) by (auto simp: list_all_iff)
    ultimately show False by simp
  qed
  then have "pending E s ms = ms" by (simp add: pending_def)
  moreover have "length ms = 7" by (simp add: ms MARKETS_def)
  ultimately show ?thesis using own by blast
qed

lemma label_makes_a_new_batch_witness:
  "\<exists>ms. labelled (Some ''round2'') (MARKETS []) = Inr ms \<and> distinct (map (seedHash sample_seed_env) ms) \<and>
     pending sample_seed_env sample_script_state ms = ms \<and> length ms = 7"
proof -
  have "list_all label_char ''round2''" by code_simp
  then obtain ms where run: "labelled (Some ''round2'') (MARKETS []) = Inr ms" by (simp add: labelled_def)
  have "\<forall>h. adopted h sample_script_state \<longrightarrow> h \<in> seedHash sample_seed_env ` set (MARKETS [])"
    by (simp add: adopted_def sample_script_state_def)
  moreover have "inj_on (sv_keccak sample_seed_env) A" for A by (simp add: sample_seed_env_def)
  ultimately show ?thesis using run label_makes_a_new_batch [OF run] by blast
qed

text \<open>\<open>--closes-in\<close> moves the closing time of every market and leaves the opening time of the one that opens in an
  hour: with one hour its book closes the moment it opens, the window of zero length the script means to refuse.\<close>

theorem short_closing_leaves_an_empty_window:
  assumes "closingIn (Some t) (MARKETS dash) = Inr ms" "number_of_string t = Finite 1"
  shows "\<exists>m \<in> set ms. startTimeOf E m = secondsFrom (sv_now E) (sm_closesInHours m) (Finite 3600) \<and>
    (\<forall>book p. createParams E book m = Some p \<longrightarrow> cp_startTime p = Some (cp_closeTime p))"
proof -
  have ms: "ms = map (\<lambda>m. m\<lparr>sm_closesInHours := Finite 1\<rparr>) (MARKETS dash)"
    using assms by (simp add: closingIn_def split: if_splits)
  define m where "m = last ms"
  have m: "m \<in> set ms" "sm_closesInHours m = Finite 1" "sm_opensInHours m = Some (Finite 1)"
    by (simp_all add: m_def ms MARKETS_def)
  then have start: "startTimeOf E m = secondsFrom (sv_now E) (sm_closesInHours m) (Finite 3600)" by (simp add: startTimeOf_def)
  then have "createParams E book m = Some p \<Longrightarrow> cp_startTime p = Some (cp_closeTime p)" for book p
    by (auto simp: createParams_def split: option.splits)
  then show ?thesis using m(1) start by blast
qed

lemma short_closing_leaves_an_empty_window_witness:
  "closingIn (Some ''1'') (MARKETS []) = Inr (map (\<lambda>m. m\<lparr>sm_closesInHours := Finite 1\<rparr>) (MARKETS [])) \<and>
   (\<exists>m \<in> set (map (\<lambda>m. m\<lparr>sm_closesInHours := Finite 1\<rparr>) (MARKETS [])).
      startTimeOf sample_seed_env m = secondsFrom 1700000000 (Finite 1) (Finite 3600))"
proof -
  have one: "number_of_string ''1'' = Finite 1" by code_simp
  then have run: "closingIn (Some ''1'') (MARKETS []) = Inr (map (\<lambda>m. m\<lparr>sm_closesInHours := Finite 1\<rparr>) (MARKETS []))"
    by (simp add: closingIn_def positive_finite_def)
  show ?thesis
    using run short_closing_leaves_an_empty_window [OF run one, of sample_seed_env] by (auto simp: sample_seed_env_def)
qed

end
