(* ===== verification/Spec2Isabelle.thy ===== *)
theory Spec2Isabelle
  imports IndexerProps CreationProps Supply Trading Realtime PoolProps PoolLock PoolServiceProps RelayCap RelayBoot
    Settlement AuthProps ConfigProps PriceHistory MarketCache Unlink
    ChainClient Health Profiles SeedingProps OperatorTools LiveFeed Probes Daemons AuthHttp Routing
    ChainWiring ResolutionProbes StackRun ClaimRun SeedCatalogue
begin

text \<open>
  A model of the Numera backend: the NestJS service under \<open>src/src/\<close> that mirrors the prediction-market
  contracts into PostgreSQL, serves them, relays gasless transactions and keeps the shielded pool's tree.

  \<^bold>\<open>Foundations.\<close> \<open>Prelude\<close> holds the numbers and strings of JavaScript (\<open>BigInt\<close> parsing and printing, \<open>Number\<close>
  rounding of integers, \<open>toLowerCase\<close>, the stable sort, locale \<open>comparator\<close>). \<open>Effects\<close> is the shape of every
  handler: a state, an error or a result, and a state in which the statements executed before an error
  remain (locale \<open>step_order\<close>: a reflexive and transitive relation every statement keeps is kept by the
  program). \<open>Store\<close> is a table with a unique key (locale \<open>unique_store\<close>, interpreted for every table).
  \<open>Json\<close> is \<open>JSON.stringify\<close> and \<open>JSON.parse\<close> on the documents the code writes. \<open>Schema\<close> is
  \<open>prisma/schema.prisma\<close>, one record per table the handlers touch.

  \<^bold>\<open>From the chain to the tables.\<close> \<open>ProcessorState\<close>, \<open>MarketCreation\<close>, \<open>Ledger\<close>, \<open>Resolution\<close> and
  \<open>EventProcessor\<close> are \<open>src/src/chain/event-processor.service.ts\<close>: one definition for each handler and the
  dispatch of \<open>processBatch\<close>. \<open>Indexer\<close> is \<open>indexer.service.ts\<close>: the block ranges of a tick, the collection and
  ordering of logs, the cursor and the loop. Shown: \<open>LedgerProps\<close>, \<open>Trading\<close> (what a purchase, a sale and a
  short book, and what a re-scan books twice), \<open>Frames\<close>, \<open>Lifecycle\<close> (the resolution rows refine the
  resolver's state machine, the ban list the ban events), \<open>Integrity\<close> and \<open>Supply\<close> (keys, references and the
  backing of the supply survive every batch, complete or broken off), \<open>CreationProps\<close> (creation, published
  copy, what stops a batch), \<open>IndexerProps\<close> (the committed batches are the chain's logs, each once and in
  order, whatever fails in between).

  \<^bold>\<open>Market copy.\<close> \<open>MetadataHash\<close> is \<open>src/src/admin/metadata-hash.ts\<close>: the canonical encoding is read back
  exactly and only a hash collision can replace the committed copy.

  \<^bold>\<open>The relay.\<close> \<open>PromiseChain\<close> is the queue of \<open>RelayService.enqueue\<close> and \<open>PoolService.exclusively\<close> as a step
  relation: a lock, first come first served. \<open>Relay\<close> is \<open>src/src/relay/relay.service.ts\<close>; \<open>RelayProps\<close> shows what
  has been checked when a transaction is sent and what exactly is sent, \<open>RelayCap\<close> what a day of requests can
  spend, each passing the cap, verified, queued, sent, charged and stamped in steps of its own that interleave, \<open>RelayBoot\<close> when boot enables the relay. \<open>Settlement\<close> is \<open>settlement.service.ts\<close>.

  \<^bold>\<open>The shielded pool.\<close> \<open>PoolMirror\<close> and \<open>PoolProps\<close> are the leaf indexer and the trees (\<open>src/src/pool/\<close>): the
  mirror is the chain. \<open>PoolService\<close> is the service, \<open>PoolServiceProps\<close> what a withdrawal sends and under
  which root, \<open>PoolLock\<close> the interleaving of the publish-then-relay pairs with the chain.
  \<open>Daemons\<close> is the leaf indexer's loop with its ticks in flight, and the loops of the main indexer and of the settlement
  keeper under the same contract (locale \<open>lone_worker\<close>): one pass at a time, and always a next one until stopped.
  \<open>PoolClient\<close> is the client end of \<open>scripts/pool-integration.mjs\<close>: notes, rebuilt trees, the body of a withdrawal and
  the recovery walk, a loop without a bound of its own; \<open>PoolClientProps\<close> composes it with the mirror and the service (a
  proof from a served view is accepted, a balance is rebuilt from the public leaves, the walk returns). \<open>Probes\<close> is
  what \<open>scripts/claim-e2e.mjs\<close> signs and posts and the dispute window it shortens and gives back.

  \<^bold>\<open>Accounts and readers.\<close> \<open>Auth\<close> and \<open>AuthProps\<close> are the wallet sign-in (\<open>src/src/auth/\<close>); \<open>Realtime\<close> is the
  socket gateway, \<open>PubSub\<close> the subscriptions of the Redis client under it and \<open>LiveFeed\<close> the way of a batch's news to the sockets; \<open>MarketViews\<close> the public views of markets, positions and trades, \<open>MarketCache\<close> their short-lived
  copies in Redis and how old a served answer can be, \<open>PriceHistory\<close> candles and sparklines; \<open>AdminViews\<close> the operator's
  queue, drafts, on-chain roles and the binding of shielded identities. \<open>Http\<close> is the edge: what a status tells
  about a relayed request, and which token and role an operator route needs; \<open>AuthHttp\<close> the sign-in routes. \<open>Unlink\<close> (\<open>src/src/unlink/\<close>) is the
  registration payload's schema, registration and tokens, and the interleaving of concurrent registrations with the
  two statements of a binding; \<open>Profiles\<close> the users' own page; \<open>ChainClient\<close> the memo of block times and the live
  contract reads, and \<open>ChainWiring\<close> its clients' start and what the relay, the pool and the role checks are given of them
  (a backend whose chain is not configured stays up and refuses); \<open>Health\<close> the probes, composed with the indexer's tick.
  \<open>Routing\<close> is the front door: the controllers' routes under the global prefix, the rate limit and the token guard in
  their order, matched without regard to case as the router does, and the connections to Redis.

  \<^bold>\<open>Configuration.\<close> \<open>JsNumber\<close> is IEEE doubles as rounded rationals and \<open>Number(string)\<close>; \<open>Config\<close> is
  \<open>src/src/config/\<close>, the schema of the environment, its guards and the settings it becomes; \<open>ConfigProps\<close> shows
  what an accepted environment's settings are and that it meets the hypotheses of the components' theorems.

  \<^bold>\<open>Operator scripts.\<close> \<open>Scripts\<close> is what the command-line tools under \<open>src/scripts/\<close> share: their flags, double
  arithmetic, a wallet and the node. \<open>Seeding\<close> is \<open>seed-testnet-markets.ts\<close> and \<open>create-short-market.ts\<close>, \<open>SeedingProps\<close>
  what a run creates, what a second one repeats and how the indexer lists it, \<open>SeedCatalogue\<close> its seven markets, and the categories of \<open>prisma/seed.ts\<close>; \<open>OperatorTools\<close> is
  \<open>resolve-market.ts\<close>, \<open>grant-role.ts\<close>, \<open>fund-paymaster.ts\<close>, \<open>fund-tester.ts\<close> and \<open>paymaster-status.ts\<close>.

  \<^bold>\<open>End-to-end scripts.\<close> Each is one program over an unknown counterpart, with what a run that exits with zero has shown
  of it. \<open>ProbeRun\<close> and \<open>ResolutionProbes\<close> are \<open>e2e-operator.mjs\<close> and \<open>e2e-resolution.mjs\<close>, whose chain answers by the trace
  of everything exchanged; \<open>StackRun\<close> is \<open>pool-integration.mjs\<close> and \<open>ClaimRun\<close> \<open>claim-e2e.mjs\<close>, whose stack is a state any
  exchange may change; a run records everything it was answered, so that what a passing run shows is the whole list of
  its exchanges, in order. \<open>StackRun\<close> also sets two of the refusals it asks for against the modelled backend.

  \<^bold>\<open>Parameters.\<close> Code outside \<open>src/\<close> is an argument: Keccak, the Merkle root function, viem's encodings, address
  check and SIWE parser, the JWT library, the node's answers, the clock and the identifiers the database
  draws, and for the scripts the address book, \<open>Math.log\<close> and \<open>Math.sqrt\<close>. Hypotheses about
  them are stated where they are used (fresh identifiers, logs that do not change once final, gas estimates
  that are not negative).

  \<^bold>\<open>Bounds and recursion.\<close> Chain integers are unbounded \<open>int\<close>, as \<open>BigInt\<close> is; values that pass through a
  JavaScript number go through \<open>js_number\<close>. The recovery walk of the pool's client is a \<open>partial_function\<close>, which
  \<open>recovery_returns\<close> shows to return; every other function is total: the retry loops of the relay's boot
  end by a measure on the attempts left, \<open>plan\<close> by the ranges left in its budget, and the walk of an error's
  causes by the eight nodes the code looks at.

  \<^bold>\<open>Fuel.\<close> The loops of the end-to-end scripts take their number of looks as the source has it (60, 90, 40, 30, 5) and
  end in the source's own way when it is used up; only \<open>waitForClose\<close>, a loop without a bound, has fuel, and
  \<open>waitForClose_ends\<close> says when it is enough.

  \<^bold>\<open>Not modelled.\<close> The framework's part of HTTP (the validation pipes' reflection, the throttler's store, Swagger, the
  security headers), dependency injection and the log lines, the connection hooks of Prisma, the environment files and
  the typed-data encodings of the end-to-end scripts, the vendor SDK behind \<open>unlink.service.ts\<close>, and the transport under viem's clients, whose answers are parameters.
\<close>

end
